(* ===== verification/Prelude.thy ===== *)
theory Prelude
  imports Main "HOL-Library.AList" "HOL-Library.Sublist" "HOL-Library.Word"
    "HOL-Library.List_Lexorder" "HOL-Library.Char_ord"
begin

text \<open>
  Shared vocabulary of the development: the parts of Rust's standard library the sources use on
  strings (a \<open>String\<close> is the list of its UTF-8 bytes, so \<open>len\<close> is \<open>length\<close>), association lists
  standing for \<open>HashMap\<close> and \<open>IndexMap\<close>, and the interfaces several components share: a keyed
  store and a machine with an invariant.
\<close>

named_theorems str_simps \<open>characters and strings\<close>
named_theorems kv_simps \<open>association lists used as maps\<close>

type_synonym u32 = "32 word"
type_synonym u64 = "64 word"
type_synonym bytes = string
type_synonym ('k, 'v) kv = "('k \<times> 'v) list"

abbreviation byte_of :: "char \<Rightarrow> nat" where
  "byte_of c \<equiv> of_char c"

section \<open>Characters and strings\<close>

definition is_ascii_digit :: "char \<Rightarrow> bool" where
  "is_ascii_digit c \<longleftrightarrow> 48 \<le> byte_of c \<and> byte_of c \<le> 57"

definition is_ascii_lowercase :: "char \<Rightarrow> bool" where
  "is_ascii_lowercase c \<longleftrightarrow> 97 \<le> byte_of c \<and> byte_of c \<le> 122"

definition is_ascii_uppercase :: "char \<Rightarrow> bool" where
  "is_ascii_uppercase c \<longleftrightarrow> 65 \<le> byte_of c \<and> byte_of c \<le> 90"

definition is_ascii_alphanumeric :: "char \<Rightarrow> bool" where
  "is_ascii_alphanumeric c \<longleftrightarrow> is_ascii_digit c \<or> is_ascii_lowercase c \<or> is_ascii_uppercase c"

definition to_ascii_lowercase :: "char \<Rightarrow> char" where
  "to_ascii_lowercase c = (if is_ascii_uppercase c then char_of (byte_of c + 32) else c)"

lemmas ascii_defs = is_ascii_digit_def is_ascii_lowercase_def is_ascii_uppercase_def
  is_ascii_alphanumeric_def to_ascii_lowercase_def

lemma byte_of_lt [simp]: "byte_of c < 256"
  using of_char_mod_256 [of c, where 'a = nat] by (metis mod_less_divisor zero_less_numeral)

lemma byte_of_char_of [simp]: "n < 256 \<Longrightarrow> byte_of (char_of n) = n"
  by (simp add: take_bit_nat_eq_self)

lemma to_ascii_lowercase_idem [simp]:
  "to_ascii_lowercase (to_ascii_lowercase c) = to_ascii_lowercase c"
  by (auto simp: to_ascii_lowercase_def is_ascii_uppercase_def)

lemma to_ascii_lowercase_alnum [simp]:
  "is_ascii_alphanumeric (to_ascii_lowercase c) = is_ascii_alphanumeric c"
  by (auto simp: ascii_defs)

lemma to_ascii_lowercase_lower [simp]:
  "is_ascii_lowercase c \<or> is_ascii_digit c \<Longrightarrow> to_ascii_lowercase c = c"
  by (auto simp: ascii_defs)

definition eq_ignore_ascii_case :: "string \<Rightarrow> string \<Rightarrow> bool" where
  "eq_ignore_ascii_case s t \<longleftrightarrow> map to_ascii_lowercase s = map to_ascii_lowercase t"

lemma eq_ignore_ascii_case_refl [simp]: "eq_ignore_ascii_case s s"
  by (simp add: eq_ignore_ascii_case_def)

definition starts_with :: "string \<Rightarrow> string \<Rightarrow> bool" where
  "starts_with s p \<longleftrightarrow> prefix p s"

definition ends_with :: "string \<Rightarrow> string \<Rightarrow> bool" where
  "ends_with s p \<longleftrightarrow> suffix p s"

definition str_contains :: "string \<Rightarrow> string \<Rightarrow> bool" where
  "str_contains s p \<longleftrightarrow> sublist p s"

text \<open>\<open>str::split(char)\<close> keeps the empty pieces; \<open>join\<close> is its inverse for the same separator.\<close>

fun split_on :: "char \<Rightarrow> string \<Rightarrow> string list" where
  "split_on c [] = [[]]"
| "split_on c (x # xs) =
     (if x = c then [] # split_on c xs
      else (case split_on c xs of [] \<Rightarrow> [[x]] | y # ys \<Rightarrow> (x # y) # ys))"

fun join :: "string \<Rightarrow> string list \<Rightarrow> string" where
  "join sep [] = []"
| "join sep [x] = x"
| "join sep (x # y # ys) = x @ sep @ join sep (y # ys)"

lemma split_on_neq_Nil [simp]: "split_on c s \<noteq> []"
  by (cases s) (auto split: list.splits)

lemma split_on_no_sep: "x \<in> set (split_on c s) \<Longrightarrow> c \<notin> set x"
  by (induction s arbitrary: x) (auto split: list.splits if_splits)

lemma split_on_subset: "x \<in> set (split_on c s) \<Longrightarrow> set x \<subseteq> set s"
  by (induction s arbitrary: x) (fastforce split: list.splits if_splits)+

lemma split_on_plain: "c \<notin> set s \<Longrightarrow> split_on c s = [s]"
  by (induction s) auto

lemma split_on_append_sep: "c \<notin> set x \<Longrightarrow> split_on c (x @ c # s) = x # split_on c s"
  by (induction x) auto

lemma split_on_join:
  "xs \<noteq> [] \<Longrightarrow> (\<And>x. x \<in> set xs \<Longrightarrow> c \<notin> set x) \<Longrightarrow> split_on c (join [c] xs) = xs"
  by (induction "[c]" xs rule: join.induct) (simp_all add: split_on_plain split_on_append_sep)

lemma set_join: "set (join sep xs) \<subseteq> \<Union> (set ` set xs) \<union> set sep"
  by (induction sep xs rule: join.induct) auto

lemma join_split_on: "join [c] (split_on c s) = s"
proof (induction s)
  case (Cons x xs)
  obtain y ys where yys: "split_on c xs = y # ys" by (cases "split_on c xs") auto
  with Cons show ?case by (cases ys) auto
qed simp

text \<open>\<open>str::split_once(pat)\<close>: the text around the first occurrence.\<close>

fun split_once :: "string \<Rightarrow> string \<Rightarrow> (string \<times> string) option" where
  "split_once pat [] = (if pat = [] then Some ([], []) else None)"
| "split_once pat (x # xs) =
     (if prefix pat (x # xs) then Some ([], drop (length pat) (x # xs))
      else map_option (\<lambda>(a, b). (x # a, b)) (split_once pat xs))"

lemma split_once_Some: "split_once pat s = Some (a, b) \<Longrightarrow> s = a @ pat @ b"
  by (induction s arbitrary: a) (auto simp: prefix_def split: if_splits)

text \<open>\<open>sort\<close> followed by \<open>dedup\<close>; strings are ordered by their bytes.\<close>

definition sort_dedup :: "string list \<Rightarrow> string list" where
  "sort_dedup xs = remdups_adj (sort xs)"

lemma set_sort_dedup [simp]: "set (sort_dedup xs) = set xs"
  by (simp add: sort_dedup_def)

lemma sorted_sort_dedup [simp]: "sorted (sort_dedup xs)"
  by (simp add: sort_dedup_def)

section \<open>White space\<close>

text \<open>
  The UTF-8 encodings of the code points with the Unicode \<open>White_Space\<close> property, which is what
  \<open>char::is_whitespace\<close> tests and hence what \<open>trim\<close> and \<open>split_whitespace\<close> remove.
\<close>

definition ws_encodings :: "string list" where
  "ws_encodings =
     map (map char_of)
       ([[9], [10], [11], [12], [13], [32], [194, 133], [194, 160], [225, 154, 128]]
        @ map (\<lambda>b. [226, 128, b]) [128..<139]
        @ [[226, 128, 168], [226, 128, 169], [226, 128, 175], [226, 129, 159], [227, 128, 128::nat]])"

definition ws_prefix :: "string \<Rightarrow> string option" where
  "ws_prefix s = find (\<lambda>w. prefix w s) ws_encodings"

definition ws_suffix :: "string \<Rightarrow> string option" where
  "ws_suffix s = find (\<lambda>w. suffix w s) ws_encodings"

lemma ws_encodings_neq_Nil: "w \<in> set ws_encodings \<Longrightarrow> w \<noteq> []"
  by (auto simp: ws_encodings_def)

lemma find_SomeD: "find P xs = Some x \<Longrightarrow> x \<in> set xs \<and> P x"
  by (auto simp: find_Some_iff)

lemma ws_prefix_len: "ws_prefix s = Some w \<Longrightarrow> length s - length w < length s"
  by (cases s) (auto simp: ws_prefix_def dest!: find_SomeD dest: ws_encodings_neq_Nil)

lemma ws_suffix_len: "ws_suffix s = Some w \<Longrightarrow> length s - length w < length s"
  by (cases s) (auto simp: ws_suffix_def dest!: find_SomeD dest: ws_encodings_neq_Nil)

function trim_start :: "string \<Rightarrow> string" where
  "trim_start s = (case ws_prefix s of None \<Rightarrow> s | Some w \<Rightarrow> trim_start (drop (length w) s))"
  by pat_completeness auto
termination
  by (relation "measure length") (simp_all add: ws_prefix_len)

function trim_end :: "string \<Rightarrow> string" where
  "trim_end s = (case ws_suffix s of None \<Rightarrow> s
     | Some w \<Rightarrow> trim_end (take (length s - length w) s))"
  by pat_completeness auto
termination
  by (relation "measure length") (simp_all add: ws_suffix_len)

declare trim_start.simps [simp del] trim_end.simps [simp del]

definition trim :: "string \<Rightarrow> string" where
  "trim s = trim_end (trim_start s)"

lemma length_trim_start: "length (trim_start s) \<le> length s"
proof (induction s rule: trim_start.induct)
  case (1 s)
  show ?case
  proof (cases "ws_prefix s")
    case (Some w)
    with 1 have "length (trim_start (drop (length w) s)) \<le> length s - length w" by simp
    then show ?thesis using Some by (subst trim_start.simps) simp
  qed (subst trim_start.simps, simp)
qed

lemma length_trim_end: "length (trim_end s) \<le> length s"
proof (induction s rule: trim_end.induct)
  case (1 s)
  show ?case
  proof (cases "ws_suffix s")
    case (Some w)
    with 1 have "length (trim_end (take (length s - length w) s)) \<le> length s - length w" by simp
    then show ?thesis using Some by (subst trim_end.simps) simp
  qed (subst trim_end.simps, simp)
qed

lemma length_trim: "length (trim s) \<le> length s"
  unfolding trim_def by (rule order_trans [OF length_trim_end length_trim_start])

function remove_whitespace :: "string \<Rightarrow> string" where
  "remove_whitespace [] = []"
| "remove_whitespace (c # cs) =
     (case ws_prefix (c # cs) of
        None \<Rightarrow> c # remove_whitespace cs
      | Some w \<Rightarrow> remove_whitespace (drop (length w) (c # cs)))"
  by pat_completeness auto
termination
  by (relation "measure length") (auto dest: ws_prefix_len)

text \<open>\<open>split_whitespace().collect().join(" ")\<close>: each run of white space becomes one space.\<close>

function split_whitespace_acc :: "string \<Rightarrow> string \<Rightarrow> string list" where
  "split_whitespace_acc acc [] = (if acc = [] then [] else [acc])"
| "split_whitespace_acc acc (c # cs) =
     (case ws_prefix (c # cs) of
        None \<Rightarrow> split_whitespace_acc (acc @ [c]) cs
      | Some w \<Rightarrow> (if acc = [] then [] else [acc]) @ split_whitespace_acc [] (drop (length w) (c # cs)))"
  by pat_completeness auto
termination
  by (relation "measure (\<lambda>(a, s). length s)") (auto dest: ws_prefix_len)

definition split_whitespace :: "string \<Rightarrow> string list" where
  "split_whitespace s = split_whitespace_acc [] s"

text \<open>
  An ASCII character is white space or it is not; only the other encodings need the table. These are
  the equations an evaluation uses.
\<close>

definition ascii_blank :: "char \<Rightarrow> bool" where
  "ascii_blank c \<longleftrightarrow> (let n = byte_of c in n = 32 \<or> (9 \<le> n \<and> n \<le> 13))"

lemma byte_of_eq: "byte_of c = n \<Longrightarrow> c = char_of n"
  by auto

lemma ws_encodings_ascii:
  "w \<in> set ws_encodings \<Longrightarrow> byte_of (hd w) < 128 \<or> byte_of (last w) < 128 \<Longrightarrow>
     \<exists>c. w = [c] \<and> ascii_blank c"
  by (auto simp: ws_encodings_def ascii_blank_def Let_def)

lemma ws_encodings_blank: "ascii_blank c \<Longrightarrow> [c] \<in> set ws_encodings"
proof -
  assume "ascii_blank c"
  then consider "byte_of c = 9" | "byte_of c = 10" | "byte_of c = 11" | "byte_of c = 12" | "byte_of c = 13" | "byte_of c = 32"
    unfolding ascii_blank_def Let_def by linarith
  then show ?thesis by cases (simp_all add: ws_encodings_def byte_of_eq)
qed

lemma find_unique:
  "(\<And>y. y \<in> set xs \<Longrightarrow> P y \<Longrightarrow> y = x) \<Longrightarrow> find P xs = (if x \<in> set xs \<and> P x then Some x else None)"
  by (induction xs) auto

lemma ws_prefix_code [code]:
  "ws_prefix s = (case s of [] \<Rightarrow> None
     | c # _ \<Rightarrow> if byte_of c < 128 then (if ascii_blank c then Some [c] else None)
       else find (\<lambda>w. prefix w s) ws_encodings)"
proof (cases s)
  case Nil
  then show ?thesis by (auto simp: ws_prefix_def find_None_iff dest: ws_encodings_neq_Nil)
next
  case (Cons c t)
  have "w = [c] \<and> ascii_blank c" if "w \<in> set ws_encodings" "prefix w s" "byte_of c < 128" for w
  proof -
    from that(2) ws_encodings_neq_Nil [OF that(1)] Cons have "hd w = c"
      by (cases w) (auto simp: prefix_def)
    with ws_encodings_ascii [OF that(1)] that(3) show ?thesis by auto
  qed
  then have "find (\<lambda>w. prefix w s) ws_encodings = (if ascii_blank c then Some [c] else None)" if "byte_of c < 128"
    using that ws_encodings_blank [of c] Cons
      find_unique [where x = "[c]" and P = "\<lambda>w. prefix w s" and xs = ws_encodings]
    by (metis append_Cons append_Nil prefix_def)
  then show ?thesis by (simp add: Cons ws_prefix_def)
qed

lemma ws_suffix_code [code]:
  "ws_suffix s = (if s = [] then None
     else let c = last s in
       if byte_of c < 128 then (if ascii_blank c then Some [c] else None)
       else find (\<lambda>w. suffix w s) ws_encodings)"
proof (cases "s = []")
  case True
  then show ?thesis by (auto simp: ws_suffix_def find_None_iff dest: ws_encodings_neq_Nil)
next
  case False
  have "w = [last s] \<and> ascii_blank (last s)" if "w \<in> set ws_encodings" "suffix w s" "byte_of (last s) < 128" for w
  proof -
    from that(2) ws_encodings_neq_Nil [OF that(1)] have "last w = last s" by (auto simp: suffix_def)
    with ws_encodings_ascii [OF that(1)] that(3) show ?thesis by auto
  qed
  moreover have "suffix [last s] s" using False by (metis append_butlast_last_id suffix_def)
  ultimately have "find (\<lambda>w. suffix w s) ws_encodings = (if ascii_blank (last s) then Some [last s] else None)"
    if "byte_of (last s) < 128"
    using that ws_encodings_blank [of "last s"]
      find_unique [where x = "[last s]" and P = "\<lambda>w. suffix w s" and xs = ws_encodings] by metis
  with False show ?thesis by (simp add: ws_suffix_def Let_def)
qed

section \<open>UTF-8 validity\<close>

text \<open>
  \<open>std::str::from_utf8\<close>: the well-formed byte sequences of the Unicode standard (no overlong
  forms, no surrogates, nothing above U+10FFFF).
\<close>

definition cont_byte :: "char \<Rightarrow> bool" where
  "cont_byte c \<longleftrightarrow> 128 \<le> byte_of c \<and> byte_of c \<le> 191"

definition in_range :: "nat \<Rightarrow> nat \<Rightarrow> char \<Rightarrow> bool" where
  "in_range lo hi c \<longleftrightarrow> lo \<le> byte_of c \<and> byte_of c \<le> hi"

definition utf8_3 :: "char \<Rightarrow> char \<Rightarrow> bool" where
  "utf8_3 a b \<longleftrightarrow>
     (byte_of a = 224 \<and> in_range 160 191 b) \<or> (in_range 225 236 a \<and> cont_byte b) \<or>
     (byte_of a = 237 \<and> in_range 128 159 b) \<or> (in_range 238 239 a \<and> cont_byte b)"

definition utf8_4 :: "char \<Rightarrow> char \<Rightarrow> bool" where
  "utf8_4 a b \<longleftrightarrow>
     (byte_of a = 240 \<and> in_range 144 191 b) \<or> (in_range 241 243 a \<and> cont_byte b) \<or>
     (byte_of a = 244 \<and> in_range 128 143 b)"

fun valid_utf8 :: "bytes \<Rightarrow> bool" where
  "valid_utf8 [] = True"
| "valid_utf8 (a # s) =
     (if byte_of a < 128 then valid_utf8 s
      else (case s of
          b # s2 \<Rightarrow>
            if in_range 194 223 a then cont_byte b \<and> valid_utf8 s2
            else (case s2 of
                c # s3 \<Rightarrow>
                  if utf8_3 a b then cont_byte c \<and> valid_utf8 s3
                  else (case s3 of
                      d # s4 \<Rightarrow> utf8_4 a b \<and> cont_byte c \<and> cont_byte d \<and> valid_utf8 s4
                    | [] \<Rightarrow> False)
              | [] \<Rightarrow> False)
        | [] \<Rightarrow> False))"

lemma valid_utf8_ascii: "(\<And>c. c \<in> set s \<Longrightarrow> byte_of c < 128) \<Longrightarrow> valid_utf8 s"
  by (induction s) auto

section \<open>Numerals\<close>

text \<open>
  \<open>format!("\{:0wx}")\<close> and decimal printing, and \<open>from_str_radix\<close>: one leading \<open>+\<close> is accepted, a
  bare sign is not, and the digits may be of either case.
\<close>

definition hex_digit :: "nat \<Rightarrow> char" where
  "hex_digit n = (if n < 10 then char_of (48 + n) else char_of (87 + n))"

definition hex_value :: "char \<Rightarrow> nat option" where
  "hex_value c =
     (if is_ascii_digit c then Some (byte_of c - 48)
      else if 97 \<le> byte_of c \<and> byte_of c \<le> 102 then Some (byte_of c - 87)
      else if 65 \<le> byte_of c \<and> byte_of c \<le> 70 then Some (byte_of c - 55)
      else None)"

fun digits_of :: "nat \<Rightarrow> nat \<Rightarrow> string" where
  "digits_of b n =
     (if b < 2 \<or> n < b then [hex_digit n] else digits_of b (n div b) @ [hex_digit (n mod b)])"

declare digits_of.simps [simp del]

definition pad_left :: "nat \<Rightarrow> char \<Rightarrow> string \<Rightarrow> string" where
  "pad_left w c s = replicate (w - length s) c @ s"

definition format_hex :: "nat \<Rightarrow> nat \<Rightarrow> string" where
  "format_hex w n = pad_left w (CHR ''0'') (digits_of 16 n)"

definition show_nat :: "nat \<Rightarrow> string" where
  "show_nat n = digits_of 10 n"

text \<open>The digit loop, with \<open>usize\<close>'s checked multiply and add.\<close>

fun hex_digits_value :: "nat \<Rightarrow> string \<Rightarrow> nat option" where
  "hex_digits_value acc [] = Some acc"
| "hex_digits_value acc (c # cs) =
     (case hex_value c of None \<Rightarrow> None
      | Some d \<Rightarrow> if acc * 16 + d < 2 ^ 64 then hex_digits_value (acc * 16 + d) cs else None)"

definition from_str_radix16 :: "string \<Rightarrow> nat option" where
  "from_str_radix16 s =
     (if s = [] \<or> s = ''+'' \<or> s = ''-'' then None
      else if hd s = CHR ''+'' then hex_digits_value 0 (tl s)
      else hex_digits_value 0 s)"

lemma hex_value_hex_digit [simp]: "n < 16 \<Longrightarrow> hex_value (hex_digit n) = Some n"
  by (auto simp: hex_value_def hex_digit_def is_ascii_digit_def)

lemma hex_digit_byte: "n < 16 \<Longrightarrow> byte_of (hex_digit n) = (if n < 10 then 48 + n else 87 + n)"
  by (simp add: hex_digit_def)

lemma hex_digits_value_append:
  "hex_digits_value acc (xs @ ys) =
     (case hex_digits_value acc xs of None \<Rightarrow> None | Some a \<Rightarrow> hex_digits_value a ys)"
  by (induction xs arbitrary: acc) (auto split: option.splits)

lemma hex_digits_value_zeros: "hex_digits_value 0 (replicate k (CHR ''0'') @ s) = hex_digits_value 0 s"
  by (induction k) (auto simp: hex_value_def is_ascii_digit_def)

lemma hex_digits_value_digits_of: "n < 2 ^ 64 \<Longrightarrow> hex_digits_value 0 (digits_of 16 n) = Some n"
proof (induction "16::nat" n rule: digits_of.induct)
  case (1 n)
  show ?case
  proof (cases "n < 16")
    case True
    then show ?thesis by (simp add: digits_of.simps [of 16 n])
  next
    case False
    with 1 have "hex_digits_value 0 (digits_of 16 (n div 16)) = Some (n div 16)" by simp
    with False 1(2) show ?thesis
      by (simp add: digits_of.simps [of 16 n] hex_digits_value_append)
  qed
qed

lemma digits_of_neq_Nil [simp]: "digits_of b n \<noteq> []"
  by (subst digits_of.simps) simp

lemma length_digits_of_le: "1 < b \<Longrightarrow> n < b ^ k \<Longrightarrow> 0 < k \<Longrightarrow> length (digits_of b n) \<le> k"
proof (induction b n arbitrary: k rule: digits_of.induct)
  case (1 b n)
  show ?case
  proof (cases "n < b")
    case True
    with 1 show ?thesis by (simp add: digits_of.simps [of b n])
  next
    case False
    with 1 obtain m where k: "k = Suc m" "0 < m"
      by (cases k; cases "k - 1") auto
    have "n div b < b ^ m" using 1 k by (simp add: less_mult_imp_div_less mult.commute)
    with 1 False k show ?thesis by (simp add: digits_of.simps [of b n])
  qed
qed

lemma set_digits_of: "1 < b \<Longrightarrow> b \<le> 16 \<Longrightarrow> c \<in> set (digits_of b n) \<Longrightarrow> \<exists>d < b. c = hex_digit d"
proof (induction b n rule: digits_of.induct)
  case (1 b n)
  show ?case
  proof (cases "n < b")
    case True
    with 1 show ?thesis by (auto simp: digits_of.simps [of b n])
  next
    case False
    with 1 consider "c \<in> set (digits_of b (n div b))" | "c = hex_digit (n mod b)"
      by (auto simp: digits_of.simps [of b n])
    then show ?thesis
    proof cases
      case 1
      with "1.IH" False \<open>1 < b\<close> \<open>b \<le> 16\<close> show ?thesis by simp
    next
      case 2
      with \<open>1 < b\<close> show ?thesis by (intro exI [of _ "n mod b"]) simp
    qed
  qed
qed

text \<open>Reading the digits back recovers the number, so printing is injective.\<close>

lemma digits_of_value:
  "1 < b \<Longrightarrow> b \<le> 16 \<Longrightarrow> foldl (\<lambda>a c. a * b + the (hex_value c)) 0 (digits_of b n) = n"
proof (induction b n rule: digits_of.induct)
  case (1 b n)
  show ?case
  proof (cases "n < b")
    case True
    with 1 show ?thesis by (simp add: digits_of.simps [of b n])
  next
    case False
    moreover have "n mod b < 16" using 1 by (meson mod_less_divisor less_le_trans zero_less_one less_trans)
    ultimately show ?thesis using 1 by (simp add: digits_of.simps [of b n])
  qed
qed

lemma digits_of_inj: "1 < b \<Longrightarrow> b \<le> 16 \<Longrightarrow> digits_of b m = digits_of b n \<Longrightarrow> m = n"
  by (metis digits_of_value)

lemma show_nat_inj [simp]: "show_nat m = show_nat n \<longleftrightarrow> m = n"
  using digits_of_inj [of 10 m n] by (auto simp: show_nat_def)

section \<open>Association lists as maps\<close>

text \<open>
  \<open>HashMap\<close>, \<open>BTreeMap\<close> and \<open>IndexMap\<close> are lists of pairs with distinct keys. \<open>insert\<close> is
  \<^const>\<open>AList.update\<close>: it overwrites in place and appends a new key at the end, which is what
  \<open>IndexMap\<close> does; for a \<open>HashMap\<close> the order of the list stands for an arbitrary iteration order.
  \<open>IndexMap\<close>'s \<open>remove\<close> moves the last entry into the hole.
\<close>

definition distinct_keys :: "('k, 'v) kv \<Rightarrow> bool" where
  "distinct_keys m \<longleftrightarrow> distinct (map fst m)"

definition swap_remove :: "'k \<Rightarrow> ('k, 'v) kv \<Rightarrow> ('k, 'v) kv" where
  "swap_remove k m =
     (let i = length (takeWhile (\<lambda>p. fst p \<noteq> k) m)
      in if i = length m then m else butlast (m[i := last m]))"

text \<open>\<open>entry(k).or_insert(v)\<close>.\<close>

definition or_insert :: "'k \<Rightarrow> 'v \<Rightarrow> ('k, 'v) kv \<Rightarrow> ('k, 'v) kv" where
  "or_insert k v m = (case map_of m k of None \<Rightarrow> m @ [(k, v)] | Some _ \<Rightarrow> m)"

lemma map_of_kv_update [kv_simps, simp]: "map_of (AList.update k v m) = (map_of m)(k \<mapsto> v)"
  by (rule update_conv')

lemma distinct_keys_update [kv_simps, simp]:
  "distinct_keys m \<Longrightarrow> distinct_keys (AList.update k v m)"
  by (simp add: distinct_keys_def distinct_update)

lemma map_of_or_insert [kv_simps]:
  "map_of (or_insert k v m) = (\<lambda>x. if x = k \<and> map_of m k = None then Some v else map_of m x)"
  by (rule ext) (auto simp: or_insert_def map_add_def split: option.splits)

lemma distinct_keys_or_insert [kv_simps, simp]:
  "distinct_keys m \<Longrightarrow> distinct_keys (or_insert k v m)"
  by (auto simp: distinct_keys_def or_insert_def map_of_eq_None_iff split: option.splits)

section \<open>Interfaces\<close>

text \<open>
  A keyed store: what a client may rely on is only that an insertion changes the looked-up value at
  its own key. The loop \<open>for k in keys \{ if let Some(v) = m.get_mut(&k) \{ ... \} \}\<close> is
  \<open>modify_each\<close>; for distinct keys it is a pointwise update, whatever the order of the keys.
\<close>

definition modify_each ::
    "('m \<Rightarrow> 'k \<Rightarrow> 'v option) \<Rightarrow> ('k \<Rightarrow> 'v \<Rightarrow> 'm \<Rightarrow> 'm) \<Rightarrow> ('k \<Rightarrow> 'v \<Rightarrow> 'v) \<Rightarrow> 'k list \<Rightarrow> 'm \<Rightarrow> 'm" where
  "modify_each lookup put f ks m =
     fold (\<lambda>k m. case lookup m k of None \<Rightarrow> m | Some v \<Rightarrow> put k (f k v) m) ks m"

locale keyed_store =
  fixes lookup :: "'m \<Rightarrow> 'k \<Rightarrow> 'v option"
    and put :: "'k \<Rightarrow> 'v \<Rightarrow> 'm \<Rightarrow> 'm"
    and wf :: "'m \<Rightarrow> bool"
  assumes lookup_put: "lookup (put k v m) = (lookup m)(k \<mapsto> v)"
    and wf_put: "wf m \<Longrightarrow> wf (put k v m)"
begin

lemma lookup_modify_each:
  "distinct ks \<Longrightarrow> lookup (modify_each lookup put f ks m) k =
     (if k \<in> set ks then map_option (f k) (lookup m k) else lookup m k)"
  by (induction ks arbitrary: m)
    (auto simp: modify_each_def lookup_put split: option.splits)

lemma wf_modify_each: "wf m \<Longrightarrow> wf (modify_each lookup put f ks m)"
  by (induction ks arbitrary: m) (auto simp: modify_each_def wf_put split: option.splits)

lemma dom_modify_each: "dom (lookup (modify_each lookup put f ks m)) = dom (lookup m)"
  by (induction ks arbitrary: m)
    (auto simp: modify_each_def lookup_put insert_absorb domI split: option.splits)

end

interpretation kvs: keyed_store map_of AList.update distinct_keys
  by unfold_locales simp_all

text \<open>
  A machine with an invariant: every operation keeps it, so every finite sequence of operations
  does, from any state that has it.
\<close>

locale invariant_machine =
  fixes step :: "'s \<Rightarrow> 'e \<Rightarrow> 's"
    and inv :: "'s \<Rightarrow> bool"
  assumes step_inv: "inv s \<Longrightarrow> inv (step s e)"
begin

lemma run_inv: "inv s \<Longrightarrow> inv (foldl step s es)"
  by (induction es arbitrary: s) (simp_all add: step_inv)

end

end
