(* ===== verification/Json.thy ===== *)
theory Json
  imports Prelude
begin

text \<open>
  The values the server exchanges with Frama-C and with its clients. \<open>serde_json::Value\<close> is built
  with the \<open>preserve_order\<close> feature (Cargo.toml), so an object is an insertion-ordered list of
  fields with distinct names, while equality of objects ignores the order. The accessors are the
  ones the sources call; parsing and printing JSON text is \<open>serde_json\<close>'s own code and is a
  parameter (\<open>to_vec\<close>, \<open>from_str\<close>) wherever the sources call it.
\<close>

named_theorems json_simps \<open>accessors on JSON values\<close>

datatype json_num = PosInt u64 | NegInt u64 | Float u64

datatype json =
    JNull
  | JBool bool
  | JNum json_num
  | JStr string
  | JArr "json list"
  | JObj "(string \<times> json) list"

type_synonym fields = "(string, json) kv"

fun as_str :: "json \<Rightarrow> string option" where
  "as_str (JStr s) = Some s"
| "as_str _ = None"

fun as_bool :: "json \<Rightarrow> bool option" where
  "as_bool (JBool b) = Some b"
| "as_bool _ = None"

fun as_u64 :: "json \<Rightarrow> u64 option" where
  "as_u64 (JNum (PosInt n)) = Some n"
| "as_u64 _ = None"

fun as_array :: "json \<Rightarrow> json list option" where
  "as_array (JArr xs) = Some xs"
| "as_array _ = None"

fun as_object :: "json \<Rightarrow> fields option" where
  "as_object (JObj m) = Some m"
| "as_object _ = None"

text \<open>\<open>Value::get\<close> with a field name, and the indexing \<open>value["name"]\<close>, which answers \<open>Null\<close>.\<close>

definition jget :: "json \<Rightarrow> string \<Rightarrow> json option" where
  "jget v k = (case v of JObj m \<Rightarrow> map_of m k | _ \<Rightarrow> None)"

definition jindex :: "json \<Rightarrow> string \<Rightarrow> json" where
  "jindex v k = (case jget v k of None \<Rightarrow> JNull | Some x \<Rightarrow> x)"

text \<open>\<open>Value::pointer\<close>, its reference tokens given as a list; the sources only name object fields.\<close>

fun pointer :: "json \<Rightarrow> string list \<Rightarrow> json option" where
  "pointer v [] = Some v"
| "pointer v (t # ts) = (case jget v t of None \<Rightarrow> None | Some x \<Rightarrow> pointer x ts)"

definition get_str :: "json \<Rightarrow> string \<Rightarrow> string option" where
  "get_str v k = Option.bind (jget v k) as_str"

definition pointer_str :: "json \<Rightarrow> string list \<Rightarrow> string option" where
  "pointer_str v p = Option.bind (pointer v p) as_str"

definition pointer_array :: "json \<Rightarrow> string list \<Rightarrow> json list option" where
  "pointer_array v p = Option.bind (pointer v p) as_array"

text \<open>\<open>opt.or_else(...)\<close> and \<open>opt.unwrap_or(d)\<close>.\<close>

definition or_else :: "'a option \<Rightarrow> 'a option \<Rightarrow> 'a option" where
  "or_else a b = (case a of None \<Rightarrow> b | Some x \<Rightarrow> Some x)"

definition unwrap_or :: "'a option \<Rightarrow> 'a \<Rightarrow> 'a" where
  "unwrap_or a d = (case a of None \<Rightarrow> d | Some x \<Rightarrow> x)"

lemmas accessor_defs = jget_def jindex_def get_str_def pointer_str_def pointer_array_def
  or_else_def unwrap_or_def

lemma or_else_simps [json_simps, simp]:
  "or_else None b = b" "or_else (Some x) b = Some x"
  by (simp_all add: or_else_def)

lemma unwrap_or_simps [json_simps, simp]:
  "unwrap_or None d = d" "unwrap_or (Some x) d = x"
  by (simp_all add: unwrap_or_def)

lemma as_str_Some [json_simps]: "as_str v = Some s \<longleftrightarrow> v = JStr s"
  by (cases v) auto

lemma as_array_Some [json_simps]: "as_array v = Some xs \<longleftrightarrow> v = JArr xs"
  by (cases v) auto

lemma as_object_Some [json_simps]: "as_object v = Some m \<longleftrightarrow> v = JObj m"
  by (cases v) auto

lemma jget_JObj [json_simps, simp]: "jget (JObj m) k = map_of m k"
  by (simp add: jget_def)

lemma jget_Some_JObj: "jget v k = Some x \<Longrightarrow> \<exists>m. v = JObj m"
  by (cases v) (auto simp: jget_def)

text \<open>\<open>if let Some(obj) = value.as_object_mut() \{ obj.insert(...) \}\<close>: a non-object is left alone.\<close>

fun on_object :: "(fields \<Rightarrow> fields) \<Rightarrow> json \<Rightarrow> json" where
  "on_object f (JObj m) = JObj (f m)"
| "on_object f v = v"

lemma jget_on_object: "jget (on_object f v) k = (case v of JObj m \<Rightarrow> map_of (f m) k | _ \<Rightarrow> None)"
  by (cases v) (simp_all add: jget_def)

text \<open>Well-formed values: the names of every object are distinct, at every depth.\<close>

fun wf_json :: "json \<Rightarrow> bool" where
  "wf_json (JArr xs) = (\<forall>x \<in> set xs. wf_json x)"
| "wf_json (JObj m) = (distinct_keys m \<and> (\<forall>p \<in> set m. wf_json (snd p)))"
| "wf_json _ = True"

text \<open>\<open>Value == Value\<close>: two objects are equal when they bind the same names to equal values.\<close>

function (sequential) json_eq :: "json \<Rightarrow> json \<Rightarrow> bool" where
  "json_eq (JArr xs) (JArr ys) = (length xs = length ys \<and> (\<forall>p \<in> set (zip xs ys). json_eq (fst p) (snd p)))"
| "json_eq (JObj m) (JObj n) =
     (length m = length n \<and>
      (\<forall>p \<in> set m. case map_of n (fst p) of None \<Rightarrow> False | Some w \<Rightarrow> json_eq (snd p) w))"
| "json_eq JNull JNull = True"
| "json_eq (JBool a) (JBool b) = (a = b)"
| "json_eq (JNum a) (JNum b) = (a = b)"
| "json_eq (JStr a) (JStr b) = (a = b)"
| "json_eq _ _ = False"
  by pat_completeness auto
termination
proof (relation "measure (size \<circ> fst)")
  fix xs ys :: "json list" and p
  assume "p \<in> set (zip xs ys)"
  then have "fst p \<in> set xs" by (metis prod.collapse set_zip_leftD)
  then have "size (fst p) \<le> size_list size xs" by (rule size_list_estimation') simp
  then show "((fst p, snd p), (JArr xs, JArr ys)) \<in> measure (size \<circ> fst)" by simp
next
  fix m n :: fields and p w
  assume "p \<in> set m"
  then have "size (snd p) \<le> size_list (size_prod (\<lambda>x. 0) size) m"
    by (rule size_list_estimation') (cases p, simp)
  then show "((snd p, w), (JObj m, JObj n)) \<in> measure (size \<circ> fst)" by simp
qed simp

lemma json_eq_refl: "wf_json v \<Longrightarrow> json_eq v v"
proof (induction v)
  case (JArr xs)
  then show ?case by (auto simp: zip_same_conv_map)
next
  case (JObj m)
  show ?case
  proof (simp, intro ballI)
    fix p assume p: "p \<in> set m"
    with JObj.prems have "map_of m (fst p) = Some (snd p)"
      by (cases p) (simp add: distinct_keys_def)
    moreover have "json_eq (snd p) (snd p)"
      using JObj p by (cases p) (auto intro!: JObj.IH)
    ultimately show "case map_of m (fst p) of None \<Rightarrow> False | Some w \<Rightarrow> json_eq (snd p) w"
      by simp
  qed
qed auto

text \<open>Values the \<open>json!\<close> macro makes of numbers, options and lists of strings.\<close>

definition jnat :: "nat \<Rightarrow> json" where
  "jnat n = JNum (PosInt (of_nat n))"

definition jopt :: "('a \<Rightarrow> json) \<Rightarrow> 'a option \<Rightarrow> json" where
  "jopt f a = (case a of None \<Rightarrow> JNull | Some x \<Rightarrow> f x)"

definition jstrs :: "string list \<Rightarrow> json" where
  "jstrs xs = JArr (map JStr xs)"

end
