(* ===== verification/Errors.thy ===== *)
theory Errors
  imports Json
begin

text \<open>
  The failures of the Frama-C connection (src/src/error.rs): \<open>FramaCError\<close> with one constructor per
  variant the transport and the client construct, and the diagnostics record a command carries. An
  \<open>InvalidFrame\<close> message is kept as the fault it reports; durations are milliseconds.
\<close>

datatype io_error = UnexpectedEof | BrokenPipe | OtherIo string

datatype frame_fault =
    UnexpectedPrefix char
  | HeaderNotUtf8
  | HeaderNotHex string
  | FrameTooLarge nat
  | PayloadNotUtf8

record request_diagnostics =
  request_id :: string
  request :: string
  queued_task_id :: "string option"
  signal_count :: u64
  elapsed_ms :: "u64 option"
  final_result :: "string option"
  cancellation_result :: "string option"
  rejected_command_id :: "string option"

datatype frama_c_error =
    Io io_error
  | JsonError
  | InvalidFrame frame_fault
  | ServerError string string
  | Rejected string
  | Killed string
  | CommandFailed string string string request_diagnostics
  | ConnectTimeout
  | Timeout nat
  | UnexpectedResponse string
  | FunctionNotFound string
  | GlobalNotFound string
  | SymbolNotFound string

end
