(* ===== verification/Codec.thy ===== *)
theory Codec
  imports Errors
begin

text \<open>
  The wire format of the Frama-C server protocol (src/src/frama-c/codec.rs): length-prefixed frames
  and the JSON messages inside them. A buffer is a list of bytes. The laws a stream reader needs of
  a frame format are the locale \<open>frame_format\<close>, and \<open>encode_frame\<close>/\<open>decode_frame\<close> interpret it.
\<close>

section \<open>Frames\<close>

definition encode_header :: "nat \<Rightarrow> bytes" where
  "encode_header len =
     (if len \<le> 0xFFF then CHR ''S'' # format_hex 3 len
      else if len \<le> 0xFFFFFFF then CHR ''L'' # format_hex 7 len
      else CHR ''W'' # format_hex 15 len)"

definition encode_frame :: "string \<Rightarrow> bytes" where
  "encode_frame payload = encode_header (length payload) @ payload"

definition max_frame_payload_bytes :: nat where
  "max_frame_payload_bytes = 256 * 1024 * 1024"

definition header_hex_len :: "char \<Rightarrow> nat option" where
  "header_hex_len c =
     (if c = CHR ''S'' then Some 3
      else if c = CHR ''L'' then Some 7
      else if c = CHR ''W'' then Some 15
      else None)"

text \<open>
  \<open>Ok(None)\<close> is \<open>Inr None\<close>: the buffer does not hold a whole frame yet. \<open>Ok(Some((payload,
  consumed)))\<close> is \<open>Inr (Some (payload, consumed))\<close>.
\<close>

definition decode_frame :: "bytes \<Rightarrow> frama_c_error + (string \<times> nat) option" where
  "decode_frame buf =
     (case buf of
        [] \<Rightarrow> Inr None
      | tag # _ \<Rightarrow>
          (case header_hex_len tag of
             None \<Rightarrow> Inl (InvalidFrame (UnexpectedPrefix tag))
           | Some hex_len \<Rightarrow>
               let header_len = 1 + hex_len in
               if length buf < header_len then Inr None
               else
                 let hex_str = take hex_len (drop 1 buf) in
                 if \<not> valid_utf8 hex_str then Inl (InvalidFrame HeaderNotUtf8)
                 else (case from_str_radix16 hex_str of
                     None \<Rightarrow> Inl (InvalidFrame (HeaderNotHex hex_str))
                   | Some payload_len \<Rightarrow>
                       if max_frame_payload_bytes < payload_len
                       then Inl (InvalidFrame (FrameTooLarge payload_len))
                       else
                         let total = header_len + payload_len in
                         if length buf < total then Inr None
                         else
                           let payload = take payload_len (drop header_len buf) in
                           if \<not> valid_utf8 payload then Inl (InvalidFrame PayloadNotUtf8)
                           else Inr (Some (payload, total)))))"

section \<open>Messages\<close>

datatype command =
    Get string string json
  | Set string string json
  | Exec string string json
  | Poll
  | Shutdown
  | Kill string
  | SigOn string
  | SigOff string

datatype response =
    Data string json
  | ErrorResp string string
  | Signal string
  | RejectedResp string
  | KilledResp string
  | CmdLineOn
  | CmdLineOff

text \<open>
  \<open>to_string\<close> and \<open>from_str\<close> of \<open>serde_json\<close> are the parameters \<open>to_text\<close> and \<open>from_text\<close>. The
  two bare strings are written by the source as text, quotes included.
\<close>

definition request_object :: "string \<Rightarrow> string \<Rightarrow> string \<Rightarrow> json \<Rightarrow> json" where
  "request_object cmd i req d =
     JObj [(''cmd'', JStr cmd), (''id'', JStr i), (''request'', JStr req), (''data'', d)]"

definition control_object :: "string \<Rightarrow> string \<Rightarrow> json" where
  "control_object cmd i = JObj [(''cmd'', JStr cmd), (''id'', JStr i)]"

fun encode_command :: "(json \<Rightarrow> string) \<Rightarrow> command \<Rightarrow> string" where
  "encode_command to_text (Get i req d) = to_text (request_object ''GET'' i req d)"
| "encode_command to_text (Set i req d) = to_text (request_object ''SET'' i req d)"
| "encode_command to_text (Exec i req d) = to_text (request_object ''EXEC'' i req d)"
| "encode_command to_text Poll = [CHR 0x22] @ ''POLL'' @ [CHR 0x22]"
| "encode_command to_text Shutdown = [CHR 0x22] @ ''SHUTDOWN'' @ [CHR 0x22]"
| "encode_command to_text (Kill i) = to_text (control_object ''KILL'' i)"
| "encode_command to_text (SigOn i) = to_text (control_object ''SIGON'' i)"
| "encode_command to_text (SigOff i) = to_text (control_object ''SIGOFF'' i)"

definition decode_response_value :: "(json \<Rightarrow> string) \<Rightarrow> json \<Rightarrow> frama_c_error + response" where
  "decode_response_value to_text value =
     (case as_str value of
        Some s \<Rightarrow>
          if s = ''CMDLINEON'' then Inr CmdLineOn
          else if s = ''CMDLINEOFF'' then Inr CmdLineOff
          else Inl (UnexpectedResponse (''unknown string response: '' @ s))
      | None \<Rightarrow>
          (case as_object value of
             Some _ \<Rightarrow>
               let res = unwrap_or (get_str value ''res'') [];
                   i = unwrap_or (get_str value ''id'') []
               in if res = ''DATA'' then Inr (Data i (unwrap_or (jget value ''data'') JNull))
                  else if res = ''ERROR'' then Inr (ErrorResp i (unwrap_or (get_str value ''msg'') []))
                  else if res = ''SIGNAL'' then Inr (Signal i)
                  else if res = ''REJECTED'' then Inr (RejectedResp i)
                  else if res = ''KILLED'' then Inr (KilledResp i)
                  else Inl (UnexpectedResponse (''unknown res type: '' @ res))
           | None \<Rightarrow> Inl (UnexpectedResponse (''expected string or object, got: '' @ to_text value))))"

definition decode_response ::
    "(json \<Rightarrow> string) \<Rightarrow> (string \<Rightarrow> json option) \<Rightarrow> string \<Rightarrow> frama_c_error + response" where
  "decode_response to_text from_text s =
     (case from_text s of
        None \<Rightarrow> Inl JsonError
      | Some value \<Rightarrow> decode_response_value to_text value)"

section \<open>Lemmas on headers\<close>

definition hex_len_of :: "nat \<Rightarrow> nat" where
  "hex_len_of len = (if len \<le> 0xFFF then 3 else if len \<le> 0xFFFFFFF then 7 else 15)"

lemma length_format_hex: "n < 16 ^ w \<Longrightarrow> 0 < w \<Longrightarrow> length (format_hex w n) = w"
  using length_digits_of_le [of 16 n w] by (simp add: format_hex_def pad_left_def)

lemma hex_digit_0: "hex_digit 0 = CHR ''0''"
  by code_simp

lemma format_hex_ascii: "c \<in> set (format_hex w n) \<Longrightarrow> \<exists>d < 16. c = hex_digit d"
proof -
  assume "c \<in> set (format_hex w n)"
  then consider "c = hex_digit 0" | "c \<in> set (digits_of 16 n)"
    unfolding format_hex_def pad_left_def hex_digit_0 by auto
  then show ?thesis
  proof cases
    case 1
    then show ?thesis by (intro exI [of _ 0]) simp
  next
    case 2
    then show ?thesis by (rule set_digits_of [rotated 2]) simp_all
  qed
qed

lemma format_hex_byte: "c \<in> set (format_hex w n) \<Longrightarrow> 48 \<le> byte_of c \<and> byte_of c < 128"
  by (drule format_hex_ascii) (auto simp: hex_digit_byte)

lemma valid_utf8_format_hex [simp]: "valid_utf8 (format_hex w n)"
  by (rule valid_utf8_ascii) (simp add: format_hex_byte)

lemma from_str_radix16_format_hex [simp]:
  assumes "n < 2 ^ 64" shows "from_str_radix16 (format_hex w n) = Some n"
proof -
  let ?s = "format_hex w n"
  have ne: "?s \<noteq> []" by (simp add: format_hex_def pad_left_def)
  have no: "c \<in> set ?s \<Longrightarrow> c \<noteq> CHR ''+'' \<and> c \<noteq> CHR ''-''" for c
    by (auto dest: format_hex_byte)
  have "hd ?s \<noteq> CHR ''+''" using no [of "hd ?s"] ne by simp
  moreover have "?s \<noteq> ''+''" "?s \<noteq> ''-''" using no by (metis list.set_intros(1))+
  moreover have "hex_digits_value 0 ?s = Some n"
    using assms by (simp add: format_hex_def pad_left_def hex_digits_value_zeros
        hex_digits_value_digits_of)
  ultimately show ?thesis using ne by (simp add: from_str_radix16_def)
qed

lemma max_frame_bound: "n \<le> max_frame_payload_bytes \<Longrightarrow> n < 2 ^ 64 \<and> n < 16 ^ 15"
  by (simp add: max_frame_payload_bytes_def)

lemma header_form:
  "len < 16 ^ 15 \<Longrightarrow> \<exists>tag. encode_header len = tag # format_hex (hex_len_of len) len \<and>
     header_hex_len tag = Some (hex_len_of len) \<and> length (format_hex (hex_len_of len) len) = hex_len_of len"
  by (auto simp: encode_header_def hex_len_of_def header_hex_len_def length_format_hex)

lemma length_encode_header: "len < 16 ^ 15 \<Longrightarrow> length (encode_header len) = 1 + hex_len_of len"
  using header_form [of len] by auto

text \<open>Once a well-formed header has arrived, decoding depends on the declared length alone.\<close>

lemma decode_frame_header:
  assumes "len < 16 ^ 15"
  shows "decode_frame (encode_header len @ body) =
    (if max_frame_payload_bytes < len then Inl (InvalidFrame (FrameTooLarge len))
     else if length body < len then Inr None
     else if \<not> valid_utf8 (take len body) then Inl (InvalidFrame PayloadNotUtf8)
     else Inr (Some (take len body, length (encode_header len) + len)))"
proof -
  obtain tag where tag: "encode_header len = tag # format_hex (hex_len_of len) len"
    "header_hex_len tag = Some (hex_len_of len)"
    "length (format_hex (hex_len_of len) len) = hex_len_of len"
    using header_form assms by blast
  have "len < 2 ^ 64" using assms by simp
  then show ?thesis
    unfolding decode_frame_def tag by (auto simp: tag Let_def)
qed

lemma prefix_header_incomplete:
  assumes "len < 16 ^ 15" "strict_prefix buf (encode_header len)"
  shows "decode_frame buf = Inr None"
proof -
  obtain tag where tag: "encode_header len = tag # format_hex (hex_len_of len) len"
    "header_hex_len tag = Some (hex_len_of len)"
    using header_form assms by blast
  have "length buf < 1 + hex_len_of len"
    using assms prefix_length_less length_encode_header by metis
  moreover have "buf = [] \<or> hd buf = tag"
    using assms(2) tag(1) by (cases buf) (auto simp: strict_prefix_def)
  ultimately show ?thesis by (cases buf) (auto simp: decode_frame_def tag)
qed

lemma decode_frame_consumes:
  "decode_frame buf = Inr (Some (p, n)) \<Longrightarrow> 0 < n \<and> n \<le> length buf \<and> length p < n \<and> valid_utf8 p \<and>
     length p \<le> max_frame_payload_bytes"
  by (auto simp: decode_frame_def Let_def split: list.splits option.splits if_splits)

lemma decode_frame_stable:
  assumes "decode_frame buf \<noteq> Inr None"
  shows "decode_frame (buf @ xs) = decode_frame buf"
proof (cases buf)
  case Nil
  with assms show ?thesis by (simp add: decode_frame_def)
next
  case (Cons tag rest)
  show ?thesis
  proof (cases "header_hex_len tag")
    case None
    with Cons show ?thesis by (simp add: decode_frame_def)
  next
    case (Some h)
    with assms Cons have h: "h \<le> length rest" by (auto simp: decode_frame_def split: if_splits)
    with assms Cons Some show ?thesis
      by (auto simp: decode_frame_def Let_def split: option.splits if_splits)
  qed
qed

section \<open>The frame format as an interface\<close>

text \<open>
  What a stream reader relies on: a whole frame at the front of the buffer decodes to its payload
  and length whatever follows it, and a proper part of a frame is never mistaken for one. A decoder
  that has answered does not change its answer when more bytes arrive.
\<close>

locale frame_format =
  fixes enc :: "string \<Rightarrow> bytes"
    and dec :: "bytes \<Rightarrow> frama_c_error + (string \<times> nat) option"
    and acceptable :: "string \<Rightarrow> bool"
  assumes dec_enc: "acceptable p \<Longrightarrow> dec (enc p @ rest) = Inr (Some (p, length (enc p)))"
    and dec_part: "acceptable p \<Longrightarrow> strict_prefix buf (enc p) \<Longrightarrow> dec buf = Inr None"
    and dec_stable: "dec buf \<noteq> Inr None \<Longrightarrow> dec (buf @ xs) = dec buf"
begin

lemma dec_cut:
  assumes "acceptable p" "buf @ chunk = enc p @ rest"
  shows "dec buf = Inr None \<and> length buf < length (enc p) \<or>
    dec buf = Inr (Some (p, length (enc p))) \<and> length (enc p) \<le> length buf"
proof (cases "length buf < length (enc p)")
  case True
  then have "strict_prefix buf (enc p)"
    using assms(2) by (metis append_eq_append_conv_if order_less_imp_le
        strict_prefix_def take_is_prefix nat_neq_iff)
  with assms(1) True show ?thesis by (simp add: dec_part)
next
  case False
  then have "buf = enc p @ drop (length (enc p)) buf"
    using assms(2) by (metis append_eq_append_conv_if append_take_drop_id not_less)
  then have "dec buf = Inr (Some (p, length (enc p)))"
    using dec_enc [OF assms(1)] by metis
  with False show ?thesis by simp
qed

lemma concat_enc_inj:
  assumes "acceptable p" "acceptable q" "enc p @ xs = enc q @ ys"
  shows "p = q \<and> xs = ys"
  using dec_enc [OF assms(1), of xs] dec_enc [OF assms(2), of ys] assms(3) by auto

end

definition acceptable_payload :: "string \<Rightarrow> bool" where
  "acceptable_payload p \<longleftrightarrow> valid_utf8 p \<and> length p \<le> max_frame_payload_bytes"

lemma decode_frame_part:
  assumes "acceptable_payload p" "strict_prefix buf (encode_frame p)"
  shows "decode_frame buf = Inr None"
proof -
  have len: "length p < 16 ^ 15" "\<not> max_frame_payload_bytes < length p"
    using assms max_frame_bound [of "length p"] by (auto simp: acceptable_payload_def)
  show ?thesis
  proof (cases "length buf < length (encode_header (length p))")
    case True
    then have "strict_prefix buf (encode_header (length p))"
      using assms(2) by (auto simp: encode_frame_def strict_prefix_def prefix_append)
    with len show ?thesis by (simp add: prefix_header_incomplete)
  next
    case False
    have "prefix buf (encode_header (length p) @ p)" "buf \<noteq> encode_header (length p) @ p"
      using assms(2) by (simp_all add: encode_frame_def strict_prefix_def)
    moreover from this False have "\<not> strict_prefix buf (encode_header (length p))"
      using prefix_length_less by blast
    ultimately obtain body where body: "buf = encode_header (length p) @ body" "strict_prefix body p"
      by (fastforce simp: prefix_append strict_prefix_def)
    then have "length body < length p" by (simp add: prefix_length_less)
    with body len show ?thesis by (simp add: decode_frame_header)
  qed
qed

interpretation ff: frame_format encode_frame decode_frame acceptable_payload
proof unfold_locales
  fix p rest assume "acceptable_payload p"
  moreover from this have "length p < 16 ^ 15"
    using max_frame_bound by (auto simp: acceptable_payload_def)
  ultimately show "decode_frame (encode_frame p @ rest) = Inr (Some (p, length (encode_frame p)))"
    by (simp add: encode_frame_def decode_frame_header acceptable_payload_def)
qed (simp_all add: decode_frame_part decode_frame_stable)

section \<open>Properties\<close>

text \<open>What \<open>encode_frame\<close> writes, \<open>decode_frame\<close> reads back, whatever bytes follow the frame, and
  it reports exactly the frame's length as consumed.\<close>

theorem frame_roundtrip:
  assumes "valid_utf8 payload" "length payload \<le> max_frame_payload_bytes"
  shows "decode_frame (encode_frame payload @ rest) = Inr (Some (payload, length (encode_frame payload)))"
  using assms by (simp add: ff.dec_enc acceptable_payload_def)

theorem frame_roundtrip_witness:
  "decode_frame (encode_frame ''ok'' @ ''S0'') = Inr (Some (''ok'', length (encode_frame ''ok'')))"
  by (rule frame_roundtrip) (simp_all add: max_frame_payload_bytes_def)

text \<open>A frame that declares more than the accepted maximum is refused as soon as its header is
  complete, before any of its payload has been buffered.\<close>

theorem oversized_frame_refused:
  assumes "max_frame_payload_bytes < len" "len < 16 ^ 15"
  shows "decode_frame (encode_header len @ body) = Inl (InvalidFrame (FrameTooLarge len))"
  using assms by (simp add: decode_frame_header)

theorem oversized_frame_refused_witness:
  "decode_frame (encode_header 268435457 @ []) = Inl (InvalidFrame (FrameTooLarge 268435457))"
  by (rule oversized_frame_refused) (simp_all add: max_frame_payload_bytes_def)

end
