(* ===== verification/Transport.thy ===== *)
theory Transport
  imports Codec
begin

text \<open>
  The framed byte stream to one Frama-C process (src/src/frama-c/transport.rs). The socket is the
  environment: each \<open>write_all\<close> and each \<open>read\<close> is answered by an event that says what happened,
  and the bytes that reached the peer are recorded in \<open>written\<close>. \<open>recv_loop\<close> is the loop of
  \<open>recv_frame\<close> over any decoder, so that its lemmas follow from the laws of \<open>frame_format\<close>.
\<close>

record transport =
  read_buf :: bytes
  poisoned :: bool
  is_shut :: bool
  written :: bytes

definition connect_transport :: transport where
  "connect_transport = \<lparr>read_buf = [], poisoned = False, is_shut = False, written = []\<rparr>"

definition write_timeout :: nat where
  "write_timeout = 10 * 1000"

text \<open>How \<open>write_all\<close> under its timeout ended: done, or failed after \<open>k\<close> bytes went out.\<close>

datatype write_event = WriteOk | WriteError nat io_error | WriteTimeout nat

text \<open>How one \<open>read\<close> into the 4096-byte scratch array ended; an empty read is end of file.\<close>

datatype read_event = ReadData bytes | ReadError io_error | ReadTimeout

definition poisoned_transport :: frama_c_error where
  "poisoned_transport = Io BrokenPipe"

definition poison :: "transport \<Rightarrow> transport" where
  "poison t = t\<lparr>poisoned := True, is_shut := True\<rparr>"

definition close_transport :: "transport \<Rightarrow> transport" where
  "close_transport t = t\<lparr>is_shut := True\<rparr>"

definition send_frame ::
    "transport \<Rightarrow> string \<Rightarrow> write_event \<Rightarrow> (frama_c_error + unit) \<times> transport" where
  "send_frame t payload ev =
     (if poisoned t then (Inl poisoned_transport, t)
      else
        let frame = encode_frame payload in
        case ev of
          WriteOk \<Rightarrow> (Inr (), t\<lparr>written := written t @ frame\<rparr>)
        | WriteError k e \<Rightarrow> (Inl (Io e), poison (t\<lparr>written := written t @ take k frame\<rparr>))
        | WriteTimeout k \<Rightarrow>
            (Inl (Timeout write_timeout), poison (t\<lparr>written := written t @ take k frame\<rparr>)))"

datatype recv_result =
    Frame string
  | NoFrame
  | RecvFailed frama_c_error
  | Waiting

text \<open>
  The result, the transport and the events not consumed. \<open>Waiting\<close> is the state of a call whose
  read has not been answered yet: the events ran out.
\<close>

fun recv_loop ::
    "(bytes \<Rightarrow> frama_c_error + (string \<times> nat) option) \<Rightarrow> transport \<Rightarrow> read_event list \<Rightarrow>
     recv_result \<times> transport \<times> read_event list" where
  "recv_loop dec t [] =
     (case dec (read_buf t) of
        Inr (Some (payload, consumed)) \<Rightarrow>
          (Frame payload, t\<lparr>read_buf := drop consumed (read_buf t)\<rparr>, [])
      | Inr None \<Rightarrow> (Waiting, t, [])
      | Inl e \<Rightarrow> (RecvFailed e, poison t, []))"
| "recv_loop dec t (ev # evs) =
     (case dec (read_buf t) of
        Inr (Some (payload, consumed)) \<Rightarrow>
          (Frame payload, t\<lparr>read_buf := drop consumed (read_buf t)\<rparr>, ev # evs)
      | Inr None \<Rightarrow>
          (case ev of
             ReadData [] \<Rightarrow> (RecvFailed (Io UnexpectedEof), poison t, evs)
           | ReadData chunk \<Rightarrow> recv_loop dec (t\<lparr>read_buf := read_buf t @ chunk\<rparr>) evs
           | ReadError e \<Rightarrow> (RecvFailed (Io e), poison t, evs)
           | ReadTimeout \<Rightarrow> (NoFrame, t, evs))
      | Inl e \<Rightarrow> (RecvFailed e, poison t, ev # evs))"

definition recv_frame ::
    "transport \<Rightarrow> read_event list \<Rightarrow> recv_result \<times> transport \<times> read_event list" where
  "recv_frame t evs =
     (if poisoned t then (RecvFailed poisoned_transport, t, evs) else recv_loop decode_frame t evs)"

text \<open>Receiving \<open>n\<close> frames in a row, stopping at the first call that yields none.\<close>

fun recv_frames ::
    "nat \<Rightarrow> transport \<Rightarrow> read_event list \<Rightarrow> string list \<times> transport \<times> read_event list" where
  "recv_frames 0 t evs = ([], t, evs)"
| "recv_frames (Suc n) t evs =
     (case recv_frame t evs of
        (Frame p, t', evs') \<Rightarrow>
          (case recv_frames n t' evs' of (ps, t'', evs'') \<Rightarrow> (p # ps, t'', evs''))
      | (_, t', evs') \<Rightarrow> ([], t', evs'))"

section \<open>Reading a stream cut into arbitrary pieces\<close>

lemma recv_loop_data:
  "dec (read_buf t) = Inr None \<Longrightarrow> chunk \<noteq> [] \<Longrightarrow>
   recv_loop dec t (ReadData chunk # evs) = recv_loop dec (t\<lparr>read_buf := read_buf t @ chunk\<rparr>) evs"
  by (cases chunk) simp_all

lemma recv_loop_frame:
  "dec (read_buf t) = Inr (Some (p, n)) \<Longrightarrow>
   recv_loop dec t evs = (Frame p, t\<lparr>read_buf := drop n (read_buf t)\<rparr>, evs)"
  by (cases evs) simp_all

context frame_format
begin

lemma recv_loop_reads_frame:
  assumes "acceptable p" "[] \<notin> set chunks" "read_buf t @ concat chunks = enc p @ rest"
  shows "\<exists>b chunks'. recv_loop dec t (map ReadData chunks @ evs) =
           (Frame p, t\<lparr>read_buf := b\<rparr>, map ReadData chunks' @ evs) \<and>
         b @ concat chunks' = rest \<and> [] \<notin> set chunks'"
  using assms(2,3)
proof (induction chunks arbitrary: t)
  case Nil
  then have "dec (read_buf t) = Inr (Some (p, length (enc p)))"
    using dec_enc [OF assms(1)] by simp
  with Nil show ?case
    by (intro exI [of _ rest] exI [of _ "[]"]) (simp add: recv_loop_frame)
next
  case (Cons c cs)
  show ?case
  proof (cases "length (enc p) \<le> length (read_buf t)")
    case True
    then have "dec (read_buf t) = Inr (Some (p, length (enc p)))"
      using dec_cut [OF assms(1) Cons.prems(2)] by auto
    moreover have "drop (length (enc p)) (read_buf t) @ concat (c # cs) = rest"
      using Cons.prems(2) True by (auto simp: append_eq_append_conv_if split: if_splits)
    ultimately show ?thesis using Cons.prems(1)
      by (intro exI [of _ "drop (length (enc p)) (read_buf t)"] exI [of _ "c # cs"])
        (simp add: recv_loop_frame)
  next
    case False
    then have "dec (read_buf t) = Inr None"
      using dec_cut [OF assms(1) Cons.prems(2)] by auto
    moreover have "c \<noteq> []" using Cons.prems(1) by auto
    ultimately show ?thesis using Cons.prems Cons.IH [of "t\<lparr>read_buf := read_buf t @ c\<rparr>"]
      by (simp add: recv_loop_data del: recv_loop.simps)
  qed
qed

end

lemma recv_frames_stream:
  assumes "\<forall>p \<in> set ps. acceptable_payload p" "\<not> poisoned t" "[] \<notin> set chunks"
    "read_buf t @ concat chunks = concat (map encode_frame ps) @ rest"
  shows "\<exists>b chunks'. recv_frames (length ps) t (map ReadData chunks @ evs) =
           (ps, t\<lparr>read_buf := b\<rparr>, map ReadData chunks' @ evs) \<and>
         b @ concat chunks' = rest \<and> [] \<notin> set chunks'"
  using assms
proof (induction ps arbitrary: t chunks)
  case Nil
  then show ?case by (intro exI [of _ "read_buf t"] exI [of _ chunks]) simp
next
  case (Cons p ps)
  obtain b cs where step: "recv_loop decode_frame t (map ReadData chunks @ evs) =
      (Frame p, t\<lparr>read_buf := b\<rparr>, map ReadData cs @ evs)"
    "b @ concat cs = concat (map encode_frame ps) @ rest" "[] \<notin> set cs"
    using ff.recv_loop_reads_frame [of p chunks t "concat (map encode_frame ps) @ rest" evs]
      Cons.prems by auto
  then obtain b' cs' where "recv_frames (length ps) (t\<lparr>read_buf := b\<rparr>) (map ReadData cs @ evs) =
      (ps, t\<lparr>read_buf := b'\<rparr>, map ReadData cs' @ evs)" "b' @ concat cs' = rest" "[] \<notin> set cs'"
    using Cons.IH [of "t\<lparr>read_buf := b\<rparr>" cs] Cons.prems by auto
  with step Cons.prems(2) show ?case by (auto simp: recv_frame_def)
qed

section \<open>Poisoning\<close>

lemma poison_simps [simp]:
  "poisoned (poison t)" "is_shut (poison t)" "written (poison t) = written t"
  "read_buf (poison t) = read_buf t"
  by (simp_all add: poison_def)

lemma recv_loop_frame_rule:
  "recv_loop dec t evs = (r, t', evs') \<Longrightarrow>
     written t' = written t \<and> (poisoned t' \<longleftrightarrow> poisoned t \<or> (\<exists>e. r = RecvFailed e)) \<and>
     suffix evs' evs"
proof (induction dec t evs rule: recv_loop.induct)
  case (1 dec t)
  then show ?case by (auto split: sum.splits option.splits)
next
  case (2 dec t ev evs)
  show ?case
  proof (cases "dec (read_buf t) = Inr None \<and> (\<exists>c cs. ev = ReadData (c # cs))")
    case True
    then obtain c cs where "ev = ReadData (c # cs)" "dec (read_buf t) = Inr None" by auto
    with 2 show ?thesis by (auto intro: suffix_ConsI)
  next
    case False
    with "2.prems" show ?thesis
      by (auto split: sum.splits option.splits read_event.splits list.splits intro: suffix_ConsI)
  qed
qed

text \<open>
  The bytes on the wire: whole frames, and after them a partial frame only once the transport is
  poisoned. Every operation of the transport keeps this, so the peer can only ever be left inside a
  frame by a transport that refuses every later call.
\<close>

definition wire_ok :: "transport \<Rightarrow> bool" where
  "wire_ok t \<longleftrightarrow>
     (\<exists>ps. written t = concat (map encode_frame ps)) \<or>
     (poisoned t \<and> (\<exists>ps p k. written t = concat (map encode_frame ps) @ take k (encode_frame p)))"

datatype transport_op = SendOp string write_event | RecvOp "read_event list" | CloseOp

fun transport_step :: "transport \<Rightarrow> transport_op \<Rightarrow> transport" where
  "transport_step t (SendOp p ev) = snd (send_frame t p ev)"
| "transport_step t (RecvOp evs) = fst (snd (recv_frame t evs))"
| "transport_step t CloseOp = close_transport t"

lemma recv_frame_keeps:
  "written (fst (snd (recv_frame t evs))) = written t"
  "poisoned t \<Longrightarrow> poisoned (fst (snd (recv_frame t evs)))"
  using recv_loop_frame_rule [of decode_frame t evs]
  by (auto simp: recv_frame_def split: prod.splits) (metis prod.collapse)+

lemma wire_ok_whole: "written t = concat (map encode_frame ps) \<Longrightarrow> wire_ok t"
  by (auto simp: wire_ok_def)

lemma wire_ok_part:
  "poisoned t \<Longrightarrow> written t = concat (map encode_frame ps) @ take k (encode_frame p) \<Longrightarrow> wire_ok t"
  by (auto simp: wire_ok_def)

lemma wire_ok_step: "wire_ok t \<Longrightarrow> wire_ok (transport_step t op)"
proof (cases op)
  case (SendOp p ev)
  assume ok: "wire_ok t"
  show ?thesis
  proof (cases "poisoned t")
    case True
    with ok SendOp show ?thesis by (simp add: send_frame_def)
  next
    case False
    with ok obtain ps where ps: "written t = concat (map encode_frame ps)" by (auto simp: wire_ok_def)
    have whole: "written t @ encode_frame p = concat (map encode_frame (ps @ [p]))"
      by (simp add: ps)
    show ?thesis
    proof (cases ev)
      case WriteOk
      with False SendOp show ?thesis
        by (auto simp: send_frame_def Let_def whole simp del: map_append intro!: wire_ok_whole)
    qed (use False SendOp ps in \<open>auto simp: send_frame_def Let_def intro!: wire_ok_part\<close>)
  qed
next
  case (RecvOp evs)
  assume "wire_ok t"
  with RecvOp show ?thesis
    using recv_frame_keeps [of t evs] by (auto simp: wire_ok_def)
next
  case CloseOp
  assume "wire_ok t"
  with CloseOp show ?thesis by (simp add: wire_ok_def close_transport_def)
qed

interpretation wire: invariant_machine transport_step wire_ok
  by unfold_locales (rule wire_ok_step)

section \<open>Properties\<close>

text \<open>C17: however the socket cuts the byte stream into non-empty reads, receiving as many frames as
  were sent returns exactly the payloads sent, in order, and leaves an empty buffer and no unread
  event behind.\<close>

theorem stream_reassembly:
  assumes "\<forall>p \<in> set ps. valid_utf8 p \<and> length p \<le> max_frame_payload_bytes"
    and "\<not> poisoned t" "read_buf t = []" "[] \<notin> set chunks"
    and "concat chunks = concat (map encode_frame ps)"
  shows "recv_frames (length ps) t (map ReadData chunks) = (ps, t, [])"
proof -
  have "\<forall>p \<in> set ps. acceptable_payload p" using assms(1) by (auto simp: acceptable_payload_def)
  then obtain b chunks' where *:
    "recv_frames (length ps) t (map ReadData chunks @ []) =
       (ps, t\<lparr>read_buf := b\<rparr>, map ReadData chunks' @ [])"
    "b @ concat chunks' = []" "[] \<notin> set chunks'"
    using recv_frames_stream [of ps t chunks "[]" "[]"] assms by auto
  then have "b = []" "chunks' = []" by (auto simp: concat_eq_Nil_conv) (metis list.set_intros(1) neq_Nil_conv)
  with * assms(3) show ?thesis by simp
qed

theorem stream_reassembly_witness:
  "recv_frames (length [''a'', ''bc'']) connect_transport
     (map ReadData [''S0'', ''01aS002b'', ''c'']) = ([''a'', ''bc''], connect_transport, [])"
proof -
  have "encode_frame ''a'' = ''S001a''" "encode_frame ''bc'' = ''S002bc''" by code_simp+
  then show ?thesis
    by (intro stream_reassembly) (simp_all add: connect_transport_def max_frame_payload_bytes_def)
qed

text \<open>From a fresh connection, after any sequence of sends, receives and closes and whatever the
  socket answered to each, the bytes on the wire are whole frames; a frame cut short can only be the
  last thing written, and then the transport is poisoned and writes nothing more.\<close>

theorem wire_holds_whole_frames:
  "let t = foldl transport_step connect_transport ops in
     (\<exists>ps. written t = concat (map encode_frame ps)) \<or>
     (poisoned t \<and> (\<exists>ps p k. written t = concat (map encode_frame ps) @ take k (encode_frame p)) \<and>
      (\<forall>p ev. send_frame t p ev = (Inl poisoned_transport, t)))"
proof -
  have "wire_ok connect_transport" by (simp add: wire_ok_def connect_transport_def exI [of _ "[]"])
  then have "wire_ok (foldl transport_step connect_transport ops)" by (rule wire.run_inv)
  then show ?thesis by (auto simp: Let_def wire_ok_def send_frame_def)
qed

end
