(* ===== verification/Client.thy ===== *)
theory Client
  imports Transport
begin

text \<open>
  The request client (src/src/frama-c/client.rs): request ids, the wait for the answer of one GET, the
  poll loop of SET and EXEC with its timeout and cancellation, the connection handshake and the
  paged fetch. The environment of a loop is a list with one entry per iteration, holding what the
  clock and the socket answered in it, together with the stream of read events; a call whose
  environment runs out is \<open>Pending\<close>. Protocol tracing to standard error is left out.
\<close>

text \<open>\<open>serde_json\<close> printing and parsing, and the derived \<open>Debug\<close> and \<open>Display\<close> texts.\<close>

record codec_env =
  to_text :: "json \<Rightarrow> string"
  from_text :: "string \<Rightarrow> json option"
  debug_response :: "response \<Rightarrow> string"
  display_error :: "frama_c_error \<Rightarrow> string"
  debug_duration :: "nat \<Rightarrow> string"

record client_inner =
  inner_transport :: transport
  counter :: u64

record exec_result =
  exec_data :: json
  exec_diagnostics :: request_diagnostics

definition trace_setting_enables :: "string option \<Rightarrow> bool" where
  "trace_setting_enables v =
     (case v of None \<Rightarrow> False | Some s \<Rightarrow> s \<notin> {'''', ''0'', ''false'', ''FALSE''})"

text \<open>\<open>counter += 1\<close> on \<open>u64\<close>, as the release build computes it.\<close>

definition next_id :: "client_inner \<Rightarrow> string \<times> client_inner" where
  "next_id c = (''RQ.'' @ show_nat (unat (counter c)), c\<lparr>counter := counter c + 1\<rparr>)"

definition send_command ::
    "codec_env \<Rightarrow> client_inner \<Rightarrow> command \<Rightarrow> write_event \<Rightarrow> (frama_c_error + unit) \<times> client_inner" where
  "send_command env c cmd ev =
     (case send_frame (inner_transport c) (encode_command (to_text env) cmd) ev of
        (r, t) \<Rightarrow> (r, c\<lparr>inner_transport := t\<rparr>))"

datatype recv_response_result =
    Response response
  | NoResponse
  | ResponseFailed frama_c_error
  | ResponseWaiting

definition recv_response ::
    "codec_env \<Rightarrow> client_inner \<Rightarrow> read_event list \<Rightarrow>
     recv_response_result \<times> client_inner \<times> read_event list" where
  "recv_response env c evs =
     (case recv_frame (inner_transport c) evs of
        (r, t, evs') \<Rightarrow>
          ((case r of
              Frame s \<Rightarrow>
                (case decode_response (to_text env) (from_text env) s of
                   Inl e \<Rightarrow> ResponseFailed e
                 | Inr resp \<Rightarrow> Response resp)
            | NoFrame \<Rightarrow> NoResponse
            | RecvFailed e \<Rightarrow> ResponseFailed e
            | Waiting \<Rightarrow> ResponseWaiting),
           c\<lparr>inner_transport := t\<rparr>, evs'))"

section \<open>Classifying one response of a polled command\<close>

text \<open>
  \<open>None\<close>: the loop goes on. \<open>elapsed\<close> is what \<open>elapsed_millis(started)\<close> reads at this point.
\<close>

definition settle ::
    "string \<Rightarrow> u64 \<Rightarrow> request_diagnostics \<Rightarrow> request_diagnostics" where
  "settle kind elapsed d = d\<lparr>final_result := Some kind, elapsed_ms := Some elapsed\<rparr>"

fun terminal_outcome ::
    "response \<Rightarrow> string \<Rightarrow> u64 \<Rightarrow> request_diagnostics \<Rightarrow>
     (frama_c_error + exec_result) option \<times> request_diagnostics" where
  "terminal_outcome (Data i v) rid elapsed d =
     (if i = rid then
        let d' = settle ''DATA'' elapsed d
        in (Some (Inr \<lparr>exec_data = v, exec_diagnostics = d'\<rparr>), d')
      else (None, d))"
| "terminal_outcome (ErrorResp i msg) rid elapsed d =
     (if i = rid then
        let d' = settle ''ERROR'' elapsed d
        in (Some (Inl (CommandFailed ''ERROR'' i msg d')), d')
      else (None, d))"
| "terminal_outcome (KilledResp i) rid elapsed d =
     (if i = rid then
        let d' = settle ''KILLED'' elapsed (d\<lparr>cancellation_result := Some ''killed''\<rparr>)
        in (Some (Inl (CommandFailed ''KILLED'' i (''killed: '' @ i) d')), d')
      else (None, d))"
| "terminal_outcome (RejectedResp i) rid elapsed d =
     (if i = rid then
        let d' = settle ''REJECTED'' elapsed (d\<lparr>rejected_command_id := Some i\<rparr>)
        in (Some (Inl (CommandFailed ''REJECTED'' i (''rejected: '' @ i) d')), d')
      else (None, d))"
| "terminal_outcome (Signal i) rid elapsed d =
     (None, d\<lparr>signal_count := signal_count d + 1,
             queued_task_id := (case queued_task_id d of None \<Rightarrow> Some i | Some q \<Rightarrow> Some q)\<rparr>)"
| "terminal_outcome CmdLineOn rid elapsed d = (None, d)"
| "terminal_outcome CmdLineOff rid elapsed d = (None, d)"

section \<open>Waiting for the answer of one GET\<close>

datatype 'a outcome = Done "frama_c_error + 'a" | Pending

text \<open>The match of the loop body: \<open>Some\<close> ends the wait, \<open>None\<close> is \<open>continue\<close>.\<close>

fun wait_match :: "string \<Rightarrow> response \<Rightarrow> (frama_c_error + json) option" where
  "wait_match rid (Data i v) = (if i = rid then Some (Inr v) else None)"
| "wait_match rid (ErrorResp i msg) = (if i = rid then Some (Inl (ServerError i msg)) else None)"
| "wait_match rid (RejectedResp i) = (if i = rid then Some (Inl (Rejected i)) else None)"
| "wait_match rid _ = None"

text \<open>\<open>clock\<close>: whether the remaining time is zero at the top of each iteration.\<close>

fun wait_for_id ::
    "codec_env \<Rightarrow> string \<Rightarrow> nat \<Rightarrow> bool list \<Rightarrow> client_inner \<Rightarrow> read_event list \<Rightarrow>
     json outcome \<times> client_inner \<times> read_event list" where
  "wait_for_id env rid tmo [] c evs = (Pending, c, evs)"
| "wait_for_id env rid tmo (expired # clock) c evs =
     (if expired then (Done (Inl (Timeout tmo)), c, evs)
      else (case recv_response env c evs of
          (Response resp, c', evs') \<Rightarrow>
            (case wait_match rid resp of
               Some r \<Rightarrow> (Done r, c', evs')
             | None \<Rightarrow> wait_for_id env rid tmo clock c' evs')
        | (NoResponse, c', evs') \<Rightarrow> (Done (Inl (Timeout tmo)), c', evs')
        | (ResponseFailed e, c', evs') \<Rightarrow> (Done (Inl e), c', evs')
        | (ResponseWaiting, c', evs') \<Rightarrow> (Pending, c', evs')))"

definition get_with_timeout ::
    "codec_env \<Rightarrow> client_inner \<Rightarrow> string \<Rightarrow> json \<Rightarrow> nat \<Rightarrow> write_event \<Rightarrow> bool list \<Rightarrow> read_event list \<Rightarrow>
     json outcome \<times> client_inner \<times> read_event list" where
  "get_with_timeout env c req data tmo wev clock evs =
     (case next_id c of
        (rid, c1) \<Rightarrow>
          (case send_command env c1 (Get rid req data) wev of
             (Inl e, c2) \<Rightarrow> (Done (Inl e), c2, evs)
           | (Inr _, c2) \<Rightarrow> wait_for_id env rid tmo clock c2 evs))"

definition get_request ::
    "codec_env \<Rightarrow> client_inner \<Rightarrow> string \<Rightarrow> json \<Rightarrow> write_event \<Rightarrow> bool list \<Rightarrow> read_event list \<Rightarrow>
     json outcome \<times> client_inner \<times> read_event list" where
  "get_request env c req data = get_with_timeout env c req data (10 * 1000)"

section \<open>The poll loop of SET and EXEC\<close>

text \<open>One iteration: is the deadline past, how the write of POLL or KILL ended, the elapsed time.\<close>

record poll_tick =
  deadline_hit :: bool
  poll_write :: write_event
  tick_elapsed :: u64

definition initial_diagnostics :: "string \<Rightarrow> string \<Rightarrow> request_diagnostics" where
  "initial_diagnostics rid req =
     \<lparr>request_id = rid, request = req, queued_task_id = None, signal_count = 0, elapsed_ms = None,
      final_result = None, cancellation_result = None, rejected_command_id = None\<rparr>"

text \<open>
  The deadline branch: send KILL, read one response, and report how the cancellation went. \<open>None\<close>
  for the text is a read that has not been answered.
\<close>

definition cancel_text ::
    "codec_env \<Rightarrow> string \<Rightarrow> recv_response_result \<Rightarrow> string option" where
  "cancel_text env rid r =
     (case r of
        Response (KilledResp i) \<Rightarrow>
          if i = rid then Some ''killed''
          else Some (''kill_sent_then_'' @ debug_response env (KilledResp i))
      | Response other \<Rightarrow> Some (''kill_sent_then_'' @ debug_response env other)
      | NoResponse \<Rightarrow> Some ''kill_sent''
      | ResponseFailed e \<Rightarrow> Some (''kill_sent_then_error:'' @ display_error env e)
      | ResponseWaiting \<Rightarrow> None)"

definition cancel_command ::
    "codec_env \<Rightarrow> string \<Rightarrow> nat \<Rightarrow> poll_tick \<Rightarrow> request_diagnostics \<Rightarrow> client_inner \<Rightarrow> read_event list \<Rightarrow>
     exec_result outcome \<times> client_inner \<times> read_event list" where
  "cancel_command env rid tmo tick d c evs =
     (let fail = (\<lambda>txt. Done (Inl (CommandFailed ''TIMEOUT'' rid (''timeout after '' @ debug_duration env tmo)
                    ((settle ''TIMEOUT'' (tick_elapsed tick) d)\<lparr>cancellation_result := Some txt\<rparr>))))
      in case send_command env c (Kill rid) (poll_write tick) of
           (Inl e, c1) \<Rightarrow> (fail (''kill_send_error:'' @ display_error env e), c1, evs)
         | (Inr _, c1) \<Rightarrow>
             (case recv_response env c1 evs of
                (r, c2, evs') \<Rightarrow>
                  (case cancel_text env rid r of
                     Some txt \<Rightarrow> (fail txt, c2, evs')
                   | None \<Rightarrow> (Pending, c2, evs'))))"

fun poll_iterations ::
    "codec_env \<Rightarrow> string \<Rightarrow> nat \<Rightarrow> poll_tick list \<Rightarrow> request_diagnostics \<Rightarrow> client_inner \<Rightarrow> read_event list \<Rightarrow>
     exec_result outcome \<times> client_inner \<times> read_event list" where
  "poll_iterations env rid tmo [] d c evs = (Pending, c, evs)"
| "poll_iterations env rid tmo (tick # ticks) d c evs =
     (if deadline_hit tick then cancel_command env rid tmo tick d c evs
      else (case send_command env c Poll (poll_write tick) of
          (Inl e, c1) \<Rightarrow> (Done (Inl e), c1, evs)
        | (Inr _, c1) \<Rightarrow>
            (case recv_response env c1 evs of
               (ResponseFailed e, c2, evs') \<Rightarrow> (Done (Inl e), c2, evs')
             | (ResponseWaiting, c2, evs') \<Rightarrow> (Pending, c2, evs')
             | (NoResponse, c2, evs') \<Rightarrow> poll_iterations env rid tmo ticks d c2 evs'
             | (Response resp, c2, evs') \<Rightarrow>
                 (case terminal_outcome resp rid (tick_elapsed tick) d of
                    (Some r, _) \<Rightarrow> (Done r, c2, evs')
                  | (None, d') \<Rightarrow> poll_iterations env rid tmo ticks d' c2 evs'))))"

definition poll_loop ::
    "codec_env \<Rightarrow> string \<Rightarrow> string \<Rightarrow> nat \<Rightarrow> u64 \<Rightarrow> poll_tick list \<Rightarrow> client_inner \<Rightarrow> read_event list \<Rightarrow>
     exec_result outcome \<times> client_inner \<times> read_event list" where
  "poll_loop env rid req tmo elapsed0 ticks c evs =
     (let d = initial_diagnostics rid req
      in case recv_response env c evs of
           (ResponseFailed e, c1, evs') \<Rightarrow> (Done (Inl e), c1, evs')
         | (ResponseWaiting, c1, evs') \<Rightarrow> (Pending, c1, evs')
         | (NoResponse, c1, evs') \<Rightarrow> poll_iterations env rid tmo ticks d c1 evs'
         | (Response resp, c1, evs') \<Rightarrow>
             (case terminal_outcome resp rid elapsed0 d of
                (Some r, _) \<Rightarrow> (Done r, c1, evs')
              | (None, d') \<Rightarrow> poll_iterations env rid tmo ticks d' c1 evs'))"

definition exec_with_diagnostics ::
    "codec_env \<Rightarrow> client_inner \<Rightarrow> string \<Rightarrow> json \<Rightarrow> nat \<Rightarrow> write_event \<Rightarrow> u64 \<Rightarrow> poll_tick list \<Rightarrow>
     read_event list \<Rightarrow> exec_result outcome \<times> client_inner \<times> read_event list" where
  "exec_with_diagnostics env c req data tmo wev elapsed0 ticks evs =
     (case next_id c of
        (rid, c1) \<Rightarrow>
          (case send_command env c1 (Exec rid req data) wev of
             (Inl e, c2) \<Rightarrow> (Done (Inl e), c2, evs)
           | (Inr _, c2) \<Rightarrow> poll_loop env rid req tmo elapsed0 ticks c2 evs))"

fun outcome_data :: "exec_result outcome \<Rightarrow> json outcome" where
  "outcome_data (Done (Inl e)) = Done (Inl e)"
| "outcome_data (Done (Inr r)) = Done (Inr (exec_data r))"
| "outcome_data Pending = Pending"

definition set_request ::
    "codec_env \<Rightarrow> client_inner \<Rightarrow> string \<Rightarrow> json \<Rightarrow> write_event \<Rightarrow> u64 \<Rightarrow> poll_tick list \<Rightarrow> read_event list \<Rightarrow>
     json outcome \<times> client_inner \<times> read_event list" where
  "set_request env c req data wev elapsed0 ticks evs =
     (case next_id c of
        (rid, c1) \<Rightarrow>
          (case send_command env c1 (Set rid req data) wev of
             (Inl e, c2) \<Rightarrow> (Done (Inl e), c2, evs)
           | (Inr _, c2) \<Rightarrow>
               (case poll_loop env rid req (30 * 1000) elapsed0 ticks c2 evs of
                  (r, c3, evs') \<Rightarrow> (outcome_data r, c3, evs'))))"

definition exec_request ::
    "codec_env \<Rightarrow> client_inner \<Rightarrow> string \<Rightarrow> json \<Rightarrow> nat \<Rightarrow> write_event \<Rightarrow> u64 \<Rightarrow> poll_tick list \<Rightarrow>
     read_event list \<Rightarrow> json outcome \<times> client_inner \<times> read_event list" where
  "exec_request env c req data tmo wev elapsed0 ticks evs =
     (case exec_with_diagnostics env c req data tmo wev elapsed0 ticks evs of
        (r, c', evs') \<Rightarrow> (outcome_data r, c', evs'))"

section \<open>Handshake, paged fetch, shutdown\<close>

text \<open>
  The handshake loop of \<open>connect\<close>: it ends with whether CMDLINEOFF was seen, or with an error.
\<close>

fun handshake ::
    "codec_env \<Rightarrow> bool list \<Rightarrow> client_inner \<Rightarrow> read_event list \<Rightarrow>
     bool outcome \<times> client_inner \<times> read_event list" where
  "handshake env [] c evs = (Pending, c, evs)"
| "handshake env (expired # clock) c evs =
     (if expired then (Done (Inl ConnectTimeout), c, evs)
      else (case recv_response env c evs of
          (Response CmdLineOff, c', evs') \<Rightarrow> (Done (Inr True), c', evs')
        | (Response _, c', evs') \<Rightarrow> handshake env clock c' evs'
        | (NoResponse, c', evs') \<Rightarrow> (Done (Inr False), c', evs')
        | (ResponseFailed e, c', evs') \<Rightarrow> (Done (Inl e), c', evs')
        | (ResponseWaiting, c', evs') \<Rightarrow> (Pending, c', evs')))"

text \<open>
  One page of \<open>fetch_all\<close>: a page marked \<open>reload\<close> restarts the collection, \<open>pending\<close> other than a
  positive number ends it.
\<close>

definition page_reload :: "json \<Rightarrow> bool" where
  "page_reload page = unwrap_or (Option.bind (jget page ''reload'') as_bool) False"

definition page_updated :: "json \<Rightarrow> json list" where
  "page_updated page = unwrap_or (Option.bind (jget page ''updated'') as_array) []"

definition page_pending :: "json \<Rightarrow> u64" where
  "page_pending page = unwrap_or (Option.bind (jget page ''pending'') as_u64) 0"

fun fetch_pages :: "json list \<Rightarrow> (frama_c_error + json) list \<Rightarrow> json list outcome" where
  "fetch_pages acc [] = Pending"
| "fetch_pages acc (Inl e # pages) = Done (Inl e)"
| "fetch_pages acc (Inr page # pages) =
     (let acc' = (if page_reload page then [] else acc) @ page_updated page
      in if page_pending page = 0 then Done (Inr acc') else fetch_pages acc' pages)"

definition fetch_all :: "(frama_c_error + json) list \<Rightarrow> json list outcome" where
  "fetch_all pages = fetch_pages [] pages"

definition shutdown_client ::
    "codec_env \<Rightarrow> client_inner \<Rightarrow> write_event \<Rightarrow> (frama_c_error + unit) \<times> client_inner" where
  "shutdown_client env c wev =
     (case send_command env c Shutdown wev of
        (Inl e, c1) \<Rightarrow> (Inl e, c1)
      | (Inr _, c1) \<Rightarrow> (Inr (), c1\<lparr>inner_transport := close_transport (inner_transport c1)\<rparr>))"

section \<open>Request ids\<close>

fun take_ids :: "nat \<Rightarrow> client_inner \<Rightarrow> string list" where
  "take_ids 0 c = []"
| "take_ids (Suc n) c = (case next_id c of (i, c') \<Rightarrow> i # take_ids n c')"

lemma take_ids_eq:
  "take_ids n c = map (\<lambda>k. ''RQ.'' @ show_nat (unat (counter c + of_nat k))) [0..<n]"
proof (induction n arbitrary: c)
  case (Suc n)
  have "[0..<Suc n] = 0 # map Suc [0..<n]" by (simp add: upt_conv_Cons map_Suc_upt del: upt_Suc)
  then show ?case by (simp add: next_id_def Suc add.assoc del: upt_Suc)
qed simp

lemma distinct_take_ids:
  assumes "n \<le> 2 ^ 64" shows "distinct (take_ids n c)"
proof -
  have "inj_on (\<lambda>k. ''RQ.'' @ show_nat (unat (counter c + of_nat k))) {0..<n}"
  proof (rule inj_onI)
    fix x y assume xy: "x \<in> {0..<n}" "y \<in> {0..<n}"
      and "''RQ.'' @ show_nat (unat (counter c + of_nat x)) = ''RQ.'' @ show_nat (unat (counter c + of_nat y))"
    then have "counter c + of_nat x = counter c + (of_nat y :: u64)"
      by (simp add: word_unat_eq_iff)
    then have "(of_nat x :: u64) = of_nat y" by simp
    moreover have "x < 2 ^ LENGTH(64)" "y < 2 ^ LENGTH(64)" using xy assms by auto
    ultimately show "x = y" by (metis of_nat_inverse)
  qed
  then show ?thesis by (simp add: take_ids_eq distinct_map)
qed

section \<open>A request over a stream of whole frames\<close>

text \<open>What the lemmas below assume of the stream: the texts are payloads that decode to the responses.\<close>

definition decodes :: "codec_env \<Rightarrow> string \<Rightarrow> response \<Rightarrow> bool" where
  "decodes env s r \<longleftrightarrow>
     acceptable_payload s \<and> decode_response (to_text env) (from_text env) s = Inr r"

definition streams :: "transport \<Rightarrow> bytes list \<Rightarrow> bytes \<Rightarrow> bool" where
  "streams t chunks bs \<longleftrightarrow> \<not> poisoned t \<and> [] \<notin> set chunks \<and> read_buf t @ concat chunks = bs"

text \<open>The client \<open>c'\<close> differs from \<open>c\<close> only by \<open>w\<close> having been written and by its read buffer.\<close>

definition wrote :: "client_inner \<Rightarrow> bytes \<Rightarrow> client_inner \<Rightarrow> bool" where
  "wrote c w c' \<longleftrightarrow> counter c' = counter c \<and> poisoned (inner_transport c') = poisoned (inner_transport c) \<and>
     written (inner_transport c') = written (inner_transport c) @ w"

lemma wrote_refl [simp]: "wrote c [] c"
  by (simp add: wrote_def)

lemma wrote_trans: "wrote c v c' \<Longrightarrow> wrote c' w c'' \<Longrightarrow> wrote c (v @ w) c''"
  by (simp add: wrote_def)

lemma recv_response_stream:
  assumes "decodes env s r" "streams (inner_transport c) chunks (encode_frame s @ rest)"
  shows "\<exists>c' chunks'. recv_response env c (map ReadData chunks @ evs) =
       (Response r, c', map ReadData chunks' @ evs) \<and> wrote c [] c' \<and>
     streams (inner_transport c') chunks' rest"
proof -
  from assms obtain b chunks' where
    "recv_loop decode_frame (inner_transport c) (map ReadData chunks @ evs) =
       (Frame s, (inner_transport c)\<lparr>read_buf := b\<rparr>, map ReadData chunks' @ evs)"
    "b @ concat chunks' = rest" "[] \<notin> set chunks'"
    using ff.recv_loop_reads_frame by (fastforce simp: decodes_def streams_def)
  with assms show ?thesis
    by (auto simp: recv_response_def recv_frame_def streams_def decodes_def wrote_def)
qed

lemma list_all2_snocE:
  assumes "list_all2 P (xs @ [x]) (ys @ [y])"
  obtains "list_all2 P xs ys" "P x y"
  using assms list_all2_lengthD [OF assms] by (auto simp: list_all2_append)

lemma wait_for_id_stream:
  assumes "list_all2 (decodes env) ss rs" "decodes env s r"
    and "\<forall>x \<in> set rs. wait_match rid x = None" "wait_match rid r = Some res"
    and "streams (inner_transport c) chunks (concat (map encode_frame ss) @ encode_frame s @ rest)"
  shows "\<exists>c' chunks'. wait_for_id env rid tmo (replicate (length ss) False @ False # clock) c
             (map ReadData chunks @ evs) = (Done res, c', map ReadData chunks' @ evs) \<and>
           wrote c [] c' \<and> streams (inner_transport c') chunks' rest"
  using assms
proof (induction ss rs arbitrary: c chunks rule: list_all2_induct)
  case Nil
  with recv_response_stream [of env s r c chunks rest evs] show ?case by fastforce
next
  case (Cons s1 ss r1 rs)
  let ?rest = "concat (map encode_frame ss) @ encode_frame s @ rest"
  from Cons.prems Cons.hyps obtain c1 cs where step:
    "recv_response env c (map ReadData chunks @ evs) = (Response r1, c1, map ReadData cs @ evs)"
    "wrote c [] c1" "streams (inner_transport c1) cs ?rest"
    using recv_response_stream [of env s1 r1 c chunks ?rest evs] by auto
  with Cons.IH [OF Cons.prems(1) _ Cons.prems(3), of c1 cs] Cons.prems(2) obtain c' cs' where
    "wait_for_id env rid tmo (replicate (length ss) False @ False # clock) c1 (map ReadData cs @ evs) =
      (Done res, c', map ReadData cs' @ evs)" "wrote c1 [] c'" "streams (inner_transport c') cs' rest"
    by auto
  with step Cons.prems(2) wrote_trans [of c "[]" c1 "[]" c'] show ?case by auto
qed

text \<open>
  Responses that do not end a polled command only update the diagnostics, whatever the elapsed time.
\<close>

text \<open>The request a response answers, and the frames that belong to somebody else.\<close>

fun answers :: "response \<Rightarrow> string option" where
  "answers (Data i v) = Some i"
| "answers (ErrorResp i msg) = Some i"
| "answers (RejectedResp i) = Some i"
| "answers (KilledResp i) = Some i"
| "answers (Signal i) = None"
| "answers CmdLineOn = None"
| "answers CmdLineOff = None"

definition passes :: "string \<Rightarrow> response \<Rightarrow> bool" where
  "passes rid x \<longleftrightarrow> answers x \<noteq> Some rid"

lemma wait_match_passes: "passes rid x \<Longrightarrow> wait_match rid x = None"
  by (cases x) (auto simp: passes_def)






lemma send_command_ok:
  "\<not> poisoned (inner_transport c) \<Longrightarrow> \<exists>c'. send_command env c cmd WriteOk = (Inr (), c') \<and>
     wrote c (encode_frame (encode_command (to_text env) cmd)) c' \<and>
     read_buf (inner_transport c') = read_buf (inner_transport c)"
  by (simp add: send_command_def send_frame_def Let_def wrote_def)

lemma send_command_streams:
  assumes "streams (inner_transport c) chunks bs"
  shows "\<exists>c'. send_command env c cmd WriteOk = (Inr (), c') \<and>
     wrote c (encode_frame (encode_command (to_text env) cmd)) c' \<and>
     streams (inner_transport c') chunks bs"
  using send_command_ok [of c env cmd] assms by (auto simp: streams_def wrote_def)




section \<open>Poisoned clients\<close>

lemma poisoned_send:
  "poisoned (inner_transport c) \<Longrightarrow> send_command env c cmd ev = (Inl (Io BrokenPipe), c)"
  by (simp add: send_command_def send_frame_def poisoned_transport_def)

lemma recv_response_poisons:
  assumes "recv_response env c evs = (ResponseFailed e, c', evs')"
    and "\<And>s. decode_response (to_text env) (from_text env) s \<noteq> Inl e"
  shows "poisoned (inner_transport c')"
  using assms recv_loop_frame_rule [of decode_frame "inner_transport c" evs]
  by (auto simp: recv_response_def recv_frame_def split: prod.splits if_splits recv_result.splits sum.splits)

section \<open>Cancellation\<close>

lemma cancel_command_outcome:
  assumes "cancel_command env rid tmo tick d c evs = (Done r, c', evs')"
  shows "\<exists>msg d'. r = Inl (CommandFailed ''TIMEOUT'' rid msg d') \<and>
     final_result d' = Some ''TIMEOUT'' \<and> cancellation_result d' \<noteq> None \<and>
     request_id d' = request_id d \<and> signal_count d' = signal_count d"
  using assms
  by (auto simp: cancel_command_def Let_def settle_def split: prod.splits sum.splits option.splits)

section \<open>Paged fetch\<close>

lemma fetch_pages_run:
  assumes "\<forall>p \<in> set ps. page_pending p \<noteq> 0 \<and> \<not> page_reload p" "page_pending q = 0"
    "\<not> page_reload q"
  shows "fetch_pages acc (map Inr ps @ Inr q # rest) =
    Done (Inr (acc @ concat (map page_updated (ps @ [q]))))"
  using assms by (induction ps arbitrary: acc) auto

lemma fetch_pages_append:
  "\<forall>p \<in> set ps. page_pending p \<noteq> 0 \<Longrightarrow> \<exists>acc'. fetch_pages acc (map Inr ps @ rest) = fetch_pages acc' rest"
  by (induction ps arbitrary: acc) auto

section \<open>Properties\<close>

text \<open>The ids a client hands out are pairwise distinct for as long as its 64-bit counter has not
  gone all the way round, from any starting counter. Answers are matched to requests by id alone, so
  this is what makes the matching unambiguous.\<close>

theorem request_ids_distinct: "n \<le> 2 ^ 64 \<Longrightarrow> distinct (take_ids n c)"
  by (rule distinct_take_ids)

theorem request_ids_distinct_witness:
  "(3::nat) \<le> 2 ^ 64 \<and> distinct (take_ids 3 \<lparr>inner_transport = connect_transport, counter = - 1\<rparr>)"
  using request_ids_distinct [of 3 "\<lparr>inner_transport = connect_transport, counter = - 1\<rparr>"] by simp

text \<open>A GET answers with the first response that names its own id. The socket may cut the stream
  anywhere, and stale answers to earlier requests, signals and command-line notices may come first;
  each of them is read and dropped. Exactly one frame, the GET itself, goes out.\<close>

theorem get_returns_own_answer:
  assumes "next_id c = (rid, c1)"
    and "list_all2 (decodes env) ss rs" "decodes env s r"
    and "\<forall>x \<in> set rs. passes rid x"
    and "r = Data rid v \<and> res = Inr v \<or> r = ErrorResp rid msg \<and> res = Inl (ServerError rid msg) \<or>
         r = RejectedResp rid \<and> res = Inl (Rejected rid)"
    and "streams (inner_transport c) chunks (concat (map encode_frame ss) @ encode_frame s @ rest)"
  shows "\<exists>c' chunks'. get_with_timeout env c req data tmo WriteOk
      (replicate (length ss) False @ False # clock) (map ReadData chunks @ evs) =
        (Done res, c', map ReadData chunks' @ evs) \<and>
      wrote c1 (encode_frame (encode_command (to_text env) (Get rid req data))) c' \<and>
      streams (inner_transport c') chunks' rest"
proof -
  have c1: "inner_transport c1 = inner_transport c" using assms(1) by (auto simp: next_id_def)
  with assms(6) obtain c2 where c2: "send_command env c1 (Get rid req data) WriteOk = (Inr (), c2)"
    "wrote c1 (encode_frame (encode_command (to_text env) (Get rid req data))) c2"
    "streams (inner_transport c2) chunks (concat (map encode_frame ss) @ encode_frame s @ rest)"
    using send_command_streams by metis
  have others: "\<forall>x \<in> set rs. wait_match rid x = None" and own: "wait_match rid r = Some res"
    using assms(4,5) wait_match_passes by auto
  from wait_for_id_stream [OF assms(2,3) others own c2(3)] obtain c' chunks' where
    "wait_for_id env rid tmo (replicate (length ss) False @ False # clock) c2
       (map ReadData chunks @ evs) = (Done res, c', map ReadData chunks' @ evs)"
    "wrote c2 [] c'" "streams (inner_transport c') chunks' rest" by blast
  with c2 assms(1) wrote_trans [OF c2(2), of "[]" c'] show ?thesis
    by (auto simp: get_with_timeout_def)
qed







text \<open>A small environment and stream for the witnesses: a signal, then the answer to \<open>RQ.0\<close>.\<close>

definition sample_env :: codec_env where
  "sample_env = \<lparr>to_text = (\<lambda>_. ''J''),
     from_text = (\<lambda>s. if s = ''A'' then Some (JObj [(''res'', JStr ''SIGNAL''), (''id'', JStr ''t'')])
        else if s = ''B'' then Some (JObj [(''res'', JStr ''DATA''), (''id'', JStr ''RQ.0''), (''data'', JNull)])
        else None),
     debug_response = (\<lambda>_. []), display_error = (\<lambda>_. []), debug_duration = (\<lambda>_. [])\<rparr>"

definition sample_client :: client_inner where
  "sample_client = \<lparr>inner_transport = connect_transport, counter = 0\<rparr>"

definition sample_stream :: bytes where
  "sample_stream = ''S001AS001B''"

lemma sample_frames: "encode_frame ''A'' = ''S001A''" "encode_frame ''B'' = ''S001B''"
  by code_simp+

lemma sample_facts:
  "decodes sample_env ''A'' (Signal ''t'')"
  "decodes sample_env ''B'' (Data ''RQ.0'' JNull)"
  "next_id sample_client = (''RQ.0'', sample_client\<lparr>counter := 1\<rparr>)"
  "streams (inner_transport sample_client) [take 3 sample_stream, drop 3 sample_stream]
     (concat (map encode_frame [''A'']) @ encode_frame ''B'' @ [])"
  by (simp_all add: decodes_def acceptable_payload_def max_frame_payload_bytes_def sample_env_def
      decode_response_def decode_response_value_def get_str_def Let_def next_id_def sample_client_def
      show_nat_def digits_of.simps hex_digit_0 streams_def sample_stream_def connect_transport_def
      sample_frames)

theorem get_returns_own_answer_witness:
  "\<exists>c' chunks'. get_with_timeout sample_env sample_client ''q'' JNull 10 WriteOk
      (replicate (length [''A'']) False @ False # [])
      (map ReadData [take 3 sample_stream, drop 3 sample_stream] @ []) =
        (Done (Inr JNull), c', map ReadData chunks' @ []) \<and>
      wrote (sample_client\<lparr>counter := 1\<rparr>)
        (encode_frame (encode_command (to_text sample_env) (Get ''RQ.0'' ''q'' JNull))) c' \<and>
      streams (inner_transport c') chunks' []"
proof -
  have "list_all2 (decodes sample_env) [''A''] [Signal ''t'']" using sample_facts(1) by simp
  then show ?thesis
    by (rule get_returns_own_answer [OF sample_facts(3) _ sample_facts(2) _ _ sample_facts(4)])
      (simp_all add: passes_def)
qed




end
