(* ===== verification/Status.thy ===== *)
theory Status
  imports Json
begin

text \<open>
  How a row spells its verdict (src/src/mcp/status.rs): which field answers which question, the
  normalization of Frama-C's spellings, and the derived flags.
\<close>

section \<open>Reading a status\<close>

text \<open>
  \<open>own_status\<close> takes the first of its fields that is present and then asks whether it is a string;
  \<open>consolidated_status\<close> takes the first that is a string.
\<close>

definition own_status :: "json \<Rightarrow> string option" where
  "own_status row =
     Option.bind (or_else (jget row ''normalized_status'')
        (or_else (jget row ''raw_status'') (jget row ''status''))) as_str"

definition consolidated_keys :: "string list" where
  "consolidated_keys = [''normalized_status'', ''normalized_property_status'', ''status'']"

fun find_str :: "json \<Rightarrow> string list \<Rightarrow> string option" where
  "find_str row [] = None"
| "find_str row (k # ks) = or_else (get_str row k) (find_str row ks)"

definition consolidated_status :: "json \<Rightarrow> string option" where
  "consolidated_status row = find_str row consolidated_keys"

definition raw_status :: "json \<Rightarrow> string option" where
  "raw_status row = Option.bind (or_else (jget row ''raw_status'') (jget row ''status'')) as_str"

section \<open>Normalization\<close>

definition fold_char :: "char \<Rightarrow> char" where
  "fold_char c = (if is_ascii_alphanumeric c then to_ascii_lowercase c else CHR ''_'')"

definition fold_status :: "string \<Rightarrow> string" where
  "fold_status raw =
     join ''_'' (filter (\<lambda>part. part \<noteq> []) (split_on (CHR ''_'') (map fold_char raw)))"

definition canonical_status :: "string \<Rightarrow> string" where
  "canonical_status s =
     (if s = ''valid'' then ''valid''
      else if s = ''valid_under_hyp'' \<or> s = ''valid_under_hypothesis'' then ''valid_under_hyp''
      else if s = ''invalid_under_hyp'' \<or> s = ''invalid_under_hypothesis'' then ''invalid_under_hyp''
      else if s = ''noresult'' \<or> s = ''no_result'' \<or> s = ''never_tried'' then ''noresult''
      else if s = ''timeout'' then ''timeout''
      else if s = ''failed'' then ''failed''
      else if s = ''unknown'' then ''unknown''
      else if s = ''invalid'' then ''invalid''
      else if s = '''' then ''unknown''
      else s)"

definition normalize_frama_c_status :: "string \<Rightarrow> string" where
  "normalize_frama_c_status raw = canonical_status (fold_status raw)"

definition normalized_or_derived :: "json \<Rightarrow> string" where
  "normalized_or_derived row =
     (case get_str row ''normalized_status'' of
        Some s \<Rightarrow> s
      | None \<Rightarrow> normalize_frama_c_status (unwrap_or (raw_status row) ''unknown''))"

section \<open>Questions asked of a status\<close>

definition status_is_failed :: "string \<Rightarrow> bool" where
  "status_is_failed status = eq_ignore_ascii_case status ''failed''"

definition status_is_timeout :: "string \<Rightarrow> bool" where
  "status_is_timeout status = eq_ignore_ascii_case status ''timeout''"

definition status_counts_as_progress :: "string \<Rightarrow> bool" where
  "status_counts_as_progress normalized \<longleftrightarrow> normalized = ''valid''"

definition status_requires_hypotheses :: "string \<Rightarrow> bool" where
  "status_requires_hypotheses normalized \<longleftrightarrow>
     normalized = ''valid_under_hyp'' \<or> normalized = ''invalid_under_hyp'' \<or>
     normalized = ''valid_under_false_hypothesis''"

definition status_is_vacuous :: "string \<Rightarrow> bool" where
  "status_is_vacuous normalized \<longleftrightarrow>
     ends_with normalized ''_but_dead'' \<or> normalized = ''valid_under_false_hypothesis''"

definition is_proved :: "string \<Rightarrow> bool" where
  "is_proved status = eq_ignore_ascii_case status ''valid''"

definition own_status_is_proved :: "json \<Rightarrow> bool" where
  "own_status_is_proved row = (case own_status row of None \<Rightarrow> False | Some s \<Rightarrow> is_proved s)"

definition own_status_is_timeout :: "json \<Rightarrow> bool" where
  "own_status_is_timeout row = (case own_status row of None \<Rightarrow> False | Some s \<Rightarrow> status_is_timeout s)"

section \<open>Writing the status fields\<close>

definition insert_status_flags :: "string \<Rightarrow> fields \<Rightarrow> fields" where
  "insert_status_flags normalized obj =
     AList.update ''requires_hypotheses'' (JBool (status_requires_hypotheses normalized))
       (AList.update ''vacuous'' (JBool (status_is_vacuous normalized))
         (AList.update ''counts_as_progress'' (JBool (status_counts_as_progress normalized)) obj))"

definition add_status_fields :: "json \<Rightarrow> json" where
  "add_status_fields value =
     (case get_str value ''status'' of
        None \<Rightarrow> value
      | Some raw \<Rightarrow>
          let normalized = normalize_frama_c_status raw
          in on_object (\<lambda>obj. insert_status_flags normalized
               (AList.update ''normalized_status'' (JStr normalized)
                 (AList.update ''raw_status'' (JStr raw) obj))) value)"

section \<open>Lemmas\<close>

definition folded_char :: "char \<Rightarrow> bool" where
  "folded_char c \<longleftrightarrow> is_ascii_lowercase c \<or> is_ascii_digit c \<or> c = CHR ''_''"

lemma fold_char_folded [simp]: "folded_char (fold_char c)"
  by (auto simp: folded_char_def fold_char_def ascii_defs)

lemma fold_char_id: "folded_char c \<Longrightarrow> fold_char c = c"
  by (auto simp: folded_char_def fold_char_def ascii_defs)

text \<open>A folded spelling: lower-case words joined by single underscores.\<close>

definition folded :: "string \<Rightarrow> bool" where
  "folded s \<longleftrightarrow> (\<exists>ws. s = join ''_'' ws \<and>
     (\<forall>w \<in> set ws. w \<noteq> [] \<and> CHR ''_'' \<notin> set w \<and> (\<forall>c \<in> set w. folded_char c)))"

lemma split_on_folded:
  assumes "w \<in> set (split_on c (map fold_char raw))" "x \<in> set w" shows "folded_char x"
  using split_on_subset [OF assms(1)] assms(2) by auto

lemma folded_fold_status: "folded (fold_status raw)"
  unfolding folded_def fold_status_def
  by (intro exI [of _ "filter (\<lambda>part. part \<noteq> []) (split_on (CHR ''_'') (map fold_char raw))"] conjI refl)
    (auto simp: split_on_folded dest: split_on_no_sep)

lemma fold_status_id: assumes "folded s" shows "fold_status s = s"
proof -
  obtain ws where ws: "s = join ''_'' ws"
    "\<forall>w \<in> set ws. w \<noteq> [] \<and> CHR ''_'' \<notin> set w \<and> (\<forall>c \<in> set w. folded_char c)"
    using assms by (auto simp: folded_def)
  have "map fold_char s = s"
  proof (rule map_idI)
    fix c assume "c \<in> set s"
    then have "folded_char c" using set_join [of "''_''" ws] ws by (auto simp: folded_char_def)
    then show "fold_char c = c" by (rule fold_char_id)
  qed
  moreover have "filter (\<lambda>p. p \<noteq> []) (split_on (CHR ''_'') s) = ws"
    using ws by (cases "ws = []") (auto simp: split_on_join intro: filter_True)
  ultimately show ?thesis by (simp add: fold_status_def ws(1))
qed

lemma if_mem: "(b \<Longrightarrow> x \<in> A) \<Longrightarrow> y \<in> A \<Longrightarrow> (if b then x else y) \<in> A"
  by simp

lemma canonical_cases:
  "canonical_status s \<in>
     insert s {''valid_under_hyp'', ''invalid_under_hyp'', ''noresult'', ''unknown''}"
  unfolding canonical_status_def by (intro if_mem) simp_all

lemma fold_canonical: assumes "folded s" shows "fold_status (canonical_status s) = canonical_status s"
proof -
  have "fold_status x = x"
    if "x \<in> {''valid_under_hyp'', ''invalid_under_hyp'', ''noresult'', ''unknown''}" for x
    using that by (elim insertE emptyE; simp only:; code_simp)
  with assms canonical_cases [of s] fold_status_id show ?thesis by (metis insertE)
qed

lemma canonical_idem [simp]: "canonical_status (canonical_status s) = canonical_status s"
  by (simp add: canonical_status_def)

lemma normalize_idem [simp]:
  "normalize_frama_c_status (normalize_frama_c_status raw) = normalize_frama_c_status raw"
  by (simp add: normalize_frama_c_status_def fold_canonical folded_fold_status)

lemma status_questions_disjoint:
  "is_proved s \<Longrightarrow> \<not> status_is_failed s \<and> \<not> status_is_timeout s"
  "status_is_failed s \<Longrightarrow> \<not> status_is_timeout s"
  by (auto simp: is_proved_def status_is_failed_def status_is_timeout_def eq_ignore_ascii_case_def
      ascii_defs)

lemma lower_word: "\<forall>c \<in> set s. folded_char c \<Longrightarrow> map to_ascii_lowercase s = s"
  by (rule map_idI) (auto simp: folded_char_def ascii_defs)

lemma normalize_folded: "c \<in> set (normalize_frama_c_status raw) \<Longrightarrow> folded_char c"
proof -
  have "fold_status (normalize_frama_c_status raw) = normalize_frama_c_status raw"
    by (simp add: normalize_frama_c_status_def fold_canonical folded_fold_status)
  then obtain ws where "normalize_frama_c_status raw = join ''_'' ws"
    "\<forall>w \<in> set ws. \<forall>c \<in> set w. folded_char c"
    using folded_fold_status [of "normalize_frama_c_status raw"] by (auto simp: folded_def)
  then show "c \<in> set (normalize_frama_c_status raw) \<Longrightarrow> folded_char c"
    using set_join [of "''_''" ws] by (auto simp: folded_char_def)
qed

lemma is_proved_normalized:
  "is_proved (normalize_frama_c_status raw) \<longleftrightarrow> normalize_frama_c_status raw = ''valid''"
proof -
  have "map to_ascii_lowercase ''valid'' = ''valid''" by code_simp
  then show ?thesis
    by (simp add: is_proved_def eq_ignore_ascii_case_def lower_word normalize_folded)
qed

lemma update_absorb: "map_of m k = Some v \<Longrightarrow> AList.update k v m = m"
  by (induction m) auto

section \<open>Properties\<close>

text \<open>Normalization is a projection: normalizing a normalized status changes nothing, so a row may be
  enriched twice; and on a normalized status the case-insensitive test for a proved goal and the
  exact test for progress are the same question.\<close>

theorem normalization_is_projection:
  "normalize_frama_c_status (normalize_frama_c_status raw) = normalize_frama_c_status raw \<and>
   is_proved (normalize_frama_c_status raw) = status_counts_as_progress (normalize_frama_c_status raw)"
  by (simp add: is_proved_normalized status_counts_as_progress_def)

text \<open>Enriching a row records the normalized verdict as the row's own status, keeps Frama-C's spelling
  both in \<open>raw_status\<close> and in \<open>status\<close>, sets the three flags from the normalized verdict, and a second
  enrichment is a no-op.\<close>

theorem enriched_row_status:
  assumes "get_str row ''status'' = Some raw"
  shows "let row' = add_status_fields row; n = normalize_frama_c_status raw in
     own_status row' = Some n \<and> raw_status row' = Some raw \<and> get_str row' ''status'' = Some raw \<and>
     jget row' ''counts_as_progress'' = Some (JBool (status_counts_as_progress n)) \<and>
     jget row' ''vacuous'' = Some (JBool (status_is_vacuous n)) \<and>
     jget row' ''requires_hypotheses'' = Some (JBool (status_requires_hypotheses n)) \<and>
     add_status_fields row' = row'"
proof -
  obtain m where m: "row = JObj m" using assms by (cases row) (auto simp: get_str_def jget_def)
  with assms have st: "map_of m ''status'' = Some (JStr raw)"
    by (auto simp: get_str_def json_simps split: option.splits bind_splits)
  then show ?thesis
    by (simp add: m add_status_fields_def insert_status_flags_def Let_def get_str_def own_status_def
        raw_status_def update_absorb)
qed

theorem enriched_row_status_witness:
  "let row' = add_status_fields (JObj [(''status'', JStr ''TIMEOUT'')]); n = normalize_frama_c_status ''TIMEOUT'' in
     own_status row' = Some n \<and> raw_status row' = Some ''TIMEOUT'' \<and> get_str row' ''status'' = Some ''TIMEOUT'' \<and>
     jget row' ''counts_as_progress'' = Some (JBool (status_counts_as_progress n)) \<and>
     jget row' ''vacuous'' = Some (JBool (status_is_vacuous n)) \<and>
     jget row' ''requires_hypotheses'' = Some (JBool (status_requires_hypotheses n)) \<and>
     add_status_fields row' = row'"
  by (rule enriched_row_status) (simp add: get_str_def)

end
