(* ===== verification/Verdicts.thy ===== *)
theory Verdicts
  imports Status
begin

text \<open>
  Classification of property and goal rows (src/src/mcp/verdicts.rs) and the enrichment that joins a
  goal with the consolidated verdict of its property (src/src/mcp/server.rs). Every function reads
  rows by field name, exactly as the sources do.
\<close>

section \<open>Identity of a row\<close>

definition value_marker :: "json \<Rightarrow> string option" where
  "value_marker value = find_str value [''key'', ''property'', ''prop'', ''marker'', ''id'']"

fun is_object :: "json \<Rightarrow> bool" where
  "is_object (JObj _) = True"
| "is_object _ = False"

definition keep_if :: "('a \<Rightarrow> bool) \<Rightarrow> 'a option \<Rightarrow> 'a option" where
  "keep_if P a = (case a of None \<Rightarrow> None | Some x \<Rightarrow> if P x then Some x else None)"

definition source_location :: "json \<Rightarrow> json option" where
  "source_location value =
     or_else (keep_if is_object (jget value ''source'')) (keep_if is_object (jget value ''loc''))"

text \<open>\<open>obj.entry(k).or_insert(v)\<close> under \<open>if let Some(v) = v\<close>.\<close>

definition insert_missing :: "string \<Rightarrow> json option \<Rightarrow> fields \<Rightarrow> fields" where
  "insert_missing k v obj = (case v of None \<Rightarrow> obj | Some x \<Rightarrow> or_insert k x obj)"

definition add_identity_fields :: "json \<Rightarrow> json" where
  "add_identity_fields value0 =
     (let value = add_status_fields value0;
          property_marker = value_marker value;
          wpo_id = Option.bind (or_else (jget value ''wpo_id'') (jget value ''wpo'')) as_str;
          function_marker = get_str value ''scope'';
          kinstr_marker = get_str value ''kinstr'';
          location = source_location value
      in on_object
           (insert_missing ''source_location'' location \<circ>
            insert_missing ''kinstr_marker'' (map_option JStr kinstr_marker) \<circ>
            insert_missing ''function_marker'' (map_option JStr function_marker) \<circ>
            insert_missing ''wpo_id'' (map_option JStr wpo_id) \<circ>
            insert_missing ''property_marker'' (map_option JStr property_marker)) value)"

text \<open>Collecting into a \<open>HashMap\<close>: a later property with the same marker replaces an earlier one.\<close>

definition property_status_map :: "json list \<Rightarrow> (string, json) kv" where
  "property_status_map properties =
     fold (\<lambda>p m. case value_marker p of None \<Rightarrow> m | Some k \<Rightarrow> AList.update k p m) properties []"

section \<open>Joining a goal with its property\<close>

definition property_overlay :: "string \<Rightarrow> json \<Rightarrow> fields \<Rightarrow> fields" where
  "property_overlay marker property obj0 =
     (let raw = unwrap_or (raw_status property) ''unknown'';
          normalized = normalized_or_derived property;
          obj1 = AList.update ''property'' (JStr marker) obj0;
          obj2 = or_insert ''property_marker'' (JStr marker) obj1;
          obj3 = AList.update ''raw_property_status'' (JStr raw) obj2;
          obj4 = AList.update ''normalized_property_status'' (JStr normalized) obj3;
          obj5 = insert_status_flags normalized obj4;
          obj6 = insert_missing ''kinstr_marker''
                   (map_option JStr (Option.bind (or_else (jget property ''kinstr_marker'')
                      (jget property ''kinstr'')) as_str)) obj5;
          obj7 = insert_missing ''source_location''
                   (or_else (jget property ''source_location'') (source_location property)) obj6;
          obj8 = insert_missing ''predicate'' (jget property ''predicate'') obj7
      in case jget property ''origin'' of
           None \<Rightarrow> obj8
         | Some origin \<Rightarrow> AList.update ''origin'' origin obj8)"

definition hypothesis_row :: "(string, json) kv \<Rightarrow> string \<Rightarrow> json option" where
  "hypothesis_row properties marker =
     map_option (\<lambda>property.
       let raw = unwrap_or (raw_status property) ''unknown'';
           normalized = normalized_or_derived property
       in JObj [(''property'', JStr marker), (''raw_status'', JStr raw),
                (''normalized_status'', JStr normalized),
                (''counts_as_progress'', JBool (status_counts_as_progress normalized)),
                (''vacuous'', JBool (status_is_vacuous normalized)),
                (''requires_hypotheses'', JBool (status_requires_hypotheses normalized))])
     (map_of properties marker)"

definition flag_of :: "json \<Rightarrow> string \<Rightarrow> bool" where
  "flag_of v k = unwrap_or (Option.bind (jget v k) as_bool) False"

definition vacuity_reason_text :: string where
  "vacuity_reason_text = ''The WP goal is proved only under at least one non-progress hypothesis''"

definition hypotheses_overlay :: "json list \<Rightarrow> fields \<Rightarrow> fields" where
  "hypotheses_overlay hypotheses obj =
     (let obj1 = AList.update ''hypotheses'' (JArr hypotheses) obj
      in if \<exists>h \<in> set hypotheses. \<not> flag_of h ''counts_as_progress''
         then AList.update ''vacuity_reason'' (JStr vacuity_reason_text)
                (AList.update ''requires_hypotheses'' (JBool True)
                  (AList.update ''counts_as_progress'' (JBool False) obj1))
         else obj1)"

definition enrich_goal_with_property_status :: "(string, json) kv \<Rightarrow> json \<Rightarrow> json" where
  "enrich_goal_with_property_status properties goal0 =
     (let goal =
        (case value_marker goal0 of
           None \<Rightarrow> goal0
         | Some marker \<Rightarrow>
             (case map_of properties marker of
                None \<Rightarrow> goal0
              | Some property \<Rightarrow> on_object (property_overlay marker property) goal0))
      in case Option.bind (jget goal ''deps'') as_array of
           None \<Rightarrow> goal
         | Some deps \<Rightarrow>
             let hypotheses = List.map_filter (hypothesis_row properties) (List.map_filter as_str deps)
             in if hypotheses = [] then goal else on_object (hypotheses_overlay hypotheses) goal)"

section \<open>Questions about one row\<close>

definition is_generated_alarm :: "json \<Rightarrow> bool" where
  "is_generated_alarm property \<longleftrightarrow>
     get_str property ''kind'' = Some ''assert'' \<and>
     (case Option.bind (or_else (jget property ''descr'') (jget property ''description'')) as_str of
        None \<Rightarrow> False
      | Some descr \<Rightarrow> str_contains descr ''rte:'' \<or> str_contains descr ''Eva:'')"

definition property_normalized_status :: "json \<Rightarrow> string" where
  "property_normalized_status property = unwrap_or (own_status property) []"

definition property_verdict :: "json \<Rightarrow> string" where
  "property_verdict row =
     unwrap_or (get_str row ''normalized_property_status'') (property_normalized_status row)"

definition property_is_dead :: "json \<Rightarrow> bool" where
  "property_is_dead property = ends_with (property_verdict property) ''_but_dead''"

definition check_goal_counts_as_progress :: "json \<Rightarrow> bool" where
  "check_goal_counts_as_progress goal =
     (case Option.bind (jget goal ''counts_as_progress'') as_bool of
        Some counts \<Rightarrow> counts
      | None \<Rightarrow> own_status_is_proved goal)"

definition goal_is_valid_under_hypotheses :: "json \<Rightarrow> bool" where
  "goal_is_valid_under_hypotheses goal \<longleftrightarrow>
     property_verdict goal = ''valid_under_hyp'' \<or>
     (case Option.bind (jget goal ''hypotheses'') as_array of
        None \<Rightarrow> False
      | Some hs \<Rightarrow> \<exists>h \<in> set hs. \<not> check_goal_counts_as_progress h)"

definition alarm_is_undischarged :: "json \<Rightarrow> bool" where
  "alarm_is_undischarged alarm \<longleftrightarrow>
     is_generated_alarm alarm \<and> \<not> property_is_dead alarm \<and>
     property_normalized_status alarm \<in> {''invalid'', ''invalid_under_hyp'', ''unknown''}"

definition goal_property_marker :: "json \<Rightarrow> string option" where
  "goal_property_marker goal =
     Option.bind (or_else (jget goal ''property'') (jget goal ''property_marker'')) as_str"

text \<open>The loop keeps whether a goal was seen and whether all seen so far were valid.\<close>

fun goals_all_valid_loop :: "string \<Rightarrow> json list \<Rightarrow> bool \<Rightarrow> bool \<Rightarrow> bool \<times> bool" where
  "goals_all_valid_loop marker [] covered all_valid = (covered, all_valid)"
| "goals_all_valid_loop marker (goal # goals) covered all_valid =
     (if goal_property_marker goal \<noteq> Some marker
      then goals_all_valid_loop marker goals covered all_valid
      else goals_all_valid_loop marker goals True
             (all_valid \<and> get_str goal ''normalized_status'' = Some ''valid''))"

definition goals_for_property_all_valid :: "json \<Rightarrow> json \<Rightarrow> bool option" where
  "goals_for_property_all_valid property wp_goals =
     (case value_marker property of
        None \<Rightarrow> None
      | Some marker \<Rightarrow>
          (case as_array wp_goals of
             None \<Rightarrow> None
           | Some goals \<Rightarrow>
               (case goals_all_valid_loop marker goals False True of
                  (covered, all_valid) \<Rightarrow> if covered then Some all_valid else None)))"

definition property_is_unproved_lemma :: "json \<Rightarrow> json \<Rightarrow> bool" where
  "property_is_unproved_lemma property wp_goals \<longleftrightarrow>
     get_str property ''kind'' = Some ''lemma'' \<and>
     (case goals_for_property_all_valid property wp_goals of
        Some all_valid \<Rightarrow> \<not> all_valid
      | None \<Rightarrow> property_normalized_status property \<noteq> ''valid'')"

definition property_is_disproved :: "json \<Rightarrow> json \<Rightarrow> bool" where
  "property_is_disproved property wp_goals \<longleftrightarrow>
     property_normalized_status property \<in> {''invalid'', ''invalid_under_hyp''} \<and>
     \<not> property_is_dead property \<and> goals_for_property_all_valid property wp_goals = None"

definition property_is_inconsistent :: "json \<Rightarrow> bool" where
  "property_is_inconsistent property \<longleftrightarrow> property_normalized_status property = ''inconsistent''"

definition property_is_disproved_reachability :: "json \<Rightarrow> bool" where
  "property_is_disproved_reachability property \<longleftrightarrow>
     get_str property ''kind'' = Some ''reachable'' \<and>
     property_normalized_status property \<in> {''invalid'', ''invalid_under_hyp''}"

definition property_is_assumed_valid :: "json \<Rightarrow> bool" where
  "property_is_assumed_valid property \<longleftrightarrow> property_normalized_status property = ''considered_valid''"

definition goal_is_vacuously_proved :: "json \<Rightarrow> bool" where
  "goal_is_vacuously_proved goal \<longleftrightarrow> flag_of goal ''vacuous'' \<and> \<not> property_is_dead goal"

definition goal_needs_failure_classification :: "json \<Rightarrow> bool" where
  "goal_needs_failure_classification goal \<longleftrightarrow>
     \<not> own_status_is_proved goal \<or> goal_is_vacuously_proved goal"

section \<open>Status filters\<close>

definition goal_status_unproved :: string where
  "goal_status_unproved = ''unproved''"

definition goal_status_matches :: "string \<Rightarrow> string \<Rightarrow> bool" where
  "goal_status_matches goal_status flt =
     (if eq_ignore_ascii_case flt goal_status_unproved then \<not> is_proved goal_status
      else eq_ignore_ascii_case goal_status flt)"

definition known_goal_statuses :: "string list" where
  "known_goal_statuses =
     [''considered_valid'', ''failed'', ''inconsistent'', ''invalid'', ''invalid_but_dead'',
      ''invalid_under_hyp'', ''never_tried'', ''noresult'', ''stepout'', ''timeout'', ''unknown'',
      ''unknown_but_dead'', ''valid'', ''valid_but_dead'', ''valid_under_false_hypothesis'',
      ''valid_under_hyp'']"

text \<open>\<open>row["status"].as_str()\<close> of every row, in the order of a \<open>BTreeSet\<close>.\<close>

definition present_statuses :: "json list \<Rightarrow> string list" where
  "present_statuses rows = sort_dedup (List.map_filter (\<lambda>row. as_str (jindex row ''status'')) rows)"

text \<open>The error lists what would have been accepted.\<close>

definition reject_unknown_status :: "string \<Rightarrow> string list \<Rightarrow> string list + unit" where
  "reject_unknown_status status present =
     (if eq_ignore_ascii_case status goal_status_unproved \<or>
         (\<exists>s \<in> set known_goal_statuses. eq_ignore_ascii_case s status) \<or>
         (\<exists>s \<in> set present. eq_ignore_ascii_case s status)
      then Inr ()
      else Inl (sort_dedup (known_goal_statuses @ present @ [goal_status_unproved])))"

section \<open>Lemmas\<close>

lemma goals_all_valid_loop_eq:
  "goals_all_valid_loop marker goals covered ok =
     (covered \<or> (\<exists>g \<in> set goals. goal_property_marker g = Some marker),
      ok \<and> (\<forall>g \<in> set goals. goal_property_marker g = Some marker \<longrightarrow>
                get_str g ''normalized_status'' = Some ''valid''))"
  by (induction goals arbitrary: covered ok) auto

lemma goals_for_property_all_valid_Some:
  assumes "value_marker property = Some m" "g \<in> set goals" "goal_property_marker g = Some m"
  shows "goals_for_property_all_valid property (JArr goals) =
     Some (\<forall>g \<in> set goals. goal_property_marker g = Some m \<longrightarrow>
             get_str g ''normalized_status'' = Some ''valid'')"
  using assms by (auto simp: goals_for_property_all_valid_def goals_all_valid_loop_eq)

lemma dead_not_plain:
  "property_is_dead r \<Longrightarrow> property_verdict r \<noteq> ''valid'' \<and> property_verdict r \<noteq> ''invalid'' \<and>
     property_verdict r \<noteq> ''unknown''"
  by (auto simp: property_is_dead_def ends_with_def suffix_def dest: arg_cong [of _ _ length])

end
