(* ===== verification/Checkgaps.thy ===== *)
theory Checkgaps
  imports Verdicts
begin

text \<open>
  The soundness gate of a check (src/src/mcp/checkgaps.rs): every reason why a run is not a proof
  becomes an entry of \<open>incomplete[]\<close>, and the verdict is \<open>proved\<close> exactly when there is none
  (src/src/mcp/analysis.rs). The entries are JSON objects with the source's fields in the source's
  order. \<open>dbg\<close> is the derived \<open>Debug\<close> printing of a string.
\<close>

definition gap :: "string \<Rightarrow> string \<Rightarrow> fields \<Rightarrow> json" where
  "gap code reason rest = JObj ((''code'', JStr code) # (''reason'', JStr reason) # rest)"

definition field_or_null :: "json \<Rightarrow> string \<Rightarrow> json" where
  "field_or_null v k = unwrap_or (jget v k) JNull"

definition copy_fields :: "json \<Rightarrow> string list \<Rightarrow> fields" where
  "copy_fields v ks = map (\<lambda>k. (k, field_or_null v k)) ks"

section \<open>What was asked for\<close>

datatype check_analysis = WantEva | WantWp

record wanted_analyses =
  want_eva :: bool
  want_wp :: bool

definition wanted_both :: wanted_analyses where
  "wanted_both = \<lparr>want_eva = True, want_wp = True\<rparr>"

definition from_want :: "check_analysis list option \<Rightarrow> wanted_analyses" where
  "from_want want =
     (case want of
        None \<Rightarrow> wanted_both
      | Some [] \<Rightarrow> wanted_both
      | Some wants \<Rightarrow> \<lparr>want_eva = WantEva \<in> set wants, want_wp = WantWp \<in> set wants\<rparr>)"

definition check_step_failed :: "json \<Rightarrow> bool" where
  "check_step_failed value \<longleftrightarrow>
     value = JNull \<or> Option.bind (jget value ''ok'') as_bool = Some False"

definition check_step_error :: "string \<Rightarrow> json" where
  "check_step_error err = JObj [(''ok'', JBool False), (''error'', JStr err)]"

definition unrequested_analysis_gaps :: "bool option \<Rightarrow> json \<Rightarrow> wanted_analyses \<Rightarrow> json list" where
  "unrequested_analysis_gaps rte wp wanted =
     (if want_eva wanted then [] else
        [gap ''EVA_NOT_REQUESTED''
           ''check did not run EVA, so nothing here excludes the alarms it finds.'' []]) @
     (if want_wp wanted then [] else
        [gap ''WP_NOT_REQUESTED'' ''check did not run WP, so nothing here is a proof.'' []]) @
     (if rte = Some False then
        [gap ''RTE_DISABLED''
           (if want_wp wanted \<and>
               Option.bind (pointer wp [''effective_wp_config'', ''rte'']) as_bool = Some True
            then ''check loaded without RTE annotations, so EVA's alarms exclude implicit runtime-error checks. WP generated its own RTE obligations in place for this run, so the goals do cover them.''
            else ''check ran without RTE annotations, so absence of alarms/goals excludes implicit runtime-error checks.'') []]
      else [])"

section \<open>Steps that did not complete\<close>

definition eva_unfinished_state :: "json \<Rightarrow> string option" where
  "eva_unfinished_state eva = keep_if (\<lambda>s. s \<noteq> ''computed'') (get_str eva ''computation_state'')"

definition step_failure_gaps ::
    "(string \<Rightarrow> string) \<Rightarrow> json \<Rightarrow> json \<Rightarrow> json \<Rightarrow> json \<Rightarrow> json \<Rightarrow> wanted_analyses \<Rightarrow> json list" where
  "step_failure_gaps dbg reload eva eva_alarms wp wp_goals wanted =
     (let unfinished = eva_unfinished_state eva
      in (if want_eva wanted \<and> (check_step_failed reload \<or> check_step_failed eva \<or>
              check_step_failed eva_alarms \<or> unfinished \<noteq> None)
          then [gap ''EVA_NOT_RUN''
                  ''EVA did not complete, so eva_alarms is not proof of no alarms.''
                  [(''error'',
                     unwrap_or
                       (or_else (jget eva ''error'') (or_else (jget eva_alarms ''error'')
                         (or_else (jget reload ''error'')
                           (map_option (\<lambda>st. JStr (''EVA computation state is '' @ dbg st @
                               '', not '' @ [CHR 0x22] @ ''computed'' @ [CHR 0x22])) unfinished))))
                       JNull)]]
          else []) @
         (if \<not> want_wp wanted then []
          else if check_step_failed reload \<or> check_step_failed wp \<or> check_step_failed wp_goals
          then [gap ''WP_NOT_RUN'' ''WP did not complete, so wp_goals is not proof of no goals.''
                  [(''error'', unwrap_or (or_else (jget wp ''error'') (or_else (jget wp_goals ''error'')
                       (jget reload ''error''))) JNull)]]
          else if Option.bind (jget wp ''drained'') as_bool \<noteq> Some True
          then [gap ''WP_STILL_RUNNING''
                  ''WP was still working when its goals were read, so wp_goals may be missing goals entirely.''
                  (copy_fields wp [''todo'', ''active''])]
          else []))"

definition compile_flags_dropped_gap :: "json \<Rightarrow> json option" where
  "compile_flags_dropped_gap reload =
     map_option (\<lambda>dropped. gap ''COMPILE_FLAGS_DROPPED''
        ''The compilation database builds with flags that change what the program means, and Frama-C drops them on import, so the analyzed program differs from the compiled one.''
        [(''flags'', JObj dropped)])
       (keep_if (\<lambda>flags. flags \<noteq> [] \<and> map_of flags ''unreadable'' = None)
         (Option.bind (jget reload ''compilation_database_dropped_flags'') as_object))"

section \<open>Diagnostics of the parse\<close>

definition ast_soundness_reason :: "string \<Rightarrow> (string \<times> string) option" where
  "ast_soundness_reason category =
     (if category = ''kernel:asm:clobber'' then
        Some (''AST_ASM_CLOBBER'', ''Frama-C assumed inline assembly has no effects beyond its operands, so the analyzed statement is weaker than the compiled one.'')
      else if category = ''kernel:attrs:unknown'' then
        Some (''AST_UNKNOWN_ATTRIBUTE'', ''Frama-C ignored an unknown attribute, so the analyzed declaration differs from the source.'')
      else None)"

text \<open>One category of the loop: the gaps so far and the categories not classified so far.\<close>

definition ast_category_step ::
    "(string \<times> string) list \<Rightarrow> string \<times> json \<Rightarrow> json list \<times> fields \<Rightarrow> json list \<times> fields" where
  "ast_category_step allowlist entry acc =
     (case entry of (category, record) \<Rightarrow> case acc of (gaps, unclassified) \<Rightarrow>
        if unwrap_or (as_u64 (jindex record ''count'')) 0 = 0 then (gaps, unclassified)
        else (case ast_soundness_reason category of
            Some (code, reason) \<Rightarrow>
              (gaps @ [gap code reason ((''category'', JStr category) #
                  map (\<lambda>k. (k, jindex record k))
                    [''count'', ''count_unit'', ''locations'', ''locations_omitted''])], unclassified)
          | None \<Rightarrow>
              if \<exists>a \<in> set allowlist. fst a = category then (gaps, unclassified)
              else (gaps, AList.update category record unclassified)))"

definition ast_diagnostic_gaps :: "json \<Rightarrow> (string \<times> string) list \<Rightarrow> json list" where
  "ast_diagnostic_gaps reload allowlist =
     (let diagnostics = jindex (jindex reload ''ast_reload_health'') ''parse_diagnostics''
      in case as_str (jindex diagnostics ''unavailable'') of
           Some reason \<Rightarrow>
             [gap ''AST_PARSE_DIAGNOSTICS_UNAVAILABLE''
                ''This server has no record of what Frama-C's front end dropped while parsing, so nothing here says the analyzed program is the compiled one.''
                [(''detail'', JStr reason)]]
         | None \<Rightarrow>
             (case as_object (jindex diagnostics ''categories'') of
                None \<Rightarrow> []
              | Some categories \<Rightarrow>
                  (case fold (ast_category_step allowlist) categories ([], []) of
                     (gaps, unclassified) \<Rightarrow>
                       gaps @ (if unclassified = [] then []
                         else [gap ''AST_UNCLASSIFIED_WARNING''
                           ''Frama-C emitted parse warnings in categories this server has not classified, so their effect on the analyzed program is unknown.''
                           [(''categories'', JObj unclassified)]]))))"

section \<open>Property rows\<close>

text \<open>The chain of the loop body: the first question answered yes names the gap.\<close>

definition property_gap_code :: "json \<Rightarrow> json \<Rightarrow> (string \<times> string) option" where
  "property_gap_code alarm wp_goals =
     (if property_is_inconsistent alarm then
        Some (''PROPERTY_INCONSISTENT'', ''Frama-C consolidated contradictory statuses for this property, so the verdict cannot be trusted in either direction.'')
      else if alarm_is_undischarged alarm then
        Some (''ALARM_NOT_VALID'', ''EVA reported a runtime-error alarm it could not discharge.'')
      else if property_is_disproved_reachability alarm then
        Some (''PROPERTY_DEAD'', ''EVA proved this code unreachable, so nothing proved about it constrains a run.'')
      else if property_is_unproved_lemma alarm wp_goals then
        Some (''LEMMA_NOT_PROVED'', ''WP assumes every lemma while discharging other goals, so an undischarged one makes the proofs around it worthless.'')
      else if property_is_disproved alarm wp_goals then
        Some (''PROPERTY_DISPROVED'', ''Frama-C disproved this property, and WP emits no goal for a property that already carries a status, so nothing downstream reports it.'')
      else if property_is_assumed_valid alarm then
        Some (''ASSUMED_VALID'', ''Frama-C recorded this property as valid by external assumption rather than by proof. WP uses it as a hypothesis everywhere without ever checking it.'')
      else None)"

definition property_row_gap :: "json \<Rightarrow> json \<Rightarrow> json option" where
  "property_row_gap wp_goals alarm =
     map_option (\<lambda>(code, reason). gap code reason
        [(''property'', (case value_marker alarm of None \<Rightarrow> JNull | Some m \<Rightarrow> JStr m)),
         (''descr'', field_or_null alarm ''descr''),
         (''source_location'', field_or_null alarm ''source_location''),
         (''status'', JStr (property_normalized_status alarm))])
       (property_gap_code alarm wp_goals)"

definition property_row_gaps :: "json \<Rightarrow> json \<Rightarrow> json list" where
  "property_row_gaps eva_alarms wp_goals =
     (case as_array eva_alarms of
        None \<Rightarrow> []
      | Some alarms \<Rightarrow> List.map_filter (property_row_gap wp_goals) alarms)"

section \<open>WP goals\<close>

definition proved_goal_fields :: "json \<Rightarrow> string \<Rightarrow> fields" where
  "proved_goal_fields goal status =
     copy_fields goal [''stable_goal_id'', ''frama_c_goal_name'', ''goal_kind''] @
     [(''normalized_status'', JStr status),
      (''property_status'', field_or_null goal ''normalized_property_status'')]"

definition proved_goal_gap :: "json \<Rightarrow> string \<Rightarrow> json option" where
  "proved_goal_gap goal status =
     (if property_is_dead goal then
        Some (gap ''PROPERTY_DEAD''
          ''WP proved this goal, but its property sits in code EVA proved unreachable.''
          (proved_goal_fields goal status))
      else if status_is_vacuous (property_verdict goal) then
        Some (gap ''PROPERTY_VACUOUS''
          ''WP proved this goal, but Frama-C discharged its property only under a hypothesis that cannot hold, so the proof holds over no execution.''
          (proved_goal_fields goal status @ copy_fields goal [''vacuity_reason'', ''vacuity_dependency'']))
      else if goal_is_valid_under_hypotheses goal then
        Some (gap ''VALID_UNDER_HYP''
          ''WP proved this goal, but Frama-C consolidated its property as valid only under hypotheses that are not themselves established.''
          (proved_goal_fields goal status @ copy_fields goal [''hypotheses'']))
      else None)"

definition open_goal_fields :: "json \<Rightarrow> string \<Rightarrow> fields" where
  "open_goal_fields goal status =
     copy_fields goal [''stable_goal_id'', ''frama_c_goal_name'', ''goal_kind''] @
     [(''normalized_status'', JStr status)]"

definition lemma_markers :: "json \<Rightarrow> string set" where
  "lemma_markers eva_alarms =
     (case as_array eva_alarms of
        None \<Rightarrow> {}
      | Some alarms \<Rightarrow>
          set (List.map_filter value_marker (filter (\<lambda>a. get_str a ''kind'' = Some ''lemma'') alarms)))"

text \<open>One goal of the loop: the gaps so far and the goals judged so far, by WP obligation id.\<close>

definition wp_goal_step ::
    "string set \<Rightarrow> json \<Rightarrow> json list \<times> (string, json) kv \<Rightarrow> json list \<times> (string, json) kv" where
  "wp_goal_step lemmas goal acc =
     (case acc of (incomplete, judged) \<Rightarrow>
        if check_goal_counts_as_progress goal then (incomplete, judged)
        else if (case goal_property_marker goal of None \<Rightarrow> False | Some m \<Rightarrow> m \<in> lemmas)
        then (incomplete, judged)
        else
          let judged' = (case Option.bind (or_else (jget goal ''wpo_id'') (jget goal ''wpo'')) as_str of
                None \<Rightarrow> judged | Some wpo \<Rightarrow> AList.update wpo goal judged);
              status = unwrap_or (own_status goal) ''unknown''
          in if is_proved status
             then (incomplete @ (case proved_goal_gap goal status of None \<Rightarrow> [] | Some g \<Rightarrow> [g]), judged')
             else (incomplete @ [gap ''GOAL_NOT_VALID'' ''WP has a non-valid goal.'' (open_goal_fields goal status)] @
                   (if status_is_timeout status
                    then [gap ''PROVER_TIMEOUT'' ''A WP prover timed out on this goal.'' (open_goal_fields goal status)]
                    else []), judged'))"

definition wp_goal_gaps :: "json \<Rightarrow> json \<Rightarrow> json list \<times> (string, json) kv" where
  "wp_goal_gaps eva_alarms wp_goals =
     (case as_array wp_goals of
        None \<Rightarrow> ([], [])
      | Some goals \<Rightarrow> fold (wp_goal_step (lemma_markers eva_alarms)) goals ([], []))"

section \<open>Proofread findings\<close>

definition reason_field :: "json \<Rightarrow> string \<Rightarrow> string \<Rightarrow> json" where
  "reason_field finding k fallback = unwrap_or (jget finding k) (JStr fallback)"

text \<open>Here the reason may be any JSON value the finding carries.\<close>

definition gap_with :: "string \<Rightarrow> json \<Rightarrow> fields \<Rightarrow> json" where
  "gap_with code reason rest = JObj ((''code'', JStr code) # (''reason'', reason) # rest)"

definition proofread_finding_gap :: "(string, json) kv \<Rightarrow> json \<Rightarrow> json option" where
  "proofread_finding_gap judged finding =
     (let category = get_str finding ''category''
      in if category = Some ''unproved_assumption'' then
           map_option (\<lambda>goal. gap_with ''UNPROVED_ASSUMPTION''
               (reason_field finding ''why_problem'' ''WP assumes an unproved assertion or postcondition, so a goal reported valid may rest on it.'')
               [(''function'', field_or_null finding ''function''),
                (''stable_goal_id'', field_or_null goal ''stable_goal_id''),
                (''frama_c_goal_name'', field_or_null finding ''trigger''),
                (''goal_kind'', field_or_null finding ''clause_or_goal_kind'')])
             (Option.bind (get_str finding ''wpo'') (map_of judged))
         else if category = Some ''result_unconstrained'' then
           Some (gap_with ''RESULT_UNCONSTRAINED''
             (reason_field finding ''message'' ''The contract bounds the result without determining it.'')
             (copy_fields finding [''function'', ''result_range'', ''undetermined_results'']))
         else if category = Some ''unconstrained_assigns'' then
           Some (gap_with ''UNCONSTRAINED_ASSIGNS''
             (reason_field finding ''message'' ''The contract assigns a location no postcondition constrains.'')
             (copy_fields finding [''function'', ''assigns_target'']))
         else if category = Some ''unresolved_call'' then
           Some (gap_with ''INDIRECT_CALL_UNRESOLVED''
             (reason_field finding ''message'' ''A call names no callee, so WP assumed it could reach any function.'')
             (copy_fields finding [''function'', ''callee_expression'', ''stmt_id'', ''source_location''] @
              [(''reports'', JStr ''the call shape, not whether a calls clause is present'')]))
         else if category = Some ''assumed_callee_contract'' then
           Some (gap_with ''ASSUMED_CALLEE_CONTRACT''
             (reason_field finding ''message'' ''WP relied on a direct callee contract with no finite assigns clause.'')
             (copy_fields finding [''function'', ''callee'', ''source_location'']))
         else None)"

definition proofread_finding_gaps :: "json \<Rightarrow> (string, json) kv \<Rightarrow> json list" where
  "proofread_finding_gaps wp judged =
     (case Option.bind (Option.bind (jget wp ''proofread_report'') (\<lambda>r. jget r ''findings'')) as_array of
        None \<Rightarrow> []
      | Some findings \<Rightarrow> List.map_filter (proofread_finding_gap judged) findings)"

section \<open>The whole gate\<close>

definition ast_warning_allowlist :: "(string \<times> string) list" where
  "ast_warning_allowlist = []"

definition check_incomplete_items ::
    "(string \<Rightarrow> string) \<Rightarrow> bool option \<Rightarrow> json \<Rightarrow> json \<Rightarrow> json \<Rightarrow> json \<Rightarrow> json \<Rightarrow> wanted_analyses \<Rightarrow>
     json list" where
  "check_incomplete_items dbg rte reload eva eva_alarms wp wp_goals wanted =
     ast_diagnostic_gaps reload ast_warning_allowlist @
     (case compile_flags_dropped_gap reload of None \<Rightarrow> [] | Some g \<Rightarrow> [g]) @
     unrequested_analysis_gaps rte wp wanted @
     step_failure_gaps dbg reload eva eva_alarms wp wp_goals wanted @
     property_row_gaps eva_alarms wp_goals @
     (case wp_goal_gaps eva_alarms wp_goals of
        (gaps, judged) \<Rightarrow> gaps @ proofread_finding_gaps wp judged)"

text \<open>\<open>check_payload\<close> appends the gaps of the later probes and then reads the verdict off the list.\<close>

definition check_verdict :: "json list \<Rightarrow> string" where
  "check_verdict incomplete = (if incomplete = [] then ''proved'' else ''incomplete'')"

section \<open>Lemmas\<close>

lemma verdict_proved [simp]: "check_verdict xs = ''proved'' \<longleftrightarrow> xs = []"
  by (simp add: check_verdict_def)

lemma gap_code [simp]: "get_str (gap code reason rest) ''code'' = Some code"
  by (simp add: gap_def get_str_def)

lemma map_filter_Nil: "List.map_filter f xs = [] \<longleftrightarrow> (\<forall>x \<in> set xs. f x = None)"
  by (induction xs) (auto simp: List.map_filter_def)

lemma map_filter_set: "y \<in> set (List.map_filter f xs) \<longleftrightarrow> (\<exists>x \<in> set xs. f x = Some y)"
  by (induction xs) (auto simp: List.map_filter_simps split: option.splits)

lemma property_row_gaps_Nil:
  "property_row_gaps eva_alarms wp_goals = [] \<longleftrightarrow>
     (\<forall>rows. as_array eva_alarms = Some rows \<longrightarrow> (\<forall>r \<in> set rows. property_gap_code r wp_goals = None))"
  by (auto simp: property_row_gaps_def property_row_gap_def map_filter_Nil split: option.splits)

lemma property_gap_code_None:
  "property_gap_code r wp_goals = None \<longleftrightarrow>
     \<not> property_is_inconsistent r \<and> \<not> alarm_is_undischarged r \<and> \<not> property_is_disproved_reachability r \<and>
     \<not> property_is_unproved_lemma r wp_goals \<and> \<not> property_is_disproved r wp_goals \<and>
     \<not> property_is_assumed_valid r"
  by (simp add: property_gap_code_def)

lemma unrequested_Nil:
  "unrequested_analysis_gaps rte wp wanted = [] \<longleftrightarrow> want_eva wanted \<and> want_wp wanted \<and> rte \<noteq> Some False"
  by (auto simp: unrequested_analysis_gaps_def)

lemma step_failure_Nil:
  assumes "want_eva wanted" "want_wp wanted"
  shows "step_failure_gaps dbg reload eva eva_alarms wp wp_goals wanted = [] \<longleftrightarrow>
     \<not> check_step_failed reload \<and> \<not> check_step_failed eva \<and> \<not> check_step_failed eva_alarms \<and>
     \<not> check_step_failed wp \<and> \<not> check_step_failed wp_goals \<and>
     eva_unfinished_state eva = None \<and> Option.bind (jget wp ''drained'') as_bool = Some True"
  using assms unfolding step_failure_gaps_def Let_def by auto

text \<open>A goal the loop passes without a gap.\<close>

definition goal_passes :: "string set \<Rightarrow> json \<Rightarrow> bool" where
  "goal_passes lemmas g \<longleftrightarrow>
     check_goal_counts_as_progress g \<or>
     (\<exists>m \<in> lemmas. goal_property_marker g = Some m) \<or>
     (own_status_is_proved g \<and> \<not> property_is_dead g \<and> \<not> status_is_vacuous (property_verdict g) \<and>
      \<not> goal_is_valid_under_hypotheses g)"

lemma wp_goal_step_gaps:
  "\<exists>new. fst (wp_goal_step lemmas g acc) = fst acc @ new \<and> (new = [] \<longleftrightarrow> goal_passes lemmas g)"
proof -
  obtain gs j where acc: "acc = (gs, j)" by (cases acc)
  have unknown: "\<not> is_proved ''unknown''" by (simp add: is_proved_def eq_ignore_ascii_case_def ascii_defs to_ascii_lowercase_def)
  show ?thesis
    using unknown
    by (cases "own_status g"; cases "goal_property_marker g")
       (auto simp: acc wp_goal_step_def Let_def goal_passes_def proved_goal_gap_def own_status_is_proved_def
          unwrap_or_def)
qed

lemma wp_goal_steps_Nil:
  "fst (fold (wp_goal_step lemmas) goals acc) = [] \<longleftrightarrow>
     fst acc = [] \<and> (\<forall>g \<in> set goals. goal_passes lemmas g)"
proof (induction goals arbitrary: acc)
  case (Cons g goals)
  obtain new where "fst (wp_goal_step lemmas g acc) = fst acc @ new" "new = [] \<longleftrightarrow> goal_passes lemmas g"
    using wp_goal_step_gaps by blast
  then show ?case using Cons.IH by auto
qed simp

lemma lemma_markers_Some:
  "m \<in> lemma_markers eva_alarms \<longleftrightarrow>
     (\<exists>rows. as_array eva_alarms = Some rows \<and>
        (\<exists>r \<in> set rows. get_str r ''kind'' = Some ''lemma'' \<and> value_marker r = Some m))"
  by (auto simp: lemma_markers_def map_filter_set split: option.splits)

text \<open>A goal of a lemma row that raises no gap is itself valid.\<close>

lemma covered_lemma_goal_valid:
  assumes rows: "as_array eva_alarms = Some rows" "r \<in> set rows" and r: "get_str r ''kind'' = Some ''lemma''"
    "value_marker r = Some m" "property_gap_code r (JArr goals) = None"
    and g: "g \<in> set goals" "goal_property_marker g = Some m"
  shows "get_str g ''normalized_status'' = Some ''valid''"
  using assms goals_for_property_all_valid_Some [of r m g goals]
  by (auto simp: property_gap_code_None property_is_unproved_lemma_def)

section \<open>Properties\<close>

text \<open>What a row of \<open>eva_alarms\<close> must not be for the verdict to be \<open>proved\<close>.\<close>

definition row_admissible :: "json \<Rightarrow> json \<Rightarrow> bool" where
  "row_admissible wp_goals r \<longleftrightarrow>
     property_normalized_status r \<noteq> ''inconsistent'' \<and> property_normalized_status r \<noteq> ''considered_valid'' \<and>
     (is_generated_alarm r \<longrightarrow>
        property_is_dead r \<or> property_normalized_status r \<notin> {''invalid'', ''invalid_under_hyp'', ''unknown''}) \<and>
     (property_normalized_status r \<in> {''invalid'', ''invalid_under_hyp''} \<longrightarrow>
        property_is_dead r \<or> goals_for_property_all_valid r wp_goals \<noteq> None)"

text \<open>What a WP goal must be.\<close>

definition goal_established :: "json \<Rightarrow> bool" where
  "goal_established g \<longleftrightarrow>
     check_goal_counts_as_progress g \<or> get_str g ''normalized_status'' = Some ''valid'' \<or>
     (own_status_is_proved g \<and> \<not> property_is_dead g \<and> \<not> status_is_vacuous (property_verdict g) \<and>
      \<not> goal_is_valid_under_hypotheses g)"

text \<open>C1: The verdict \<open>proved\<close> is sound for the gate. When the list of reasons a run is not a proof
  comes out empty (whatever later probes may add), both EVA and WP were asked for, run-time checks were
  not switched off, the reload and every analysis step succeeded, EVA's state is computed, WP had
  drained its queue, no property row is an undischarged alarm, inconsistent, assumed valid or disproved
  without goals of its own, and every WP goal is established: a lemma's goals, which the loop skips, are
  valid because the lemma's own row raised no gap.\<close>

theorem proved_gate_sound:
  assumes "check_verdict (check_incomplete_items dbg rte reload eva eva_alarms wp wp_goals wanted @ later) = ''proved''"
  shows "want_eva wanted \<and> want_wp wanted \<and> rte \<noteq> Some False \<and>
    (\<forall>v \<in> {reload, eva, eva_alarms, wp, wp_goals}. \<not> check_step_failed v) \<and>
    get_str eva ''computation_state'' \<in> {None, Some ''computed''} \<and>
    Option.bind (jget wp ''drained'') as_bool = Some True \<and>
    (\<forall>rows. eva_alarms = JArr rows \<longrightarrow> (\<forall>r \<in> set rows. row_admissible wp_goals r)) \<and>
    (\<forall>goals. wp_goals = JArr goals \<longrightarrow> (\<forall>g \<in> set goals. goal_established g))"
proof -
  obtain gs j where gj: "wp_goal_gaps eva_alarms wp_goals = (gs, j)" by fastforce
  from assms have nil: "unrequested_analysis_gaps rte wp wanted = []"
      "step_failure_gaps dbg reload eva eva_alarms wp wp_goals wanted = []"
      "property_row_gaps eva_alarms wp_goals = []" "gs = []"
    by (auto simp: check_incomplete_items_def gj)
  from nil(1) have w: "want_eva wanted" "want_wp wanted" "rte \<noteq> Some False" by (simp_all add: unrequested_Nil)
  note steps = nil(2) [unfolded step_failure_Nil [OF w(1,2)]]
  have state: "get_str eva ''computation_state'' \<in> {None, Some ''computed''}"
    using steps by (auto simp: eva_unfinished_state_def keep_if_def split: option.splits if_splits)
  have rows: "property_gap_code r wp_goals = None" if "eva_alarms = JArr rows" "r \<in> set rows" for rows r
    using nil(3) that by (simp add: property_row_gaps_Nil)
  have row_ok: "row_admissible wp_goals r" if "eva_alarms = JArr rows" "r \<in> set rows" for rows r
    using rows [OF that]
    by (auto simp: property_gap_code_None row_admissible_def property_is_inconsistent_def
        property_is_assumed_valid_def alarm_is_undischarged_def property_is_disproved_def)
  have goal_ok: "goal_established g" if goals: "wp_goals = JArr goals" and g: "g \<in> set goals" for goals g
  proof -
    have "fst (fold (wp_goal_step (lemma_markers eva_alarms)) goals ([], [])) = []"
      using gj nil(4) goals by (simp add: wp_goal_gaps_def)
    then have "goal_passes (lemma_markers eva_alarms) g" using g by (simp add: wp_goal_steps_Nil)
    moreover have "get_str g ''normalized_status'' = Some ''valid''"
      if "m \<in> lemma_markers eva_alarms" "goal_property_marker g = Some m" for m
      using that covered_lemma_goal_valid [OF _ _ _ _ _ g] rows goals
      by (auto simp: lemma_markers_Some as_array_Some)
    ultimately show ?thesis by (auto simp: goal_passes_def goal_established_def)
  qed
  show ?thesis using w steps state row_ok goal_ok by simp
qed

definition clean_eva :: json where
  "clean_eva = JObj [(''ok'', JBool True), (''computation_state'', JStr ''computed'')]"

definition clean_wp :: json where
  "clean_wp = JObj [(''ok'', JBool True), (''drained'', JBool True)]"

definition clean_goals :: "json list" where
  "clean_goals = [JObj [(''property'', JStr ''#p1''), (''normalized_status'', JStr ''valid''),
                        (''counts_as_progress'', JBool True)]]"

lemma proved_gate_sound_witness:
  "check_verdict (check_incomplete_items id (Some True) (JObj [(''ok'', JBool True)]) clean_eva (JArr [])
      clean_wp (JArr clean_goals) wanted_both @ []) = ''proved'' \<and>
   goal_established (hd clean_goals)"
proof -
  have v: "check_verdict (check_incomplete_items id (Some True) (JObj [(''ok'', JBool True)]) clean_eva
      (JArr []) clean_wp (JArr clean_goals) wanted_both @ []) = ''proved''"
    by code_simp
  show ?thesis using v proved_gate_sound [OF v] by (simp add: clean_goals_def)
qed
end
