(* ===== verification/Gates.thy ===== *)
theory Gates
  imports Checkgaps
begin

text \<open>
  The gates beside the goals: what the messages of a run, its smoke probe, its memory-model probe, the
  pinned properties, the harness functions and the contract mutants withhold from a verdict
  (src/src/mcp/checkgaps.rs, src/src/mcp/wpclass.rs), and the composition \<open>check_payload\<close> makes of them
  (src/src/mcp/analysis.rs). What a probe or a request answered is an argument.
\<close>

definition find_map :: "('a \<Rightarrow> 'b option) \<Rightarrow> 'a list \<Rightarrow> 'b option" where
  "find_map f xs = (case List.map_filter f xs of [] \<Rightarrow> None | y # _ \<Rightarrow> Some y)"

definition array_or_empty :: "json option \<Rightarrow> json list" where
  "array_or_empty v = unwrap_or (Option.bind v as_array) []"

section \<open>Smoke tests\<close>

definition smoke_kind_count :: "json list \<Rightarrow> string \<Rightarrow> json" where
  "smoke_kind_count detail kind = jnat (length (filter (\<lambda>d. jindex d ''kind'' = JStr kind) detail))"

definition smoke_failed_gap :: "json \<Rightarrow> json list \<Rightarrow> nat \<Rightarrow> json" where
  "smoke_failed_gap probe failed summary_failed =
     (let base = [(''code'', JStr ''SMOKE_TEST_FAILED''),
            (''reason'', JStr (''WP proved '' @ show_nat (max (length failed) summary_failed) @
               '' smoke goal(s), so part of what was proved holds over no execution.'')),
            (''failed'', JArr failed),
            (''passed'', jopt (JNum \<circ> PosInt) (Option.bind (jget probe ''passed'') as_u64)),
            (''total'', jopt (JNum \<circ> PosInt) (Option.bind (jget probe ''total'') as_u64))]
      in JObj (case Option.bind (jget probe ''failed_detail'') as_array of
           None \<Rightarrow> base
         | Some detail \<Rightarrow> base @
             [(''by_kind'', JObj (map (\<lambda>k. (k, smoke_kind_count detail k))
                 [''contract_vacuous'', ''unreachable_code'', ''unclassified''])),
              (''failed_detail'', JArr detail)]))"

definition smoke_test_gaps :: "bool \<Rightarrow> json \<Rightarrow> json list" where
  "smoke_test_gaps requested wp =
     (if \<not> requested then []
      else (let probe0 = jget wp ''smoke_probe''
        in case keep_if (\<lambda>p. Option.bind (jget p ''ran'') as_bool = Some True) probe0 of
             None \<Rightarrow>
               [gap ''SMOKE_TEST_UNCHECKED''
                  (unwrap_or (Option.bind (Option.bind probe0 (\<lambda>p. jget p ''reason'')) as_str)
                     ''WP did not complete, so no smoke probe ran'') []]
           | Some probe \<Rightarrow>
               let failed = array_or_empty (jget probe ''failed'');
                   passed = Option.bind (jget probe ''passed'') as_u64;
                   total = Option.bind (jget probe ''total'') as_u64;
                   summary_failed = (case (passed, total) of
                       (Some p, Some t) \<Rightarrow> if p < t then unat (t - p) else 0
                     | _ \<Rightarrow> 0)
               in if total = None then
                    [gap ''SMOKE_TEST_UNCHECKED''
                       ''The smoke probe ran and WP printed no smoke summary, so no smoke goal was generated and whether the specification is vacuous is unanswered.'' []]
                  else if failed = [] \<and> summary_failed = 0 then []
                  else [smoke_failed_gap probe failed summary_failed]))"

section \<open>Messages of the run\<close>

definition weakening_model_selectors :: "string option \<Rightarrow> string list" where
  "weakening_model_selectors model =
     (case model of
        None \<Rightarrow> []
      | Some m \<Rightarrow>
          map (\<lambda>s. ''+'' @ s)
            (filter (\<lambda>s. s \<in> {''cast'', ''nat'', ''real''})
              (map (\<lambda>s. map to_ascii_lowercase (trim s))
                (concat (map (\<lambda>alternative. tl (split_on (CHR ''+'') alternative))
                  (split_on (CHR '','') m))))))"

text \<open>\<open>text.lines().next()\<close>: up to the first line feed, less a carriage return before it.\<close>

definition first_line :: "string \<Rightarrow> string" where
  "first_line text =
     (case split_once [char_of (10::nat)] text of
        None \<Rightarrow> text
      | Some (line, _) \<Rightarrow>
          if line \<noteq> [] \<and> last line = char_of (13::nat) then butlast line else line)"

definition str_field :: "json \<Rightarrow> string \<Rightarrow> string" where
  "str_field v k = unwrap_or (get_str v k) []"

definition message_code :: "json \<Rightarrow> string option" where
  "message_code message =
     (let text = str_field message ''message''; plugin = str_field message ''plugin'';
          kind = str_field message ''kind''
      in if plugin = ''wp'' \<and> eq_ignore_ascii_case kind ''error'' \<and>
            str_contains text ''skipped verification'' then Some ''WP_VERIFICATION_SKIPPED''
         else if plugin = ''wp'' \<and> str_contains text ''not yet supported (skipped)'' then
           Some ''WP_ANNOTATION_SKIPPED''
         else if plugin = ''wp'' \<and> (str_contains text ''might be unsound'' \<or>
            str_contains text ''interpreted as reads nothing'') then Some ''WP_UNSOUND_ENCODING''
         else if plugin = ''kernel'' \<and> str_field message ''category'' = ''annot:missing-spec'' \<and>
            str_contains text ''Neither code nor specification for function'' then
           Some ''GENERATED_CALLEE_SPEC''
         else None)"

text \<open>
  The loop keeps one gap per code and first line, in order of appearance; each later message of the
  same kind only adds its location. A gap is its code, its reason, the message and the locations.
\<close>

record message_gap =
  mg_code :: string
  mg_reason :: string
  mg_message :: string
  mg_locations :: "json list"

definition add_location :: "json option \<Rightarrow> json list \<Rightarrow> json list" where
  "add_location source locations =
     (case source of
        None \<Rightarrow> locations
      | Some s \<Rightarrow> if \<exists>l \<in> set locations. json_eq l s then locations else locations @ [s])"

fun add_message :: "string \<Rightarrow> string \<Rightarrow> string \<Rightarrow> json option \<Rightarrow> message_gap list \<Rightarrow> message_gap list" where
  "add_message code line text source [] =
     [\<lparr>mg_code = code, mg_reason = line, mg_message = text, mg_locations = add_location source []\<rparr>]"
| "add_message code line text source (g # gs) =
     (if mg_code g = code \<and> mg_reason g = line
      then g\<lparr>mg_locations := add_location source (mg_locations g)\<rparr> # gs
      else g # add_message code line text source gs)"

definition message_step :: "json \<Rightarrow> message_gap list \<Rightarrow> message_gap list" where
  "message_step message gaps =
     (case message_code message of
        None \<Rightarrow> gaps
      | Some code \<Rightarrow>
          let text = str_field message ''message'';
              source = keep_if (\<lambda>s. s \<noteq> JNull) (jget message ''source'')
          in add_message code (first_line text) text source gaps)"

definition message_gap_json :: "message_gap \<Rightarrow> json" where
  "message_gap_json g =
     gap (mg_code g) (mg_reason g) [(''message'', JStr (mg_message g)), (''locations'', JArr (mg_locations g))]"

definition weakened_model_gap :: "string option \<Rightarrow> json list" where
  "weakened_model_gap model =
     (let weakenings = weakening_model_selectors model
      in if weakenings = [] then []
         else [gap ''WP_WEAKENED_MODEL''
                 (''This run's memory model uses '' @ join '', '' weakenings @
                  '', which departs from C semantics.'')
                 [(''model'', jopt JStr model), (''selectors'', JArr (map JStr weakenings))]])"

definition wp_message_gaps :: "json list \<Rightarrow> string option \<Rightarrow> json list" where
  "wp_message_gaps messages model =
     map message_gap_json (fold message_step messages []) @ weakened_model_gap model"

section \<open>Why3 anomalies\<close>

definition why3_aborted :: "string \<Rightarrow> bool" where
  "why3_aborted text \<longleftrightarrow>
     str_contains text ''why3'' \<and>
     (str_contains text ''anomaly'' \<or> str_contains text ''invalid_argument'' \<or>
      str_contains text ''internal error'' \<or> str_contains text ''fatal error'')"

definition lower_message :: "json \<Rightarrow> string" where
  "lower_message message = map to_ascii_lowercase (str_field message ''message'')"

definition cast_line_step :: "json \<Rightarrow> json list \<Rightarrow> json list" where
  "cast_line_step message cast_lines =
     (if str_contains (lower_message message) ''cast with incompatible pointer''
      then add_location (pointer message [''source'', ''line'']) cast_lines
      else cast_lines)"

definition anomaly_sample :: nat where
  "anomaly_sample = 5"

definition wp_backend_diagnosis :: "json list \<Rightarrow> string option \<Rightarrow> json" where
  "wp_backend_diagnosis messages model =
     (let aborted = filter (\<lambda>m. why3_aborted (lower_message m)) messages;
          anomalies = map (\<lambda>m. field_or_null m ''message'') (take anomaly_sample aborted);
          cast_lines = fold cast_line_step messages [];
          cast_warned = (\<exists>m \<in> set messages.
             str_contains (lower_message m) ''cast with incompatible pointer'');
          nocast = (case model of None \<Rightarrow> False
             | Some m \<Rightarrow> str_contains (map to_ascii_lowercase m) ''nocast'')
      in if aborted = [] then JNull
         else (case
            (if nocast \<and> cast_warned then
               (''why3_anomaly_with_pointer_cast'',
                ''Why3 aborted, so no prover answered these goals and their FAILED status is not a verdict on the C code or the ACSL. WP also warned about casts between incompatible pointer types at the lines below, and the model in force refuses casts. Re-run under Typed+cast before changing an annotation: an anomaly is not an unprovable goal.'',
                JObj [(''tool'', JStr ''run_wp''),
                  (''args'', JObj [(''model'', JStr ''Typed+cast''), (''cache'', JStr ''None'')]),
                  (''reason'', JStr ''Prove the same obligations under a model that admits the pointer casts this code performs. If they prove there, the nocast run said nothing about them. The goal list then holds both models: a goal named typed_nocast_... is the crashed run's record, not a second failure, and only the typed_cast_... rows are this verdict.'')])
             else
               (''why3_anomaly'',
                ''Why3 aborted, so no prover answered these goals and their FAILED status is not a verdict on the C code or the ACSL. Establish the toolchain versions before changing an annotation.'',
                JObj [(''tool'', JStr ''self_check''), (''args'', JObj []),
                  (''reason'', JStr ''Record the Frama-C, Why3, and prover versions the anomaly came from before touching the specification.'')]))
            of (kind, reason, next_action) \<Rightarrow>
              JObj [(''kind'', JStr kind), (''confidence'', JStr ''high''), (''model'', jopt JStr model),
                (''reason'', JStr reason), (''anomaly_count'', jnat (length aborted)),
                (''anomalies'', JArr anomalies),
                (''anomalies_truncated'', JBool (anomaly_sample < length aborted)),
                (''cast_warning_lines'', JArr cast_lines),
                (''cast_warning_lines_are_a_sample'', JBool True),
                (''next_action'', next_action)]))"

definition wp_backend_anomaly_left_goal_unjudged :: "json \<Rightarrow> json \<Rightarrow> bool" where
  "wp_backend_anomaly_left_goal_unjudged diagnosis goals \<longleftrightarrow>
     is_object diagnosis \<and>
     (\<exists>goal \<in> set (unwrap_or (as_array goals) []). goal_needs_failure_classification goal \<and>
        (case own_status goal of None \<Rightarrow> False | Some s \<Rightarrow> status_is_failed s))"

section \<open>Memory-model hypotheses\<close>

definition hypothesis_entries :: "json \<Rightarrow> json list" where
  "hypothesis_entries probe = array_or_empty (jget probe ''hypotheses'')"

definition names_function :: "json \<Rightarrow> bool" where
  "names_function entry = (case jget entry ''function'' of None \<Rightarrow> False | Some n \<Rightarrow> n \<noteq> JNull)"

definition parsed_hypothesis_entries :: "json \<Rightarrow> json list" where
  "parsed_hypothesis_entries probe = filter names_function (hypothesis_entries probe)"

definition has_parsed_hypothesis_entry :: "json \<Rightarrow> bool" where
  "has_parsed_hypothesis_entry probe \<longleftrightarrow> (\<exists>e \<in> set (hypothesis_entries probe). names_function e)"

definition unparsed_hypothesis_warnings :: "json \<Rightarrow> u64" where
  "unparsed_hypothesis_warnings probe =
     sum_list (List.map_filter (\<lambda>e. Option.bind (jget e ''unparsed_warning_count'') as_u64)
       (hypothesis_entries probe))"

definition probe_ran :: "json \<Rightarrow> bool" where
  "probe_ran probe \<longleftrightarrow> Option.bind (jget probe ''ran'') as_bool = Some True"

definition hypothesis_sample :: nat where
  "hypothesis_sample = 20"

definition memory_model_hypothesis_gap :: "json \<Rightarrow> json option" where
  "memory_model_hypothesis_gap probe =
     (let sample = parsed_hypothesis_entries probe
      in if \<not> probe_ran probe then None
         else if sample = [] then None
         else Some (gap ''WP_MEMORY_MODEL_HYPOTHESIS''
           ''WP's memory model assumed these separations to discharge this run's goals, and emitted no obligation for any of them. A goal reported valid here is valid only for callers that satisfy them.''
           [(''function_count'', jnat (length sample)),
            (''functions'', JArr (take hypothesis_sample sample)),
            (''functions_truncated'', JBool (hypothesis_sample < length sample)),
            (''unparsed_warning_count'', JNum (PosInt (unparsed_hypothesis_warnings probe))),
            (''read_from'', field_or_null probe ''read_from'')]))"

definition probe_absent :: "string \<Rightarrow> bool \<Rightarrow> json" where
  "probe_absent reason nothing_was_proved =
     JObj [(''ran'', JBool False), (''reason'', JStr reason),
           (''nothing_was_proved'', JBool nothing_was_proved), (''hypotheses'', JArr [])]"

definition memory_model_unchecked_gap :: "json \<Rightarrow> wanted_analyses \<Rightarrow> json option" where
  "memory_model_unchecked_gap probe wanted =
     (if \<not> want_wp wanted then None
      else if probe_ran probe then
        (let unparsed = unparsed_hypothesis_warnings probe
         in if unparsed = 0 \<or> has_parsed_hypothesis_entry probe then None
            else Some (gap ''WP_MEMORY_MODEL_UNCHECKED''
              (''WP printed '' @ show_nat (unat unparsed) @ '' memory-model hypothesis warning(s) whose wording this server could not parse, so the separations it assumed are unknown rather than absent. A goal reported valid here is not evidence that the model assumed nothing.'')
              [(''probe_reason'', JStr ''the probe ran and could not parse what WP printed''),
               (''unparsed_warning_count'', JNum (PosInt unparsed)),
               (''exit_code'', field_or_null probe ''exit_code'')]))
      else (case Option.bind (jget probe ''reason'') as_str of
          None \<Rightarrow> None
        | Some reason \<Rightarrow>
            if flag_of probe ''nothing_was_proved'' then None
            else Some (gap ''WP_MEMORY_MODEL_UNCHECKED''
              (''WP's memory-model hypotheses are unknown for this run: the probe could not read them ('' @
               reason @ ''). A goal reported valid here is not evidence that the model assumed nothing.'')
              [(''probe_reason'', JStr reason), (''exit_code'', field_or_null probe ''exit_code'')])))"

section \<open>Predicates compared as text\<close>

text \<open>The operators Frama-C prints in Unicode, as UTF-8 (src/src/mcp/acsl.rs).\<close>

definition utf8 :: "nat list \<Rightarrow> string" where
  "utf8 bs = map char_of bs"

definition acsl_unicode_operators :: "(string \<times> string) list" where
  "acsl_unicode_operators =
     [(utf8 [226, 137, 164], ''<=''), (utf8 [226, 137, 165], ''>=''), (utf8 [226, 137, 161], ''==''),
      (utf8 [226, 137, 162], ''!=''), (utf8 [226, 137, 160], ''!=''), (utf8 [226, 135, 148], ''<==>''),
      (utf8 [226, 135, 146], ''==>''), (utf8 [226, 136, 167], ''&&''), (utf8 [226, 136, 168], ''||''),
      (utf8 [226, 138, 149], ''^^''), (utf8 [194, 172], ''!''), (utf8 [226, 136, 128], [CHR 0x5C] @ ''forall''),
      (utf8 [226, 136, 131], [CHR 0x5C] @ ''exists''), (utf8 [226, 132, 164], ''integer''),
      (utf8 [226, 132, 157], ''real'')]"

fun replace_first :: "(string \<times> string) list \<Rightarrow> string \<Rightarrow> (string \<times> string) option" where
  "replace_first [] s = None"
| "replace_first ((pat, new) # rules) s =
     (if pat \<noteq> [] \<and> prefix pat s then Some (new, drop (length pat) s) else replace_first rules s)"

lemma replace_first_shorter: "replace_first rules s = Some (new, rest) \<Longrightarrow> length rest < length s"
  by (induction rules s rule: replace_first.induct)
     (auto split: if_splits simp: prefix_def)

function ascii_acsl_operators :: "string \<Rightarrow> string" where
  "ascii_acsl_operators [] = []"
| "ascii_acsl_operators (c # cs) =
     (case replace_first acsl_unicode_operators (c # cs) of
        None \<Rightarrow> c # ascii_acsl_operators cs
      | Some (new, rest) \<Rightarrow> new @ ascii_acsl_operators rest)"
  by pat_completeness auto
termination
  by (relation "measure length") (auto dest: replace_first_shorter)

text \<open>One match of \<open>\old\<close> applied to an identifier, and the text after it.\<close>

definition is_ident_start :: "char \<Rightarrow> bool" where
  "is_ident_start c \<longleftrightarrow> (is_ascii_alphanumeric c \<and> \<not> is_ascii_digit c) \<or> c = CHR ''_''"

definition is_ident_char :: "char \<Rightarrow> bool" where
  "is_ident_char c \<longleftrightarrow> is_ascii_alphanumeric c \<or> c = CHR ''_''"

definition old_call :: string where
  "old_call = CHR 0x5C # ''old(''"

definition match_old_ident :: "string \<Rightarrow> (string \<times> string) option" where
  "match_old_ident s =
     (if \<not> prefix old_call s then None
      else (let inside = trim_start (drop (length old_call) s);
                ident = takeWhile is_ident_char inside;
                after = trim_start (dropWhile is_ident_char inside)
            in if ident \<noteq> [] \<and> is_ident_start (hd ident) \<and> after \<noteq> [] \<and> hd after = CHR '')''
               then Some (ident, tl after) else None))"

lemma match_old_ident_shorter: "match_old_ident s = Some (i, rest) \<Longrightarrow> length rest < length s"
proof -
  assume m: "match_old_ident s = Some (i, rest)"
  let ?inside = "trim_start (drop (length old_call) s)"
  let ?after = "trim_start (dropWhile is_ident_char ?inside)"
  from m have "rest = tl ?after" "?after \<noteq> []"
    by (auto simp: match_old_ident_def Let_def split: if_splits)
  moreover have "length ?after \<le> length s"
    using length_trim_start [of "dropWhile is_ident_char ?inside"]
      length_dropWhile_le [of is_ident_char ?inside] length_trim_start [of "drop (length old_call) s"]
    by simp
  ultimately show ?thesis by (cases ?after) auto
qed

function replace_old :: "string list \<Rightarrow> string \<Rightarrow> string" where
  "replace_old formals [] = []"
| "replace_old formals (c # cs) =
     (case match_old_ident (c # cs) of
        None \<Rightarrow> c # replace_old formals cs
      | Some (ident, rest) \<Rightarrow>
          (if ident \<in> set formals then ident else take (length (c # cs) - length rest) (c # cs)) @
          replace_old formals rest)"
  by pat_completeness auto
termination
  by (relation "measure (\<lambda>(f, s). length s)") (auto dest: match_old_ident_shorter)

definition trim_end_semicolons :: "string \<Rightarrow> string" where
  "trim_end_semicolons s = rev (dropWhile (\<lambda>c. c = CHR '';'') (rev s))"

definition normalize_predicate :: "string \<Rightarrow> string list \<Rightarrow> string" where
  "normalize_predicate text formals =
     remove_whitespace (ascii_acsl_operators (trim_end_semicolons (trim (replace_old formals text))))"
section \<open>Properties stated by the harness, threads and pins\<close>

definition svcomp_property_functions :: "(string \<times> string) list" where
  "svcomp_property_functions =
     [(''reach_error'', ''requires '' @ [CHR 0x5C] @ ''false;''),
      (''__VERIFIER_error'', ''requires '' @ [CHR 0x5C] @ ''false;''),
      (''__VERIFIER_assert'', ''requires <its parameter> != 0;'')]"

text \<open>A harness function: its name, its declaration marker and the names of its formals.\<close>

definition encoding_of :: "string \<Rightarrow> string list \<Rightarrow> string list" where
  "encoding_of name formals =
     (if name = ''__VERIFIER_assert'' then
        (case formals of
           [] \<Rightarrow> []
         | p # _ \<Rightarrow> [p @ ''!=0'', ''0!='' @ p, p, ''!('' @ p @ ''==0)''])
      else [[CHR 0x5C] @ ''false''])"

definition states_encoding :: "string \<Rightarrow> string \<Rightarrow> string list \<Rightarrow> json \<Rightarrow> bool" where
  "states_encoding name declaration formals prop \<longleftrightarrow>
     jindex prop ''kind'' = JStr ''requires'' \<and> get_str prop ''scope'' = Some declaration \<and>
     (case get_str prop ''predicate'' of
        None \<Rightarrow> False
      | Some p \<Rightarrow> normalize_predicate p formals \<in> set (encoding_of name formals))"

definition harness_encoding ::
    "(string \<times> string \<times> string list) list \<Rightarrow> json list \<Rightarrow> (string \<times> bool) list" where
  "harness_encoding present properties =
     map (\<lambda>(name, declaration, formals).
       (name, \<exists>prop \<in> set properties. states_encoding name declaration formals prop)) present"

definition reachability_property_gap :: "(string \<times> bool) list \<Rightarrow> json option" where
  "reachability_property_gap functions =
     (let is_error = (\<lambda>f. fst f \<noteq> ''__VERIFIER_assert'');
          deciding = (if \<exists>f \<in> set functions. is_error f then filter is_error functions else functions);
          unencoded = map (\<lambda>(name, requires).
              JObj [(''function'', JStr name), (''suggested_requires'', JStr requires)])
            (filter (\<lambda>(name, requires). \<exists>f \<in> set functions. fst f = name \<and> \<not> snd f)
              svcomp_property_functions)
      in if \<forall>f \<in> set deciding. snd f then None
         else if unencoded = [] then None
         else Some (gap ''REACHABILITY_PROPERTY_UNENCODED''
           ''The program states its property as an error call that must be unreachable, and no precondition on that call makes it a proof obligation, so no goal checks the property.''
           [(''functions'', JArr unencoded)]))"

definition thread_creation_functions :: "string list" where
  "thread_creation_functions = [''pthread_create'', ''thrd_create'']"

definition concurrent_program_gap :: "string list \<Rightarrow> json option" where
  "concurrent_program_gap present =
     (if present = [] then None
      else Some (gap ''CONCURRENT_PROGRAM''
        ''The program creates threads, and EVA and WP analyze it sequentially: thread bodies are not analyzed from main, and no interleaving is considered.''
        [(''thread_creation'', JArr (map JStr present))]))"

record pinned_property =
  pin_predicate :: string
  pin_function :: "string option"
  pin_kind :: "string option"

definition post_state_kinds :: "string list" where
  "post_state_kinds = [''ensures'', ''exits'', ''breaks'', ''continues'', ''returns'']"

definition pin_own_formals :: "(string, string list) kv \<Rightarrow> json \<Rightarrow> string list" where
  "pin_own_formals formals row =
     unwrap_or (Option.bind
       (keep_if (\<lambda>_. unwrap_or (as_str (jindex row ''kind'')) [] \<in> set post_state_kinds)
         (as_str (jindex row ''scope''))) (map_of formals)) []"

definition pin_matches ::
    "(string, string) kv \<Rightarrow> (string, string list) kv \<Rightarrow> pinned_property \<Rightarrow> json \<Rightarrow> bool" where
  "pin_matches scopes formals pin row \<longleftrightarrow>
     (case pin_function pin of
        None \<Rightarrow> True
      | Some name \<Rightarrow>
          (case map_of scopes name of
             None \<Rightarrow> False
           | Some marker \<Rightarrow> as_str (jindex row ''scope'') = Some marker)) \<and>
     (case pin_kind pin of None \<Rightarrow> True | Some kind \<Rightarrow> jindex row ''kind'' = JStr kind) \<and>
     (let own = pin_own_formals formals row
      in case get_str row ''predicate'' of
           None \<Rightarrow> False
         | Some text \<Rightarrow> normalize_predicate text own = normalize_predicate (pin_predicate pin) own)"

definition pinned_property_gap ::
    "json list \<Rightarrow> (string, string) kv \<Rightarrow> (string, string list) kv \<Rightarrow> pinned_property \<Rightarrow> json option" where
  "pinned_property_gap properties scopes formals pin =
     (let matching = filter (pin_matches scopes formals pin) properties;
          pinned = JObj [(''predicate'', JStr (pin_predicate pin)),
            (''function'', jopt JStr (pin_function pin)), (''kind'', jopt JStr (pin_kind pin))]
      in if matching = [] then
           Some (gap ''PINNED_PROPERTY_MISSING''
             ''No property in the program matches this pin, so the property that was asked for is not what was proved.''
             [(''pinned'', pinned)])
         else if \<not> (\<exists>row \<in> set matching. own_status_is_proved row) then
           Some (gap ''PINNED_PROPERTY_NOT_PROVED'' ''The pinned property is present and not proved.''
             [(''pinned'', pinned),
              (''statuses'', JArr (map (\<lambda>row. JStr (unwrap_or (own_status row) ''unknown'')) matching))])
         else None)"

definition pinned_property_gaps ::
    "pinned_property list \<Rightarrow> json list \<Rightarrow> (string, string) kv \<Rightarrow> (string, string list) kv \<Rightarrow> json list" where
  "pinned_property_gaps pins properties scopes formals =
     List.map_filter (pinned_property_gap properties scopes formals) pins"

definition contract_mutant_gaps :: "json \<Rightarrow> json list" where
  "contract_mutant_gaps probe =
     (if probe = JNull then []
      else if jindex probe ''ran'' \<noteq> JBool True then
        [gap ''CONTRACT_MUTANTS_UNCHECKED''
           (unwrap_or (as_str (jindex probe ''reason'')) ''the mutant probe did not run'') []]
      else (let decorative = filter (\<lambda>m. jindex m ''verdict'' = JStr ''decorative'')
                  (unwrap_or (as_array (jindex probe ''mutants'')) [])
            in if decorative = [] then []
               else [gap ''CONTRACT_DECORATIVE''
                 ''A stub body proves every postcondition of the contract, so the proof does not distinguish the function from the stub.''
                 [(''mutants'', JArr decorative)]]))"

section \<open>Evidence about the run and facts about the program\<close>

record run_evidence_inputs =
  re_wanted :: wanted_analyses
  re_requested_smoke :: bool
  re_rte :: bool
  re_narrowed_by_prop :: "string option"
  re_messages :: "json list"
  re_messages_truncated :: bool
  re_wp :: json
  re_wp_goals :: json

definition option_list :: "'a option \<Rightarrow> 'a list" where
  "option_list a = (case a of None \<Rightarrow> [] | Some x \<Rightarrow> [x])"

definition withheld_by_request_gaps :: "bool \<Rightarrow> bool \<Rightarrow> string option \<Rightarrow> json list" where
  "withheld_by_request_gaps unsigned_skipped rte prop =
     (if rte \<and> unsigned_skipped then
        [gap ''RTE_REDUCED''
           ''RTE ran without the unsigned overflow and downcast checks, so unsigned wraparound and narrowing were not checked.'' []]
      else []) @
     (case prop of
        None \<Rightarrow> []
      | Some p \<Rightarrow> [gap ''CHECK_NARROWED_BY_PROP''
           ''WP ran under a prop filter, so only the selected properties were attempted and this verdict does not cover the rest.''
           [(''prop'', JStr p)]])"

definition goals_changed_gaps :: "json \<Rightarrow> json \<Rightarrow> json list" where
  "goals_changed_gaps wp wp_goals =
     (case (Option.bind (pointer wp [''measurement'', ''goals'']) as_u64,
            map_option (\<lambda>gs. of_nat (length gs)) (as_array wp_goals)) of
        (Some measured, Some read_back) \<Rightarrow>
          if measured \<noteq> read_back then
            [gap ''WP_GOALS_CHANGED_UNDER_CHECK''
               (''The proof run produced '' @ show_nat (unat measured) @ '' goals and '' @
                show_nat (unat read_back) @ '' were read back, so the goal table changed between the two.'')
               [(''run_goals'', JNum (PosInt measured)), (''read_back_goals'', JNum (PosInt read_back))]]
          else []
      | _ \<Rightarrow> [])"

definition anomaly_gaps :: "json \<Rightarrow> json \<Rightarrow> json list" where
  "anomaly_gaps diagnosis wp_goals =
     (if wp_backend_anomaly_left_goal_unjudged diagnosis wp_goals then
        [JObj [(''code'', JStr ''WP_BACKEND_ANOMALY''), (''reason'', field_or_null diagnosis ''reason''),
               (''kind'', field_or_null diagnosis ''kind''), (''model'', field_or_null diagnosis ''model''),
               (''anomaly_count'', field_or_null diagnosis ''anomaly_count'')]]
      else [])"

text \<open>
  \<open>run_evidence_gates\<close>; \<open>unsigned_skipped\<close> is the flag of the loaded project and \<open>memory_model\<close> what
  \<open>memory_model_probe\<close> answered.
\<close>

definition run_evidence_gates :: "run_evidence_inputs \<Rightarrow> bool \<Rightarrow> json \<Rightarrow> json list" where
  "run_evidence_gates inp unsigned_skipped memory_model =
     (let wp = re_wp inp; wanted = re_wanted inp;
          model = Option.bind (pointer wp [''effective_wp_config'', ''model'']) as_str;
          diagnosis = wp_backend_diagnosis (re_messages inp) model;
          function_scoped = (case Option.bind (pointer wp [''effective_wp_config'', ''functions'']) as_array of
              None \<Rightarrow> False | Some fs \<Rightarrow> fs \<noteq> [])
      in anomaly_gaps diagnosis (re_wp_goals inp) @
         (if want_wp wanted \<and> re_narrowed_by_prop inp = None \<and> \<not> function_scoped
          then goals_changed_gaps wp (re_wp_goals inp) else []) @
         smoke_test_gaps (want_wp wanted \<and> re_requested_smoke inp) wp @
         withheld_by_request_gaps unsigned_skipped (re_rte inp)
           (keep_if (\<lambda>_. want_wp wanted) (re_narrowed_by_prop inp)) @
         (if re_messages_truncated inp then
            [gap ''WP_MESSAGES_TRUNCATED''
               ''The analyzer's message stream was not read to the end, so the gates derived from it cannot distinguish a clean run from an unread one.'' []]
          else []) @
         wp_message_gaps (re_messages inp) model @
         option_list (memory_model_hypothesis_gap memory_model) @
         option_list (memory_model_unchecked_gap memory_model wanted))"

record program_fact_inputs =
  pf_pins :: "pinned_property list option"
  pf_harness :: "(string \<times> string \<times> string list) list"
  pf_threads :: "string list"
  pf_properties :: "json list option"
  pf_scopes :: "(string, string) kv"
  pf_formals :: "(string, string list) kv"
  pf_mutant_probe :: json

text \<open>
  \<open>program_facts\<close>: the properties are only fetched when there are pins or a harness, and a fetch that
  failed is \<open>None\<close>.
\<close>

definition program_fact_gaps :: "program_fact_inputs \<Rightarrow> json list" where
  "program_fact_gaps inp =
     (let pins = keep_if (\<lambda>ps. ps \<noteq> []) (pf_pins inp);
          properties = (if pins \<noteq> None \<or> pf_harness inp \<noteq> [] then pf_properties inp else None)
      in (case properties of
            None \<Rightarrow> []
          | Some ps \<Rightarrow> option_list (reachability_property_gap (harness_encoding (pf_harness inp) ps))) @
         option_list (concurrent_program_gap (pf_threads inp)) @
         (case pins of
            None \<Rightarrow> []
          | Some ps \<Rightarrow> pinned_property_gaps ps (unwrap_or properties []) (pf_scopes inp) (pf_formals inp)) @
         contract_mutant_gaps (pf_mutant_probe inp))"

text \<open>The list \<open>check_payload\<close> reads the verdict off.\<close>

definition check_incomplete ::
    "(string \<Rightarrow> string) \<Rightarrow> json \<Rightarrow> json \<Rightarrow> json \<Rightarrow> run_evidence_inputs \<Rightarrow> bool \<Rightarrow> json \<Rightarrow>
     program_fact_inputs \<Rightarrow> json list" where
  "check_incomplete dbg reload eva eva_alarms inp unsigned_skipped memory_model facts =
     check_incomplete_items dbg (Some (re_rte inp)) reload eva eva_alarms (re_wp inp) (re_wp_goals inp)
       (re_wanted inp) @
     run_evidence_gates inp unsigned_skipped memory_model @ program_fact_gaps facts"
section \<open>Lemmas\<close>

lemma option_list_Nil [simp]: "option_list a = [] \<longleftrightarrow> a = None"
  by (simp add: option_list_def split: option.splits)

lemma add_message_not_Nil [simp]: "add_message code line text source gs \<noteq> []"
  by (cases gs) auto

lemma message_step_Nil: "message_step m gs = [] \<longleftrightarrow> gs = [] \<and> message_code m = None"
  by (auto simp: message_step_def Let_def split: option.splits)

lemma message_steps_Nil: "fold message_step ms gs = [] \<longleftrightarrow> gs = [] \<and> (\<forall>m \<in> set ms. message_code m = None)"
  by (induction ms arbitrary: gs) (auto simp: message_step_Nil)

lemma wp_message_gaps_Nil:
  "wp_message_gaps messages model = [] \<longleftrightarrow>
     (\<forall>m \<in> set messages. message_code m = None) \<and> weakening_model_selectors model = []"
  by (simp add: wp_message_gaps_def message_steps_Nil weakened_model_gap_def Let_def)

text \<open>What the loop holds of one key \<open>(code, first line)\<close>: the locations seen under it.\<close>

definition covers :: "message_gap list \<Rightarrow> string \<Rightarrow> string \<Rightarrow> json option \<Rightarrow> bool" where
  "covers gs code line source \<longleftrightarrow>
     (\<exists>g \<in> set gs. mg_code g = code \<and> mg_reason g = line \<and>
        (case source of None \<Rightarrow> True | Some s \<Rightarrow> s \<in> set (mg_locations g) \<or> (\<exists>l \<in> set (mg_locations g). json_eq l s)))"

lemma set_add_location: "set locs \<subseteq> set (add_location source locs)"
  by (auto simp: add_location_def split: option.splits)

lemma add_location_has:
  "s \<in> set (add_location (Some s) locs) \<or> (\<exists>l \<in> set (add_location (Some s) locs). json_eq l s)"
  by (auto simp: add_location_def)

lemma add_message_covers: "covers (add_message code line text source gs) code line source"
proof (induction gs)
  case Nil
  show ?case by (auto simp: covers_def add_location_def split: option.splits)
next
  case (Cons g gs)
  then show ?case
    using add_location_has [of _ "mg_locations g"]
    by (auto simp: covers_def split: option.splits)
qed

lemma add_message_keeps: "covers gs c l s \<Longrightarrow> covers (add_message code line text source gs) c l s"
proof (induction gs)
  case (Cons g gs)
  show ?case
  proof (cases "covers gs c l s")
    case True
    then have "covers (add_message code line text source gs) c l s" by (rule Cons.IH)
    with True show ?thesis by (auto simp: covers_def)
  next
    case False
    with Cons.prems have g: "covers [g] c l s" by (auto simp: covers_def)
    have "covers [g\<lparr>mg_locations := add_location source (mg_locations g)\<rparr>] c l s"
      using g set_mp [OF set_add_location [of "mg_locations g" source]]
      by (auto simp: covers_def split: option.splits)
    with g show ?thesis by (auto simp: covers_def)
  qed
qed (simp add: covers_def)

lemma add_message_keys:
  "set (map (\<lambda>g. (mg_code g, mg_reason g)) (add_message code line text source gs)) =
     insert (code, line) (set (map (\<lambda>g. (mg_code g, mg_reason g)) gs))"
  by (induction gs) auto

lemma add_message_distinct:
  "distinct (map (\<lambda>g. (mg_code g, mg_reason g)) gs) \<Longrightarrow>
     distinct (map (\<lambda>g. (mg_code g, mg_reason g)) (add_message code line text source gs))"
proof (induction gs)
  case (Cons g gs)
  then show ?case using add_message_keys [of code line "text" source gs] by auto
qed simp

lemma message_step_keeps: "covers gs c l s \<Longrightarrow> covers (message_step m gs) c l s"
  by (auto simp: message_step_def Let_def add_message_keeps split: option.splits)

lemma message_steps_keep: "covers gs c l s \<Longrightarrow> covers (fold message_step ms gs) c l s"
  by (induction ms arbitrary: gs) (auto simp: message_step_keeps)

lemma message_steps_distinct:
  "distinct (map (\<lambda>g. (mg_code g, mg_reason g)) gs) \<Longrightarrow>
     distinct (map (\<lambda>g. (mg_code g, mg_reason g)) (fold message_step ms gs))"
  by (induction ms arbitrary: gs)
     (auto simp: message_step_def Let_def add_message_distinct split: option.splits)

definition message_source :: "json \<Rightarrow> json option" where
  "message_source m = keep_if (\<lambda>s. s \<noteq> JNull) (jget m ''source'')"

lemma message_step_covers:
  "message_code m = Some code \<Longrightarrow>
     covers (message_step m gs) code (first_line (str_field m ''message'')) (message_source m)"
  by (simp add: message_step_def Let_def add_message_covers message_source_def)

lemma message_steps_cover:
  "m \<in> set ms \<Longrightarrow> message_code m = Some code \<Longrightarrow>
     covers (fold message_step ms gs) code (first_line (str_field m ''message'')) (message_source m)"
  by (induction ms arbitrary: gs) (auto intro: message_steps_keep message_step_covers)

section \<open>Properties\<close>

text \<open>No message that weakens a run is lost or counted twice. Every message the classifier gives a
  code has a gap with that code and its first line, whose locations hold the message's own source (or an
  equal JSON value), and no two gaps of the loop have the same code and first line.\<close>

theorem message_gaps_lossless:
  assumes "m \<in> set messages" "message_code m = Some code"
  shows "covers (fold message_step messages []) code (first_line (str_field m ''message'')) (message_source m) \<and>
    distinct (map (\<lambda>g. (mg_code g, mg_reason g)) (fold message_step messages [])) \<and>
    (\<exists>g \<in> set (wp_message_gaps messages model). get_str g ''code'' = Some code \<and>
       get_str g ''reason'' = Some (first_line (str_field m ''message'')))"
proof -
  have c: "covers (fold message_step messages []) code (first_line (str_field m ''message'')) (message_source m)"
    using assms by (rule message_steps_cover)
  then obtain g where g: "g \<in> set (fold message_step messages [])" "mg_code g = code"
      "mg_reason g = first_line (str_field m ''message'')"
    by (auto simp: covers_def)
  have "message_gap_json g \<in> set (wp_message_gaps messages model)"
    using g(1) by (simp add: wp_message_gaps_def)
  moreover have "get_str (message_gap_json g) ''code'' = Some code"
    "get_str (message_gap_json g) ''reason'' = Some (first_line (str_field m ''message''))"
    by (simp_all add: message_gap_json_def gap_def get_str_def g)
  ultimately show ?thesis using c message_steps_distinct [of "[]" messages] by auto
qed

definition skipped_message :: json where
  "skipped_message = JObj [(''plugin'', JStr ''wp''), (''kind'', JStr ''ERROR''),
     (''message'', JStr ''f skipped verification''), (''source'', JObj [(''line'', JNull)])]"

lemma message_gaps_lossless_witness:
  "covers (fold message_step [skipped_message, skipped_message] []) ''WP_VERIFICATION_SKIPPED''
     (first_line (str_field skipped_message ''message'')) (message_source skipped_message) \<and>
   length (fold message_step [skipped_message, skipped_message] []) = 1"
proof -
  have m: "message_code skipped_message = Some ''WP_VERIFICATION_SKIPPED''" by code_simp
  have l: "length (fold message_step [skipped_message, skipped_message] []) = 1" by code_simp
  show ?thesis
    using message_gaps_lossless [of skipped_message "[skipped_message, skipped_message]", OF _ m] l by simp
qed

lemma check_incomplete_wanted:
  assumes "check_incomplete dbg reload eva eva_alarms inp unsigned_skipped memory_model facts = []"
  shows "want_wp (re_wanted inp)" "run_evidence_gates inp unsigned_skipped memory_model = []"
    "program_fact_gaps facts = []"
  using assms by (auto simp: check_incomplete_def check_incomplete_items_def unrequested_Nil)

lemma smoke_Nil:
  assumes "smoke_test_gaps True wp = []"
  obtains probe total where "jget wp ''smoke_probe'' = Some probe" "probe_ran probe"
    "Option.bind (jget probe ''total'') as_u64 = Some total" "array_or_empty (jget probe ''failed'') = []"
    "\<And>passed. Option.bind (jget probe ''passed'') as_u64 = Some passed \<Longrightarrow> total \<le> passed"
proof -
  from assms obtain probe where p: "jget wp ''smoke_probe'' = Some probe" "probe_ran probe"
    by (auto simp: smoke_test_gaps_def Let_def keep_if_def probe_ran_def split: option.splits if_splits)
  then have rest: "Option.bind (jget probe ''total'') as_u64 \<noteq> None"
      "array_or_empty (jget probe ''failed'') = []"
      "(case (Option.bind (jget probe ''passed'') as_u64, Option.bind (jget probe ''total'') as_u64) of
          (Some p, Some t) \<Rightarrow> if p < t then unat (t - p) else 0 | _ \<Rightarrow> 0) = 0"
    using assms by (auto simp: smoke_test_gaps_def Let_def keep_if_def probe_ran_def split: if_splits)
  then obtain total where t: "Option.bind (jget probe ''total'') as_u64 = Some total" by blast
  have "total \<le> passed" if "Option.bind (jget probe ''passed'') as_u64 = Some passed" for passed
  proof (rule ccontr)
    assume "\<not> total \<le> passed"
    then have "unat (total - passed) = 0" using rest(3) t that by (simp add: not_le)
    then show False using \<open>\<not> total \<le> passed\<close> by (simp add: unat_eq_0)
  qed
  with p t rest(2) show ?thesis by (rule that)
qed
lemma map_filter_pins_Nil:
  "pinned_property_gaps pins properties scopes formals = [] \<longleftrightarrow>
     (\<forall>pin \<in> set pins. \<exists>row \<in> set properties. pin_matches scopes formals pin row \<and> own_status_is_proved row)"
proof -
  have "pinned_property_gap properties scopes formals pin = None \<longleftrightarrow>
     (\<exists>row \<in> set properties. pin_matches scopes formals pin row \<and> own_status_is_proved row)" for pin
    by (auto simp: pinned_property_gap_def Let_def filter_empty_conv)
  then show ?thesis by (simp add: pinned_property_gaps_def map_filter_Nil)
qed

lemma mutant_gaps_Nil:
  "contract_mutant_gaps probe = [] \<longleftrightarrow>
     probe = JNull \<or> (jindex probe ''ran'' = JBool True \<and>
       (\<forall>m \<in> set (unwrap_or (as_array (jindex probe ''mutants'')) []). jindex m ''verdict'' \<noteq> JStr ''decorative''))"
  by (auto simp: contract_mutant_gaps_def Let_def filter_empty_conv)

lemma memory_model_Nil:
  assumes "want_wp wanted"
  shows "memory_model_hypothesis_gap probe = None \<and> memory_model_unchecked_gap probe wanted = None \<longleftrightarrow>
     (if probe_ran probe
      then parsed_hypothesis_entries probe = [] \<and> unparsed_hypothesis_warnings probe = 0
      else Option.bind (jget probe ''reason'') as_str = None \<or> flag_of probe ''nothing_was_proved'')"
  using assms
  by (auto simp: memory_model_hypothesis_gap_def memory_model_unchecked_gap_def Let_def
      parsed_hypothesis_entries_def has_parsed_hypothesis_entry_def filter_empty_conv split: option.splits)

lemma program_facts_Nil:
  assumes "program_fact_gaps facts = []"
  shows "pf_threads facts = [] \<and> contract_mutant_gaps (pf_mutant_probe facts) = [] \<and>
    (\<forall>pins. pf_pins facts = Some pins \<longrightarrow>
       (\<forall>pin \<in> set pins. \<exists>row \<in> set (unwrap_or (pf_properties facts) []).
          pin_matches (pf_scopes facts) (pf_formals facts) pin row \<and> own_status_is_proved row))"
proof -
  have "pf_threads facts = []"
    using assms by (auto simp: program_fact_gaps_def Let_def concurrent_program_gap_def split: if_splits)
  moreover have "\<exists>row \<in> set (unwrap_or (pf_properties facts) []).
      pin_matches (pf_scopes facts) (pf_formals facts) pin row \<and> own_status_is_proved row"
    if p: "pf_pins facts = Some pins" "pin \<in> set pins" for pins pin
  proof -
    have ne: "pins \<noteq> []" using p(2) by auto
    with assms p have "pinned_property_gaps pins (unwrap_or (pf_properties facts) [])
        (pf_scopes facts) (pf_formals facts) = []"
      by (simp add: program_fact_gaps_def Let_def keep_if_def)
    then show ?thesis using p(2) by (simp add: map_filter_pins_Nil)
  qed
  ultimately show ?thesis using assms by (simp add: program_fact_gaps_def Let_def)
qed

text \<open>C2: The verdict \<open>proved\<close> also rests on the evidence around the goals. When the list \<open>check_payload\<close>
  builds is empty: the message stream was read to its end and holds no message that says WP skipped,
  weakened or guessed something; the memory model carries no weakening selector and assumed no
  separation; a requested smoke run ran, counted its goals and proved none of them; the run was not
  narrowed to a \<open>prop\<close> filter and did not drop the unsigned run-time checks; no Why3 anomaly left a FAILED
  goal; the program creates no thread; every pinned property is present and proved; and no stub body
  satisfies the contract.\<close>

theorem proved_run_evidence:
  assumes "check_verdict (check_incomplete dbg reload eva eva_alarms inp unsigned_skipped memory_model facts) = ''proved''"
  shows "\<not> re_messages_truncated inp \<and> (\<forall>m \<in> set (re_messages inp). message_code m = None) \<and>
    weakening_model_selectors (Option.bind (pointer (re_wp inp) [''effective_wp_config'', ''model'']) as_str) = [] \<and>
    (if probe_ran memory_model
     then parsed_hypothesis_entries memory_model = [] \<and> unparsed_hypothesis_warnings memory_model = 0
     else Option.bind (jget memory_model ''reason'') as_str = None \<or> flag_of memory_model ''nothing_was_proved'') \<and>
    (re_requested_smoke inp \<longrightarrow> (\<exists>probe total. jget (re_wp inp) ''smoke_probe'' = Some probe \<and> probe_ran probe \<and>
       Option.bind (jget probe ''total'') as_u64 = Some total \<and> array_or_empty (jget probe ''failed'') = [] \<and>
       (\<forall>passed. Option.bind (jget probe ''passed'') as_u64 = Some passed \<longrightarrow> total \<le> passed))) \<and>
    re_narrowed_by_prop inp = None \<and> \<not> (re_rte inp \<and> unsigned_skipped) \<and>
    \<not> wp_backend_anomaly_left_goal_unjudged (wp_backend_diagnosis (re_messages inp)
        (Option.bind (pointer (re_wp inp) [''effective_wp_config'', ''model'']) as_str)) (re_wp_goals inp) \<and>
    pf_threads facts = [] \<and>
    (\<forall>pins. pf_pins facts = Some pins \<longrightarrow>
       (\<forall>pin \<in> set pins. \<exists>row \<in> set (unwrap_or (pf_properties facts) []).
          pin_matches (pf_scopes facts) (pf_formals facts) pin row \<and> own_status_is_proved row)) \<and>
    (pf_mutant_probe facts = JNull \<or> (jindex (pf_mutant_probe facts) ''ran'' = JBool True \<and>
       (\<forall>m \<in> set (unwrap_or (as_array (jindex (pf_mutant_probe facts) ''mutants'')) []).
          jindex m ''verdict'' \<noteq> JStr ''decorative'')))"
proof -
  have nil: "check_incomplete dbg reload eva eva_alarms inp unsigned_skipped memory_model facts = []"
    using assms by simp
  note w = check_incomplete_wanted [OF nil]
  from w(2) have gates: "\<not> re_messages_truncated inp" "\<not> wp_backend_anomaly_left_goal_unjudged
        (wp_backend_diagnosis (re_messages inp)
          (Option.bind (pointer (re_wp inp) [''effective_wp_config'', ''model'']) as_str)) (re_wp_goals inp)"
      "smoke_test_gaps (want_wp (re_wanted inp) \<and> re_requested_smoke inp) (re_wp inp) = []"
      "withheld_by_request_gaps unsigned_skipped (re_rte inp)
         (keep_if (\<lambda>_. want_wp (re_wanted inp)) (re_narrowed_by_prop inp)) = []"
      "wp_message_gaps (re_messages inp)
         (Option.bind (pointer (re_wp inp) [''effective_wp_config'', ''model'']) as_str) = []"
      "memory_model_hypothesis_gap memory_model = None"
      "memory_model_unchecked_gap memory_model (re_wanted inp) = None"
    by (auto simp: run_evidence_gates_def Let_def anomaly_gaps_def split: if_splits)
  have "re_narrowed_by_prop inp = None" "\<not> (re_rte inp \<and> unsigned_skipped)"
    using gates(4) w(1) by (auto simp: withheld_by_request_gaps_def keep_if_def split: option.splits if_splits)
  moreover have "\<exists>probe total. jget (re_wp inp) ''smoke_probe'' = Some probe \<and> probe_ran probe \<and>
       Option.bind (jget probe ''total'') as_u64 = Some total \<and> array_or_empty (jget probe ''failed'') = [] \<and>
       (\<forall>passed. Option.bind (jget probe ''passed'') as_u64 = Some passed \<longrightarrow> total \<le> passed)"
    if "re_requested_smoke inp"
    using gates(3) w(1) that by (auto elim: smoke_Nil)
  ultimately show ?thesis
    using gates(1,2,5) memory_model_Nil [OF w(1), of memory_model] gates(6,7)
      program_facts_Nil [OF w(3)] mutant_gaps_Nil
    by (simp add: wp_message_gaps_Nil)
qed

definition clean_inputs :: run_evidence_inputs where
  "clean_inputs = \<lparr>re_wanted = wanted_both, re_requested_smoke = False, re_rte = True,
     re_narrowed_by_prop = None, re_messages = [], re_messages_truncated = False,
     re_wp = clean_wp, re_wp_goals = JArr clean_goals\<rparr>"

definition clean_facts :: program_fact_inputs where
  "clean_facts = \<lparr>pf_pins = None, pf_harness = [], pf_threads = [], pf_properties = None,
     pf_scopes = [], pf_formals = [], pf_mutant_probe = JNull\<rparr>"

lemma proved_run_evidence_witness:
  "check_verdict (check_incomplete id (JObj [(''ok'', JBool True)]) clean_eva (JArr []) clean_inputs
      False (JObj [(''ran'', JBool True)]) clean_facts) = ''proved'' \<and>
   pf_threads clean_facts = []"
proof -
  have v: "check_verdict (check_incomplete id (JObj [(''ok'', JBool True)]) clean_eva (JArr []) clean_inputs
      False (JObj [(''ran'', JBool True)]) clean_facts) = ''proved''"
    by code_simp
  show ?thesis using v proved_run_evidence [OF v] by blast
qed
end
