(* ===== verification/Report.thy ===== *)
theory Report
  imports Gates
begin

text \<open>
  What a check reports beside its verdict (src/src/mcp/checkgaps.rs, src/src/mcp/analysis.rs): which
  verification targets are established, the recommended next call, and the comparison of several
  configurations of the program (\<open>check_variants\<close>).
\<close>

section \<open>Goals sorted by target\<close>

definition wp_goal_identity :: "json \<Rightarrow> string option" where
  "wp_goal_identity goal = Option.bind (or_else (jget goal ''wpo_id'') (jget goal ''wpo'')) as_str"

definition goal_scope_key :: "json \<Rightarrow> string" where
  "goal_scope_key goal =
     unwrap_or (Option.bind (or_else (jget goal ''fct'')
       (or_else (jget goal ''scope'') (jget goal ''function_marker''))) as_str) []"

definition goal_owner_name :: "json \<Rightarrow> string option" where
  "goal_owner_name goal =
     (let owner = goal_scope_key goal
      in if owner \<noteq> [] \<and> \<not> starts_with owner ''#'' then Some owner else None)"

definition goal_id_after_owner :: "json \<Rightarrow> string option" where
  "goal_id_after_owner goal =
     map_option (\<lambda>id.
       unwrap_or (Option.bind (goal_owner_name goal) (\<lambda>owner.
         map_option (\<lambda>(before, _). drop (length before + length owner + 1) id)
           (split_once (''_'' @ owner @ ''_'') id))) id)
     (wp_goal_identity goal)"

definition is_terminates_goal :: "string \<Rightarrow> bool" where
  "is_terminates_goal name \<longleftrightarrow> ends_with name ''_terminates'' \<or> str_contains name ''_terminates_part''"

definition verification_targets :: "string list" where
  "verification_targets = [''memory_safety'', ''termination'', ''functional'']"

definition goal_target :: "string \<Rightarrow> string" where
  "goal_target wpo =
     (if str_contains wpo ''_rte_'' then ''memory_safety''
      else if is_terminates_goal wpo \<or> str_contains wpo ''_loop_variant'' \<or> str_contains wpo ''_decreases''
      then ''termination'' else ''functional'')"

definition targeted_goals :: "json \<Rightarrow> (json \<times> string) list" where
  "targeted_goals wp_goals =
     List.map_filter (\<lambda>goal. map_option (\<lambda>id. (goal, goal_target id)) (goal_id_after_owner goal))
       (filter (\<lambda>goal. jindex goal ''smoke'' \<noteq> JBool True) (unwrap_or (as_array wp_goals) []))"

text \<open>Collecting into a \<open>HashMap\<close>: of two goals with one stable id, the later one decides.\<close>

definition target_by_id :: "(json \<times> string) list \<Rightarrow> (string, string) kv" where
  "target_by_id goals =
     fold (\<lambda>(goal, target) m. case as_str (jindex goal ''stable_goal_id'') of
         None \<Rightarrow> m | Some sid \<Rightarrow> AList.update sid target m) goals []"

definition blocked_by :: "(string, string) kv \<Rightarrow> json \<Rightarrow> string list" where
  "blocked_by by_id item =
     (let goal_level = jindex item ''code'' \<in> {JStr ''GOAL_NOT_VALID'', JStr ''PROVER_TIMEOUT''};
          placed = Option.bind (if goal_level then as_str (jindex item ''stable_goal_id'') else None) (map_of by_id)
      in case placed of Some target \<Rightarrow> [target] | None \<Rightarrow> verification_targets)"

definition target_report :: "(json \<times> string) list \<Rightarrow> string list \<Rightarrow> string \<Rightarrow> json" where
  "target_report goals blocked target =
     (let mine = map fst (filter (\<lambda>g. snd g = target) goals);
          open_goals = length (filter (\<lambda>goal. \<not> own_status_is_proved goal) mine)
      in JObj [(''goals'', jnat (length mine)), (''open'', jnat open_goals),
               (''holds'', JBool (mine \<noteq> [] \<and> open_goals = 0 \<and> target \<notin> set blocked))])"

definition established_by_target :: "json \<Rightarrow> json list \<Rightarrow> json" where
  "established_by_target wp_goals incomplete =
     (let goals = targeted_goals wp_goals;
          blocked = concat (map (blocked_by (target_by_id goals)) incomplete)
      in JObj (map (\<lambda>target. (target, target_report goals blocked target)) verification_targets))"

section \<open>The next call\<close>

definition call_json :: "string \<Rightarrow> fields \<Rightarrow> string \<Rightarrow> json" where
  "call_json tool args reason =
     JObj [(''tool'', JStr tool), (''args'', JObj args), (''reason'', JStr reason)]"

definition investigate :: "string \<Rightarrow> string \<Rightarrow> string \<Rightarrow> json" where
  "investigate marker depth reason =
     call_json ''get_wp_goals'' [(''want'', JArr [JStr ''investigation'']), (''marker'', JStr marker),
       (''depth'', JStr depth)] reason"

definition first_unproved_lemma_next_call :: "json \<Rightarrow> json \<Rightarrow> json option" where
  "first_unproved_lemma_next_call alarms wp_goals =
     Option.bind (as_array alarms) (find_map (\<lambda>property.
       if \<not> property_is_unproved_lemma property wp_goals then None
       else map_option (\<lambda>marker. investigate marker ''deep''
              ''A lemma is assumed by every goal around it and no prover discharged it, so the proofs that rest on it are worth no more than the lemma is. A lemma over a recursive logic function usually needs induction rather than a longer timeout.'')
            (value_marker property)))"

definition first_alarm_next_call :: "json \<Rightarrow> json option" where
  "first_alarm_next_call alarms =
     Option.bind (as_array alarms) (find_map (\<lambda>alarm.
       if \<not> alarm_is_undischarged alarm then None
       else map_option (\<lambda>marker. investigate marker ''normal''
              ''EVA reported a runtime-error alarm that needs investigation.'') (value_marker alarm)))"

definition classification_with_advice :: "json \<Rightarrow> json list \<Rightarrow> json" where
  "classification_with_advice goal goals =
     (let classification = field_or_null goal ''failure_classification''
      in if jget classification ''advice'' \<noteq> None then classification
         else (case get_str classification ''advice_key'' of
             None \<Rightarrow> classification
           | Some key \<Rightarrow>
               (case find_map (\<lambda>sibling. Option.bind (jget sibling ''failure_classification'') (\<lambda>c.
                    if get_str c ''advice_key'' \<noteq> Some key then None else jget c ''advice'')) goals of
                  None \<Rightarrow> classification
                | Some advice \<Rightarrow> on_object (AList.update ''advice'' advice) classification)))"

definition first_wp_goal_next_call :: "json \<Rightarrow> string option \<Rightarrow> json option" where
  "first_wp_goal_next_call wp_goals function =
     Option.bind (as_array wp_goals) (\<lambda>goals. find_map (\<lambda>goal.
       let normalized = or_else (get_str goal ''normalized_status'') (get_str goal ''normalized_property_status'');
           raw = map_option (map to_ascii_lowercase) (get_str goal ''raw_status'');
           classification = classification_with_advice goal goals
       in if normalized = Some ''valid'' \<or> raw = Some ''valid'' then None
          else (case function of
              Some f \<Rightarrow> Some (JObj [(''tool'', JStr ''get_wp_goals''),
                (''args'', JObj [(''want'', JArr [JStr ''vc'']), (''function'', JStr f)]),
                (''reason'', JStr ''WP has a non-valid goal; inspect VC details and the attached failure_classification before changing the annotation.''),
                (''classification'', classification)])
            | None \<Rightarrow> Some (JObj [(''tool'', JStr ''get_wp_goals''), (''args'', JObj []),
                (''reason'', JStr ''WP has a non-valid goal; inspect its failure_classification before changing the annotation.''),
                (''classification'', classification)]))) goals)"

definition concurrent_program_next_call :: "json list \<Rightarrow> json option" where
  "concurrent_program_next_call incomplete =
     (if \<exists>item \<in> set incomplete. jindex item ''code'' = JStr ''CONCURRENT_PROGRAM'' \<and>
           JStr ''pthread_create'' \<in> set (unwrap_or (as_array (jindex item ''thread_creation'')) [])
      then Some (call_json ''analyze_concurrency'' []
        ''The program creates threads and every sequential obligation that remains open is listed above it, so what is left unexamined is the interleaving: race and deadlock candidates.'')
      else None)"

definition check_blocked_reason :: "json list \<Rightarrow> string" where
  "check_blocked_reason incomplete =
     (let codes = List.map_filter (\<lambda>item. get_str item ''code'') incomplete;
          blocking = (if length codes = 1 then ''one gap still blocks'' else ''several gaps still block'')
      in if codes = [] then ''EVA and WP did not report an immediate non-valid target.''
         else ''No non-valid alarm or goal to target, but '' @ blocking @ '' a proved verdict: '' @
              join '', '' codes @ ''.'')"

definition check_next_call ::
    "json \<Rightarrow> bool \<Rightarrow> json \<Rightarrow> json \<Rightarrow> json list \<Rightarrow> wanted_analyses \<Rightarrow> string option \<Rightarrow> json" where
  "check_next_call backend_diagnosis anomaly_left_goals_unjudged eva_alarms wp_goals incomplete wanted function =
     unwrap_or
       (or_else (keep_if (\<lambda>v. anomaly_left_goals_unjudged \<and> is_object v) (jget backend_diagnosis ''next_action''))
       (or_else (first_unproved_lemma_next_call eva_alarms wp_goals)
       (or_else (first_alarm_next_call eva_alarms)
       (or_else (first_wp_goal_next_call wp_goals function)
         (keep_if (\<lambda>_. want_eva wanted \<and> want_wp wanted) (concurrent_program_next_call incomplete))))))
       (let both = want_eva wanted \<and> want_wp wanted
        in call_json (if both then ''get_wp_goals'' else ''check'')
             (if both then [(''want'', JArr [JStr ''counts''])]
              else [(''want'', JArr [JStr ''eva'', JStr ''wp''])])
             (if incomplete = [] then
                ''Every goal is valid, which says the code matches the contract, not that the contract was worth matching. Smoke tests, which look for vacuity, are off by default: check {smoke: true} is the check that sees an over-strong requires, which proves everything and silently excludes the branch it forbids.''
              else check_blocked_reason incomplete))"

section \<open>Several configurations\<close>

definition variant_program_key :: "json \<Rightarrow> string option" where
  "variant_program_key entry =
     map_option (\<lambda>digest. digest @ [char_of (0::nat)] @
        unwrap_or (or_else (get_str entry ''machdep_digest'') (get_str entry ''machdep'')) [])
       (get_str entry ''ast_digest'')"

text \<open>
  \<open>claim_label\<close> counts up from \<open>from\<close> until a suffix is free. Among one more candidate than there are
  labels taken one is free, so the search is bounded by that (\<open>claim_label_fresh\<close>); the wrap of \<open>usize\<close>
  is out of reach.
\<close>

definition suffixed :: "string \<Rightarrow> nat \<Rightarrow> string" where
  "suffixed label k = label @ ''#'' @ show_nat k"

definition claim_label :: "string list \<Rightarrow> string \<Rightarrow> nat \<Rightarrow> string \<times> string list" where
  "claim_label taken label k0 =
     (if label \<notin> set taken then (label, label # taken)
      else (case find (\<lambda>c. c \<notin> set taken) (map (suffixed label) [k0..<k0 + length taken + 1]) of
          Some c \<Rightarrow> (c, c # taken)
        | None \<Rightarrow> (label, taken)))"

definition summary_reason :: "nat \<Rightarrow> nat \<Rightarrow> json" where
  "summary_reason duplicate_count unestablished =
     (if 0 < duplicate_count then JStr ''Two or more variants asked for different code and analysed byte-identical ASTs, so they are one configuration checked twice rather than several checked once. Equal goal counts cannot show this; the digests can. Variants that differ only in the WP model are not counted here: no proof option changes the AST, so sharing one is expected.''
      else if 0 < unestablished then JStr ''At least one variant has no AST digest, so it was compared to nothing and this run cannot say whether the configurations differ. Read proof_receipt.subject.ast_digest_unavailable_reason on that variant: the usual causes are the ast-utils plug-in not being installed and printSource outrunning its budget on a large project.''
      else JNull)"

definition check_variants_summary :: "json list \<Rightarrow> json" where
  "check_variants_summary results =
     (let duplicate_count = length (filter (\<lambda>e. jget e ''duplicate_ast'' \<noteq> None) results);
          all_proved = (\<forall>e \<in> set results. get_str e ''verdict'' = Some ''proved'');
          distinct_asts = length (remdups (List.map_filter variant_program_key results));
          unestablished = length (filter (\<lambda>e. get_str e ''ast_digest'' = None) results)
      in JObj [(''schema'', JStr ''frama-c-mcp.check-variants.v2''),
           (''verdict'', JStr (if duplicate_count = 0 \<and> unestablished = 0 \<and> all_proved
              then ''proved'' else ''incomplete'')),
           (''variant_count'', jnat (length results)), (''distinct_asts'', jnat distinct_asts),
           (''duplicate_ast_count'', jnat duplicate_count),
           (''ast_digest_unavailable_count'', jnat unestablished),
           (''reason'', summary_reason duplicate_count unestablished), (''variants'', JArr results)])"

record check_variant =
  v_label :: "string option"
  v_defines :: "string list option"
  v_machdep :: "string option"
  v_model :: "string option"

text \<open>The parameters of a check that a variant overrides; every other one is passed on unchanged.\<close>

record check_params =
  p_defines :: "string list option"
  p_machdep :: "string option"
  p_model :: "string option"

type_synonym ast_inputs = "string list \<times> string option"

definition variant_params :: "check_params \<Rightarrow> check_variant \<Rightarrow> check_params" where
  "variant_params base variant =
     \<lparr>p_defines = or_else (v_defines variant) (p_defines base),
      p_machdep = or_else (v_machdep variant) (p_machdep base),
      p_model = or_else (v_model variant) (p_model base)\<rparr>"

text \<open>\<open>serde_json::from_value::<Vec<String>>\<close>\<close>

fun string_vec :: "json \<Rightarrow> string list option" where
  "string_vec (JArr xs) = (if \<forall>x \<in> set xs. as_str x \<noteq> None then Some (List.map_filter as_str xs) else None)"
| "string_vec _ = None"

definition effective_inputs :: "check_params \<Rightarrow> json \<Rightarrow> string list \<times> string option \<times> string option" where
  "effective_inputs params payload =
     (case keep_if (\<lambda>reload. jget reload ''defines'' \<noteq> None) (jget payload ''reload'') of
        Some reload \<Rightarrow>
          (unwrap_or (string_vec (jindex reload ''defines'')) [], as_str (jindex reload ''machdep''),
           as_str (jindex reload ''machdep_digest''))
      | None \<Rightarrow> (unwrap_or (p_defines params) [], p_machdep params, None))"

definition variant_entry :: "string \<Rightarrow> check_params \<Rightarrow> json \<Rightarrow> fields" where
  "variant_entry label params payload =
     (case effective_inputs params payload of (defines, machdep, machdep_digest) \<Rightarrow>
        [(''label'', JStr label), (''defines'', JArr (map JStr defines)), (''machdep'', jopt JStr machdep),
         (''machdep_digest'', jopt JStr machdep_digest),
         (''model'', unwrap_or (pointer payload [''wp'', ''effective_wp_config'', ''model'']) JNull),
         (''verdict'', field_or_null payload ''verdict''),
         (''incomplete'', JArr (map JStr (List.map_filter (\<lambda>i. get_str i ''code'')
            (array_or_empty (jget payload ''incomplete''))))),
         (''ast_digest'', jopt JStr (Option.bind (pointer payload
            [''proof_receipt'', ''subject'', ''ast_digest'']) as_str)),
         (''wp_backend_diagnosis'', field_or_null payload ''wp_backend_diagnosis''),
         (''proof_receipt_sha256'', unwrap_or (pointer payload [''proof_receipt'', ''sha256'']) JNull)])"

record variants_state =
  vs_results :: "json list"
  vs_digests :: "(string, (string \<times> ast_inputs) list) kv"
  vs_labels :: "string list"

definition duplicate_of :: "(string, (string \<times> ast_inputs) list) kv \<Rightarrow> string \<Rightarrow> ast_inputs \<Rightarrow> string option" where
  "duplicate_of digests key inputs =
     Option.bind (map_of digests key) (\<lambda>groups.
       if \<exists>g \<in> set groups. snd g = inputs then None else Some (fst (hd groups)))"

definition record_program :: "string \<Rightarrow> string \<Rightarrow> ast_inputs \<Rightarrow> (string, (string \<times> ast_inputs) list) kv \<Rightarrow>
    (string, (string \<times> ast_inputs) list) kv" where
  "record_program key label inputs digests =
     (let groups = unwrap_or (map_of digests key) []
      in AList.update key (if \<exists>g \<in> set groups. snd g = inputs then groups else groups @ [(label, inputs)]) digests)"

definition variant_step ::
    "check_params \<Rightarrow> (nat \<Rightarrow> check_params \<Rightarrow> 'e + json) \<Rightarrow> nat \<Rightarrow> check_variant \<Rightarrow> variants_state \<Rightarrow>
     'e + variants_state" where
  "variant_step base run index variant st =
     (case claim_label (vs_labels st) (unwrap_or (v_label variant) (''variant'' @ show_nat index)) index of
        (label, labels) \<Rightarrow>
          let params = variant_params base variant
          in (case run index params of
                Inl e \<Rightarrow> Inl e
              | Inr payload \<Rightarrow>
                  let entry = variant_entry label params payload;
                      inputs = (case effective_inputs params payload of (d, m, _) \<Rightarrow> (d, m));
                      program = variant_program_key (JObj entry);
                      dup = Option.bind program (\<lambda>key. duplicate_of (vs_digests st) key inputs)
                  in Inr \<lparr>vs_results = vs_results st @
                            [JObj (case dup of None \<Rightarrow> entry
                               | Some first \<Rightarrow> AList.update ''duplicate_ast'' (JStr first) entry)],
                          vs_digests = (case program of None \<Rightarrow> vs_digests st
                             | Some key \<Rightarrow> record_program key label inputs (vs_digests st)),
                          vs_labels = labels\<rparr>))"

fun variants_loop ::
    "check_params \<Rightarrow> (nat \<Rightarrow> check_params \<Rightarrow> 'e + json) \<Rightarrow> nat \<Rightarrow> check_variant list \<Rightarrow> variants_state \<Rightarrow>
     'e + variants_state" where
  "variants_loop base run index [] st = Inr st"
| "variants_loop base run index (v # vs) st =
     (case variant_step base run index v st of
        Inl e \<Rightarrow> Inl e
      | Inr st' \<Rightarrow> variants_loop base run (index + 1) vs st')"

definition check_variants ::
    "check_params \<Rightarrow> (nat \<Rightarrow> check_params \<Rightarrow> 'e + json) \<Rightarrow> check_variant list \<Rightarrow> 'e + json" where
  "check_variants base run variants =
     (case variants_loop base run 0 variants \<lparr>vs_results = [], vs_digests = [], vs_labels = []\<rparr> of
        Inl e \<Rightarrow> Inl e
      | Inr st \<Rightarrow> Inr (check_variants_summary (vs_results st)))"

section \<open>Lemmas\<close>

lemma suffixed_inj: "inj (suffixed label)"
  by (rule injI) (simp add: suffixed_def show_nat_inj)

text \<open>One candidate more than there are labels: one of them is free.\<close>

lemma free_suffix: "find (\<lambda>c. c \<notin> set taken) (map (suffixed label) [k0..<k0 + length taken + 1]) \<noteq> None"
proof
  let ?cs = "map (suffixed label) [k0..<k0 + length taken + 1]"
  assume "find (\<lambda>c. c \<notin> set taken) ?cs = None"
  then have "set ?cs \<subseteq> set taken" by (auto simp: find_None_iff)
  then have "card (set ?cs) \<le> length taken" by (meson List.finite_set card_length card_mono le_trans)
  moreover have "distinct ?cs" unfolding distinct_map using inj_on_subset [OF suffixed_inj] by (simp del: upt_Suc)
  then have "card (set ?cs) = length taken + 1" by (simp only: distinct_card) simp
  ultimately show False by simp
qed

lemma claim_label_fresh:
  assumes "claim_label taken label k0 = (l, taken')"
  shows "l \<notin> set taken \<and> taken' = l # taken"
proof (cases "label \<in> set taken")
  case True
  obtain c where c: "find (\<lambda>c. c \<notin> set taken) (map (suffixed label) [k0..<k0 + length taken + 1]) = Some c"
    using free_suffix by blast
  with True assms have "l = c" "taken' = c # taken" by (auto simp: claim_label_def)
  with c find_SomeD [OF c] show ?thesis by simp
next
  case False
  with assms show ?thesis by (auto simp: claim_label_def)
qed

lemma summary_proved:
  "get_str (check_variants_summary rs) ''verdict'' = Some ''proved'' \<longleftrightarrow>
     (\<forall>e \<in> set rs. jget e ''duplicate_ast'' = None \<and> get_str e ''ast_digest'' \<noteq> None \<and>
        get_str e ''verdict'' = Some ''proved'')"
  by (auto simp: check_variants_summary_def Let_def get_str_def filter_empty_conv)

definition entry_label :: "json \<Rightarrow> json" where
  "entry_label e = jindex e ''label''"

text \<open>The inputs an entry reports: what was defined and for which machine.\<close>

definition entry_inputs :: "json \<Rightarrow> json \<times> json" where
  "entry_inputs e = (jindex e ''defines'', jindex e ''machdep'')"

definition inputs_json :: "ast_inputs \<Rightarrow> json \<times> json" where
  "inputs_json i = (JArr (map JStr (fst i)), jopt JStr (snd i))"

lemma variant_entry_fields:
  assumes "effective_inputs params payload = (d, m, dg)"
  shows "entry_inputs (JObj (variant_entry label params payload)) = inputs_json (d, m)"
    "entry_label (JObj (variant_entry label params payload)) = JStr label"
    "map_of (variant_entry label params payload) ''duplicate_ast'' = None"
  using assms by (simp_all add: variant_entry_def entry_inputs_def inputs_json_def entry_label_def jindex_def)

text \<open>
  The loop invariant: labels are distinct and recorded, and as long as no entry is marked a duplicate,
  all entries of one program report the inputs recorded for it.
\<close>

definition variants_inv :: "variants_state \<Rightarrow> bool" where
  "variants_inv st \<longleftrightarrow>
     distinct (map entry_label (vs_results st)) \<and>
     (\<forall>e \<in> set (vs_results st). \<exists>l \<in> set (vs_labels st). entry_label e = JStr l) \<and>
     ((\<forall>e \<in> set (vs_results st). jget e ''duplicate_ast'' = None) \<longrightarrow>
        (\<forall>e \<in> set (vs_results st). \<forall>key. variant_program_key e = Some key \<longrightarrow>
           (\<exists>l i. map_of (vs_digests st) key = Some [(l, i)] \<and> entry_inputs e = inputs_json i)) \<and>
        (\<forall>key groups. map_of (vs_digests st) key = Some groups \<longrightarrow> (\<exists>l i. groups = [(l, i)])))"

lemma variant_step_inv:
  assumes inv: "variants_inv st" and step: "variant_step base run index v st = Inr st'"
  shows "variants_inv st' \<and> length (vs_results st') = Suc (length (vs_results st))"
proof -
  obtain label labels where cl: "claim_label (vs_labels st)
      (unwrap_or (v_label v) (''variant'' @ show_nat index)) index = (label, labels)" by fastforce
  note fresh = claim_label_fresh [OF cl]
  let ?params = "variant_params base v"
  from step cl obtain payload where run: "run index ?params = Inr payload"
    by (auto simp: variant_step_def Let_def split: sum.splits)
  obtain d m dg where eff: "effective_inputs ?params payload = (d, m, dg)" by (cases "effective_inputs ?params payload") auto
  define entry where "entry = variant_entry label ?params payload"
  define program where "program = variant_program_key (JObj entry)"
  define dup where "dup = Option.bind program (\<lambda>key. duplicate_of (vs_digests st) key (d, m))"
  define e' where "e' = JObj (case dup of None \<Rightarrow> entry | Some first \<Rightarrow> AList.update ''duplicate_ast'' (JStr first) entry)"
  have st': "st' = \<lparr>vs_results = vs_results st @ [e'],
      vs_digests = (case program of None \<Rightarrow> vs_digests st
         | Some key \<Rightarrow> record_program key label (d, m) (vs_digests st)), vs_labels = labels\<rparr>"
    using step cl run eff unfolding entry_def program_def dup_def e'_def
    by (auto simp: variant_step_def Let_def)
  have e_fields: "entry_label e' = JStr label" "entry_inputs e' = inputs_json (d, m)"
      "jget e' ''duplicate_ast'' = map_option JStr dup" "variant_program_key e' = program"
    using variant_entry_fields [OF eff, of label]
    by (cases dup; simp add: e'_def entry_def [symmetric] program_def entry_label_def entry_inputs_def jindex_def
        variant_program_key_def get_str_def)+
  have labels: "distinct (map entry_label (vs_results st'))"
      "\<forall>e \<in> set (vs_results st'). \<exists>l \<in> set (vs_labels st'). entry_label e = JStr l"
    using inv fresh by (auto simp: variants_inv_def st' e_fields)
  have groups: "(\<forall>e \<in> set (vs_results st'). \<forall>key. variant_program_key e = Some key \<longrightarrow>
           (\<exists>l i. map_of (vs_digests st') key = Some [(l, i)] \<and> entry_inputs e = inputs_json i)) \<and>
        (\<forall>key groups. map_of (vs_digests st') key = Some groups \<longrightarrow> (\<exists>l i. groups = [(l, i)]))"
    if nodup: "\<forall>e \<in> set (vs_results st'). jget e ''duplicate_ast'' = None"
  proof -
    have old: "\<forall>e \<in> set (vs_results st). \<forall>key. variant_program_key e = Some key \<longrightarrow>
           (\<exists>l i. map_of (vs_digests st) key = Some [(l, i)] \<and> entry_inputs e = inputs_json i)"
        "\<forall>key groups. map_of (vs_digests st) key = Some groups \<longrightarrow> (\<exists>l i. groups = [(l, i)])"
      using inv nodup by (auto simp: variants_inv_def st')
    have "dup = None" using nodup by (simp add: st' e_fields)
    show ?thesis
    proof (cases program)
      case None
      then show ?thesis using old e_fields by (auto simp: st')
    next
      case (Some key)
      show ?thesis
      proof (cases "map_of (vs_digests st) key")
        case None
        then have "map_of (vs_digests st') = (map_of (vs_digests st))(key \<mapsto> [(label, d, m)])"
          using Some by (simp add: st' record_program_def Let_def)
        then show ?thesis using old e_fields Some None by (auto simp: st')
      next
        case (Some gs)
        then obtain l i where gs: "gs = [(l, i)]" using old(2) by blast
        have "i = (d, m)"
          using \<open>dup = None\<close> \<open>program = Some key\<close> Some gs
          by (auto simp: dup_def duplicate_of_def split: if_splits)
        then have "map_of (vs_digests st') = map_of (vs_digests st)"
          using \<open>program = Some key\<close> Some gs by (auto simp: st' record_program_def Let_def)
        then show ?thesis using old e_fields \<open>program = Some key\<close> Some gs \<open>i = (d, m)\<close> by (auto simp: st')
      qed
    qed
  qed
  show ?thesis using labels groups by (simp add: variants_inv_def st')
qed

lemma variants_loop_inv:
  "variants_inv st \<Longrightarrow> variants_loop base run index vs st = Inr st' \<Longrightarrow>
     variants_inv st' \<and> length (vs_results st') = length (vs_results st) + length vs"
proof (induction vs arbitrary: st index)
  case (Cons v vs)
  from Cons.prems(2) obtain mid where mid: "variant_step base run index v st = Inr mid"
      "variants_loop base run (index + 1) vs mid = Inr st'"
    by (auto split: sum.splits)
  have inv: "variants_inv mid" "length (vs_results mid) = Suc (length (vs_results st))"
    using variant_step_inv [OF Cons.prems(1) mid(1)] by simp_all
  show ?case using Cons.IH [OF inv(1) mid(2)] inv(2) by simp
qed simp

section \<open>Properties\<close>

text \<open>C18: A comparison of configurations is \<open>proved\<close> only when it compared what it was asked to. If
  \<open>check_variants\<close> answers \<open>proved\<close>, there is one entry per requested variant, their labels are distinct,
  every one is proved and has a digest, and two variants that analysed the same program (same AST digest,
  same machine) had asked for the same definitions on the same machine.\<close>

theorem variants_proved_are_distinct:
  assumes "check_variants base run variants = Inr summary" "get_str summary ''verdict'' = Some ''proved''"
  shows "\<exists>results. jindex summary ''variants'' = JArr results \<and> length results = length variants \<and>
    distinct (map entry_label results) \<and>
    (\<forall>e \<in> set results. get_str e ''verdict'' = Some ''proved'' \<and> variant_program_key e \<noteq> None) \<and>
    (\<forall>a \<in> set results. \<forall>b \<in> set results.
       variant_program_key a = variant_program_key b \<longrightarrow> entry_inputs a = entry_inputs b)"
proof -
  let ?init = "\<lparr>vs_results = [], vs_digests = [], vs_labels = []\<rparr>"
  have init: "variants_inv ?init" by (simp add: variants_inv_def)
  from assms(1) obtain st where st: "variants_loop base run 0 variants ?init = Inr st"
      "summary = check_variants_summary (vs_results st)"
    by (auto simp: check_variants_def split: sum.splits)
  have inv: "variants_inv st" "length (vs_results st) = length variants"
    using variants_loop_inv [OF init st(1)] by simp_all
  from assms(2) have all: "\<forall>e \<in> set (vs_results st). jget e ''duplicate_ast'' = None \<and>
      get_str e ''ast_digest'' \<noteq> None \<and> get_str e ''verdict'' = Some ''proved''"
    unfolding st(2) summary_proved .
  have keys: "variant_program_key e \<noteq> None" if "e \<in> set (vs_results st)" for e
    using all that by (simp add: variant_program_key_def)
  have same: "entry_inputs a = entry_inputs b"
    if ab: "a \<in> set (vs_results st)" "b \<in> set (vs_results st)" "variant_program_key a = variant_program_key b" for a b
  proof -
    have one: "\<exists>l i. map_of (vs_digests st) key = Some [(l, i)] \<and> entry_inputs e = inputs_json i"
      if "e \<in> set (vs_results st)" "variant_program_key e = Some key" for e key
      using inv(1) all that by (simp add: variants_inv_def)
    obtain key where key: "variant_program_key a = Some key" using keys [OF ab(1)] by blast
    obtain l i where a: "map_of (vs_digests st) key = Some [(l, i)]" "entry_inputs a = inputs_json i"
      using one [OF ab(1) key] by blast
    obtain l' i' where b: "map_of (vs_digests st) key = Some [(l', i')]" "entry_inputs b = inputs_json i'"
      using one [OF ab(2)] key ab(3) by metis
    show ?thesis using a b by simp
  qed
  have "jindex summary ''variants'' = JArr (vs_results st)"
    by (simp add: st(2) check_variants_summary_def Let_def jindex_def)
  moreover have "distinct (map entry_label (vs_results st))" using inv(1) by (simp add: variants_inv_def)
  ultimately show ?thesis using inv(2) all keys same by blast
qed

definition demo_run :: "nat \<Rightarrow> check_params \<Rightarrow> unit + json" where
  "demo_run index params = Inr (JObj [(''verdict'', JStr ''proved''),
     (''proof_receipt'', JObj [(''subject'', JObj [(''ast_digest'',
        JStr (''d'' @ join '','' (unwrap_or (p_defines params) [])))])])])"

definition demo_variants :: "check_variant list" where
  "demo_variants =
     [\<lparr>v_label = Some ''a'', v_defines = None, v_machdep = None, v_model = None\<rparr>,
      \<lparr>v_label = Some ''a'', v_defines = Some [''X''], v_machdep = None, v_model = None\<rparr>]"

definition demo_base :: check_params where
  "demo_base = \<lparr>p_defines = None, p_machdep = None, p_model = None\<rparr>"

lemma variants_proved_are_distinct_witness:
  "\<exists>summary. check_variants demo_base demo_run demo_variants = Inr summary \<and>
     (\<exists>results. jindex summary ''variants'' = JArr results \<and> length results = 2 \<and> distinct (map entry_label results))"
proof -
  have "case check_variants demo_base demo_run demo_variants of
      Inr s \<Rightarrow> get_str s ''verdict'' = Some ''proved'' | Inl _ \<Rightarrow> False"
    by code_simp
  then obtain summary where r: "check_variants demo_base demo_run demo_variants = Inr summary"
      and v: "get_str summary ''verdict'' = Some ''proved''"
    by (auto split: sum.splits)
  show ?thesis
    using variants_proved_are_distinct [OF r v] r by (auto simp: demo_variants_def)
qed
lemma target_by_id_in:
  "map_of (target_by_id goals) i = Some target \<Longrightarrow>
     \<exists>g. (g, target) \<in> set goals \<and> jindex g ''stable_goal_id'' = JStr i"
proof -
  have "map_of (fold (\<lambda>(goal, target) m. case as_str (jindex goal ''stable_goal_id'') of
         None \<Rightarrow> m | Some sid \<Rightarrow> AList.update sid target m) goals m0) i = Some target \<Longrightarrow>
     map_of m0 i = Some target \<or> (\<exists>g. (g, target) \<in> set goals \<and> jindex g ''stable_goal_id'' = JStr i)" for m0
  proof (induction goals arbitrary: m0)
    case (Cons p goals)
    obtain g t where p: "p = (g, t)" by (cases p)
    let ?m1 = "case as_str (jindex g ''stable_goal_id'') of None \<Rightarrow> m0 | Some sid \<Rightarrow> AList.update sid t m0"
    have "map_of ?m1 i = Some target \<or> (\<exists>g. (g, target) \<in> set goals \<and> jindex g ''stable_goal_id'' = JStr i)"
      using Cons.IH [of ?m1] Cons.prems by (simp add: p)
    moreover have "map_of m0 i = Some target \<or> (t = target \<and> jindex g ''stable_goal_id'' = JStr i)"
      if "map_of ?m1 i = Some target"
      using that by (auto simp: as_str_Some split: option.splits if_splits)
    ultimately show ?case by (auto simp: p)
  qed simp
  from this [of "[]"] show "map_of (target_by_id goals) i = Some target \<Longrightarrow>
     \<exists>g. (g, target) \<in> set goals \<and> jindex g ''stable_goal_id'' = JStr i"
    by (simp add: target_by_id_def)
qed

lemma blocked_by_not:
  assumes "target \<notin> set (blocked_by by_id item)" "target \<in> set verification_targets"
  shows "\<exists>i other. jindex item ''code'' \<in> {JStr ''GOAL_NOT_VALID'', JStr ''PROVER_TIMEOUT''} \<and>
     jindex item ''stable_goal_id'' = JStr i \<and> map_of by_id i = Some other \<and> other \<noteq> target"
  using assms
  by (auto simp: blocked_by_def Let_def as_str_Some bind_eq_Some_conv split: option.splits if_splits)

lemma holds_report:
  assumes "jindex (target_report goals blocked target) ''holds'' = JBool True"
  shows "(\<exists>g. (g, target) \<in> set goals) \<and> (\<forall>g. (g, target) \<in> set goals \<longrightarrow> own_status_is_proved g) \<and>
    target \<notin> set blocked"
proof -
  from assms have "map fst (filter (\<lambda>g. snd g = target) goals) \<noteq> []"
      "filter (\<lambda>goal. \<not> own_status_is_proved goal) (map fst (filter (\<lambda>g. snd g = target) goals)) = []"
      "target \<notin> set blocked"
    by (auto simp: target_report_def Let_def jindex_def)
  then show ?thesis by (fastforce simp: filter_empty_conv)
qed

text \<open>A verification target is reported as holding only on its own evidence: at least one
  goal of the run belongs to it, all of its goals are proved, and every entry of \<open>incomplete[]\<close> is a
  goal-level one placed, by its stable id, on a goal of another target. Any other entry (a skipped
  analysis, a truncated message stream, a goal no one can place) blocks every target.\<close>

theorem established_target_sound:
  assumes "target \<in> set verification_targets"
    "jindex (jindex (established_by_target wp_goals incomplete) target) ''holds'' = JBool True"
  shows "(\<exists>g. (g, target) \<in> set (targeted_goals wp_goals)) \<and>
    (\<forall>g. (g, target) \<in> set (targeted_goals wp_goals) \<longrightarrow> own_status_is_proved g) \<and>
    (\<forall>item \<in> set incomplete. jindex item ''code'' \<in> {JStr ''GOAL_NOT_VALID'', JStr ''PROVER_TIMEOUT''} \<and>
       (\<exists>g other. (g, other) \<in> set (targeted_goals wp_goals) \<and> other \<noteq> target \<and>
          jindex g ''stable_goal_id'' = jindex item ''stable_goal_id''))"
proof -
  let ?goals = "targeted_goals wp_goals"
  let ?by_id = "target_by_id ?goals"
  let ?blocked = "concat (map (blocked_by ?by_id) incomplete)"
  have "jindex (established_by_target wp_goals incomplete) target = target_report ?goals ?blocked target"
    using assms(1) by (auto simp: established_by_target_def Let_def jindex_def verification_targets_def)
  with assms(2) have rep: "(\<exists>g. (g, target) \<in> set ?goals) \<and> (\<forall>g. (g, target) \<in> set ?goals \<longrightarrow> own_status_is_proved g)"
      "target \<notin> set ?blocked"
    using holds_report by metis+
  have "jindex item ''code'' \<in> {JStr ''GOAL_NOT_VALID'', JStr ''PROVER_TIMEOUT''} \<and>
       (\<exists>g other. (g, other) \<in> set ?goals \<and> other \<noteq> target \<and>
          jindex g ''stable_goal_id'' = jindex item ''stable_goal_id'')" if "item \<in> set incomplete" for item
  proof -
    have "target \<notin> set (blocked_by ?by_id item)" using rep(2) that by auto
    from blocked_by_not [OF this assms(1)] obtain i other where
      io: "jindex item ''code'' \<in> {JStr ''GOAL_NOT_VALID'', JStr ''PROVER_TIMEOUT''}"
        "jindex item ''stable_goal_id'' = JStr i" "map_of ?by_id i = Some other" "other \<noteq> target" by blast
    from target_by_id_in [OF io(3)] obtain g where "(g, other) \<in> set ?goals" "jindex g ''stable_goal_id'' = JStr i"
      by blast
    with io show ?thesis by metis
  qed
  with rep(1) show ?thesis by blast
qed

definition two_goals :: json where
  "two_goals = JArr
     [JObj [(''wpo'', JStr ''typed_f_ensures''), (''fct'', JStr ''f''), (''stable_goal_id'', JStr ''g1''),
            (''normalized_status'', JStr ''unknown'')],
      JObj [(''wpo'', JStr ''typed_f_terminates''), (''fct'', JStr ''f''), (''stable_goal_id'', JStr ''g2''),
            (''normalized_status'', JStr ''valid'')]]"

lemma established_target_sound_witness:
  "jindex (jindex (established_by_target two_goals
      [JObj [(''code'', JStr ''GOAL_NOT_VALID''), (''stable_goal_id'', JStr ''g1'')]]) ''termination'') ''holds'' = JBool True \<and>
   (\<exists>g. (g, ''termination'') \<in> set (targeted_goals two_goals))"
proof -
  have h: "jindex (jindex (established_by_target two_goals
      [JObj [(''code'', JStr ''GOAL_NOT_VALID''), (''stable_goal_id'', JStr ''g1'')]]) ''termination'') ''holds'' = JBool True"
    by code_simp
  have t: "''termination'' \<in> set verification_targets" by (simp add: verification_targets_def)
  show ?thesis using h established_target_sound [OF t h] by blast
qed
end
