(* ===== verification/Receipt.thy ===== *)
theory Receipt
  imports Report "HOL-Library.Multiset"
begin

text \<open>
  Proof receipts (src/src/mcp/receipt.rs) and the goal identities they carry
  (src/src/mcp/wpclass.rs). The digest function of the \<open>sha2\<close> crate, the JSON printer of
  \<open>serde_json\<close> and the two regular expressions are parameters, one record of external functions.
\<close>

record externals =
  sha256 :: "bytes \<Rightarrow> bytes"
  to_vec :: "json \<Rightarrow> bytes"
  hash_re :: "string \<Rightarrow> string option"
  canonical_ast_for_digest :: "string \<Rightarrow> string"

section \<open>Digests\<close>

definition hex_digest :: "bytes \<Rightarrow> string" where
  "hex_digest digest = concat (map (\<lambda>b. format_hex 2 (byte_of b)) digest)"

definition sha256_hex :: "externals \<Rightarrow> bytes \<Rightarrow> string" where
  "sha256_hex E bytes = hex_digest (sha256 E bytes)"

section \<open>Goal identities\<close>

definition any_contained :: "string \<Rightarrow> string list \<Rightarrow> bool" where
  "any_contained s needles \<longleftrightarrow> (\<exists>n \<in> set needles. str_contains s n)"

definition classify_wp_goal :: "externals \<Rightarrow> json \<Rightarrow> string \<times> string option" where
  "classify_wp_goal E goal =
     (let name = str_field goal ''name''; name_lc = map to_ascii_lowercase name
      in if (case goal_id_after_owner goal of None \<Rightarrow> False | Some n \<Rightarrow> is_terminates_goal n)
         then (''terminates'', None)
         else if any_contained name_lc [''signed_overflow'', ''unsigned_overflow'', ''integer_overflow'', ''downcast'']
         then (''rte_overflow'', None)
         else if any_contained name_lc [''index_in_bound'', ''index_bound'', ''array_bound'']
         then (''rte_bound'', None)
         else if any_contained name_lc [''division_by_zero'', ''div_by_zero'', ''modulo'']
         then (''rte_division'', None)
         else if any_contained name_lc [''mem_access'', ''initialization'', ''dangling'', ''pointer_validity'']
         then (''rte_pointer'', None)
         else if str_contains name_lc ''shift'' then (''rte_shift'', None)
         else (case hash_re E name of
             Some label \<Rightarrow> (''spec'', Some label)
           | None \<Rightarrow>
               if any_contained name_lc [''assertion'', ''user assert''] then (''user_assert'', None)
               else (''spec'', None)))"

definition normalize_stable_goal_text :: "externals \<Rightarrow> json option \<Rightarrow> string" where
  "normalize_stable_goal_text E value =
     (case value of
        None \<Rightarrow> []
      | Some v \<Rightarrow> (case as_str v of Some s \<Rightarrow> join '' '' (split_whitespace s) | None \<Rightarrow> to_vec E v))"

definition u64_text :: "json option \<Rightarrow> string" where
  "u64_text v = unwrap_or (map_option (\<lambda>n. show_nat (unat n)) (Option.bind v as_u64)) []"

definition stable_goal_source_key :: "json \<Rightarrow> string" where
  "stable_goal_source_key goal =
     (let location = or_else (jget goal ''source_location'') (or_else (jget goal ''source'') (jget goal ''loc''));
          file = unwrap_or (Option.bind (Option.bind location
             (\<lambda>loc. or_else (jget loc ''file'') (jget loc ''base''))) as_str) [];
          line = u64_text (Option.bind location (\<lambda>loc. jget loc ''line''));
          col = u64_text (Option.bind location (\<lambda>loc. jget loc ''col''))
      in join '':'' [file, line, col])"

text \<open>\<open>rsplit_once\<close> splits at the last occurrence.\<close>

definition rsplit_once :: "string \<Rightarrow> string \<Rightarrow> (string \<times> string) option" where
  "rsplit_once pat s = map_option (\<lambda>(a, b). (rev b, rev a)) (split_once (rev pat) (rev s))"

definition stable_goal_part_key :: "json \<Rightarrow> string" where
  "stable_goal_part_key goal =
     (let wpo = unwrap_or (Option.bind (or_else (jget goal ''wpo_id'') (jget goal ''wpo'')) as_str) []
      in case rsplit_once ''_part'' wpo of
           Some (_, digits) \<Rightarrow>
             if digits \<noteq> [] \<and> list_all is_ascii_digit digits then ''_part'' @ digits else []
         | None \<Rightarrow> [])"

definition stable_goal_predicate_key :: "externals \<Rightarrow> json \<Rightarrow> string" where
  "stable_goal_predicate_key E goal =
     normalize_stable_goal_text E
       (or_else (jget goal ''predicate'') (or_else (jget goal ''descr'')
         (or_else (jget goal ''goal'') (jget goal ''name''))))"

definition stable_goal_id_for :: "externals \<Rightarrow> json \<Rightarrow> string \<Rightarrow> string option \<Rightarrow> string" where
  "stable_goal_id_for E goal goal_kind stable_scope =
     (case get_str goal ''hash_label'' of
        Some label \<Rightarrow> label
      | None \<Rightarrow>
          let payload = JObj [(''scope'', JStr (unwrap_or stable_scope (goal_scope_key goal))),
                (''goal_kind'', JStr goal_kind), (''source_location'', JStr (stable_goal_source_key goal)),
                (''predicate'', JStr (stable_goal_predicate_key E goal)),
                (''name'', JStr (normalize_stable_goal_text E (jget goal ''name''))),
                (''part'', JStr (stable_goal_part_key goal))]
          in ''sg_'' @ take 16 (sha256_hex E (to_vec E payload)))"

definition goal_is_from_cache :: "json \<Rightarrow> bool option" where
  "goal_is_from_cache goal = Option.bind (jget goal ''from_cache'') as_bool"

definition apply_cache_provenance :: "json list \<Rightarrow> json \<Rightarrow> json list" where
  "apply_cache_provenance goals stats0 =
     (let stats = unwrap_or (jget stats0 ''result'') stats0;
          by_wpo = fold (\<lambda>row m. case get_str row ''wpo'' of None \<Rightarrow> m | Some w \<Rightarrow> AList.update w row m)
            (array_or_empty (jget stats ''goals'')) []
      in map (\<lambda>goal.
           let answer = Option.bind (Option.bind (get_str goal ''wpo'') (map_of by_wpo))
                 (\<lambda>row. jget row ''best_result_cached'')
           in on_object (AList.update ''from_cache'' (unwrap_or answer JNull)) goal) goals)"

definition enrich_goal_stable_id :: "externals \<Rightarrow> json \<Rightarrow> string \<Rightarrow> string option \<Rightarrow> json" where
  "enrich_goal_stable_id E goal goal_kind stable_scope =
     on_object (\<lambda>obj0.
       let obj = or_insert ''stable_goal_id'' (JStr (stable_goal_id_for E goal goal_kind stable_scope)) obj0
       in case map_of obj ''name'' of None \<Rightarrow> obj | Some name \<Rightarrow> or_insert ''frama_c_goal_name'' name obj) goal"

section \<open>The parts of a receipt\<close>

text \<open>\<open>std::path\<close> on Unix, as far as a receipt reads it.\<close>

definition path_components :: "string \<Rightarrow> string list" where
  "path_components path = filter (\<lambda>c. c \<noteq> [] \<and> c \<noteq> ''.'') (split_on (CHR ''/'') path)"

definition last_normal :: "string list \<Rightarrow> string option" where
  "last_normal cs = (if cs = [] \<or> last cs = ''..'' then None else Some (last cs))"

definition check_scratch_prefix :: string where
  "check_scratch_prefix = ''frama-c-check-''"

definition receipt_source_path :: "string \<Rightarrow> string" where
  "receipt_source_path path =
     (let cs = path_components path;
          in_scratch = (case last_normal (butlast cs) of None \<Rightarrow> False
             | Some dir \<Rightarrow> starts_with dir check_scratch_prefix)
      in case keep_if (\<lambda>_. in_scratch) (last_normal cs) of None \<Rightarrow> path | Some name \<Rightarrow> name)"

text \<open>\<open>Option<&str>\<close> keys of a stable sort: no key is below every key.\<close>

definition opt_key :: "string option \<Rightarrow> string list" where
  "opt_key a = (case a of None \<Rightarrow> [] | Some s \<Rightarrow> [s])"

definition proof_receipt_source_files ::
    "externals \<Rightarrow> (string \<Rightarrow> string + bytes) \<Rightarrow> string list \<Rightarrow> json list" where
  "proof_receipt_source_files E read files =
     sort_key (\<lambda>e. opt_key (get_str e ''path''))
       (map (\<lambda>file. case read file of
            Inr bytes \<Rightarrow> JObj [(''path'', JStr (receipt_source_path file)), (''sha256'', JStr (sha256_hex E bytes))]
          | Inl err \<Rightarrow> JObj [(''path'', JStr (receipt_source_path file)), (''sha256'', JNull),
                             (''error'', JStr err)]) files)"

definition receipt_goal ::
    "externals \<Rightarrow> string option \<Rightarrow> (string, json) kv \<Rightarrow> json \<Rightarrow> json" where
  "receipt_goal E stable_scope properties goal0 =
     (let goal1 = enrich_goal_with_property_status properties (add_identity_fields goal0);
          goal = (case classify_wp_goal E goal1 of
              (kind, hash_label) \<Rightarrow>
                enrich_goal_stable_id E (on_object (insert_missing ''hash_label'' (map_option JStr hash_label)) goal1)
                  kind stable_scope)
      in JObj [(''stable_goal_id'', field_or_null goal ''stable_goal_id''),
               (''status'', jopt JStr (own_status goal)), (''from_cache'', jopt JBool (goal_is_from_cache goal)),
               (''vacuously_proved'', JBool (goal_is_vacuously_proved goal)),
               (''fct'', jopt JStr (goal_owner_name goal))])"

definition proof_receipt_goals ::
    "externals \<Rightarrow> json list \<Rightarrow> string option \<Rightarrow> (string, json) kv \<Rightarrow> json list" where
  "proof_receipt_goals E goals stable_scope properties =
     sort_key (\<lambda>g. [opt_key (get_str g ''stable_goal_id''), opt_key (get_str g ''status'')])
       (map (receipt_goal E stable_scope properties) goals)"

definition receipt_goal_is_progress :: "json \<Rightarrow> bool" where
  "receipt_goal_is_progress goal \<longleftrightarrow>
     (case get_str goal ''status'' of None \<Rightarrow> False | Some s \<Rightarrow> is_proved s) \<and>
     \<not> flag_of goal ''vacuously_proved''"

definition receipt_goals_record_owner :: "json list \<Rightarrow> bool" where
  "receipt_goals_record_owner goals \<longleftrightarrow> (\<forall>g \<in> set goals. jget g ''fct'' \<noteq> None)"

definition generated_prefixes :: "string list" where
  "generated_prefixes = [''re'', ''en'', ''as'', ''li'', ''la'', ''lv'', ''at'', ''an'']"

definition is_ascii_hexdigit :: "char \<Rightarrow> bool" where
  "is_ascii_hexdigit c \<longleftrightarrow> hex_value c \<noteq> None"

definition strip_generated_label :: "string \<Rightarrow> string" where
  "strip_generated_label text =
     trim (case split_once '': '' text of
        None \<Rightarrow> text
      | Some (label, rest) \<Rightarrow>
          (case split_on (CHR ''_'') label of
             p # hex # _ \<Rightarrow>
               if p \<in> set generated_prefixes \<and> length hex = 8 \<and> list_all is_ascii_hexdigit hex then rest else text
           | _ \<Rightarrow> text))"

text \<open>
  The clauses of one contract by kind; a \<open>BTreeMap\<close> prints its keys in order. A contract is the value
  at \<open>/function/contract\<close> of the function's context.
\<close>

definition push_text :: "string \<Rightarrow> string \<Rightarrow> (string, string list) kv \<Rightarrow> (string, string list) kv" where
  "push_text kind t m = AList.update kind (unwrap_or (map_of m kind) [] @ [t]) m"

definition contract_clauses :: "json \<Rightarrow> (string, string list) kv" where
  "contract_clauses contract =
     fold (\<lambda>(array, entry) m.
         case pointer_str entry [''predicate'', ''text''] of
           None \<Rightarrow> m
         | Some t \<Rightarrow> push_text (unwrap_or (get_str entry ''kind'') array) (strip_generated_label t) m)
       (concat (map (\<lambda>array. map (Pair array) (array_or_empty (jget contract array))) [''requires'', ''ensures''])) []"

definition behavior_groups :: "json \<Rightarrow> string \<Rightarrow> string list" where
  "behavior_groups contract grp =
     List.map_filter (\<lambda>entry. Option.bind (as_array entry) (\<lambda>xs.
         let names = List.map_filter as_str xs in if names = [] then None else Some (join '', '' names)))
       (array_or_empty (jget contract grp))"

definition contract_by_kind :: "json \<Rightarrow> (string, string list) kv" where
  "contract_by_kind contract =
     map (\<lambda>(k, ts). (k, sort_dedup ts))
       (sort_key fst
         (fold (\<lambda>grp m. let names = behavior_groups contract grp
              in if names = [] then m else AList.update grp names m)
            [''complete'', ''disjoint''] (contract_clauses contract)))"

definition isolated_retry_no_ast :: string where
  "isolated_retry_no_ast = ''unavailable_isolated_cli_retry''"

definition proof_receipt_contracts :: "(string \<Rightarrow> json option) \<Rightarrow> json \<Rightarrow> string \<Rightarrow> json" where
  "proof_receipt_contracts context_of wp_config goals_status_source =
     (if goals_status_source = isolated_retry_no_ast then JStr isolated_retry_no_ast
      else JObj (fold (\<lambda>function m.
          case Option.bind (context_of function) (\<lambda>c. pointer c [''function'', ''contract'']) of
            None \<Rightarrow> m
          | Some contract \<Rightarrow>
              let by_kind = contract_by_kind contract
              in if by_kind = [] then m
                 else AList.update function (JObj (map (\<lambda>(k, ts). (k, JArr (map JStr ts))) by_kind)) m)
        (List.map_filter as_str (array_or_empty (jget wp_config ''functions''))) []))"

text \<open>What asking the client for the printed AST can answer.\<close>

datatype print_source_answer = NoClient | Printed string | PrintFailed string

definition digest_of_printed_ast :: "externals \<Rightarrow> string \<Rightarrow> json \<times> json" where
  "digest_of_printed_ast E text =
     (if text = [] then (JNull, JStr ''request_answered_empty'')
      else (JStr (sha256_hex E (canonical_ast_for_digest E text)), JNull))"

definition proof_receipt_ast_digest ::
    "externals \<Rightarrow> print_source_answer \<Rightarrow> string \<Rightarrow> string option \<Rightarrow> string option \<Rightarrow> json \<times> json" where
  "proof_receipt_ast_digest E answer goals_status_source ast_source ast_digest =
     (if goals_status_source = isolated_retry_no_ast then (JStr isolated_retry_no_ast, JNull)
      else (case keep_if (\<lambda>d. d \<noteq> isolated_retry_no_ast) ast_digest of
          Some digest \<Rightarrow> (JStr digest, JNull)
        | None \<Rightarrow>
            (case ast_source of
               Some source \<Rightarrow> digest_of_printed_ast E source
             | None \<Rightarrow>
                 if goals_status_source = ''not_run_reload_failed'' then (JNull, JStr ''reload_failed'')
                 else (case answer of
                     NoClient \<Rightarrow> (JNull, JStr ''no_client'')
                   | Printed text \<Rightarrow> digest_of_printed_ast E text
                   | PrintFailed err \<Rightarrow> (JNull, JStr (''request_failed: '' @ err))))))"

section \<open>The receipt\<close>

definition session_scoped_keys :: "string list" where
  "session_scoped_keys = [''property'', ''property_marker'', ''kinstr_marker'']"

lemma set_swap_remove: "set (swap_remove k m) \<subseteq> set m"
proof (cases "length (takeWhile (\<lambda>p. fst p \<noteq> k) m) = length m")
  case False
  then have "m \<noteq> []" by auto
  let ?m = "m[length (takeWhile (\<lambda>p. fst p \<noteq> k) m) := last m]"
  have "set (butlast ?m) \<subseteq> set ?m" by (auto dest: in_set_butlastD)
  also have "\<dots> \<subseteq> insert (last m) (set m)" by (rule set_update_subset_insert)
  also have "\<dots> = set m" using \<open>m \<noteq> []\<close> by auto
  finally show ?thesis using False by (simp add: swap_remove_def Let_def)
qed (simp add: swap_remove_def)

function strip_session_scoped :: "json \<Rightarrow> json" where
  "strip_session_scoped (JObj obj) =
     JObj (map (\<lambda>p. (fst p, strip_session_scoped (snd p))) (fold swap_remove session_scoped_keys obj))"
| "strip_session_scoped (JArr items) = JArr (map strip_session_scoped items)"
| "strip_session_scoped JNull = JNull"
| "strip_session_scoped (JBool b) = JBool b"
| "strip_session_scoped (JNum n) = JNum n"
| "strip_session_scoped (JStr s) = JStr s"
  by pat_completeness auto

termination
proof (relation "measure size")
  fix obj and p :: "string \<times> json"
  assume "p \<in> set (fold swap_remove session_scoped_keys obj)"
  then have "p \<in> set obj" by (auto simp: session_scoped_keys_def dest!: set_mp [OF set_swap_remove])
  then have "size (snd p) \<le> size_list (size_prod (\<lambda>x. 0) size) obj"
    by (rule size_list_estimation') (cases p, simp)
  then show "(snd p, JObj obj) \<in> measure size" by simp
next
  fix items :: "json list" and x
  assume "x \<in> set items"
  then have "size x \<le> size_list size items" by (rule size_list_estimation') simp
  then show "(x, JArr items) \<in> measure size" by simp
qed simp

text \<open>Entries by code, in key order, and one digest over the printed entries, sorted.\<close>

definition entry_code :: "json \<Rightarrow> string" where
  "entry_code entry = unwrap_or (get_str entry ''code'') ''UNKNOWN''"

definition code_counts :: "json list \<Rightarrow> fields" where
  "code_counts entries =
     (let codes = map entry_code entries in map (\<lambda>c. (c, jnat (count_list codes c))) (sort_dedup codes))"

definition incomplete_digest :: "externals \<Rightarrow> json \<Rightarrow> json" where
  "incomplete_digest E incomplete =
     (let entries = unwrap_or (as_array incomplete) [];
          identities = sort (map (\<lambda>entry. to_vec E (strip_session_scoped entry)) entries)
      in JObj [(''count'', jnat (length entries)), (''codes'', JObj (code_counts entries)),
               (''sha256'', JStr (sha256_hex E (to_vec E (JArr (map JStr identities)))))])"

definition eva_config_absent :: "string \<Rightarrow> json" where
  "eva_config_absent reason = JObj [(''ran'', JBool False), (''reason'', JStr reason)]"

record receipt_body =
  rb_tool :: string
  rb_source_files :: "json list"
  rb_project_load :: json
  rb_ast_digest :: json
  rb_ast_digest_unavailable_reason :: json
  rb_contracts :: json
  rb_environment :: json
  rb_wp_config :: json
  rb_eva_config :: json
  rb_goals :: "json list"
  rb_goals_status_source :: string
  rb_reported :: json

definition receipt_schema :: string where
  "receipt_schema = ''frama-c-mcp.proof-receipt''"

text \<open>\<open>random_hex(16)\<close> is the nonce, drawn only when there is no AST digest.\<close>

definition proof_receipt_body :: "externals \<Rightarrow> string \<Rightarrow> receipt_body \<Rightarrow> json" where
  "proof_receipt_body E nonce b =
     JObj [(''schema'', JStr receipt_schema),
       (''subject'', JObj
         [(''tool'', JStr (rb_tool b)),
          (''source_hash'', JStr (sha256_hex E (to_vec E (JArr (rb_source_files b))))),
          (''files'', JArr (rb_source_files b)),
          (''project_load'', rb_project_load b),
          (''ast_digest'', rb_ast_digest b),
          (''ast_digest_unavailable_nonce'', if rb_ast_digest b = JNull then JStr nonce else JNull),
          (''ast_digest_unavailable_reason'', rb_ast_digest_unavailable_reason b),
          (''contracts'', rb_contracts b)]),
       (''environment'', rb_environment b), (''wp'', rb_wp_config b), (''eva'', rb_eva_config b),
       (''goals_status_source'', JStr (rb_goals_status_source b)), (''goals'', JArr (rb_goals b)),
       (''reported'', rb_reported b)]"

definition post_body_key :: string where
  "post_body_key = ''sha256''"

definition proof_receipt_with_hash :: "externals \<Rightarrow> json \<Rightarrow> json" where
  "proof_receipt_with_hash E body =
     on_object (AList.update post_body_key (JStr (sha256_hex E (to_vec E body)))) body"

definition prefixed_names :: "json \<Rightarrow> string \<Rightarrow> string list" where
  "prefixed_names value p =
     sort (map (\<lambda>k. p @ k)
       (filter (\<lambda>k. \<not> (p = [] \<and> k = post_body_key)) (map fst (unwrap_or (as_object value) []))))"

definition schema_of :: "externals \<Rightarrow> json \<Rightarrow> string" where
  "schema_of E receipt =
     (let skeleton = prefixed_names receipt [] @ prefixed_names (jindex receipt ''subject'') ''subject.''
      in take 12 (sha256_hex E (join [char_of (10::nat)] skeleton)))"

definition probe_body :: receipt_body where
  "probe_body = \<lparr>rb_tool = [], rb_source_files = [], rb_project_load = JObj [], rb_ast_digest = JStr [],
     rb_ast_digest_unavailable_reason = JNull, rb_contracts = JObj [], rb_environment = JObj [],
     rb_wp_config = JObj [], rb_eva_config = JObj [], rb_goals = [], rb_goals_status_source = [],
     rb_reported = JObj []\<rparr>"

definition receipt_shape :: "externals \<Rightarrow> string" where
  "receipt_shape E = schema_of E (proof_receipt_body E [] probe_body)"

text \<open>
  \<open>check_proof_receipt\<close> and \<open>proof_receipt\<close> for a check: what the run, the file system, the environment
  probes and the client answered are inputs.
\<close>

record check_receipt_inputs =
  cr_verdict :: json
  cr_incomplete :: json
  cr_receipt_files :: "string list"
  cr_eva :: json
  cr_wp :: json
  cr_goals :: "json list"
  cr_wanted_eva :: bool
  cr_stable_scope :: "string option"
  cr_properties :: "(string, json) kv"

record run_answers =
  ra_read :: "string \<Rightarrow> string + bytes"
  ra_environment :: json
  ra_context_of :: "string \<Rightarrow> json option"
  ra_print_source :: print_source_answer
  ra_project_load :: json
  ra_nonce :: string

definition check_receipt_body :: "externals \<Rightarrow> run_answers \<Rightarrow> check_receipt_inputs \<Rightarrow> receipt_body" where
  "check_receipt_body E A c =
     (let wp_config = field_or_null (cr_wp c) ''effective_wp_config'';
          digest = proof_receipt_ast_digest E (ra_print_source A) ''check_wp_goals'' None
             (pointer_str (cr_wp c) [''proof_receipt'', ''subject'', ''ast_digest''])
      in \<lparr>rb_tool = ''check'',
          rb_source_files = proof_receipt_source_files E (ra_read A) (cr_receipt_files c),
          rb_project_load = ra_project_load A,
          rb_ast_digest = fst digest, rb_ast_digest_unavailable_reason = snd digest,
          rb_contracts = proof_receipt_contracts (ra_context_of A) wp_config ''check_wp_goals'',
          rb_environment = ra_environment A, rb_wp_config = wp_config,
          rb_eva_config = unwrap_or (jget (cr_eva c) ''effective_options'')
             (eva_config_absent (if cr_wanted_eva c then ''eva_did_not_complete'' else ''not_requested'')),
          rb_goals = proof_receipt_goals E (cr_goals c) (cr_stable_scope c) (cr_properties c),
          rb_goals_status_source = ''check_wp_goals'',
          rb_reported = JObj [(''verdict'', cr_verdict c), (''incomplete'', incomplete_digest E (cr_incomplete c)),
             (''wp_failure_kind'', field_or_null (cr_wp c) ''failure_kind'')]\<rparr>)"

definition check_proof_receipt :: "externals \<Rightarrow> run_answers \<Rightarrow> check_receipt_inputs \<Rightarrow> json" where
  "check_proof_receipt E A c =
     proof_receipt_with_hash E (proof_receipt_body E (ra_nonce A) (check_receipt_body E A c))"
section \<open>Lemmas on digests of the gate\<close>

lemma swap_remove_split:
  assumes "k \<notin> fst ` set xs"
  shows "swap_remove k (xs @ (k, v) # ys) = (if ys = [] then xs else xs @ last ys # butlast ys)"
proof -
  have i: "length (takeWhile (\<lambda>p. fst p \<noteq> k) (xs @ (k, v) # ys)) = length xs"
    using assms by (subst takeWhile_append2) auto
  have "(xs @ (k, v) # ys)[length xs := last (xs @ (k, v) # ys)] = xs @ last ((k, v) # ys) # ys"
    by (simp add: list_update_append)
  then show ?thesis
    unfolding swap_remove_def Let_def i by (simp add: butlast_append)
qed

lemma swap_remove_absent: "k \<notin> fst ` set m \<Longrightarrow> swap_remove k m = m"
proof -
  assume "k \<notin> fst ` set m"
  then have "takeWhile (\<lambda>p. fst p \<noteq> k) m = m" by (auto simp: takeWhile_eq_all_conv)
  then have "length (takeWhile (\<lambda>p. fst p \<noteq> k) m) = length m" by (rule arg_cong)
  then show ?thesis unfolding swap_remove_def Let_def by (rule if_P)
qed

lemma swap_remove_wf:
  assumes "distinct_keys m"
  shows "set (swap_remove k m) = {p \<in> set m. fst p \<noteq> k} \<and> distinct_keys (swap_remove k m)"
proof (cases "k \<in> fst ` set m")
  case True
  then obtain v where "(k, v) \<in> set m" by force
  then obtain xs ys where m: "m = xs @ (k, v) # ys" by (meson split_list)
  with assms have k: "k \<notin> fst ` set xs" "k \<notin> fst ` set ys" by (auto simp: distinct_keys_def)
  then have eq: "{p \<in> set m. fst p \<noteq> k} = set xs \<union> set ys" by (force simp: m)
  show ?thesis
  proof (cases ys rule: rev_cases)
    case Nil
    then show ?thesis using assms swap_remove_split [OF k(1)] eq by (simp add: m distinct_keys_def)
  next
    case (snoc zs z)
    then have "swap_remove k m = xs @ z # zs" using swap_remove_split [OF k(1)] by (simp add: m)
    then show ?thesis using assms eq snoc by (auto simp: m distinct_keys_def)
  qed
next
  case False
  then show ?thesis using assms by (force simp: swap_remove_absent)
qed

text \<open>A value none of whose objects, at any depth, has a session-scoped field.\<close>

fun session_free :: "json \<Rightarrow> bool" where
  "session_free (JArr xs) = (\<forall>x \<in> set xs. session_free x)"
| "session_free (JObj m) = (\<forall>p \<in> set m. fst p \<notin> set session_scoped_keys \<and> session_free (snd p))"
| "session_free _ = True"

lemma swap_remove_keys:
  "distinct_keys m \<Longrightarrow> set (fold swap_remove ks m) = {p \<in> set m. fst p \<notin> set ks} \<and>
     distinct_keys (fold swap_remove ks m)"
proof (induction ks arbitrary: m)
  case (Cons k ks)
  then show ?case using swap_remove_wf [OF Cons.prems, of k] by auto
qed simp

lemma strip_session_free: "wf_json v \<Longrightarrow> session_free (strip_session_scoped v)"
proof (induction v rule: strip_session_scoped.induct)
  case (1 obj)
  then have d: "set (fold swap_remove session_scoped_keys obj) = {p \<in> set obj. fst p \<notin> set session_scoped_keys}"
    using swap_remove_keys [of obj session_scoped_keys] by simp
  have "session_free (strip_session_scoped (snd p))" if "p \<in> set (fold swap_remove session_scoped_keys obj)" for p
    using 1 that d by auto
  then show ?case using d by auto
qed auto

lemma sort_mset: "mset xs = mset ys \<Longrightarrow> sort xs = sort ys"
  by (rule properties_for_sort) simp_all

lemma code_counts_mset: "mset (map entry_code xs) = mset (map entry_code ys) \<Longrightarrow> code_counts xs = code_counts ys"
proof -
  assume m: "mset (map entry_code xs) = mset (map entry_code ys)"
  then have "count_list (map entry_code xs) c = count_list (map entry_code ys) c" for c
    by (metis count_mset)
  moreover have "sort_dedup (map entry_code xs) = sort_dedup (map entry_code ys)"
    using sort_mset [OF m] by (simp add: sort_dedup_def)
  ultimately show ?thesis by (simp add: code_counts_def Let_def)
qed

section \<open>Properties\<close>

text \<open>The digest of \<open>incomplete[]\<close> names the run's findings and not the session. Two lists with the
  same entries up to their order and up to the session-scoped markers inside them have the same digest,
  and what is hashed of a well-formed entry holds no such marker at any depth.\<close>

theorem incomplete_digest_session_independent:
  assumes "mset (map (\<lambda>e. (entry_code e, strip_session_scoped e)) xs) =
           mset (map (\<lambda>e. (entry_code e, strip_session_scoped e)) ys)"
  shows "incomplete_digest E (JArr xs) = incomplete_digest E (JArr ys) \<and>
    (\<forall>e \<in> set xs. wf_json e \<longrightarrow> session_free (strip_session_scoped e))"
proof -
  have image: "mset (map (\<lambda>e. f (entry_code e) (strip_session_scoped e)) xs) =
      mset (map (\<lambda>e. f (entry_code e) (strip_session_scoped e)) ys)" for f :: "string \<Rightarrow> json \<Rightarrow> string"
    using arg_cong [OF assms, of "image_mset (\<lambda>(c, s). f c s)"]
    by (simp add: image_mset.compositionality comp_def)
  have "code_counts xs = code_counts ys"
    by (rule code_counts_mset) (use image [of "\<lambda>c s. c"] in simp)
  moreover have "sort (map (\<lambda>e. to_vec E (strip_session_scoped e)) xs) =
      sort (map (\<lambda>e. to_vec E (strip_session_scoped e)) ys)"
    by (rule sort_mset) (use image [of "\<lambda>c s. to_vec E s"] in simp)
  moreover have "length xs = length ys" using arg_cong [OF assms, of size] by simp
  ultimately show ?thesis by (simp add: incomplete_digest_def Let_def strip_session_free)
qed

definition gap_in_session :: "string \<Rightarrow> string \<Rightarrow> json" where
  "gap_in_session code marker = JObj [(''code'', JStr code), (''property'', JStr marker), (''reason'', JStr ''r'')]"

lemma incomplete_digest_session_independent_witness:
  "\<forall>E. incomplete_digest E (JArr [gap_in_session ''A'' ''#p1'', gap_in_session ''B'' ''#p2'']) =
   incomplete_digest E (JArr [gap_in_session ''B'' ''#p9'', gap_in_session ''A'' ''#p7''])"
proof -
  have "map (\<lambda>e. (entry_code e, strip_session_scoped e)) [gap_in_session ''A'' ''#p1'', gap_in_session ''B'' ''#p2''] =
    rev (map (\<lambda>e. (entry_code e, strip_session_scoped e)) [gap_in_session ''B'' ''#p9'', gap_in_session ''A'' ''#p7''])"
    by (simp add: gap_in_session_def entry_code_def get_str_def session_scoped_keys_def swap_remove_def Let_def)
  then have "mset (map (\<lambda>e. (entry_code e, strip_session_scoped e)) [gap_in_session ''A'' ''#p1'', gap_in_session ''B'' ''#p2'']) =
    mset (map (\<lambda>e. (entry_code e, strip_session_scoped e)) [gap_in_session ''B'' ''#p9'', gap_in_session ''A'' ''#p7''])"
    by simp
  from incomplete_digest_session_independent [OF this] show ?thesis by simp
qed
end
