(* ===== verification/Evidence.thy ===== *)
theory Evidence
  imports Receipt
begin

text \<open>
  What makes a receipt evidence (\<open>proof_receipt_evidence_error\<close> in src/src/state.rs). Each constructor
  is one early return; its arguments are what the message prints.
\<close>

datatype evidence_error =
    NotThisBuild "string option" string string
  | MissingStamp
  | NotAnObject
  | StampMismatch string string
  | NoFileList
  | BadSourceFiles
  | MissingGoals
  | NoGoals
  | GoalCountMismatch
  | GoalsNotDischarged
  | NotFromCheck
  | VerdictNotProved string
  | NoVerdict
  | NarrowedByProp
  | FromSandbox
  | NoFunctionNames
  | ProvesOther "string list" string

definition receipt_unstamped :: "fields \<Rightarrow> json" where
  "receipt_unstamped obj = JObj (filter (\<lambda>p. fst p \<noteq> ''sha256'') obj)"

definition file_unreadable :: "json \<Rightarrow> bool" where
  "file_unreadable file \<longleftrightarrow>
     (case get_str file ''path'' of None \<Rightarrow> True | Some p \<Rightarrow> p = []) \<or>
     (case get_str file ''sha256'' of None \<Rightarrow> True | Some h \<Rightarrow> h = [])"

text \<open>The questions asked once the stamp has been found to match.\<close>

definition verdict_error :: "json \<Rightarrow> evidence_error option" where
  "verdict_error receipt =
     (case pointer_str receipt [''reported'', ''verdict''] of
        Some v \<Rightarrow> if v = ''proved'' then None else Some (VerdictNotProved v)
      | None \<Rightarrow> Some NoVerdict)"

definition scope_error :: "json \<Rightarrow> string \<Rightarrow> evidence_error option" where
  "scope_error receipt function =
     (if (case pointer receipt [''wp'', ''prop'', ''effective''] of None \<Rightarrow> False | Some p \<Rightarrow> p \<noteq> JNull)
      then Some NarrowedByProp
      else if pointer_str receipt [''wp'', ''scope''] = Some ''sandbox'' then Some FromSandbox
      else (case pointer_array receipt [''wp'', ''functions''] of
          None \<Rightarrow> Some NoFunctionNames
        | Some names \<Rightarrow>
            if \<exists>n \<in> set names. as_str n = Some function then None
            else Some (ProvesOther (List.map_filter as_str names) function)))"

definition contents_error :: "json \<Rightarrow> u32 \<Rightarrow> string \<Rightarrow> evidence_error option" where
  "contents_error receipt goal_total function =
     (case pointer_array receipt [''subject'', ''files''] of
        None \<Rightarrow> Some NoFileList
      | Some files \<Rightarrow>
          if files = [] \<or> (\<exists>f \<in> set files. file_unreadable f) then Some BadSourceFiles
          else (case Option.bind (jget receipt ''goals'') as_array of
              None \<Rightarrow> Some MissingGoals
            | Some goals \<Rightarrow>
                if goals = [] then Some NoGoals
                else if of_nat (length goals) \<noteq> goal_total then Some GoalCountMismatch
                else if \<exists>g \<in> set goals. \<not> receipt_goal_is_progress g then Some GoalsNotDischarged
                else if pointer_str receipt [''subject'', ''tool''] \<noteq> Some ''check'' then Some NotFromCheck
                else or_else (verdict_error receipt) (scope_error receipt function)))"

definition proof_receipt_evidence_error ::
    "externals \<Rightarrow> json \<Rightarrow> u32 \<Rightarrow> string \<Rightarrow> evidence_error option" where
  "proof_receipt_evidence_error E receipt goal_total function =
     (let schema = get_str receipt ''schema''; shape = schema_of E receipt
      in if schema \<noteq> Some receipt_schema \<or> shape \<noteq> receipt_shape E
         then Some (NotThisBuild schema shape (receipt_shape E))
         else (case get_str receipt ''sha256'' of
             None \<Rightarrow> Some MissingStamp
           | Some stamped \<Rightarrow>
               (case as_object receipt of
                  None \<Rightarrow> Some NotAnObject
                | Some obj \<Rightarrow>
                    let recomputed = sha256_hex E (to_vec E (receipt_unstamped obj))
                    in if recomputed \<noteq> stamped then Some (StampMismatch stamped recomputed)
                       else contents_error receipt goal_total function)))"

section \<open>Lemmas\<close>

lemma hex_digit_neq_inj: "m < 16 \<Longrightarrow> n < 16 \<Longrightarrow> hex_digit m = hex_digit n \<Longrightarrow> m = n"
  by (metis hex_value_hex_digit option.inject)

lemma format_hex_2_byte: "n < 256 \<Longrightarrow> format_hex 2 n = [hex_digit (n div 16), hex_digit (n mod 16)]"
proof -
  assume n: "n < 256"
  have zero: "hex_digit 0 = CHR ''0''" by code_simp
  show ?thesis
  proof (cases "n < 16")
    case True
    then show ?thesis using zero by (simp add: format_hex_def pad_left_def digits_of.simps [of 16 n])
  next
    case False
    with n have "n div 16 < 16" by simp
    then show ?thesis using False
      by (simp add: format_hex_def pad_left_def digits_of.simps [of 16 n] digits_of.simps [of 16 "n div 16"])
  qed
qed

lemma hex_digest_Cons: "hex_digest (b # bs) = hex_digit (byte_of b div 16) # hex_digit (byte_of b mod 16) # hex_digest bs"
  by (simp add: hex_digest_def format_hex_2_byte)

lemma hex_digest_inj: "hex_digest a = hex_digest b \<Longrightarrow> a = b"
proof (induction a arbitrary: b)
  case Nil
  then show ?case by (cases b) (simp_all add: hex_digest_Cons, simp add: hex_digest_def)
next
  case (Cons x xs)
  from Cons.prems obtain y ys where b: "b = y # ys"
    by (cases b) (simp_all add: hex_digest_Cons, simp add: hex_digest_def)
  from Cons.prems have "hex_digit (byte_of x div 16) = hex_digit (byte_of y div 16)"
      "hex_digit (byte_of x mod 16) = hex_digit (byte_of y mod 16)" "hex_digest xs = hex_digest ys"
    by (simp_all add: b hex_digest_Cons)
  moreover have "byte_of c div 16 < 16" for c
    using byte_of_lt [of c] by (simp add: less_mult_imp_div_less)
  ultimately have "byte_of x div 16 = byte_of y div 16" "byte_of x mod 16 = byte_of y mod 16" "xs = ys"
    using Cons.IH by (auto dest!: hex_digit_neq_inj [rotated 2])
  then have "byte_of x = byte_of y" by (metis div_mult_mod_eq)
  then have "x = y" by simp
  with \<open>xs = ys\<close> b show ?case by simp
qed

lemma length_hex_digest: "length (hex_digest bs) = 2 * length bs"
  by (induction bs) (simp_all add: hex_digest_Cons, simp add: hex_digest_def)

lemma unstamped_with_hash:
  "proof_receipt_with_hash E (proof_receipt_body E nonce b) =
     JObj (AList.update ''sha256'' (JStr (sha256_hex E (to_vec E (proof_receipt_body E nonce b))))
       (the (as_object (proof_receipt_body E nonce b))))"
  by (simp add: proof_receipt_with_hash_def proof_receipt_body_def post_body_key_def)

lemma body_fields:
  assumes "r = proof_receipt_with_hash E (proof_receipt_body E nonce b)"
  shows "get_str r ''schema'' = Some receipt_schema"
    "get_str r ''sha256'' = Some (sha256_hex E (to_vec E (proof_receipt_body E nonce b)))"
    "\<exists>obj. as_object r = Some obj \<and> receipt_unstamped obj = proof_receipt_body E nonce b"
    "pointer_array r [''subject'', ''files''] = Some (rb_source_files b)"
    "jget r ''goals'' = Some (JArr (rb_goals b))"
    "pointer_str r [''subject'', ''tool''] = Some (rb_tool b)"
    "jget r ''reported'' = Some (rb_reported b)" "jget r ''wp'' = Some (rb_wp_config b)"
  unfolding assms unstamped_with_hash
  by (simp_all add: proof_receipt_body_def get_str_def pointer_array_def pointer_str_def receipt_unstamped_def)

text \<open>The shape of a receipt is the one this build writes, whatever it holds.\<close>

lemma shape_of_receipt: "schema_of E (proof_receipt_with_hash E (proof_receipt_body E nonce b)) = receipt_shape E"
  unfolding receipt_shape_def unstamped_with_hash
  by (simp add: schema_of_def Let_def prefixed_names_def proof_receipt_body_def jindex_def post_body_key_def)

lemma last_normal_neq_Nil: "last_normal (path_components p) = Some n \<Longrightarrow> n \<noteq> []"
  by (auto simp: last_normal_def path_components_def split: if_splits dest: last_in_set)

lemma receipt_source_path_Nil: "receipt_source_path p = [] \<longleftrightarrow> p = []"
proof -
  have "receipt_source_path [] = []"
    by (simp add: receipt_source_path_def path_components_def last_normal_def keep_if_def)
  moreover have "receipt_source_path p \<noteq> []" if "p \<noteq> []"
    using that last_normal_neq_Nil [of p]
    by (auto simp: receipt_source_path_def Let_def keep_if_def split: option.splits)
  ultimately show ?thesis by blast
qed

lemma source_files_ok:
  assumes "\<And>b. length (sha256 E b) = 32"
  shows "(proof_receipt_source_files E read files = [] \<longleftrightarrow> files = []) \<and>
    ((\<exists>f \<in> set (proof_receipt_source_files E read files). file_unreadable f) \<longleftrightarrow>
       (\<exists>f \<in> set files. f = [] \<or> (\<exists>e. read f = Inl e)))"
proof -
  have len: "sha256_hex E b \<noteq> []" for b
    using assms [of b] length_hex_digest [of "sha256 E b"] by (auto simp: sha256_hex_def)
  have "length (proof_receipt_source_files E read files) = length files"
    by (simp add: proof_receipt_source_files_def)
  moreover have "file_unreadable (case read f of
            Inr bytes \<Rightarrow> JObj [(''path'', JStr (receipt_source_path f)), (''sha256'', JStr (sha256_hex E bytes))]
          | Inl err \<Rightarrow> JObj [(''path'', JStr (receipt_source_path f)), (''sha256'', JNull),
                             (''error'', JStr err)]) \<longleftrightarrow> f = [] \<or> (\<exists>e. read f = Inl e)" for f
    by (cases "read f") (auto simp: file_unreadable_def get_str_def len receipt_source_path_Nil)
  ultimately show ?thesis
    by (auto simp: proof_receipt_source_files_def simp flip: length_0_conv)
qed

lemma receipt_goal_progress:
  "receipt_goal_is_progress (JObj [(''stable_goal_id'', i), (''status'', jopt JStr s), (''from_cache'', c),
       (''vacuously_proved'', JBool v), (''fct'', f)]) \<longleftrightarrow>
     (case s of None \<Rightarrow> False | Some x \<Rightarrow> is_proved x) \<and> \<not> v"
  by (cases s) (auto simp: receipt_goal_is_progress_def get_str_def flag_of_def jopt_def)

lemma contents_error_None:
  assumes "pointer_array r [''subject'', ''files''] = Some files" "jget r ''goals'' = Some (JArr goals)"
  shows "contents_error r goal_total function = None \<longleftrightarrow>
    files \<noteq> [] \<and> (\<forall>x \<in> set files. \<not> file_unreadable x) \<and> goals \<noteq> [] \<and>
    of_nat (length goals) = goal_total \<and> (\<forall>g \<in> set goals. receipt_goal_is_progress g) \<and>
    pointer_str r [''subject'', ''tool''] = Some ''check'' \<and> verdict_error r = None \<and>
    scope_error r function = None"
proof -
  have "or_else (verdict_error r) s = None \<longleftrightarrow> verdict_error r = None \<and> s = None" for s
    by (cases "verdict_error r") simp_all
  then show ?thesis using assms by (simp add: contents_error_def)
qed
lemma receipt_of_check_evidence:
  assumes "\<And>b. length (sha256 E b) = 32"
  shows "proof_receipt_evidence_error E (check_proof_receipt E A c) goal_total function = None \<longleftrightarrow>
    cr_receipt_files c \<noteq> [] \<and>
    (\<forall>f \<in> set (cr_receipt_files c). f \<noteq> [] \<and> (\<exists>bytes. ra_read A f = Inr bytes)) \<and>
    cr_goals c \<noteq> [] \<and> of_nat (length (cr_goals c)) = goal_total \<and>
    (\<forall>g \<in> set (proof_receipt_goals E (cr_goals c) (cr_stable_scope c) (cr_properties c)).
       receipt_goal_is_progress g) \<and>
    cr_verdict c = JStr ''proved'' \<and>
    scope_error (JObj [(''wp'', field_or_null (cr_wp c) ''effective_wp_config'')]) function = None"
proof -
  let ?b = "check_receipt_body E A c"
  let ?body = "proof_receipt_body E (ra_nonce A) ?b"
  define r where "r = proof_receipt_with_hash E ?body"
  note f = body_fields [OF r_def]
  have b: "rb_source_files ?b = proof_receipt_source_files E (ra_read A) (cr_receipt_files c)"
      "rb_tool ?b = ''check''"
      "rb_goals ?b = proof_receipt_goals E (cr_goals c) (cr_stable_scope c) (cr_properties c)"
      "jget (rb_reported ?b) ''verdict'' = Some (cr_verdict c)"
      "rb_wp_config ?b = field_or_null (cr_wp c) ''effective_wp_config''"
    by (simp_all add: check_receipt_body_def Let_def)
  have sealed: "proof_receipt_evidence_error E r goal_total function = contents_error r goal_total function"
    using f(1,2,3) by (auto simp: proof_receipt_evidence_error_def Let_def r_def shape_of_receipt)
  have verdict: "verdict_error r = None \<longleftrightarrow> cr_verdict c = JStr ''proved''"
    using f(7) b(4) by (cases "cr_verdict c") (auto simp: verdict_error_def pointer_str_def)
  have scope: "scope_error r function = scope_error (JObj [(''wp'', rb_wp_config ?b)]) function"
    using f(8) by (simp add: scope_error_def pointer_str_def pointer_array_def)
  have files: "(rb_source_files ?b = [] \<or> (\<exists>x \<in> set (rb_source_files ?b). file_unreadable x)) \<longleftrightarrow>
      \<not> (cr_receipt_files c \<noteq> [] \<and> (\<forall>x \<in> set (cr_receipt_files c). x \<noteq> [] \<and> (\<exists>bytes. ra_read A x = Inr bytes)))"
  proof -
    have "(\<exists>e. ra_read A x = Inl e) \<longleftrightarrow> \<not> (\<exists>bytes. ra_read A x = Inr bytes)" for x by (cases "ra_read A x") auto
    then show ?thesis using source_files_ok [OF assms, of "ra_read A" "cr_receipt_files c"] b(1) by auto
  qed
  have len: "length (rb_goals ?b) = length (cr_goals c)" by (simp add: b(3) proof_receipt_goals_def)
  then have ne: "rb_goals ?b = [] \<longleftrightarrow> cr_goals c = []" by (metis length_0_conv)
  have "contents_error r goal_total function = None \<longleftrightarrow>
     \<not> (rb_source_files ?b = [] \<or> (\<exists>x \<in> set (rb_source_files ?b). file_unreadable x)) \<and>
     rb_goals ?b \<noteq> [] \<and> of_nat (length (rb_goals ?b)) = goal_total \<and>
     (\<forall>g \<in> set (rb_goals ?b). receipt_goal_is_progress g) \<and> verdict_error r = None \<and>
     scope_error r function = None"
    unfolding contents_error_None [OF f(4,5)] f(6) b(2) by simp
  then have "contents_error r goal_total function = None \<longleftrightarrow>
    cr_receipt_files c \<noteq> [] \<and>
    (\<forall>x \<in> set (cr_receipt_files c). x \<noteq> [] \<and> (\<exists>bytes. ra_read A x = Inr bytes)) \<and>
    cr_goals c \<noteq> [] \<and> of_nat (length (cr_goals c)) = goal_total \<and>
    (\<forall>g \<in> set (rb_goals ?b). receipt_goal_is_progress g) \<and> cr_verdict c = JStr ''proved'' \<and>
    scope_error (JObj [(''wp'', rb_wp_config ?b)]) function = None"
    unfolding files ne len verdict scope by (simp only: not_not conj_assoc)
  then show ?thesis unfolding check_proof_receipt_def r_def [symmetric] sealed b(3,5) by simp
qed

section \<open>Properties\<close>

text \<open>C3: The receipt a check writes is accepted as evidence exactly when it should be. For the receipt
  this build stamps after a check, \<open>proof_receipt_evidence_error\<close> answers nothing iff there is at least
  one source file, every one could be read, there are goals, as many as stated (modulo 2^32, the cast of
  the code), every goal is proved and not vacuously, the verdict is \<open>proved\<close>, and the WP configuration
  names the function, no \<open>prop\<close> filter and not the sandbox. In particular the stamp and the field shape
  never refuse a receipt of this build.\<close>

theorem check_receipt_accepted:
  assumes "\<And>b. length (sha256 E b) = 32"
  shows "proof_receipt_evidence_error E (check_proof_receipt E A c) goal_total function = None \<longleftrightarrow>
    cr_receipt_files c \<noteq> [] \<and>
    (\<forall>f \<in> set (cr_receipt_files c). f \<noteq> [] \<and> (\<exists>bytes. ra_read A f = Inr bytes)) \<and>
    cr_goals c \<noteq> [] \<and> of_nat (length (cr_goals c)) = goal_total \<and>
    (\<forall>g \<in> set (proof_receipt_goals E (cr_goals c) (cr_stable_scope c) (cr_properties c)).
       receipt_goal_is_progress g) \<and>
    cr_verdict c = JStr ''proved'' \<and>
    scope_error (JObj [(''wp'', field_or_null (cr_wp c) ''effective_wp_config'')]) function = None"
  by (rule receipt_of_check_evidence [OF assms])

definition demo_externals :: externals where
  "demo_externals = \<lparr>sha256 = (\<lambda>b. take 32 (b @ replicate 32 (CHR ''z''))), to_vec = (\<lambda>_. ''x''),
     hash_re = (\<lambda>_. None), canonical_ast_for_digest = id\<rparr>"

definition demo_answers :: run_answers where
  "demo_answers = \<lparr>ra_read = (\<lambda>_. Inr ''int x;''), ra_environment = JObj [], ra_context_of = (\<lambda>_. None),
     ra_print_source = Printed ''int x;'', ra_project_load = JNull, ra_nonce = ''n''\<rparr>"

definition demo_check :: check_receipt_inputs where
  "demo_check = \<lparr>cr_verdict = JStr ''proved'', cr_incomplete = JArr [], cr_receipt_files = [''a.c''],
     cr_eva = JObj [],
     cr_wp = JObj [(''effective_wp_config'', JObj [(''functions'', JArr [JStr ''f''])])],
     cr_goals = [JObj [(''name'', JStr ''post''), (''status'', JStr ''VALID''), (''fct'', JStr ''f''), (''hash_label'', JStr ''en_0123abcd'')]],
     cr_wanted_eva = True, cr_stable_scope = None, cr_properties = []\<rparr>"

lemma check_receipt_accepted_witness:
  "proof_receipt_evidence_error demo_externals (check_proof_receipt demo_externals demo_answers demo_check) 1 ''f'' = None"
proof -
  have len: "length (sha256 demo_externals b) = 32" for b by (simp add: demo_externals_def)
  have goals: "\<forall>g \<in> set (proof_receipt_goals demo_externals (cr_goals demo_check) None []). receipt_goal_is_progress g"
    by code_simp
  have scope: "scope_error (JObj [(''wp'', field_or_null (cr_wp demo_check) ''effective_wp_config'')]) ''f'' = None"
    by code_simp
  show ?thesis
    using check_receipt_accepted [OF len, of demo_answers demo_check 1 "''f''"] goals scope
    by (simp add: demo_check_def demo_answers_def)
qed

text \<open>A stamp seals a receipt. Of two receipts that carry the same stamp and are both accepted as
  evidence, the unstamped contents are the same value, so a receipt altered in any field other than the
  stamp is refused. The hypotheses are what a digest of printed JSON rests on: the two digests collide
  only if the printed texts are the same, and the printer prints the two values apart.\<close>

theorem stamp_seals_receipt:
  assumes accepted: "proof_receipt_evidence_error E r1 n1 f1 = None" "proof_receipt_evidence_error E r2 n2 f2 = None"
    and objects: "as_object r1 = Some o1" "as_object r2 = Some o2"
    and stamps: "get_str r1 ''sha256'' = get_str r2 ''sha256''"
    and no_collision: "sha256 E (to_vec E (receipt_unstamped o1)) = sha256 E (to_vec E (receipt_unstamped o2)) \<Longrightarrow>
      to_vec E (receipt_unstamped o1) = to_vec E (receipt_unstamped o2)"
    and printed_apart: "to_vec E (receipt_unstamped o1) = to_vec E (receipt_unstamped o2) \<Longrightarrow>
      receipt_unstamped o1 = receipt_unstamped o2"
  shows "receipt_unstamped o1 = receipt_unstamped o2"
proof -
  have stamp: "get_str r ''sha256'' = Some (sha256_hex E (to_vec E (receipt_unstamped obj)))"
    if "proof_receipt_evidence_error E r n f = None" "as_object r = Some obj" for r n f obj
    using that by (auto simp: proof_receipt_evidence_error_def Let_def split: if_splits option.splits)
  have "sha256_hex E (to_vec E (receipt_unstamped o1)) = sha256_hex E (to_vec E (receipt_unstamped o2))"
    using stamp [OF accepted(1) objects(1)] stamp [OF accepted(2) objects(2)] stamps by simp
  then show ?thesis
    unfolding sha256_hex_def using hex_digest_inj no_collision printed_apart by metis
qed

lemma demo_accepted:
  "proof_receipt_evidence_error demo_externals (check_proof_receipt demo_externals demo_answers demo_check) 1 ''f'' = None"
proof -
  have len: "length (sha256 demo_externals b) = 32" for b by (simp add: demo_externals_def)
  have goals: "\<forall>g \<in> set (proof_receipt_goals demo_externals (cr_goals demo_check) None []). receipt_goal_is_progress g"
    by code_simp
  have scope: "scope_error (JObj [(''wp'', field_or_null (cr_wp demo_check) ''effective_wp_config'')]) ''f'' = None"
    by code_simp
  show ?thesis
    using receipt_of_check_evidence [OF len, of demo_answers demo_check 1 "''f''"] goals scope
    by (simp add: demo_check_def demo_answers_def)
qed

lemma stamp_seals_receipt_witness:
  "\<exists>r obj. proof_receipt_evidence_error demo_externals r 1 ''f'' = None \<and> as_object r = Some obj \<and>
     receipt_unstamped obj = receipt_unstamped obj"
proof -
  define r where "r = check_proof_receipt demo_externals demo_answers demo_check"
  have acc: "proof_receipt_evidence_error demo_externals r 1 ''f'' = None"
    unfolding r_def by (rule demo_accepted)
  obtain obj where obj: "as_object r = Some obj"
    using body_fields(3) [of r demo_externals "ra_nonce demo_answers" "check_receipt_body demo_externals demo_answers demo_check"]
    by (auto simp: r_def check_proof_receipt_def)
  have "receipt_unstamped obj = receipt_unstamped obj"
    by (rule stamp_seals_receipt [OF acc acc obj obj]) simp_all
  then show ?thesis using acc obj by blast
qed
end
