(* ===== verification/Session.thy ===== *)
theory Session
  imports Evidence
begin

text \<open>
  The session state (src/src/state.rs): the program's functions, globals and call graph as Frama-C
  reported them, the conclusions stored about functions with the staleness bookkeeping that keeps them
  honest, and the cache of receipts this session issued.
\<close>

section \<open>Data\<close>

record function_info =
  fi_name :: string
  fi_marker :: string
  fi_declaration :: string
  fi_signature :: string
  fi_file :: string
  fi_line :: u32
  fi_defined :: bool

record global_info =
  gi_name :: string
  gi_marker :: string
  gi_declaration :: string
  gi_typ :: string
  gi_file :: string
  gi_line :: u32

record call_edge =
  ce_src :: string
  ce_dst :: string
  ce_kind :: string

record call_vertex =
  cv_name :: string
  cv_declaration :: string

datatype verification_status = InProgress | Verified | Failed | Unsound | BlockedOnCallee

datatype annotation_source = Generated

record annotation_entry =
  ae_hash_label :: string
  ae_user_label :: "string option"
  ae_kind :: string
  ae_acsl :: string
  ae_stmt_id :: "64 word option"
  ae_derived_from :: string
  ae_source :: annotation_source
  ae_purpose :: string
  ae_proof_target :: "string option"
  ae_wp_status :: "string option"
  ae_wp_time_ms :: "u32 option"
  ae_wp_prover :: "string option"

record failed_source_assert =
  fa_stmt_id :: u32
  fa_acsl :: string
  fa_kind :: string

record wp_goal_summary =
  ws_total :: u32
  ws_valid :: u32
  ws_unknown :: u32
  ws_timeout :: u32
  ws_failed :: u32
  ws_model :: "string option"
  ws_timeout_used :: "u32 option"
  ws_recorded_at_retry :: "u32 option"
  ws_failed_goal_labels :: "string list"
  ws_failed_source_asserts :: "failed_source_assert list"

record stale_dependency =
  sd_callee :: string
  sd_recorded_specs_hash :: string
  sd_current_specs_hash :: string

record stale_proof_environment =
  se_recorded_env_hash :: string
  se_current_env_hash :: string

record function_verification_state =
  fv_function :: string
  fv_status :: verification_status
  fv_specs :: "annotation_entry list"
  fv_wp_summary :: "wp_goal_summary option"
  fv_notes :: string
  fv_callees :: "string list"
  fv_callee_spec_hashes :: "(string, string) kv"
  fv_stale_dependencies :: "stale_dependency list"
  fv_proof_receipt :: "json option"
  fv_verify_profile :: "string option"
  fv_reproduce :: "string option"
  fv_proof_env_hash :: "string option"
  fv_stale_proof_environment :: "stale_proof_environment option"
  fv_ast_stmt_count :: "u32 option"
  fv_sandbox_clean :: bool
  fv_annotation_count :: u32
  fv_sandbox_deleted :: bool

record function_conclusion_update =
  up_function :: string
  up_status :: "verification_status option"
  up_specs :: "annotation_entry list option"
  up_wp_summary :: "wp_goal_summary option"
  up_notes :: "string option"
  up_callees :: "string list option"
  up_proof_receipt :: "json option"
  up_verify_profile :: "string option"
  up_reproduce :: "string option"

record conclusion_summary =
  cs_function :: string
  cs_status :: verification_status
  cs_wp_summary :: "wp_goal_summary option"
  cs_verified_with :: "json option"

record verification_profile =
  vp_sources :: "string list"
  vp_functions :: "string list"
  vp_model :: "string option"
  vp_machdep :: "string option"
  vp_include_paths :: "string list"
  vp_defines :: "string list"
  vp_force_includes :: "string list"
  vp_provers :: "string list"
  vp_timeout_seconds :: "u32 option"
  vp_isystem_paths :: "string list"
  vp_nostdinc :: "bool option"
  vp_min_goals :: "u32 option"
  vp_build_gates :: "string list"
  vp_rte :: "bool option"
  vp_rte_unsigned :: "bool option"
  vp_rte_pointer :: "bool option"
  vp_builtin_models :: "bool option"
  vp_reproduce :: "string option"

record marker_location =
  ml_marker_kind :: string
  ml_marker :: string
  ml_function_marker :: "string option"
  ml_function_name :: "string option"
  ml_kinstr_marker :: "string option"
  ml_source_file :: "string option"
  ml_source_line :: "u64 option"

record stale_marker =
  sm_previous :: marker_location
  sm_current :: marker_location

text \<open>The project's own verification state is written by the topological order; the session only holds it.\<close>

record session_state =
  ss_project_loaded :: bool
  ss_eva_completed :: bool
  ss_wp_completed :: bool
  ss_functions :: "(string, function_info) kv"
  ss_stale_markers :: "(string, stale_marker) kv"
  ss_globals :: "(string, global_info) kv"
  ss_callgraph_edges :: "call_edge list"
  ss_callgraph_vertices :: "call_vertex list"
  ss_conclusions :: "(string, function_verification_state) kv"
  ss_verification_profiles :: "(string, verification_profile) kv"
  ss_verification_profiles_source :: "string option"
  ss_seen_receipts :: "(string \<times> json) list"

definition empty_session :: session_state where
  "empty_session = \<lparr>ss_project_loaded = False, ss_eva_completed = False, ss_wp_completed = False,
     ss_functions = [], ss_stale_markers = [], ss_globals = [], ss_callgraph_edges = [],
     ss_callgraph_vertices = [], ss_conclusions = [], ss_verification_profiles = [],
     ss_verification_profiles_source = None, ss_seen_receipts = []\<rparr>"

section \<open>What Frama-C reported\<close>

definition index_str :: "json \<Rightarrow> string list \<Rightarrow> string" where
  "index_str v p = unwrap_or (pointer_str v p) []"

definition index_line :: "json \<Rightarrow> u32" where
  "index_line v = ucast (unwrap_or (Option.bind (pointer v [''sloc'', ''line'']) as_u64) 0)"

definition function_entry :: "json \<Rightarrow> function_info" where
  "function_entry e =
     \<lparr>fi_name = index_str e [''name''], fi_marker = index_str e [''key''], fi_declaration = index_str e [''decl''],
      fi_signature = index_str e [''signature''], fi_file = index_str e [''sloc'', ''file''],
      fi_line = index_line e, fi_defined = unwrap_or (as_bool (jindex e ''defined'')) False\<rparr>"

definition update_functions :: "json list \<Rightarrow> session_state \<Rightarrow> session_state" where
  "update_functions entries s =
     s\<lparr>ss_functions := fold (\<lambda>e m. let info = function_entry e
          in if fi_name info = [] then m else AList.update (fi_name info) info m) entries []\<rparr>"

definition resolve_function :: "session_state \<Rightarrow> string \<Rightarrow> function_info option" where
  "resolve_function s name = map_of (ss_functions s) name"

definition global_entry :: "json \<Rightarrow> global_info" where
  "global_entry e =
     \<lparr>gi_name = index_str e [''name''], gi_marker = index_str e [''key''], gi_declaration = index_str e [''decl''],
      gi_typ = index_str e [''type''], gi_file = index_str e [''sloc'', ''file''], gi_line = index_line e\<rparr>"

definition update_globals :: "json list \<Rightarrow> session_state \<Rightarrow> session_state" where
  "update_globals entries s =
     s\<lparr>ss_globals := fold (\<lambda>e m. let info = global_entry e
          in if gi_name info = [] then m else AList.update (gi_name info) info m) entries []\<rparr>"

definition resolve_global :: "session_state \<Rightarrow> string \<Rightarrow> global_info option" where
  "resolve_global s name = map_of (ss_globals s) name"

definition edge_entry :: "json \<Rightarrow> call_edge option" where
  "edge_entry e =
     (let src = index_str e [''src'']; dst = index_str e [''dst'']
      in if src \<noteq> [] \<and> dst \<noteq> []
         then Some \<lparr>ce_src = src, ce_dst = dst, ce_kind = index_str e [''kind'']\<rparr> else None)"

definition vertex_entry :: "json \<Rightarrow> call_vertex option" where
  "vertex_entry v =
     (let name = index_str v [''name'']
      in if name = [] then None else Some \<lparr>cv_name = name, cv_declaration = index_str v [''decl'']\<rparr>)"

definition update_callgraph :: "json \<Rightarrow> session_state \<Rightarrow> session_state" where
  "update_callgraph graph s =
     s\<lparr>ss_callgraph_edges := List.map_filter edge_entry (array_or_empty (jget graph ''edges'')),
       ss_callgraph_vertices := List.map_filter vertex_entry (array_or_empty (jget graph ''vertices''))\<rparr>"

definition get_callers :: "session_state \<Rightarrow> string \<Rightarrow> string list" where
  "get_callers s decl = map ce_src (filter (\<lambda>e. ce_dst e = decl) (ss_callgraph_edges s))"

definition get_callees :: "session_state \<Rightarrow> string \<Rightarrow> string list" where
  "get_callees s decl = map ce_dst (filter (\<lambda>e. ce_src e = decl) (ss_callgraph_edges s))"

definition resolve_decl_to_name :: "session_state \<Rightarrow> string \<Rightarrow> string option" where
  "resolve_decl_to_name s decl =
     map_option cv_name (find (\<lambda>v. cv_declaration v = decl) (ss_callgraph_vertices s))"

definition callgraph_by_name :: "session_state \<Rightarrow> string list \<times> (string \<times> string) list" where
  "callgraph_by_name s =
     (map cv_name (ss_callgraph_vertices s),
      List.map_filter (\<lambda>e.
        case (resolve_decl_to_name s (ce_src e), resolve_decl_to_name s (ce_dst e)) of
          (Some a, Some b) \<Rightarrow> Some (a, b)
        | _ \<Rightarrow> None) (ss_callgraph_edges s))"

definition invalidate_all :: "session_state \<Rightarrow> session_state" where
  "invalidate_all s =
     s\<lparr>ss_project_loaded := False, ss_eva_completed := False, ss_wp_completed := False,
       ss_functions := [], ss_globals := [], ss_callgraph_edges := [], ss_callgraph_vertices := [],
       ss_seen_receipts := []\<rparr>"

definition set_stale_markers :: "(string, stale_marker) kv \<Rightarrow> session_state \<Rightarrow> session_state" where
  "set_stale_markers m s = s\<lparr>ss_stale_markers := m\<rparr>"

definition find_stale_marker :: "session_state \<Rightarrow> string \<Rightarrow> stale_marker option" where
  "find_stale_marker s marker = map_of (ss_stale_markers s) marker"

text \<open>What \<open>reload_project\<close> does with a profile map it accepted.\<close>

definition register_profiles ::
    "(string, verification_profile) kv \<Rightarrow> string option \<Rightarrow> session_state \<Rightarrow> session_state" where
  "register_profiles profiles source s =
     s\<lparr>ss_verification_profiles := profiles, ss_verification_profiles_source := source\<rparr>"

definition set_eva_completed :: "session_state \<Rightarrow> session_state" where
  "set_eva_completed s = s\<lparr>ss_eva_completed := True\<rparr>"

definition set_wp_completed :: "session_state \<Rightarrow> session_state" where
  "set_wp_completed s = s\<lparr>ss_wp_completed := True\<rparr>"

section \<open>Receipts of this session\<close>

definition seen_receipt_limit :: nat where
  "seen_receipt_limit = 32"

definition remember_receipt :: "string \<Rightarrow> json \<Rightarrow> session_state \<Rightarrow> session_state" where
  "remember_receipt sha receipt s =
     (if \<exists>p \<in> set (ss_seen_receipts s). fst p = sha then s
      else let kept = (if seen_receipt_limit \<le> length (ss_seen_receipts s)
                       then tl (ss_seen_receipts s) else ss_seen_receipts s)
           in s\<lparr>ss_seen_receipts := kept @ [(sha, receipt)]\<rparr>)"

definition find_receipt_body :: "session_state \<Rightarrow> string \<Rightarrow> json option" where
  "find_receipt_body s sha =
     keep_if (\<lambda>r. r \<noteq> JNull) (map_option snd (find (\<lambda>p. fst p = sha) (ss_seen_receipts s)))"

definition find_receipt_goals :: "session_state \<Rightarrow> string \<Rightarrow> json list option" where
  "find_receipt_goals s sha =
     Option.bind (Option.bind (find_receipt_body s sha) (\<lambda>r. jget r ''goals'')) as_array"

section \<open>Conclusions\<close>

definition i64_json :: "64 word \<Rightarrow> json" where
  "i64_json n = JNum (if 0 \<le> sint n then PosInt n else NegInt n)"

definition opt_field :: "string \<Rightarrow> ('a \<Rightarrow> json) \<Rightarrow> 'a option \<Rightarrow> fields" where
  "opt_field k f v = (case v of None \<Rightarrow> [] | Some x \<Rightarrow> [(k, f x)])"

definition u32_json :: "u32 \<Rightarrow> json" where
  "u32_json n = JNum (PosInt (ucast n))"

text \<open>The derived \<open>Serialize\<close> of an annotation: an absent optional field is skipped.\<close>

definition annotation_json :: "annotation_entry \<Rightarrow> json" where
  "annotation_json a =
     JObj ([(''hash_label'', JStr (ae_hash_label a))] @ opt_field ''user_label'' JStr (ae_user_label a) @
       [(''kind'', JStr (ae_kind a)), (''acsl'', JStr (ae_acsl a))] @
       opt_field ''stmt_id'' i64_json (ae_stmt_id a) @
       [(''derived_from'', JStr (ae_derived_from a)), (''source'', JStr ''generated''),
        (''purpose'', JStr (ae_purpose a))] @
       opt_field ''proof_target'' JStr (ae_proof_target a) @ opt_field ''wp_status'' JStr (ae_wp_status a) @
       opt_field ''wp_time_ms'' u32_json (ae_wp_time_ms a) @ opt_field ''wp_prover'' JStr (ae_wp_prover a))"

definition specs_hash :: "externals \<Rightarrow> annotation_entry list \<Rightarrow> string" where
  "specs_hash E specs = sha256_hex E (to_vec E (JArr (map annotation_json specs)))"

type_synonym conclusions = "(string, function_verification_state) kv"

definition specs_hash_for_function :: "externals \<Rightarrow> conclusions \<Rightarrow> string \<Rightarrow> string" where
  "specs_hash_for_function E cs function =
     (case map_of cs function of None \<Rightarrow> specs_hash E [] | Some entry \<Rightarrow> specs_hash E (fv_specs entry))"

definition proof_environment_hash :: "externals \<Rightarrow> json \<Rightarrow> string" where
  "proof_environment_hash E receipt =
     sha256_hex E (case jget receipt ''environment'' of None \<Rightarrow> [] | Some env \<Rightarrow> to_vec E env)"

definition empty_conclusion_static :: "string \<Rightarrow> function_verification_state" where
  "empty_conclusion_static function =
     \<lparr>fv_function = function, fv_status = InProgress, fv_specs = [], fv_wp_summary = None, fv_notes = [],
      fv_callees = [], fv_callee_spec_hashes = [], fv_stale_dependencies = [], fv_proof_receipt = None,
      fv_verify_profile = None, fv_reproduce = None, fv_proof_env_hash = None,
      fv_stale_proof_environment = None, fv_ast_stmt_count = None, fv_sandbox_clean = True,
      fv_annotation_count = 0, fv_sandbox_deleted = False\<rparr>"

datatype conclusion_error =
    StaleCalleeContracts | StaleEnvironment | MissingCalleeHash string | MissingWpSummary
  | SummaryNotFullyValid | MissingProofReceipt | BadEvidence evidence_error

definition summary_fully_valid :: "wp_goal_summary \<Rightarrow> bool" where
  "summary_fully_valid w \<longleftrightarrow>
     ws_total w \<noteq> 0 \<and> ws_valid w = ws_total w \<and> ws_unknown w = 0 \<and> ws_timeout w = 0 \<and> ws_failed w = 0"

definition validate_verified_conclusion ::
    "externals \<Rightarrow> function_verification_state \<Rightarrow> conclusion_error option" where
  "validate_verified_conclusion E entry =
     (if fv_status entry \<noteq> Verified then None
      else if fv_stale_dependencies entry \<noteq> [] then Some StaleCalleeContracts
      else if fv_stale_proof_environment entry \<noteq> None then Some StaleEnvironment
      else (case find (\<lambda>c. map_of (fv_callee_spec_hashes entry) c = None) (fv_callees entry) of
          Some callee \<Rightarrow> Some (MissingCalleeHash callee)
        | None \<Rightarrow>
            (case fv_wp_summary entry of
               None \<Rightarrow> Some MissingWpSummary
             | Some summary \<Rightarrow>
                 if \<not> summary_fully_valid summary then Some SummaryNotFullyValid
                 else (case fv_proof_receipt entry of
                     None \<Rightarrow> Some MissingProofReceipt
                   | Some receipt \<Rightarrow>
                       map_option BadEvidence
                         (proof_receipt_evidence_error E receipt (ws_total summary) (fv_function entry))))))"

text \<open>The merge: a present field overwrites, an absent one keeps what was stored.\<close>

definition merge_update ::
    "externals \<Rightarrow> conclusions \<Rightarrow> function_conclusion_update \<Rightarrow> function_verification_state" where
  "merge_update E cs u =
     (let e0 = unwrap_or (map_of cs (up_function u)) (empty_conclusion_static (up_function u));
          e1 = e0\<lparr>fv_status := unwrap_or (up_status u) (fv_status e0),
                  fv_specs := unwrap_or (up_specs u) (fv_specs e0)\<rparr>;
          e2 = e1\<lparr>fv_annotation_count := of_nat (length (fv_specs e1)),
                  fv_wp_summary := or_else (up_wp_summary u) (fv_wp_summary e1),
                  fv_notes := unwrap_or (up_notes u) (fv_notes e1),
                  fv_callees := unwrap_or (up_callees u) (fv_callees e1)\<rparr>;
          e3 = (case up_proof_receipt u of
                  None \<Rightarrow> e2
                | Some r \<Rightarrow> e2\<lparr>fv_proof_receipt := Some r,
                    fv_proof_env_hash := Some (proof_environment_hash E r),
                    fv_stale_proof_environment := None\<rparr>);
          e4 = (case up_verify_profile u of
                  None \<Rightarrow> e3
                | Some v \<Rightarrow> e3\<lparr>fv_verify_profile := Some v, fv_reproduce := up_reproduce u\<rparr>)
      in case up_callees u of
           None \<Rightarrow> e4
         | Some _ \<Rightarrow> e4\<lparr>fv_callee_spec_hashes :=
               fold (\<lambda>c m. AList.update c (specs_hash_for_function E cs c) m) (fv_callees e4) [],
               fv_stale_dependencies := []\<rparr>)"

text \<open>The environment loop: what the body does to one other conclusion.\<close>

definition mark_environment :: "string \<Rightarrow> function_verification_state \<Rightarrow> function_verification_state" where
  "mark_environment current_env_hash e =
     (case fv_proof_env_hash e of
        None \<Rightarrow> e
      | Some recorded \<Rightarrow>
          if recorded = current_env_hash then e\<lparr>fv_stale_proof_environment := None\<rparr>
          else e\<lparr>fv_stale_proof_environment :=
                   Some \<lparr>se_recorded_env_hash = recorded, se_current_env_hash = current_env_hash\<rparr>,
                 fv_status := (if fv_status e = Verified then InProgress else fv_status e)\<rparr>)"

text \<open>
  The body of both loops: skip the function itself and a name that is gone, rewrite the conclusion, and
  note the name when the field the loop watches changed.
\<close>

definition touch_step ::
    "string \<Rightarrow> (function_verification_state \<Rightarrow> function_verification_state) \<Rightarrow>
     (function_verification_state \<Rightarrow> 'a) \<Rightarrow> string \<Rightarrow> conclusions \<times> string list \<Rightarrow> conclusions \<times> string list" where
  "touch_step function g watched name acc =
     (case acc of (cs, touched) \<Rightarrow>
        if name = function then (cs, touched)
        else (case map_of cs name of
            None \<Rightarrow> (cs, touched)
          | Some e \<Rightarrow>
              (AList.update name (g e) cs,
               if watched (g e) \<noteq> watched e then touched @ [name] else touched)))"

definition environment_step ::
    "string \<Rightarrow> string \<Rightarrow> string \<Rightarrow> conclusions \<times> string list \<Rightarrow> conclusions \<times> string list" where
  "environment_step function current_env_hash =
     touch_step function (mark_environment current_env_hash) fv_stale_proof_environment"

text \<open>The callee loop: the first dependency on the callee is rewritten, or one is added.\<close>

fun set_dependency :: "string \<Rightarrow> string \<Rightarrow> string \<Rightarrow> stale_dependency list \<Rightarrow> stale_dependency list" where
  "set_dependency callee recorded current [] =
     [\<lparr>sd_callee = callee, sd_recorded_specs_hash = recorded, sd_current_specs_hash = current\<rparr>]"
| "set_dependency callee recorded current (d # ds) =
     (if sd_callee d = callee
      then d\<lparr>sd_recorded_specs_hash := recorded, sd_current_specs_hash := current\<rparr> # ds
      else d # set_dependency callee recorded current ds)"

definition mark_callee ::
    "string \<Rightarrow> string \<Rightarrow> function_verification_state \<Rightarrow> function_verification_state" where
  "mark_callee function current_hash e =
     (case map_of (fv_callee_spec_hashes e) function of
        None \<Rightarrow> e
      | Some recorded \<Rightarrow>
          let deps = (if recorded = current_hash
                then filter (\<lambda>d. sd_callee d \<noteq> function) (fv_stale_dependencies e)
                else set_dependency function recorded current_hash (fv_stale_dependencies e))
          in e\<lparr>fv_stale_dependencies := deps,
               fv_status := (if deps \<noteq> fv_stale_dependencies e \<and> deps \<noteq> [] \<and> fv_status e = Verified
                 then InProgress else fv_status e)\<rparr>)"

definition callee_step ::
    "string \<Rightarrow> string \<Rightarrow> string \<Rightarrow> conclusions \<times> string list \<Rightarrow> conclusions \<times> string list" where
  "callee_step function current_hash =
     touch_step function (mark_callee function current_hash) fv_stale_dependencies"

definition store_into ::
    "externals \<Rightarrow> conclusions \<Rightarrow> function_conclusion_update \<Rightarrow> function_verification_state \<Rightarrow>
     conclusions \<times> string list" where
  "store_into E cs0 u entry =
     (let function = up_function u;
          cs1 = AList.update function entry cs0;
          (cs2, touched2) = (case up_proof_receipt u of
              None \<Rightarrow> (cs1, [function])
            | Some r \<Rightarrow> fold (environment_step function (proof_environment_hash E r)) (map fst cs1) (cs1, [function]))
      in fold (callee_step function (specs_hash_for_function E cs2 function)) (map fst cs2) (cs2, touched2))"

definition store_conclusion ::
    "externals \<Rightarrow> function_conclusion_update \<Rightarrow> session_state \<Rightarrow>
     (conclusion_error + string list) \<times> session_state" where
  "store_conclusion E u s =
     (let entry = merge_update E (ss_conclusions s) u
      in case validate_verified_conclusion E entry of
           Some err \<Rightarrow> (Inl err, s)
         | None \<Rightarrow> (case store_into E (ss_conclusions s) u entry of
             (cs, touched) \<Rightarrow> (Inr touched, s\<lparr>ss_conclusions := cs\<rparr>)))"

definition verified_with :: "function_verification_state \<Rightarrow> json option" where
  "verified_with c =
     (if fv_status c \<noteq> Verified then None
      else map_option (\<lambda>receipt.
        JObj [(''model'', jopt id (or_else (pointer receipt [''wp'', ''model''])
                 (Option.bind (fv_wp_summary c) (\<lambda>w. map_option JStr (ws_model w))))),
              (''provers'', jopt id (pointer receipt [''wp'', ''provers'', ''effective''])),
              (''timeout_seconds'', jopt id (or_else (pointer receipt [''wp'', ''timeout_seconds'', ''effective''])
                 (Option.bind (fv_wp_summary c) (\<lambda>w. map_option u32_json (ws_timeout_used w))))),
              (''assumed_callee_contracts'', JArr (map JStr (fv_callees c))),
              (''proof_receipt_sha256'', jopt id (jget receipt ''sha256'')),
              (''verify_profile'', jopt JStr (fv_verify_profile c)),
              (''reproduce'', jopt JStr (fv_reproduce c))]) (fv_proof_receipt c))"

definition get_conclusion :: "session_state \<Rightarrow> string \<Rightarrow> function_verification_state option" where
  "get_conclusion s function = map_of (ss_conclusions s) function"

definition list_conclusions :: "verification_status option \<Rightarrow> session_state \<Rightarrow> conclusion_summary list" where
  "list_conclusions status_filter s =
     map (\<lambda>c. \<lparr>cs_function = fv_function c, cs_status = fv_status c, cs_wp_summary = fv_wp_summary c,
               cs_verified_with = verified_with c\<rparr>)
       (filter (\<lambda>c. case status_filter of None \<Rightarrow> True | Some st \<Rightarrow> fv_status c = st)
         (map snd (ss_conclusions s)))"

section \<open>Sandbox events\<close>

definition modify_conclusion ::
    "(function_verification_state \<Rightarrow> function_verification_state) \<Rightarrow> string \<Rightarrow> session_state \<Rightarrow> session_state" where
  "modify_conclusion f function s =
     (case map_of (ss_conclusions s) function of
        None \<Rightarrow> s
      | Some e \<Rightarrow> s\<lparr>ss_conclusions := AList.update function (f e) (ss_conclusions s)\<rparr>)"

definition on_sandbox_created :: "string \<Rightarrow> u32 option \<Rightarrow> session_state \<Rightarrow> session_state" where
  "on_sandbox_created function ast_stmt_count s =
     modify_conclusion (\<lambda>e. e\<lparr>fv_ast_stmt_count := ast_stmt_count, fv_sandbox_clean := True,
           fv_annotation_count := 0, fv_sandbox_deleted := False,
           fv_status := (if fv_status e \<in> {Verified, Failed, Unsound, BlockedOnCallee}
             then InProgress else fv_status e)\<rparr>) function
       (s\<lparr>ss_conclusions := or_insert function (empty_conclusion_static function) (ss_conclusions s)\<rparr>)"

definition on_annotation_added :: "string \<Rightarrow> session_state \<Rightarrow> session_state" where
  "on_annotation_added function s =
     modify_conclusion (\<lambda>e. e\<lparr>fv_sandbox_clean := False,
         fv_annotation_count := (if fv_annotation_count e = - 1 then - 1
           else fv_annotation_count e + 1)\<rparr>) function s"

definition on_sandbox_deleted :: "string \<Rightarrow> session_state \<Rightarrow> session_state" where
  "on_sandbox_deleted function s = modify_conclusion (\<lambda>e. e\<lparr>fv_sandbox_deleted := True\<rparr>) function s"
section \<open>Lemmas on the loops\<close>

lemma touch_loop_store:
  "fst (fold (touch_step f g w) names (cs, t)) =
     modify_each map_of AList.update (\<lambda>k e. if k = f then e else g e) names cs"
proof (induction names arbitrary: cs t)
  case (Cons n names)
  obtain cs' t' where s: "touch_step f g w n (cs, t) = (cs', t')" by (cases "touch_step f g w n (cs, t)")
  then have "cs' = (case map_of cs n of None \<Rightarrow> cs | Some e \<Rightarrow> AList.update n (if n = f then e else g e) cs)"
    by (auto simp: touch_step_def update_triv split: option.splits if_splits)
  then show ?case using Cons.IH [of cs' t'] by (simp add: modify_each_def s)
qed (simp add: modify_each_def)

lemma touch_loop_lookup:
  assumes "distinct names"
  shows "map_of (fst (fold (touch_step f g w) names (cs, t))) k =
     (if k \<in> set names \<and> k \<noteq> f then map_option g (map_of cs k) else map_of cs k)"
  unfolding touch_loop_store kvs.lookup_modify_each [OF assms]
  by (cases "map_of cs k") auto

lemma touch_loop_distinct:
  "distinct_keys cs \<Longrightarrow> distinct_keys (fst (fold (touch_step f g w) names (cs, t)))"
  unfolding touch_loop_store by (rule kvs.wf_modify_each)

lemma touch_step_touched:
  "set (snd (touch_step f g w n (cs, t))) =
     set t \<union> (if n \<noteq> f \<and> (\<exists>e. map_of cs n = Some e \<and> w (g e) \<noteq> w e) then {n} else {})"
  by (auto simp: touch_step_def split: option.splits)

lemma touch_step_other: "k \<noteq> n \<Longrightarrow> map_of (fst (touch_step f g w n (cs, t))) k = map_of cs k"
  by (auto simp: touch_step_def split: option.splits)

lemma touch_loop_touched:
  "distinct names \<Longrightarrow> set (snd (fold (touch_step f g w) names (cs, t))) =
     set t \<union> {k \<in> set names. k \<noteq> f \<and> (\<exists>e. map_of cs k = Some e \<and> w (g e) \<noteq> w e)}"
proof (induction names arbitrary: cs t)
  case (Cons n names)
  let ?s = "touch_step f g w n (cs, t)"
  have same: "map_of (fst ?s) k = map_of cs k" if "k \<in> set names" for k
    using that Cons.prems by (auto intro: touch_step_other)
  have "set (snd (fold (touch_step f g w) (n # names) (cs, t))) =
      set (snd ?s) \<union> {k \<in> set names. k \<noteq> f \<and> (\<exists>e. map_of (fst ?s) k = Some e \<and> w (g e) \<noteq> w e)}"
    using Cons.IH [of "fst ?s" "snd ?s"] Cons.prems by simp
  also have "{k \<in> set names. k \<noteq> f \<and> (\<exists>e. map_of (fst ?s) k = Some e \<and> w (g e) \<noteq> w e)} =
      {k \<in> set names. k \<noteq> f \<and> (\<exists>e. map_of cs k = Some e \<and> w (g e) \<noteq> w e)}"
    using same by auto
  finally show ?case by (auto simp: touch_step_touched)
qed simp

text \<open>What the two markings leave alone.\<close>

lemma mark_environment_simps [simp]:
  "fv_function (mark_environment h e) = fv_function e" "fv_specs (mark_environment h e) = fv_specs e"
  "fv_wp_summary (mark_environment h e) = fv_wp_summary e" "fv_callees (mark_environment h e) = fv_callees e"
  "fv_callee_spec_hashes (mark_environment h e) = fv_callee_spec_hashes e"
  "fv_stale_dependencies (mark_environment h e) = fv_stale_dependencies e"
  "fv_proof_receipt (mark_environment h e) = fv_proof_receipt e"
  "fv_proof_env_hash (mark_environment h e) = fv_proof_env_hash e"
  by (simp_all add: mark_environment_def split: option.splits)

lemma mark_callee_simps [simp]:
  "fv_function (mark_callee f h e) = fv_function e" "fv_specs (mark_callee f h e) = fv_specs e"
  "fv_wp_summary (mark_callee f h e) = fv_wp_summary e" "fv_callees (mark_callee f h e) = fv_callees e"
  "fv_callee_spec_hashes (mark_callee f h e) = fv_callee_spec_hashes e"
  "fv_proof_receipt (mark_callee f h e) = fv_proof_receipt e"
  "fv_proof_env_hash (mark_callee f h e) = fv_proof_env_hash e"
  "fv_stale_proof_environment (mark_callee f h e) = fv_stale_proof_environment e"
  by (simp_all add: mark_callee_def Let_def split: option.splits)

lemma set_dependency_callees: "sd_callee ` set (set_dependency c r h ds) = insert c (sd_callee ` set ds)"
  by (induction ds) auto

lemma set_dependency_neq_Nil [simp]: "set_dependency c r h ds \<noteq> []"
  by (cases ds) auto

section \<open>The invariant of the conclusions\<close>

text \<open>
  One conclusion: it is stored under its own name, a verified one is validated, the environment hash is
  the stored receipt's, and a callee whose specs are no longer the recorded ones is a stale dependency.
\<close>

definition conclusion_ok :: "externals \<Rightarrow> conclusions \<Rightarrow> string \<Rightarrow> function_verification_state \<Rightarrow> bool" where
  "conclusion_ok E cs name e \<longleftrightarrow>
     fv_function e = name \<and>
     validate_verified_conclusion E e = None \<and>
     fv_proof_env_hash e = map_option (proof_environment_hash E) (fv_proof_receipt e) \<and>
     (\<forall>callee h. callee \<noteq> name \<longrightarrow> map_of (fv_callee_spec_hashes e) callee = Some h \<longrightarrow>
        h \<noteq> specs_hash_for_function E cs callee \<longrightarrow> callee \<in> sd_callee ` set (fv_stale_dependencies e))"

definition same_environment :: "conclusions \<Rightarrow> bool" where
  "same_environment cs \<longleftrightarrow>
     (\<forall>a b ea eb ha hb. map_of cs a = Some ea \<longrightarrow> map_of cs b = Some eb \<longrightarrow>
        fv_stale_proof_environment ea = None \<longrightarrow> fv_stale_proof_environment eb = None \<longrightarrow>
        fv_proof_env_hash ea = Some ha \<longrightarrow> fv_proof_env_hash eb = Some hb \<longrightarrow> ha = hb)"

definition conclusions_inv :: "externals \<Rightarrow> conclusions \<Rightarrow> bool" where
  "conclusions_inv E cs \<longleftrightarrow> distinct_keys cs \<and> same_environment cs \<and>
     (\<forall>name e. map_of cs name = Some e \<longrightarrow> conclusion_ok E cs name e)"

lemma validate_unverified: "fv_status e \<noteq> Verified \<Longrightarrow> validate_verified_conclusion E e = None"
  by (simp add: validate_verified_conclusion_def)

lemma validated_not_stale:
  "validate_verified_conclusion E e = None \<Longrightarrow> fv_status e = Verified \<Longrightarrow>
     fv_stale_dependencies e = [] \<and> fv_stale_proof_environment e = None"
  by (auto simp: validate_verified_conclusion_def split: if_splits option.splits)

lemma validate_cong:
  assumes "fv_status e' = fv_status e" "fv_function e' = fv_function e" "fv_wp_summary e' = fv_wp_summary e"
    "fv_callees e' = fv_callees e" "fv_callee_spec_hashes e' = fv_callee_spec_hashes e"
    "fv_proof_receipt e' = fv_proof_receipt e" "fv_stale_dependencies e' = fv_stale_dependencies e"
    "fv_stale_proof_environment e' = fv_stale_proof_environment e"
  shows "validate_verified_conclusion E e' = validate_verified_conclusion E e"
  unfolding validate_verified_conclusion_def assms by (rule refl)

lemma mark_environment_valid:
  assumes "validate_verified_conclusion E e = None"
  shows "validate_verified_conclusion E (mark_environment h e) = None"
proof (cases "fv_status (mark_environment h e) = Verified")
  case True
  then have "fv_status e = Verified" "fv_stale_proof_environment (mark_environment h e) = fv_stale_proof_environment e"
    using validated_not_stale [OF assms]
    by (auto simp: mark_environment_def split: option.splits if_splits)
  then have "validate_verified_conclusion E (mark_environment h e) = validate_verified_conclusion E e"
    using True by (intro validate_cong) simp_all
  then show ?thesis using assms by simp
qed (rule validate_unverified)

lemma mark_callee_valid:
  assumes "validate_verified_conclusion E e = None"
  shows "validate_verified_conclusion E (mark_callee f h e) = None"
proof (cases "fv_status (mark_callee f h e) = Verified")
  case True
  then have "fv_status e = Verified" "fv_stale_dependencies (mark_callee f h e) = fv_stale_dependencies e"
    using validated_not_stale [OF assms]
    by (auto simp: mark_callee_def Let_def split: option.splits if_splits)
  then have "validate_verified_conclusion E (mark_callee f h e) = validate_verified_conclusion E e"
    using True by (intro validate_cong) simp_all
  then show ?thesis using assms by simp
qed (rule validate_unverified)
lemma specs_hash_for_cong:
  "map_option fv_specs (map_of cs k) = map_option fv_specs (map_of cs' k) \<Longrightarrow>
     specs_hash_for_function E cs k = specs_hash_for_function E cs' k"
  by (auto simp: specs_hash_for_function_def split: option.splits)

text \<open>What \<open>store_into\<close> leaves under each name.\<close>

lemma map_of_in_keys: "k \<in> set (map fst m) \<longleftrightarrow> map_of m k \<noteq> None"
  by (simp add: map_of_eq_None_iff)

definition settle_environment ::
    "externals \<Rightarrow> function_conclusion_update \<Rightarrow> function_verification_state \<Rightarrow> function_verification_state" where
  "settle_environment E u e =
     (case up_proof_receipt u of None \<Rightarrow> e | Some r \<Rightarrow> mark_environment (proof_environment_hash E r) e)"

definition settle_other ::
    "externals \<Rightarrow> function_conclusion_update \<Rightarrow> function_verification_state \<Rightarrow> function_verification_state \<Rightarrow>
     function_verification_state" where
  "settle_other E u entry e =
     mark_callee (up_function u) (specs_hash E (fv_specs entry)) (settle_environment E u e)"

lemma store_into_lookup:
  assumes d: "distinct_keys cs" and s: "store_into E cs u entry = (cs', touched)"
  shows "distinct_keys cs' \<and>
    map_of cs' k = (if k = up_function u then Some entry else map_option (settle_other E u entry) (map_of cs k))"
proof -
  let ?f = "up_function u"
  let ?cs1 = "AList.update ?f entry cs"
  have d1: "distinct (map fst ?cs1)" using d by (simp add: distinct_keys_def distinct_update)
  obtain cs2 t2 where cs2: "(case up_proof_receipt u of
              None \<Rightarrow> (?cs1, [?f])
            | Some r \<Rightarrow> fold (environment_step ?f (proof_environment_hash E r)) (map fst ?cs1) (?cs1, [?f])) = (cs2, t2)"
    by fastforce
  have l2: "map_of cs2 k = (if k = ?f then Some entry else map_option (settle_environment E u) (map_of cs k))" for k
  proof (cases "up_proof_receipt u")
    case None
    then show ?thesis using cs2 by (auto simp: settle_environment_def option.map_ident cong: option.map_cong)
  next
    case (Some r)
    with cs2 have "cs2 = fst (fold (environment_step ?f (proof_environment_hash E r)) (map fst ?cs1) (?cs1, [?f]))"
      by simp
    then show ?thesis unfolding environment_step_def
      using touch_loop_lookup [OF d1, of ?f "mark_environment (proof_environment_hash E r)" fv_stale_proof_environment ?cs1 "[?f]" k, unfolded map_of_in_keys]
      by (cases "map_of cs k") (simp_all add: settle_environment_def Some)
  qed
  have d2: "distinct_keys cs2"
  proof (cases "up_proof_receipt u")
    case None
    then show ?thesis using cs2 d by auto
  next
    case (Some r)
    with cs2 have "cs2 = fst (fold (environment_step ?f (proof_environment_hash E r)) (map fst ?cs1) (?cs1, [?f]))"
      by simp
    then show ?thesis unfolding environment_step_def using d by (simp add: touch_loop_distinct)
  qed
  have h: "specs_hash_for_function E cs2 ?f = specs_hash E (fv_specs entry)"
    by (simp add: specs_hash_for_function_def l2)
  have s': "(cs', touched) = fold (callee_step ?f (specs_hash E (fv_specs entry))) (map fst cs2) (cs2, t2)"
    using s unfolding store_into_def Let_def cs2 by (simp add: h)
  then have fst': "cs' = fst (fold (callee_step ?f (specs_hash E (fv_specs entry))) (map fst cs2) (cs2, t2))"
    by (metis fst_conv)
  have "distinct (map fst cs2)" using d2 by (simp add: distinct_keys_def)
  from touch_loop_lookup [OF this, of ?f "mark_callee ?f (specs_hash E (fv_specs entry))" fv_stale_dependencies cs2 t2 k]
  have "map_of cs' k = (if map_of cs2 k \<noteq> None \<and> k \<noteq> ?f
      then map_option (mark_callee ?f (specs_hash E (fv_specs entry))) (map_of cs2 k) else map_of cs2 k)"
    unfolding fst' callee_step_def map_of_in_keys .
  then have "map_of cs' k = (if k = ?f then Some entry else map_option (settle_other E u entry) (map_of cs k))"
    using l2 [of k] by (cases "k = ?f"; cases "map_of cs k") (simp_all add: settle_other_def)
  moreover have "distinct_keys cs'" unfolding fst' callee_step_def by (rule touch_loop_distinct [OF d2])
  ultimately show ?thesis by simp
qed

lemma settle_other_simps [simp]:
  "fv_function (settle_other E u entry e) = fv_function e" "fv_specs (settle_other E u entry e) = fv_specs e"
  "fv_callee_spec_hashes (settle_other E u entry e) = fv_callee_spec_hashes e"
  "fv_proof_receipt (settle_other E u entry e) = fv_proof_receipt e"
  "fv_proof_env_hash (settle_other E u entry e) = fv_proof_env_hash e"
  by (simp_all add: settle_other_def settle_environment_def split: option.splits)

lemma settle_other_valid:
  "validate_verified_conclusion E e = None \<Longrightarrow> validate_verified_conclusion E (settle_other E u entry e) = None"
  by (auto simp: settle_other_def settle_environment_def intro: mark_callee_valid mark_environment_valid
      split: option.splits)

lemma mark_callee_keeps_dependency:
  "callee \<noteq> f \<Longrightarrow> callee \<in> sd_callee ` set (fv_stale_dependencies (mark_callee f h e)) \<longleftrightarrow>
     callee \<in> sd_callee ` set (fv_stale_dependencies e)"
proof -
  assume ne: "callee \<noteq> f"
  have keep: "(callee \<in> sd_callee ` {d \<in> D. sd_callee d \<noteq> f}) = (callee \<in> sd_callee ` D)" for D
    using ne by auto
  show ?thesis using ne
    by (cases "map_of (fv_callee_spec_hashes e) f") (simp_all add: mark_callee_def Let_def set_dependency_callees keep)
qed

lemma mark_callee_own_dependency:
  "map_of (fv_callee_spec_hashes e) f = Some r \<Longrightarrow> r \<noteq> h \<Longrightarrow>
     f \<in> sd_callee ` set (fv_stale_dependencies (mark_callee f h e))"
  by (simp add: mark_callee_def Let_def set_dependency_callees)

lemma settle_environment_deps [simp]:
  "fv_stale_dependencies (settle_environment E u e) = fv_stale_dependencies e"
  "fv_callee_spec_hashes (settle_environment E u e) = fv_callee_spec_hashes e"
  by (simp_all add: settle_environment_def split: option.splits)
abbreviation merged_from :: "conclusions \<Rightarrow> function_conclusion_update \<Rightarrow> function_verification_state" where
  "merged_from cs u \<equiv> unwrap_or (map_of cs (up_function u)) (empty_conclusion_static (up_function u))"

lemma merge_update_fields:
  "fv_function (merge_update E cs u) = fv_function (merged_from cs u)"
  "fv_proof_receipt (merge_update E cs u) = or_else (up_proof_receipt u) (fv_proof_receipt (merged_from cs u))"
  "fv_proof_env_hash (merge_update E cs u) =
     or_else (map_option (proof_environment_hash E) (up_proof_receipt u)) (fv_proof_env_hash (merged_from cs u))"
  "fv_stale_proof_environment (merge_update E cs u) =
     (if up_proof_receipt u = None then fv_stale_proof_environment (merged_from cs u) else None)"
  "fv_stale_dependencies (merge_update E cs u) =
     (if up_callees u = None then fv_stale_dependencies (merged_from cs u) else [])"
  "fv_callee_spec_hashes (merge_update E cs u) =
     (case up_callees u of None \<Rightarrow> fv_callee_spec_hashes (merged_from cs u)
      | Some callees \<Rightarrow> fold (\<lambda>c m. AList.update c (specs_hash_for_function E cs c) m) callees [])"
  "fv_specs (merge_update E cs u) = unwrap_or (up_specs u) (fv_specs (merged_from cs u))"
  by (simp_all add: merge_update_def Let_def split: option.splits)

lemma map_of_fold_update:
  "map_of (fold (\<lambda>c m. AList.update c (g c) m) ks m0) k = (if k \<in> set ks then Some (g k) else map_of m0 k)"
  by (induction ks arbitrary: m0) auto

lemma empty_conclusion_ok: "conclusion_ok E cs f (empty_conclusion_static f)"
  by (simp add: conclusion_ok_def empty_conclusion_static_def validate_verified_conclusion_def)

lemma merged_from_ok: "conclusions_inv E cs \<Longrightarrow> conclusion_ok E cs (up_function u) (merged_from cs u)"
  by (cases "map_of cs (up_function u)") (auto simp: conclusions_inv_def empty_conclusion_ok)

lemma store_specs_hash:
  assumes d: "distinct_keys cs" and s: "store_into E cs u entry = (cs', touched)"
  shows "specs_hash_for_function E cs' k =
    (if k = up_function u then specs_hash E (fv_specs entry) else specs_hash_for_function E cs k)"
proof (cases "k = up_function u")
  case True
  then show ?thesis using store_into_lookup [OF d s] by (simp add: specs_hash_for_function_def)
next
  case False
  then have "map_option fv_specs (map_of cs' k) = map_option fv_specs (map_of cs k)"
    using store_into_lookup [OF d s, of k] by (cases "map_of cs k") simp_all
  then have "specs_hash_for_function E cs' k = specs_hash_for_function E cs k" by (rule specs_hash_for_cong)
  with False show ?thesis by simp
qed

lemma store_entry_ok:
  assumes inv: "conclusions_inv E cs" and valid: "validate_verified_conclusion E (merge_update E cs u) = None"
    and s: "store_into E cs u (merge_update E cs u) = (cs', touched)"
  shows "conclusion_ok E cs' (up_function u) (merge_update E cs u)"
proof -
  have d: "distinct_keys cs" using inv by (simp add: conclusions_inv_def)
  note base = merged_from_ok [OF inv, of u, unfolded conclusion_ok_def]
  have "callee \<in> sd_callee ` set (fv_stale_dependencies (merge_update E cs u))"
    if c: "callee \<noteq> up_function u" "map_of (fv_callee_spec_hashes (merge_update E cs u)) callee = Some h"
      "h \<noteq> specs_hash_for_function E cs' callee" for callee h
  proof -
    have h: "h \<noteq> specs_hash_for_function E cs callee" using c(1,3) store_specs_hash [OF d s] by simp
    show ?thesis
    proof (cases "up_callees u")
      case None
      then show ?thesis using base c(1,2) h by (simp add: merge_update_fields)
    next
      case (Some callees)
      with c(2) have "h = specs_hash_for_function E cs callee"
        by (simp add: merge_update_fields map_of_fold_update split: if_splits)
      with h show ?thesis by simp
    qed
  qed
  moreover have "fv_proof_env_hash (merge_update E cs u) =
      map_option (proof_environment_hash E) (fv_proof_receipt (merge_update E cs u))"
    using base by (cases "up_proof_receipt u") (simp_all add: merge_update_fields)
  ultimately show ?thesis using base valid by (simp add: conclusion_ok_def merge_update_fields)
qed

lemma store_other_ok:
  assumes inv: "conclusions_inv E cs" and s: "store_into E cs u entry = (cs', touched)"
    and k: "k \<noteq> up_function u" "map_of cs k = Some e"
  shows "conclusion_ok E cs' k (settle_other E u entry e)"
proof -
  have d: "distinct_keys cs" using inv by (simp add: conclusions_inv_def)
  have ok: "conclusion_ok E cs k e" using inv k(2) by (simp add: conclusions_inv_def)
  have "callee \<in> sd_callee ` set (fv_stale_dependencies (settle_other E u entry e))"
    if c: "callee \<noteq> k" "map_of (fv_callee_spec_hashes e) callee = Some h"
      "h \<noteq> specs_hash_for_function E cs' callee" for callee h
  proof (cases "callee = up_function u")
    case True
    then have "map_of (fv_callee_spec_hashes (settle_environment E u e)) (up_function u) = Some h"
        "h \<noteq> specs_hash E (fv_specs entry)"
      using c(2,3) store_specs_hash [OF d s, of callee] by simp_all
    then show ?thesis unfolding True settle_other_def by (rule mark_callee_own_dependency)
  next
    case False
    then have "h \<noteq> specs_hash_for_function E cs callee" using c(3) store_specs_hash [OF d s] by simp
    then have "callee \<in> sd_callee ` set (fv_stale_dependencies e)" using ok c(1,2) by (auto simp: conclusion_ok_def)
    then show ?thesis using False by (simp add: settle_other_def mark_callee_keeps_dependency)
  qed
  then show ?thesis using ok by (auto simp: conclusion_ok_def settle_other_valid)
qed

lemma settle_environment_none: "up_proof_receipt u = None \<Longrightarrow> settle_environment E u e = e"
  by (simp add: settle_environment_def)

lemma settle_environment_current:
  "up_proof_receipt u = Some r \<Longrightarrow> fv_proof_env_hash e = Some h \<Longrightarrow>
     fv_stale_proof_environment (settle_environment E u e) = None \<Longrightarrow> h = proof_environment_hash E r"
  by (auto simp: settle_environment_def mark_environment_def split: if_splits)

lemma store_same_environment:
  assumes inv: "conclusions_inv E cs" and s: "store_into E cs u (merge_update E cs u) = (cs', touched)"
  shows "same_environment cs'"
proof -
  have d: "distinct_keys cs" and same: "same_environment cs" using inv by (simp_all add: conclusions_inv_def)
  let ?m = "merge_update E cs u"
  have l: "map_of cs' k = (if k = up_function u then Some ?m else map_option (settle_other E u ?m) (map_of cs k))" for k
    using store_into_lookup [OF d s] by blast
  show ?thesis
  proof (cases "up_proof_receipt u")
    case (Some r)
    have "h = proof_environment_hash E r"
      if "map_of cs' k = Some e" "fv_stale_proof_environment e = None" "fv_proof_env_hash e = Some h" for k e h
    proof (cases "k = up_function u")
      case True
      then show ?thesis using that l [of k] Some by (auto simp: merge_update_fields)
    next
      case False
      have "map_of cs' k = Some e" by (rule that(1))
      with False obtain e0 where "map_of cs k = Some e0" "e = settle_other E u ?m e0"
        using l [of k] by (cases "map_of cs k") simp_all
      then show ?thesis
        using settle_environment_current [OF Some, of e0 h E] that(2,3)
        by (simp add: settle_other_def) (simp add: settle_environment_def Some)
    qed
    then show ?thesis unfolding same_environment_def by metis
  next
    case None
    have "\<exists>e0. map_of cs k = Some e0 \<and> fv_stale_proof_environment e0 = fv_stale_proof_environment e \<and>
        fv_proof_env_hash e0 = fv_proof_env_hash e"
      if "map_of cs' k = Some e" "fv_proof_env_hash e \<noteq> None" for k e
    proof (cases "k = up_function u")
      case True
      then have e: "e = ?m" using that(1) l [of k] by simp
      have "map_of cs (up_function u) \<noteq> None"
        using that(2) None e
        by (cases "map_of cs (up_function u)") (simp_all add: merge_update_fields empty_conclusion_static_def)
      then show ?thesis using True e None by (auto simp: merge_update_fields)
    next
      case False
      then show ?thesis using that(1) l [of k] by (auto simp: settle_other_def settle_environment_none [OF None])
    qed
    then show ?thesis using same unfolding same_environment_def by (metis option.distinct(1))
  qed
qed

lemma store_into_inv:
  assumes inv: "conclusions_inv E cs" and valid: "validate_verified_conclusion E (merge_update E cs u) = None"
    and s: "store_into E cs u (merge_update E cs u) = (cs', touched)"
  shows "conclusions_inv E cs'"
proof -
  have d: "distinct_keys cs" using inv by (simp add: conclusions_inv_def)
  have "conclusion_ok E cs' k e" if "map_of cs' k = Some e" for k e
    using that store_into_lookup [OF d s, of k] store_entry_ok [OF assms] store_other_ok [OF inv s, of k]
    by (auto split: if_splits)
  then show ?thesis
    using store_into_lookup [OF d s] store_same_environment [OF inv s] by (simp add: conclusions_inv_def)
qed
lemma mark_environment_unchanged:
  assumes "fv_stale_proof_environment (mark_environment h e) = fv_stale_proof_environment e"
    "validate_verified_conclusion E e = None"
  shows "mark_environment h e = e"
proof (cases "fv_proof_env_hash e")
  case (Some r)
  show ?thesis
  proof (cases "r = h")
    case True
    then show ?thesis using assms(1) Some by (simp add: mark_environment_def)
  next
    case False
    then have "fv_stale_proof_environment e = Some \<lparr>se_recorded_env_hash = r, se_current_env_hash = h\<rparr>"
      using assms(1) Some by (simp add: mark_environment_def)
    then have "fv_status e \<noteq> Verified" using validated_not_stale [OF assms(2)] by auto
    then show ?thesis using assms(1) Some False by (simp add: mark_environment_def)
  qed
qed (simp add: mark_environment_def)

lemma mark_callee_unchanged:
  "fv_stale_dependencies (mark_callee f h e) = fv_stale_dependencies e \<Longrightarrow> mark_callee f h e = e"
  by (cases "map_of (fv_callee_spec_hashes e) f") (simp_all add: mark_callee_def Let_def)

text \<open>The environment loop, or its absence when no receipt came with the update.\<close>

lemma environment_phase:
  assumes d: "distinct_keys cs1"
    and p: "(case up_proof_receipt u of
              None \<Rightarrow> (cs1, [f])
            | Some r \<Rightarrow> fold (environment_step f (proof_environment_hash E r)) (map fst cs1) (cs1, [f])) = (cs2, t2)"
  shows "distinct_keys cs2 \<and>
    (\<forall>k. map_of cs2 k = (if k = f then map_of cs1 k else map_option (settle_environment E u) (map_of cs1 k))) \<and>
    set t2 = {f} \<union> {n. n \<noteq> f \<and> (\<exists>e. map_of cs1 n = Some e \<and>
        fv_stale_proof_environment (settle_environment E u e) \<noteq> fv_stale_proof_environment e)}"
proof (cases "up_proof_receipt u")
  case None
  then have "settle_environment E u = (\<lambda>e. e)" by (simp add: settle_environment_def fun_eq_iff)
  then show ?thesis using None p d by (auto simp: option.map_ident)
next
  case (Some r)
  let ?h = "proof_environment_hash E r"
  have se: "settle_environment E u = mark_environment ?h" by (simp add: settle_environment_def Some fun_eq_iff)
  from p Some have fold: "fold (environment_step f ?h) (map fst cs1) (cs1, [f]) = (cs2, t2)" by simp
  have d1: "distinct (map fst cs1)" using d by (simp add: distinct_keys_def)
  have cs2: "cs2 = fst (fold (touch_step f (mark_environment ?h) fv_stale_proof_environment) (map fst cs1) (cs1, [f]))"
    and t2: "t2 = snd (fold (touch_step f (mark_environment ?h) fv_stale_proof_environment) (map fst cs1) (cs1, [f]))"
    using fold by (simp_all add: environment_step_def)
  have l: "map_of cs2 k = (if k = f then map_of cs1 k else map_option (mark_environment ?h) (map_of cs1 k))" for k
    unfolding cs2 touch_loop_lookup [OF d1] map_of_in_keys by (cases "k = f"; cases "map_of cs1 k") simp_all
  have in_keys: "n \<in> set (map fst cs1)" if "map_of cs1 n = Some e" for n e
    using that unfolding map_of_in_keys by simp
  have "set t2 = {f} \<union> {n. n \<noteq> f \<and> (\<exists>e. map_of cs1 n = Some e \<and>
        fv_stale_proof_environment (mark_environment ?h e) \<noteq> fv_stale_proof_environment e)}"
    unfolding t2 touch_loop_touched [OF d1] using in_keys by auto
  then show ?thesis using l touch_loop_distinct [OF d] by (simp add: se cs2)
qed

lemma store_into_touched:
  assumes d: "distinct_keys cs" and s: "store_into E cs u entry = (cs', touched)"
  shows "up_function u \<in> set touched \<and>
    (\<forall>k e. k \<notin> set touched \<longrightarrow> map_of cs k = Some e \<longrightarrow> k \<noteq> up_function u \<and>
       fv_stale_proof_environment (settle_environment E u e) = fv_stale_proof_environment e \<and>
       fv_stale_dependencies (settle_other E u entry e) = fv_stale_dependencies e)"
proof -
  let ?f = "up_function u"
  let ?cs1 = "AList.update ?f entry cs"
  let ?g = "mark_callee ?f (specs_hash E (fv_specs entry))"
  obtain cs2 t2 where cs2: "(case up_proof_receipt u of
              None \<Rightarrow> (?cs1, [?f])
            | Some r \<Rightarrow> fold (environment_step ?f (proof_environment_hash E r)) (map fst ?cs1) (?cs1, [?f])) = (cs2, t2)"
    by fastforce
  have d1: "distinct_keys ?cs1" using d by simp
  note p = environment_phase [OF d1 cs2]
  have d2: "distinct (map fst cs2)" using p by (simp add: distinct_keys_def)
  have h: "specs_hash_for_function E cs2 ?f = specs_hash E (fv_specs entry)"
    using p by (simp add: specs_hash_for_function_def)
  have "touched = snd (fold (callee_step ?f (specs_hash E (fv_specs entry))) (map fst cs2) (cs2, t2))"
    using s unfolding store_into_def Let_def cs2 by (simp add: h)
  then have t: "set touched = set t2 \<union> {n \<in> set (map fst cs2). n \<noteq> ?f \<and> (\<exists>e. map_of cs2 n = Some e \<and>
      fv_stale_dependencies (?g e) \<noteq> fv_stale_dependencies e)}"
    unfolding callee_step_def using touch_loop_touched [OF d2] by simp
  have t2: "set t2 = {?f} \<union> {n. n \<noteq> ?f \<and> (\<exists>e. map_of ?cs1 n = Some e \<and>
        fv_stale_proof_environment (settle_environment E u e) \<noteq> fv_stale_proof_environment e)}"
    using p by blast
  have "k \<noteq> ?f \<and> fv_stale_proof_environment (settle_environment E u e) = fv_stale_proof_environment e \<and>
       fv_stale_dependencies (settle_other E u entry e) = fv_stale_dependencies e"
    if k: "k \<notin> set touched" "map_of cs k = Some e" for k e
  proof -
    have kf: "k \<noteq> ?f" using k(1) by (auto simp: t t2)
    then have l2: "map_of cs2 k = Some (settle_environment E u e)" using p k(2) by simp
    then have "k \<in> set (map fst cs2)" unfolding map_of_in_keys by simp
    then have "fv_stale_dependencies (?g (settle_environment E u e)) = fv_stale_dependencies (settle_environment E u e)"
      using k(1) kf l2 unfolding t by blast
    moreover have "fv_stale_proof_environment (settle_environment E u e) = fv_stale_proof_environment e"
      using k kf unfolding t t2 by auto
    ultimately show ?thesis using kf by (simp add: settle_other_def)
  qed
  moreover have "?f \<in> set touched" unfolding t t2 by simp
  ultimately show ?thesis by blast
qed

lemma store_untouched_same:
  assumes inv: "conclusions_inv E cs" and s: "store_into E cs u entry = (cs', touched)" and k: "k \<notin> set touched"
  shows "map_of cs' k = map_of cs k"
proof -
  have d: "distinct_keys cs" using inv by (simp add: conclusions_inv_def)
  have l: "map_of cs' k = (if k = up_function u then Some entry else map_option (settle_other E u entry) (map_of cs k))"
    using store_into_lookup [OF d s] by blast
  have f: "up_function u \<in> set touched" using store_into_touched [OF d s] by blast
  show ?thesis
  proof (cases "map_of cs k")
    case None
    then show ?thesis using l f k by auto
  next
    case (Some e)
    note t = store_into_touched [OF d s, THEN conjunct2, rule_format, OF k Some]
    have valid: "validate_verified_conclusion E e = None" using inv Some by (auto simp: conclusions_inv_def conclusion_ok_def)
    have "settle_environment E u e = e"
      using t mark_environment_unchanged [OF _ valid]
      by (auto simp: settle_environment_def split: option.splits)
    then have "settle_other E u entry e = e"
      using t mark_callee_unchanged by (simp add: settle_other_def)
    then show ?thesis using l t Some by simp
  qed
qed
section \<open>The session as a machine\<close>

datatype session_op =
    StoreOp function_conclusion_update
  | SandboxCreated string "u32 option"
  | AnnotationAdded string
  | SandboxDeleted string
  | ReceiptIssued string json
  | FunctionsReported "json list"
  | GlobalsReported "json list"
  | CallgraphReported json
  | StaleMarkersSet "(string, stale_marker) kv"
  | ProfilesRegistered "(string, verification_profile) kv" "string option"
  | EvaDone
  | WpDone
  | ProjectInvalidated

fun session_step :: "externals \<Rightarrow> session_state \<Rightarrow> session_op \<Rightarrow> session_state" where
  "session_step E s (StoreOp u) = snd (store_conclusion E u s)"
| "session_step E s (SandboxCreated f n) = on_sandbox_created f n s"
| "session_step E s (AnnotationAdded f) = on_annotation_added f s"
| "session_step E s (SandboxDeleted f) = on_sandbox_deleted f s"
| "session_step E s (ReceiptIssued sha r) = remember_receipt sha r s"
| "session_step E s (FunctionsReported entries) = update_functions entries s"
| "session_step E s (GlobalsReported entries) = update_globals entries s"
| "session_step E s (CallgraphReported graph) = update_callgraph graph s"
| "session_step E s (StaleMarkersSet m) = set_stale_markers m s"
| "session_step E s (ProfilesRegistered m src) = register_profiles m src s"
| "session_step E s EvaDone = set_eva_completed s"
| "session_step E s WpDone = set_wp_completed s"
| "session_step E s ProjectInvalidated = invalidate_all s"

definition receipts_inv :: "(string \<times> json) list \<Rightarrow> bool" where
  "receipts_inv seen \<longleftrightarrow> length seen \<le> seen_receipt_limit \<and> distinct (map fst seen)"

definition session_inv :: "externals \<Rightarrow> session_state \<Rightarrow> bool" where
  "session_inv E s \<longleftrightarrow> conclusions_inv E (ss_conclusions s) \<and> receipts_inv (ss_seen_receipts s)"

text \<open>A change that neither touches the evidence nor promotes.\<close>

definition harmless :: "(function_verification_state \<Rightarrow> function_verification_state) \<Rightarrow> bool" where
  "harmless f \<longleftrightarrow> (\<forall>e.
     fv_function (f e) = fv_function e \<and> fv_specs (f e) = fv_specs e \<and> fv_wp_summary (f e) = fv_wp_summary e \<and>
     fv_callees (f e) = fv_callees e \<and> fv_callee_spec_hashes (f e) = fv_callee_spec_hashes e \<and>
     fv_stale_dependencies (f e) = fv_stale_dependencies e \<and> fv_proof_receipt (f e) = fv_proof_receipt e \<and>
     fv_proof_env_hash (f e) = fv_proof_env_hash e \<and>
     fv_stale_proof_environment (f e) = fv_stale_proof_environment e \<and>
     (fv_status (f e) = fv_status e \<or> fv_status (f e) \<noteq> Verified))"

lemma harmless_valid:
  "harmless f \<Longrightarrow> validate_verified_conclusion E e = None \<Longrightarrow> validate_verified_conclusion E (f e) = None"
proof (cases "fv_status (f e) = fv_status e")
  case True
  assume h: "harmless f" "validate_verified_conclusion E e = None"
  have "validate_verified_conclusion E (f e) = validate_verified_conclusion E e"
    using h(1) True by (intro validate_cong) (auto simp: harmless_def)
  then show ?thesis using h(2) by simp
qed (auto simp: harmless_def intro: validate_unverified)

lemma harmless_update_inv:
  assumes inv: "conclusions_inv E cs" and h: "harmless f" and e: "map_of cs k = Some e"
  shows "conclusions_inv E (AList.update k (f e) cs)"
proof -
  let ?cs = "AList.update k (f e) cs"
  have same: "map_option fv_specs (map_of ?cs n) = map_option fv_specs (map_of cs n)" for n
    using h e by (simp add: harmless_def)
  have hash: "specs_hash_for_function E ?cs n = specs_hash_for_function E cs n" for n
    by (rule specs_hash_for_cong [OF same])
  have ok: "conclusion_ok E cs n x" if "map_of cs n = Some x" for n x
    using inv that by (simp add: conclusions_inv_def)
  have "conclusion_ok E ?cs n x" if "map_of ?cs n = Some x" for n x
  proof (cases "n = k")
    case True
    with that have "x = f e" by simp
    then show ?thesis using ok [OF e] h harmless_valid [OF h] True
      by (simp add: conclusion_ok_def hash) (simp add: harmless_def)
  next
    case False
    then show ?thesis using ok [of n x] that by (simp add: conclusion_ok_def hash)
  qed
  moreover have "same_environment ?cs"
  proof -
    have "\<exists>y. map_of cs n = Some y \<and> fv_stale_proof_environment y = fv_stale_proof_environment x \<and>
        fv_proof_env_hash y = fv_proof_env_hash x" if "map_of ?cs n = Some x" for n x
      using that h e by (cases "n = k") (auto simp: harmless_def)
    then show ?thesis using inv unfolding conclusions_inv_def same_environment_def by metis
  qed
  ultimately show ?thesis using inv by (simp add: conclusions_inv_def)
qed

lemma or_insert_empty_inv:
  assumes inv: "conclusions_inv E cs"
  shows "conclusions_inv E (or_insert k (empty_conclusion_static k) cs)"
proof (cases "map_of cs k")
  case None
  let ?cs = "or_insert k (empty_conclusion_static k) cs"
  have l: "map_of ?cs n = (if n = k then Some (empty_conclusion_static k) else map_of cs n)" for n
    using None by (simp add: map_of_or_insert)
  have hash: "specs_hash_for_function E ?cs n = specs_hash_for_function E cs n" for n
  proof (cases "n = k")
    case True
    have "fv_specs (empty_conclusion_static k) = []" by (simp add: empty_conclusion_static_def)
    then show ?thesis using True None by (simp add: specs_hash_for_function_def l)
  qed (simp add: specs_hash_for_function_def l)
  have "conclusion_ok E ?cs n x" if x: "map_of ?cs n = Some x" for n x
  proof (cases "n = k")
    case True
    then show ?thesis using x empty_conclusion_ok [of E ?cs k] by (simp add: l)
  next
    case False
    then have "conclusion_ok E cs n x" using x inv by (simp add: l conclusions_inv_def)
    then show ?thesis by (simp add: conclusion_ok_def hash)
  qed
  moreover have "same_environment ?cs"
  proof -
    have "map_of cs n = Some x" if "map_of ?cs n = Some x" "fv_proof_env_hash x = Some h" for n x h
    proof (cases "n = k")
      case True
      then have "x = empty_conclusion_static k" using that(1) by (simp add: l)
      then show ?thesis using that(2) by (simp add: empty_conclusion_static_def)
    qed (use that in \<open>simp add: l\<close>)
    then show ?thesis using inv unfolding conclusions_inv_def same_environment_def by metis
  qed
  ultimately show ?thesis using inv by (simp add: conclusions_inv_def)
qed (use inv in \<open>simp add: or_insert_def\<close>)

lemma modify_conclusion_inv:
  "harmless f \<Longrightarrow> session_inv E s \<Longrightarrow> session_inv E (modify_conclusion f k s)"
  by (auto simp: modify_conclusion_def session_inv_def harmless_update_inv split: option.splits)

lemma store_conclusion_inv:
  assumes "session_inv E s"
  shows "session_inv E (snd (store_conclusion E u s))"
proof (cases "validate_verified_conclusion E (merge_update E (ss_conclusions s) u)")
  case None
  obtain cs' touched where st: "store_into E (ss_conclusions s) u (merge_update E (ss_conclusions s) u) = (cs', touched)"
    by fastforce
  then have "conclusions_inv E cs'" using store_into_inv [OF _ None st] assms by (simp add: session_inv_def)
  then show ?thesis using assms by (simp add: store_conclusion_def Let_def None st session_inv_def)
qed (use assms in \<open>simp add: store_conclusion_def Let_def\<close>)

lemma remember_receipt_inv: "receipts_inv (ss_seen_receipts s) \<Longrightarrow> receipts_inv (ss_seen_receipts (remember_receipt sha r s))"
proof -
  assume i: "receipts_inv (ss_seen_receipts s)"
  show ?thesis
  proof (cases "\<exists>p \<in> set (ss_seen_receipts s). fst p = sha")
    case True
    then show ?thesis using i by (simp add: remember_receipt_def)
  next
    case False
    let ?l = "ss_seen_receipts s"
    have "set (tl ?l) \<subseteq> set ?l" by (cases ?l) auto
    moreover have "distinct (map fst (tl ?l))" using i by (simp add: receipts_inv_def map_tl distinct_tl)
    moreover have "?l \<noteq> []" if "seen_receipt_limit \<le> length ?l" using that by (auto simp: seen_receipt_limit_def)
    ultimately show ?thesis
      using False i by (fastforce simp: remember_receipt_def Let_def receipts_inv_def)
  qed
qed

lemma session_step_inv: "session_inv E s \<Longrightarrow> session_inv E (session_step E s op)"
proof (cases op)
  case (StoreOp u)
  assume "session_inv E s"
  then show ?thesis by (simp add: StoreOp store_conclusion_inv)
next
  case (SandboxCreated f n)
  assume s: "session_inv E s"
  then have "session_inv E (s\<lparr>ss_conclusions := or_insert f (empty_conclusion_static f) (ss_conclusions s)\<rparr>)"
    by (simp add: session_inv_def or_insert_empty_inv)
  then show ?thesis
    unfolding SandboxCreated session_step.simps on_sandbox_created_def
    by (rule modify_conclusion_inv [rotated]) (auto simp: harmless_def)
next
  case (AnnotationAdded f)
  assume "session_inv E s"
  then show ?thesis unfolding AnnotationAdded session_step.simps on_annotation_added_def
    by (rule modify_conclusion_inv [rotated]) (simp add: harmless_def)
next
  case (SandboxDeleted f)
  assume "session_inv E s"
  then show ?thesis unfolding SandboxDeleted session_step.simps on_sandbox_deleted_def
    by (rule modify_conclusion_inv [rotated]) (simp add: harmless_def)
next
  case (ReceiptIssued sha r)
  assume "session_inv E s"
  moreover have "ss_conclusions (remember_receipt sha r s) = ss_conclusions s"
    by (simp add: remember_receipt_def Let_def)
  ultimately show ?thesis using remember_receipt_inv by (simp add: ReceiptIssued session_inv_def)
qed (simp_all add: store_conclusion_inv session_inv_def update_functions_def update_globals_def
      update_callgraph_def set_stale_markers_def register_profiles_def set_eva_completed_def set_wp_completed_def invalidate_all_def
      receipts_inv_def)

interpretation session: invariant_machine "session_step E" "session_inv E" for E
  by unfold_locales (rule session_step_inv)

lemma empty_session_inv: "session_inv E empty_session"
  by (simp add: session_inv_def empty_session_def conclusions_inv_def same_environment_def receipts_inv_def
      distinct_keys_def seen_receipt_limit_def)

lemma reachable_inv: "session_inv E (foldl (session_step E) empty_session ops)"
  by (rule session.run_inv [OF empty_session_inv])
section \<open>Properties\<close>

lemma validated_evidence:
  assumes "validate_verified_conclusion E c = None" "fv_status c = Verified"
  shows "\<exists>summary receipt. fv_wp_summary c = Some summary \<and> summary_fully_valid summary \<and>
    fv_proof_receipt c = Some receipt \<and>
    proof_receipt_evidence_error E receipt (ws_total summary) (fv_function c) = None \<and>
    (\<forall>callee \<in> set (fv_callees c). map_of (fv_callee_spec_hashes c) callee \<noteq> None)"
  using assms
  by (auto simp: validate_verified_conclusion_def find_None_iff split: if_splits option.splits)

text \<open>C5: A conclusion that says verified says it on evidence that still holds, whatever the session went
  through. After any sequence of stored updates, sandbox events, issued receipts, reports of Frama-C and
  invalidations, a verified conclusion has a fully valid summary, a receipt that
  \<open>proof_receipt_evidence_error\<close> accepts for that very function and goal count, no stale dependency and
  no stale environment; every callee it lists other than itself still has the specs it had when they were
  recorded; and every other verified conclusion was proved in the same environment.\<close>

theorem verified_conclusions_hold:
  assumes "get_conclusion (foldl (session_step E) empty_session ops) name = Some c" "fv_status c = Verified"
  shows "(\<exists>summary receipt. fv_wp_summary c = Some summary \<and> summary_fully_valid summary \<and>
       fv_proof_receipt c = Some receipt \<and>
       proof_receipt_evidence_error E receipt (ws_total summary) name = None) \<and>
    fv_stale_dependencies c = [] \<and> fv_stale_proof_environment c = None \<and>
    (\<forall>callee \<in> set (fv_callees c). callee \<noteq> name \<longrightarrow>
       map_of (fv_callee_spec_hashes c) callee =
         Some (specs_hash_for_function E (ss_conclusions (foldl (session_step E) empty_session ops)) callee)) \<and>
    (\<forall>other d. get_conclusion (foldl (session_step E) empty_session ops) other = Some d \<longrightarrow>
       fv_status d = Verified \<longrightarrow> fv_proof_env_hash d = fv_proof_env_hash c)"
proof -
  define s where "s = foldl (session_step E) empty_session ops"
  have inv: "conclusions_inv E (ss_conclusions s)"
    using reachable_inv [of E ops] by (simp add: s_def session_inv_def)
  have c: "map_of (ss_conclusions s) name = Some c" using assms(1) by (simp add: get_conclusion_def s_def)
  have ok: "conclusion_ok E (ss_conclusions s) n x" if "map_of (ss_conclusions s) n = Some x" for n x
    using inv that by (simp add: conclusions_inv_def)
  note cok = ok [OF c, unfolded conclusion_ok_def]
  have valid: "validate_verified_conclusion E c = None" using cok by blast
  obtain summary receipt where ev: "fv_wp_summary c = Some summary" "summary_fully_valid summary"
      "fv_proof_receipt c = Some receipt"
      "proof_receipt_evidence_error E receipt (ws_total summary) (fv_function c) = None"
      "\<forall>callee \<in> set (fv_callees c). map_of (fv_callee_spec_hashes c) callee \<noteq> None"
    using validated_evidence [OF valid assms(2)] by blast
  note fresh = validated_not_stale [OF valid assms(2)]
  have env: "fv_proof_env_hash d = fv_proof_env_hash c"
    if d: "map_of (ss_conclusions s) other = Some d" "fv_status d = Verified" for other d
  proof -
    have dok: "validate_verified_conclusion E d = None"
        "fv_proof_env_hash d = map_option (proof_environment_hash E) (fv_proof_receipt d)"
      using ok [OF d(1)] by (simp_all add: conclusion_ok_def)
    obtain r where "fv_proof_receipt d = Some r" using validated_evidence [OF dok(1) d(2)] by blast
    then have hd: "fv_proof_env_hash d = Some (proof_environment_hash E r)" using dok(2) by simp
    have hc: "fv_proof_env_hash c = Some (proof_environment_hash E receipt)" using cok ev(3) by simp
    have "same_environment (ss_conclusions s)" using inv by (simp add: conclusions_inv_def)
    then have "proof_environment_hash E r = proof_environment_hash E receipt"
      using d(1) c hd hc fresh validated_not_stale [OF dok(1) d(2)] unfolding same_environment_def by blast
    then show ?thesis using hd hc by simp
  qed
  have callees: "map_of (fv_callee_spec_hashes c) callee = Some (specs_hash_for_function E (ss_conclusions s) callee)"
    if "callee \<in> set (fv_callees c)" "callee \<noteq> name" for callee
  proof -
    have "map_of (fv_callee_spec_hashes c) callee \<noteq> None" using ev(5) that(1) by simp
    then obtain h where h: "map_of (fv_callee_spec_hashes c) callee = Some h" by blast
    have "h = specs_hash_for_function E (ss_conclusions s) callee"
    proof (rule ccontr)
      assume "h \<noteq> specs_hash_for_function E (ss_conclusions s) callee"
      then have "callee \<in> sd_callee ` set (fv_stale_dependencies c)" using cok that(2) h by blast
      then show False using fresh by simp
    qed
    with h show ?thesis by simp
  qed
  have "fv_function c = name" using cok by blast
  then have "\<exists>summary receipt. fv_wp_summary c = Some summary \<and> summary_fully_valid summary \<and>
       fv_proof_receipt c = Some receipt \<and>
       proof_receipt_evidence_error E receipt (ws_total summary) name = None"
    using ev(1-4) by blast
  then show ?thesis
    unfolding s_def [symmetric] get_conclusion_def using fresh callees env by blast
qed

definition demo_summary :: wp_goal_summary where
  "demo_summary = \<lparr>ws_total = 1, ws_valid = 1, ws_unknown = 0, ws_timeout = 0, ws_failed = 0, ws_model = None,
     ws_timeout_used = None, ws_recorded_at_retry = None, ws_failed_goal_labels = [], ws_failed_source_asserts = []\<rparr>"

definition demo_update :: function_conclusion_update where
  "demo_update = \<lparr>up_function = ''f'', up_status = Some Verified, up_specs = None, up_wp_summary = Some demo_summary,
     up_notes = None, up_callees = Some [''g''],
     up_proof_receipt = Some (check_proof_receipt demo_externals demo_answers demo_check),
     up_verify_profile = None, up_reproduce = None\<rparr>"

lemma demo_update_valid:
  "validate_verified_conclusion demo_externals (merge_update demo_externals [] demo_update) = None"
  using demo_accepted
  by (simp add: validate_verified_conclusion_def merge_update_def Let_def demo_update_def
      empty_conclusion_static_def demo_summary_def summary_fully_valid_def)

lemma demo_stored:
  "get_conclusion (foldl (session_step demo_externals) empty_session [StoreOp demo_update]) ''f'' =
     Some (merge_update demo_externals [] demo_update)"
proof -
  obtain cs t where s: "store_into demo_externals [] demo_update (merge_update demo_externals [] demo_update) = (cs, t)"
    by fastforce
  have "map_of cs ''f'' = Some (merge_update demo_externals [] demo_update)"
    using store_into_lookup [OF _ s, of "''f''"] by (simp add: distinct_keys_def demo_update_def)
  then show ?thesis
    using s demo_update_valid by (simp add: get_conclusion_def store_conclusion_def Let_def empty_session_def)
qed

lemma verified_conclusions_hold_witness:
  "fv_stale_dependencies (merge_update demo_externals [] demo_update) = [] \<and>
   map_of (fv_callee_spec_hashes (merge_update demo_externals [] demo_update)) ''g'' =
     Some (specs_hash_for_function demo_externals
       (ss_conclusions (foldl (session_step demo_externals) empty_session [StoreOp demo_update])) ''g'')"
proof -
  have v: "fv_status (merge_update demo_externals [] demo_update) = Verified"
      "''g'' \<in> set (fv_callees (merge_update demo_externals [] demo_update))"
    by (simp_all add: merge_update_def Let_def demo_update_def)
  show ?thesis using verified_conclusions_hold [OF demo_stored v(1)] v(2) by simp
qed

text \<open>Storing a conclusion reports every conclusion it changes, so writing the reported ones to disk
  loses nothing. For an update that is accepted in a reachable session, a conclusion whose name is not
  among the returned ones is exactly what it was; a refused update changes nothing at all.\<close>

theorem store_reports_every_change:
  assumes "store_conclusion E u (foldl (session_step E) empty_session ops) = (result, s')"
  shows "(case result of
      Inr touched \<Rightarrow> up_function u \<in> set touched \<and>
        (\<forall>name. name \<notin> set touched \<longrightarrow>
           get_conclusion s' name = get_conclusion (foldl (session_step E) empty_session ops) name)
    | Inl err \<Rightarrow> s' = foldl (session_step E) empty_session ops)"
proof -
  define s where "s = foldl (session_step E) empty_session ops"
  have inv: "conclusions_inv E (ss_conclusions s)"
    using reachable_inv [of E ops] by (simp add: s_def session_inv_def)
  then have d: "distinct_keys (ss_conclusions s)" by (simp add: conclusions_inv_def)
  show ?thesis
  proof (cases "validate_verified_conclusion E (merge_update E (ss_conclusions s) u)")
    case None
    obtain cs touched where st: "store_into E (ss_conclusions s) u (merge_update E (ss_conclusions s) u) = (cs, touched)"
      by fastforce
    then have r: "result = Inr touched" "s' = s\<lparr>ss_conclusions := cs\<rparr>"
      using assms unfolding s_def [symmetric] by (simp_all add: store_conclusion_def Let_def None)
    then show ?thesis
      unfolding s_def [symmetric] r(1) using store_into_touched [OF d st] store_untouched_same [OF inv st] r(2)
      by (simp add: get_conclusion_def)
  next
    case (Some err)
    then show ?thesis
      using assms unfolding s_def [symmetric] by (auto simp: store_conclusion_def Let_def)
  qed
qed

lemma store_reports_every_change_witness:
  "up_function demo_update \<in> set (case fst (store_conclusion demo_externals demo_update empty_session) of
     Inr touched \<Rightarrow> touched | Inl _ \<Rightarrow> [])"
proof -
  obtain r s' where rs: "store_conclusion demo_externals demo_update (foldl (session_step demo_externals) empty_session []) = (r, s')"
    by fastforce
  have "\<exists>touched. r = Inr touched"
    using rs demo_update_valid by (auto simp: store_conclusion_def Let_def empty_session_def split: prod.splits)
  then show ?thesis using store_reports_every_change [OF rs] rs by auto
qed

text \<open>The receipt cache is bounded, holds one receipt per digest, and finds what was issued last. After
  any session history at most 32 receipts are held, under distinct digests, and a receipt just
  remembered under a digest not held before is found under it, whatever the cache had to drop.\<close>

theorem receipt_cache_bounded:
  assumes "s = foldl (session_step E) empty_session ops" "sha \<notin> fst ` set (ss_seen_receipts s)" "receipt \<noteq> JNull"
  shows "length (ss_seen_receipts s) \<le> 32 \<and> distinct (map fst (ss_seen_receipts s)) \<and>
    find_receipt_body (remember_receipt sha receipt s) sha = Some receipt"
proof -
  have "receipts_inv (ss_seen_receipts s)"
    using reachable_inv [of E ops] assms(1) by (simp add: session_inv_def)
  moreover have "find_receipt_body (remember_receipt sha receipt s) sha = Some receipt"
  proof -
    have last: "find (\<lambda>p. fst p = sha) (xs @ [(sha, receipt)]) = Some (sha, receipt)" if "sha \<notin> fst ` set xs" for xs
      using that by (induction xs) auto
    have "sha \<notin> fst ` set (tl (ss_seen_receipts s))"
      using assms(2) by (cases "ss_seen_receipts s") auto
    then have "find (\<lambda>p. fst p = sha) (ss_seen_receipts (remember_receipt sha receipt s)) = Some (sha, receipt)"
      using last assms(2) by (auto simp: remember_receipt_def Let_def)
    then show ?thesis using assms(3) by (simp add: find_receipt_body_def keep_if_def)
  qed
  ultimately show ?thesis by (simp add: receipts_inv_def seen_receipt_limit_def)
qed

lemma receipt_cache_bounded_witness:
  "find_receipt_body (remember_receipt ''a'' (JObj []) empty_session) ''a'' = Some (JObj [])"
  using receipt_cache_bounded [of empty_session demo_externals "[]" "''a''" "JObj []"]
  by (simp add: empty_session_def)

text \<open>
  Staleness can be cleared without a new proof: an update that sends the callees again and says
  verified is accepted on the receipt already stored, although the callees' specs changed after it.
\<close>

lemma refreshed_callees_accept_old_receipt:
  assumes "map_of cs f = Some e" "fv_function e = f" "fv_wp_summary e = Some w" "summary_fully_valid w"
    and "fv_proof_receipt e = Some r" "proof_receipt_evidence_error E r (ws_total w) f = None"
    and "fv_stale_proof_environment e = None"
    and "u = \<lparr>up_function = f, up_status = Some Verified, up_specs = None, up_wp_summary = None, up_notes = None,
       up_callees = Some callees, up_proof_receipt = None, up_verify_profile = None, up_reproduce = None\<rparr>"
  shows "validate_verified_conclusion E (merge_update E cs u) = None"
  using assms
  by (auto simp: validate_verified_conclusion_def merge_update_def Let_def map_of_fold_update find_None_iff
      split: option.splits)
end
