(* ===== verification/Conclusion_Json.thy ===== *)
theory Conclusion_Json
  imports Session
begin

text \<open>
  What \<open>meta.json\<close> holds (the types of src/src/state.rs with their serde attributes, and the manifest that
  src/src/mcp/store.rs adds): the value a conclusion is written as, and how a value is read back. Optional
  fields are skipped when absent, a missing field with a default is the default, \<open>null\<close> is no value, unknown
  fields are passed over, and any other mismatch makes the whole conclusion unreadable. Values hold each
  name once, as those \<open>serde_json\<close> reads do. Printing and parsing their text is \<open>serde_json\<close>'s own.
\<close>

section \<open>Writing\<close>

fun verification_status_name :: "verification_status \<Rightarrow> string" where
  "verification_status_name InProgress = ''in_progress''"
| "verification_status_name Verified = ''verified''"
| "verification_status_name Failed = ''failed''"
| "verification_status_name Unsound = ''unsound''"
| "verification_status_name BlockedOnCallee = ''blocked_on_callee''"

definition list_field :: "string \<Rightarrow> ('a \<Rightarrow> json) \<Rightarrow> 'a list \<Rightarrow> fields" where
  "list_field k f xs = (if xs = [] then [] else [(k, JArr (map f xs))])"

definition source_assert_json :: "failed_source_assert \<Rightarrow> json" where
  "source_assert_json a =
     JObj [(''stmt_id'', u32_json (fa_stmt_id a)), (''acsl'', JStr (fa_acsl a)), (''kind'', JStr (fa_kind a))]"

definition summary_json :: "wp_goal_summary \<Rightarrow> json" where
  "summary_json w =
     JObj ([(''total'', u32_json (ws_total w)), (''valid'', u32_json (ws_valid w)),
        (''unknown'', u32_json (ws_unknown w)), (''timeout'', u32_json (ws_timeout w)),
        (''failed'', u32_json (ws_failed w))] @
       opt_field ''model'' JStr (ws_model w) @ opt_field ''timeout_used'' u32_json (ws_timeout_used w) @
       opt_field ''recorded_at_retry'' u32_json (ws_recorded_at_retry w) @
       list_field ''failed_goal_labels'' JStr (ws_failed_goal_labels w) @
       list_field ''failed_source_asserts'' source_assert_json (ws_failed_source_asserts w))"

definition dependency_json :: "stale_dependency \<Rightarrow> json" where
  "dependency_json d =
     JObj [(''callee'', JStr (sd_callee d)), (''recorded_specs_hash'', JStr (sd_recorded_specs_hash d)),
       (''current_specs_hash'', JStr (sd_current_specs_hash d))]"

definition environment_json :: "stale_proof_environment \<Rightarrow> json" where
  "environment_json e =
     JObj [(''recorded_env_hash'', JStr (se_recorded_env_hash e)), (''current_env_hash'', JStr (se_current_env_hash e))]"

definition conclusion_fields :: "function_verification_state \<Rightarrow> fields" where
  "conclusion_fields c =
     [(''function'', JStr (fv_function c)), (''status'', JStr (verification_status_name (fv_status c))),
      (''specs'', JArr (map annotation_json (fv_specs c))), (''wp_summary'', jopt summary_json (fv_wp_summary c)),
      (''notes'', JStr (fv_notes c)), (''callees'', jstrs (fv_callees c)),
      (''callee_spec_hashes'', JObj (map (\<lambda>(k, h). (k, JStr h)) (fv_callee_spec_hashes c))),
      (''stale_dependencies'', JArr (map dependency_json (fv_stale_dependencies c)))] @
     opt_field ''proof_receipt'' (\<lambda>r. r) (fv_proof_receipt c) @
     opt_field ''verify_profile'' JStr (fv_verify_profile c) @ opt_field ''reproduce'' JStr (fv_reproduce c) @
     opt_field ''proof_env_hash'' JStr (fv_proof_env_hash c) @
     opt_field ''stale_proof_environment'' environment_json (fv_stale_proof_environment c) @
     opt_field ''ast_stmt_count'' u32_json (fv_ast_stmt_count c) @
     [(''sandbox_clean'', JBool (fv_sandbox_clean c)), (''annotation_count'', u32_json (fv_annotation_count c)),
      (''sandbox_deleted'', JBool (fv_sandbox_deleted c))]"

text \<open>The manifest names the long texts that exist beside \<open>meta.json\<close>.\<close>

definition long_text_fields :: "(string \<times> string option) list" where
  "long_text_fields = [(''semantic_proof'', Some ''''), (''semiformal_proof'', Some ''''), (''program_summary'', None)]"

definition long_text_manifest :: "string set \<Rightarrow> fields" where
  "long_text_manifest present =
     (let existing = filter (\<lambda>f. f \<in> present) (map (\<lambda>(field, _). field @ ''.md'') long_text_fields)
      in if existing = [] then []
         else [(''_long_text_files'', JObj
           [(''_comment'', JStr (''The truth of the long text field is in the following .md file (same directory). '' @
              ''To see the complete conclusion please call list with kind='' @ [CHR 0x22] @ ''conclusions'' @ [CHR 0x22] @
              '' and function set (automatically assembled from .md)'')),
            (''files'', jstrs existing)])])"

definition meta_json :: "string set \<Rightarrow> function_verification_state \<Rightarrow> json" where
  "meta_json present c = JObj (conclusion_fields c @ long_text_manifest present)"

section \<open>Reading\<close>

definition needed :: "(json \<Rightarrow> 'a option) \<Rightarrow> json \<Rightarrow> string \<Rightarrow> 'a option" where
  "needed f v k = Option.bind (jget v k) f"

definition optional :: "(json \<Rightarrow> 'a option) \<Rightarrow> json \<Rightarrow> string \<Rightarrow> 'a option option" where
  "optional f v k =
     (case jget v k of
        None \<Rightarrow> Some None
      | Some x \<Rightarrow> if x = JNull then Some None else map_option Some (f x))"

definition defaulted :: "'a \<Rightarrow> (json \<Rightarrow> 'a option) \<Rightarrow> json \<Rightarrow> string \<Rightarrow> 'a option" where
  "defaulted d f v k = (case jget v k of None \<Rightarrow> Some d | Some x \<Rightarrow> f x)"

definition of_array :: "(json \<Rightarrow> 'a option) \<Rightarrow> json \<Rightarrow> 'a list option" where
  "of_array f v = Option.bind (as_array v) (\<lambda>xs. those (map f xs))"

fun u32_of :: "json \<Rightarrow> u32 option" where
  "u32_of (JNum (PosInt n)) = (if unat n < 2 ^ 32 then Some (ucast n) else None)"
| "u32_of _ = None"

fun i64_of :: "json \<Rightarrow> 64 word option" where
  "i64_of (JNum (PosInt n)) = (if unat n < 2 ^ 63 then Some n else None)"
| "i64_of (JNum (NegInt n)) = Some n"
| "i64_of _ = None"

definition status_of :: "json \<Rightarrow> verification_status option" where
  "status_of v = Option.bind (as_str v)
     (\<lambda>s. find (\<lambda>st. verification_status_name st = s) [InProgress, Verified, Failed, Unsound, BlockedOnCallee])"

definition source_of :: "json \<Rightarrow> annotation_source option" where
  "source_of v = Option.bind (as_str v)
     (\<lambda>s. if s \<in> {''generated'', ''original'', ''reference''} then Some Generated else None)"

definition annotation_of :: "json \<Rightarrow> annotation_entry option" where
  "annotation_of v =
     Option.bind (needed as_str v ''hash_label'') (\<lambda>hash_label.
     Option.bind (optional as_str v ''user_label'') (\<lambda>user_label.
     Option.bind (needed as_str v ''kind'') (\<lambda>kind.
     Option.bind (needed as_str v ''acsl'') (\<lambda>acsl.
     Option.bind (optional i64_of v ''stmt_id'') (\<lambda>stmt_id.
     Option.bind (needed as_str v ''derived_from'') (\<lambda>derived_from.
     Option.bind (needed source_of v ''source'') (\<lambda>source.
     Option.bind (needed as_str v ''purpose'') (\<lambda>purpose.
     Option.bind (optional as_str v ''proof_target'') (\<lambda>proof_target.
     Option.bind (optional as_str v ''wp_status'') (\<lambda>wp_status.
     Option.bind (optional u32_of v ''wp_time_ms'') (\<lambda>wp_time_ms.
     Option.bind (optional as_str v ''wp_prover'') (\<lambda>wp_prover.
       Some \<lparr>ae_hash_label = hash_label, ae_user_label = user_label, ae_kind = kind, ae_acsl = acsl,
         ae_stmt_id = stmt_id, ae_derived_from = derived_from, ae_source = source, ae_purpose = purpose,
         ae_proof_target = proof_target, ae_wp_status = wp_status, ae_wp_time_ms = wp_time_ms,
         ae_wp_prover = wp_prover\<rparr>))))))))))))"

definition source_assert_of :: "json \<Rightarrow> failed_source_assert option" where
  "source_assert_of v =
     Option.bind (needed u32_of v ''stmt_id'') (\<lambda>stmt_id.
     Option.bind (needed as_str v ''acsl'') (\<lambda>acsl.
     Option.bind (needed as_str v ''kind'') (\<lambda>kind.
       Some \<lparr>fa_stmt_id = stmt_id, fa_acsl = acsl, fa_kind = kind\<rparr>)))"

definition summary_of :: "json \<Rightarrow> wp_goal_summary option" where
  "summary_of v =
     Option.bind (needed u32_of v ''total'') (\<lambda>total_goals.
     Option.bind (needed u32_of v ''valid'') (\<lambda>valid.
     Option.bind (needed u32_of v ''unknown'') (\<lambda>unknown.
     Option.bind (needed u32_of v ''timeout'') (\<lambda>timeout.
     Option.bind (needed u32_of v ''failed'') (\<lambda>failed.
     Option.bind (optional as_str v ''model'') (\<lambda>model.
     Option.bind (optional u32_of v ''timeout_used'') (\<lambda>timeout_used.
     Option.bind (optional u32_of v ''recorded_at_retry'') (\<lambda>recorded_at_retry.
     Option.bind (defaulted [] (of_array as_str) v ''failed_goal_labels'') (\<lambda>labels.
     Option.bind (defaulted [] (of_array source_assert_of) v ''failed_source_asserts'') (\<lambda>asserts.
       Some \<lparr>ws_total = total_goals, ws_valid = valid, ws_unknown = unknown, ws_timeout = timeout,
         ws_failed = failed, ws_model = model, ws_timeout_used = timeout_used,
         ws_recorded_at_retry = recorded_at_retry, ws_failed_goal_labels = labels,
         ws_failed_source_asserts = asserts\<rparr>))))))))))"

definition dependency_of :: "json \<Rightarrow> stale_dependency option" where
  "dependency_of v =
     Option.bind (needed as_str v ''callee'') (\<lambda>callee.
     Option.bind (needed as_str v ''recorded_specs_hash'') (\<lambda>recorded.
     Option.bind (needed as_str v ''current_specs_hash'') (\<lambda>current.
       Some \<lparr>sd_callee = callee, sd_recorded_specs_hash = recorded, sd_current_specs_hash = current\<rparr>)))"

definition environment_of :: "json \<Rightarrow> stale_proof_environment option" where
  "environment_of v =
     Option.bind (needed as_str v ''recorded_env_hash'') (\<lambda>recorded.
     Option.bind (needed as_str v ''current_env_hash'') (\<lambda>current.
       Some \<lparr>se_recorded_env_hash = recorded, se_current_env_hash = current\<rparr>))"

definition hashes_of :: "json \<Rightarrow> (string, string) kv option" where
  "hashes_of v = Option.bind (as_object v) (\<lambda>m. those (map (\<lambda>(k, x). map_option (Pair k) (as_str x)) m))"

definition conclusion_of :: "json \<Rightarrow> function_verification_state option" where
  "conclusion_of v =
     Option.bind (needed as_str v ''function'') (\<lambda>function.
     Option.bind (needed status_of v ''status'') (\<lambda>status.
     Option.bind (needed (of_array annotation_of) v ''specs'') (\<lambda>specs.
     Option.bind (optional summary_of v ''wp_summary'') (\<lambda>wp_summary.
     Option.bind (needed as_str v ''notes'') (\<lambda>notes.
     Option.bind (defaulted [] (of_array as_str) v ''callees'') (\<lambda>callees.
     Option.bind (defaulted [] hashes_of v ''callee_spec_hashes'') (\<lambda>hashes.
     Option.bind (defaulted [] (of_array dependency_of) v ''stale_dependencies'') (\<lambda>dependencies.
     Option.bind (optional Some v ''proof_receipt'') (\<lambda>receipt.
     Option.bind (optional as_str v ''verify_profile'') (\<lambda>profile.
     Option.bind (optional as_str v ''reproduce'') (\<lambda>reproduce.
     Option.bind (optional as_str v ''proof_env_hash'') (\<lambda>env_hash.
     Option.bind (optional environment_of v ''stale_proof_environment'') (\<lambda>environment.
     Option.bind (optional u32_of v ''ast_stmt_count'') (\<lambda>stmts.
     Option.bind (defaulted True as_bool v ''sandbox_clean'') (\<lambda>clean.
     Option.bind (defaulted 0 u32_of v ''annotation_count'') (\<lambda>annotations.
     Option.bind (defaulted False as_bool v ''sandbox_deleted'') (\<lambda>deleted.
       Some \<lparr>fv_function = function, fv_status = status, fv_specs = specs, fv_wp_summary = wp_summary,
         fv_notes = notes, fv_callees = callees, fv_callee_spec_hashes = hashes,
         fv_stale_dependencies = dependencies, fv_proof_receipt = receipt, fv_verify_profile = profile,
         fv_reproduce = reproduce, fv_proof_env_hash = env_hash, fv_stale_proof_environment = environment,
         fv_ast_stmt_count = stmts, fv_sandbox_clean = clean, fv_annotation_count = annotations,
         fv_sandbox_deleted = deleted\<rparr>)))))))))))))))))"

section \<open>What is written is read back\<close>

lemma opt_field_lookup [json_simps]:
  "x \<noteq> k \<Longrightarrow> map_of (opt_field k f v) x = None"
  "x \<noteq> k \<Longrightarrow> map_of (opt_field k f v @ rest) x = map_of rest x"
  "map_of (opt_field k f v) k = map_option f v"
  "map_of rest k = None \<Longrightarrow> map_of (opt_field k f v @ rest) k = map_option f v"
  by (auto simp: opt_field_def split: option.splits)

lemma list_field_lookup [json_simps]:
  "x \<noteq> k \<Longrightarrow> map_of (list_field k f xs) x = None"
  "x \<noteq> k \<Longrightarrow> map_of (list_field k f xs @ rest) x = map_of rest x"
  "map_of (list_field k f xs) k = (if xs = [] then None else Some (JArr (map f xs)))"
  "map_of rest k = None \<Longrightarrow>
     map_of (list_field k f xs @ rest) k = (if xs = [] then None else Some (JArr (map f xs)))"
  by (auto simp: list_field_def)

lemma u32_widened: "unat (ucast (n :: u32) :: u64) = unat n"
proof -
  have "unat n < 2 ^ 32" using unsigned_less [of n] by simp
  then have "take_bit 64 (unat n) = unat n" by (intro take_bit_nat_eq_self) simp
  moreover have "unat (ucast n :: u64) = take_bit LENGTH(64) (unat n)" by (rule unsigned_ucast_eq)
  ultimately show ?thesis by simp
qed

lemma u32_narrowed:
  assumes "unat (m :: u64) < 2 ^ 32"
  shows "unat (ucast m :: u32) = unat m"
proof -
  have "take_bit 32 (unat m) = unat m" using assms by (intro take_bit_nat_eq_self) simp
  moreover have "unat (ucast m :: u32) = take_bit LENGTH(32) (unat m)" by (rule unsigned_ucast_eq)
  ultimately show ?thesis by simp
qed

lemma u32_of_json [json_simps]: "u32_of (u32_json n) = Some n"
proof -
  have n: "unat n < 2 ^ 32" using unsigned_less [of n] by simp
  have "unat (ucast (ucast n :: u64) :: u32) = unat n"
    using u32_narrowed [of "ucast n"] n by (simp only: u32_widened)
  then have "(ucast (ucast n :: u64) :: u32) = n" by (simp only: word_unat_eq_iff)
  with n show ?thesis by (simp add: u32_json_def u32_widened)
qed

lemma top_bit: "0 \<le> u \<Longrightarrow> u < 2 ^ 64 \<Longrightarrow> \<not> bit (u :: int) 63 \<Longrightarrow> u < 2 ^ 63"
proof -
  assume u: "0 \<le> u" "u < 2 ^ 64" "\<not> bit u 63"
  have "u div 2 ^ 63 \<le> (2 ^ 64 - 1) div 2 ^ 63" using u(2) by (intro zdiv_mono1) simp_all
  then have "u div 2 ^ 63 < 2" by simp
  moreover have "0 \<le> u div 2 ^ 63" using u(1) by simp
  moreover have "even (u div 2 ^ 63)" using u(3) by (simp add: bit_iff_odd)
  moreover have "q = 0" if "q < 2" "0 \<le> q" "even q" for q :: int using that by presburger
  ultimately have "u div 2 ^ 63 = 0" by blast
  then show ?thesis using u(1) by (metis div_mult_mod_eq add_0 mult_zero_left pos_mod_bound zero_less_numeral zero_less_power)
qed
lemma nonneg_top_bit: assumes nonneg: "0 \<le> sint (n :: 64 word)" shows "\<not> bit (uint n) 63"
proof
  assume "bit (uint n) 63"
  have less: "uint n < 2 ^ 64" using unsigned_less [of n] by simp
  have full: "take_bit (Suc 63) (uint n) = uint n" by (rule take_bit_int_eq_self) (use less in \<open>simp_all\<close>)
  have "signed_take_bit 63 (uint n) = take_bit (Suc 63) (uint n) - 2 ^ Suc 63 * of_bool (bit (uint n) 63)"
    by (rule signed_take_bit_eq_take_bit_minus)
  then have "signed_take_bit 63 (uint n) = uint n - 2 ^ Suc 63" unfolding full using \<open>bit (uint n) 63\<close> by (simp only: of_bool_eq mult_1_right)
  moreover have "sint n = signed_take_bit (LENGTH(64) - Suc 0) (uint n)" by (rule sint_uint)
  ultimately show False using nonneg less by simp
qed

lemma i64_of_json [json_simps]: "i64_of (i64_json n) = Some n"
proof -
  have "unat n < 2 ^ 63" if "0 \<le> sint n"
  proof -
    have "uint n < 2 ^ 64" using unsigned_less [of n] by simp
    from top_bit [OF _ this nonneg_top_bit [OF that]] have "int (unat n) < int (2 ^ 63)" by simp
    then show ?thesis by (simp only: of_nat_less_iff)
  qed
  then show ?thesis by (simp add: i64_json_def)
qed

lemma those_map_inverse: "(\<And>x. g (f x) = Some x) \<Longrightarrow> those (map g (map f xs)) = Some xs"
  by (induction xs) simp_all

lemma of_array_json: "(\<And>x. g (f x) = Some x) \<Longrightarrow> of_array g (JArr (map f xs)) = Some xs"
  using those_map_inverse [of g f xs] by (simp add: of_array_def)

lemma optional_json:
  assumes "jget v k = map_option f x" and "\<And>y. f y \<noteq> JNull" "\<And>y. g (f y) = Some y"
  shows "optional g v k = Some x"
  using assms by (cases x) (simp_all add: optional_def)

lemma defaulted_json:
  assumes "jget v k = (if xs = [] then None else Some (JArr (map f xs)))" and "\<And>y. g (f y) = Some y"
  shows "defaulted [] (of_array g) v k = Some xs"
  using assms of_array_json [of g f xs] by (cases xs) (simp_all add: defaulted_def)

lemma not_null [json_simps]:
  "u32_json n \<noteq> JNull" "i64_json i \<noteq> JNull" "summary_json w \<noteq> JNull" "environment_json e \<noteq> JNull"
  by (simp_all add: u32_json_def i64_json_def summary_json_def environment_json_def)

lemma source_assert_of_json: "source_assert_of (source_assert_json a) = Some a"
  by (simp add: source_assert_of_def source_assert_json_def needed_def json_simps)

lemma dependency_of_json: "dependency_of (dependency_json d) = Some d"
  by (simp add: dependency_of_def dependency_json_def needed_def)

lemma environment_of_json: "environment_of (environment_json e) = Some e"
  by (simp add: environment_of_def environment_json_def needed_def)

lemma status_of_json: "status_of (JStr (verification_status_name st)) = Some st"
  by (cases st) (simp_all add: status_of_def)

lemma hashes_of_json: "hashes_of (JObj (map (\<lambda>(k, h). (k, JStr h)) m)) = Some m"
proof -
  have "those (map (\<lambda>(k, x). map_option (Pair k) (as_str x)) (map (\<lambda>(k, h). (k, JStr h)) m)) = Some m"
    by (rule those_map_inverse) auto
  then show ?thesis by (simp add: hashes_of_def)
qed

text \<open>The fields of an annotation and of a summary, one by one.\<close>

lemma annotation_fields:
  "needed as_str (annotation_json a) ''hash_label'' = Some (ae_hash_label a)"
  "needed as_str (annotation_json a) ''kind'' = Some (ae_kind a)"
  "needed as_str (annotation_json a) ''acsl'' = Some (ae_acsl a)"
  "needed as_str (annotation_json a) ''derived_from'' = Some (ae_derived_from a)"
  "needed source_of (annotation_json a) ''source'' = Some (ae_source a)"
  "needed as_str (annotation_json a) ''purpose'' = Some (ae_purpose a)"
  by (cases "ae_source a"; simp add: needed_def annotation_json_def source_of_def json_simps del: map_of_append)+

lemma annotation_options:
  "optional as_str (annotation_json a) ''user_label'' = Some (ae_user_label a)"
  "optional i64_of (annotation_json a) ''stmt_id'' = Some (ae_stmt_id a)"
  "optional as_str (annotation_json a) ''proof_target'' = Some (ae_proof_target a)"
  "optional as_str (annotation_json a) ''wp_status'' = Some (ae_wp_status a)"
  "optional u32_of (annotation_json a) ''wp_time_ms'' = Some (ae_wp_time_ms a)"
  "optional as_str (annotation_json a) ''wp_prover'' = Some (ae_wp_prover a)"
  by (rule optional_json [where f = JStr]; simp add: annotation_json_def json_simps del: map_of_append
      | rule optional_json [where f = i64_json]; simp add: annotation_json_def json_simps del: map_of_append
      | rule optional_json [where f = u32_json]; simp add: annotation_json_def json_simps del: map_of_append)+

lemma annotation_of_json: "annotation_of (annotation_json a) = Some a"
  by (simp add: annotation_of_def annotation_fields annotation_options)

lemma summary_fields:
  "needed u32_of (summary_json w) ''total'' = Some (ws_total w)"
  "needed u32_of (summary_json w) ''valid'' = Some (ws_valid w)"
  "needed u32_of (summary_json w) ''unknown'' = Some (ws_unknown w)"
  "needed u32_of (summary_json w) ''timeout'' = Some (ws_timeout w)"
  "needed u32_of (summary_json w) ''failed'' = Some (ws_failed w)"
  by (simp add: needed_def summary_json_def json_simps del: map_of_append)+

lemma summary_options:
  "optional as_str (summary_json w) ''model'' = Some (ws_model w)"
  "optional u32_of (summary_json w) ''timeout_used'' = Some (ws_timeout_used w)"
  "optional u32_of (summary_json w) ''recorded_at_retry'' = Some (ws_recorded_at_retry w)"
  by (rule optional_json [where f = JStr]; simp add: summary_json_def json_simps del: map_of_append
      | rule optional_json [where f = u32_json]; simp add: summary_json_def json_simps del: map_of_append)+

lemma summary_lists:
  "defaulted [] (of_array as_str) (summary_json w) ''failed_goal_labels'' = Some (ws_failed_goal_labels w)"
  "defaulted [] (of_array source_assert_of) (summary_json w) ''failed_source_asserts'' = Some (ws_failed_source_asserts w)"
  by (rule defaulted_json [where f = JStr]; simp add: summary_json_def json_simps del: map_of_append)
    (rule defaulted_json [where f = source_assert_json]; simp add: summary_json_def json_simps source_assert_of_json
      del: map_of_append)

lemma summary_of_json: "summary_of (summary_json w) = Some w"
  by (simp add: summary_of_def summary_fields summary_options summary_lists)

text \<open>The fields of a conclusion.\<close>

lemma long_text_manifest_lookup [json_simps]:
  "k \<noteq> ''_long_text_files'' \<Longrightarrow> map_of (long_text_manifest present) k = None"
  by (simp add: long_text_manifest_def Let_def)

lemma meta_needed:
  "needed as_str (meta_json present c) ''function'' = Some (fv_function c)"
  "needed status_of (meta_json present c) ''status'' = Some (fv_status c)"
  "needed (of_array annotation_of) (meta_json present c) ''specs'' = Some (fv_specs c)"
  "needed as_str (meta_json present c) ''notes'' = Some (fv_notes c)"
  by (simp_all add: needed_def meta_json_def conclusion_fields_def status_of_json of_array_json annotation_of_json
      del: map_of_append)

lemma meta_optional:
  "optional as_str (meta_json present c) ''verify_profile'' = Some (fv_verify_profile c)"
  "optional as_str (meta_json present c) ''reproduce'' = Some (fv_reproduce c)"
  "optional as_str (meta_json present c) ''proof_env_hash'' = Some (fv_proof_env_hash c)"
  "optional environment_of (meta_json present c) ''stale_proof_environment'' = Some (fv_stale_proof_environment c)"
  "optional u32_of (meta_json present c) ''ast_stmt_count'' = Some (fv_ast_stmt_count c)"
  by (rule optional_json [where f = JStr]; simp add: meta_json_def conclusion_fields_def json_simps del: map_of_append
      | rule optional_json [where f = environment_json]; simp add: meta_json_def conclusion_fields_def json_simps
          environment_of_json del: map_of_append
      | rule optional_json [where f = u32_json]; simp add: meta_json_def conclusion_fields_def json_simps del: map_of_append)+

lemma meta_summary: "optional summary_of (meta_json present c) ''wp_summary'' = Some (fv_wp_summary c)"
  by (cases "fv_wp_summary c")
    (simp_all add: optional_def meta_json_def conclusion_fields_def jopt_def json_simps summary_of_json del: map_of_append)

lemma meta_receipt:
  "optional Some (meta_json present c) ''proof_receipt'' =
     Some (if fv_proof_receipt c = Some JNull then None else fv_proof_receipt c)"
  by (cases "fv_proof_receipt c") (simp_all add: optional_def meta_json_def conclusion_fields_def json_simps del: map_of_append)

lemma meta_defaulted:
  "defaulted [] (of_array as_str) (meta_json present c) ''callees'' = Some (fv_callees c)"
  "defaulted [] hashes_of (meta_json present c) ''callee_spec_hashes'' = Some (fv_callee_spec_hashes c)"
  "defaulted [] (of_array dependency_of) (meta_json present c) ''stale_dependencies'' = Some (fv_stale_dependencies c)"
  "defaulted True as_bool (meta_json present c) ''sandbox_clean'' = Some (fv_sandbox_clean c)"
  "defaulted 0 u32_of (meta_json present c) ''annotation_count'' = Some (fv_annotation_count c)"
  "defaulted False as_bool (meta_json present c) ''sandbox_deleted'' = Some (fv_sandbox_deleted c)"
  by (simp_all add: defaulted_def meta_json_def conclusion_fields_def json_simps hashes_of_json jstrs_def of_array_json
      dependency_of_json del: map_of_append)

text \<open>A conclusion is read back as it was written, whatever long texts the manifest names beside it; only a
  receipt that is the value \<open>null\<close> comes back as no receipt.\<close>

lemma conclusion_of_meta:
  "conclusion_of (meta_json present c) =
     Some (c\<lparr>fv_proof_receipt := (if fv_proof_receipt c = Some JNull then None else fv_proof_receipt c)\<rparr>)"
  by (simp add: conclusion_of_def meta_needed meta_optional meta_summary meta_receipt meta_defaulted)

end
