(* ===== verification/Output_Path.thy ===== *)
theory Output_Path
  imports Json
begin

text \<open>
  Which paths a caller may name (src/src/mcp/store.rs): segments that become directory names, and output
  files, which must stay inside the working directory. A path is the list of its components.
\<close>

section \<open>Path segments\<close>

definition is_safe_path_segment :: "string \<Rightarrow> bool" where
  "is_safe_path_segment v \<longleftrightarrow>
     v \<noteq> [] \<and> length v \<le> 128 \<and>
     (\<forall>c \<in> set v. is_ascii_alphanumeric c \<or> c = CHR ''_'' \<or> c = CHR ''-'')"

datatype path_error =
    UnsafePathSegment string string
  | OutputPathOutside string
  | SocketPathTooLong nat nat

definition require_safe_path_segment :: "string \<Rightarrow> string \<Rightarrow> path_error + unit" where
  "require_safe_path_segment v field =
     (if is_safe_path_segment v then Inr () else Inl (UnsafePathSegment field v))"

section \<open>Output paths\<close>

text \<open>
  \<open>Path::components\<close> of an absolute path: empty parts and \<open>.\<close> disappear, \<open>..\<close> stays. A path that
  starts with a slash is absolute; \<open>join\<close> with an absolute path is that path.
\<close>

datatype component = Normal string | ParentDir

type_synonym path = "string list"

definition absolute_components :: "string \<Rightarrow> component list" where
  "absolute_components p =
     map (\<lambda>s. if s = ''..'' then ParentDir else Normal s)
       (filter (\<lambda>s. s \<noteq> [] \<and> s \<noteq> ''.'') (split_on (CHR ''/'') p))"

definition is_absolute :: "string \<Rightarrow> bool" where
  "is_absolute p \<longleftrightarrow> starts_with p ''/''"

text \<open>The loop over the components; \<open>None\<close> is a path that climbs above the root.\<close>

fun normalize_components :: "component list \<Rightarrow> path \<Rightarrow> path option" where
  "normalize_components [] normalized = Some normalized"
| "normalize_components (Normal s # cs) normalized = normalize_components cs (normalized @ [s])"
| "normalize_components (ParentDir # cs) normalized =
     (if normalized = [] then None else normalize_components cs (butlast normalized))"

definition path_starts_with :: "path \<Rightarrow> path \<Rightarrow> bool" where
  "path_starts_with p base \<longleftrightarrow> take (length base) p = base"

text \<open>
  The file system the code looks at: what is at a path none of whose own components is a link. The root is
  a directory. A lookup follows links as the kernel does, at most forty of them; \<open>exists\<close> and \<open>canonicalize\<close>
  answer what it reaches, so a link that leads nowhere does not exist. \<open>fs_error\<close> is the text of an error.
\<close>

datatype node = Dir | File | Link string

record file_system =
  fs_node :: "path \<Rightarrow> node option"
  fs_error :: "path \<Rightarrow> string"

definition max_links :: nat where
  "max_links = 40"

fun follow :: "file_system \<Rightarrow> nat \<Rightarrow> path \<Rightarrow> component list \<Rightarrow> path option" where
  "follow fs n cur [] = Some cur"
| "follow fs n cur (ParentDir # cs) = follow fs n (butlast cur) cs"
| "follow fs n cur (Normal s # cs) =
     (case fs_node fs (cur @ [s]) of
        None \<Rightarrow> None
      | Some Dir \<Rightarrow> follow fs n (cur @ [s]) cs
      | Some File \<Rightarrow> if cs = [] then Some (cur @ [s]) else None
      | Some (Link target) \<Rightarrow>
          (case n of
             0 \<Rightarrow> None
           | Suc m \<Rightarrow> follow fs m (if is_absolute target then [] else cur) (absolute_components target @ cs)))"

definition reached :: "file_system \<Rightarrow> path \<Rightarrow> path option" where
  "reached fs p = follow fs max_links [] (map Normal p)"

definition fs_exists :: "file_system \<Rightarrow> path \<Rightarrow> bool" where
  "fs_exists fs p \<longleftrightarrow> reached fs p \<noteq> None"

definition fs_canonicalize :: "file_system \<Rightarrow> path \<Rightarrow> string + path" where
  "fs_canonicalize fs p = (case reached fs p of None \<Rightarrow> Inl (fs_error fs p) | Some r \<Rightarrow> Inr r)"

definition ancestors :: "path \<Rightarrow> path list" where
  "ancestors p = map (\<lambda>n. take n p) (rev [0..<length p + 1])"

definition resolve_output_path_in :: "file_system \<Rightarrow> path \<Rightarrow> string \<Rightarrow> path_error + path" where
  "resolve_output_path_in fs root p =
     (let real_root = (case fs_canonicalize fs root of Inr r \<Rightarrow> r | Inl _ \<Rightarrow> root);
          joined = (if is_absolute p then absolute_components p else map Normal real_root @ absolute_components p)
      in case normalize_components joined [] of
           None \<Rightarrow> Inl (OutputPathOutside ''path climbs above the filesystem root'')
         | Some normalized \<Rightarrow>
             if \<not> path_starts_with normalized real_root then Inl (OutputPathOutside ''resolved outside it'')
             else (case find (fs_exists fs) (ancestors normalized) of
                 None \<Rightarrow> Inl (OutputPathOutside ''no existing ancestor to check'')
               | Some existing \<Rightarrow>
                   (case fs_canonicalize fs existing of
                      Inl e \<Rightarrow> Inl (OutputPathOutside (''cannot resolve: '' @ e))
                    | Inr real \<Rightarrow>
                        if path_starts_with real real_root then Inr normalized
                        else Inl (OutputPathOutside ''a symlink on the path leaves the working directory''))))"

text \<open>
  Where the file of an accepted path goes: the context tool makes the missing directories above it and writes
  it. Components of the path that are missing are made as directories; the last one is created, through
  a link if one is there, when the directory the link leads into exists. \<open>None\<close> is a write that fails.
\<close>

fun lands :: "file_system \<Rightarrow> nat \<Rightarrow> path \<Rightarrow> component list \<Rightarrow> path \<Rightarrow> path option" where
  "lands fs n cur [] [] = None"
| "lands fs n cur [] (s # names) =
     (case fs_node fs (cur @ [s]) of
        None \<Rightarrow> Some (cur @ s # names)
      | Some Dir \<Rightarrow> lands fs n (cur @ [s]) [] names
      | Some File \<Rightarrow> if names = [] then Some (cur @ [s]) else None
      | Some (Link target) \<Rightarrow>
          (case n of
             0 \<Rightarrow> None
           | Suc m \<Rightarrow> lands fs m (if is_absolute target then [] else cur) (absolute_components target) names))"
| "lands fs n cur (ParentDir # cs) names = lands fs n (butlast cur) cs names"
| "lands fs n cur (Normal s # cs) names =
     (case fs_node fs (cur @ [s]) of
        None \<Rightarrow> if cs = [] \<and> names = [] then Some (cur @ [s]) else None
      | Some Dir \<Rightarrow> lands fs n (cur @ [s]) cs names
      | Some File \<Rightarrow> if cs = [] \<and> names = [] then Some (cur @ [s]) else None
      | Some (Link target) \<Rightarrow>
          (case n of
             0 \<Rightarrow> None
           | Suc m \<Rightarrow> lands fs m (if is_absolute target then [] else cur) (absolute_components target @ cs) names))"

definition write_output :: "file_system \<Rightarrow> path \<Rightarrow> path option" where
  "write_output fs out = lands fs max_links [] [] out"

section \<open>Output paths stay inside\<close>

definition proper_name :: "string \<Rightarrow> bool" where
  "proper_name s \<longleftrightarrow> s \<noteq> [] \<and> s \<noteq> ''.'' \<and> s \<noteq> ''..'' \<and> CHR ''/'' \<notin> set s"

lemma absolute_components_proper: "Normal s \<in> set (absolute_components p) \<Longrightarrow> proper_name s"
  by (auto simp: absolute_components_def proper_name_def dest: split_on_no_sep split: if_splits)

lemma normalize_names:
  "normalize_components cs acc = Some out \<Longrightarrow> set out \<subseteq> set acc \<union> {s. Normal s \<in> set cs}"
proof (induction cs acc rule: normalize_components.induct)
  case (3 cs normalized)
  then have "set out \<subseteq> set (butlast normalized) \<union> {s. Normal s \<in> set cs}" by (auto split: if_splits)
  then show ?case by (auto dest: in_set_butlastD)
qed auto

lemma find_ancestor:
  assumes "find P (ancestors p) = Some anc"
  shows "\<exists>rest. p = anc @ rest \<and> P anc \<and> (\<forall>n. length anc < n \<longrightarrow> n \<le> length p \<longrightarrow> \<not> P (take n p))"
proof -
  have "length (ancestors p) = length p + 1" by (simp add: ancestors_def)
  then obtain i where i: "i < length p + 1" "anc = ancestors p ! i" "P anc" "\<And>j. j < i \<Longrightarrow> \<not> P (ancestors p ! j)"
    using assms by (auto simp: find_Some_iff)
  have nth: "j < length p + 1 \<Longrightarrow> ancestors p ! j = take (length p - j) p" for j
    by (simp add: ancestors_def rev_nth del: upt_Suc)
  have anc: "anc = take (length p - i) p" using i nth by simp
  have "\<not> P (take n p)" if "length anc < n" "n \<le> length p" for n
    using i(4) [of "length p - n"] nth [of "length p - n"] that anc i(1) by simp
  with i(3) anc show ?thesis by (intro exI [of _ "drop (length p - i) p"]) auto
qed

lemma path_starts_with_append: "path_starts_with p base \<Longrightarrow> path_starts_with (p @ rest) base"
  by (auto simp: path_starts_with_def take_all_iff) (metis append_take_drop_id length_take min.absorb_iff2 nat_le_linear take_all)

text \<open>A lookup that reaches a directory goes on from there, and so does a write below it.\<close>

definition tree_ok :: "file_system \<Rightarrow> bool" where
  "tree_ok fs \<longleftrightarrow> (\<forall>p s. fs_node fs (p @ [s]) \<noteq> None \<longrightarrow> p = [] \<or> fs_node fs p = Some Dir)"

definition is_dir :: "file_system \<Rightarrow> path \<Rightarrow> bool" where
  "is_dir fs p \<longleftrightarrow> p = [] \<or> fs_node fs p = Some Dir"

lemma is_dir_butlast: "tree_ok fs \<Longrightarrow> is_dir fs p \<Longrightarrow> is_dir fs (butlast p)"
  by (cases p rule: rev_cases) (auto simp: is_dir_def tree_ok_def)

lemma follow_lands:
  assumes "tree_ok fs" "is_dir fs cur" "follow fs n cur (cs @ map Normal names) = Some r"
  shows "is_dir fs r \<and> (\<exists>m. (\<forall>ds. follow fs n cur (cs @ map Normal names @ ds) = follow fs m r ds) \<and>
        (\<forall>more. lands fs n cur cs (names @ more) = lands fs m r [] more)) \<or>
    fs_node fs r = Some File \<and> (\<forall>more. lands fs n cur cs (names @ more) = (if more = [] then Some r else None))"
  using assms
proof (induction fs n cur cs names rule: lands.induct)
  case (1 fs n cur)
  then show ?case by auto
next
  case (2 fs n cur s names)
  show ?case
  proof (cases "fs_node fs (cur @ [s])")
    case (Some x)
    with 2 show ?thesis
      by (cases x; cases n) (auto simp: is_dir_def split: if_splits)
  qed (use 2 in simp)
next
  case (3 fs n cur cs names)
  then show ?case by (simp add: is_dir_butlast)
next
  case (4 fs n cur s cs names)
  show ?case
  proof (cases "fs_node fs (cur @ [s])")
    case (Some x)
    with 4 show ?thesis
      by (cases x; cases n) (auto simp: is_dir_def split: if_splits)
  qed (use 4 in simp)
qed

text \<open>Through a link that leads nowhere only the file itself can be made.\<close>

lemma lands_dangling:
  "follow fs n cur cs = None \<Longrightarrow> lands fs n cur cs names = Some place \<Longrightarrow> names = []"
proof (induction fs n cur cs rule: follow.induct)
  case (3 fs n cur s cs)
  then show ?case
    by (cases "fs_node fs (cur @ [s])"; cases n) (auto split: node.splits if_splits)
qed auto

lemma path_starts_with_refl_append: "path_starts_with (p @ rest) p"
  by (simp add: path_starts_with_def)

lemma write_below:
  assumes "tree_ok fs" and anc: "reached fs anc = Some real"
    and missing: "\<And>s more. rest = s # more \<Longrightarrow> \<not> fs_exists fs (anc @ [s])"
    and place: "write_output fs (anc @ rest) = Some place"
  shows "place = real @ rest \<or> (\<exists>s target. rest = [s] \<and> fs_node fs (real @ [s]) = Some (Link target))"
proof -
  have root: "is_dir fs []" by (simp add: is_dir_def)
  have "follow fs max_links [] ([] @ map Normal anc) = Some real" using anc by (simp add: reached_def)
  from follow_lands [OF assms(1) root this] show ?thesis
  proof (elim disjE conjE exE)
    fix m
    assume dir: "is_dir fs real"
      and steps: "\<forall>ds. follow fs max_links [] ([] @ map Normal anc @ ds) = follow fs m real ds"
      and puts: "\<forall>more. lands fs max_links [] [] (anc @ more) = lands fs m real [] more"
    from place puts have at: "lands fs m real [] rest = Some place" by (simp add: write_output_def)
    show ?thesis
    proof (cases rest)
      case Nil
      with at show ?thesis by simp
    next
      case (Cons s more)
      have none: "follow fs m real [Normal s] = None"
        using missing [OF Cons] steps by (simp add: fs_exists_def reached_def)
      show ?thesis
      proof (cases "fs_node fs (real @ [s])")
        case None
        with at Cons show ?thesis by simp
      next
        case (Some x)
        with none obtain target where x: "x = Link target" by (cases x) auto
        with at Some Cons obtain k where
          "lands fs k (if is_absolute target then [] else real) (absolute_components target) more = Some place"
          "follow fs k (if is_absolute target then [] else real) (absolute_components target) = None"
          using none by (cases m) auto
        from lands_dangling [OF this(2) this(1)] Some x Cons show ?thesis by simp
      qed
    qed
  next
    assume "\<forall>more. lands fs max_links [] [] (anc @ more) = (if more = [] then Some real else None)"
    with place show ?thesis by (auto simp: write_output_def split: if_splits)
  qed
qed

text \<open>C15: an output path that is accepted stays inside the working directory, by name and by what the
  file system makes of it, with one exception. Its nearest existing ancestor, symbolic links resolved, lies
  under the real root and below it nothing exists; the names the caller contributed are plain, none of them
  empty, a dot, a dot-dot or holding a slash; and the file the server then writes lands under the real root,
  unless the path itself is a link that leads nowhere, in a directory under the real root.\<close>

theorem output_stays_inside:
  assumes "tree_ok fs" "resolve_output_path_in fs root p = Inr out"
    and "real_root = (case fs_canonicalize fs root of Inr r \<Rightarrow> r | Inl _ \<Rightarrow> root)"
  shows "path_starts_with out real_root \<and> set out \<subseteq> set real_root \<union> Collect proper_name \<and>
    (\<exists>anc rest real. out = anc @ rest \<and> fs_canonicalize fs anc = Inr real \<and> path_starts_with real real_root \<and>
       (\<forall>n. length anc < n \<longrightarrow> n \<le> length out \<longrightarrow> \<not> fs_exists fs (take n out)) \<and>
       (\<forall>place. write_output fs out = Some place \<longrightarrow>
          path_starts_with place real_root \<or>
          (\<exists>s target. rest = [s] \<and> fs_node fs (real @ [s]) = Some (Link target))))"
proof -
  obtain joined existing real where
    joined: "joined = (if is_absolute p then absolute_components p else map Normal real_root @ absolute_components p)" and
    norm: "normalize_components joined [] = Some out" and lex: "path_starts_with out real_root" and
    anc: "find (fs_exists fs) (ancestors out) = Some existing" and
    real: "fs_canonicalize fs existing = Inr real" "path_starts_with real real_root"
    using assms(2,3) by (auto simp: resolve_output_path_in_def Let_def split: option.splits sum.splits if_splits)
  have "set out \<subseteq> {s. Normal s \<in> set joined}" using normalize_names [OF norm] by simp
  then have names: "set out \<subseteq> set real_root \<union> Collect proper_name"
    unfolding joined by (auto dest: absolute_components_proper split: if_splits)
  from find_ancestor [OF anc] obtain rest where rest: "out = existing @ rest"
      "\<forall>n. length existing < n \<longrightarrow> n \<le> length out \<longrightarrow> \<not> fs_exists fs (take n out)"
    by blast
  have "reached fs existing = Some real" using real(1) by (simp add: fs_canonicalize_def split: option.splits)
  moreover have "\<not> fs_exists fs (existing @ [s])" if "rest = s # more" for s more
    using rest(2) [rule_format, of "length existing + 1"] that by (simp add: rest(1))
  ultimately have "path_starts_with place real_root \<or> (\<exists>s target. rest = [s] \<and> fs_node fs (real @ [s]) = Some (Link target))"
    if "write_output fs out = Some place" for place
    using write_below [OF assms(1), of existing real rest place] that path_starts_with_append [OF real(2), of rest]
    unfolding rest(1) by blast
  then show ?thesis
    by (intro conjI lex names exI [of _ existing] exI [of _ rest] exI [of _ real] rest real allI impI)
qed

text \<open>A working directory with a link to a place outside it that does not exist yet.\<close>

definition small_tree :: file_system where
  "small_tree = \<lparr>fs_node = (\<lambda>q. if q = [''w''] \<or> q = [''outside''] then Some Dir
       else if q = [''w'', ''link''] then Some (Link ''/outside/new'') else None),
     fs_error = (\<lambda>_. ''no such file'')\<rparr>"

lemma small_tree_ok: "tree_ok small_tree"
  by (auto simp: tree_ok_def small_tree_def append_eq_Cons_conv)

theorem output_stays_inside_witness:
  "resolve_output_path_in small_tree [''w''] ''out/../r.json'' = Inr [''w'', ''r.json''] \<and>
   write_output small_tree [''w'', ''r.json''] = Some [''w'', ''r.json''] \<and>
   path_starts_with [''w'', ''r.json''] [''w'']"
proof -
  have r: "resolve_output_path_in small_tree [''w''] ''out/../r.json'' = Inr [''w'', ''r.json'']" by code_simp
  have "write_output small_tree [''w'', ''r.json''] = Some [''w'', ''r.json'']" by code_simp
  moreover have "[''w''] = (case fs_canonicalize small_tree [''w''] of Inr r \<Rightarrow> r | Inl _ \<Rightarrow> [''w''])" by code_simp
  from output_stays_inside [OF small_tree_ok r this] have "path_starts_with [''w'', ''r.json''] [''w'']" by blast
  ultimately show ?thesis using r by blast
qed

text \<open>The exception is real: the check finds the working directory as the nearest existing ancestor of the link,
  and the write goes through the link.\<close>

lemma dangling_link_escapes:
  "resolve_output_path_in small_tree [''w''] ''link'' = Inr [''w'', ''link''] \<and>
   write_output small_tree [''w'', ''link''] = Some [''outside'', ''new'']"
  by code_simp

end
