(* ===== verification/Store.thy ===== *)
theory Store
  imports Conclusion_Json Output_Path "HOL-Library.Countable"
begin

text \<open>
  What the server keeps on disk (src/src/mcp/store.rs): sandbox records, the private directory, and the
  conclusions, one directory per function with the text of its \<open>meta.json\<close>. Temporary-file sweeps and the
  advisory lock are not modelled: a write is the atomic rename the code ends with, and it can fail.
\<close>

section \<open>Sandbox directories\<close>

definition path_text :: "path \<Rightarrow> string" where
  "path_text p = concat (map (\<lambda>s. CHR ''/'' # s) p)"

fun component_text :: "component \<Rightarrow> string" where
  "component_text (Normal s) = s"
| "component_text ParentDir = ''..''"

text \<open>The user id is what \<open>getuid\<close> answers; \<open>cwd\<close> is the working directory.\<close>

definition private_root_path :: "u32 \<Rightarrow> path" where
  "private_root_path uid = [''tmp'', ''fcmcp-'' @ show_nat (unat uid)]"

definition expected_sandbox_dir :: "externals \<Rightarrow> u32 \<Rightarrow> path \<Rightarrow> string \<Rightarrow> string \<Rightarrow> path" where
  "expected_sandbox_dir E uid cwd base_dir experiment_id =
     (let absolute = (if is_absolute base_dir then absolute_components base_dir
            else map Normal cwd @ absolute_components base_dir);
          owner = take 8 (sha256_hex E (path_text (map component_text absolute)))
      in private_root_path uid @ [''sb-'' @ owner @ ''-'' @ experiment_id])"

definition sun_path_max :: nat where
  "sun_path_max = 108"

definition sandbox_socket_path_error :: "path \<Rightarrow> path_error + unit" where
  "sandbox_socket_path_error sandbox_dir =
     (let len = length (path_text (sandbox_dir @ [''frama-c.sock'']))
      in if sun_path_max < len + 1 then Inl (SocketPathTooLong len (len + 1 - sun_path_max)) else Inr ())"

record sandbox_rte =
  sr_unsigned :: bool
  sr_pointer :: bool

record sandbox_metadata =
  sb_experiment_id :: string
  sb_original_function :: string
  sb_sandbox_dir :: path
  sb_sandbox_socket :: path
  sb_sandbox_pid :: u32
  sb_declaration_marker :: string
  sb_created_at :: string
  sb_last_activity :: string
  sb_deleted :: bool
  sb_command_line :: "string list"
  sb_stdout_log_path :: "path option"
  sb_stderr_log_path :: "path option"
  sb_startup_stderr_tail :: "string option"
  sb_rte :: sandbox_rte

text \<open>The server's place in the file system: what \<open>expected_sandbox_dir\<close> needs besides the id.\<close>

record sandbox_place =
  pl_uid :: u32
  pl_cwd :: path
  pl_base_dir :: string

definition expected_dir :: "externals \<Rightarrow> sandbox_place \<Rightarrow> string \<Rightarrow> path" where
  "expected_dir E pl = expected_sandbox_dir E (pl_uid pl) (pl_cwd pl) (pl_base_dir pl)"

definition has_expected_sandbox_paths :: "externals \<Rightarrow> sandbox_place \<Rightarrow> sandbox_metadata \<Rightarrow> bool" where
  "has_expected_sandbox_paths E pl sb \<longleftrightarrow>
     (let dir = expected_dir E pl (sb_experiment_id sb)
      in sb_sandbox_dir sb = dir \<and> sb_sandbox_socket sb = dir @ [''frama-c.sock''])"

text \<open>The file is \<open>None\<close> when it is missing or does not parse.\<close>

type_synonym sandbox_file = "sandbox_metadata list option"

definition load_sandbox_metadata :: "externals \<Rightarrow> sandbox_place \<Rightarrow> sandbox_file \<Rightarrow> sandbox_metadata list" where
  "load_sandbox_metadata E pl file =
     filter (\<lambda>sb. is_safe_path_segment (sb_experiment_id sb) \<and> has_expected_sandbox_paths E pl sb)
       (unwrap_or file [])"

text \<open>The writers, under the lock; what they leave when the write succeeds.\<close>

definition remember_sandbox_metadata ::
    "externals \<Rightarrow> sandbox_place \<Rightarrow> sandbox_metadata \<Rightarrow> sandbox_file \<Rightarrow> sandbox_file" where
  "remember_sandbox_metadata E pl metadata file =
     Some (sort_key sb_experiment_id
       (filter (\<lambda>sb. sb_experiment_id sb \<noteq> sb_experiment_id metadata) (load_sandbox_metadata E pl file) @ [metadata]))"

definition mark_sandbox_metadata_deleted ::
    "externals \<Rightarrow> sandbox_place \<Rightarrow> string \<Rightarrow> sandbox_file \<Rightarrow> sandbox_file" where
  "mark_sandbox_metadata_deleted E pl experiment_id file =
     Some (map (\<lambda>sb. if sb_experiment_id sb = experiment_id then sb\<lparr>sb_deleted := True\<rparr> else sb)
       (load_sandbox_metadata E pl file))"

section \<open>The private directory\<close>

text \<open>
  What \<open>symlink_metadata\<close> says of the path, and what creating the directory answers when there is
  nothing there. Creation can lose a race to another process, and the check then runs again.
\<close>

record file_facts =
  ff_symlink :: bool
  ff_dir :: bool
  ff_uid :: u32
  ff_mode :: u32

datatype stat_result = Found file_facts | NotFound | StatError string
datatype create_result = Created | AlreadyExists | CreateError string

datatype private_dir_error = IsSymlink | NotADirectory | OtherOwner | OpenToOthers | DirIo string

text \<open>One answer to \<open>symlink_metadata\<close> and \<open>create\<close> per round; running out of rounds is not returning.\<close>

fun ensure_private_dir ::
    "u32 \<Rightarrow> (stat_result \<times> create_result) list \<Rightarrow> (private_dir_error + unit) option" where
  "ensure_private_dir euid [] = None"
| "ensure_private_dir euid ((stat, create) # rounds) =
     (case stat of
        Found f \<Rightarrow> Some
          (if ff_symlink f then Inl IsSymlink
           else if \<not> ff_dir f then Inl NotADirectory
           else if ff_uid f \<noteq> euid then Inl OtherOwner
           else if and (ff_mode f) 63 \<noteq> 0 then Inl OpenToOthers
           else Inr ())
      | NotFound \<Rightarrow> (case create of
            Created \<Rightarrow> Some (Inr ())
          | AlreadyExists \<Rightarrow> ensure_private_dir euid rounds
          | CreateError e \<Rightarrow> Some (Inl (DirIo e)))
      | StatError e \<Rightarrow> Some (Inl (DirIo e)))"

section \<open>Conclusions on disk\<close>

text \<open>
  A directory holds the text of its \<open>meta.json\<close>, if it has one that can be read, and the names of the long
  texts beside it, which other programs write. Printing and parsing text is \<open>serde_json\<close>'s; \<open>jt_debug\<close> is the
  derived \<open>Debug\<close> of a string.
\<close>

record disk_dir =
  dd_meta :: "string option"
  dd_texts :: "string set"

type_synonym conclusion_disk = "(string, disk_dir) kv"

record json_text =
  jt_print :: "json \<Rightarrow> string"
  jt_parse :: "string \<Rightarrow> json option"
  jt_debug :: "string \<Rightarrow> string"

text \<open>How the file system answers one write: the directory cannot be made, or its file cannot be replaced.\<close>

datatype write_answer = Written | NoDirectory string | NotReplaced string

definition persist_conclusion_at ::
    "json_text \<Rightarrow> write_answer \<Rightarrow> string \<Rightarrow> function_verification_state \<Rightarrow> conclusion_disk \<Rightarrow>
     (string + unit) \<times> conclusion_disk" where
  "persist_conclusion_at J answer func conclusion disk =
     (if \<not> is_safe_path_segment func
      then (Inl (''unsafe function name for a conclusion directory: '' @ jt_debug J func), disk)
      else (let dir = (case map_of disk func of None \<Rightarrow> \<lparr>dd_meta = None, dd_texts = {}\<rparr> | Some d \<Rightarrow> d)
            in case answer of
                 NoDirectory e \<Rightarrow> (Inl e, disk)
               | NotReplaced e \<Rightarrow> (Inl e, AList.update func dir disk)
               | Written \<Rightarrow>
                   (Inr (), AList.update func
                      (dir\<lparr>dd_meta := Some (jt_print J (meta_json (dd_texts dir) conclusion))\<rparr>) disk)))"

definition load_conclusion_dir :: "json_text \<Rightarrow> disk_dir \<Rightarrow> function_verification_state option" where
  "load_conclusion_dir J dir = Option.bind (Option.bind (dd_meta dir) (jt_parse J)) conclusion_of"

definition load_conclusion ::
    "externals \<Rightarrow> string \<Rightarrow> function_verification_state \<Rightarrow> function_verification_state" where
  "load_conclusion E func c =
     (if fv_status c = Verified
      then (let total = (case fv_wp_summary c of None \<Rightarrow> 0 | Some w \<Rightarrow> ws_total w);
                refused = (case fv_proof_receipt c of
                    None \<Rightarrow> True
                  | Some receipt \<Rightarrow> proof_receipt_evidence_error E receipt total func \<noteq> None)
            in if refused then c\<lparr>fv_status := InProgress, fv_proof_receipt := None\<rparr> else c)
      else c)"

definition load_conclusions_from_disk :: "json_text \<Rightarrow> externals \<Rightarrow> conclusion_disk \<Rightarrow> conclusions" where
  "load_conclusions_from_disk J E disk =
     fold (\<lambda>(func, dir) out.
         if is_safe_path_segment func
         then (case load_conclusion_dir J dir of
                 None \<Rightarrow> out
               | Some c \<Rightarrow> AList.update func (load_conclusion E func c) out)
         else out) disk []"

section \<open>Sandbox directories and their records\<close>

lemma length_sha256_hex: "length (sha256 E b) = 32 \<Longrightarrow> length (sha256_hex E b) = 64"
  by (simp add: sha256_hex_def length_hex_digest)

text \<open>Whether a sandbox fits its socket is a bound on its id alone: the socket path of the expected
  directory is accepted exactly when the id and the user id together take at most 70 characters.\<close>

theorem sandbox_socket_bound:
  assumes "\<And>b. length (sha256 E b) = 32"
  shows "(sandbox_socket_path_error (expected_dir E pl experiment_id) = Inr () \<longleftrightarrow>
      length experiment_id + length (show_nat (unat (pl_uid pl))) \<le> 70) \<and>
    length (path_text (expected_dir E pl experiment_id @ [''frama-c.sock''])) =
      37 + length (show_nat (unat (pl_uid pl))) + length experiment_id"
proof -
  have owner: "length (take 8 (sha256_hex E b)) = 8" for b using length_sha256_hex [OF assms] by simp
  have len: "length (path_text (expected_dir E pl experiment_id @ [''frama-c.sock''])) =
      37 + length (show_nat (unat (pl_uid pl))) + length experiment_id"
    using owner by (simp add: path_text_def expected_dir_def expected_sandbox_dir_def private_root_path_def Let_def)
  then show ?thesis by (simp add: sandbox_socket_path_error_def sun_path_max_def Let_def)
qed

theorem sandbox_socket_bound_witness:
  "sandbox_socket_path_error (expected_dir demo_externals \<lparr>pl_uid = 1000, pl_cwd = [''w''], pl_base_dir = ''.s''\<rparr>
     (replicate 66 (CHR ''a''))) = Inr ()"
proof -
  have len: "length (sha256 demo_externals b) = 32" for b by (simp add: demo_externals_def)
  have "length (show_nat (unat (1000 :: u32))) = 4" by code_simp
  then show ?thesis
    using sandbox_socket_bound [OF len, of "\<lparr>pl_uid = 1000, pl_cwd = [''w''], pl_base_dir = ''.s''\<rparr>" "replicate 66 (CHR ''a'')"]
    by simp
qed

lemma load_written:
  assumes "\<forall>sb \<in> set sbs. is_safe_path_segment (sb_experiment_id sb) \<and> has_expected_sandbox_paths E pl sb"
  shows "load_sandbox_metadata E pl (Some sbs) = sbs"
  using assms by (simp add: load_sandbox_metadata_def)

lemma loaded_ok:
  "sb \<in> set (load_sandbox_metadata E pl file) \<Longrightarrow>
     is_safe_path_segment (sb_experiment_id sb) \<and> has_expected_sandbox_paths E pl sb"
  by (simp add: load_sandbox_metadata_def)

lemma load_remembered:
  assumes "is_safe_path_segment (sb_experiment_id m)" "has_expected_sandbox_paths E pl m"
  shows "load_sandbox_metadata E pl (remember_sandbox_metadata E pl m file) =
    sort_key sb_experiment_id
       (filter (\<lambda>sb. sb_experiment_id sb \<noteq> sb_experiment_id m) (load_sandbox_metadata E pl file) @ [m])"
  unfolding remember_sandbox_metadata_def
  by (rule load_written) (use assms loaded_ok in auto)

lemma load_marked:
  "load_sandbox_metadata E pl (mark_sandbox_metadata_deleted E pl i file) =
     map (\<lambda>sb. if sb_experiment_id sb = i then sb\<lparr>sb_deleted := True\<rparr> else sb) (load_sandbox_metadata E pl file)"
  unfolding mark_sandbox_metadata_deleted_def
  by (rule load_written) (auto dest!: loaded_ok simp: has_expected_sandbox_paths_def)

datatype sandbox_event = Remembered sandbox_metadata | Deleted string

fun sandbox_file_step :: "externals \<Rightarrow> sandbox_place \<Rightarrow> sandbox_file \<Rightarrow> sandbox_event \<Rightarrow> sandbox_file" where
  "sandbox_file_step E pl file (Remembered m) =
     (if is_safe_path_segment (sb_experiment_id m) \<and> has_expected_sandbox_paths E pl m
      then remember_sandbox_metadata E pl m file else file)"
| "sandbox_file_step E pl file (Deleted i) = mark_sandbox_metadata_deleted E pl i file"

definition sandbox_file_inv :: "externals \<Rightarrow> sandbox_place \<Rightarrow> sandbox_file \<Rightarrow> bool" where
  "sandbox_file_inv E pl file \<longleftrightarrow>
     distinct (map sb_experiment_id (load_sandbox_metadata E pl file)) \<and>
     sorted (map sb_experiment_id (load_sandbox_metadata E pl file))"

lemma find_by_id:
  assumes "distinct (map f xs)"
  shows "find (\<lambda>x. f x = i) xs = Some x \<longleftrightarrow> x \<in> set xs \<and> f x = i"
  using assms by (induction xs) auto

lemma remember_inv:
  assumes "sandbox_file_inv E pl file" "is_safe_path_segment (sb_experiment_id m)" "has_expected_sandbox_paths E pl m"
  shows "sandbox_file_inv E pl (remember_sandbox_metadata E pl m file)"
proof -
  let ?kept = "filter (\<lambda>sb. sb_experiment_id sb \<noteq> sb_experiment_id m) (load_sandbox_metadata E pl file)"
  have "distinct (map sb_experiment_id (?kept @ [m]))"
    using assms(1) by (auto simp: sandbox_file_inv_def distinct_map_filter)
  moreover have "mset (map sb_experiment_id (sort_key sb_experiment_id (?kept @ [m]))) = mset (map sb_experiment_id (?kept @ [m]))"
    by simp
  ultimately have "distinct (map sb_experiment_id (sort_key sb_experiment_id (?kept @ [m])))"
    by (metis mset_eq_imp_distinct_iff)
  then show ?thesis by (simp add: sandbox_file_inv_def load_remembered [OF assms(2,3)] del: mset_map map_append)
qed

lemma sandbox_file_step_inv: "sandbox_file_inv E pl file \<Longrightarrow> sandbox_file_inv E pl (sandbox_file_step E pl file ev)"
proof (cases ev)
  case (Deleted i)
  assume inv: "sandbox_file_inv E pl file"
  have ids: "map sb_experiment_id (map (\<lambda>sb. if sb_experiment_id sb = i then sb\<lparr>sb_deleted := True\<rparr> else sb) xs) =
      map sb_experiment_id xs" for xs :: "sandbox_metadata list"
    by (induction xs) auto
  show ?thesis
    using inv by (simp only: Deleted sandbox_file_step.simps sandbox_file_inv_def load_marked ids)
qed (simp add: remember_inv)

interpretation sandbox_file: invariant_machine "sandbox_file_step E pl" "sandbox_file_inv E pl" for E pl
  by unfold_locales (rule sandbox_file_step_inv)

text \<open>What the file promises, as a map from ids: the last record under an id, marked once deleted.\<close>

fun sandbox_records_step ::
    "externals \<Rightarrow> sandbox_place \<Rightarrow> (string \<Rightarrow> sandbox_metadata option) \<Rightarrow> sandbox_event \<Rightarrow> (string \<Rightarrow> sandbox_metadata option)" where
  "sandbox_records_step E pl recs (Remembered m) =
     (if is_safe_path_segment (sb_experiment_id m) \<and> has_expected_sandbox_paths E pl m
      then recs(sb_experiment_id m \<mapsto> m) else recs)"
| "sandbox_records_step E pl recs (Deleted i) = recs(i := map_option (\<lambda>m. m\<lparr>sb_deleted := True\<rparr>) (recs i))"

definition record_of :: "externals \<Rightarrow> sandbox_place \<Rightarrow> sandbox_file \<Rightarrow> string \<Rightarrow> sandbox_metadata option" where
  "record_of E pl file i = find (\<lambda>sb. sb_experiment_id sb = i) (load_sandbox_metadata E pl file)"

lemma option_eq_by_Some: "(\<And>x. a = Some x \<longleftrightarrow> b = Some x) \<Longrightarrow> a = b"
  by (cases a; cases b) auto

lemma record_step:
  assumes inv: "sandbox_file_inv E pl file"
  shows "record_of E pl (sandbox_file_step E pl file ev) = sandbox_records_step E pl (record_of E pl file) ev"
proof
  fix i
  have found: "record_of E pl f i = Some x \<longleftrightarrow> x \<in> set (load_sandbox_metadata E pl f) \<and> sb_experiment_id x = i"
    if "sandbox_file_inv E pl f" for f i x
    using that unfolding record_of_def sandbox_file_inv_def by (simp add: find_by_id)
  note found_after = found [OF sandbox_file_step_inv [OF inv]] and found_before = found [OF inv]
  show "record_of E pl (sandbox_file_step E pl file ev) i = sandbox_records_step E pl (record_of E pl file) ev i"
  proof (cases ev)
    case (Remembered m)
    show ?thesis
    proof (cases "is_safe_path_segment (sb_experiment_id m) \<and> has_expected_sandbox_paths E pl m")
      case True
      show ?thesis
        by (rule option_eq_by_Some, unfold found_after)
          (use True in \<open>auto simp: Remembered load_remembered found_before\<close>)
    next
      case False
      then show ?thesis by (simp only: Remembered sandbox_file_step.simps sandbox_records_step.simps if_False)
    qed
  next
    case (Deleted j)
    show ?thesis
      by (rule option_eq_by_Some, unfold found_after)
        (auto simp: Deleted load_marked found_before split: if_splits)
  qed
qed

text \<open>The sandbox file implements a map from experiment ids. After any sequence of sandboxes created
  and deleted, however the records before were ordered, the file holds one record per id in id order,
  and looking an id up yields the record remembered last under it, marked deleted exactly when it was
  deleted since.\<close>

theorem sandbox_file_refines_map:
  "record_of E pl (foldl (sandbox_file_step E pl) None events) =
     foldl (sandbox_records_step E pl) Map.empty events \<and>
   distinct (map sb_experiment_id (load_sandbox_metadata E pl (foldl (sandbox_file_step E pl) None events))) \<and>
   sorted (map sb_experiment_id (load_sandbox_metadata E pl (foldl (sandbox_file_step E pl) None events)))"
proof -
  have start: "sandbox_file_inv E pl None" by (simp add: sandbox_file_inv_def load_sandbox_metadata_def)
  have inv: "sandbox_file_inv E pl (foldl (sandbox_file_step E pl) None evs)" for evs
    by (rule sandbox_file.run_inv [OF start])
  have "record_of E pl (foldl (sandbox_file_step E pl) None events) =
     foldl (sandbox_records_step E pl) Map.empty events"
  proof (induction events rule: rev_induct)
    case Nil
    show ?case by (rule ext) (simp add: record_of_def load_sandbox_metadata_def)
  next
    case (snoc ev evs)
    then show ?case using record_step [OF inv [of evs]] by simp
  qed
  with inv [of events] show ?thesis by (simp add: sandbox_file_inv_def)
qed

section \<open>A restart\<close>

text \<open>
  The handlers write to disk what the session reports: the conclusions a store touched, and the one
  function a sandbox event is about.
\<close>

fun reported :: "externals \<Rightarrow> session_state \<Rightarrow> session_op \<Rightarrow> string list" where
  "reported E s (StoreOp u) = (case fst (store_conclusion E u s) of Inl _ \<Rightarrow> [] | Inr touched \<Rightarrow> touched)"
| "reported E s (SandboxCreated f n) = [f]"
| "reported E s (AnnotationAdded f) = [f]"
| "reported E s (SandboxDeleted f) = [f]"
| "reported E s _ = []"

text \<open>
  One step of the server with its disk: an operation of the session, and one write for each conclusion it
  reports. \<open>answers\<close> says how each of the writes ends.
\<close>

definition persist_reported ::
    "json_text \<Rightarrow> (string \<Rightarrow> write_answer) \<Rightarrow> session_state \<Rightarrow> string list \<Rightarrow> conclusion_disk \<Rightarrow> conclusion_disk" where
  "persist_reported J answers s names disk =
     fold (\<lambda>f d. case get_conclusion s f of
         None \<Rightarrow> d
       | Some c \<Rightarrow> snd (persist_conclusion_at J (answers f) f c d)) names disk"

definition persisted_step ::
    "json_text \<Rightarrow> externals \<Rightarrow> session_state \<times> conclusion_disk \<Rightarrow> session_op \<times> (string \<Rightarrow> write_answer) \<Rightarrow>
     session_state \<times> conclusion_disk" where
  "persisted_step J E sd event =
     (let s' = session_step E (fst sd) (fst event)
      in (s', persist_reported J (snd event) s' (reported E (fst sd) (fst event)) (snd sd)))"

text \<open>What the disk promises: for each function that can have a directory the conclusion written last, where a
  write that failed changes nothing.\<close>

definition kept_step ::
    "externals \<Rightarrow> session_state \<times> (string \<Rightarrow> function_verification_state option) \<Rightarrow>
     session_op \<times> (string \<Rightarrow> write_answer) \<Rightarrow>
     session_state \<times> (string \<Rightarrow> function_verification_state option)" where
  "kept_step E sk event =
     (let s' = session_step E (fst sk) (fst event)
      in (s', \<lambda>f. if f \<in> set (reported E (fst sk) (fst event)) \<and> snd event f = Written \<and>
                    is_safe_path_segment f \<and> get_conclusion s' f \<noteq> None
                then get_conclusion s' f else snd sk f))"

lemma load_valid_conclusion:
  assumes "conclusion_ok E cs f c"
  shows "load_conclusion E f c = c"
proof (cases "fv_status c = Verified")
  case True
  with assms obtain w r where "fv_wp_summary c = Some w" "fv_proof_receipt c = Some r"
      "proof_receipt_evidence_error E r (ws_total w) (fv_function c) = None" "fv_function c = f"
    using validated_evidence [of E c] by (auto simp: conclusion_ok_def)
  then show ?thesis by (simp add: load_conclusion_def)
qed (simp add: load_conclusion_def)

lemma unreported_unchanged:
  assumes inv: "session_inv E s" and f: "f \<notin> set (reported E s op)"
  shows "get_conclusion (session_step E s op) f = get_conclusion s f"
proof (cases op)
  case (StoreOp u)
  show ?thesis
  proof (cases "validate_verified_conclusion E (merge_update E (ss_conclusions s) u)")
    case None
    obtain cs touched where st: "store_into E (ss_conclusions s) u (merge_update E (ss_conclusions s) u) = (cs, touched)"
      by fastforce
    have "f \<notin> set touched" using f by (simp add: StoreOp store_conclusion_def Let_def None st)
    moreover have "conclusions_inv E (ss_conclusions s)" using inv by (simp add: session_inv_def)
    ultimately show ?thesis
      using store_untouched_same st by (simp add: StoreOp get_conclusion_def store_conclusion_def Let_def None)
  qed (simp add: StoreOp get_conclusion_def store_conclusion_def Let_def)
qed (use f in \<open>auto simp: get_conclusion_def on_sandbox_created_def on_annotation_added_def on_sandbox_deleted_def
      modify_conclusion_def map_of_or_insert remember_receipt_def Let_def update_functions_def update_globals_def
      update_callgraph_def set_stale_markers_def register_profiles_def set_eva_completed_def set_wp_completed_def invalidate_all_def
      split: option.splits\<close>)

lemma conclusions_stay:
  assumes inv: "session_inv E s" and f: "get_conclusion s f \<noteq> None"
  shows "get_conclusion (session_step E s op) f \<noteq> None"
proof (cases op)
  case (StoreOp u)
  show ?thesis
  proof (cases "validate_verified_conclusion E (merge_update E (ss_conclusions s) u)")
    case None
    obtain cs touched where st: "store_into E (ss_conclusions s) u (merge_update E (ss_conclusions s) u) = (cs, touched)"
      by fastforce
    have "distinct_keys (ss_conclusions s)" using inv by (simp add: session_inv_def conclusions_inv_def)
    from store_into_lookup [OF this st, of f] f show ?thesis
      by (auto simp: StoreOp get_conclusion_def store_conclusion_def Let_def None st)
  qed (use f in \<open>simp add: StoreOp get_conclusion_def store_conclusion_def Let_def\<close>)
qed (use f in \<open>auto simp: get_conclusion_def on_sandbox_created_def on_annotation_added_def on_sandbox_deleted_def
      modify_conclusion_def map_of_or_insert remember_receipt_def Let_def update_functions_def update_globals_def
      update_callgraph_def set_stale_markers_def register_profiles_def set_eva_completed_def set_wp_completed_def invalidate_all_def
      split: option.splits\<close>)


text \<open>What reading back makes of a conclusion: a receipt that is the value \<open>null\<close> is no receipt. The tools never
  store one, since a \<open>null\<close> parameter is an absent one.\<close>

definition read_back :: "function_verification_state \<Rightarrow> function_verification_state" where
  "read_back c = c\<lparr>fv_proof_receipt := keep_if (\<lambda>r. r \<noteq> JNull) (fv_proof_receipt c)\<rparr>"

definition receipts_are :: "(json \<Rightarrow> bool) \<Rightarrow> session_state \<Rightarrow> bool" where
  "receipts_are P s \<longleftrightarrow>
     (\<forall>f c r. get_conclusion s f = Some c \<longrightarrow> fv_proof_receipt c = Some r \<longrightarrow> P r)"

fun sends_receipt :: "session_op \<Rightarrow> json option" where
  "sends_receipt (StoreOp u) = up_proof_receipt u"
| "sends_receipt _ = None"

lemma merged_receipt:
  "fv_proof_receipt (merge_update E cs u) =
     or_else (up_proof_receipt u) (Option.bind (map_of cs (up_function u)) fv_proof_receipt)"
  by (cases "map_of cs (up_function u)"; cases "up_proof_receipt u")
    (auto simp: merge_update_def Let_def empty_conclusion_static_def split: option.splits)

lemma receipts_step:
  assumes inv: "session_inv E s" and old: "receipts_are P s"
    and sent: "\<And>r. sends_receipt op = Some r \<Longrightarrow> P r"
  shows "receipts_are P (session_step E s op)"
proof (cases op)
  case (StoreOp u)
  show ?thesis
  proof (cases "validate_verified_conclusion E (merge_update E (ss_conclusions s) u)")
    case None
    obtain cs touched where st: "store_into E (ss_conclusions s) u (merge_update E (ss_conclusions s) u) = (cs, touched)"
      by fastforce
    have d: "distinct_keys (ss_conclusions s)" using inv by (simp add: session_inv_def conclusions_inv_def)
    have "P r" if "fv_proof_receipt (merge_update E (ss_conclusions s) u) = Some r" for r
      using that sent [of r] old
      by (cases "up_proof_receipt u"; cases "map_of (ss_conclusions s) (up_function u)")
        (auto simp: merged_receipt StoreOp receipts_are_def get_conclusion_def)
    with store_into_lookup [OF d st] old show ?thesis
      by (auto simp: StoreOp store_conclusion_def Let_def None st receipts_are_def get_conclusion_def
          split: if_splits)
  qed (use old in \<open>simp add: StoreOp store_conclusion_def Let_def receipts_are_def get_conclusion_def\<close>)
qed (use old in \<open>auto simp: receipts_are_def get_conclusion_def on_sandbox_created_def on_annotation_added_def on_sandbox_deleted_def
      modify_conclusion_def map_of_or_insert empty_conclusion_static_def remember_receipt_def Let_def update_functions_def
      update_globals_def update_callgraph_def set_stale_markers_def register_profiles_def set_eva_completed_def
      set_wp_completed_def invalidate_all_def split: option.splits if_splits\<close>)

lemma read_back_loads:
  assumes "conclusion_ok E cs f c"
  shows "load_conclusion E f (read_back c) = read_back c"
proof (cases "fv_status c = Verified")
  case True
  with assms obtain w r where "fv_wp_summary c = Some w" "fv_proof_receipt c = Some r"
      "proof_receipt_evidence_error E r (ws_total w) (fv_function c) = None"
    using validated_evidence [of E c] by (auto simp: conclusion_ok_def)
  moreover have "proof_receipt_evidence_error E JNull n g \<noteq> None" for n g
    by (simp add: proof_receipt_evidence_error_def Let_def get_str_def jget_def)
  ultimately have "fv_proof_receipt c \<noteq> Some JNull" by (metis option.inject)
  then have "read_back c = c" by (cases "fv_proof_receipt c") (simp_all add: read_back_def keep_if_def)
  with load_valid_conclusion [OF assms] show ?thesis by simp
qed (simp add: load_conclusion_def read_back_def)

text \<open>Which conclusions \<open>serde_json\<close> reads back from their text exactly as it wrote them: those whose receipt, the one
  part that is not of the server's own making, is in \<open>exact\<close>. Fractions and nesting beyond its limit are not.\<close>

definition reads_back :: "json_text \<Rightarrow> (json \<Rightarrow> bool) \<Rightarrow> bool" where
  "reads_back J exact \<longleftrightarrow>
     (\<forall>present c. (\<forall>r. fv_proof_receipt c = Some r \<longrightarrow> exact r) \<longrightarrow>
        jt_parse J (jt_print J (meta_json present c)) = Some (meta_json present c))"

definition read_dir :: "json_text \<Rightarrow> conclusion_disk \<Rightarrow> string \<Rightarrow> function_verification_state option" where
  "read_dir J disk f = Option.bind (map_of disk f) (load_conclusion_dir J)"

lemma read_dir_persisted:
  assumes "reads_back J exact" "\<And>r. fv_proof_receipt c = Some r \<Longrightarrow> exact r"
  shows "read_dir J (snd (persist_conclusion_at J answer f c disk)) g =
    (if g = f \<and> answer = Written \<and> is_safe_path_segment f then Some (read_back c) else read_dir J disk g)"
proof -
  have same: "jt_parse J (jt_print J (meta_json present c)) = Some (meta_json present c)" for present
    using assms by (simp add: reads_back_def)
  have "(if fv_proof_receipt c = Some JNull then None else fv_proof_receipt c) =
      keep_if (\<lambda>r. r \<noteq> JNull) (fv_proof_receipt c)"
    by (cases "fv_proof_receipt c") (simp_all add: keep_if_def)
  with same show ?thesis
    by (cases answer; cases "map_of disk f")
      (auto simp: persist_conclusion_at_def Let_def read_dir_def load_conclusion_dir_def conclusion_of_meta read_back_def
        update_conv)
qed

lemma read_dir_reported:
  assumes "reads_back J exact" "receipts_are exact s"
  shows "read_dir J (persist_reported J answers s names disk) f =
     (if f \<in> set names \<and> answers f = Written \<and> is_safe_path_segment f \<and> get_conclusion s f \<noteq> None
      then map_option read_back (get_conclusion s f) else read_dir J disk f)"
  unfolding persist_reported_def
proof (induction names arbitrary: disk)
  case (Cons g names)
  show ?case
  proof (cases "get_conclusion s g")
    case (Some c)
    have "exact r" if "fv_proof_receipt c = Some r" for r
      using assms(2) Some that by (auto simp: receipts_are_def)
    from read_dir_persisted [OF assms(1) this] Cons Some show ?thesis by auto
  qed (use Cons in auto)
qed simp

lemma persist_reported_distinct:
  "distinct_keys disk \<Longrightarrow> distinct_keys (persist_reported J answers s names disk)"
  unfolding persist_reported_def
  by (induction names arbitrary: disk)
    (auto simp: persist_conclusion_at_def Let_def split: option.splits write_answer.splits)

lemma load_lookup:
  "distinct_keys disk \<Longrightarrow> map_of (load_conclusions_from_disk J E disk) f =
     (if is_safe_path_segment f then map_option (load_conclusion E f) (read_dir J disk f) else None)"
proof -
  let ?step = "\<lambda>(func, dir) out.
         if is_safe_path_segment func
         then (case load_conclusion_dir J dir of
                 None \<Rightarrow> out
               | Some c \<Rightarrow> AList.update func (load_conclusion E func c) out)
         else out"
  have "distinct_keys disk \<Longrightarrow> map_of (fold ?step disk out) f =
     (if is_safe_path_segment f
      then (case read_dir J disk f of Some c \<Rightarrow> Some (load_conclusion E f c) | None \<Rightarrow> map_of out f)
      else map_of out f)" for out
  proof (induction disk arbitrary: out)
    case (Cons p ps)
    obtain k v where p: "p = (k, v)" by (cases p)
    have d: "distinct_keys ps" "map_of ps k = None"
      using Cons.prems by (auto simp: p distinct_keys_def map_of_eq_None_iff)
    show ?case
      using Cons.IH [OF d(1)] d(2)
      by (cases "load_conclusion_dir J v") (auto simp: p read_dir_def split: option.splits)
  qed (simp add: read_dir_def)
  from this [of "[]"] show "distinct_keys disk \<Longrightarrow> ?thesis"
    by (auto simp: load_conclusions_from_disk_def split: option.splits)
qed

text \<open>The disk refines what it promises.\<close>

definition keeps_promise ::
    "json_text \<Rightarrow> externals \<Rightarrow> (json \<Rightarrow> bool) \<Rightarrow> session_state \<Rightarrow> conclusion_disk \<Rightarrow>
     (string \<Rightarrow> function_verification_state option) \<Rightarrow> bool" where
  "keeps_promise J E exact s disk kept \<longleftrightarrow>
     session_inv E s \<and> receipts_are exact s \<and> distinct_keys disk \<and>
     (\<forall>f. read_dir J disk f = map_option read_back (kept f)) \<and>
     (\<forall>f c. kept f = Some c \<longrightarrow> load_conclusion E f (read_back c) = read_back c)"

lemma keeps_promise_step:
  assumes "reads_back J exact" "keeps_promise J E exact s disk kept"
    and "\<And>r. sends_receipt (fst event) = Some r \<Longrightarrow> exact r"
  shows "keeps_promise J E exact (fst (persisted_step J E (s, disk) event))
    (snd (persisted_step J E (s, disk) event)) (snd (kept_step E (s, kept) event))"
proof -
  let ?s = "session_step E s (fst event)"
  have inv: "session_inv E s" and receipts: "receipts_are exact s"
    using assms(2) by (auto simp: keeps_promise_def)
  have inv': "session_inv E ?s" using session_step_inv [OF inv] by simp
  have receipts': "receipts_are exact ?s" by (rule receipts_step [OF inv receipts assms(3)])
  have "load_conclusion E f (read_back c) = read_back c" if "get_conclusion ?s f = Some c" for f c
    using inv' that read_back_loads unfolding session_inv_def conclusions_inv_def get_conclusion_def by blast
  with assms(2) inv' receipts' read_dir_reported [OF assms(1) receipts'] persist_reported_distinct show ?thesis
    by (auto simp: keeps_promise_def persisted_step_def kept_step_def Let_def)
qed

lemma step_pairs:
  "\<exists>disk'. persisted_step J E (s, disk) event = (session_step E s (fst event), disk')"
  "\<exists>kept'. kept_step E (s, kept) event = (session_step E s (fst event), kept')"
  by (simp_all add: persisted_step_def kept_step_def Let_def)

lemma keeps_promise_run:
  assumes "reads_back J exact"
  shows "keeps_promise J E exact s disk kept \<Longrightarrow>
    \<forall>(op, answers) \<in> set history. \<forall>r. sends_receipt op = Some r \<longrightarrow> exact r \<Longrightarrow>
    keeps_promise J E exact (foldl (session_step E) s (map fst history))
      (snd (foldl (persisted_step J E) (s, disk) history)) (snd (foldl (kept_step E) (s, kept) history))"
proof (induction history arbitrary: s disk kept)
  case (Cons event history)
  obtain disk' kept' where steps: "persisted_step J E (s, disk) event = (session_step E s (fst event), disk')"
      "kept_step E (s, kept) event = (session_step E s (fst event), kept')"
    using step_pairs by meson
  have "keeps_promise J E exact (session_step E s (fst event)) disk' kept'"
    using keeps_promise_step [OF assms Cons.prems(1), of event] Cons.prems(2) by (auto simp: steps)
  from Cons.IH [OF this] Cons.prems(2) show ?case by (simp add: steps)
qed simp

text \<open>Without a failed write of its own a function's conclusion on disk is the one the session holds.\<close>

lemma kept_is_current:
  assumes "is_safe_path_segment f"
  shows "session_inv E s \<Longrightarrow> kept f = get_conclusion s f \<Longrightarrow> \<forall>(op, answers) \<in> set history. answers f = Written \<Longrightarrow>
    snd (foldl (kept_step E) (s, kept) history) f = get_conclusion (foldl (session_step E) s (map fst history)) f"
proof (induction history arbitrary: s kept)
  case (Cons event history)
  let ?s = "session_step E s (fst event)"
  obtain kept' where step: "kept_step E (s, kept) event = (?s, kept')" using step_pairs(2) by blast
  have "snd (kept_step E (s, kept) event) f = get_conclusion ?s f"
  proof (cases "f \<in> set (reported E s (fst event))")
    case True
    then show ?thesis
      using conclusions_stay [OF Cons.prems(1), of f "fst event"] Cons.prems(2,3) assms
      by (cases event; cases "get_conclusion s f") (auto simp: kept_step_def Let_def)
  next
    case False
    then show ?thesis
      using unreported_unchanged [OF Cons.prems(1) False] Cons.prems(2) by (simp add: kept_step_def Let_def)
  qed
  then have "kept' f = get_conclusion ?s f" by (simp add: step)
  from Cons.IH [where s = ?s and kept = kept', OF session_step_inv [OF Cons.prems(1)] this] Cons.prems(3) show ?case by (simp add: step)
qed simp

text \<open>C14: a restart reads back what was written, and demotes nothing. After any history of operations and of
  writes that succeed or fail, loading the directory with the same build yields, for every function that can
  have a directory, the conclusion written last for it: a verified one is read back verified, because what the
  store accepted is what the loader asks of it, and a write that fails leaves the one before. For a
  function none of whose writes failed that is the conclusion the session holds. Writing and reading are those
  of \<open>meta.json\<close> field by field; of the text between them it is assumed that it reads back for conclusions
  whose receipts are \<open>exact\<close>, and that the history sent no others.\<close>

theorem restart_keeps_conclusions:
  assumes prints: "reads_back J exact"
    and sent: "\<forall>(op, answers) \<in> set history. \<forall>r. sends_receipt op = Some r \<longrightarrow> exact r"
    and disk: "distinct_keys disk" "\<forall>d \<in> snd ` set disk. dd_meta d = None"
    and f: "is_safe_path_segment f"
  shows "map_of (load_conclusions_from_disk J E (snd (foldl (persisted_step J E) (empty_session, disk) history))) f =
      map_option read_back (snd (foldl (kept_step E) (empty_session, \<lambda>_. None) history) f) \<and>
    ((\<forall>(op, answers) \<in> set history. answers f = Written) \<longrightarrow>
      snd (foldl (kept_step E) (empty_session, \<lambda>_. None) history) f =
        get_conclusion (foldl (session_step E) empty_session (map fst history)) f)"
proof -
  have none: "get_conclusion empty_session g = None" for g by (simp add: get_conclusion_def empty_session_def)
  have "read_dir J disk g = None" for g
  proof (cases "map_of disk g")
    case (Some d)
    then have "dd_meta d = None" using disk(2) map_of_SomeD by fastforce
    then show ?thesis by (simp add: read_dir_def Some load_conclusion_dir_def)
  qed (simp add: read_dir_def)
  then have "keeps_promise J E exact empty_session disk (\<lambda>_. None)"
    using empty_session_inv [of E] disk(1) none by (simp add: keeps_promise_def receipts_are_def)
  from keeps_promise_run [OF prints this sent]
  have run: "keeps_promise J E exact (foldl (session_step E) empty_session (map fst history))
      (snd (foldl (persisted_step J E) (empty_session, disk) history))
      (snd (foldl (kept_step E) (empty_session, \<lambda>_. None) history))" .
  then have "map_of (load_conclusions_from_disk J E (snd (foldl (persisted_step J E) (empty_session, disk) history))) f =
      map_option read_back (snd (foldl (kept_step E) (empty_session, \<lambda>_. None) history) f)"
    using load_lookup f by (cases "snd (foldl (kept_step E) (empty_session, \<lambda>_. None) history) f")
      (auto simp: keeps_promise_def)
  moreover have "(\<forall>(op, answers) \<in> set history. answers f = Written) \<longrightarrow>
      snd (foldl (kept_step E) (empty_session, \<lambda>_. None) history) f =
        get_conclusion (foldl (session_step E) empty_session (map fst history)) f"
    using kept_is_current [OF f empty_session_inv [of E], of "\<lambda>_. None" history] none by simp
  ultimately show ?thesis ..
qed

text \<open>A text for every value, by its number, and the demonstration conclusion written once: it is read back when
  the write succeeds, and nothing is when it fails.\<close>

instance json_num :: countable by countable_datatype
instance json :: countable by countable_datatype

definition numbered_text :: json_text where
  "numbered_text = \<lparr>jt_print = (\<lambda>v. replicate (to_nat v) (CHR ''1'')), jt_parse = (\<lambda>t. Some (from_nat (length t))),
     jt_debug = (\<lambda>s. s)\<rparr>"

lemma numbered_text_reads_back: "reads_back numbered_text (\<lambda>_. True)"
  by (simp add: reads_back_def numbered_text_def)

theorem restart_keeps_conclusions_witness:
  "map_of (load_conclusions_from_disk numbered_text demo_externals
      (snd (foldl (persisted_step numbered_text demo_externals) (empty_session, [])
        [(StoreOp demo_update, \<lambda>_. Written)]))) ''f'' =
    Some (read_back (merge_update demo_externals [] demo_update)) \<and>
   map_of (load_conclusions_from_disk numbered_text demo_externals
      (snd (foldl (persisted_step numbered_text demo_externals) (empty_session, [])
        [(StoreOp demo_update, \<lambda>_. NotReplaced ''disk full'')]))) ''f'' = None"
proof -
  have f: "is_safe_path_segment ''f''" by code_simp
  have disk: "distinct_keys ([] :: conclusion_disk)" "\<forall>d \<in> snd ` set ([] :: conclusion_disk). dd_meta d = None"
    by (simp_all add: distinct_keys_def)
  have sent: "\<forall>(op, answers) \<in> set history. \<forall>r. sends_receipt op = Some r \<longrightarrow> (\<lambda>_. True) r"
    for history :: "(session_op \<times> (string \<Rightarrow> write_answer)) list" by auto
  note at = restart_keeps_conclusions [OF numbered_text_reads_back sent disk f, of demo_externals]
  from at [of "[(StoreOp demo_update, \<lambda>_. Written)]"] demo_stored
    at [of "[(StoreOp demo_update, \<lambda>_. NotReplaced ''disk full'')]"]
  show ?thesis by (simp add: kept_step_def Let_def)
qed

end
