(* ===== verification/Conclusions.thy ===== *)
theory Conclusions
  imports Store
begin

text \<open>
  Storing a conclusion (src/src/mcp/conclusions.rs) and the profiles it can be evidence under: what a
  project registers (src/src/state.rs), when a load or a receipt is that target's (src/src/mcp/analysis.rs),
  and the load identity a receipt records. The deserializers \<open>serde\<close> derives are parameters.
\<close>

section \<open>Profiles as a project emits them\<close>

datatype profile_refusal =
    NotAnObject string
  | NoProfiles
  | BadProfile string string
  | ZeroFloor string
  | BlankEntry string string
  | NamesNothing string

fun json_kind :: "json \<Rightarrow> string" where
  "json_kind JNull = ''null''"
| "json_kind (JBool _) = ''a boolean''"
| "json_kind (JNum _) = ''a number''"
| "json_kind (JArr _) = ''an array''"
| "json_kind (JStr _) = ''a string''"
| "json_kind (JObj _) = ''an object''"

fun trim_entries :: "string list \<Rightarrow> string list option" where
  "trim_entries [] = Some []"
| "trim_entries (e # es) =
     (if trim e = [] then None else map_option ((#) (trim e)) (trim_entries es))"

definition clean_profile :: "string \<Rightarrow> verification_profile \<Rightarrow> profile_refusal + verification_profile" where
  "clean_profile name p =
     (if vp_min_goals p = Some 0 then Inl (ZeroFloor name)
      else case trim_entries (vp_functions p) of
        None \<Rightarrow> Inl (BlankEntry name ''functions'')
      | Some functions \<Rightarrow>
          (case trim_entries (vp_provers p) of
             None \<Rightarrow> Inl (BlankEntry name ''provers'')
           | Some provers \<Rightarrow>
               (case trim_entries (vp_build_gates p) of
                  None \<Rightarrow> Inl (BlankEntry name ''build_gates'')
                | Some gates \<Rightarrow>
                    if functions = [] \<and> vp_sources p = [] then Inl (NamesNothing name)
                    else Inr (p\<lparr>vp_functions := functions, vp_provers := provers, vp_build_gates := gates\<rparr>))))"

fun parse_profile_entries ::
    "(json \<Rightarrow> string + verification_profile) \<Rightarrow> fields \<Rightarrow> (string, verification_profile) kv \<Rightarrow>
     profile_refusal + (string, verification_profile) kv" where
  "parse_profile_entries decode [] profiles = Inr profiles"
| "parse_profile_entries decode ((name, body) # rest) profiles =
     (case decode body of
        Inl e \<Rightarrow> Inl (BadProfile name e)
      | Inr p \<Rightarrow>
          (case clean_profile name p of
             Inl e \<Rightarrow> Inl e
           | Inr q \<Rightarrow> parse_profile_entries decode rest (AList.update name q profiles)))"

definition parse_verification_profiles ::
    "(json \<Rightarrow> string + verification_profile) \<Rightarrow> json \<Rightarrow> profile_refusal + (string, verification_profile) kv" where
  "parse_verification_profiles decode value =
     (case as_object value of
        None \<Rightarrow> Inl (NotAnObject (json_kind value))
      | Some entries \<Rightarrow> if entries = [] then Inl NoProfiles else parse_profile_entries decode entries [])"

section \<open>The identity of a load\<close>

record project_load_options =
  po_include_paths :: "string list"
  po_defines :: "string list"
  po_force_includes :: "string list"
  po_machdep :: "string option"
  po_compilation_database :: "string option"
  po_rte :: bool
  po_isystem_paths :: "string list"
  po_nostdinc :: bool
  po_unsigned_rte_skipped :: bool
  po_pointer_rte_requested :: bool
  po_builtin_models :: "string option"

definition strings_json :: "string list \<Rightarrow> json" where
  "strings_json xs = JArr (map JStr xs)"

definition opt_str_json :: "string option \<Rightarrow> json" where
  "opt_str_json s = (case s of None \<Rightarrow> JNull | Some x \<Rightarrow> JStr x)"

text \<open>The derived serializer: the three last fields are skipped when they are not set.\<close>

definition project_load_identity :: "project_load_options \<Rightarrow> json" where
  "project_load_identity opts =
     JObj ([(''include_paths'', strings_json (po_include_paths opts)),
            (''defines'', strings_json (po_defines opts)),
            (''force_includes'', strings_json (po_force_includes opts)),
            (''machdep'', opt_str_json (po_machdep opts)),
            (''compilation_database'', opt_str_json (po_compilation_database opts)),
            (''rte'', JBool (po_rte opts)),
            (''isystem_paths'', strings_json (po_isystem_paths opts)),
            (''nostdinc'', JBool (po_nostdinc opts))] @
           (if po_unsigned_rte_skipped opts then [(''unsigned_rte_skipped'', JBool True)] else []) @
           (if po_pointer_rte_requested opts then [(''pointer_rte_requested'', JBool True)] else []) @
           (case po_builtin_models opts of None \<Rightarrow> [] | Some d \<Rightarrow> [(''builtin_models'', JStr d)]))"

definition unset_or :: "'a option \<Rightarrow> ('a \<Rightarrow> bool) \<Rightarrow> bool" where
  "unset_or x p = (case x of None \<Rightarrow> True | Some v \<Rightarrow> p v)"

definition profile_matches_loaded_project ::
    "verification_profile \<Rightarrow> string list \<Rightarrow> project_load_options \<Rightarrow> bool" where
  "profile_matches_loaded_project p files opts \<longleftrightarrow>
     po_compilation_database opts = None \<and>
     (vp_sources p = [] \<or> vp_sources p = files) \<and>
     vp_include_paths p = po_include_paths opts \<and>
     vp_defines p = po_defines opts \<and>
     vp_force_includes p = po_force_includes opts \<and>
     vp_machdep p = po_machdep opts \<and>
     unset_or (vp_rte p) (\<lambda>want. want = po_rte opts) \<and>
     unset_or (vp_rte_unsigned p) (\<lambda>want. want \<noteq> po_unsigned_rte_skipped opts) \<and>
     unwrap_or (vp_rte_pointer p) False = po_pointer_rte_requested opts \<and>
     unwrap_or (vp_builtin_models p) False = (po_builtin_models opts \<noteq> None) \<and>
     vp_isystem_paths p = po_isystem_paths opts \<and>
     unset_or (vp_nostdinc p) (\<lambda>want. want = po_nostdinc opts)"

definition profile_covers_exactly :: "string list \<Rightarrow> string list \<Rightarrow> bool" where
  "profile_covers_exactly requested declared \<longleftrightarrow> set requested = set declared"

section \<open>A receipt as evidence for a profile\<close>

datatype profile_error =
    DoesNotProve string string
  | ReceiptDoesNotProve string string
  | ModelMismatch string string string
  | SourcesMismatch string "string list" "string list"
  | LoadUnstated string
  | LoadMismatch string
  | TooFewObligations string u32 nat

definition goals_owned_by :: "json list \<Rightarrow> string list \<Rightarrow> nat" where
  "goals_owned_by goals functions =
     length (filter (\<lambda>owner. owner \<in> set functions) (List.map_filter goal_owner_name goals))"

definition proves_function :: "json list \<Rightarrow> string \<Rightarrow> bool" where
  "proves_function proved f \<longleftrightarrow> (\<exists>j \<in> set proved. as_str j = Some f)"

definition receipt_paths :: "json option \<Rightarrow> string list" where
  "receipt_paths receipt =
     (case Option.bind receipt (\<lambda>r. pointer_array r [''subject'', ''files'']) of
        None \<Rightarrow> []
      | Some files \<Rightarrow> List.map_filter (\<lambda>file. pointer_str file [''path'']) files)"

text \<open>\<open>header_digest\<close> is the digest of the builtin models header compiled into the server.\<close>

definition expected_load :: "string \<Rightarrow> verification_profile \<Rightarrow> bool \<Rightarrow> bool \<Rightarrow> project_load_options" where
  "expected_load header_digest p rte nostdinc =
     \<lparr>po_include_paths = vp_include_paths p, po_defines = vp_defines p, po_force_includes = vp_force_includes p,
      po_machdep = vp_machdep p, po_compilation_database = None, po_rte = rte,
      po_isystem_paths = vp_isystem_paths p, po_nostdinc = nostdinc,
      po_unsigned_rte_skipped = (vp_rte_unsigned p = Some False),
      po_pointer_rte_requested = (vp_rte_pointer p = Some True),
      po_builtin_models = (if vp_builtin_models p = Some True then Some header_digest else None)\<rparr>"

definition floor_error :: "string \<Rightarrow> verification_profile \<Rightarrow> json \<Rightarrow> profile_error option" where
  "floor_error name p receipt =
     (let covers_whole_target = (case pointer_array receipt [''wp'', ''functions''] of
            None \<Rightarrow> False
          | Some proved \<Rightarrow> \<forall>f \<in> set (vp_functions p). proves_function proved f)
      in case vp_min_goals p of
           None \<Rightarrow> None
         | Some min_goals \<Rightarrow>
             if \<not> covers_whole_target then None
             else (let goals = unwrap_or (Option.bind (jget receipt ''goals'') as_array) [];
                       recorded = (if receipt_goals_record_owner goals
                         then goals_owned_by goals (vp_functions p) else length goals)
                   in if recorded < unat min_goals then Some (TooFewObligations name min_goals recorded) else None))"

definition load_error :: "string \<Rightarrow> string \<Rightarrow> verification_profile \<Rightarrow> json \<Rightarrow> profile_error option" where
  "load_error header_digest name p receipt =
     (case (vp_rte p, vp_nostdinc p) of
        (Some rte, Some nostdinc) \<Rightarrow>
          (if (case pointer receipt [''subject'', ''project_load''] of
                 None \<Rightarrow> False
               | Some load \<Rightarrow> json_eq load (project_load_identity (expected_load header_digest p rte nostdinc)))
           then floor_error name p receipt
           else Some (LoadMismatch name))
      | _ \<Rightarrow> Some (LoadUnstated name))"

definition proved_here :: "string \<Rightarrow> json option \<Rightarrow> bool" where
  "proved_here f receipt =
     (case receipt of
        None \<Rightarrow> True
      | Some r \<Rightarrow> (case pointer_array r [''wp'', ''functions''] of
            None \<Rightarrow> False
          | Some proved \<Rightarrow> proves_function proved f))"

definition model_error :: "string \<Rightarrow> verification_profile \<Rightarrow> json option \<Rightarrow> profile_error option" where
  "model_error name p receipt =
     (case (vp_model p, Option.bind receipt (\<lambda>r. pointer_str r [''wp'', ''model''])) of
        (Some declared, Some used) \<Rightarrow>
          (if declared \<noteq> used then Some (ModelMismatch name declared used) else None)
      | _ \<Rightarrow> None)"

definition profile_evidence_error ::
    "string \<Rightarrow> string \<Rightarrow> verification_profile \<Rightarrow> string \<Rightarrow> json option \<Rightarrow> profile_error option" where
  "profile_evidence_error header_digest name p f receipt =
     (if f \<notin> set (vp_functions p) then Some (DoesNotProve name f)
      else if \<not> proved_here f receipt then Some (ReceiptDoesNotProve f name)
      else or_else (model_error name p receipt)
        (let proved_over = sort (receipt_paths receipt); declared = sort (vp_sources p)
         in if declared \<noteq> [] \<and> receipt \<noteq> None \<and> declared \<noteq> proved_over
            then Some (SourcesMismatch name declared proved_over)
            else (case receipt of None \<Rightarrow> None | Some r \<Rightarrow> load_error header_digest name p r)))"

section \<open>The handler\<close>

record store_conclusion_params =
  sp_function :: string
  sp_status :: "string option"
  sp_specs :: "json list option"
  sp_wp_summary :: "json option"
  sp_notes :: "string option"
  sp_callees :: "string list option"
  sp_proof_receipt :: "json option"
  sp_proof_receipt_sha256 :: "string option"
  sp_verify_profile :: "string option"

datatype handler_error =
    InvalidStatus string
  | InvalidSpecs string
  | InvalidWpSummary string
  | UnknownReceipt string
  | BothReceipts
  | UnsafeName path_error
  | UnknownProfile string "string list"
  | IncompleteProfile string
  | NotProfileEvidence profile_error
  | Refused conclusion_error
  | NoConclusion string

definition parse_conclusion_status :: "string \<Rightarrow> handler_error + verification_status" where
  "parse_conclusion_status s =
     (if s = ''verified'' then Inr Verified
      else if s = ''failed'' then Inr Failed
      else if s = ''unsound'' then Inr Unsound
      else if s = ''blocked_on_callee'' then Inr BlockedOnCallee
      else if s = ''in_progress'' then Inr InProgress
      else Inl (InvalidStatus s))"

text \<open>What the handler calls outside the repository, and the outcome of each write.\<close>

record handler_env =
  he_externals :: externals
  he_decode_spec :: "json \<Rightarrow> string + annotation_entry"
  he_decode_summary :: "json \<Rightarrow> string + wp_goal_summary"
  he_header_digest :: string
  he_text :: json_text
  he_write :: "string \<Rightarrow> write_answer"

fun collect_results :: "('a \<Rightarrow> 'e + 'b) \<Rightarrow> 'a list \<Rightarrow> 'e + 'b list" where
  "collect_results f [] = Inr []"
| "collect_results f (x # xs) =
     (case f x of
        Inl e \<Rightarrow> Inl e
      | Inr y \<Rightarrow> (case collect_results f xs of Inl e \<Rightarrow> Inl e | Inr ys \<Rightarrow> Inr (y # ys)))"

text \<open>\<open>opt.map(f).transpose()?\<close>\<close>

definition transpose_opt :: "('a \<Rightarrow> 'e + 'b) \<Rightarrow> 'a option \<Rightarrow> 'e + 'b option" where
  "transpose_opt f x =
     (case x of None \<Rightarrow> Inr None | Some v \<Rightarrow> (case f v of Inl e \<Rightarrow> Inl e | Inr y \<Rightarrow> Inr (Some y)))"

definition requested_receipt :: "store_conclusion_params \<Rightarrow> session_state \<Rightarrow> handler_error + json option" where
  "requested_receipt params s =
     (case (sp_proof_receipt params, sp_proof_receipt_sha256 params) of
        (Some receipt, None) \<Rightarrow> Inr (Some receipt)
      | (None, Some digest) \<Rightarrow> (case find_receipt_body s digest of
            None \<Rightarrow> Inl (UnknownReceipt digest)
          | Some receipt \<Rightarrow> Inr (Some receipt))
      | (Some _, Some _) \<Rightarrow> Inl BothReceipts
      | (None, None) \<Rightarrow> Inr None)"

definition profile_complete :: "verification_profile \<Rightarrow> bool" where
  "profile_complete p \<longleftrightarrow>
     vp_model p \<noteq> None \<and> vp_provers p \<noteq> [] \<and> vp_timeout_seconds p \<noteq> None \<and> vp_functions p \<noteq> []"

definition reproduce_command ::
    "handler_env \<Rightarrow> store_conclusion_params \<Rightarrow> json option \<Rightarrow> session_state \<Rightarrow> handler_error + string option" where
  "reproduce_command H params proof_receipt s =
     (let stored = get_conclusion s (sp_function params);
          effective_receipt = or_else proof_receipt (Option.bind stored fv_proof_receipt);
          evidence_profile = or_else (sp_verify_profile params)
            (if proof_receipt = None then None else Option.bind stored fv_verify_profile)
      in case evidence_profile of
           None \<Rightarrow> Inr None
         | Some name \<Rightarrow>
             (case map_of (ss_verification_profiles s) name of
                None \<Rightarrow> if sp_verify_profile params = None then Inr None
                  else Inl (UnknownProfile name (sort (map fst (ss_verification_profiles s))))
              | Some p \<Rightarrow>
                  if \<not> profile_complete p then Inl (IncompleteProfile name)
                  else (case profile_evidence_error (he_header_digest H) name p (sp_function params) effective_receipt of
                      Some e \<Rightarrow> Inl (NotProfileEvidence e)
                    | None \<Rightarrow> Inr (if sp_verify_profile params \<noteq> None then vp_reproduce p else None))))"

definition decode_update ::
    "handler_env \<Rightarrow> store_conclusion_params \<Rightarrow> session_state \<Rightarrow> handler_error + function_conclusion_update" where
  "decode_update H params s =
     (case transpose_opt parse_conclusion_status (sp_status params) of
        Inl e \<Rightarrow> Inl e
      | Inr status \<Rightarrow>
     (case transpose_opt (collect_results (he_decode_spec H)) (sp_specs params) of
        Inl e \<Rightarrow> Inl (InvalidSpecs e)
      | Inr specs \<Rightarrow>
     (case transpose_opt (he_decode_summary H) (sp_wp_summary params) of
        Inl e \<Rightarrow> Inl (InvalidWpSummary e)
      | Inr wp_summary \<Rightarrow>
     (case requested_receipt params s of
        Inl e \<Rightarrow> Inl e
      | Inr receipt \<Rightarrow>
     (case require_safe_path_segment (sp_function params) ''function'' of
        Inl e \<Rightarrow> Inl (UnsafeName e)
      | Inr _ \<Rightarrow>
     (case reproduce_command H params receipt s of
        Inl e \<Rightarrow> Inl e
      | Inr reproduce \<Rightarrow>
          Inr \<lparr>up_function = sp_function params, up_status = status, up_specs = specs, up_wp_summary = wp_summary,
               up_notes = sp_notes params, up_callees = sp_callees params, up_proof_receipt = receipt,
               up_verify_profile = sp_verify_profile params, up_reproduce = reproduce\<rparr>))))))"

definition persist_touched ::
    "handler_env \<Rightarrow> session_state \<Rightarrow> string list \<Rightarrow> conclusion_disk \<Rightarrow> json list \<times> conclusion_disk" where
  "persist_touched H s touched disk =
     fold (\<lambda>f (errors, d). case get_conclusion s f of
         None \<Rightarrow> (errors, d)
       | Some c \<Rightarrow>
           (case persist_conclusion_at (he_text H) (he_write H f) f c d of
              (Inl e, d') \<Rightarrow> (errors @ [JObj [(''function'', JStr f), (''error'', JStr e)]], d')
            | (Inr _, d') \<Rightarrow> (errors, d'))) touched ([], disk)"

definition store_function_conclusion ::
    "handler_env \<Rightarrow> store_conclusion_params \<Rightarrow> session_state \<times> conclusion_disk \<Rightarrow>
     (handler_error + json) \<times> session_state \<times> conclusion_disk" where
  "store_function_conclusion H params sd =
     (case sd of (s, disk) \<Rightarrow>
        (case decode_update H params s of
           Inl e \<Rightarrow> (Inl e, s, disk)
         | Inr u \<Rightarrow>
             (case store_conclusion (he_externals H) u s of
                (Inl e, s') \<Rightarrow> (Inl (Refused e), s', disk)
              | (Inr touched, s') \<Rightarrow>
                  (case persist_touched H s' touched disk of
                     (errors, disk') \<Rightarrow>
                       (Inr (JObj (if errors \<noteq> []
                          then [(''stored'', JStr (sp_function params)), (''durable'', JBool False),
                                (''persist_errors'', JArr errors)]
                          else [(''stored'', JStr (sp_function params))])), s', disk')))))"

text \<open>
  \<open>conclusions_payload\<close>: the two forms of the listing. \<open>long_texts\<close> is what the function's directory holds.
\<close>

definition conclusions_payload ::
    "(conclusion_summary list \<Rightarrow> json) \<Rightarrow> (string \<Rightarrow> fields) \<Rightarrow>
     string option \<Rightarrow> string option \<Rightarrow> session_state \<Rightarrow> handler_error + json" where
  "conclusions_payload summaries long_texts status func s =
     (case func of
        Some f \<Rightarrow>
          (case require_safe_path_segment f ''function'' of
             Inl e \<Rightarrow> Inl (UnsafeName e)
           | Inr _ \<Rightarrow>
               (case get_conclusion s f of
                  None \<Rightarrow> Inl (NoConclusion f)
                | Some c \<Rightarrow>
                    Inr (on_object (\<lambda>obj.
                        fold (\<lambda>(k, v) m. AList.update k v m) (long_texts f)
                          (case verified_with c of None \<Rightarrow> obj | Some w \<Rightarrow> AList.update ''verified_with'' w obj))
                      (JObj (conclusion_fields c)))))
      | None \<Rightarrow>
          (case transpose_opt parse_conclusion_status status of
             Inl e \<Rightarrow> Inl e
           | Inr filter_status \<Rightarrow> Inr (summaries (list_conclusions filter_status s))))"

section \<open>Load identities tell loads apart\<close>

lemma json_eq_strings [simp]: "json_eq (strings_json a) (strings_json b) \<longleftrightarrow> a = b"
proof (induction a arbitrary: b)
  case Nil
  show ?case by (cases b) (simp_all add: strings_json_def)
next
  case (Cons x xs)
  then show ?case by (cases b) (auto simp: strings_json_def)
qed

lemma json_eq_opt_str [simp]: "json_eq (opt_str_json a) (opt_str_json b) \<longleftrightarrow> a = b"
  by (auto simp: opt_str_json_def split: option.splits)

lemma wf_project_load_identity: "wf_json (project_load_identity opts)"
  by (auto simp: project_load_identity_def strings_json_def opt_str_json_def distinct_keys_def split: option.splits)

lemma project_load_identity_eq: "json_eq (project_load_identity a) (project_load_identity b) \<longleftrightarrow> a = b"
proof
  assume eq: "json_eq (project_load_identity a) (project_load_identity b)"
  then have must: "po_include_paths a = po_include_paths b" "po_defines a = po_defines b"
      "po_force_includes a = po_force_includes b" "po_machdep a = po_machdep b"
      "po_compilation_database a = po_compilation_database b" "po_rte a = po_rte b"
      "po_isystem_paths a = po_isystem_paths b" "po_nostdinc a = po_nostdinc b"
    by (simp_all add: project_load_identity_def)
  from eq have may: "po_unsigned_rte_skipped a = po_unsigned_rte_skipped b"
      "po_pointer_rte_requested a = po_pointer_rte_requested b" "po_builtin_models a = po_builtin_models b"
    by (auto simp: project_load_identity_def split: option.splits if_splits)
  from must may show "a = b" by (cases a; cases b) simp
qed (simp add: json_eq_refl wf_project_load_identity)

text \<open>C16: a run over a project that was loaded as the profile declares is evidence for the profile, and
  nothing else is. When the load matches a profile that states rte and nostdinc, the load identity its
  receipts carry is the one a conclusion under the profile demands, with one exception: a profile that
  leaves rte_unsigned unset also matches a load that skips the unsigned obligations, and the receipts of
  that load are refused. Conversely a receipt whose load identity passes comes from a matching load.\<close>

theorem matching_load_is_evidence:
  assumes "vp_rte p = Some rte" "vp_nostdinc p = Some nostdinc"
    and "po_builtin_models opts \<in> {None, Some digest}"
  shows "(profile_matches_loaded_project p files opts \<longrightarrow>
       (json_eq (project_load_identity opts) (project_load_identity (expected_load digest p rte nostdinc)) \<longleftrightarrow>
        \<not> (vp_rte_unsigned p = None \<and> po_unsigned_rte_skipped opts))) \<and>
    (json_eq (project_load_identity opts) (project_load_identity (expected_load digest p rte nostdinc)) \<and>
       (vp_sources p = [] \<or> vp_sources p = files) \<longrightarrow> profile_matches_loaded_project p files opts)"
proof -
  have "profile_matches_loaded_project p files opts \<Longrightarrow>
      opts = expected_load digest p rte nostdinc \<longleftrightarrow> \<not> (vp_rte_unsigned p = None \<and> po_unsigned_rte_skipped opts)"
    using assms
    by (cases opts; cases "vp_rte_unsigned p"; cases "vp_rte_pointer p"; cases "vp_builtin_models p")
      (auto simp: profile_matches_loaded_project_def expected_load_def unset_or_def)
  moreover have "opts = expected_load digest p rte nostdinc \<Longrightarrow> vp_sources p = [] \<or> vp_sources p = files \<Longrightarrow>
      profile_matches_loaded_project p files opts"
    using assms
    by (cases "vp_rte_unsigned p"; cases "vp_rte_pointer p"; cases "vp_builtin_models p")
      (auto simp: profile_matches_loaded_project_def expected_load_def unset_or_def)
  ultimately show ?thesis unfolding project_load_identity_eq by blast
qed

definition demo_profile :: verification_profile where
  "demo_profile = \<lparr>vp_sources = [''a.c''], vp_functions = [''f''], vp_model = Some ''Typed'', vp_machdep = None,
     vp_include_paths = [], vp_defines = [], vp_force_includes = [], vp_provers = [''alt-ergo''],
     vp_timeout_seconds = Some 10, vp_isystem_paths = [], vp_nostdinc = Some False, vp_min_goals = Some 1,
     vp_build_gates = [], vp_rte = Some True, vp_rte_unsigned = None, vp_rte_pointer = None,
     vp_builtin_models = None, vp_reproduce = Some ''make verify''\<rparr>"

definition demo_load :: "bool \<Rightarrow> project_load_options" where
  "demo_load skipped = \<lparr>po_include_paths = [], po_defines = [], po_force_includes = [], po_machdep = None,
     po_compilation_database = None, po_rte = True, po_isystem_paths = [], po_nostdinc = False,
     po_unsigned_rte_skipped = skipped, po_pointer_rte_requested = False, po_builtin_models = None\<rparr>"

theorem matching_load_is_evidence_witness:
  "profile_matches_loaded_project demo_profile [''a.c''] (demo_load False) \<and>
   json_eq (project_load_identity (demo_load False)) (project_load_identity (expected_load ''d'' demo_profile True False)) \<and>
   profile_matches_loaded_project demo_profile [''a.c''] (demo_load True) \<and>
   \<not> json_eq (project_load_identity (demo_load True)) (project_load_identity (expected_load ''d'' demo_profile True False))"
proof -
  have p: "vp_rte demo_profile = Some True" "vp_nostdinc demo_profile = Some False"
      "po_builtin_models (demo_load b) \<in> {None, Some ''d''}" for b
    by (simp_all add: demo_profile_def demo_load_def)
  have "profile_matches_loaded_project demo_profile [''a.c''] (demo_load b)" for b
    by (simp add: profile_matches_loaded_project_def demo_profile_def demo_load_def unset_or_def)
  with matching_load_is_evidence [OF p(1,2) p(3), of "[''a.c'']"] show ?thesis
    by (simp add: demo_profile_def demo_load_def)
qed

section \<open>What is registered can match\<close>

lemma ws_prefix_None_iff: "ws_prefix s = None \<longleftrightarrow> (\<forall>w \<in> set ws_encodings. \<not> prefix w s)"
  by (auto simp: ws_prefix_def find_None_iff)

lemma trim_start_done: "ws_prefix (trim_start s) = None"
proof (induction s rule: trim_start.induct)
  case (1 s)
  then show ?case by (cases "ws_prefix s") (simp_all add: trim_start.simps [of s])
qed

lemma trim_end_done: "ws_suffix (trim_end s) = None \<and> (\<exists>n. trim_end s = take n s)"
proof (induction s rule: trim_end.induct)
  case (1 s)
  show ?case
  proof (cases "ws_suffix s")
    case None
    then have "trim_end s = take (length s) s" by (simp add: trim_end.simps [of s])
    then show ?thesis using None by (metis take_all order_refl)
  next
    case (Some w)
    with 1 [OF Some] show ?thesis by (simp add: trim_end.simps [of s]) (metis take_take)
  qed
qed

definition unpadded :: "string \<Rightarrow> bool" where
  "unpadded t \<longleftrightarrow> t \<noteq> [] \<and> ws_prefix t = None \<and> ws_suffix t = None"

lemma trim_unpadded: "trim s \<noteq> [] \<Longrightarrow> unpadded (trim s)"
proof -
  obtain n where n: "trim s = take n (trim_start s)" using trim_end_done unfolding trim_def by blast
  have "\<not> prefix w (take n (trim_start s))" if "w \<in> set ws_encodings" for w
    using trim_start_done [of s] that unfolding ws_prefix_None_iff
    by (auto dest: prefix_order.trans [OF _ take_is_prefix])
  then have "ws_prefix (trim s) = None" unfolding n ws_prefix_None_iff by blast
  then show "trim s \<noteq> [] \<Longrightarrow> ?thesis" using trim_end_done [of "trim_start s"] by (simp add: unpadded_def trim_def)
qed

lemma trim_entries_unpadded: "trim_entries es = Some ts \<Longrightarrow> \<forall>t \<in> set ts. unpadded t"
  by (induction es arbitrary: ts) (auto split: if_splits intro: trim_unpadded)

text \<open>What a profile must be to be registered, and what registering it makes of it: the names of functions,
  provers and build gates are trimmed, and nothing else changes. Sources, include paths and defines keep
  their spelling.\<close>

definition acceptable :: "verification_profile \<Rightarrow> bool" where
  "acceptable p \<longleftrightarrow> vp_min_goals p \<noteq> Some 0 \<and> (vp_functions p \<noteq> [] \<or> vp_sources p \<noteq> []) \<and>
     (\<forall>e \<in> set (vp_functions p) \<union> set (vp_provers p) \<union> set (vp_build_gates p). trim e \<noteq> [])"

definition trimmed :: "verification_profile \<Rightarrow> verification_profile" where
  "trimmed p = p\<lparr>vp_functions := map trim (vp_functions p), vp_provers := map trim (vp_provers p),
     vp_build_gates := map trim (vp_build_gates p)\<rparr>"

lemma trim_entries_eq: "trim_entries es = (if \<forall>e \<in> set es. trim e \<noteq> [] then Some (map trim es) else None)"
  by (induction es) auto

lemma clean_profile_eq:
  "(\<exists>q. clean_profile name p = Inr q) \<longleftrightarrow> acceptable p"
  "clean_profile name p = Inr q \<Longrightarrow> q = trimmed p"
  by (auto simp: clean_profile_def acceptable_def trimmed_def trim_entries_eq split: if_splits)

lemma parse_entries_exact:
  assumes "distinct (map fst entries)"
  shows "(\<exists>result. parse_profile_entries decode entries profiles = Inr result) \<longleftrightarrow>
      (\<forall>(name, body) \<in> set entries. \<exists>p. decode body = Inr p \<and> acceptable p)"
    and "parse_profile_entries decode entries profiles = Inr result \<Longrightarrow>
      map_of result name = (case map_of entries name of
        None \<Rightarrow> map_of profiles name
      | Some body \<Rightarrow> (case decode body of Inl _ \<Rightarrow> None | Inr p \<Rightarrow> Some (trimmed p)))"
  using assms
proof (induction decode entries profiles rule: parse_profile_entries.induct)
  case (2 decode n body rest profiles)
  {
    case 1
    show ?case
    proof (cases "decode body")
      case (Inr p)
      show ?thesis
      proof (cases "clean_profile n p")
        case (Inr q)
        with "2.IH"(1) [OF \<open>decode body = Inr p\<close>] 1 \<open>decode body = Inr p\<close> clean_profile_eq(1) [of n p]
        show ?thesis by auto
      next
        case (Inl e)
        with clean_profile_eq(1) [of n p] \<open>decode body = Inr p\<close> show ?thesis by auto
      qed
    qed simp
  next
    case 2
    then obtain p q where pq: "decode body = Inr p" "clean_profile n p = Inr q"
        "parse_profile_entries decode rest (AList.update n q profiles) = Inr result"
      by (auto split: sum.splits)
    have "map_of rest n = None" using 2(2) by (simp add: map_of_eq_None_iff)
    with "2.IH"(2) [OF pq(1,2,3)] 2(2) pq(1) clean_profile_eq(2) [OF pq(2)] show ?case
      by (cases "name = n") (auto simp: update_conv split: option.splits)
  }
qed simp_all

text \<open>C40: a profile map is registered exactly when it is an object with an entry and every entry decodes to a
  profile that names a function or a source, has no floor of zero, and has no function, prover or build gate that
  is blank. What is registered is then, under exactly the names the project sent, each decoded profile with the
  names of its functions, provers and build gates trimmed and everything else as it was; so no such name
  is blank or padded, and comparing it for equality later is meaningful.\<close>

theorem registered_profiles_matchable:
  assumes "distinct (map fst entries)"
  shows "((\<exists>profiles. parse_verification_profiles decode (JObj entries) = Inr profiles) \<longleftrightarrow>
      entries \<noteq> [] \<and> (\<forall>(name, body) \<in> set entries. \<exists>p. decode body = Inr p \<and> acceptable p)) \<and>
    (\<forall>profiles name. parse_verification_profiles decode (JObj entries) = Inr profiles \<longrightarrow>
      map_of profiles name = Option.bind (map_of entries name)
        (\<lambda>body. case decode body of Inl _ \<Rightarrow> None | Inr p \<Rightarrow> Some (trimmed p)) \<and>
      (\<forall>q. map_of profiles name = Some q \<longrightarrow>
        (\<forall>e \<in> set (vp_functions q) \<union> set (vp_provers q) \<union> set (vp_build_gates q). unpadded e)))"
proof (intro conjI allI impI)
  show "(\<exists>profiles. parse_verification_profiles decode (JObj entries) = Inr profiles) \<longleftrightarrow>
      entries \<noteq> [] \<and> (\<forall>(name, body) \<in> set entries. \<exists>p. decode body = Inr p \<and> acceptable p)"
    using parse_entries_exact(1) [OF assms, of decode "[]"] by (simp add: parse_verification_profiles_def json_simps)
next
  fix profiles name
  assume run: "parse_verification_profiles decode (JObj entries) = Inr profiles"
  then have p: "parse_profile_entries decode entries [] = Inr profiles"
    by (simp add: parse_verification_profiles_def json_simps split: if_splits)
  from parse_entries_exact(2) [OF assms this, of name]
  show at: "map_of profiles name = Option.bind (map_of entries name)
        (\<lambda>body. case decode body of Inl _ \<Rightarrow> None | Inr p \<Rightarrow> Some (trimmed p))"
    by (simp split: option.split)
  fix q
  assume q: "map_of profiles name = Some q"
  with at obtain body p where body: "map_of entries name = Some body" "decode body = Inr p" "q = trimmed p"
    by (cases "map_of entries name"; cases "decode (the (map_of entries name))") auto
  have "acceptable p"
    using parse_entries_exact(1) [OF assms, of decode "[]"] p map_of_SomeD [OF body(1)] body(2) by fastforce
  then show "\<forall>e \<in> set (vp_functions q) \<union> set (vp_provers q) \<union> set (vp_build_gates q). unpadded e"
    unfolding body(3) by (auto simp: acceptable_def trimmed_def intro: trim_unpadded)
qed

definition padded_profile :: verification_profile where
  "padded_profile = demo_profile\<lparr>vp_functions := ['' f ''], vp_sources := ['' '']\<rparr>"

theorem registered_profiles_matchable_witness:
  "(\<exists>profiles q. parse_verification_profiles (\<lambda>_. Inr padded_profile) (JObj [(''t'', JNull)]) = Inr profiles \<and>
     map_of profiles ''t'' = Some q \<and> vp_functions q = [''f''] \<and> vp_sources q = ['' '']) \<and>
   (\<nexists>profiles. parse_verification_profiles (\<lambda>_. Inr (demo_profile\<lparr>vp_functions := ['' '']\<rparr>)) (JObj [(''t'', JNull)]) = Inr profiles)"
proof -
  have t: "trim '' f '' = ''f''" "trim ''alt-ergo'' = ''alt-ergo''" "trim '' '' = []" by code_simp+
  have d: "distinct (map fst [(''t'', JNull)])" by simp
  have "acceptable padded_profile" "\<not> acceptable (demo_profile\<lparr>vp_functions := ['' '']\<rparr>)"
    using t by (simp_all add: acceptable_def padded_profile_def demo_profile_def)
  moreover have "vp_functions (trimmed padded_profile) = [''f'']" "vp_sources (trimmed padded_profile) = ['' '']"
    using t by (simp_all add: trimmed_def padded_profile_def)
  ultimately show ?thesis
    using registered_profiles_matchable [OF d, of "\<lambda>_. Inr padded_profile"]
      registered_profiles_matchable [OF d, of "\<lambda>_. Inr (demo_profile\<lparr>vp_functions := ['' '']\<rparr>)"] by auto
qed

section \<open>What the handler does\<close>

lemma persist_touched_reported:
  "snd (persist_touched H s touched disk) = persist_reported (he_text H) (he_write H) s touched disk \<and>
    (fst (persist_touched H s touched disk) = [] \<longleftrightarrow>
       (\<forall>f \<in> set touched. get_conclusion s f \<noteq> None \<longrightarrow> is_safe_path_segment f \<and> he_write H f = Written))"
proof -
  let ?step = "\<lambda>f (errors, d). case get_conclusion s f of
         None \<Rightarrow> (errors, d)
       | Some c \<Rightarrow>
           (case persist_conclusion_at (he_text H) (he_write H f) f c d of
              (Inl e, d') \<Rightarrow> (errors @ [JObj [(''function'', JStr f), (''error'', JStr e)]], d')
            | (Inr _, d') \<Rightarrow> (errors, d'))"
  have "snd (fold ?step touched (errs, disk)) = persist_reported (he_text H) (he_write H) s touched disk \<and>
      (fst (fold ?step touched (errs, disk)) = [] \<longleftrightarrow> errs = [] \<and>
       (\<forall>f \<in> set touched. get_conclusion s f \<noteq> None \<longrightarrow> is_safe_path_segment f \<and> he_write H f = Written))" for errs
  proof (induction touched arbitrary: errs disk)
    case Nil
    show ?case by (simp add: persist_reported_def)
  next
    case (Cons f fs)
    show ?case
    proof (cases "get_conclusion s f")
      case None
      then show ?thesis using Cons by (simp add: persist_reported_def)
    next
      case (Some c)
      then show ?thesis using Cons
        by (cases "he_write H f") (simp_all add: persist_reported_def persist_conclusion_at_def Let_def)
    qed
  qed
  from this [of "[]"] show ?thesis by (simp add: persist_touched_def)
qed

text \<open>Storing a conclusion is one step of the session with its disk, or nothing. A call that is refused,
  for any of its reasons, leaves both as they were; a call that is accepted does to the session and to the disk
  exactly what \<open>persisted_step\<close> does for the update it decoded, whatever becomes of its writes, so the restart
  property covers it; and the reply claims durability exactly when every conclusion reached the disk.\<close>

theorem handler_is_one_step:
  assumes "store_function_conclusion H params (s, disk) = (result, s', disk')"
  shows "(case result of
      Inl e \<Rightarrow> s' = s \<and> disk' = disk
    | Inr reply \<Rightarrow> (\<exists>u. decode_update H params s = Inr u \<and>
        (s', disk') = persisted_step (he_text H) (he_externals H) (s, disk) (StoreOp u, he_write H) \<and>
        (jget reply ''durable'' = None \<longleftrightarrow>
           (\<forall>f \<in> set (reported (he_externals H) s (StoreOp u)). get_conclusion s' f \<noteq> None \<longrightarrow>
              is_safe_path_segment f \<and> he_write H f = Written))))"
proof (cases "decode_update H params s")
  case (Inl e)
  then show ?thesis using assms by (auto simp: store_function_conclusion_def)
next
  case (Inr u)
  obtain r t where st: "store_conclusion (he_externals H) u s = (r, t)" by fastforce
  show ?thesis
  proof (cases r)
    case (Inl e)
    then have "t = s" using st by (auto simp: store_conclusion_def Let_def split: option.splits prod.splits)
    then show ?thesis using assms Inr st Inl by (auto simp: store_function_conclusion_def)
  next
    case touched: (Inr touched)
    obtain errors d where p: "persist_touched H t touched disk = (errors, d)" by fastforce
    have res: "s' = t" "disk' = d" "result = Inr (JObj (if errors \<noteq> []
            then [(''stored'', JStr (sp_function params)), (''durable'', JBool False), (''persist_errors'', JArr errors)]
            else [(''stored'', JStr (sp_function params))]))"
      using assms Inr st touched p by (auto simp: store_function_conclusion_def)
    show ?thesis
      using persist_touched_reported [of H t touched disk] Inr st touched p
      by (auto simp: res persisted_step_def Let_def)
  qed
qed

lemma decode_update_fields:
  assumes "decode_update H params s = Inr u"
  shows "up_function u = sp_function params \<and> up_verify_profile u = sp_verify_profile params \<and>
    transpose_opt parse_conclusion_status (sp_status params) = Inr (up_status u) \<and>
    is_safe_path_segment (sp_function params) \<and>
    reproduce_command H params (up_proof_receipt u) s = Inr (up_reproduce u)"
  using assms
  by (auto simp: decode_update_def require_safe_path_segment_def split: sum.splits if_splits)

lemma merged_fields:
  "up_status u = Some st \<Longrightarrow> fv_status (merge_update E cs u) = st"
  "up_verify_profile u = Some name \<Longrightarrow> fv_verify_profile (merge_update E cs u) = Some name"
  "up_verify_profile u = Some name \<Longrightarrow> fv_reproduce (merge_update E cs u) = up_reproduce u"
  "fv_proof_receipt (merge_update E cs u) = or_else (up_proof_receipt u) (Option.bind (map_of cs (up_function u)) fv_proof_receipt)"
  "fv_function (merge_update E cs u) = (case map_of cs (up_function u) of None \<Rightarrow> up_function u | Some e \<Rightarrow> fv_function e)"
  by (cases "map_of cs (up_function u)";
      auto simp: merge_update_def Let_def empty_conclusion_static_def split: option.splits)+

text \<open>The memory model a receipt records, if both name one, is the profile's; and a run over the whole target
  recorded at least the obligations the profile's floor asks for.\<close>

definition model_agrees :: "verification_profile \<Rightarrow> json \<Rightarrow> bool" where
  "model_agrees p receipt \<longleftrightarrow>
     (\<forall>declared used. vp_model p = Some declared \<longrightarrow> pointer_str receipt [''wp'', ''model''] = Some used \<longrightarrow> declared = used)"

definition meets_floor :: "verification_profile \<Rightarrow> json \<Rightarrow> json list \<Rightarrow> bool" where
  "meets_floor p receipt proved \<longleftrightarrow>
     (\<forall>bound. vp_min_goals p = Some bound \<longrightarrow> (\<forall>g \<in> set (vp_functions p). proves_function proved g) \<longrightarrow>
        (let goals = unwrap_or (Option.bind (jget receipt ''goals'') as_array) []
         in unat bound \<le> (if receipt_goals_record_owner goals then goals_owned_by goals (vp_functions p) else length goals)))"

lemma profile_evidence_means:
  assumes "profile_evidence_error digest name p f (Some receipt) = None"
  shows "f \<in> set (vp_functions p) \<and>
    (\<exists>proved. pointer_array receipt [''wp'', ''functions''] = Some proved \<and> proves_function proved f \<and>
       meets_floor p receipt proved) \<and> model_agrees p receipt \<and>
    (vp_sources p \<noteq> [] \<longrightarrow> sort (vp_sources p) = sort (receipt_paths (Some receipt))) \<and>
    (\<exists>rte nostdinc load. vp_rte p = Some rte \<and> vp_nostdinc p = Some nostdinc \<and>
       pointer receipt [''subject'', ''project_load''] = Some load \<and>
       json_eq load (project_load_identity (expected_load digest p rte nostdinc)))"
proof -
  have f: "f \<in> set (vp_functions p)" and here: "proved_here f (Some receipt)"
    and src: "\<not> (sort (vp_sources p) \<noteq> [] \<and> sort (vp_sources p) \<noteq> sort (receipt_paths (Some receipt)))"
    and load: "load_error digest name p receipt = None" and model: "model_error name p (Some receipt) = None"
    using assms by (auto simp: profile_evidence_error_def Let_def or_else_def split: if_splits option.splits)
  have "\<exists>rte nostdinc load. vp_rte p = Some rte \<and> vp_nostdinc p = Some nostdinc \<and>
       pointer receipt [''subject'', ''project_load''] = Some load \<and>
       json_eq load (project_load_identity (expected_load digest p rte nostdinc))"
    using load unfolding load_error_def by (auto split: option.splits if_splits)
  moreover have floor: "floor_error name p receipt = None"
    using load unfolding load_error_def by (auto split: option.splits if_splits)
  have "meets_floor p receipt proved" if "pointer_array receipt [''wp'', ''functions''] = Some proved" for proved
    using floor that by (auto simp: meets_floor_def floor_error_def Let_def split: if_splits)
  moreover have "model_agrees p receipt"
    using model by (auto simp: model_agrees_def model_error_def split: if_splits)
  moreover have "vp_sources p \<noteq> [] \<Longrightarrow> sort (vp_sources p) \<noteq> []" by (metis length_0_conv length_sort)
  ultimately show ?thesis
    using f here src by (auto simp: proved_here_def split: option.splits)
qed

text \<open>C11: a conclusion stored as verified under a profile is evidence for that target, end to end. When the
  handler accepts it in a reachable session, the stored conclusion is verified, names the profile and its
  command, and its receipt is both accepted as proof of the function and made for the profile: the
  profile is registered, complete and lists the function; the receipt's WP run proved the function over
  exactly the profile's sources, if it names any; the memory model the receipt records is the profile's, if both
  name one; when the run proved the whole target it recorded at least the profile's floor of obligations; and the
  load it records is the load the profile declares.\<close>

theorem profile_conclusion_is_evidence:
  assumes "s = foldl (session_step (he_externals H)) empty_session ops"
    and "store_function_conclusion H params (s, disk) = (Inr reply, s', disk')"
    and "sp_status params = Some ''verified''" "sp_verify_profile params = Some name"
  shows "\<exists>c p w receipt proved load rte nostdinc.
     get_conclusion s' (sp_function params) = Some c \<and> fv_status c = Verified \<and>
     map_of (ss_verification_profiles s) name = Some p \<and> profile_complete p \<and>
     fv_verify_profile c = Some name \<and> fv_reproduce c = vp_reproduce p \<and>
     fv_wp_summary c = Some w \<and> fv_proof_receipt c = Some receipt \<and>
     proof_receipt_evidence_error (he_externals H) receipt (ws_total w) (sp_function params) = None \<and>
     sp_function params \<in> set (vp_functions p) \<and>
     pointer_array receipt [''wp'', ''functions''] = Some proved \<and> proves_function proved (sp_function params) \<and>
     model_agrees p receipt \<and> meets_floor p receipt proved \<and>
     (vp_sources p \<noteq> [] \<longrightarrow> sort (vp_sources p) = sort (receipt_paths (Some receipt))) \<and>
     vp_rte p = Some rte \<and> vp_nostdinc p = Some nostdinc \<and>
     pointer receipt [''subject'', ''project_load''] = Some load \<and>
     json_eq load (project_load_identity (expected_load (he_header_digest H) p rte nostdinc))"
proof -
  let ?E = "he_externals H" and ?f = "sp_function params"
  have inv: "conclusions_inv ?E (ss_conclusions s)"
    using reachable_inv [of ?E ops] assms(1) by (simp add: session_inv_def)
  then have d: "distinct_keys (ss_conclusions s)" by (simp add: conclusions_inv_def)
  obtain u where u: "decode_update H params s = Inr u" using assms(2)
    by (cases "decode_update H params s") (auto simp: store_function_conclusion_def)
  note fields = decode_update_fields [OF u]
  define c where "c = merge_update ?E (ss_conclusions s) u"
  have valid: "validate_verified_conclusion ?E c = None"
    using assms(2) u by (auto simp: c_def store_function_conclusion_def store_conclusion_def Let_def split: option.splits)
  obtain cs touched where st: "store_into ?E (ss_conclusions s) u c = (cs, touched)" by fastforce
  have s': "s' = s\<lparr>ss_conclusions := cs\<rparr>"
    using assms(2) u valid st
    by (auto simp: c_def store_function_conclusion_def store_conclusion_def Let_def split: prod.splits)
  have stored: "get_conclusion s' ?f = Some c"
    using store_into_lookup [OF d st, of ?f] fields by (simp add: s' get_conclusion_def)
  have "up_status u = Some Verified"
    using fields assms(3) by (simp add: transpose_opt_def parse_conclusion_status_def)
  then have verified: "fv_status c = Verified" and named: "fv_verify_profile c = Some name" "fv_reproduce c = up_reproduce u"
    using fields assms(4) by (simp_all add: c_def merged_fields)
  have own: "fv_function c = ?f"
    using inv fields unfolding c_def merged_fields(5) conclusions_inv_def conclusion_ok_def by (auto split: option.splits)
  obtain w receipt where ev: "fv_wp_summary c = Some w" "fv_proof_receipt c = Some receipt"
      "proof_receipt_evidence_error ?E receipt (ws_total w) ?f = None"
    using validated_evidence [OF valid verified] own by auto
  have eff: "or_else (up_proof_receipt u) (Option.bind (get_conclusion s ?f) fv_proof_receipt) = Some receipt"
    using ev(2) fields unfolding c_def merged_fields(4) by (simp add: get_conclusion_def)
  from fields assms(4) eff obtain p where p: "map_of (ss_verification_profiles s) name = Some p" "profile_complete p"
      "up_reproduce u = vp_reproduce p" "profile_evidence_error (he_header_digest H) name p ?f (Some receipt) = None"
    by (auto simp: reproduce_command_def Let_def split: option.splits if_splits)
  from profile_evidence_means [OF p(4)] obtain proved load rte nostdinc where
    m: "?f \<in> set (vp_functions p)" "pointer_array receipt [''wp'', ''functions''] = Some proved"
      "proves_function proved ?f" "model_agrees p receipt" "meets_floor p receipt proved"
      "vp_sources p \<noteq> [] \<longrightarrow> sort (vp_sources p) = sort (receipt_paths (Some receipt))"
      "vp_rte p = Some rte" "vp_nostdinc p = Some nostdinc" "pointer receipt [''subject'', ''project_load''] = Some load"
      "json_eq load (project_load_identity (expected_load (he_header_digest H) p rte nostdinc))"
    by blast
  have "fv_reproduce c = vp_reproduce p" using named(2) p(3) by simp
  then show ?thesis
    by (intro exI [of _ c] exI [of _ p] exI [of _ w] exI [of _ receipt] exI [of _ proved] exI [of _ load]
        exI [of _ rte] exI [of _ nostdinc] conjI stored verified p(1,2) named(1) ev m)
qed

definition demo_profile_answers :: run_answers where
  "demo_profile_answers =
     demo_answers\<lparr>ra_project_load := project_load_identity (expected_load ''d'' demo_profile True False)\<rparr>"

definition demo_receipt :: json where
  "demo_receipt = check_proof_receipt demo_externals demo_profile_answers demo_check"

lemma demo_receipt_accepted: "proof_receipt_evidence_error demo_externals demo_receipt 1 ''f'' = None"
proof -
  have len: "length (sha256 demo_externals b) = 32" for b by (simp add: demo_externals_def)
  have "proof_receipt_evidence_error demo_externals (check_proof_receipt demo_externals demo_answers demo_check) 1 ''f'' = None"
    by (rule demo_accepted)
  then show ?thesis
    unfolding demo_receipt_def receipt_of_check_evidence [OF len] by (simp add: demo_profile_answers_def)
qed

lemma demo_receipt_parts:
  "pointer_array demo_receipt [''wp'', ''functions''] = Some [JStr ''f'']"
  "pointer_str demo_receipt [''wp'', ''model''] = None"
  "pointer demo_receipt [''subject'', ''project_load''] = Some (project_load_identity (expected_load ''d'' demo_profile True False))"
  "pointer_array demo_receipt [''subject'', ''files''] = Some (proof_receipt_source_files demo_externals (ra_read demo_answers) [''a.c''])"
  "jget demo_receipt ''goals'' = Some (JArr (proof_receipt_goals demo_externals (cr_goals demo_check) None []))"
  by (simp_all add: demo_receipt_def check_proof_receipt_def proof_receipt_with_hash_def proof_receipt_body_def
      check_receipt_body_def Let_def demo_check_def demo_profile_answers_def demo_answers_def post_body_key_def
      pointer_array_def pointer_str_def field_or_null_def)

lemma demo_source_paths: "receipt_paths (Some demo_receipt) = [''a.c'']"
proof -
  have "receipt_source_path ''a.c'' = ''a.c''" by code_simp
  then show ?thesis
    by (simp add: receipt_paths_def demo_receipt_parts proof_receipt_source_files_def demo_answers_def
        pointer_str_def map_filter_simps)
qed

lemma demo_floor: "floor_error ''t'' demo_profile demo_receipt = None"
proof -
  have "receipt_goals_record_owner (proof_receipt_goals demo_externals (cr_goals demo_check) None [])" by code_simp
  moreover have "goals_owned_by (proof_receipt_goals demo_externals (cr_goals demo_check) None []) [''f''] = 1" by code_simp
  ultimately show ?thesis
    by (simp add: floor_error_def demo_receipt_parts demo_profile_def Let_def proves_function_def)
qed

lemma demo_profile_evidence: "profile_evidence_error ''d'' ''t'' demo_profile ''f'' (Some demo_receipt) = None"
proof -
  have "vp_rte demo_profile = Some True" "vp_nostdinc demo_profile = Some False" by (simp_all add: demo_profile_def)
  then have "load_error ''d'' ''t'' demo_profile demo_receipt = None"
    unfolding load_error_def demo_receipt_parts(3) by (simp add: demo_floor project_load_identity_eq)
  moreover have "vp_functions demo_profile = [''f'']" "sort (vp_sources demo_profile) = [''a.c'']"
    by (simp_all add: demo_profile_def)
  ultimately show ?thesis
    by (simp add: profile_evidence_error_def proved_here_def demo_receipt_parts proves_function_def model_error_def
        demo_source_paths Let_def split: option.splits)
qed

definition demo_handler :: handler_env where
  "demo_handler = \<lparr>he_externals = demo_externals, he_decode_spec = (\<lambda>_. Inl []), he_decode_summary = (\<lambda>_. Inr demo_summary),
     he_header_digest = ''d'', he_text = numbered_text, he_write = (\<lambda>_. Written)\<rparr>"

definition demo_params :: store_conclusion_params where
  "demo_params = \<lparr>sp_function = ''f'', sp_status = Some ''verified'', sp_specs = None, sp_wp_summary = Some JNull,
     sp_notes = None, sp_callees = Some [''g''], sp_proof_receipt = Some demo_receipt, sp_proof_receipt_sha256 = None,
     sp_verify_profile = Some ''t''\<rparr>"

definition demo_session :: session_state where
  "demo_session = foldl (session_step demo_externals) empty_session [ProfilesRegistered [(''t'', demo_profile)] None]"

lemma demo_session_simps:
  "ss_verification_profiles demo_session = [(''t'', demo_profile)]" "ss_conclusions demo_session = []"
  by (simp_all add: demo_session_def register_profiles_def empty_session_def)

definition demo_decoded :: function_conclusion_update where
  "demo_decoded = \<lparr>up_function = ''f'', up_status = Some Verified, up_specs = None, up_wp_summary = Some demo_summary,
     up_notes = None, up_callees = Some [''g''], up_proof_receipt = Some demo_receipt,
     up_verify_profile = Some ''t'', up_reproduce = Some ''make verify''\<rparr>"

lemma demo_decode: "decode_update demo_handler demo_params demo_session = Inr demo_decoded"
proof -
  have safe: "is_safe_path_segment ''f''" by code_simp
  have complete: "profile_complete demo_profile" "vp_reproduce demo_profile = Some ''make verify''"
    by (simp_all add: profile_complete_def demo_profile_def)
  have "reproduce_command demo_handler demo_params (Some demo_receipt) demo_session = Inr (Some ''make verify'')"
    using complete
    by (simp add: reproduce_command_def Let_def demo_params_def demo_session_simps demo_handler_def demo_profile_evidence
        get_conclusion_def)
  then show ?thesis
    by (simp add: decode_update_def demo_params_def demo_handler_def transpose_opt_def parse_conclusion_status_def
        requested_receipt_def require_safe_path_segment_def safe demo_decoded_def)
qed

lemma demo_store:
  "\<exists>touched s'. store_conclusion demo_externals demo_decoded demo_session = (Inr touched, s')"
proof -
  have "validate_verified_conclusion demo_externals (merge_update demo_externals [] demo_decoded) = None"
    using demo_receipt_accepted
    by (simp add: validate_verified_conclusion_def merge_update_def Let_def demo_decoded_def
        empty_conclusion_static_def demo_summary_def summary_fully_valid_def)
  then show ?thesis by (simp add: store_conclusion_def Let_def demo_session_simps split: prod.splits)
qed

lemma demo_run:
  "\<exists>reply s' disk'. store_function_conclusion demo_handler demo_params (demo_session, []) = (Inr reply, s', disk')"
  using demo_store demo_decode
  by (auto simp: store_function_conclusion_def demo_handler_def split: prod.splits)

theorem profile_conclusion_is_evidence_witness:
  "\<exists>reply s' disk' c. store_function_conclusion demo_handler demo_params (demo_session, []) = (Inr reply, s', disk') \<and>
     get_conclusion s' ''f'' = Some c \<and> fv_status c = Verified \<and> fv_reproduce c = Some ''make verify''"
proof -
  obtain reply s' disk' where run: "store_function_conclusion demo_handler demo_params (demo_session, []) = (Inr reply, s', disk')"
    using demo_run by blast
  have s: "demo_session = foldl (session_step (he_externals demo_handler)) empty_session [ProfilesRegistered [(''t'', demo_profile)] None]"
    by (simp add: demo_session_def demo_handler_def)
  have p: "sp_status demo_params = Some ''verified''" "sp_verify_profile demo_params = Some ''t''" "sp_function demo_params = ''f''"
    by (simp_all add: demo_params_def)
  from profile_conclusion_is_evidence [OF s run p(1,2)] obtain c q where
    "get_conclusion s' ''f'' = Some c" "fv_status c = Verified" "map_of (ss_verification_profiles demo_session) ''t'' = Some q"
    "fv_reproduce c = vp_reproduce q"
    unfolding p(3) by blast
  then show ?thesis using run by (auto simp: demo_session_simps demo_profile_def)
qed

theorem handler_is_one_step_witness:
  "\<exists>u. decode_update demo_handler demo_params demo_session = Inr u \<and>
     snd (store_function_conclusion demo_handler demo_params (demo_session, [])) =
       persisted_step numbered_text demo_externals (demo_session, []) (StoreOp u, \<lambda>_. Written)"
proof -
  obtain reply s' disk' where run: "store_function_conclusion demo_handler demo_params (demo_session, []) = (Inr reply, s', disk')"
    using demo_run by blast
  have E: "he_externals demo_handler = demo_externals" "he_text demo_handler = numbered_text"
    "he_write demo_handler = (\<lambda>_. Written)" by (simp_all add: demo_handler_def)
  from handler_is_one_step [OF run] show ?thesis by (auto simp: run E)
qed

end
