(* ===== verification/Topo.thy ===== *)
theory Topo
  imports Prelude "HOL-Library.Multiset"
begin

text \<open>
  The verification order (src/src/topo.rs): the call graph is condensed into strongly connected
  groups, the groups are layered by Kahn's algorithm from the leaves up, and the functions whose
  callees are done are the ones ready to work on. The \<open>petgraph\<close> crate's \<open>tarjan_scc\<close> and
  \<open>condensation\<close> are parameters; \<open>is_scc_partition\<close> and \<open>is_condensation\<close> state what their
  documentation promises for one graph.
\<close>

section \<open>The graph\<close>

text \<open>
  Nodes are added at the first occurrence of a name and an edge only between known names, so a node is
  its name and the graph is the list of nodes and the list of edges (parallel edges included).
\<close>

type_synonym call_graph = "string list \<times> (string \<times> string) list"

definition add_node :: "string \<Rightarrow> string list \<Rightarrow> string list" where
  "add_node v nodes = (if v \<in> set nodes then nodes else nodes @ [v])"

definition build_graph :: "string list \<Rightarrow> (string \<times> string) list \<Rightarrow> call_graph" where
  "build_graph vertices edges =
     (let nodes = fold add_node vertices []
      in (nodes, filter (\<lambda>(caller, callee). caller \<in> set nodes \<and> callee \<in> set nodes) edges))"

definition contains_edge :: "call_graph \<Rightarrow> string \<Rightarrow> string \<Rightarrow> bool" where
  "contains_edge g a b \<longleftrightarrow> (a, b) \<in> set (snd g)"

definition outgoing :: "call_graph \<Rightarrow> string \<Rightarrow> string list" where
  "outgoing g v = map snd (filter (\<lambda>e. fst e = v) (snd g))"

section \<open>What petgraph promises\<close>

definition mutually_reachable :: "(string \<times> string) list \<Rightarrow> string \<Rightarrow> string \<Rightarrow> bool" where
  "mutually_reachable edges u v \<longleftrightarrow> (u, v) \<in> (set edges)\<^sup>* \<and> (v, u) \<in> (set edges)\<^sup>*"

definition is_scc_partition :: "call_graph \<Rightarrow> string list list \<Rightarrow> bool" where
  "is_scc_partition g sccs \<longleftrightarrow>
     distinct (concat sccs) \<and> set (concat sccs) = set (fst g) \<and> [] \<notin> set sccs \<and>
     (\<forall>u \<in> set (fst g). \<forall>v \<in> set (fst g).
        (\<exists>c \<in> set sccs. u \<in> set c \<and> v \<in> set c) \<longleftrightarrow> mutually_reachable (snd g) u v)"

text \<open>
  \<open>condensation(graph, true)\<close>: one node per component, and between two different ones an edge, once,
  when a call goes from a member of the first to a member of the second.
\<close>

definition is_condensation :: "call_graph \<Rightarrow> string list list \<times> (nat \<times> nat) list \<Rightarrow> bool" where
  "is_condensation g condensed \<longleftrightarrow>
     (case condensed of (groups, edges) \<Rightarrow>
        is_scc_partition g groups \<and> distinct edges \<and>
        set edges = {(i, j). i < length groups \<and> j < length groups \<and> i \<noteq> j \<and>
           (\<exists>u \<in> set (groups ! i). \<exists>v \<in> set (groups ! j). (u, v) \<in> set (snd g))})"

section \<open>Layers\<close>

record scc_group =
  sg_id :: u32
  sg_members :: "string list"
  sg_level :: nat
  sg_is_cycle :: bool

record level =
  lv_level :: nat
  lv_groups :: "scc_group list"

text \<open>
  One node of the ready list: its level is fixed, and every caller loses one outstanding callee; the
  callers left with none are ready next. A counter below zero would be a panic (\<open>None\<close>).
\<close>

fun relax_callers :: "nat list \<Rightarrow> nat list \<Rightarrow> (nat list \<times> nat list) option" where
  "relax_callers [] degrees = Some (degrees, [])"
| "relax_callers (caller # callers) degrees =
     (if degrees ! caller = 0 then None
      else let degrees' = degrees[caller := degrees ! caller - 1]
           in (case relax_callers callers degrees' of
                 None \<Rightarrow> None
               | Some (ds, next_ready) \<Rightarrow>
                   Some (ds, if degrees' ! caller = 0 then caller # next_ready else next_ready)))"

definition callers_of :: "(nat \<times> nat) list \<Rightarrow> nat \<Rightarrow> nat list" where
  "callers_of edges g = map fst (filter (\<lambda>e. snd e = g) edges)"

fun relax_ready :: "(nat \<times> nat) list \<Rightarrow> nat list \<Rightarrow> nat list \<Rightarrow> (nat list \<times> nat list) option" where
  "relax_ready edges [] degrees = Some (degrees, [])"
| "relax_ready edges (g # gs) degrees =
     (case relax_callers (callers_of edges g) degrees of
        None \<Rightarrow> None
      | Some (ds, next1) \<Rightarrow>
          (case relax_ready edges gs ds of
             None \<Rightarrow> None
           | Some (ds', next2) \<Rightarrow> Some (ds', next1 @ next2)))"

definition set_levels :: "nat list \<Rightarrow> nat \<Rightarrow> nat list \<Rightarrow> nat list" where
  "set_levels ready current_level levels_map = fold (\<lambda>g lm. lm[g := current_level]) ready levels_map"

lemma relax_callers_sum:
  "relax_callers cs ds = Some (ds', nxt) \<Longrightarrow> (\<forall>c \<in> set cs. c < length ds) \<Longrightarrow>
     sum_list ds' + length cs = sum_list ds \<and> length nxt \<le> length cs \<and> length ds' = length ds"
proof (induction cs arbitrary: ds ds' nxt)
  case (Cons c cs)
  from Cons.prems(1) obtain nxt0 where pos: "ds ! c \<noteq> 0"
      and rest: "relax_callers cs (ds[c := ds ! c - 1]) = Some (ds', nxt0)" and len: "length nxt \<le> Suc (length nxt0)"
    by (auto simp: Let_def split: if_splits option.splits prod.splits)
  have "sum_list (ds[c := ds ! c - 1]) + 1 = sum_list ds"
    using Cons.prems(2) pos elem_le_sum_list [of c ds] by (simp add: sum_list_update)
  with Cons.IH [OF rest] Cons.prems(2) len show ?case by simp
qed simp

text \<open>Indices out of range are the other panic; the condensation never yields one.\<close>

lemma relax_ready_sum:
  "relax_ready es gs ds = Some (ds', nxt) \<Longrightarrow> (\<forall>e \<in> set es. fst e < length ds) \<Longrightarrow>
     sum_list ds' + length nxt \<le> sum_list ds \<and> length ds' = length ds"
proof (induction gs arbitrary: ds ds' nxt)
  case (Cons g gs)
  from Cons.prems(1) obtain ds1 n1 n2 where r: "relax_callers (callers_of es g) ds = Some (ds1, n1)"
      "relax_ready es gs ds1 = Some (ds', n2)" "nxt = n1 @ n2"
    by (auto split: option.splits)
  have "\<forall>c \<in> set (callers_of es g). c < length ds" using Cons.prems(2) by (auto simp: callers_of_def)
  from relax_callers_sum [OF r(1) this] Cons.IH [OF r(2)] Cons.prems(2) r(3) show ?case by auto
qed simp

function layer_loop ::
    "(nat \<times> nat) list \<Rightarrow> nat list \<Rightarrow> nat list \<Rightarrow> nat list \<Rightarrow> nat \<Rightarrow> nat list option" where
  "layer_loop edges degrees levels_map ready current_level =
     (if ready = [] then Some levels_map
      else if \<not> (\<forall>e \<in> set edges. fst e < length degrees) then None
      else (case relax_ready edges ready degrees of
          None \<Rightarrow> None
        | Some (degrees', next_ready) \<Rightarrow>
            layer_loop edges degrees' (set_levels ready current_level levels_map) next_ready
              (current_level + 1)))"
  by pat_completeness auto
termination
proof (relation "measure (\<lambda>(es, ds, lm, ready, l). sum_list ds + (if ready = [] then 0 else 1))", simp)
  fix edges :: "(nat \<times> nat) list" and degrees levels_map ready current_level p degrees' next_ready
  assume "ready \<noteq> []" "\<not> \<not> (\<forall>e \<in> set edges. fst e < length degrees)"
    "relax_ready edges ready degrees = Some p" "(degrees', next_ready) = p"
  then have "sum_list degrees' + length next_ready \<le> sum_list degrees" using relax_ready_sum by metis
  then show "((edges, degrees', set_levels ready current_level levels_map, next_ready, current_level + 1),
     edges, degrees, levels_map, ready, current_level)
     \<in> measure (\<lambda>(es, ds, lm, ready, l). sum_list ds + (if ready = [] then 0 else 1))"
    using \<open>ready \<noteq> []\<close> by (cases next_ready) auto
qed

declare layer_loop.simps [simp del]

definition out_degrees :: "nat \<Rightarrow> (nat \<times> nat) list \<Rightarrow> nat list" where
  "out_degrees n edges = map (\<lambda>i. length (filter (\<lambda>e. fst e = i) edges)) [0..<n]"

definition group_of :: "string list \<Rightarrow> string list list \<Rightarrow> nat list \<Rightarrow> nat \<Rightarrow> scc_group" where
  "group_of self_loops groups levels_map i =
     (let members = sort (groups ! i)
      in \<lparr>sg_id = of_nat i, sg_members = members, sg_level = levels_map ! i,
          sg_is_cycle = (2 \<le> length members \<or> (length members = 1 \<and> hd members \<in> set self_loops))\<rparr>)"

definition renumber :: "scc_group list \<Rightarrow> scc_group list" where
  "renumber gs = map2 (\<lambda>g i. g\<lparr>sg_id := of_nat i\<rparr>) gs [0..<length gs]"

definition order_groups :: "scc_group list \<Rightarrow> scc_group list" where
  "order_groups gs = renumber (sort_key (\<lambda>g. [sg_level g, unat (sg_id g)]) gs)"

definition compute_topological_order ::
    "(call_graph \<Rightarrow> string list list \<times> (nat \<times> nat) list) \<Rightarrow> string list \<Rightarrow> (string \<times> string) list \<Rightarrow>
     level list option" where
  "compute_topological_order condensation vertices edges =
     (let g = build_graph vertices edges
      in if fst g = [] then Some []
         else let self_loops = filter (\<lambda>n. contains_edge g n n) (fst g)
              in (case condensation g of (groups, cedges) \<Rightarrow>
                    let n_groups = length groups; degrees = out_degrees n_groups cedges;
                        ready = filter (\<lambda>i. degrees ! i = 0) [0..<n_groups]
                    in map_option (\<lambda>levels_map.
                         let ordered = order_groups (map (group_of self_loops groups levels_map) [0..<n_groups])
                         in map (\<lambda>l. \<lparr>lv_level = l, lv_groups = filter (\<lambda>x. sg_level x = l) ordered\<rparr>)
                              [0..<fold max levels_map 0 + 1])
                       (layer_loop cedges degrees (replicate n_groups 0) ready 0)))"

section \<open>The flattened order and the ready functions\<close>

definition flatten_group :: "string set \<Rightarrow> nat \<Rightarrow> scc_group \<Rightarrow> scc_group option" where
  "flatten_group defined l grp =
     (let members = filter (\<lambda>m. m \<in> defined) (sg_members grp)
      in if members = [] then None
         else Some \<lparr>sg_id = sg_id grp, sg_members = members, sg_level = l, sg_is_cycle = sg_is_cycle grp\<rparr>)"

definition flatten_levels_to_vo_scc :: "level list \<Rightarrow> string set \<Rightarrow> string list \<times> scc_group list" where
  "flatten_levels_to_vo_scc levels defined =
     (let groups = concat (map (\<lambda>l. List.map_filter (flatten_group defined (lv_level l)) (lv_groups l)) levels)
      in (concat (map sg_members groups), groups))"

record ready_func =
  rf_function :: string
  rf_scc_id :: "u32 option"
  rf_is_cycle :: bool
  rf_scc_members :: "string list"

definition scc_index :: "string list list \<Rightarrow> string \<Rightarrow> nat" where
  "scc_index sccs v = length (takeWhile (\<lambda>c. v \<notin> set c) sccs)"

definition scc_is_cycle :: "call_graph \<Rightarrow> string list \<Rightarrow> bool" where
  "scc_is_cycle g scc \<longleftrightarrow> 2 \<le> length scc \<or> (length scc = 1 \<and> contains_edge g (hd scc) (hd scc))"

definition externally_ok :: "call_graph \<Rightarrow> string list list \<Rightarrow> string list \<Rightarrow> string \<Rightarrow> bool" where
  "externally_ok g sccs done_names v \<longleftrightarrow>
     (\<forall>c \<in> set (outgoing g v).
        (scc_index sccs c = scc_index sccs v \<and> scc_is_cycle g (sccs ! scc_index sccs v)) \<or> c \<in> set done_names)"

definition ready_entry :: "call_graph \<Rightarrow> string list list \<Rightarrow> string \<Rightarrow> ready_func" where
  "ready_entry g sccs v =
     (let i = scc_index sccs v; is_cycle = scc_is_cycle g (sccs ! i)
      in \<lparr>rf_function = v, rf_scc_id = (if is_cycle then Some (of_nat i) else None), rf_is_cycle = is_cycle,
          rf_scc_members = (if is_cycle then sort (sccs ! i) else [v])\<rparr>)"

definition compute_ready_functions ::
    "(call_graph \<Rightarrow> string list list) \<Rightarrow> string list \<Rightarrow> (string \<times> string) list \<Rightarrow> string list \<Rightarrow>
     string list \<Rightarrow> ready_func list" where
  "compute_ready_functions tarjan_scc vertices edges done_names in_progress =
     (let g = build_graph vertices edges; sccs = tarjan_scc g
      in sort_key rf_function
           (map (ready_entry g sccs)
             (filter (\<lambda>v. v \<notin> set done_names \<and> v \<notin> set in_progress \<and> externally_ok g sccs done_names v)
               vertices)))"

section \<open>Layering an acyclic graph\<close>

lemma count_list_pos_iff: "0 < count_list xs x \<longleftrightarrow> x \<in> set xs"
  by (metis count_list_0_iff neq0_conv)

lemma relax_callers_correct:
  "(\<forall>c \<in> set cs. c < length ds) \<Longrightarrow> (\<forall>i. count_list cs i \<le> (if i < length ds then ds ! i else 0)) \<Longrightarrow>
   \<exists>ds' nxt. relax_callers cs ds = Some (ds', nxt) \<and> length ds' = length ds \<and> distinct nxt \<and>
     (\<forall>i < length ds. ds' ! i = ds ! i - count_list cs i) \<and>
     set nxt = {i \<in> set cs. ds ! i = count_list cs i}"
proof (induction cs arbitrary: ds)
  case (Cons c cs)
  have c: "c < length ds" and pos: "Suc (count_list cs c) \<le> ds ! c"
    using Cons.prems(1) Cons.prems(2) [rule_format, of c] by auto
  let ?ds = "ds[c := ds ! c - 1]"
  have "\<forall>i. count_list cs i \<le> (if i < length ?ds then ?ds ! i else 0)"
  proof
    fix i
    show "count_list cs i \<le> (if i < length ?ds then ?ds ! i else 0)"
      using Cons.prems(2) [rule_format, of i] c pos by (cases "i = c") (auto split: if_splits)
  qed
  with Cons.IH [of ?ds] Cons.prems(1) obtain ds' nxt where
    ih: "relax_callers cs ?ds = Some (ds', nxt)" "length ds' = length ds" "distinct nxt"
      "\<forall>i < length ds. ds' ! i = ?ds ! i - count_list cs i" "set nxt = {i \<in> set cs. ?ds ! i = count_list cs i}"
    by auto
  let ?nxt = "if ?ds ! c = 0 then c # nxt else nxt"
  have run: "relax_callers (c # cs) ds = Some (ds', ?nxt)"
    using pos ih(1) by (simp add: Let_def)
  have out: "\<forall>i < length ds. ds' ! i = ds ! i - count_list (c # cs) i"
    using ih(4) c by (auto simp: nth_list_update)
  have fresh: "?ds ! c = 0 \<Longrightarrow> c \<notin> set cs" using pos c count_list_pos_iff [of cs c] by auto
  have "distinct ?nxt" using ih(3,5) fresh by auto
  moreover have "set ?nxt = {i \<in> set (c # cs). ds ! i = count_list (c # cs) i}"
  proof (rule set_eqI)
    fix i
    show "i \<in> set ?nxt \<longleftrightarrow> i \<in> {i \<in> set (c # cs). ds ! i = count_list (c # cs) i}"
    proof (cases "i = c")
      case True
      then show ?thesis using ih(5) c pos fresh
        by (cases "c \<in> set cs") (auto simp: count_list_0_iff)
    next
      case False
      then show ?thesis using ih(5) by auto
    qed
  qed
  ultimately show ?case using run out ih(2) by blast
qed simp

lemma relax_callers_append:
  "relax_callers (as @ bs) ds =
     (case relax_callers as ds of None \<Rightarrow> None
      | Some (ds1, n1) \<Rightarrow> (case relax_callers bs ds1 of None \<Rightarrow> None | Some (ds2, n2) \<Rightarrow> Some (ds2, n1 @ n2)))"
  by (induction as arbitrary: ds) (auto simp: Let_def split: option.splits prod.splits)

lemma relax_ready_flat:
  "relax_ready es gs ds = relax_callers (concat (map (callers_of es) gs)) ds"
  by (induction gs arbitrary: ds) (auto simp: relax_callers_append split: option.splits prod.splits)

definition outstanding :: "(nat \<times> nat) list \<Rightarrow> nat set \<Rightarrow> nat \<Rightarrow> nat" where
  "outstanding es finished i = length (filter (\<lambda>e. fst e = i \<and> snd e \<notin> finished) es)"

lemma count_callers_of: "count_list (callers_of es g) i = length (filter (\<lambda>e. fst e = i \<and> snd e = g) es)"
  by (induction es) (auto simp: callers_of_def)

lemma length_filter_split:
  "length (filter P xs) = length (filter (\<lambda>x. P x \<and> Q x) xs) + length (filter (\<lambda>x. P x \<and> \<not> Q x) xs)"
  by (induction xs) auto

lemma outstanding_step:
  "distinct gs \<Longrightarrow> set gs \<inter> finished = {} \<Longrightarrow>
     outstanding es finished i =
       count_list (concat (map (callers_of es) gs)) i + outstanding es (finished \<union> set gs) i"
proof (induction gs arbitrary: finished)
  case (Cons g gs)
  have "outstanding es finished i = count_list (callers_of es g) i + outstanding es (insert g finished) i"
    using length_filter_split [of "\<lambda>e. fst e = i \<and> snd e \<notin> finished" es "\<lambda>e. snd e = g"] Cons.prems(2)
    unfolding outstanding_def count_callers_of
    by (auto intro!: arg_cong2 [where f = "(+)"] arg_cong [where f = length] filter_cong)
  moreover have "set gs \<inter> insert g finished = {}" using Cons.prems by auto
  ultimately show ?case using Cons.IH [of "insert g finished"] Cons.prems(1) by simp
qed simp

lemma outstanding_zero_iff:
  "outstanding es finished i = 0 \<longleftrightarrow> (\<forall>j. (i, j) \<in> set es \<longrightarrow> j \<in> finished)"
  by (auto simp: outstanding_def filter_empty_conv)

text \<open>The loop's invariant: \<open>finished\<close> are the groups that have their level.\<close>

definition layered :: "(nat \<times> nat) list \<Rightarrow> nat \<Rightarrow> nat set \<Rightarrow> nat list \<Rightarrow> nat list \<Rightarrow> nat list \<Rightarrow> nat \<Rightarrow> bool" where
  "layered es n finished degrees levels_map ready l \<longleftrightarrow>
     length degrees = n \<and> length levels_map = n \<and> finished \<subseteq> {..<n} \<and>
     (\<forall>i < n. degrees ! i = outstanding es finished i) \<and>
     distinct ready \<and> set ready = {i. i < n \<and> i \<notin> finished \<and> degrees ! i = 0} \<and>
     (\<forall>i \<in> finished. levels_map ! i < l) \<and>
     (\<forall>i j. (i, j) \<in> set es \<longrightarrow> i \<in> finished \<longrightarrow> j \<in> finished \<and> levels_map ! j < levels_map ! i)"

lemma set_levels_nth:
  "length (set_levels gs l lm) = length lm \<and>
   (i < length lm \<longrightarrow> set_levels gs l lm ! i = (if i \<in> set gs then l else lm ! i))"
  unfolding set_levels_def by (induction gs arbitrary: lm) (auto simp: nth_list_update)

lemma set_levels_simps [simp]:
  "length (set_levels gs l lm) = length lm"
  "i < length lm \<Longrightarrow> set_levels gs l lm ! i = (if i \<in> set gs then l else lm ! i)"
  using set_levels_nth by blast+

lemma layered_step:
  assumes inv: "layered es n fin ds lm ready l" and range: "\<forall>e \<in> set es. fst e < n \<and> snd e < n"
  shows "\<exists>ds' nxt. relax_ready es ready ds = Some (ds', nxt) \<and>
           layered es n (fin \<union> set ready) ds' (set_levels ready l lm) nxt (l + 1)"
proof -
  let ?cs = "concat (map (callers_of es) ready)" and ?fin = "fin \<union> set ready"
  have len: "length ds = n" and dist: "distinct ready" and lenlm: "length lm = n" and sub: "fin \<subseteq> {..<n}"
    and rdy: "set ready = {i. i < n \<and> i \<notin> fin \<and> ds ! i = 0}"
    and deg: "\<And>i. i < n \<Longrightarrow> ds ! i = outstanding es fin i"
    and below: "\<And>i. i \<in> fin \<Longrightarrow> lm ! i < l"
    and closed: "\<And>i j. (i, j) \<in> set es \<Longrightarrow> i \<in> fin \<Longrightarrow> j \<in> fin \<and> lm ! j < lm ! i"
    using inv by (auto simp: layered_def)
  have step: "outstanding es fin i = count_list ?cs i + outstanding es ?fin i" for i
    by (rule outstanding_step) (use dist rdy in auto)
  have cs: "i \<in> set ?cs \<Longrightarrow> i < n" for i using range by (auto simp: callers_of_def)
  then have "count_list ?cs i \<le> (if i < length ds then ds ! i else 0)" for i
    using step [of i] deg [of i] len by (auto simp: count_list_0_iff)
  with relax_callers_correct [of ?cs ds] cs len obtain ds' nxt where
    run: "relax_callers ?cs ds = Some (ds', nxt)" and out: "length ds' = n" "distinct nxt"
      "\<forall>i < n. ds' ! i = ds ! i - count_list ?cs i" "set nxt = {i \<in> set ?cs. ds ! i = count_list ?cs i}"
    by auto
  have deg': "i < n \<Longrightarrow> ds' ! i = outstanding es ?fin i" for i using out(3) deg [of i] step [of i] by simp
  have zero: "i \<in> ?fin \<Longrightarrow> (i, j) \<in> set es \<Longrightarrow> j \<in> fin" for i j
    using closed rdy deg [of i] by (auto simp: outstanding_zero_iff)
  have N: "set nxt = {i. i < n \<and> i \<notin> ?fin \<and> ds' ! i = 0}" (is "_ = ?N")
  proof (rule set_eqI)
    fix i
    show "i \<in> set nxt \<longleftrightarrow> i \<in> ?N"
    proof
      assume "i \<in> set nxt"
      then have i: "i \<in> set ?cs" "i < n" "ds ! i = count_list ?cs i" using out(4) cs by auto
      then have "outstanding es fin i \<noteq> 0" using deg [of i] by (simp add: count_list_0_iff)
      then have "i \<notin> ?fin" using zero [of i] by (auto simp: outstanding_zero_iff)
      with i out(3) show "i \<in> ?N" by auto
    next
      assume N: "i \<in> ?N"
      then have "ds ! i \<noteq> 0" using rdy by auto
      moreover have "ds ! i = count_list ?cs i" using N deg [of i] deg' [of i] step [of i] by simp
      ultimately show "i \<in> set nxt" using out(4) by (auto simp: count_list_0_iff)
    qed
  qed
  have L: "set_levels ready l lm ! j < set_levels ready l lm ! i" if e: "(i, j) \<in> set es" "i \<in> ?fin" for i j
  proof -
    have j: "j \<in> fin" "j < n" "j \<notin> set ready" and i: "i < n" using zero [OF e(2,1)] e sub rdy by auto
    then have "set_levels ready l lm ! j = lm ! j" using lenlm by simp
    moreover have "lm ! j < (if i \<in> set ready then l else lm ! i)"
      using closed [OF e(1)] below [OF j(1)] e(2) by auto
    ultimately show ?thesis using i lenlm by simp
  qed
  have B: "i \<in> ?fin \<Longrightarrow> set_levels ready l lm ! i < l + 1" for i
    using below [of i] rdy sub lenlm by auto
  have S: "?fin \<subseteq> {..<n}" using sub rdy by auto
  have "layered es n ?fin ds' (set_levels ready l lm) nxt (l + 1)"
    unfolding layered_def
  proof (intro conjI allI impI ballI)
    show "\<And>i j. (i, j) \<in> set es \<Longrightarrow> i \<in> ?fin \<Longrightarrow> j \<in> ?fin" using zero by blast
  qed (use out(1,2) lenlm S deg' N B L in \<open>simp_all del: set_levels_simps(2)\<close>)
  with run show ?thesis unfolding relax_ready_flat by blast
qed

lemma layer_loop_correct:
  assumes acyc: "acyclic (set es)" and range: "\<forall>e \<in> set es. fst e < n \<and> snd e < n"
  shows "layered es n fin ds lm ready l \<Longrightarrow>
     \<exists>lm'. layer_loop es ds lm ready l = Some lm' \<and> length lm' = n \<and>
       (\<forall>i j. (i, j) \<in> set es \<longrightarrow> lm' ! j < lm' ! i)"
proof (induction "sum_list ds + (if ready = [] then 0 else 1)" arbitrary: fin ds lm ready l rule: less_induct)
  case less
  show ?case
  proof (cases "ready = []")
    case True
    have rdy: "{i. i < n \<and> i \<notin> fin \<and> ds ! i = 0} = {}" and deg: "\<And>i. i < n \<Longrightarrow> ds ! i = outstanding es fin i"
      using less.prems True by (auto simp: layered_def)
    have "i < n \<Longrightarrow> i \<in> fin" for i
    proof (induction i rule: wf_induct_rule [OF finite_acyclic_wf_converse [OF finite_set acyc]])
      case (1 i)
      then have "outstanding es fin i = 0" using range by (auto simp: outstanding_zero_iff)
      with 1(2) deg [of i] rdy show ?case by auto
    qed
    then have "\<forall>i j. (i, j) \<in> set es \<longrightarrow> lm ! j < lm ! i" using less.prems range by (fastforce simp: layered_def)
    with True less.prems show ?thesis by (simp add: layer_loop.simps layered_def)
  next
    case False
    from layered_step [OF less.prems range] obtain ds' nxt where
      run: "relax_ready es ready ds = Some (ds', nxt)" and
      inv: "layered es n (fin \<union> set ready) ds' (set_levels ready l lm) nxt (l + 1)" by blast
    have ok: "\<forall>e \<in> set es. fst e < length ds" using less.prems range by (auto simp: layered_def)
    have "sum_list ds' + length nxt \<le> sum_list ds" using relax_ready_sum [OF run ok] by simp
    then have "sum_list ds' + (if nxt = [] then 0 else 1) < sum_list ds + (if ready = [] then 0 else 1)"
      using False by (cases nxt) auto
    from less.hyps [OF this inv] show ?thesis
      using False run ok by (subst layer_loop.simps) simp
  qed
qed

section \<open>The condensation is acyclic\<close>

lemma scc_same_group:
  assumes "is_scc_partition g sccs" and "i < length sccs" "j < length sccs" "u \<in> set (sccs ! i)" "v \<in> set (sccs ! j)"
  shows "i = j \<longleftrightarrow> mutually_reachable (snd g) u v"
proof -
  have dist: "distinct (concat sccs)" and uv: "u \<in> set (fst g)" "v \<in> set (fst g)"
    using assms nth_mem [of i sccs] nth_mem [of j sccs] by (auto simp: is_scc_partition_def)
  have m: "(\<exists>c \<in> set sccs. u \<in> set c \<and> v \<in> set c) \<longleftrightarrow> mutually_reachable (snd g) u v"
    using assms(1) uv unfolding is_scc_partition_def by blast
  have uniq: "w \<in> set (sccs ! k) \<Longrightarrow> w \<in> set (sccs ! k') \<Longrightarrow> k < length sccs \<Longrightarrow> k' < length sccs \<Longrightarrow> k = k'" for w k k'
  proof -
    assume w: "w \<in> set (sccs ! k)" "w \<in> set (sccs ! k')" and k: "k < length sccs" "k' < length sccs"
    have "[] \<notin> set sccs" using assms(1) by (simp add: is_scc_partition_def)
    then have "distinct sccs" and "\<And>ys zs. ys \<in> set sccs \<Longrightarrow> zs \<in> set sccs \<Longrightarrow> ys \<noteq> zs \<Longrightarrow> set ys \<inter> set zs = {}"
      using dist by (auto simp: distinct_concat_iff removeAll_id)
    moreover from this(2) [of "sccs ! k" "sccs ! k'"] have "sccs ! k = sccs ! k'" using w k by auto
    ultimately show "k = k'" using k by (simp add: nth_eq_iff_index_eq)
  qed
  have "(\<exists>c \<in> set sccs. u \<in> set c \<and> v \<in> set c) \<longleftrightarrow> i = j"
    using uniq assms(2-) by (metis in_set_conv_nth nth_mem)
  with m show ?thesis by blast
qed

lemma condensed_path:
  assumes cond: "is_condensation g (groups, edges)" and path: "(i, j) \<in> (set edges)\<^sup>+"
  shows "i < length groups \<and> j < length groups \<and>
    (\<forall>u \<in> set (groups ! i). \<forall>v \<in> set (groups ! j). (u, v) \<in> (set (snd g))\<^sup>*)"
  using path
proof -
  have part: "is_scc_partition g groups" using cond by (simp add: is_condensation_def)
  have inner: "(u, v) \<in> (set (snd g))\<^sup>*" if "u \<in> set (groups ! k)" "v \<in> set (groups ! k)" "k < length groups" for u v k
    using scc_same_group [OF part that(3,3,1,2)] by (simp add: mutually_reachable_def)
  have edge: "a < length groups \<and> b < length groups \<and>
      (\<forall>u \<in> set (groups ! a). \<forall>v \<in> set (groups ! b). (u, v) \<in> (set (snd g))\<^sup>*)" if ab: "(a, b) \<in> set edges" for a b
  proof -
    from ab cond obtain x y where xy: "a < length groups" "b < length groups" "x \<in> set (groups ! a)"
        "y \<in> set (groups ! b)" "(x, y) \<in> set (snd g)"
      unfolding is_condensation_def by auto
    then show ?thesis using inner by (meson converse_rtrancl_into_rtrancl rtrancl_trans)
  qed
  from path show ?thesis
  proof (induction rule: trancl_induct)
    case (base y)
    then show ?case by (rule edge)
  next
    case (step y z)
    have "groups ! y \<in> set groups" using step.IH by simp
    then have "groups ! y \<noteq> []" using part by (metis is_scc_partition_def)
    then obtain w where "w \<in> set (groups ! y)" by (meson last_in_set)
    then show ?case using step.IH edge [OF step.hyps(2)] by (meson rtrancl_trans)
  qed
qed

lemma condensation_acyclic:
  assumes "is_condensation g (groups, edges)"
  shows "acyclic (set edges)"
proof (rule acyclicI, intro allI notI)
  fix i assume "(i, i) \<in> (set edges)\<^sup>+"
  then obtain j where e: "(i, j) \<in> set edges" and cyc: "j = i \<or> (j, i) \<in> (set edges)\<^sup>+"
    by (meson converse_tranclE)
  have part: "is_scc_partition g groups" using assms by (simp add: is_condensation_def)
  have ij: "i < length groups" "j < length groups" "i \<noteq> j" using e assms by (auto simp: is_condensation_def)
  obtain u v where uv: "u \<in> set (groups ! i)" "v \<in> set (groups ! j)"
    using part ij unfolding is_scc_partition_def by (metis last_in_set nth_mem)
  have "(u, v) \<in> (set (snd g))\<^sup>*" using condensed_path [OF assms, of i j] e uv by blast
  moreover have "(v, u) \<in> (set (snd g))\<^sup>*" using condensed_path [OF assms, of j i] cyc ij uv by blast
  ultimately show False using scc_same_group [OF part ij(1,2) uv] ij(3) by (simp add: mutually_reachable_def)
qed

section \<open>The order the layers give\<close>

lemma initial_layered:
  assumes "\<forall>e \<in> set es. fst e < n \<and> snd e < n"
  shows "layered es n {} (out_degrees n es) (replicate n 0) (filter (\<lambda>i. out_degrees n es ! i = 0) [0..<n]) 0"
  using assms by (auto simp: layered_def out_degrees_def outstanding_def)

lemma condensation_layers:
  assumes cond: "is_condensation g (groups, cedges)"
  shows "\<exists>lm. layer_loop cedges (out_degrees (length groups) cedges) (replicate (length groups) 0)
      (filter (\<lambda>i. out_degrees (length groups) cedges ! i = 0) [0..<length groups]) 0 = Some lm \<and>
    length lm = length groups \<and> (\<forall>i j. (i, j) \<in> set cedges \<longrightarrow> lm ! j < lm ! i)"
proof -
  have range: "\<forall>e \<in> set cedges. fst e < length groups \<and> snd e < length groups"
    using cond by (auto simp: is_condensation_def)
  show ?thesis
    by (rule layer_loop_correct [OF condensation_acyclic [OF cond] range initial_layered [OF range]])
qed

abbreviation placed :: "level list \<Rightarrow> scc_group list" where
  "placed levels \<equiv> concat (map lv_groups levels)"

definition sg_key :: "scc_group \<Rightarrow> string list \<times> nat \<times> bool" where
  "sg_key x = (sg_members x, sg_level x, sg_is_cycle x)"

lemma map_key_renumber: "map sg_key (renumber gs) = map sg_key gs"
  unfolding renumber_def by (rule nth_equalityI) (auto simp: sg_key_def)

lemma mset_order_groups: "mset (map sg_key (order_groups gs)) = mset (map sg_key gs)"
  unfolding order_groups_def by (simp only: map_key_renumber mset_map mset_sort)

lemma mset_by_level:
  "mset (concat (map (\<lambda>l. filter (\<lambda>x. f x = l) xs) [0..<n])) = filter_mset (\<lambda>x. f x < n) (mset xs)"
proof (induction n)
  case (Suc n)
  have "filter_mset (\<lambda>x. f x < Suc n) M = filter_mset (\<lambda>x. f x < n) M + filter_mset (\<lambda>x. f x = n) M" for M
    by (induction M) auto
  then show ?case using Suc by simp
qed simp

lemma le_fold_max: "x \<in> set xs \<Longrightarrow> x \<le> fold max xs (a :: nat)"
proof (induction xs arbitrary: a)
  case (Cons y ys)
  have "b \<le> fold max ys b" for b :: nat
    by (induction ys arbitrary: b) (auto intro: le_trans [OF max.cobounded1] le_trans [OF max.cobounded2])
  then have "y \<le> fold max ys (max y a)" by (meson le_trans max.cobounded1)
  with Cons show ?case by auto
qed simp

lemma level_of_group [simp]: "sg_level (group_of loops groups lm i) = lm ! i"
  by (simp add: group_of_def Let_def)

lemma in_set_mapE:
  assumes "y \<in> set (map f xs)" obtains x where "x \<in> set xs" "y = f x"
  using assms by auto

text \<open>
  What the groups of the result are: those of the condensation, sorted members, with their level and
  cycle flag, each in the level it carries.
\<close>

lemma topological_order_groups:
  assumes cond: "is_condensation (build_graph vs es) (condensation (build_graph vs es))"
    and ne: "fst (build_graph vs es) \<noteq> []"
  shows "\<exists>groups cedges lm levels. condensation (build_graph vs es) = (groups, cedges) \<and> length lm = length groups \<and>
     (\<forall>i j. (i, j) \<in> set cedges \<longrightarrow> lm ! j < lm ! i) \<and>
     compute_topological_order condensation vs es = Some levels \<and>
     mset (map sg_key (placed levels)) =
       mset (map (\<lambda>i. sg_key (group_of (filter (\<lambda>n. contains_edge (build_graph vs es) n n) (fst (build_graph vs es))) groups lm i))
         [0..<length groups]) \<and>
     (\<forall>k < length levels. lv_level (levels ! k) = k \<and> (\<forall>x \<in> set (lv_groups (levels ! k)). sg_level x = k))"
proof -
  let ?g = "build_graph vs es"
  let ?loops = "filter (\<lambda>n. contains_edge ?g n n) (fst ?g)"
  obtain groups cedges where c: "condensation ?g = (groups, cedges)" by fastforce
  then have cond: "is_condensation ?g (groups, cedges)" using cond by simp
  from condensation_layers [OF this] obtain lm where lm: "length lm = length groups"
      "\<forall>i j. (i, j) \<in> set cedges \<longrightarrow> lm ! j < lm ! i"
      "layer_loop cedges (out_degrees (length groups) cedges) (replicate (length groups) 0)
        (filter (\<lambda>i. out_degrees (length groups) cedges ! i = 0) [0..<length groups]) 0 = Some lm"
    by blast
  let ?gs = "map (group_of ?loops groups lm) [0..<length groups]"
  let ?m = "fold max lm 0 + 1"
  let ?levels = "map (\<lambda>l. \<lparr>lv_level = l, lv_groups = filter (\<lambda>x. sg_level x = l) (order_groups ?gs)\<rparr>) [0..<?m]"
  have run: "compute_topological_order condensation vs es = Some ?levels"
    using ne c lm(3) by (simp add: compute_topological_order_def Let_def)
  have lt: "x \<in> set (order_groups ?gs) \<Longrightarrow> sg_level x < ?m" for x
  proof -
    assume "x \<in> set (order_groups ?gs)"
    then have "sg_key x \<in> set (map sg_key ?gs)"
      using mset_order_groups [of ?gs, THEN mset_eq_setD] by auto
    then obtain i where i: "i < length groups" "sg_level x = lm ! i"
      by (elim in_set_mapE) (auto simp: sg_key_def level_of_group)
    then have "lm ! i \<in> set lm" using lm(1) by simp
    from le_fold_max [OF this, of 0] i(2) show "sg_level x < ?m" by simp
  qed
  have "mset (placed ?levels) = filter_mset (\<lambda>x. sg_level x < ?m) (mset (order_groups ?gs))"
    using mset_by_level [of sg_level "order_groups ?gs" ?m] by (simp add: comp_def del: upt_Suc)
  also have "\<dots> = mset (order_groups ?gs)" using lt by (auto simp: filter_mset_eq_conv)
  finally have same: "mset (placed ?levels) = mset (order_groups ?gs)" .
  have "mset (map sg_key (placed ?levels)) = mset (map sg_key ?gs)"
    using mset_order_groups [of ?gs] by (simp only: mset_map same)
  then have keys: "mset (map sg_key (placed ?levels)) = mset (map (\<lambda>i. sg_key (group_of ?loops groups lm i)) [0..<length groups])"
    by (simp only: map_map comp_def)
  have at: "\<forall>k < length ?levels. lv_level (?levels ! k) = k \<and> (\<forall>x \<in> set (lv_groups (?levels ! k)). sg_level x = k)"
    by (simp del: upt_Suc)
  show ?thesis
    by (rule exI [of _ groups], rule exI [of _ cedges], rule exI [of _ lm], rule exI [of _ ?levels])
      (intro conjI c lm(1,2) run keys at)
qed

lemma set_fold_add_node: "set (fold add_node vs acc) = set vs \<union> set acc"
  by (induction vs arbitrary: acc) (auto simp: add_node_def)

lemma build_graph_simps [simp]:
  "set (fst (build_graph vs es)) = set vs"
  "set (snd (build_graph vs es)) = {e \<in> set es. fst e \<in> set vs \<and> snd e \<in> set vs}"
  by (auto simp: build_graph_def Let_def set_fold_add_node)

lemma build_graph_empty [simp]: "fst (build_graph vs es) = [] \<longleftrightarrow> vs = []"
  using build_graph_simps(1) [of vs es] by (metis set_empty)

lemma mset_concat_cong: "mset (map mset xss) = mset (map mset yss) \<Longrightarrow> mset (concat xss) = mset (concat yss)"
  by (metis mset_concat sum_mset_sum_list)

lemma cycle_flag_group_of:
  assumes part: "is_scc_partition g groups" and i: "i < length groups"
    and uv: "u \<in> set (groups ! i)" "v \<in> set (groups ! i)" "(u, v) \<in> set (snd g)"
  shows "sg_is_cycle (group_of (filter (\<lambda>n. contains_edge g n n) (fst g)) groups lm i)"
proof (cases "2 \<le> length (groups ! i)")
  case False
  then obtain w where w: "groups ! i = [w]" using uv(1)
    by (cases "groups ! i") (auto simp: numeral_2_eq_2 not_less_eq_eq le_Suc_eq)
  have "w \<in> set (fst g)" using part i w nth_mem [OF i] by (fastforce simp: is_scc_partition_def)
  then show ?thesis using uv w by (simp add: group_of_def contains_edge_def)
qed (simp add: group_of_def Let_def)

text \<open>
  The shape both properties of the order rest on: the groups partition the functions, and a call
  inside a group marks it as a cycle, a call out of it goes to a lower level.
\<close>

lemma topological_order_shape:
  assumes cond: "is_condensation (build_graph vs es) (condensation (build_graph vs es))"
  shows "\<exists>levels. compute_topological_order condensation vs es = Some levels \<and>
     distinct (concat (map sg_members (placed levels))) \<and> set (concat (map sg_members (placed levels))) = set vs \<and>
     (\<forall>x \<in> set (placed levels). \<forall>y \<in> set (placed levels). \<forall>u \<in> set (sg_members x). \<forall>v \<in> set (sg_members y).
        (u, v) \<in> set es \<longrightarrow>
          (if mutually_reachable (snd (build_graph vs es)) u v then sg_members x = sg_members y \<and> sg_is_cycle x
           else sg_level y < sg_level x)) \<and>
     (\<forall>k < length levels. lv_level (levels ! k) = k \<and> (\<forall>x \<in> set (lv_groups (levels ! k)). sg_level x = k))"
proof (cases "vs = []")
  case True
  then show ?thesis by (simp add: compute_topological_order_def)
next
  case False
  let ?g = "build_graph vs es"
  let ?loops = "filter (\<lambda>n. contains_edge ?g n n) (fst ?g)"
  from topological_order_groups [of vs es condensation, OF cond] False obtain groups cedges lm levels where
    c: "condensation ?g = (groups, cedges)" and lm: "length lm = length groups"
      "\<And>i j. (i, j) \<in> set cedges \<Longrightarrow> lm ! j < lm ! i" and
    run: "compute_topological_order condensation vs es = Some levels" and
    keys: "mset (map sg_key (placed levels)) = mset (map (\<lambda>i. sg_key (group_of ?loops groups lm i)) [0..<length groups])" and
    at: "\<forall>k < length levels. lv_level (levels ! k) = k \<and> (\<forall>x \<in> set (lv_groups (levels ! k)). sg_level x = k)"
    by auto
  from cond c have part: "is_scc_partition ?g groups"
    and ce: "set cedges = {(i, j). i < length groups \<and> j < length groups \<and> i \<noteq> j \<and>
           (\<exists>u \<in> set (groups ! i). \<exists>v \<in> set (groups ! j). (u, v) \<in> set (snd ?g))}"
    by (auto simp: is_condensation_def)
  have "mset (map (mset \<circ> fst) (map sg_key (placed levels))) =
      mset (map (mset \<circ> fst) (map (\<lambda>i. sg_key (group_of ?loops groups lm i)) [0..<length groups]))"
    using keys by (simp only: mset_map)
  also have "map (mset \<circ> fst) (map (\<lambda>i. sg_key (group_of ?loops groups lm i)) [0..<length groups]) = map mset groups"
    by (rule nth_equalityI) (auto simp: sg_key_def group_of_def Let_def)
  also have "map (mset \<circ> fst) (map sg_key (placed levels)) = map mset (map sg_members (placed levels))"
    by (simp add: sg_key_def)
  finally have M: "mset (concat (map sg_members (placed levels))) = mset (concat groups)" by (rule mset_concat_cong)
  have D: "distinct (concat (map sg_members (placed levels)))"
    using mset_eq_imp_distinct_iff [OF M] part by (simp add: is_scc_partition_def)
  have V: "set (concat (map sg_members (placed levels))) = set vs"
    using mset_eq_setD [OF M] part by (simp add: is_scc_partition_def)
  have from_group: "\<exists>i < length groups. sg_key x = sg_key (group_of ?loops groups lm i)" if "x \<in> set (placed levels)" for x
  proof -
    have "sg_key x \<in> set (map sg_key (placed levels))" using that by (simp only: set_map imageI)
    then have "sg_key x \<in> set (map (\<lambda>i. sg_key (group_of ?loops groups lm i)) [0..<length groups])"
      by (simp only: mset_eq_setD [OF keys])
    then show ?thesis by (elim in_set_mapE) auto
  qed
  have calls: "if mutually_reachable (snd ?g) u v then sg_members x = sg_members y \<and> sg_is_cycle x else sg_level y < sg_level x"
    if xy: "x \<in> set (placed levels)" "y \<in> set (placed levels)" and uv: "u \<in> set (sg_members x)" "v \<in> set (sg_members y)"
      and e: "(u, v) \<in> set es" for x y u v
  proof -
    obtain i j where i: "i < length groups" "sg_key x = sg_key (group_of ?loops groups lm i)"
      and j: "j < length groups" "sg_key y = sg_key (group_of ?loops groups lm j)"
      using from_group xy by blast
    have m: "u \<in> set (groups ! i)" "v \<in> set (groups ! j)"
      using i(2) j(2) uv by (auto simp: sg_key_def group_of_def Let_def)
    have e': "(u, v) \<in> set (snd ?g)" using e uv xy V by auto
    show ?thesis
    proof (cases "i = j")
      case True
      then have "sg_is_cycle x" using cycle_flag_group_of [OF part i(1) m(1) _ e'] m(2) i(2) by (simp add: sg_key_def)
      moreover have "mutually_reachable (snd ?g) u v" using scc_same_group [OF part i(1) j(1) m] True by simp
      ultimately show ?thesis using True i(2) j(2) by (simp add: sg_key_def)
    next
      case False
      then have "(i, j) \<in> set cedges" using ce i(1) j(1) m e' by blast
      then have "sg_level y < sg_level x" using lm(2) i(2) j(2) by (simp add: sg_key_def)
      then show ?thesis using scc_same_group [OF part i(1) j(1) m] False by simp
    qed
  qed
  show ?thesis by (rule exI [of _ levels]) (use run D V calls at in blast)
qed

text \<open>C6: a topological order puts every function of the call graph in exactly one group, never fails when
  petgraph's condensation is one, and for every call the callee is either in the caller's own group,
  which is then marked as a cycle and whose members all reach one another, or in a group of a strictly
  lower level.\<close>

theorem callees_on_lower_levels:
  assumes "is_condensation (build_graph vs es) (condensation (build_graph vs es))"
  shows "\<exists>levels. compute_topological_order condensation vs es = Some levels \<and>
     distinct (concat (map sg_members (placed levels))) \<and> set (concat (map sg_members (placed levels))) = set vs \<and>
     (\<forall>x \<in> set (placed levels). \<forall>y \<in> set (placed levels). \<forall>u \<in> set (sg_members x). \<forall>v \<in> set (sg_members y).
        (u, v) \<in> set es \<longrightarrow>
          (if mutually_reachable (snd (build_graph vs es)) u v then sg_members x = sg_members y \<and> sg_is_cycle x
           else sg_level y < sg_level x))"
  using topological_order_shape [of vs es condensation, OF assms] by blast

definition demo_vertices :: "string list" where
  "demo_vertices = [''main'', ''even'', ''odd'', ''leaf'']"

definition demo_edges :: "(string \<times> string) list" where
  "demo_edges = [(''main'', ''even''), (''even'', ''odd''), (''odd'', ''even''), (''odd'', ''leaf''), (''main'', ''printf'')]"

definition demo_condensation :: "call_graph \<Rightarrow> string list list \<times> (nat \<times> nat) list" where
  "demo_condensation g = ([[''leaf''], [''odd'', ''even''], [''main'']], [(2, 1), (1, 0)])"

lemma demo_graph:
  "build_graph demo_vertices demo_edges =
     ([''main'', ''even'', ''odd'', ''leaf''],
      [(''main'', ''even''), (''even'', ''odd''), (''odd'', ''even''), (''odd'', ''leaf'')])"
  by code_simp

definition demo_reach :: "string \<Rightarrow> string set" where
  "demo_reach u = (if u = ''main'' then {''main'', ''even'', ''odd'', ''leaf''}
     else if u \<in> {''even'', ''odd''} then {''even'', ''odd'', ''leaf''} else {u})"

lemma rtrancl_bounded: "(u, v) \<in> r\<^sup>* \<Longrightarrow> u \<in> S \<Longrightarrow> (\<And>x y. (x, y) \<in> r \<Longrightarrow> x \<in> S \<Longrightarrow> y \<in> S) \<Longrightarrow> v \<in> S"
  by (induction rule: rtrancl_induct) auto

lemma demo_reachable:
  assumes "(u, v) \<in> (set (snd (build_graph demo_vertices demo_edges)))\<^sup>*"
  shows "v \<in> demo_reach u"
  using assms
  by (rule rtrancl_bounded) (auto simp: demo_graph demo_reach_def split: if_splits)

lemma pairs_below: "{(i, j). i < n \<and> j < n \<and> P (i, j)} = set (filter P (List.product [0..<n] [0..<n]))"
  by auto

lemma demo_condensed:
  "is_condensation (build_graph demo_vertices demo_edges) (demo_condensation (build_graph demo_vertices demo_edges))"
proof -
  let ?E = "set (snd (build_graph demo_vertices demo_edges))"
  have cyc: "(''even'', ''odd'') \<in> ?E\<^sup>*" "(''odd'', ''even'') \<in> ?E\<^sup>*"
    by (auto intro!: r_into_rtrancl simp: demo_graph)
  have mr: "mutually_reachable (snd (build_graph demo_vertices demo_edges)) u v \<longleftrightarrow>
      u = v \<or> u \<in> {''even'', ''odd''} \<and> v \<in> {''even'', ''odd''}" for u v
  proof
    assume "mutually_reachable (snd (build_graph demo_vertices demo_edges)) u v"
    then have "v \<in> demo_reach u" "u \<in> demo_reach v"
      using demo_reachable unfolding mutually_reachable_def by blast+
    then show "u = v \<or> u \<in> {''even'', ''odd''} \<and> v \<in> {''even'', ''odd''}"
      by (auto simp: demo_reach_def split: if_splits)
  next
    assume "u = v \<or> u \<in> {''even'', ''odd''} \<and> v \<in> {''even'', ''odd''}"
    then show "mutually_reachable (snd (build_graph demo_vertices demo_edges)) u v"
      using cyc unfolding mutually_reachable_def by blast
  qed
  have part: "is_scc_partition (build_graph demo_vertices demo_edges) [[''leaf''], [''odd'', ''even''], [''main'']]"
    unfolding is_scc_partition_def mr by (auto simp: demo_graph)
  let ?groups = "[[''leaf''], [''odd'', ''even''], [''main'']]"
  let ?call = "\<lambda>(i, j). i \<noteq> j \<and> (\<exists>u \<in> set (?groups ! i). \<exists>v \<in> set (?groups ! j). (u, v) \<in> ?E)"
  have "filter ?call (List.product [0..<3] [0..<3]) = [(1, 0), (2, 1)]"
    unfolding demo_graph by code_simp
  then have "{(i, j). i < 3 \<and> j < 3 \<and> ?call (i, j)} = {(1, 0), (2, 1)}"
    by (simp only: pairs_below list.set)
  then have "set [(2, 1), (1, 0)] = {(i, j). i < length ?groups \<and> j < length ?groups \<and> ?call (i, j)}"
    by (simp add: numeral_3_eq_3 insert_commute)
  with part show ?thesis by (simp only: is_condensation_def demo_condensation_def prod.case) simp
qed

definition demo_levels :: "level list" where
  "demo_levels =
     [\<lparr>lv_level = 0, lv_groups = [\<lparr>sg_id = 0, sg_members = [''leaf''], sg_level = 0, sg_is_cycle = False\<rparr>]\<rparr>,
      \<lparr>lv_level = 1, lv_groups = [\<lparr>sg_id = 1, sg_members = [''even'', ''odd''], sg_level = 1, sg_is_cycle = True\<rparr>]\<rparr>,
      \<lparr>lv_level = 2, lv_groups = [\<lparr>sg_id = 2, sg_members = [''main''], sg_level = 2, sg_is_cycle = False\<rparr>]\<rparr>]"

lemma demo_order: "compute_topological_order demo_condensation demo_vertices demo_edges = Some demo_levels"
  by code_simp

theorem callees_on_lower_levels_witness:
  "compute_topological_order demo_condensation demo_vertices demo_edges = Some demo_levels \<and>
   distinct (concat (map sg_members (placed demo_levels))) \<and>
   set (concat (map sg_members (placed demo_levels))) = {''main'', ''even'', ''odd'', ''leaf''}"
proof -
  from callees_on_lower_levels [of demo_vertices demo_edges demo_condensation, OF demo_condensed] obtain levels where
    "compute_topological_order demo_condensation demo_vertices demo_edges = Some levels"
    "distinct (concat (map sg_members (placed levels)))" "set (concat (map sg_members (placed levels))) = set demo_vertices"
    by blast
  moreover from this(1) have "levels = demo_levels" using demo_order by simp
  moreover have "set demo_vertices = {''main'', ''even'', ''odd'', ''leaf''}" by (simp add: demo_vertices_def)
  ultimately show ?thesis by (simp only:)
qed

lemma flatten_split:
  assumes "k \<le> length levels"
  shows "fst (flatten_levels_to_vo_scc levels defined) =
    fst (flatten_levels_to_vo_scc (take k levels) defined) @ fst (flatten_levels_to_vo_scc (drop k levels) defined)"
proof -
  have "fst (flatten_levels_to_vo_scc (as @ bs) defined) =
      fst (flatten_levels_to_vo_scc as defined) @ fst (flatten_levels_to_vo_scc bs defined)" for as bs
    by (simp add: flatten_levels_to_vo_scc_def Let_def)
  then show ?thesis by (metis append_take_drop_id)
qed

lemma set_map_filter_eq: "set (List.map_filter f xs) = {y. \<exists>x \<in> set xs. f x = Some y}"
  by (induction xs) (auto simp: map_filter_simps split: option.splits)

lemma flatten_group_eq:
  "flatten_group defined l x = Some y \<longleftrightarrow>
     (\<exists>m \<in> set (sg_members x). m \<in> defined) \<and>
     y = \<lparr>sg_id = sg_id x, sg_members = filter (\<lambda>m. m \<in> defined) (sg_members x), sg_level = l, sg_is_cycle = sg_is_cycle x\<rparr>"
  by (auto simp: flatten_group_def Let_def filter_empty_conv)

lemma in_flattened:
  "u \<in> set (fst (flatten_levels_to_vo_scc levels defined)) \<longleftrightarrow>
     (\<exists>l \<in> set levels. \<exists>x \<in> set (lv_groups l). u \<in> set (sg_members x) \<and> u \<in> defined)"
  by (auto simp: flatten_levels_to_vo_scc_def Let_def set_map_filter_eq flatten_group_eq) force+

lemma in_concat_map: "u \<in> set (concat (map f xs)) \<Longrightarrow> \<exists>x \<in> set xs. u \<in> set (f x)"
  by auto

text \<open>In the flattened verification order a function comes after every function it calls that has a
  body, unless the two are mutually recursive: when the order reaches a function, its callees' contracts
  have been worked on.\<close>

theorem callees_come_first:
  assumes "is_condensation (build_graph vs es) (condensation (build_graph vs es))"
    and "(u, v) \<in> set es" and "{u, v} \<subseteq> set vs \<inter> defined"
    and "\<not> mutually_reachable (snd (build_graph vs es)) u v"
  shows "\<exists>levels before after. compute_topological_order condensation vs es = Some levels \<and>
     fst (flatten_levels_to_vo_scc levels defined) = before @ u # after \<and> v \<in> set before"
proof -
  from topological_order_shape [of vs es condensation, OF assms(1)] obtain levels where
    run: "compute_topological_order condensation vs es = Some levels" and
    all: "set (concat (map sg_members (placed levels))) = set vs" and
    ordered: "\<forall>x \<in> set (placed levels). \<forall>y \<in> set (placed levels). \<forall>u \<in> set (sg_members x). \<forall>v \<in> set (sg_members y).
        (u, v) \<in> set es \<longrightarrow>
          (if mutually_reachable (snd (build_graph vs es)) u v then sg_members x = sg_members y \<and> sg_is_cycle x
           else sg_level y < sg_level x)" and
    at: "\<forall>k < length levels. lv_level (levels ! k) = k \<and> (\<forall>x \<in> set (lv_groups (levels ! k)). sg_level x = k)"
    by blast
  have "u \<in> set (concat (map sg_members (placed levels)))" "v \<in> set (concat (map sg_members (placed levels)))"
    unfolding all using assms(3) by blast+
  then obtain x y where x: "x \<in> set (placed levels)" "u \<in> set (sg_members x)"
    and y: "y \<in> set (placed levels)" "v \<in> set (sg_members y)"
    by (meson in_concat_map)
  have lt: "sg_level y < sg_level x" using ordered x y assms(2,4) by meson
  have where_is: "sg_level z < length levels \<and> z \<in> set (lv_groups (levels ! sg_level z))" if "z \<in> set (placed levels)" for z
    using that at by (auto simp: in_set_conv_nth [of _ levels])
  let ?k = "sg_level x"
  have k: "?k < length levels" "?k \<le> length levels" using where_is [OF x(1)] by auto
  have "levels ! sg_level y \<in> set (take ?k levels)"
    using lt k nth_mem [of "sg_level y" "take ?k levels"] by simp
  then have "v \<in> set (fst (flatten_levels_to_vo_scc (take ?k levels) defined))"
    using where_is [OF y(1)] y(2) assms(3) by (auto simp: in_flattened)
  moreover have "levels ! ?k \<in> set (drop ?k levels)" using k by (simp add: Cons_nth_drop_Suc [symmetric])
  then have "u \<in> set (fst (flatten_levels_to_vo_scc (drop ?k levels) defined))"
    using where_is [OF x(1)] x(2) assms(3) by (auto simp: in_flattened)
  then obtain bs cs where "fst (flatten_levels_to_vo_scc (drop ?k levels) defined) = bs @ u # cs"
    by (meson split_list)
  ultimately show ?thesis
    using run flatten_split [OF k(2), of defined] by (intro exI [of _ levels] exI [of _ "fst (flatten_levels_to_vo_scc (take ?k levels) defined) @ bs"] exI [of _ cs]) simp
qed

theorem callees_come_first_witness:
  "compute_topological_order demo_condensation demo_vertices demo_edges = Some demo_levels \<and>
   fst (flatten_levels_to_vo_scc demo_levels {''main'', ''even'', ''odd'', ''leaf''}) = [''leaf'', ''even'', ''odd'', ''main''] \<and>
   (\<exists>before after. fst (flatten_levels_to_vo_scc demo_levels {''main'', ''even'', ''odd'', ''leaf''}) =
      before @ ''odd'' # after \<and> ''leaf'' \<in> set before)"
proof -
  have "(''leaf'', ''odd'') \<notin> (set (snd (build_graph demo_vertices demo_edges)))\<^sup>*"
    using demo_reachable [of "''leaf''" "''odd''"] by (auto simp: demo_reach_def)
  then have "\<not> mutually_reachable (snd (build_graph demo_vertices demo_edges)) ''odd'' ''leaf''"
    by (simp add: mutually_reachable_def)
  note apart = this
  have call: "(''odd'', ''leaf'') \<in> set demo_edges"
    and known: "{''odd'', ''leaf''} \<subseteq> set demo_vertices \<inter> {''main'', ''even'', ''odd'', ''leaf''}"
    by (auto simp: demo_edges_def demo_vertices_def)
  from callees_come_first [of demo_vertices demo_edges demo_condensation, OF demo_condensed call known apart]
  have "\<exists>before after. fst (flatten_levels_to_vo_scc demo_levels {''main'', ''even'', ''odd'', ''leaf''}) =
      before @ ''odd'' # after \<and> ''leaf'' \<in> set before"
    by (simp only: demo_order option.inject) blast
  moreover have "fst (flatten_levels_to_vo_scc demo_levels {''main'', ''even'', ''odd'', ''leaf''}) = [''leaf'', ''even'', ''odd'', ''main'']"
    by code_simp
  ultimately show ?thesis using demo_order by blast
qed

section \<open>The ready functions\<close>

lemma takeWhile_stops: "x \<in> set xs \<Longrightarrow> \<not> P x \<Longrightarrow> length (takeWhile P xs) < length xs"
  by (induction xs) auto

lemma scc_index_correct:
  assumes "v \<in> set (concat sccs)"
  shows "scc_index sccs v < length sccs" "v \<in> set (sccs ! scc_index sccs v)"
proof -
  obtain c where "c \<in> set sccs" "v \<in> set c" using assms by auto
  then show *: "scc_index sccs v < length sccs"
    unfolding scc_index_def using takeWhile_stops [of c sccs "\<lambda>c. v \<notin> set c"] by simp
  then show "v \<in> set (sccs ! scc_index sccs v)"
    unfolding scc_index_def using nth_length_takeWhile by fastforce
qed

lemma scc_cycle_of_edge:
  assumes part: "is_scc_partition g sccs" and nodes: "v \<in> set (fst g)" "c \<in> set (fst g)" and e: "(v, c) \<in> set (snd g)"
  shows "scc_index sccs c = scc_index sccs v \<and> scc_is_cycle g (sccs ! scc_index sccs v) \<longleftrightarrow>
    mutually_reachable (snd g) v c"
proof -
  have vc: "v \<in> set (concat sccs)" "c \<in> set (concat sccs)" using part nodes by (auto simp: is_scc_partition_def)
  note v = scc_index_correct [OF vc(1)] and c = scc_index_correct [OF vc(2)]
  have same: "scc_index sccs v = scc_index sccs c \<longleftrightarrow> mutually_reachable (snd g) v c"
    by (rule scc_same_group [OF part v(1) c(1) v(2) c(2)])
  have "scc_is_cycle g (sccs ! scc_index sccs v)" if "scc_index sccs c = scc_index sccs v"
  proof (cases "2 \<le> length (sccs ! scc_index sccs v)")
    case False
    then obtain w where "sccs ! scc_index sccs v = [w]" using v(2)
      by (cases "sccs ! scc_index sccs v") (auto simp: numeral_2_eq_2 not_less_eq_eq le_Suc_eq)
    with v(2) c(2) that e show ?thesis by (simp add: scc_is_cycle_def contains_edge_def)
  qed (simp add: scc_is_cycle_def)
  with same show ?thesis by auto
qed

lemma externally_ok_iff:
  assumes part: "is_scc_partition (build_graph vs es) sccs" and v: "v \<in> set vs"
  shows "externally_ok (build_graph vs es) sccs dn v \<longleftrightarrow>
    (\<forall>c \<in> set vs. (v, c) \<in> set es \<longrightarrow> c \<in> set dn \<or> mutually_reachable (snd (build_graph vs es)) v c)"
proof -
  let ?g = "build_graph vs es"
  have out: "c \<in> set (outgoing ?g v) \<longleftrightarrow> (v, c) \<in> set es \<and> c \<in> set vs" for c
    using v by (force simp: outgoing_def)
  have "(scc_index sccs c = scc_index sccs v \<and> scc_is_cycle ?g (sccs ! scc_index sccs v)) \<longleftrightarrow>
      mutually_reachable (snd ?g) v c" if "(v, c) \<in> set es" "c \<in> set vs" for c
    by (rule scc_cycle_of_edge [OF part]) (use that v in auto)
  then show ?thesis unfolding externally_ok_def using out by blast
qed

lemma ready_names:
  "set (map rf_function (compute_ready_functions tarjan_scc vs es dn ip)) =
     {v \<in> set vs. v \<notin> set dn \<and> v \<notin> set ip \<and>
        externally_ok (build_graph vs es) (tarjan_scc (build_graph vs es)) dn v}"
  by (simp add: compute_ready_functions_def Let_def image_image ready_entry_def)

text \<open>C8: the functions offered as ready are exactly the ones the documentation of the function names: known,
  neither done nor in progress, and with every known callee done or mutually recursive with the
  function itself; they come sorted by name.\<close>

theorem ready_iff_callees_done:
  assumes "is_scc_partition (build_graph vs es) (tarjan_scc (build_graph vs es))"
  shows "set (map rf_function (compute_ready_functions tarjan_scc vs es done_names in_progress)) =
      {v \<in> set vs. v \<notin> set done_names \<and> v \<notin> set in_progress \<and>
         (\<forall>c \<in> set vs. (v, c) \<in> set es \<longrightarrow>
            c \<in> set done_names \<or> mutually_reachable (snd (build_graph vs es)) v c)} \<and>
    sorted (map rf_function (compute_ready_functions tarjan_scc vs es done_names in_progress))"
proof -
  let ?g = "build_graph vs es" and ?ready = "compute_ready_functions tarjan_scc vs es done_names in_progress"
  let ?ok = "\<lambda>v. v \<notin> set done_names \<and> v \<notin> set in_progress \<and> externally_ok ?g (tarjan_scc ?g) done_names v"
  have "set (map rf_function ?ready) = {v \<in> set vs. ?ok v}" by (rule ready_names)
  also have "\<dots> = {v \<in> set vs. v \<notin> set done_names \<and> v \<notin> set in_progress \<and>
      (\<forall>c \<in> set vs. (v, c) \<in> set es \<longrightarrow> c \<in> set done_names \<or> mutually_reachable (snd ?g) v c)}"
    by (rule Collect_cong) (simp only: externally_ok_iff [OF assms] cong: conj_cong)
  finally show ?thesis by (simp only: compute_ready_functions_def Let_def sorted_sort_key)
qed

lemma ready_progress:
  assumes v: "v \<in> set vs" "v \<notin> set dn" and closed: "set ip \<subseteq> set dn"
  shows "\<exists>w \<in> set vs. w \<notin> set dn \<and> w \<notin> set ip \<and>
    (\<forall>c \<in> set vs. (w, c) \<in> set es \<longrightarrow> c \<in> set dn \<or> mutually_reachable (snd (build_graph vs es)) w c)"
proof -
  let ?E = "set (snd (build_graph vs es))"
  define reach where "reach w = {u. (w, u) \<in> ?E\<^sup>*}" for w
  have finite: "finite (reach w)" if "w \<in> set vs" for w
  proof (rule finite_subset)
    show "reach w \<subseteq> set vs"
      unfolding reach_def by (auto elim!: rtrancl_bounded simp: that)
  qed simp
  obtain w where w: "w \<in> set vs" "w \<notin> set dn"
    and least: "\<And>u. u \<in> set vs \<Longrightarrow> u \<notin> set dn \<Longrightarrow> card (reach w) \<le> card (reach u)"
    using ex_has_least_nat [of "\<lambda>u. u \<in> set vs \<and> u \<notin> set dn" v "card \<circ> reach"] v by auto
  have "mutually_reachable (snd (build_graph vs es)) w c" if c: "c \<in> set vs" "(w, c) \<in> set es" "c \<notin> set dn" for c
  proof -
    have e: "(w, c) \<in> ?E" using c w by simp
    then have "reach c \<subseteq> reach w" by (auto simp: reach_def intro: converse_rtrancl_into_rtrancl)
    then have "reach c = reach w" using least [OF c(1,3)] finite [OF w(1)] card_seteq by blast
    then have "(c, w) \<in> ?E\<^sup>*" by (auto simp: reach_def)
    with e show ?thesis by (auto simp: mutually_reachable_def)
  qed
  with w closed show ?thesis by blast
qed

text \<open>C7: verification never stalls: while some known function is not done and nothing is in progress, some
  function is ready. No order of verifying ready functions can run into a deadlock.\<close>

theorem some_function_is_ready:
  assumes "is_scc_partition (build_graph vs es) (tarjan_scc (build_graph vs es))"
    and "v \<in> set vs" "v \<notin> set done_names"
  shows "compute_ready_functions tarjan_scc vs es done_names [] \<noteq> []"
proof -
  have none: "set [] \<subseteq> set done_names" by simp
  obtain w where w: "w \<in> set vs" "w \<notin> set done_names"
      "\<forall>c \<in> set vs. (w, c) \<in> set es \<longrightarrow> c \<in> set done_names \<or> mutually_reachable (snd (build_graph vs es)) w c"
    using ready_progress [OF assms(2,3) none, of es] by blast
  then have "externally_ok (build_graph vs es) (tarjan_scc (build_graph vs es)) done_names w"
    using externally_ok_iff [OF assms(1) w(1)] by blast
  with w have "w \<in> set (map rf_function (compute_ready_functions tarjan_scc vs es done_names []))"
    unfolding ready_names by simp
  then show ?thesis by auto
qed

definition demo_sccs :: "call_graph \<Rightarrow> string list list" where
  "demo_sccs g = fst (demo_condensation g)"

lemma demo_partition:
  "is_scc_partition (build_graph demo_vertices demo_edges) (demo_sccs (build_graph demo_vertices demo_edges))"
  using demo_condensed by (simp add: is_condensation_def demo_sccs_def demo_condensation_def)

theorem ready_iff_callees_done_witness:
  "set (map rf_function (compute_ready_functions demo_sccs demo_vertices demo_edges [''leaf''] [])) =
      {v \<in> set demo_vertices. v \<notin> {''leaf''} \<and> v \<notin> {} \<and>
         {c. c \<in> set demo_vertices \<and> (v, c) \<in> set demo_edges \<and> c \<notin> {''leaf''} \<and>
            \<not> mutually_reachable (snd (build_graph demo_vertices demo_edges)) v c} = {}} \<and>
   map rf_function (compute_ready_functions demo_sccs demo_vertices demo_edges [''leaf''] []) = [''even'', ''odd'']"
proof
  show "map rf_function (compute_ready_functions demo_sccs demo_vertices demo_edges [''leaf''] []) = [''even'', ''odd'']"
    by code_simp
qed (use ready_iff_callees_done [of demo_vertices demo_edges demo_sccs "[''leaf'']" "[]", OF demo_partition, THEN conjunct1]
    in auto)

theorem some_function_is_ready_witness:
  "compute_ready_functions demo_sccs demo_vertices demo_edges [''leaf'', ''odd'', ''even''] [] \<noteq> [] \<and>
   map rf_function (compute_ready_functions demo_sccs demo_vertices demo_edges [''leaf'', ''odd'', ''even''] []) = [''main'']"
proof
  have "''main'' \<in> set demo_vertices" "''main'' \<notin> set [''leaf'', ''odd'', ''even'']"
    by (simp_all add: demo_vertices_def)
  then show "compute_ready_functions demo_sccs demo_vertices demo_edges [''leaf'', ''odd'', ''even''] [] \<noteq> []"
    by (rule some_function_is_ready [of demo_vertices demo_edges demo_sccs, OF demo_partition])
  show "map rf_function (compute_ready_functions demo_sccs demo_vertices demo_edges [''leaf'', ''odd'', ''even''] []) = [''main'']"
    by code_simp
qed

end
