(* ===== verification/Ordered.thy ===== *)
theory Ordered
  imports Prelude "HOL-Library.Product_Lexorder"
begin

text \<open>
  Rust's ordered collections. A \<open>BTreeMap\<close> is an association list in strictly ascending key order,
  so iterating over it is reading the list; strings compare by their bytes and pairs
  lexicographically, as \<open>Ord\<close> does. A \<open>BTreeSet\<close> is a set, and the places that iterate over one
  read \<^const>\<open>sorted_list_of_set\<close>.
\<close>

named_theorems bt_simps \<open>ordered maps\<close>

fun bt_insert :: "'k :: linorder \<Rightarrow> 'v \<Rightarrow> ('k, 'v) kv \<Rightarrow> ('k, 'v) kv" where
  "bt_insert k v [] = [(k, v)]"
| "bt_insert k v ((k', v') # m) =
     (if k < k' then (k, v) # (k', v') # m
      else if k = k' then (k, v) # m
      else (k', v') # bt_insert k v m)"

text \<open>\<open>map.entry(k).or_default()\<close> followed by a change of the value it points at.\<close>

definition bt_entry :: "'k :: linorder \<Rightarrow> 'v \<Rightarrow> ('v \<Rightarrow> 'v) \<Rightarrow> ('k, 'v) kv \<Rightarrow> ('k, 'v) kv" where
  "bt_entry k d f m = bt_insert k (f (case map_of m k of None \<Rightarrow> d | Some v \<Rightarrow> v)) m"

definition bt_collect :: "('k :: linorder \<times> 'v) list \<Rightarrow> ('k, 'v) kv" where
  "bt_collect ps = foldl (\<lambda>m (k, v). bt_insert k v m) [] ps"

definition bt_keys :: "('k, 'v) kv \<Rightarrow> 'k list" where
  "bt_keys m = map fst m"

definition ordered :: "('k :: linorder, 'v) kv \<Rightarrow> bool" where
  "ordered m \<longleftrightarrow> sorted_wrt (<) (map fst m)"

lemma map_of_bt_insert [bt_simps, simp]: "map_of (bt_insert k v m) = (map_of m)(k \<mapsto> v)"
  by (induction k v m rule: bt_insert.induct) (auto simp: fun_upd_twist)

lemma keys_bt_insert: "fst ` set (bt_insert k v m) = insert k (fst ` set m)"
  by (induction k v m rule: bt_insert.induct) auto

lemma ordered_bt_insert [bt_simps, simp]: "ordered m \<Longrightarrow> ordered (bt_insert k v m)"
proof (induction k v m rule: bt_insert.induct)
  case (2 k v k' v' m)
  then show ?case
    using keys_bt_insert [of k v m] by (auto simp: ordered_def)
qed (simp add: ordered_def)

lemma map_of_bt_entry [bt_simps, simp]:
  "map_of (bt_entry k d f m) = (map_of m)(k \<mapsto> f (case map_of m k of None \<Rightarrow> d | Some v \<Rightarrow> v))"
  by (simp add: bt_entry_def)

lemma ordered_bt_entry [bt_simps, simp]: "ordered m \<Longrightarrow> ordered (bt_entry k d f m)"
  by (simp add: bt_entry_def)

lemma ordered_Nil [bt_simps, simp]: "ordered []"
  by (simp add: ordered_def)

lemma ordered_distinct: "ordered m \<Longrightarrow> distinct (map fst m)"
  unfolding ordered_def by (metis strict_sorted_iff)

lemma ordered_map_of: "ordered m \<Longrightarrow> (k, v) \<in> set m \<longleftrightarrow> map_of m k = Some v"
  by (simp add: ordered_distinct)

lemma ordered_filter [simp]: "ordered m \<Longrightarrow> ordered (filter P m)"
  by (induction m) (auto simp: ordered_def)

lemma foldl_bt_insert_ordered:
  "ordered m \<Longrightarrow> ordered (foldl (\<lambda>m (k, v). bt_insert k v m) m ps)"
  by (induction ps arbitrary: m) auto

lemma ordered_bt_collect [bt_simps, simp]: "ordered (bt_collect ps)"
  by (simp add: bt_collect_def foldl_bt_insert_ordered)

text \<open>A \<open>BTreeMap\<close> keeps the promise of a keyed store, so what is proved of those holds for it.\<close>

interpretation bt: keyed_store map_of bt_insert ordered
  by unfold_locales simp_all

end
