(* ===== verification/Scan.thy ===== *)
theory Scan
  imports Ordered Json
begin

text \<open>
  The lexical half of the concurrency pass (src/src/mcp/concurrency.rs): the table of lock
  functions, the removal of comments and literals, tokens and calls, and the reading of declarations
  and function headers that gives a file its functions, loops, globals and atomics. Offsets are byte
  offsets, as in the code; \<open>i32\<close> depths are \<^typ>\<open>int\<close> (a line has fewer than 2^31 brackets).
\<close>

named_theorems scan_simps \<open>tokens and brackets\<close>

section \<open>The synchronisation functions\<close>

definition scan_keywords :: "string list" where
  "scan_keywords =
     [''if'', ''for'', ''while'', ''switch'', ''return'', ''sizeof'', ''do'', ''else'', ''case'',
      ''goto'', ''break'', ''continue'', ''typedef'', ''struct'', ''union'', ''enum'', ''static'',
      ''const'', ''volatile'', ''extern'', ''unsigned'', ''signed'', ''register'', ''inline'',
      ''restrict'']"

datatype lock_op = Acquire | Try | Release | Wait
datatype lock_mode = Exclusive | Shared

record lock_api_row =
  la_name :: string
  la_arg :: "nat option"
  la_op :: lock_op
  la_mode :: lock_mode

definition api_row :: "string \<Rightarrow> nat \<Rightarrow> lock_op \<Rightarrow> lock_mode \<Rightarrow> lock_api_row" where
  "api_row nm arg oper mode = \<lparr>la_name = nm, la_arg = Some arg, la_op = oper, la_mode = mode\<rparr>"

definition lock_api_table :: "lock_api_row list" where
  "lock_api_table =
     [api_row ''pthread_mutex_lock'' 0 Acquire Exclusive,
      api_row ''pthread_mutex_trylock'' 0 Try Exclusive,
      api_row ''pthread_mutex_timedlock'' 0 Try Exclusive,
      api_row ''pthread_mutex_unlock'' 0 Release Exclusive,
      api_row ''pthread_spin_lock'' 0 Acquire Exclusive,
      api_row ''pthread_spin_trylock'' 0 Try Exclusive,
      api_row ''pthread_spin_unlock'' 0 Release Exclusive,
      api_row ''pthread_rwlock_rdlock'' 0 Acquire Shared,
      api_row ''pthread_rwlock_wrlock'' 0 Acquire Exclusive,
      api_row ''pthread_rwlock_tryrdlock'' 0 Try Shared,
      api_row ''pthread_rwlock_trywrlock'' 0 Try Exclusive,
      api_row ''pthread_rwlock_timedrdlock'' 0 Try Shared,
      api_row ''pthread_rwlock_timedwrlock'' 0 Try Exclusive,
      api_row ''pthread_rwlock_unlock'' 0 Release Exclusive,
      api_row ''sem_wait'' 0 Acquire Exclusive,
      api_row ''sem_trywait'' 0 Try Exclusive,
      api_row ''sem_timedwait'' 0 Try Exclusive,
      api_row ''sem_post'' 0 Release Exclusive,
      api_row ''pthread_cond_wait'' 1 Wait Exclusive,
      api_row ''pthread_cond_timedwait'' 1 Wait Exclusive,
      \<lparr>la_name = ''__VERIFIER_atomic_begin'', la_arg = None, la_op = Acquire, la_mode = Exclusive\<rparr>,
      \<lparr>la_name = ''__VERIFIER_atomic_end'', la_arg = None, la_op = Release, la_mode = Exclusive\<rparr>]"

definition atomic_section :: string where
  "atomic_section = ''<atomic>''"

definition atomic_function_prefix :: string where
  "atomic_function_prefix = ''__VERIFIER_atomic''"

definition lock_api :: "string \<Rightarrow> lock_api_row option" where
  "lock_api nm = find (\<lambda>row. la_name row = nm) lock_api_table"

fun lock_kind :: "lock_op \<Rightarrow> string" where
  "lock_kind Acquire = ''LOCK''"
| "lock_kind Try = ''TRYLOCK''"
| "lock_kind Release = ''UNLOCK''"
| "lock_kind Wait = ''COND_WAIT''"

definition atomic_access :: "string \<Rightarrow> string option" where
  "atomic_access nm =
     (if \<not> list_ex (starts_with nm) [''__atomic_'', ''__sync_'', ''atomic_''] \<or>
         list_ex (str_contains nm) [''fence'', ''lock_free'', ''synchronize''] then None
      else if nm = ''atomic_init'' then Some ''WRITE''
      else if str_contains nm ''load'' then Some ''ATOMIC_READ''
      else if str_contains nm ''store'' \<or> str_contains nm ''clear'' \<or> nm = ''__sync_lock_release''
        then Some ''ATOMIC_WRITE''
      else Some ''ATOMIC_RMW'')"

definition writes_expected :: "string \<Rightarrow> bool" where
  "writes_expected nm \<longleftrightarrow>
     starts_with nm ''atomic_compare_exchange_'' \<or> nm = ''__atomic_compare_exchange'' \<or>
     nm = ''__atomic_compare_exchange_n''"

definition reads_arguments :: "string \<Rightarrow> bool" where
  "reads_arguments nm \<longleftrightarrow> starts_with nm ''pthread_'' \<or> lock_api nm \<noteq> None \<or> atomic_access nm \<noteq> None"

definition is_modelled :: "string \<Rightarrow> bool" where
  "is_modelled nm \<longleftrightarrow> starts_with nm ''pthread_'' \<or> lock_api nm \<noteq> None"

definition is_access :: "string \<Rightarrow> bool" where
  "is_access kind \<longleftrightarrow>
     kind \<in> {''READ'', ''WRITE'', ''ATOMIC_READ'', ''ATOMIC_WRITE'', ''ATOMIC_RMW''}"

definition is_atomic :: "string \<Rightarrow> bool" where
  "is_atomic kind \<longleftrightarrow> starts_with kind ''ATOMIC_''"

definition writes :: "string \<Rightarrow> bool" where
  "writes kind \<longleftrightarrow> kind \<in> {''WRITE'', ''ATOMIC_WRITE'', ''ATOMIC_RMW''}"

definition conflicting :: "string \<Rightarrow> string \<Rightarrow> bool" where
  "conflicting left right \<longleftrightarrow> (writes left \<or> writes right) \<and> \<not> (is_atomic left \<and> is_atomic right)"

lemma conflicting_commute: "conflicting l r = conflicting r l"
  by (auto simp: conflicting_def)

section \<open>Comments and literals\<close>

text \<open>
  \<open>chars()\<close>: a character is its UTF-8 encoding, a first byte with the continuation bytes after it.
  \<open>lines()\<close> splits at line feeds, drops an empty last piece and one carriage return before a feed.
\<close>

function chars_of :: "string \<Rightarrow> string list" where
  "chars_of [] = []"
| "chars_of (c # cs) = (c # takeWhile cont_byte cs) # chars_of (dropWhile cont_byte cs)"
  by pat_completeness auto
termination
  by (relation "measure length") (auto simp: le_imp_less_Suc length_dropWhile_le)

definition strip_cr :: "string \<Rightarrow> string" where
  "strip_cr s = (if s \<noteq> [] \<and> last s = CHR 0x0D then butlast s else s)"

definition str_lines :: "string \<Rightarrow> string list" where
  "str_lines s =
     (let ps = split_on (CHR 0x0A) s
      in map strip_cr (butlast ps) @ (if last ps = [] then [] else [last ps]))"

definition bom :: string where
  "bom = [CHR 0xEF, CHR 0xBB, CHR 0xBF]"

fun trim_boms :: "string \<Rightarrow> string" where
  "trim_boms (a # b # c # s) = (if [a, b, c] = bom then trim_boms s else a # b # c # s)"
| "trim_boms s = s"

record noise =
  nz_block :: bool
  nz_string :: bool
  nz_character :: bool
  nz_escaped :: bool

definition noise_default :: noise where
  "noise_default = \<lparr>nz_block = False, nz_string = False, nz_character = False, nz_escaped = False\<rparr>"

datatype noise_step = Keep | Blank nat | Rest

definition step_literal :: "noise \<Rightarrow> string \<Rightarrow> noise_step \<times> noise" where
  "step_literal st c =
     (if nz_escaped st then (Blank 1, st\<lparr>nz_escaped := False\<rparr>)
      else if c = [CHR 0x5C] then (Blank 1, st\<lparr>nz_escaped := True\<rparr>)
      else if (nz_string st \<and> c = [CHR 0x22]) \<or> (nz_character st \<and> c = [CHR 0x27])
        then (Keep, st\<lparr>nz_string := False, nz_character := False\<rparr>)
      else (Blank 1, st))"

definition step_noise :: "noise \<Rightarrow> string \<Rightarrow> string \<Rightarrow> noise_step \<times> noise" where
  "step_noise st c nxt =
     (if nz_block st then
        (let closing = c = ''*'' \<and> nxt = ''/''
         in (Blank (if closing then 2 else 1), st\<lparr>nz_block := \<not> closing\<rparr>))
      else if nz_string st \<or> nz_character st then step_literal st c
      else if c = ''/'' \<and> nxt = ''*'' then (Blank 2, st\<lparr>nz_block := True\<rparr>)
      else if c = ''/'' \<and> nxt = ''/'' then (Rest, st)
      else (Keep, st\<lparr>nz_string := c = [CHR 0x22], nz_character := c = [CHR 0x27]\<rparr>))"

lemma step_noise_width: "step_noise st c nxt = (Blank w, st') \<Longrightarrow> 0 < w"
  by (auto simp: step_noise_def step_literal_def Let_def split: if_splits)

text \<open>One line: what is kept and what is blanked, and the state the next line starts in.\<close>

function strip_chars :: "noise \<Rightarrow> string list \<Rightarrow> string list \<times> noise" where
  "strip_chars st [] = ([], st)"
| "strip_chars st (c # cs) =
     (case step_noise st c (case cs of [] \<Rightarrow> '' '' | d # _ \<Rightarrow> d) of
        (Keep, st') \<Rightarrow> (let (out, e) = strip_chars st' cs in (c # out, e))
      | (Blank w, st') \<Rightarrow>
          (let (out, e) = strip_chars st' (drop w (c # cs)) in (replicate w '' '' @ out, e))
      | (Rest, st') \<Rightarrow> ([], st'))"
  by pat_completeness auto
termination
  by (relation "measure (\<lambda>(st, cs). length cs)") (auto dest: sym [THEN step_noise_width])

definition end_line :: "noise \<Rightarrow> noise" where
  "end_line st = st\<lparr>nz_string := False, nz_character := False, nz_escaped := False\<rparr>"

fun strip_lines :: "noise \<Rightarrow> string list \<Rightarrow> string list" where
  "strip_lines st [] = []"
| "strip_lines st (raw # raws) =
     (let (out, st') = strip_chars st (chars_of raw)
      in concat out # strip_lines (end_line st') raws)"

definition strip_noise :: "string \<Rightarrow> string list" where
  "strip_noise text = strip_lines noise_default (str_lines (trim_boms text))"

section \<open>Tokens and calls\<close>

definition is_head :: "char \<Rightarrow> bool" where
  "is_head c \<longleftrightarrow> is_ascii_lowercase c \<or> is_ascii_uppercase c \<or> c = CHR ''_''"

definition is_tail :: "char \<Rightarrow> bool" where
  "is_tail c \<longleftrightarrow> is_ascii_alphanumeric c \<or> c = CHR ''_''"

lemma is_head_tail [scan_simps]: "is_head c \<Longrightarrow> is_tail c"
  by (auto simp: is_head_def is_tail_def is_ascii_alphanumeric_def)

type_synonym token = "nat \<times> string"

function identifiers_at :: "nat \<Rightarrow> string \<Rightarrow> token list" where
  "identifiers_at i [] = []"
| "identifiers_at i (c # cs) =
     (if \<not> is_head c then identifiers_at (i + 1) cs
      else (let w = takeWhile is_tail (c # cs)
            in (i, w) # identifiers_at (i + length w) (drop (length w) (c # cs))))"
  by pat_completeness auto
termination
  by (relation "measure (\<lambda>(i, s). length s)") (auto simp: is_head_tail)

definition identifiers :: "string \<Rightarrow> token list" where
  "identifiers line = identifiers_at 0 line"

record call_site =
  ca_name :: string
  ca_args :: "string list"
  ca_start :: nat
  ca_open :: nat
  ca_end :: nat

text \<open>\<open>&s[a..b]\<close> and \<open>s.find(c)\<close>.\<close>

definition slice :: "nat \<Rightarrow> nat \<Rightarrow> string \<Rightarrow> string" where
  "slice a b s = take (b - a) (drop a s)"

fun find_char :: "char \<Rightarrow> string \<Rightarrow> nat option" where
  "find_char c [] = None"
| "find_char c (x # xs) = (if x = c then Some 0 else map_option Suc (find_char c xs))"

fun paren_scan :: "nat \<Rightarrow> nat list \<Rightarrow> string \<Rightarrow> (nat \<times> nat) list" where
  "paren_scan i unclosed [] = []"
| "paren_scan i unclosed (c # cs) =
     (if c = CHR ''('' then paren_scan (i + 1) (i # unclosed) cs
      else if c = CHR '')'' then
        (case unclosed of
           [] \<Rightarrow> paren_scan (i + 1) [] cs
         | start # rest \<Rightarrow> (start, i) # paren_scan (i + 1) rest cs)
      else paren_scan (i + 1) unclosed cs)"

definition paren_pairs :: "string \<Rightarrow> (nat, nat) kv" where
  "paren_pairs line = paren_scan 0 [] line"

definition depth_step :: "char \<Rightarrow> char \<Rightarrow> int \<Rightarrow> char \<Rightarrow> int" where
  "depth_step opening closing d c =
     d + (if c = opening then 1 else 0) - (if c = closing then 1 else 0)"

fun match_from :: "char \<Rightarrow> char \<Rightarrow> int \<Rightarrow> nat \<Rightarrow> string \<Rightarrow> nat option" where
  "match_from opening closing d i [] = None"
| "match_from opening closing d i (c # cs) =
     (let d' = depth_step opening closing d c
      in if d' = 0 then Some i else match_from opening closing d' (i + 1) cs)"

definition matching :: "string \<Rightarrow> nat \<Rightarrow> nat option" where
  "matching line start = match_from (CHR ''('') (CHR '')'') 0 start (drop start line)"

text \<open>The commas outside every bracket; a line's brackets may be unbalanced, so the depth may be negative.\<close>

fun split_top :: "int \<Rightarrow> string \<Rightarrow> string \<Rightarrow> string list" where
  "split_top d current [] = [current]"
| "split_top d current (c # cs) =
     (let d' = d + (if c \<in> set ''([{'' then 1 else 0) - (if c \<in> set '')]}'' then 1 else 0)
      in if c = CHR '','' \<and> d' = 0 then current # split_top d' [] cs
         else split_top d' (current @ [c]) cs)"

definition split_top_level :: "string \<Rightarrow> string list" where
  "split_top_level body = split_top 0 [] body"

definition call_at_token :: "string \<Rightarrow> (nat, nat) kv \<Rightarrow> token \<Rightarrow> call_site option" where
  "call_at_token line pairs tok =
     (case tok of (start, nm) \<Rightarrow>
        (let after = start + length nm; rest = trim_start (drop after line)
         in if \<not> starts_with rest ''('' \<or> nm \<in> set scan_keywords then None
            else (let opening = after + unwrap_or (find_char (CHR ''('') (drop after line)) 0
                  in case map_of pairs opening of
                       None \<Rightarrow> None
                     | Some close \<Rightarrow>
                         Some \<lparr>ca_name = nm,
                               ca_args = (if reads_arguments nm
                                          then split_top_level (slice (opening + 1) close line) else []),
                               ca_start = start, ca_open = opening, ca_end = close\<rparr>)))"

definition calls_among :: "string \<Rightarrow> token list \<Rightarrow> call_site list" where
  "calls_among line tokens = List.map_filter (call_at_token line (paren_pairs line)) tokens"

section \<open>Lock expressions\<close>

text \<open>Leading casts and parentheses go while something follows them, then \<open>&\<close>, \<open>*\<close> and white space.\<close>

function strip_casts :: "string \<Rightarrow> string" where
  "strip_casts s =
     (if \<not> starts_with s ''('' then s
      else (case matching s 0 of
          None \<Rightarrow> s
        | Some close \<Rightarrow> if length s \<le> close + 1 then s else strip_casts (trim (drop (close + 1) s))))"
  by pat_completeness auto
termination
  by (relation "measure length") (auto intro: le_less_trans [OF length_trim])

declare strip_casts.simps [simp del]

definition lock_expression :: "string \<Rightarrow> string" where
  "lock_expression arg =
     concat (split_whitespace
       (dropWhile (\<lambda>c. c \<in> set ''&* '') (strip_casts (trim arg))))"

definition is_identifier :: "string \<Rightarrow> bool" where
  "is_identifier tok \<longleftrightarrow> tok \<noteq> [] \<and> is_head (hd tok) \<and> list_all is_tail tok"

definition trim_end_chars :: "string \<Rightarrow> string \<Rightarrow> string" where
  "trim_end_chars cs s = rev (dropWhile (\<lambda>c. c \<in> set cs) (rev s))"

definition entry_function :: "string \<Rightarrow> string option" where
  "entry_function arg =
     (let nm = trim_end_chars ''()'' (lock_expression arg)
      in if is_identifier nm then Some nm else None)"

section \<open>Declarations and headers\<close>

record function_header =
  fn_name :: string
  fn_params :: "string list"

record file_scan =
  fs_path :: string
  fs_lines :: "string list"
  fs_owner :: "nat option list"
  fs_in_loop :: "bool list"
  fs_functions :: "function_header list"
  fs_globals :: "string set"
  fs_atomics :: "string set"

definition opens_member_list :: "string \<Rightarrow> bool" where
  "opens_member_list statement =
     (case find (\<lambda>(_, nm). nm \<in> {''struct'', ''union'', ''enum''}) (rev (identifiers statement)) of
        None \<Rightarrow> False
      | Some (start, nm) \<Rightarrow>
          (let after = drop (start + length nm) statement
           in case find_char (CHR ''{'') after of
                None \<Rightarrow> False
              | Some brace \<Rightarrow> list_all is_identifier (split_whitespace (take brace after))))"

definition declarator_head :: "string \<Rightarrow> string" where
  "declarator_head part =
     map (\<lambda>c. if c = CHR ''*'' then CHR '' '' else c) (takeWhile (\<lambda>c. c \<notin> set ''=['') part)"

definition declared_part :: "string \<Rightarrow> string" where
  "declared_part statement = takeWhile (\<lambda>c. c \<noteq> CHR ''='') statement"

definition declarator_name :: "string \<Rightarrow> string option" where
  "declarator_name part =
     (case rev (split_whitespace (declarator_head part)) of
        [] \<Rightarrow> None
      | nm # _ \<Rightarrow> if is_identifier nm \<and> nm \<notin> set scan_keywords then Some nm else None)"

text \<open>The text after the last brace of the declared part.\<close>

definition after_braces :: "string \<Rightarrow> string" where
  "after_braces fragment =
     (let declared = declared_part fragment;
          tail = length (takeWhile (\<lambda>c. c \<notin> set ''{}'') (rev declared))
      in drop (length declared - tail) fragment)"

definition fragment_names :: "string \<Rightarrow> string list" where
  "fragment_names fragment =
     (let body = after_braces fragment
      in if CHR ''('' \<in> set (declared_part body) then []
         else (let parts = split_top_level body;
                   tokens = split_whitespace (declarator_head (case parts of [] \<Rightarrow> [] | p # _ \<Rightarrow> p))
               in if length tokens < 2 \<or> \<not> list_all is_identifier tokens then []
                  else List.map_filter declarator_name parts))"

definition declarators :: "string \<Rightarrow> string list" where
  "declarators statement =
     (if opens_member_list statement then []
      else concat (map fragment_names (split_on (CHR '';'') statement)))"

definition is_declaration :: "string \<Rightarrow> bool" where
  "is_declaration line \<longleftrightarrow>
     ends_with line '';'' \<and> CHR ''('' \<notin> set (declared_part line) \<and>
     \<not> starts_with line ''#'' \<and> line \<noteq> []"

text \<open>The last parenthesis opened outside any other, which is the parameter list of a header.\<close>

fun last_top_paren :: "int \<Rightarrow> nat \<Rightarrow> nat option \<Rightarrow> string \<Rightarrow> nat option" where
  "last_top_paren d i found [] = found"
| "last_top_paren d i found (c # cs) =
     last_top_paren (depth_step (CHR ''('') (CHR '')'') d c) (i + 1)
       (if c = CHR ''('' \<and> d = 0 then Some i else found) cs"

definition parameter_list :: "string \<Rightarrow> nat option" where
  "parameter_list s = last_top_paren 0 0 None s"

definition before_brace :: "string \<Rightarrow> string" where
  "before_brace s = takeWhile (\<lambda>c. c \<noteq> CHR ''{'') s"

definition header_function :: "string \<Rightarrow> string option" where
  "header_function header =
     (let hd_text = before_brace header
      in case parameter_list hd_text of
           None \<Rightarrow> None
         | Some opening \<Rightarrow>
             (case rev (identifiers (take opening hd_text)) of
                [] \<Rightarrow> None
              | (_, nm) # _ \<Rightarrow> if nm \<in> set scan_keywords then None else Some nm))"

definition parameter_name :: "string \<Rightarrow> string" where
  "parameter_name part =
     (case find_char (CHR ''('') part of
        Some opening \<Rightarrow> (case identifiers (drop opening part) of [] \<Rightarrow> [] | (_, nm) # _ \<Rightarrow> nm)
      | None \<Rightarrow>
          (case rev (identifiers (declarator_head part)) of
             (_, nm) # _ # _ \<Rightarrow> nm
           | _ \<Rightarrow> []))"

definition header_params :: "string \<Rightarrow> string list" where
  "header_params header =
     (let hd_text = before_brace header
      in case parameter_list hd_text of
           None \<Rightarrow> []
         | Some opening \<Rightarrow>
             (case matching hd_text opening of
                None \<Rightarrow> []
              | Some close \<Rightarrow> map parameter_name (split_top_level (slice (opening + 1) close hd_text))))"

section \<open>Blocks and loops\<close>

record blocks =
  bl_depth :: nat
  bl_loops :: "bool list"
  bl_header :: string

definition starts_with_word :: "string \<Rightarrow> string \<Rightarrow> bool" where
  "starts_with_word h word \<longleftrightarrow>
     starts_with h word \<and> (case drop (length word) h of [] \<Rightarrow> True | c # _ \<Rightarrow> \<not> is_tail c)"

datatype branch = NoBranch | NextLine | SameLine

function skip_else :: "bool \<Rightarrow> string \<Rightarrow> bool \<times> string" where
  "skip_else saw h =
     (if starts_with_word h ''else'' then skip_else True (trim_start (drop 4 h)) else (saw, h))"
  by pat_completeness auto
termination
proof (relation "measure (\<lambda>(s, h). length h)")
  fix saw and h :: string
  assume "starts_with_word h ''else''"
  then have "4 \<le> length h" by (auto simp: starts_with_word_def starts_with_def prefix_def)
  then show "((True, trim_start (drop 4 h)), saw, h) \<in> measure (\<lambda>(s, h). length h)"
    using length_trim_start [of "drop 4 h"] by simp
qed simp

declare skip_else.simps [simp del]

definition branch_on :: "string \<Rightarrow> branch" where
  "branch_on line =
     (let line' = trim_start line
      in if CHR ''{'' \<in> set line' then NoBranch
         else (case skip_else False line' of (saw_else, h) \<Rightarrow>
           if \<not> list_ex (starts_with_word h) [''if'', ''for'', ''while''] then
             (if \<not> saw_else then NoBranch else if h = [] then NextLine else SameLine)
           else (case Option.bind (find_char (CHR ''('') h) (matching h) of
               None \<Rightarrow> NextLine
             | Some close \<Rightarrow> if trim (drop (close + 1) h) = [] then NextLine else SameLine)))"

definition opens_loop :: "string \<Rightarrow> bool" where
  "opens_loop line = list_ex (starts_with_word (trim_start line)) [''for'', ''while'', ''do'']"

fun find_str :: "string \<Rightarrow> string \<Rightarrow> nat option" where
  "find_str pat [] = (if pat = [] then Some 0 else None)"
| "find_str pat (x # xs) =
     (if prefix pat (x # xs) then Some 0 else map_option Suc (find_str pat xs))"

lemma find_str_le: "find_str pat s = Some i \<Longrightarrow> i + length pat \<le> length s"
  by (induction s arbitrary: i) (auto split: if_splits dest: prefix_length_le)

lemma match_from_range:
  "match_from a b d i s = Some j \<Longrightarrow> i \<le> j \<and> j < i + length s"
  by (induction s arbitrary: d i) (fastforce simp: Let_def split: if_splits)+

text \<open>\<open>_Atomic(T)\<close> becomes \<open>_Atomic T\<close>; the scan goes on after each word found.\<close>

function unwrap_atomic_from :: "nat \<Rightarrow> string \<Rightarrow> string" where
  "unwrap_atomic_from n s =
     (case find_str ''_Atomic'' (drop n s) of
        None \<Rightarrow> s
      | Some found \<Rightarrow>
          (let after = n + found + 7; rest = drop after s
           in if \<not> starts_with (trim_start rest) ''('' then unwrap_atomic_from after s
              else (let opening = after + unwrap_or (find_char (CHR ''('') rest) 0
                    in case matching s opening of
                         None \<Rightarrow> s
                       | Some close \<Rightarrow>
                           unwrap_atomic_from after
                             (take after s @ '' '' @ slice (opening + 1) close s @ '' '' @ drop (close + 1) s))))"
  by pat_completeness auto
termination
proof (relation "measure (\<lambda>(n, s). Suc (length s) - n)")
  fix n s found after rest
  assume found: "find_str ''_Atomic'' (drop n s) = Some found" and after: "after = n + found + 7"
  from find_str_le [OF found] after have len: "after \<le> length s" "n + 7 \<le> after" by auto
  then show "((after, s), (n, s)) \<in> measure (\<lambda>(n, s). Suc (length s) - n)" by simp
  fix lp close
  assume lp: "lp = after + unwrap_or (find_char (CHR ''('') rest) 0"
    and close: "matching s lp = Some close"
  from match_from_range [OF close [unfolded matching_def]] lp have "lp \<le> close" "close < length s" "after \<le> lp"
    by auto
  then show "((after, take after s @ '' '' @ slice (lp + 1) close s @ '' '' @ drop (close + 1) s), (n, s))
      \<in> measure (\<lambda>(n, s). Suc (length s) - n)"
    using len by (simp add: slice_def min_def) arith
qed simp

declare unwrap_atomic_from.simps [simp del]

definition unwrap_atomic_specifier :: "string \<Rightarrow> string" where
  "unwrap_atomic_specifier line = unwrap_atomic_from 0 line"

definition stdatomic_types :: "string list" where
  "stdatomic_types =
     [''bool'', ''char'', ''schar'', ''uchar'', ''short'', ''ushort'', ''int'', ''uint'', ''long'',
      ''ulong'', ''llong'', ''ullong'', ''char8_t'', ''char16_t'', ''char32_t'', ''wchar_t'',
      ''intptr_t'', ''uintptr_t'', ''size_t'', ''ptrdiff_t'', ''intmax_t'', ''uintmax_t'', ''flag'']"

definition strip_prefix :: "string \<Rightarrow> string \<Rightarrow> string option" where
  "strip_prefix p s = (if prefix p s then Some (drop (length p) s) else None)"

definition is_stdatomic_type :: "string \<Rightarrow> bool" where
  "is_stdatomic_type tok =
     (case strip_prefix ''atomic_'' tok of
        None \<Rightarrow> False
      | Some rest \<Rightarrow>
          rest \<in> set stdatomic_types \<or>
          (let rest' = unwrap_or (strip_prefix ''u'' rest) rest
           in case or_else (strip_prefix ''int_least'' rest') (strip_prefix ''int_fast'' rest') of
                None \<Rightarrow> False
              | Some width \<Rightarrow> width \<in> {''8_t'', ''16_t'', ''32_t'', ''64_t''}))"

definition declares_atomic :: "string \<Rightarrow> string list \<Rightarrow> bool" where
  "declares_atomic line names =
     (let tokens = map snd (identifiers (declared_part line))
      in list_ex (\<lambda>at.
           let tok = tokens ! at;
               tag = 0 < at \<and> tokens ! (at - 1) \<in> {''struct'', ''union'', ''enum''}
           in tok = ''_Atomic'' \<or> (is_stdatomic_type tok \<and> \<not> tag \<and> tok \<notin> set names))
         [0..<length tokens])"

section \<open>The structure of a file\<close>

text \<open>
  The part of the scan that grows while the lines are read; the owner and the loop flag of a line are
  what \<open>structure_line\<close> yields for it.
\<close>

record structure_state =
  ss_blocks :: blocks
  ss_functions :: "function_header list"
  ss_globals :: "string set"
  ss_atomics :: "string set"
  ss_current :: "nat option"
  ss_pending_loop :: bool

definition file_scope_line :: "structure_state \<Rightarrow> string \<Rightarrow> nat option \<times> structure_state" where
  "file_scope_line st raw =
     (let line = unwrap_atomic_specifier raw;
          clear = (\<lambda>s. s\<lparr>ss_blocks := (ss_blocks s)\<lparr>bl_header := []\<rparr>\<rparr>)
      in if is_declaration line then
           (let names = declarators line
            in (None, clear (st\<lparr>
                  ss_atomics := (if declares_atomic line names then ss_atomics st \<union> set names
                                 else ss_atomics st),
                  ss_globals := ss_globals st \<union> set names\<rparr>)))
         else if CHR ''{'' \<notin> set line \<and> (ends_with line '';'' \<or> starts_with line ''#'') then
           (None, clear st)
         else (let header = bl_header (ss_blocks st) @ '' '' @ line
               in if CHR ''{'' \<notin> set line then
                    (None, st\<lparr>ss_blocks := (ss_blocks st)\<lparr>bl_header := header\<rparr>\<rparr>)
                  else (case header_function header of
                      None \<Rightarrow> (None, clear st)
                    | Some nm \<Rightarrow>
                        (Some (length (ss_functions st)),
                         clear (st\<lparr>ss_functions := ss_functions st @
                                     [\<lparr>fn_name = nm, fn_params = header_params header\<rparr>]\<rparr>)))))"

definition structure_line :: "structure_state \<Rightarrow> string \<Rightarrow> nat option \<times> bool \<times> structure_state" where
  "structure_line st0 raw =
     (let line = trim raw;
          st = (if bl_depth (ss_blocks st0) = 0
                then (case file_scope_line st0 line of (current, s) \<Rightarrow> s\<lparr>ss_current := current\<rparr>)
                else st0);
          carried = ss_pending_loop st \<or> (opens_loop line \<and> branch_on line = SameLine);
          opened = count_list line (CHR ''{'');
          closed = count_list line (CHR ''}'');
          depth = bl_depth (ss_blocks st) + opened - closed;
          loops = take depth (bl_loops (ss_blocks st) @ replicate opened (carried \<or> opens_loop line))
      in (ss_current st,
          carried \<or> list_ex (\<lambda>b. b) (bl_loops (ss_blocks st)),
          st\<lparr>ss_blocks := (ss_blocks st)\<lparr>bl_depth := depth, bl_loops := loops\<rparr>,
             ss_pending_loop := opens_loop line \<and> branch_on line = NextLine,
             ss_current := (if depth = 0 then None else ss_current st)\<rparr>))"

fun structure_loop :: "structure_state \<Rightarrow> string list \<Rightarrow> nat option list \<times> bool list \<times> structure_state" where
  "structure_loop st [] = ([], [], st)"
| "structure_loop st (line # lines) =
     (case structure_line st line of (own, looping, st') \<Rightarrow>
        (case structure_loop st' lines of (owners, loopings, st'') \<Rightarrow>
           (own # owners, looping # loopings, st'')))"

definition structure_start :: structure_state where
  "structure_start =
     \<lparr>ss_blocks = \<lparr>bl_depth = 0, bl_loops = [], bl_header = []\<rparr>, ss_functions = [],
      ss_globals = {}, ss_atomics = {}, ss_current = None, ss_pending_loop = False\<rparr>"

definition structure_of :: "string \<Rightarrow> string list \<Rightarrow> file_scan" where
  "structure_of path lines =
     (case structure_loop structure_start lines of (owners, loopings, st) \<Rightarrow>
        \<lparr>fs_path = path, fs_lines = lines, fs_owner = owners, fs_in_loop = loopings,
         fs_functions = ss_functions st, fs_globals = ss_globals st, fs_atomics = ss_atomics st\<rparr>)"

end
