(* ===== verification/Survey.thy ===== *)
theory Survey
  imports Scan Topo
begin

text \<open>
  What the concurrency pass knows of the program before it walks it (src/src/mcp/concurrency.rs):
  thread entries and the functions that spawn them, the call edges, which functions may run more than
  once, and for each function the threads that reach it. The graph library's Kosaraju algorithm is a
  parameter with the contract \<^const>\<open>is_scc_partition\<close>.
\<close>

section \<open>The program\<close>

record spawn =
  sp_sites :: nat
  sp_in_loop :: bool
  sp_spawners :: "string set"
  sp_spawner_repeats :: bool

definition spawn_default :: spawn where
  "spawn_default = \<lparr>sp_sites = 0, sp_in_loop = False, sp_spawners = {}, sp_spawner_repeats = False\<rparr>"

definition may_repeat :: "spawn \<Rightarrow> bool" where
  "may_repeat sp \<longleftrightarrow> 1 < sp_sites sp \<or> sp_in_loop sp \<or> sp_spawner_repeats sp"

record call_sites =
  cs_count :: nat
  cs_in_loop :: bool

record program =
  pg_entries :: "(string, spawn) kv"
  pg_edges :: "(string, string set) kv"
  pg_calls :: "(string, call_sites) kv"
  pg_defined :: "string set"
  pg_globals :: "string set"
  pg_atomics :: "string set"
  pg_spawn_calls :: nat
  pg_params :: "(string, string list) kv"
  pg_indirect :: "string set"
  pg_lock_calls :: nat

definition program_default :: program where
  "program_default =
     \<lparr>pg_entries = [], pg_edges = [], pg_calls = [], pg_defined = {}, pg_globals = {},
      pg_atomics = {}, pg_spawn_calls = 0, pg_params = [], pg_indirect = {}, pg_lock_calls = 0\<rparr>"

definition unresolved_spawns :: "program \<Rightarrow> nat" where
  "unresolved_spawns p = pg_spawn_calls p - sum_list (map (sp_sites \<circ> snd) (pg_entries p))"

definition has_unattributed_threads :: "program \<Rightarrow> bool" where
  "has_unattributed_threads p \<longleftrightarrow>
     0 < unresolved_spawns p \<or> list_ex (\<lambda>nm. nm \<notin> pg_defined p) (bt_keys (pg_entries p))"

section \<open>Reachability\<close>

definition callees :: "(string, string set) kv \<Rightarrow> string \<Rightarrow> string list" where
  "callees edges f = (case map_of edges f of None \<Rightarrow> [] | Some A \<Rightarrow> sorted_list_of_set A)"

definition call_rel :: "(string, string set) kv \<Rightarrow> (string \<times> string) set" where
  "call_rel edges = {(f, g). g \<in> set (callees edges f)}"

definition targets_of :: "(string, string set) kv \<Rightarrow> string set" where
  "targets_of edges = (\<Union>A \<in> snd ` set edges. set (sorted_list_of_set A))"

lemma finite_targets [simp]: "finite (targets_of edges)"
  by (simp add: targets_of_def)

lemma callees_targets: "g \<in> set (callees edges f) \<Longrightarrow> g \<in> targets_of edges"
proof (cases "map_of edges f")
  case (Some A)
  assume "g \<in> set (callees edges f)"
  with Some map_of_SomeD [OF Some] show ?thesis
    by (auto simp: callees_def targets_of_def intro!: bexI [of _ "(f, A)"])
qed (simp add: callees_def)

text \<open>The queue is a vector popped at its end, so its head is here the end of the vector.\<close>

function reach_loop :: "(string, string set) kv \<Rightarrow> string set \<Rightarrow> string list \<Rightarrow> string set" where
  "reach_loop edges seen [] = seen"
| "reach_loop edges seen (f # queue) =
     (if f \<in> seen then reach_loop edges seen queue
      else reach_loop edges (insert f seen) (rev (callees edges f) @ queue))"
  by pat_completeness auto
termination
proof (relation "measures [\<lambda>(edges, seen, queue). card ((targets_of edges \<union> set queue) - seen),
    \<lambda>(edges, seen, queue). length queue]")
  fix edges seen f and queue :: "string list"
  have "card (targets_of edges \<union> set queue - seen) \<le> card (targets_of edges \<union> set (f # queue) - seen)"
    by (rule card_mono) auto
  then show "((edges, seen, queue), edges, seen, f # queue) \<in> measures [\<lambda>(edges, seen, queue). card ((targets_of edges \<union> set queue) - seen),
    \<lambda>(edges, seen, queue). length queue]"
    by auto
  assume "f \<notin> seen"
  then have "targets_of edges \<union> set (rev (callees edges f) @ queue) - insert f seen
      \<subset> targets_of edges \<union> set (f # queue) - seen"
    by (auto dest: callees_targets)
  then have "card (targets_of edges \<union> set (rev (callees edges f) @ queue) - insert f seen)
      < card (targets_of edges \<union> set (f # queue) - seen)"
    by (rule psubset_card_mono [rotated]) simp
  then show "((edges, insert f seen, rev (callees edges f) @ queue), edges, seen, f # queue) \<in> measures [\<lambda>(edges, seen, queue). card ((targets_of edges \<union> set queue) - seen),
    \<lambda>(edges, seen, queue). length queue]"
    by simp
qed simp

definition reach :: "(string, string set) kv \<Rightarrow> string list \<Rightarrow> string set" where
  "reach edges seeds = reach_loop edges {} (rev seeds)"

text \<open>
  The invariant of the search: every callee of a seen function is seen or waiting, and everything
  seen or waiting is reachable.
\<close>

lemma reach_loop_closed:
  "\<forall>f \<in> seen. \<forall>g. (f, g) \<in> call_rel edges \<longrightarrow> g \<in> seen \<union> set queue \<Longrightarrow>
     seen \<union> set queue \<subseteq> reach_loop edges seen queue \<and>
     call_rel edges `` reach_loop edges seen queue \<subseteq> reach_loop edges seen queue"
proof (induction edges seen queue rule: reach_loop.induct)
  case (2 edges seen f queue)
  show ?case
  proof (cases "f \<in> seen")
    case True
    with 2 show ?thesis by auto
  next
    case False
    have "\<forall>x \<in> insert f seen. \<forall>g. (x, g) \<in> call_rel edges \<longrightarrow>
        g \<in> insert f seen \<union> set (rev (callees edges f) @ queue)"
      using 2(3) by (auto simp: call_rel_def)
    from 2(2) [OF False this] False show ?thesis by auto
  qed
qed auto

lemma reach_loop_reachable:
  "seen \<union> set queue \<subseteq> (call_rel edges)\<^sup>* `` S \<Longrightarrow>
     reach_loop edges seen queue \<subseteq> (call_rel edges)\<^sup>* `` S"
proof (induction edges seen queue rule: reach_loop.induct)
  case (2 edges seen f queue)
  have "set (callees edges f) \<subseteq> (call_rel edges)\<^sup>* `` S"
    using 2(3) by (auto simp: call_rel_def intro: rtrancl_into_rtrancl)
  with 2 show ?case by (cases "f \<in> seen") auto
qed simp

lemma reach_eq: "reach edges seeds = (call_rel edges)\<^sup>* `` set seeds"
proof
  show "reach edges seeds \<subseteq> (call_rel edges)\<^sup>* `` set seeds"
    unfolding reach_def by (rule reach_loop_reachable) auto
  have "set seeds \<subseteq> reach edges seeds" "call_rel edges `` reach edges seeds \<subseteq> reach edges seeds"
    using reach_loop_closed [of "{}" edges "rev seeds"] by (auto simp: reach_def)
  then show "(call_rel edges)\<^sup>* `` set seeds \<subseteq> reach edges seeds"
    by (metis Image_closed_trancl Image_mono order_refl)
qed

lemma reach_bound: "reach edges seeds \<subseteq> set seeds \<union> targets_of edges"
  unfolding reach_eq by (auto simp: call_rel_def elim: rtranclE dest: callees_targets)

lemma reach_seeds: "set seeds \<subseteq> reach edges seeds"
  unfolding reach_eq by auto

lemma finite_reach [simp]: "finite (reach edges seeds)"
  by (rule finite_subset [OF reach_bound]) simp

section \<open>Components\<close>

definition edge_graph :: "(string, string set) kv \<Rightarrow> call_graph" where
  "edge_graph graph =
     (let es = concat (map (\<lambda>(f, A). map (Pair f) (sorted_list_of_set A)) graph)
      in (sorted_list_of_set (set (map fst graph) \<union> set (map snd es)), es))"

definition components :: "(call_graph \<Rightarrow> string list list) \<Rightarrow> (string, string set) kv \<Rightarrow> string list list" where
  "components kosaraju_scc graph = sort (map sort (kosaraju_scc (edge_graph graph)))"

section \<open>Functions that run more than once\<close>

definition repeating_entries :: "(string, spawn) kv \<Rightarrow> string set \<Rightarrow> string list" where
  "repeating_entries entries many =
     map fst (filter (\<lambda>(_, sp). 1 < sp_sites sp \<or> sp_in_loop sp \<or> sp_spawners sp \<inter> many \<noteq> {}) entries)"

function many_loop :: "(string, string set) kv \<Rightarrow> (string, spawn) kv \<Rightarrow> string set \<Rightarrow> string set" where
  "many_loop edges entries many =
     (let many' = reach edges (sorted_list_of_set many @ repeating_entries entries many)
      in if card many' = card many then many' else many_loop edges entries many')"
  by pat_completeness auto
termination
proof (relation "measures [\<lambda>(edges, entries, many). if finite many then 0 else 1,
    \<lambda>(edges, entries, many). card ((targets_of edges \<union> fst ` set entries) - many)]")
  fix edges and entries :: "(string, spawn) kv" and many many' :: "string set"
  assume many': "many' = reach edges (sorted_list_of_set many @ repeating_entries entries many)"
    and grows: "card many' \<noteq> card many"
  show "((edges, entries, many'), edges, entries, many) \<in> measures
      [\<lambda>(edges, entries, many). if finite many then 0 else 1,
       \<lambda>(edges, entries, many). card ((targets_of edges \<union> fst ` set entries) - many)]"
  proof (cases "finite many")
    case True
    have "set (repeating_entries entries many) \<subseteq> fst ` set entries"
      by (auto simp: repeating_entries_def)
    then have "many' \<subseteq> many \<union> (targets_of edges \<union> fst ` set entries)"
      using reach_bound [of edges "sorted_list_of_set many @ repeating_entries entries many"] True
      unfolding many' by auto
    moreover have "many \<subseteq> many'"
      using reach_seeds [of "sorted_list_of_set many @ repeating_entries entries many" edges] True
      unfolding many' by auto
    moreover have "many' \<noteq> many" using grows by blast
    ultimately have "targets_of edges \<union> fst ` set entries - many' \<subset> targets_of edges \<union> fst ` set entries - many"
      using \<open>many' \<noteq> many\<close> by blast
    then have "card (targets_of edges \<union> fst ` set entries - many') < card (targets_of edges \<union> fst ` set entries - many)"
      by (rule psubset_card_mono [rotated]) simp
    with True show ?thesis by (simp add: many')
  qed (simp add: many')
qed simp

declare many_loop.simps [simp del]

definition calls_itself :: "(string, string set) kv \<Rightarrow> string \<Rightarrow> bool" where
  "calls_itself edges f \<longleftrightarrow> (case map_of edges f of None \<Rightarrow> False | Some A \<Rightarrow> f \<in> A)"

definition many_start :: "(call_graph \<Rightarrow> string list list) \<Rightarrow> program \<Rightarrow> string set" where
  "many_start kosaraju_scc p =
     set (map fst (filter (\<lambda>(_, s). 1 < cs_count s \<or> cs_in_loop s) (pg_calls p))) \<union>
     set (concat (filter (\<lambda>c. 1 < length c \<or> calls_itself (pg_edges p) (hd c))
       (components kosaraju_scc (pg_edges p))))"

definition runs_more_than_once :: "(call_graph \<Rightarrow> string list list) \<Rightarrow> program \<Rightarrow> string set" where
  "runs_more_than_once kosaraju_scc p =
     many_loop (pg_edges p) (pg_entries p) (many_start kosaraju_scc p)"

section \<open>The survey\<close>

definition record_spawn :: "call_site \<Rightarrow> bool \<Rightarrow> string option \<Rightarrow> program \<Rightarrow> program" where
  "record_spawn call in_loop caller p =
     (if length (ca_args call) \<le> 2 then p
      else (case entry_function (ca_args call ! 2) of
          None \<Rightarrow> p
        | Some entry \<Rightarrow>
            p\<lparr>pg_entries := bt_entry entry spawn_default
                (\<lambda>sp. sp\<lparr>sp_sites := sp_sites sp + 1, sp_in_loop := sp_in_loop sp \<or> in_loop,
                         sp_spawners := sp_spawners sp \<union> set_option caller\<rparr>) (pg_entries p)\<rparr>))"

definition owner_name :: "file_scan \<Rightarrow> nat \<Rightarrow> string option" where
  "owner_name file index = map_option (\<lambda>i. fn_name (fs_functions file ! i)) (fs_owner file ! index)"

definition names_its_own_definition :: "file_scan \<Rightarrow> nat \<Rightarrow> string \<Rightarrow> string \<Rightarrow> nat \<Rightarrow> bool" where
  "names_its_own_definition file index line nm start =
     (case fs_owner file ! index of
        None \<Rightarrow> False
      | Some own \<Rightarrow>
          (index = 0 \<or> fs_owner file ! (index - 1) \<noteq> Some own) \<and>
          CHR ''{'' \<notin> set (take start line) \<and>
          nm = fn_name (fs_functions file ! own))"

definition survey_call :: "file_scan \<Rightarrow> string \<Rightarrow> nat \<Rightarrow> call_site \<Rightarrow> program \<Rightarrow> program" where
  "survey_call file line index call p =
     (let caller = owner_name file index; in_loop = fs_in_loop file ! index;
          p1 = p\<lparr>pg_lock_calls := pg_lock_calls p + (if lock_api (ca_name call) \<noteq> None then 1 else 0)\<rparr>;
          p2 = (if ca_name call = ''pthread_create'' then record_spawn call in_loop caller p1 else p1)
      in case caller of
           None \<Rightarrow> p2
         | Some from_fn \<Rightarrow>
             if names_its_own_definition file index line (ca_name call) (ca_start call) \<or>
                ca_name call \<notin> pg_defined p2 then p2
             else p2\<lparr>pg_calls := bt_entry (ca_name call) \<lparr>cs_count = 0, cs_in_loop = False\<rparr>
                       (\<lambda>s. \<lparr>cs_count = cs_count s + 1, cs_in_loop = cs_in_loop s \<or> in_loop\<rparr>) (pg_calls p2),
                     pg_edges := bt_entry from_fn {} (insert (ca_name call)) (pg_edges p2)\<rparr>)"

definition survey_line :: "file_scan \<Rightarrow> string \<times> nat \<Rightarrow> program \<Rightarrow> program" where
  "survey_line file entry p =
     (case entry of (line, index) \<Rightarrow>
        (let tokens = identifiers line;
             found = calls_among line tokens;
             resolved = set (map ca_start found);
             named = filter (\<lambda>(start, nm). start \<notin> resolved \<and> nm \<in> pg_defined p) tokens
         in fold (survey_call file line index) found
              (p\<lparr>pg_spawn_calls := pg_spawn_calls p +
                   length (filter (\<lambda>(_, nm). nm = ''pthread_create'') tokens),
                 pg_indirect := pg_indirect p \<union> set (map snd named)\<rparr>)))"

definition survey_file :: "file_scan \<Rightarrow> program \<Rightarrow> program" where
  "survey_file file p = fold (survey_line file) (zip (fs_lines file) [0..<length (fs_lines file)]) p"

definition survey_names :: "file_scan \<Rightarrow> program \<Rightarrow> program" where
  "survey_names file p =
     p\<lparr>pg_globals := pg_globals p \<union> fs_globals file,
       pg_atomics := pg_atomics p \<union> fs_atomics file,
       pg_defined := pg_defined p \<union> set (map fn_name (fs_functions file)),
       pg_params := fold (\<lambda>f m. bt_insert (fn_name f) (fn_params f) m) (fs_functions file) (pg_params p)\<rparr>"

definition survey :: "(call_graph \<Rightarrow> string list list) \<Rightarrow> file_scan list \<Rightarrow> program" where
  "survey kosaraju_scc files =
     (let p = fold survey_file files (fold survey_names files program_default);
          many = runs_more_than_once kosaraju_scc p
      in p\<lparr>pg_entries :=
             map (\<lambda>(nm, sp). (nm, sp\<lparr>sp_spawner_repeats := sp_spawners sp \<inter> many \<noteq> {}\<rparr>))
               (pg_entries p)\<rparr>)"

section \<open>Threads\<close>

definition unattributed :: string where
  "unattributed = ''<unattributed>''"

definition thread_roots :: "program \<Rightarrow> string list" where
  "thread_roots p = bt_keys (pg_entries p) @ (if ''main'' \<in> pg_defined p then [''main''] else [])"

definition mark_reached :: "(string, string set) kv \<Rightarrow> string \<Rightarrow> (string, string set) kv \<Rightarrow> (string, string set) kv" where
  "mark_reached edges root sets =
     fold (\<lambda>f m. bt_entry f {} (insert root) m) (sorted_list_of_set (reach edges [root])) sets"

definition thread_sets :: "program \<Rightarrow> (string, string set) kv" where
  "thread_sets p = fold (mark_reached (pg_edges p)) (thread_roots p) []"

definition repeating :: "program \<Rightarrow> string set" where
  "repeating p =
     set (map fst (filter (\<lambda>(_, sp). may_repeat sp) (pg_entries p))) \<union>
     (if has_unattributed_threads p then {unattributed} else {})"

definition threads_of :: "(string, string set) kv \<Rightarrow> string \<Rightarrow> string list" where
  "threads_of sets f =
     (case map_of sets f of
        None \<Rightarrow> [unattributed]
      | Some A \<Rightarrow> if A = {} then [unattributed] else sorted_list_of_set A)"

section \<open>Which functions run more than once\<close>

text \<open>
  What the closure computes, without its loop: a function called at two sites or from a loop, one that
  can reach itself, a thread entry spawned more than once or by such a function, and whatever any of
  them calls.
\<close>

inductive runs_many :: "program \<Rightarrow> string \<Rightarrow> bool" for p where
  called_often: "(f, s) \<in> set (pg_calls p) \<Longrightarrow> 1 < cs_count s \<or> cs_in_loop s \<Longrightarrow> runs_many p f"
| recursive: "(f, f) \<in> (call_rel (pg_edges p))\<^sup>+ \<Longrightarrow> runs_many p f"
| spawned_often: "(f, sp) \<in> set (pg_entries p) \<Longrightarrow> 1 < sp_sites sp \<or> sp_in_loop sp \<Longrightarrow> runs_many p f"
| spawner: "(f, sp) \<in> set (pg_entries p) \<Longrightarrow> g \<in> sp_spawners sp \<Longrightarrow> runs_many p g \<Longrightarrow> runs_many p f"
| callee: "runs_many p f \<Longrightarrow> (f, g) \<in> call_rel (pg_edges p) \<Longrightarrow> runs_many p g"

definition finite_edges :: "(string, string set) kv \<Rightarrow> bool" where
  "finite_edges edges \<longleftrightarrow> ordered edges \<and> list_all (\<lambda>(f, A). finite A) edges"

lemma finite_edges_insert:
  "finite_edges m \<Longrightarrow> finite_edges (bt_entry f {} (insert g) m)"
proof -
  assume m: "finite_edges m"
  then have "ordered (bt_entry f {} (insert g) m)" by (simp add: finite_edges_def)
  moreover from this m have "(h, A) \<in> set (bt_entry f {} (insert g) m) \<Longrightarrow> finite A" for h A
    by (auto simp: ordered_map_of finite_edges_def list_all_iff simp del: ordered_bt_entry
        split: if_splits option.splits)
  ultimately show ?thesis by (auto simp: finite_edges_def list_all_iff)
qed

lemma finite_edges_callees:
  "finite_edges edges \<Longrightarrow> map_of edges f = Some A \<Longrightarrow> set (callees edges f) = A"
proof -
  assume "finite_edges edges" and A: "map_of edges f = Some A"
  with map_of_SomeD [OF A] have "finite A" by (auto simp: finite_edges_def list_all_iff)
  with A show ?thesis by (simp add: callees_def)
qed

lemma calls_itself_iff: "finite_edges edges \<Longrightarrow> calls_itself edges f \<longleftrightarrow> (f, f) \<in> call_rel edges"
  using finite_edges_callees [of edges f]
  by (auto simp: calls_itself_def call_rel_def callees_def split: option.splits)

lemma edge_graph_rel:
  assumes "finite_edges edges"
  shows "set (snd (edge_graph edges)) = call_rel edges"
    and "fst ` call_rel edges \<union> snd ` call_rel edges \<subseteq> set (fst (edge_graph edges))"
proof -
  have mem: "(f, A) \<in> set edges \<longleftrightarrow> map_of edges f = Some A" for f A
    using assms by (simp add: finite_edges_def ordered_map_of)
  have lst: "(f, g) \<in> set (snd (edge_graph edges)) \<longleftrightarrow> (\<exists>A. (f, A) \<in> set edges \<and> g \<in> set (sorted_list_of_set A))" for f g
    by (force simp: edge_graph_def)
  show rel: "set (snd (edge_graph edges)) = call_rel edges"
  proof (rule set_eqI, rule prod.induct)
    show "(f, g) \<in> set (snd (edge_graph edges)) \<longleftrightarrow> (f, g) \<in> call_rel edges" for f g
      unfolding lst mem by (cases "map_of edges f") (simp_all add: call_rel_def callees_def)
  qed
  have nodes: "set (fst (edge_graph edges)) = fst ` set edges \<union> snd ` set (snd (edge_graph edges))"
  proof -
    have "fst (edge_graph edges) = sorted_list_of_set (set (map fst edges) \<union> set (map snd (snd (edge_graph edges))))"
      by (simp only: edge_graph_def Let_def fst_conv snd_conv)
    also have "set \<dots> = set (map fst edges) \<union> set (map snd (snd (edge_graph edges)))"
      by (rule set_sorted_list_of_set) (simp only: finite_Un finite_set simp_thms)
    finally show ?thesis by (simp only: set_map)
  qed
  show "fst ` call_rel edges \<union> snd ` call_rel edges \<subseteq> set (fst (edge_graph edges))"
  proof -
    have "fst ` set (snd (edge_graph edges)) \<subseteq> fst ` set edges"
      by (clarsimp simp: lst) (metis fst_conv image_eqI)
    then show ?thesis unfolding nodes rel [symmetric] by blast
  qed
qed

lemma survey_edges_finite: "finite_edges (pg_edges (survey kosaraju_scc files))"
proof -
  have call: "finite_edges (pg_edges p) \<Longrightarrow> finite_edges (pg_edges (survey_call fl line i c p))"
    for p fl line i c
    by (auto simp: survey_call_def record_spawn_def Let_def finite_edges_insert split: option.splits)
  have calls: "finite_edges (pg_edges p) \<Longrightarrow> finite_edges (pg_edges (fold (survey_call fl line i) cs p))"
    for p fl line i cs
    by (induction cs arbitrary: p) (simp_all add: call)
  have line: "finite_edges (pg_edges p) \<Longrightarrow> finite_edges (pg_edges (survey_line fl e p))" for p fl e
    by (cases e) (simp add: survey_line_def Let_def calls)
  have lines: "finite_edges (pg_edges p) \<Longrightarrow> finite_edges (pg_edges (fold (survey_line fl) es p))" for p fl es
    by (induction es arbitrary: p) (simp_all add: line)
  have all_files: "finite_edges (pg_edges p) \<Longrightarrow> finite_edges (pg_edges (fold survey_file fs p))" for p fs
    by (induction fs arbitrary: p) (simp_all add: lines survey_file_def)
  have "pg_edges (fold survey_names fs p) = pg_edges p" for fs p
    by (induction fs arbitrary: p) (simp_all add: survey_names_def)
  then have "finite_edges (pg_edges (fold survey_names files program_default))"
    by (simp add: program_default_def finite_edges_def)
  then show ?thesis by (simp add: survey_def Let_def all_files)
qed

text \<open>A component of more than one member, or one that calls itself, is exactly a call cycle.\<close>

lemma scc_cycle_iff:
  assumes fin: "finite_edges edges" and scc: "is_scc_partition (edge_graph edges) (k (edge_graph edges))"
  shows "f \<in> set (concat (filter (\<lambda>c. 1 < length c \<or> calls_itself edges (hd c)) (components k edges)))
     \<longleftrightarrow> (f, f) \<in> (call_rel edges)\<^sup>+" (is "?cyc \<longleftrightarrow> ?rec")
proof -
  note rel = edge_graph_rel [OF fin]
  let ?G = "edge_graph edges" and ?E = "call_rel edges"
  have comp: "c \<in> set (components k edges) \<longleftrightarrow> (\<exists>d \<in> set (k ?G). c = sort d)" for c
    by (auto simp: components_def)
  have same: "u \<in> set (fst ?G) \<Longrightarrow> v \<in> set (fst ?G) \<Longrightarrow>
      (\<exists>d \<in> set (k ?G). u \<in> set d \<and> v \<in> set d) \<longleftrightarrow> (u, v) \<in> ?E\<^sup>* \<and> (v, u) \<in> ?E\<^sup>*" for u v
    using scc rel(1) by (auto simp: is_scc_partition_def mutually_reachable_def)
  have dist: "d \<in> set (k ?G) \<Longrightarrow> distinct d" "d \<in> set (k ?G) \<Longrightarrow> d \<noteq> []"
      "d \<in> set (k ?G) \<Longrightarrow> set d \<subseteq> set (fst ?G)" for d
    using scc by (auto simp: is_scc_partition_def distinct_concat_iff)
  show ?thesis
  proof
    assume ?cyc
    then obtain d where d: "d \<in> set (k ?G)" "f \<in> set d" "1 < length d \<or> calls_itself edges (hd (sort d))"
      by (auto simp: comp)
    show ?rec
    proof (cases "length d = 1")
      case True
      with d(2) have "d = [f]" by (cases d) auto
      with d(3) show ?thesis by (simp add: calls_itself_iff [OF fin])
    next
      case False
      with dist(2) [OF d(1)] have "1 < length d"
        by (metis One_nat_def Suc_lessI length_greater_0_conv)
      with dist(1) [OF d(1)] d(2) obtain g where g: "g \<in> set d" "g \<noteq> f"
        by (metis distinct_card card_le_Suc0_iff_eq finite_set not_less One_nat_def)
      with same [of f g] d dist(3) [OF d(1)] have "(f, g) \<in> ?E\<^sup>*" "(g, f) \<in> ?E\<^sup>*" by auto
      with g(2) show ?thesis by (metis rtranclD trancl_rtrancl_trancl)
    qed
  next
    assume ?rec
    then obtain g where fg: "(f, g) \<in> ?E" and gf: "(g, f) \<in> ?E\<^sup>*" by (meson tranclD)
    from fg rel(2) have nodes: "f \<in> set (fst ?G)" "g \<in> set (fst ?G)" by force+
    with same [of f g] fg gf obtain d where d: "d \<in> set (k ?G)" "f \<in> set d" "g \<in> set d" by auto
    have "1 < length d \<or> calls_itself edges (hd (sort d))"
    proof (cases "g = f")
      case True
      show ?thesis
      proof (cases "1 < length d")
        case False
        with d(2) have "d = [f]" by (cases d) auto
        with fg True show ?thesis by (simp add: calls_itself_iff [OF fin])
      qed simp
    next
      case False
      with d have "1 < card (set d)"
        by (metis card_le_Suc0_iff_eq finite_set not_less One_nat_def)
      then show ?thesis by (meson card_length less_le_trans)
    qed
    then have "sort d \<in> set (filter (\<lambda>c. 1 < length c \<or> calls_itself edges (hd c)) (components k edges))"
      using d(1) by (auto simp: comp)
    then show ?cyc
      unfolding set_concat by (rule UN_I) (simp add: d(2))
  qed
qed

text \<open>The loop ends in the least closed set above its start.\<close>

lemma many_loop_closed:
  "finite many \<Longrightarrow> (let R = many_loop edges entries many in
     many \<subseteq> R \<and> set (repeating_entries entries R) \<subseteq> R \<and> call_rel edges `` R \<subseteq> R)"
proof (induction edges entries many rule: many_loop.induct)
  case (1 edges entries many)
  define many' where "many' = reach edges (sorted_list_of_set many @ repeating_entries entries many)"
  have sub: "many \<subseteq> many'" "set (repeating_entries entries many) \<subseteq> many'"
    using reach_seeds [of "sorted_list_of_set many @ repeating_entries entries many" edges] 1(2)
    by (auto simp: many'_def)
  have closed: "call_rel edges `` many' \<subseteq> many'"
    unfolding many'_def reach_eq by (auto intro: rtrancl_into_rtrancl)
  show ?case
  proof (cases "card many' = card many")
    case True
    with sub(1) have "many' = many"
      by (metis card_subset_eq finite_reach many'_def)
    moreover have "many_loop edges entries many = many'"
      using True by (subst many_loop.simps) (simp add: Let_def many'_def [symmetric])
    ultimately show ?thesis unfolding Let_def using sub closed by metis
  next
    case False
    have "finite many'" by (simp add: many'_def)
    moreover have "many_loop edges entries many = many_loop edges entries many'"
      using False by (subst many_loop.simps) (simp add: Let_def many'_def [symmetric])
    ultimately show ?thesis using "1.IH" [OF many'_def False] sub(1) unfolding Let_def by auto
  qed
qed

lemma many_loop_least:
  "many \<subseteq> S \<Longrightarrow> (\<And>M. M \<subseteq> S \<Longrightarrow> set (repeating_entries entries M) \<subseteq> S) \<Longrightarrow> call_rel edges `` S \<subseteq> S \<Longrightarrow>
     many_loop edges entries many \<subseteq> S"
proof (induction edges entries many rule: many_loop.induct)
  case (1 edges entries many)
  define many' where "many' = reach edges (sorted_list_of_set many @ repeating_entries entries many)"
  have "set (sorted_list_of_set many) \<subseteq> S" using 1(2) by (cases "finite many") auto
  with 1(2,3,4) have "many' \<subseteq> S"
    unfolding many'_def reach_eq by (metis Image_closed_trancl Image_mono Un_least order_refl set_append)
  with 1 show ?case
    by (subst many_loop.simps) (auto simp: Let_def many'_def [symmetric] simp del: subset_iff)
qed

text \<open>C24: the functions marked as running more than once are exactly those that are called repeatedly,
  recursive, spawned repeatedly, spawned by a function that runs more than once, or called by one,
  directly or not.
\<close>

theorem runs_more_than_once_exact:
  assumes fin: "finite_edges (pg_edges p)"
    and scc: "is_scc_partition (edge_graph (pg_edges p)) (k (edge_graph (pg_edges p)))"
  shows "f \<in> runs_more_than_once k p \<longleftrightarrow> runs_many p f"
proof -
  let ?start = "many_start k p" and ?R = "runs_more_than_once k p"
  have start: "f \<in> ?start \<longleftrightarrow>
      (\<exists>s. (f, s) \<in> set (pg_calls p) \<and> (1 < cs_count s \<or> cs_in_loop s)) \<or> (f, f) \<in> (call_rel (pg_edges p))\<^sup>+" for f
    using scc_cycle_iff [where k = k, OF fin scc, of f] by (force simp: many_start_def)
  have closed: "?start \<subseteq> ?R" "set (repeating_entries (pg_entries p) ?R) \<subseteq> ?R"
      "call_rel (pg_edges p) `` ?R \<subseteq> ?R"
    using many_loop_closed [of ?start "pg_edges p" "pg_entries p"]
    by (auto simp: runs_more_than_once_def Let_def many_start_def)
  show ?thesis
  proof
    have "?start \<subseteq> Collect (runs_many p)"
      using start by (blast intro: runs_many.intros)
    moreover have "M \<subseteq> Collect (runs_many p) \<Longrightarrow> set (repeating_entries (pg_entries p) M) \<subseteq> Collect (runs_many p)" for M
      by (auto simp: repeating_entries_def intro: runs_many.intros)
    moreover have "call_rel (pg_edges p) `` Collect (runs_many p) \<subseteq> Collect (runs_many p)"
      by (auto intro: runs_many.callee)
    ultimately have "?R \<subseteq> Collect (runs_many p)"
      unfolding runs_more_than_once_def by (rule many_loop_least)
    then show "f \<in> ?R \<Longrightarrow> runs_many p f" by auto
    have entry: "(f, sp) \<in> set (pg_entries p) \<Longrightarrow> 1 < sp_sites sp \<or> sp_in_loop sp \<or> g \<in> sp_spawners sp \<and> g \<in> ?R \<Longrightarrow> f \<in> ?R" for f sp g
      using closed(2) by (force simp: repeating_entries_def)
    show "runs_many p f \<Longrightarrow> f \<in> ?R"
    proof (induction rule: runs_many.induct)
      case (spawned_often f sp)
      then show ?case by (meson entry)
    next
      case (spawner f sp g)
      then show ?case by (meson entry)
    qed (use start closed in blast)+
  qed
qed


lemma map_of_fold_entry:
  "map_of (fold (\<lambda>f m. bt_entry f {} (insert root) m) fs m) g =
     (if g \<in> set fs then Some (insert root (case map_of m g of None \<Rightarrow> {} | Some A \<Rightarrow> A)) else map_of m g)"
  by (induction fs arbitrary: m) (auto split: option.splits)

lemma thread_sets_fold:
  "map_of (fold (mark_reached edges) roots m) g =
     (let T = {t \<in> set roots. (t, g) \<in> (call_rel edges)\<^sup>*}
      in if T = {} then map_of m g
         else Some (T \<union> (case map_of m g of None \<Rightarrow> {} | Some A \<Rightarrow> A)))"
proof (induction roots arbitrary: m)
  case (Cons r roots)
  have "{t \<in> set (r # roots). (t, g) \<in> (call_rel edges)\<^sup>*} =
      (if (r, g) \<in> (call_rel edges)\<^sup>* then {r} else {}) \<union> {t \<in> set roots. (t, g) \<in> (call_rel edges)\<^sup>*}"
    by auto
  moreover have "map_of (mark_reached edges r m) g = (if (r, g) \<in> (call_rel edges)\<^sup>*
      then Some (insert r (case map_of m g of None \<Rightarrow> {} | Some A \<Rightarrow> A)) else map_of m g)"
    by (simp add: mark_reached_def map_of_fold_entry) (simp add: reach_eq)
  ultimately show ?case by (auto simp: Cons.IH Let_def split: option.splits)
qed simp

text \<open>The threads recorded for a function are exactly the roots, a thread entry or \<open>main\<close>, that reach
  it over the call edges; a function no root reaches has no record.
\<close>

theorem thread_sets_exact:
  "map_of (thread_sets p) f =
     (let T = {t \<in> set (thread_roots p). (t, f) \<in> (call_rel (pg_edges p))\<^sup>*}
      in if T = {} then None else Some T)"
  by (simp add: thread_sets_def thread_sets_fold Let_def)

section \<open>A program for the witnesses\<close>

text \<open>
  \<open>main\<close> spawns \<open>worker\<close> once and calls \<open>init\<close>; \<open>worker\<close> calls \<open>walk\<close>, which calls itself and spawns
  \<open>helper\<close>.
\<close>

definition demo_program :: program where
  "demo_program = program_default\<lparr>
     pg_entries := [(''helper'', spawn_default\<lparr>sp_sites := 1, sp_spawners := {''walk''}\<rparr>),
                    (''worker'', spawn_default\<lparr>sp_sites := 1, sp_spawners := {''main''}\<rparr>)],
     pg_edges := [(''main'', {''init''}), (''walk'', {''walk''}), (''worker'', {''walk''})],
     pg_calls := [(''init'', \<lparr>cs_count = 1, cs_in_loop = False\<rparr>),
                  (''walk'', \<lparr>cs_count = 1, cs_in_loop = False\<rparr>)],
     pg_defined := {''helper'', ''init'', ''main'', ''walk'', ''worker''},
     pg_spawn_calls := 2\<rparr>"

definition demo_kosaraju :: "call_graph \<Rightarrow> string list list" where
  "demo_kosaraju g = map (\<lambda>v. [v]) (fst g)"

lemma demo_program_graph:
  "edge_graph (pg_edges demo_program) =
     ([''init'', ''main'', ''walk'', ''worker''], [(''main'', ''init''), (''walk'', ''walk''), (''worker'', ''walk'')])"
  by code_simp

lemma demo_program_scc:
  "is_scc_partition (edge_graph (pg_edges demo_program)) (demo_kosaraju (edge_graph (pg_edges demo_program)))"
proof -
  let ?E = "{(''main'', ''init''), (''walk'', ''walk''), (''worker'', ''walk'')}"
  have path: "(u, v) \<in> ?E\<^sup>* \<Longrightarrow> u = v \<or> u \<in> {''main'', ''worker''} \<and> v \<in> {''init'', ''walk''}" for u v
    by (induction rule: rtrancl_induct) auto
  have "mutually_reachable [(''main'', ''init''), (''walk'', ''walk''), (''worker'', ''walk'')] u v \<longleftrightarrow> u = v" for u v
    using path [of u v] path [of v u] by (auto simp: mutually_reachable_def)
  then show ?thesis
    by (simp add: demo_program_graph is_scc_partition_def demo_kosaraju_def)
qed

theorem runs_more_than_once_exact_witness:
  "''helper'' \<in> runs_more_than_once demo_kosaraju demo_program"
proof -
  have "ordered (pg_edges demo_program)" by (simp add: ordered_def demo_program_def)
  then have fin: "finite_edges (pg_edges demo_program)"
    by (simp add: finite_edges_def demo_program_def)
  have edge: "(''walk'', ''walk'') \<in> call_rel (pg_edges demo_program)"
    unfolding edge_graph_rel(1) [OF fin, symmetric] demo_program_graph by simp
  have helper: "(''helper'', spawn_default\<lparr>sp_sites := 1, sp_spawners := {''walk''}\<rparr>) \<in> set (pg_entries demo_program)"
    by (simp add: demo_program_def)
  have "runs_many demo_program ''walk''"
    using edge by (auto intro: runs_many.recursive)
  then have "runs_many demo_program ''helper''"
    by (intro runs_many.spawner [OF helper]) simp_all
  then show ?thesis
    using runs_more_than_once_exact [where k = demo_kosaraju and p = demo_program and f = "''helper''", OF fin demo_program_scc]
    by simp
qed

end
