(* ===== verification/Actions.thy ===== *)
theory Actions
  imports Survey
begin

text \<open>
  What one line does, in source order (src/src/mcp/concurrency.rs, \<open>actions_on_line\<close> and its helpers):
  lock operations, thread creation, accesses to memory zones, braces, calls and returns. Whether an
  identifier is written is decided by a loop over the suffixes after it; that loop need not end, so it
  is a partial function and its not returning is \<open>None\<close> here and in everything built on it.
\<close>

section \<open>Is the identifier written?\<close>

definition matching_bracket :: "string \<Rightarrow> nat option" where
  "matching_bracket rest =
     (if \<not> starts_with rest ''['' then None
      else match_from (CHR ''['') (CHR '']'') 0 0 rest)"

definition step_suffix :: "string \<Rightarrow> string" where
  "step_suffix rest =
     (case matching_bracket rest of
        Some close \<Rightarrow> trim_start (drop (close + 1) rest)
      | None \<Rightarrow>
          (let skipped = trim_start (dropWhile (\<lambda>c. c \<in> set ''.->'') rest);
               tail = length (takeWhile is_tail skipped)
           in if tail = 0 then skipped else trim_start (drop tail skipped)))"

definition has_suffix :: "string \<Rightarrow> bool" where
  "has_suffix rest \<longleftrightarrow> starts_with rest ''['' \<or> starts_with rest ''.'' \<or> starts_with rest ''->''"

partial_function (option) suffix_loop :: "string \<Rightarrow> string option" where
  [code]: "suffix_loop rest = (if has_suffix rest then suffix_loop (step_suffix rest) else Some rest)"

definition assignment_operators :: "string list" where
  "assignment_operators = [''+'', ''-'', ''*'', ''/'', ''%'', ''&'', ''|'', ''^'', ''<<'', ''>>'']"

definition is_written :: "string \<Rightarrow> nat \<Rightarrow> nat \<Rightarrow> bool option" where
  "is_written line start stop =
     (let lead = trim_end (take start line)
      in if ends_with lead ''++'' \<or> ends_with lead ''--'' then Some True
         else map_option (\<lambda>rest.
             starts_with rest ''++'' \<or> starts_with rest ''--'' \<or>
             list_ex (\<lambda>oper. starts_with rest (oper @ ''='')) assignment_operators \<or>
             (starts_with rest ''='' \<and> \<not> starts_with rest ''==''))
           (suffix_loop (trim_start (drop stop line))))"

section \<open>Actions\<close>

record call_at =
  at_name :: string
  at_start :: nat
  at_open :: nat
  at_end :: nat

datatype action =
    LockAct lock_api_row string
  | CreateAct string
  | JoinAct
  | AccessAct string string
  | OpenAct
  | CloseAct
  | CallAct call_at
  | ReturnAct

definition modelled_ranges :: "call_site list \<Rightarrow> (nat \<times> nat) list" where
  "modelled_ranges found =
     map (\<lambda>c. (ca_start c, ca_end c)) (filter (\<lambda>c. is_modelled (ca_name c)) found)"

type_synonym zones = "string \<Rightarrow> (string \<times> bool) option"

definition first_zone :: "token list \<Rightarrow> nat \<Rightarrow> nat \<Rightarrow> zones \<Rightarrow> nat option" where
  "first_zone tokens lo hi zones =
     map_option fst (find (\<lambda>(start, nm). lo \<le> start \<and> start < hi \<and> zones nm \<noteq> None) tokens)"

definition atomic_target :: "token list \<Rightarrow> zones \<Rightarrow> call_site \<Rightarrow> (nat, string) kv \<Rightarrow> (nat, string) kv" where
  "atomic_target tokens zones call targets =
     (case (atomic_access (ca_name call), ca_args call) of
        (Some kind, first # args) \<Rightarrow>
          (let second_at = ca_open call + 1 + length first + 1;
               t1 = (case first_zone tokens (ca_open call + 1) (second_at - 1) zones of
                       None \<Rightarrow> targets | Some start \<Rightarrow> bt_insert start kind targets)
           in (case args of
                 [] \<Rightarrow> t1
               | arg # _ \<Rightarrow>
                   if \<not> writes_expected (ca_name call) then t1
                   else (case first_zone tokens second_at (second_at + length arg) zones of
                           None \<Rightarrow> t1 | Some start \<Rightarrow> bt_insert start ''WRITE'' t1)))
      | _ \<Rightarrow> targets)"

definition atomic_targets :: "token list \<Rightarrow> call_site list \<Rightarrow> zones \<Rightarrow> string set \<Rightarrow> (nat, string) kv" where
  "atomic_targets tokens found zones defined =
     fold (atomic_target tokens zones) (filter (\<lambda>c. ca_name c \<notin> defined) found) []"

definition plain_kind :: "string \<Rightarrow> nat \<Rightarrow> string \<Rightarrow> bool \<Rightarrow> string option" where
  "plain_kind line start nm atomic =
     map_option (\<lambda>written. case (written, atomic) of
         (True, False) \<Rightarrow> ''WRITE''
       | (False, False) \<Rightarrow> ''READ''
       | (True, True) \<Rightarrow> ''ATOMIC_WRITE''
       | (False, True) \<Rightarrow> ''ATOMIC_READ'')
       (is_written line start (start + length nm))"

fun statement_end_from :: "int \<Rightarrow> nat \<Rightarrow> string \<Rightarrow> nat" where
  "statement_end_from d i [] = i"
| "statement_end_from d i (c # cs) =
     (let d' = depth_step (CHR ''('') (CHR '')'') d c
      in if d' \<le> 0 \<and> c \<in> set '';}'' then i else statement_end_from d' (i + 1) cs)"

definition statement_end :: "string \<Rightarrow> nat \<Rightarrow> nat" where
  "statement_end line start = statement_end_from 0 start (drop start line)"

definition call_action :: "call_site \<Rightarrow> (nat \<times> action) option" where
  "call_action call =
     (if ca_name call = ''pthread_join'' then Some (ca_start call, JoinAct)
      else if ca_name call = ''pthread_create'' then
        (if length (ca_args call) \<le> 2 then None
         else map_option (\<lambda>entry. (ca_start call, CreateAct entry)) (entry_function (ca_args call ! 2)))
      else (case lock_api (ca_name call) of
          None \<Rightarrow> None
        | Some row \<Rightarrow>
            Some (ca_start call, LockAct row
              (case la_arg row of
                 None \<Rightarrow> atomic_section
               | Some at \<Rightarrow>
                   if at < length (ca_args call) then lock_expression (ca_args call ! at)
                   else ''<unknown>''))))"

definition call_actions :: "string set \<Rightarrow> call_site \<Rightarrow> (nat \<times> action) list" where
  "call_actions defined call =
     (case call_action call of None \<Rightarrow> [] | Some a \<Rightarrow> [a]) @
     (if ca_name call \<in> defined \<and> \<not> is_modelled (ca_name call)
      then [(ca_end call, CallAct \<lparr>at_name = ca_name call, at_start = ca_start call,
               at_open = ca_open call, at_end = ca_end call\<rparr>)]
      else [])"

text \<open>An identifier's action: the outer option is the loop that never returns.\<close>

definition token_action ::
    "string \<Rightarrow> zones \<Rightarrow> (nat \<times> nat) list \<Rightarrow> (nat, string) kv \<Rightarrow> token \<Rightarrow> (nat \<times> action) list option" where
  "token_action line zones covered atomic tok =
     (case tok of (start, nm) \<Rightarrow>
        if nm = ''return'' then Some [(statement_end line start, ReturnAct)]
        else if list_ex (\<lambda>(lo, hi). lo \<le> start \<and> start \<le> hi) covered then Some []
        else (case zones nm of
            None \<Rightarrow> Some []
          | Some (zone, atomic_zone) \<Rightarrow>
              map_option (\<lambda>kind. [(start, AccessAct kind zone)])
                (case map_of atomic start of
                   Some kind \<Rightarrow> Some kind
                 | None \<Rightarrow> plain_kind line start nm atomic_zone)))"

fun concat_opt :: "'a list option list \<Rightarrow> 'a list option" where
  "concat_opt [] = Some []"
| "concat_opt (None # xs) = None"
| "concat_opt (Some x # xs) = map_option ((@) x) (concat_opt xs)"

definition brace_actions :: "string \<Rightarrow> (nat \<times> action) list" where
  "brace_actions line =
     concat (map (\<lambda>(i, c). if c = CHR ''{'' then [(i, OpenAct)]
                           else if c = CHR ''}'' then [(i, CloseAct)] else [])
       (zip [0..<length line] line))"

definition actions_on_line :: "string \<Rightarrow> zones \<Rightarrow> string set \<Rightarrow> (nat \<times> action) list option" where
  "actions_on_line line zones defined =
     (let tokens = identifiers line; found = calls_among line tokens;
          covered = modelled_ranges found;
          atomic = atomic_targets tokens found zones defined
      in map_option (\<lambda>accesses. sort_key fst (concat (map (call_actions defined) found) @ accesses @ brace_actions line))
           (concat_opt (map (token_action line zones covered atomic) tokens)))"

section \<open>When the suffix loop returns\<close>

text \<open>
  A subscript whose bracket does not close on its line is never stepped over: \<open>step_suffix\<close> gives the
  same text back, and the loop asks again. Everything else gets shorter at each step.
\<close>

definition unclosed_subscript :: "string \<Rightarrow> bool" where
  "unclosed_subscript rest \<longleftrightarrow> starts_with rest ''['' \<and> matching_bracket rest = None"

lemma ws_prefix_visible:
  "is_tail c \<or> c \<in> set ''[.->=+'' \<Longrightarrow> ws_prefix (c # s) = None"
proof -
  assume c: "is_tail c \<or> c \<in> set ''[.->=+''"
  have "list_all (\<lambda>w. w \<noteq> [] \<and> \<not> is_tail (hd w) \<and> hd w \<notin> set ''[.->=+'') ws_encodings"
    by code_simp
  with c have "w \<in> set ws_encodings \<Longrightarrow> \<not> prefix w (c # s)" for w
    by (cases w) (auto simp: list_all_iff)
  then show ?thesis by (auto simp: ws_prefix_def find_None_iff)
qed

lemma trim_start_visible: "is_tail c \<or> c \<in> set ''[.->=+'' \<Longrightarrow> trim_start (c # s) = c # s"
  by (subst trim_start.simps) (simp add: ws_prefix_visible)

lemma starts_with_Cons: "starts_with s (c # cs) \<longleftrightarrow> (\<exists>t. s = c # t \<and> starts_with t cs)"
  by (cases s) (auto simp: starts_with_def)

lemma starts_with_Nil [simp]: "starts_with s []"
  by (simp add: starts_with_def)

lemma step_suffix_unclosed: "unclosed_subscript rest \<Longrightarrow> step_suffix rest = rest"
  by (auto simp: unclosed_subscript_def step_suffix_def starts_with_Cons trim_start_visible
      is_tail_def ascii_defs Let_def)

lemma step_suffix_shorter:
  assumes "has_suffix rest" "\<not> unclosed_subscript rest"
  shows "length (step_suffix rest) < length rest"
proof (cases "matching_bracket rest")
  case (Some close)
  then have "close < length rest"
    by (auto simp: matching_bracket_def split: if_splits dest: match_from_range)
  with Some length_trim_start [of "drop (close + 1) rest"] show ?thesis
    by (simp add: step_suffix_def)
next
  case None
  with assms obtain c t where rest: "rest = c # t" "c \<in> set ''.->''"
    by (auto simp: has_suffix_def unclosed_subscript_def starts_with_Cons)
  define skipped where "skipped = trim_start (dropWhile (\<lambda>c. c \<in> set ''.->'') rest)"
  have "length skipped \<le> length (dropWhile (\<lambda>c. c \<in> set ''.->'') t)"
    using rest length_trim_start unfolding skipped_def by simp
  also have "\<dots> \<le> length t" by (rule length_dropWhile_le)
  finally have skipped: "length skipped \<le> length t" .
  have "length (trim_start (drop n skipped)) \<le> length t" for n
    using length_trim_start [of "drop n skipped"] skipped by simp
  moreover have "step_suffix rest = (let tail = length (takeWhile is_tail skipped)
      in if tail = 0 then skipped else trim_start (drop tail skipped))"
    by (simp only: step_suffix_def None option.case skipped_def Let_def)
  ultimately show ?thesis
    using rest(1) skipped by (simp add: Let_def less_Suc_eq_le)
qed

lemma suffix_loop_stuck: "suffix_loop rest = Some r \<Longrightarrow> \<not> unclosed_subscript rest"
proof (rule suffix_loop.raw_induct [where P = "\<lambda>rest r. \<not> unclosed_subscript rest"])
  fix f rest r
  assume IH: "\<And>rest r. f rest = Some r \<Longrightarrow> \<not> unclosed_subscript rest"
    and body: "(if has_suffix rest then f (step_suffix rest) else Some rest) = Some r"
  show "\<not> unclosed_subscript rest"
  proof
    assume u: "unclosed_subscript rest"
    then have "has_suffix rest" by (simp add: unclosed_subscript_def has_suffix_def)
    with body u have "f rest = Some r" by (simp add: step_suffix_unclosed)
    with IH u show False by blast
  qed
qed

text \<open>The steps the loop takes, and the text it ends in, when it ends.\<close>

inductive suffix_chain :: "string \<Rightarrow> string \<Rightarrow> bool" where
  here: "suffix_chain rest rest"
| step: "has_suffix rest \<Longrightarrow> \<not> unclosed_subscript rest \<Longrightarrow> suffix_chain (step_suffix rest) r \<Longrightarrow> suffix_chain rest r"

lemma suffix_chain_iff:
  "suffix_chain rest r \<longleftrightarrow>
     r = rest \<or> (has_suffix rest \<and> \<not> unclosed_subscript rest \<and> suffix_chain (step_suffix rest) r)"
  by (subst suffix_chain.simps) blast

lemma suffix_loop_None_iff:
  "suffix_loop rest = None \<longleftrightarrow> (\<exists>r. suffix_chain rest r \<and> unclosed_subscript r)"
proof (induction "length rest" arbitrary: rest rule: less_induct)
  case less
  consider "\<not> has_suffix rest" | "unclosed_subscript rest" | "has_suffix rest" "\<not> unclosed_subscript rest"
    by blast
  then show ?case
  proof cases
    case 1
    then have "suffix_loop rest = Some rest" by (simp add: suffix_loop.simps)
    moreover from 1 have "\<not> unclosed_subscript rest" by (simp add: unclosed_subscript_def has_suffix_def)
    ultimately show ?thesis using 1 by (metis suffix_chain_iff option.distinct(1))
  next
    case 2
    with suffix_loop_stuck [of rest] have "suffix_loop rest = None" by (cases "suffix_loop rest") auto
    with 2 show ?thesis using suffix_chain.here by blast
  next
    case 3
    then have "suffix_loop rest = suffix_loop (step_suffix rest)" by (simp add: suffix_loop.simps)
    moreover have "(\<exists>r. suffix_chain rest r \<and> unclosed_subscript r) \<longleftrightarrow>
        (\<exists>r. suffix_chain (step_suffix rest) r \<and> unclosed_subscript r)"
      using 3 by (metis suffix_chain_iff)
    ultimately show ?thesis using less.hyps [OF step_suffix_shorter [OF 3]] by simp
  qed
qed

lemma concat_opt_None: "concat_opt xs = None \<longleftrightarrow> None \<in> set xs"
  by (induction xs rule: concat_opt.induct) auto

text \<open>
  An identifier whose reading never ends: a plain access to a zone, followed, after suffixes that are
  stepped over, by a subscript that does not close on the line.
\<close>

definition hanging_token :: "string \<Rightarrow> zones \<Rightarrow> (nat \<times> nat) list \<Rightarrow> (nat, string) kv \<Rightarrow> token \<Rightarrow> bool" where
  "hanging_token line zones covered atomic tok \<longleftrightarrow>
     (case tok of (start, nm) \<Rightarrow>
        nm \<noteq> ''return'' \<and> zones nm \<noteq> None \<and> map_of atomic start = None \<and>
        \<not> list_ex (\<lambda>(lo, hi). lo \<le> start \<and> start \<le> hi) covered \<and>
        \<not> ends_with (trim_end (take start line)) ''++'' \<and>
        \<not> ends_with (trim_end (take start line)) ''--'' \<and>
        (\<exists>r. suffix_chain (trim_start (drop (start + length nm) line)) r \<and> unclosed_subscript r))"

lemma token_action_None:
  "token_action line zones covered atomic tok = None \<longleftrightarrow> hanging_token line zones covered atomic tok"
  by (cases tok)
    (auto simp: token_action_def hanging_token_def plain_kind_def is_written_def Let_def
      suffix_loop_None_iff [symmetric] split: option.splits prod.splits)

text \<open>C25: reading the actions of a line returns exactly when no plain access on it is followed by a
  subscript whose bracket does not close on the line; such a line, an array index broken over two
  lines, is read for ever.
\<close>

theorem line_scan_returns_iff:
  "actions_on_line line zones defined \<noteq> None \<longleftrightarrow>
     (let tokens = identifiers line; found = calls_among line tokens
      in \<not> list_ex (hanging_token line zones (modelled_ranges found)
           (atomic_targets tokens found zones defined)) tokens)"
  by (simp add: actions_on_line_def Let_def concat_opt_None list_ex_iff image_iff
      token_action_None [symmetric]) (metis option.exhaust option.distinct(1))

end
