(* ===== verification/Walk.thy ===== *)
theory Walk
  imports Actions
begin

text \<open>
  The stack of locksets a walk over a file keeps (src/src/mcp/concurrency.rs, \<open>Walk\<close> and \<open>apply_lock\<close>):
  entering and leaving blocks, paths that leave, break, continue or jump, and the graph of lock orders.
  A \<open>Vec\<close> used as a stack is a list with its last element first.
\<close>

section \<open>Locksets and exits\<close>

record held =
  hd_name :: string
  hd_shared :: bool

datatype body = PlainBody | LoopBody | SwitchBody

record frame =
  fr_held :: "held list"
  fr_body :: body
  fr_exits :: "held list list"

definition frame_default :: frame where
  "frame_default = \<lparr>fr_held = [], fr_body = PlainBody, fr_exits = []\<rparr>"

datatype exit_kind = FallThrough | Leaves | Breaks | Continues | Jumps

definition no_return :: "string list" where
  "no_return =
     [''exit'', ''_exit'', ''_Exit'', ''abort'', ''pthread_exit'', ''longjmp'', ''siglongjmp'',
      ''__assert_fail'']"

fun last_statement_from :: "int \<Rightarrow> string \<Rightarrow> string \<Rightarrow> string" where
  "last_statement_from d found [] = found"
| "last_statement_from d found (c # cs) =
     (let d' = depth_step (CHR ''('') (CHR '')'') d c
      in last_statement_from d' (if d' = 0 \<and> c \<in> set '';{}'' then cs else found) cs)"

definition last_statement :: "string \<Rightarrow> string" where
  "last_statement s = trim (last_statement_from 0 s s)"

definition strip_suffix :: "string \<Rightarrow> string \<Rightarrow> string option" where
  "strip_suffix p s = (if suffix p s then Some (take (length s - length p) s) else None)"

definition block_exit :: "string \<Rightarrow> exit_kind" where
  "block_exit s =
     (case strip_suffix '';'' (trim_end s) of
        None \<Rightarrow> FallThrough
      | Some body \<Rightarrow>
          (let statement = last_statement body
           in if starts_with_word statement ''return'' then Leaves
              else if starts_with_word statement ''goto'' then Jumps
              else if starts_with_word statement ''break'' then Breaks
              else if starts_with_word statement ''continue'' then Continues
              else if list_ex (\<lambda>nm. starts_with_word statement nm \<and>
                       starts_with (trim_start (drop (length nm) statement)) ''('') no_return
                then Leaves
              else FallThrough))"

definition opened_body :: "string \<Rightarrow> body" where
  "opened_body h =
     (let s = last_statement h;
          statement = (case strip_prefix ''else'' s of None \<Rightarrow> s | Some t \<Rightarrow> trim_start t)
      in if opens_loop statement then LoopBody
         else if starts_with_word statement ''switch'' then SwitchBody else PlainBody)"

fun lands_at :: "exit_kind \<Rightarrow> body \<Rightarrow> bool" where
  "lands_at Breaks b = (b \<noteq> PlainBody)"
| "lands_at Continues b = (b = LoopBody)"
| "lands_at _ b = False"

definition is_label :: "string \<Rightarrow> bool" where
  "is_label raw =
     (let line = trim_start raw; nm = takeWhile is_tail line;
          rest = trim_start (drop (length nm) line)
      in is_identifier nm \<and> nm \<notin> {''default'', ''case''} \<and>
         starts_with rest '':'' \<and> \<not> starts_with rest ''::'')"

definition intersect :: "held list \<Rightarrow> held list \<Rightarrow> held list" where
  "intersect outer path = filter (\<lambda>lock. lock \<in> set path) outer"

section \<open>The walk\<close>

record walk =
  wk_stack :: "frame list"
  wk_locals :: "string set"
  wk_gotos :: "held list list"
  wk_previous :: string
  wk_previous_conditional :: bool

definition walk_start :: walk where
  "walk_start =
     \<lparr>wk_stack = [frame_default], wk_locals = {}, wk_gotos = [], wk_previous = [],
      wk_previous_conditional = False\<rparr>"

definition top_held :: "walk \<Rightarrow> held list" where
  "top_held w = (case wk_stack w of [] \<Rightarrow> [] | f # _ \<Rightarrow> fr_held f)"

text \<open>\<open>Walk::held\<close>: a change of the innermost lockset, which exists for every walk the code makes.\<close>

definition set_held :: "held list \<Rightarrow> walk \<Rightarrow> walk" where
  "set_held h w =
     w\<lparr>wk_stack := (case wk_stack w of
         [] \<Rightarrow> [frame_default\<lparr>fr_held := h\<rparr>]
       | f # fs \<Rightarrow> f\<lparr>fr_held := h\<rparr> # fs)\<rparr>"

definition enter :: "body \<Rightarrow> walk \<Rightarrow> walk" where
  "enter b w =
     w\<lparr>wk_stack := \<lparr>fr_held = top_held w, fr_body = b, fr_exits = []\<rparr> # wk_stack w\<rparr>"

definition open_block :: "string \<Rightarrow> walk \<Rightarrow> walk" where
  "open_block lead w = enter (opened_body (if trim lead = [] then wk_previous w else lead)) w"

fun push_exit :: "exit_kind \<Rightarrow> held list \<Rightarrow> frame list \<Rightarrow> frame list" where
  "push_exit ex h [] = []"
| "push_exit ex h (f # fs) =
     (if lands_at ex (fr_body f) then f\<lparr>fr_exits := fr_exits f @ [h]\<rparr> # fs
      else f # push_exit ex h fs)"

definition meet_top :: "held list list \<Rightarrow> frame list \<Rightarrow> frame list" where
  "meet_top paths fs =
     (case fs of [] \<Rightarrow> []
      | f # rest \<Rightarrow> f\<lparr>fr_held := foldl intersect (fr_held f) paths\<rparr> # rest)"

definition leave :: "exit_kind \<Rightarrow> walk \<Rightarrow> held list option \<times> walk" where
  "leave ex0 w =
     (case wk_stack w of
        inner # outer # rest \<Rightarrow>
          (let ex = (if lands_at ex0 (fr_body inner) then FallThrough else ex0);
               stack = outer # rest;
               landed = list_ex (\<lambda>f. lands_at ex (fr_body f)) stack;
               w1 = (if ex = Leaves then w\<lparr>wk_stack := stack\<rparr>
                     else if ex = Jumps then
                       w\<lparr>wk_stack := stack, wk_gotos := wk_gotos w @ [fr_held inner]\<rparr>
                     else if landed then w\<lparr>wk_stack := push_exit ex (fr_held inner) stack\<rparr>
                     else w\<lparr>wk_stack := meet_top [fr_held inner] stack\<rparr>)
           in (Some (fr_held inner), w1\<lparr>wk_stack := meet_top (fr_exits inner) (wk_stack w1)\<rparr>))
      | _ \<Rightarrow> (None, w))"

definition close_block :: "string \<Rightarrow> walk \<Rightarrow> held list option \<times> walk" where
  "close_block lead w =
     leave (if trim lead \<noteq> [] then block_exit lead
            else if \<not> wk_previous_conditional w then block_exit (wk_previous w)
            else FallThrough) w"

definition land :: "walk \<Rightarrow> walk" where
  "land w = w\<lparr>wk_stack := meet_top (wk_gotos w) (wk_stack w)\<rparr>"

definition lockset :: "bool \<Rightarrow> walk \<Rightarrow> string list \<times> string list" where
  "lockset atomic_function w =
     (let names = map hd_name (top_held w)
      in (if atomic_function \<and> atomic_section \<notin> set names then atomic_section # names else names,
          map hd_name (filter hd_shared (top_held w))))"

section \<open>Lock orders\<close>

record site =
  st_file :: string
  st_line :: nat
  st_threads :: "string list"

definition sites_per_edge :: nat where
  "sites_per_edge = 16"

record edge_sites =
  es_sites :: "(string \<times> nat) list"
  es_count :: nat
  es_threads :: "string set"
  es_exclusive :: bool

definition edge_default :: edge_sites where
  "edge_default = \<lparr>es_sites = [], es_count = 0, es_threads = {}, es_exclusive = False\<rparr>"

record lock_graph =
  lg_edges :: "(string \<times> string, edge_sites) kv"
  lg_cap :: nat
  lg_sites_dropped :: nat
  lg_writers :: "string set"

definition lock_graph_empty :: "nat \<Rightarrow> lock_graph" where
  "lock_graph_empty cap = \<lparr>lg_edges = [], lg_cap = cap, lg_sites_dropped = 0, lg_writers = {}\<rparr>"

definition take_lock :: "string \<Rightarrow> bool \<Rightarrow> lock_graph \<Rightarrow> lock_graph" where
  "take_lock lock shared g =
     (if lg_cap g = 0 \<or> shared then g else g\<lparr>lg_writers := insert lock (lg_writers g)\<rparr>)"

definition record_edge :: "string \<Rightarrow> string \<Rightarrow> bool \<Rightarrow> site \<Rightarrow> lock_graph \<Rightarrow> lock_graph" where
  "record_edge outer lock shared st g =
     (if lg_cap g \<le> length (lg_edges g) \<and> map_of (lg_edges g) (outer, lock) = None
      then g\<lparr>lg_sites_dropped := lg_sites_dropped g + 1\<rparr>
      else g\<lparr>lg_edges := bt_entry (outer, lock) edge_default
               (\<lambda>e. \<lparr>es_sites = (if length (es_sites e) < sites_per_edge
                                  then es_sites e @ [(st_file st, st_line st)] else es_sites e),
                     es_count = es_count e + 1,
                     es_threads = es_threads e \<union> set (st_threads st),
                     es_exclusive = es_exclusive e \<or> \<not> shared\<rparr>) (lg_edges g)\<rparr>)"

text \<open>The newest acquisition of the name goes; the flag says whether there was one.\<close>

definition release :: "string \<Rightarrow> held list \<Rightarrow> bool \<times> held list" where
  "release lock h =
     (if lock \<in> hd_name ` set h
      then (let rh = rev h; older = takeWhile (\<lambda>l. hd_name l \<noteq> lock) rh
            in (True, rev (older @ drop (length older + 1) rh)))
      else (False, h))"

definition record_orders :: "held list \<Rightarrow> string \<Rightarrow> (held \<Rightarrow> bool) \<Rightarrow> site \<Rightarrow> lock_graph \<Rightarrow> lock_graph" where
  "record_orders outers lock shared st g =
     fold (\<lambda>outer. record_edge (hd_name outer) lock (shared outer) st) outers g"

text \<open>Whether the lock was released without being held, the new lockset and the new graph.\<close>

definition apply_lock ::
    "lock_api_row \<Rightarrow> string \<Rightarrow> held list \<Rightarrow> string list \<Rightarrow> site \<Rightarrow> lock_graph \<Rightarrow>
     bool \<times> held list \<times> lock_graph" where
  "apply_lock row lock h inherited st g =
     (let shared = (la_mode row = Shared);
          fresh = filter (\<lambda>outer. hd_name outer \<notin> set inherited)
      in case la_op row of
           Release \<Rightarrow> (case release lock h of (found, h') \<Rightarrow> (\<not> found, h', g))
         | Try \<Rightarrow> (False, h, take_lock lock shared g)
         | Acquire \<Rightarrow>
             (False, h @ [\<lparr>hd_name = lock, hd_shared = shared\<rparr>],
              record_orders (fresh h) lock (\<lambda>outer. hd_shared outer \<and> shared) st (take_lock lock shared g))
         | Wait \<Rightarrow>
             (False, h,
              if lock \<in> hd_name ` set h
              then record_orders (fresh (filter (\<lambda>outer. hd_name outer \<noteq> lock) h)) lock (\<lambda>_. False) st
                     (take_lock lock False g)
              else take_lock lock False g))"

section \<open>Invariants of the stack\<close>

text \<open>
  The stack never loses its last frame, and the frames only ever lose locks between a block's opening
  and its close: this is the must-lockset rule.
\<close>

lemma meet_top_Nil [simp]: "meet_top ps [] = []"
  by (simp add: meet_top_def)

lemma set_intersect [simp]: "set (intersect a b) = set a \<inter> set b"
  by (auto simp: intersect_def)

lemma set_foldl_intersect: "set (foldl intersect h ps) = set h \<inter> (\<Inter>p \<in> set ps. set p)"
  by (induction ps arbitrary: h) auto

lemma foldl_intersect_filter: "\<exists>P. foldl intersect h ps = filter P h"
proof (induction ps arbitrary: h)
  case Nil
  have "foldl intersect h [] = filter (\<lambda>_. True) h" by simp
  then show ?case by blast
next
  case (Cons p ps)
  obtain P where "foldl intersect (intersect h p) ps = filter P (intersect h p)" using Cons by blast
  then have "foldl intersect h (p # ps) = filter (\<lambda>l. l \<in> set p \<and> P l) h"
    by (simp add: intersect_def)
  then show ?case by blast
qed

lemma length_push_exit [simp]: "length (push_exit ex h fs) = length fs"
  by (induction fs) auto

lemma length_meet_top [simp]: "length (meet_top ps fs) = length fs"
  by (cases fs) (auto simp: meet_top_def)

lemma length_leave:
  "length (wk_stack (snd (leave ex w))) = (if length (wk_stack w) \<le> 1 then length (wk_stack w) else length (wk_stack w) - 1)"
  by (auto simp: leave_def Let_def split: list.splits)

end
