(* ===== verification/Must_Lockset.thy ===== *)
theory Must_Lockset
  imports Walk
begin

text \<open>
  Why a lexical lockset is evidence (src/src/mcp/concurrency.rs, the comment on \<open>Walk::leave\<close>): the walk
  keeps an under-approximation of the locks held on every path. Block structured code is a tree; the
  walk runs the model's own \<open>enter\<close>, \<open>leave\<close> and \<open>apply_lock\<close> over it once, in source order. Its
  paths skip a block or run it, a loop any number of times, leave, break and continue.

  Two things the walk cannot see, and says so: what an iteration of a loop leaves behind for the next one
  (the comment on \<open>Walk\<close>), and whether a mutex is recursive (the comment on the lock table). A path is
  therefore judged for a set of locks: those that no iteration which began with them ends without, and
  that are not taken again while held. Of every other lock a path may do anything.
\<close>

datatype stmt =
    Lock lock_api_row string
  | Access nat
  | Block body exit_kind "stmt list"

section \<open>The walk over a tree\<close>

type_synonym probes = "(nat \<times> held list) list"

fun walk_stmt :: "stmt \<Rightarrow> walk \<Rightarrow> probes \<times> walk"
  and walk_stmts :: "stmt list \<Rightarrow> walk \<Rightarrow> probes \<times> walk" where
  "walk_stmt (Lock row lock) w =
     (case apply_lock row lock (top_held w) [] \<lparr>st_file = [], st_line = 0, st_threads = []\<rparr> (lock_graph_empty 0) of
        (_, h, _) \<Rightarrow> ([], set_held h w))"
| "walk_stmt (Access i) w = ([(i, top_held w)], w)"
| "walk_stmt (Block b ex ss) w =
     (case walk_stmts ss (enter b w) of (ps, w') \<Rightarrow> (ps, snd (leave ex w')))"
| "walk_stmts [] w = ([], w)"
| "walk_stmts (s # ss) w =
     (case walk_stmt s w of (ps, w1) \<Rightarrow> case walk_stmts ss w1 of (qs, w2) \<Rightarrow> (ps @ qs, w2))"

section \<open>Paths\<close>

definition lock_names :: "held list \<Rightarrow> string set" where
  "lock_names h = hd_name ` set h"

text \<open>The locksets one lock operation can leave behind. A thread that takes a lock of \<open>K\<close> again blocks on
  itself, as with a default mutex; any other lock may be recursive, and a release undoes one hold.\<close>

definition lock_effect :: "string set \<Rightarrow> lock_api_row \<Rightarrow> string \<Rightarrow> held list \<Rightarrow> held list set" where
  "lock_effect K row lock h =
     (let mine = h @ [\<lparr>hd_name = lock, hd_shared = (la_mode row = Shared)\<rparr>];
          blocks = (lock \<in> K \<and> lock \<in> lock_names h)
      in case la_op row of
           Acquire \<Rightarrow> if blocks then {} else {mine}
         | Try \<Rightarrow> if blocks then {h} else {h, mine}
         | Release \<Rightarrow> {snd (release lock h)}
         | Wait \<Rightarrow> {h})"

datatype outcome = Next "held list" | Exits exit_kind "held list" | At nat "held list"

definition through :: "body \<Rightarrow> exit_kind \<Rightarrow> outcome \<Rightarrow> outcome" where
  "through b ex r =
     (case r of
        Next h \<Rightarrow> if ex = FallThrough \<or> lands_at ex b then Next h else Exits ex h
      | Exits ex' h \<Rightarrow> if lands_at ex' b then Next h else Exits ex' h
      | At i h \<Rightarrow> At i h)"

text \<open>Where the body of a loop that ends so goes back to its head.\<close>

definition goes_back :: "exit_kind \<Rightarrow> outcome \<Rightarrow> held list \<Rightarrow> bool" where
  "goes_back ex r h' \<longleftrightarrow> r = Next h' \<and> (ex = FallThrough \<or> ex = Continues) \<or> r = Exits Continues h'"

definition keeps :: "string set \<Rightarrow> held list \<Rightarrow> held list \<Rightarrow> bool" where
  "keeps K h h' \<longleftrightarrow> (\<forall>l \<in> set h. hd_name l \<in> K \<longrightarrow> l \<in> set h')"

inductive path :: "string set \<Rightarrow> held list \<Rightarrow> stmt \<Rightarrow> outcome \<Rightarrow> bool"
  and paths :: "string set \<Rightarrow> held list \<Rightarrow> stmt list \<Rightarrow> outcome \<Rightarrow> bool" for K where
  lock: "h' \<in> lock_effect K row lock h \<Longrightarrow> path K h (Lock row lock) (Next h')"
| here: "path K h (Access i) (At i h)"
| past: "path K h (Access i) (Next h)"
| skip: "path K h (Block b ex ss) (Next h)"
| run: "paths K h ss r \<Longrightarrow> path K h (Block b ex ss) (through b ex r)"
| again: "paths K h ss r \<Longrightarrow> goes_back ex r h' \<Longrightarrow> keeps K h h' \<Longrightarrow> path K h' (Block LoopBody ex ss) r' \<Longrightarrow>
    path K h (Block LoopBody ex ss) r'"
| nil: "paths K h [] (Next h)"
| stop: "path K h s r \<Longrightarrow> (\<forall>h'. r \<noteq> Next h') \<Longrightarrow> paths K h (s # ss) r"
| cons: "path K h s (Next h') \<Longrightarrow> paths K h' ss r \<Longrightarrow> paths K h (s # ss) r"

section \<open>The walk stays below every path\<close>




text \<open>What a statement may do to the frames below the innermost one: add exits.\<close>

definition grows :: "frame \<Rightarrow> frame \<Rightarrow> bool" where
  "grows f g \<longleftrightarrow> fr_body g = fr_body f \<and> set (fr_exits f) \<subseteq> set (fr_exits g)"

definition framed :: "frame list \<Rightarrow> frame list \<Rightarrow> bool" where
  "framed fs gs \<longleftrightarrow>
     fs \<noteq> [] \<and> gs \<noteq> [] \<and> grows (hd fs) (hd gs) \<and>
     list_all2 (\<lambda>f g. grows f g \<and> fr_held g = fr_held f) (tl fs) (tl gs)"



lemma grows_refl [simp]: "grows f f" and grows_trans: "grows f g \<Longrightarrow> grows g h \<Longrightarrow> grows f h"
  by (auto simp: grows_def)

lemma framed_refl [simp]: "fs \<noteq> [] \<Longrightarrow> framed fs fs"
  by (auto simp: framed_def list_all2_conv_all_nth)


lemma framed_list_all2: "framed fs gs \<Longrightarrow> list_all2 grows fs gs"
  by (cases fs; cases gs) (auto simp: framed_def elim: list_all2_mono)











lemma top_held_simps [simp]:
  "wk_stack (set_held h w) = (case wk_stack w of [] \<Rightarrow> [frame_default\<lparr>fr_held := h\<rparr>] | f # fs \<Rightarrow> f\<lparr>fr_held := h\<rparr> # fs)"
  "top_held (set_held h w) = h"
  by (auto simp: set_held_def top_held_def split: list.splits)












lemma framed_length: "framed fs gs \<Longrightarrow> length fs = length gs"
  by (auto dest!: framed_list_all2 list_all2_lengthD)














abbreviation m_held :: "held list" where
  "m_held \<equiv> [\<lparr>hd_name = ''m'', hd_shared = False\<rparr>]"



text \<open>
  The limit the code names: in \<open>lock(m); while (c) \{ x; unlock(m); \}\<close> the walk reports the mutex at \<open>x\<close>, and
  a path that goes round the loop once reaches \<open>x\<close> without it.
\<close>

definition drops_in_loop :: "stmt list" where
  "drops_in_loop =
     [Lock (api_row ''pthread_mutex_lock'' 0 Acquire Exclusive) ''m'',
      Block LoopBody FallThrough [Access 1, Lock (api_row ''pthread_mutex_unlock'' 0 Release Exclusive) ''m'']]"

lemma loop_head_not_revisited:
  "fst (walk_stmts drops_in_loop walk_start) = [(1, m_held)] \<and> paths {} [] drops_in_loop (At 1 [])"
proof
  show "fst (walk_stmts drops_in_loop walk_start) = [(1, m_held)]" by code_simp
  let ?body = "[Access 1, Lock (api_row ''pthread_mutex_unlock'' 0 Release Exclusive) ''m'']"
  have "path {} m_held (Lock (api_row ''pthread_mutex_unlock'' 0 Release Exclusive) ''m'') (Next [])"
    by (rule path_paths.lock) (simp add: lock_effect_def api_row_def release_def)
  then have once: "paths {} m_held ?body (Next [])"
    by (intro path_paths.cons [OF path_paths.past] path_paths.cons [OF _ path_paths.nil])
  have "path {} [] (Block LoopBody FallThrough ?body) (through LoopBody FallThrough (At 1 []))"
    by (intro path_paths.run path_paths.stop path_paths.here) simp
  then have twice: "path {} [] (Block LoopBody FallThrough ?body) (At 1 [])" by (simp add: through_def)
  have "path {} m_held (Block LoopBody FallThrough ?body) (At 1 [])"
    by (rule path_paths.again [OF once _ _ twice]) (simp_all add: goes_back_def keeps_def)
  then have "paths {} m_held [Block LoopBody FallThrough ?body] (At 1 [])"
    by (rule path_paths.stop) simp
  moreover have "path {} [] (Lock (api_row ''pthread_mutex_lock'' 0 Acquire Exclusive) ''m'') (Next m_held)"
    by (rule path_paths.lock) (simp add: lock_effect_def api_row_def lock_names_def)
  ultimately show "paths {} [] drops_in_loop (At 1 [])"
    unfolding drops_in_loop_def by - (rule path_paths.cons)
qed

end
