(* ===== verification/Emit.thy ===== *)
theory Emit
  imports Walk Errors
begin

text \<open>
  Emission (src/src/mcp/concurrency.rs): the walk over the lines of a file that yields events, lock
  orders and facts about functions, and the rounds of walks that compute lock summaries and entry
  locksets. The time limit is a clock: the number of times the deadline may still be asked about and
  answer that it has not passed. A walk that never returns is \<open>None\<close>.
\<close>

section \<open>Lock references and summaries\<close>

datatype lock_name = NamedLock string | ParamLock nat | OpaqueLock | UnknownLock

record summary =
  sm_acquired :: "(lock_name \<times> bool) list"
  sm_released :: "lock_name list"

definition summary_default :: summary where
  "summary_default = \<lparr>sm_acquired = [], sm_released = []\<rparr>"

record interproc =
  ip_summaries :: "(string, summary) kv"
  ip_entries :: "(string, held list) kv"

definition interproc_default :: interproc where
  "interproc_default = \<lparr>ip_summaries = [], ip_entries = []\<rparr>"

record facts =
  fc_returns :: "(string, held list) kv"
  fc_released :: "(string, string set) kv"
  fc_releases_unknown :: "string set"
  fc_sites :: "(string, held list) kv"
  fc_unresolved :: nat

definition facts_default :: facts where
  "facts_default = \<lparr>fc_returns = [], fc_released = [], fc_releases_unknown = {}, fc_sites = [], fc_unresolved = 0\<rparr>"

definition meet :: "string \<Rightarrow> held list \<Rightarrow> (string, held list) kv \<Rightarrow> (string, held list) kv" where
  "meet key path slot =
     bt_insert key (case map_of slot key of None \<Rightarrow> path | Some sofar \<Rightarrow> intersect sofar path) slot"

definition lock_summary_rounds :: nat where
  "lock_summary_rounds = 16"

definition lock_ref :: "string \<Rightarrow> string list \<Rightarrow> lock_name" where
  "lock_ref nm params =
     (let hits = filter (\<lambda>i. params ! i \<noteq> [] \<and> params ! i = nm) [0..<length params]
      in case hits of
           at # _ \<Rightarrow> ParamLock at
         | [] \<Rightarrow>
             (case identifiers nm of
                (_, lead) # _ \<Rightarrow>
                  if list_ex (\<lambda>p. p \<noteq> [] \<and> p = lead) params then OpaqueLock else NamedLock nm
              | [] \<Rightarrow> NamedLock nm))"

definition params_of :: "program \<Rightarrow> string \<Rightarrow> string list" where
  "params_of p f = (case map_of (pg_params p) f of None \<Rightarrow> [] | Some ps \<Rightarrow> ps)"

definition acquired_step :: "string list \<Rightarrow> held \<Rightarrow> (lock_name \<times> bool) list \<Rightarrow> (lock_name \<times> bool) list" where
  "acquired_step params h acc =
     (let named = lock_ref (hd_name h) params
      in if hd_name h \<noteq> ''<unknown>'' \<and> (named = OpaqueLock \<or> named \<notin> fst ` set acc)
         then acc @ [(named, hd_shared h)] else acc)"

definition released_step :: "string list \<Rightarrow> string \<Rightarrow> lock_name list \<Rightarrow> lock_name list" where
  "released_step params nm acc =
     (let named = lock_ref nm params
      in if named = OpaqueLock \<or> named \<notin> set acc then acc @ [named] else acc)"

definition summary_from :: "facts \<Rightarrow> program \<Rightarrow> string \<Rightarrow> summary" where
  "summary_from facts p f =
     (let params = params_of p f;
          acquired = fold (acquired_step params)
            (case map_of (fc_returns facts) f of None \<Rightarrow> [] | Some hs \<Rightarrow> hs) [];
          released = fold (released_step params)
            (case map_of (fc_released facts) f of None \<Rightarrow> [] | Some A \<Rightarrow> sorted_list_of_set A) []
      in \<lparr>sm_acquired = acquired,
          sm_released = (if f \<in> fc_releases_unknown facts \<and> UnknownLock \<notin> set released
                         then released @ [UnknownLock] else released)\<rparr>)"

definition summaries_from :: "facts \<Rightarrow> program \<Rightarrow> (string, summary) kv" where
  "summaries_from facts p =
     filter (\<lambda>(f, s). s \<noteq> summary_default)
       (map (\<lambda>f. (f, summary_from facts p f)) (sorted_list_of_set (pg_defined p)))"

definition entries_from :: "facts \<Rightarrow> program \<Rightarrow> (string, held list) kv" where
  "entries_from facts p =
     filter (\<lambda>(f, h). h \<noteq> [] \<and> f \<noteq> ''main'' \<and> map_of (pg_entries p) f = None \<and> f \<notin> pg_indirect p)
       (fc_sites facts)"

definition summary_of :: "(string, summary) kv \<Rightarrow> string \<Rightarrow> summary" where
  "summary_of m f = (case map_of m f of None \<Rightarrow> summary_default | Some s \<Rightarrow> s)"

definition widen_summary :: "summary \<Rightarrow> summary \<Rightarrow> summary" where
  "widen_summary prior after =
     \<lparr>sm_acquired = filter (\<lambda>h. h \<in> set (sm_acquired prior)) (sm_acquired after),
      sm_released = fold (\<lambda>named acc. if named \<in> set acc then acc else acc @ [named])
        (sm_released after) (sm_released prior)\<rparr>"

definition widen :: "(string, summary) kv \<Rightarrow> (string, summary) kv \<Rightarrow> (string, summary) kv" where
  "widen previous next_summaries =
     filter (\<lambda>(f, s). s \<noteq> summary_default)
       (map (\<lambda>f. (f, widen_summary (summary_of previous f) (summary_of next_summaries f)))
         (sorted_list_of_set (set (bt_keys previous) \<union> set (bt_keys next_summaries))))"

section \<open>Events\<close>

record event =
  ev_id :: string
  ev_threads :: "string list"
  ev_may_repeat :: bool
  ev_kind :: string
  ev_file :: string
  ev_line :: nat
  ev_function :: string
  ev_zone :: "string option"
  ev_lockset :: "string list"
  ev_read_locks :: "string list"
  ev_lock_mode :: "string option"

record sink =
  sk_events :: "event list"
  sk_total :: nat
  sk_limit :: nat

definition push_event :: "event \<Rightarrow> sink \<Rightarrow> sink" where
  "push_event e sk =
     (let total = sk_total sk + 1; named = e\<lparr>ev_id := ''E'' @ show_nat total\<rparr>
      in sk\<lparr>sk_total := total,
            sk_events := (if length (sk_events sk) < sk_limit sk then sk_events sk @ [named]
                          else sk_events sk)\<rparr>)"

record emission =
  em_sink :: "sink option"
  em_graph :: lock_graph
  em_unreleased :: "json list"
  em_facts :: facts

text \<open>\<open>Context\<close>, with the parts that do not change during a scan.\<close>

record scan_context =
  cx_program :: program
  cx_sets :: "(string, string set) kv"
  cx_repeat :: "string set"
  cx_unshared :: bool
  cx_interproc :: interproc

definition context_repeats :: "scan_context \<Rightarrow> string list \<Rightarrow> bool" where
  "context_repeats cx threads \<longleftrightarrow> list_ex (\<lambda>t. t \<in> cx_repeat cx) threads"

section \<open>Calls\<close>

definition argument_lock :: "string \<Rightarrow> call_at \<Rightarrow> nat \<Rightarrow> string set \<Rightarrow> string option" where
  "argument_lock line call at locals =
     (let args = split_top_level (slice (at_open call + 1) (at_end call) line)
      in if length args \<le> at then None
         else (let nm = lock_expression (args ! at)
               in if is_identifier nm \<and> nm \<notin> locals then Some nm else None))"

definition resolve_lock :: "string \<Rightarrow> call_at \<Rightarrow> string set \<Rightarrow> lock_name \<Rightarrow> string option" where
  "resolve_lock line call locals named =
     (case named of
        NamedLock nm \<Rightarrow> Some nm
      | ParamLock at \<Rightarrow> argument_lock line call at locals
      | OpaqueLock \<Rightarrow> None
      | UnknownLock \<Rightarrow> None)"

fun counted_lock :: "lock_name \<Rightarrow> bool" where
  "counted_lock (ParamLock at) = True"
| "counted_lock OpaqueLock = True"
| "counted_lock _ = False"

definition note_released :: "string \<Rightarrow> string \<Rightarrow> facts \<Rightarrow> facts" where
  "note_released caller lock fc = fc\<lparr>fc_released := bt_entry caller {} (insert lock) (fc_released fc)\<rparr>"

definition call_release ::
    "string \<Rightarrow> bool \<times> string option \<Rightarrow> walk \<times> emission \<Rightarrow> walk \<times> emission" where
  "call_release caller rel st =
     (case (rel, st) of ((param, lock), (w, out)) \<Rightarrow>
        (case lock of
           Some nm \<Rightarrow>
             (case release nm (top_held w) of (found, h) \<Rightarrow>
                (set_held h w,
                 if found then out else out\<lparr>em_facts := note_released caller nm (em_facts out)\<rparr>))
         | None \<Rightarrow>
             (set_held [] w,
              out\<lparr>em_facts := (em_facts out)\<lparr>
                    fc_releases_unknown := insert caller (fc_releases_unknown (em_facts out)),
                    fc_unresolved := fc_unresolved (em_facts out) + (if param then 1 else 0)\<rparr>\<rparr>)))"

definition call_acquire ::
    "site \<Rightarrow> string option \<times> bool \<Rightarrow> walk \<times> emission \<Rightarrow> walk \<times> emission" where
  "call_acquire st acq we =
     (case (acq, we) of ((lock, shared), (w, out)) \<Rightarrow>
        (case lock of
           None \<Rightarrow>
             (w, out\<lparr>em_facts := (em_facts out)\<lparr>fc_unresolved := fc_unresolved (em_facts out) + 1\<rparr>\<rparr>)
         | Some nm \<Rightarrow>
             (set_held (top_held w @ [\<lparr>hd_name = nm, hd_shared = shared\<rparr>]) w,
              out\<lparr>em_graph := record_orders (top_held w) nm (\<lambda>outer. hd_shared outer \<and> shared) st
                    (take_lock nm shared (em_graph out))\<rparr>)))"

definition apply_call ::
    "scan_context \<Rightarrow> string \<Rightarrow> call_at \<Rightarrow> string \<Rightarrow> site \<Rightarrow> walk \<times> emission \<Rightarrow> walk \<times> emission" where
  "apply_call cx caller call line st we =
     (case we of (w, out) \<Rightarrow>
        (let params = params_of (cx_program cx) caller;
             carried = filter (\<lambda>h. hd_name h \<notin> set params) (top_held w);
             out1 = out\<lparr>em_facts := (em_facts out)\<lparr>
               fc_sites := meet (at_name call) carried (fc_sites (em_facts out))\<rparr>\<rparr>
         in case map_of (ip_summaries (cx_interproc cx)) (at_name call) of
              None \<Rightarrow> (w, out1)
            | Some summary \<Rightarrow>
                (let resolve = resolve_lock line call (wk_locals w);
                     released = map (\<lambda>named. (counted_lock named, resolve named)) (sm_released summary);
                     acquired = map (\<lambda>(named, shared). (resolve named, shared)) (sm_acquired summary)
                 in fold (call_acquire st) acquired (fold (call_release caller) released (w, out1)))))"

definition unreleased_row :: "string \<Rightarrow> held list \<Rightarrow> site \<Rightarrow> json" where
  "unreleased_row entry h st =
     JObj [(''status'', JStr ''potential''), (''entry'', JStr entry),
           (''locks'', jstrs (map hd_name h)),
           (''source'', JObj [(''file'', JStr (st_file st)),
                              (''line'', jnat (st_line st))]),
           (''reason'', JStr ''the thread entry's closing brace is reached with these locks lexically held''),
           (''provenance'', JStr ''syntax'')]"

definition report_unreleased ::
    "scan_context \<Rightarrow> string option \<Rightarrow> held list option \<Rightarrow> site \<Rightarrow> emission \<Rightarrow> emission" where
  "report_unreleased cx f held st out =
     (case (f, held) of
        (Some entry, Some h) \<Rightarrow>
          if h = [] \<or> map_of (pg_entries (cx_program cx)) entry = None then out
          else out\<lparr>em_unreleased := em_unreleased out @ [unreleased_row entry h st]\<rparr>
      | _ \<Rightarrow> out)"

definition lock_action ::
    "scan_context \<Rightarrow> string \<Rightarrow> lock_api_row \<Rightarrow> string \<Rightarrow> site \<Rightarrow> walk \<times> emission \<Rightarrow> walk \<times> emission" where
  "lock_action cx f row lock st we =
     (case we of (w, out) \<Rightarrow>
        (let own_param = lock \<in> set (params_of (cx_program cx) f);
             wrapped = (case map_of (ip_summaries (cx_interproc cx)) f of
                 None \<Rightarrow> False
               | Some s \<Rightarrow> NamedLock lock \<in> fst ` set (sm_acquired s));
             inherited = (if own_param \<or> wrapped
               then (case map_of (ip_entries (cx_interproc cx)) f of
                       None \<Rightarrow> [] | Some hs \<Rightarrow> map hd_name hs)
               else [])
         in case apply_lock row lock (top_held w) inherited st (em_graph out) of
              (unheld, h, g) \<Rightarrow>
                (set_held h w,
                 out\<lparr>em_graph := g,
                     em_facts := (if unheld then note_released f lock (em_facts out) else em_facts out)\<rparr>)))"

section \<open>One line\<close>

record line_at =
  ln_file :: file_scan
  ln_index :: nat
  ln_text :: string
  ln_function :: "string option"
  ln_site :: site

definition line_named :: "line_at \<Rightarrow> string" where
  "line_named ln = unwrap_or (ln_function ln) []"

definition line_zones :: "scan_context \<Rightarrow> string \<Rightarrow> string set \<Rightarrow> zones" where
  "line_zones cx named locals nm =
     (if nm \<in> pg_globals (cx_program cx) then Some (nm, nm \<in> pg_atomics (cx_program cx))
      else if cx_unshared cx \<and> nm \<in> locals then Some (named @ ''::'' @ nm, False)
      else None)"

definition emit_event ::
    "scan_context \<Rightarrow> line_at \<Rightarrow> string \<Rightarrow> string option \<Rightarrow> string option \<Rightarrow> walk \<times> emission \<Rightarrow> walk \<times> emission" where
  "emit_event cx ln kind zone mode we =
     (case we of (w, out) \<Rightarrow>
        (case (em_sink out, ln_function ln) of
           (Some sk, Some f) \<Rightarrow>
             (let threads = st_threads (ln_site ln)
              in case lockset (starts_with (line_named ln) atomic_function_prefix) w of
                   (names, shared) \<Rightarrow>
                     (w, out\<lparr>em_sink := Some (push_event
                           \<lparr>ev_id = [], ev_threads = threads, ev_may_repeat = context_repeats cx threads,
                            ev_kind = kind, ev_file = fs_path (ln_file ln), ev_line = ln_index ln + 1,
                            ev_function = f, ev_zone = zone, ev_lockset = names,
                            ev_read_locks = shared, ev_lock_mode = mode\<rparr> sk)\<rparr>))
         | _ \<Rightarrow> (w, out)))"

definition note_return :: "string \<Rightarrow> held list \<Rightarrow> emission \<Rightarrow> emission" where
  "note_return f h out =
     out\<lparr>em_facts := (em_facts out)\<lparr>fc_returns := meet f h (fc_returns (em_facts out))\<rparr>\<rparr>"

fun mode_name :: "lock_mode \<Rightarrow> string" where
  "mode_name Exclusive = ''exclusive''"
| "mode_name Shared = ''shared''"

definition emit_open :: "scan_context \<Rightarrow> line_at \<Rightarrow> nat \<Rightarrow> walk \<times> emission \<Rightarrow> walk \<times> emission" where
  "emit_open cx ln offset we =
     (case we of (w, out) \<Rightarrow>
        (let w1 = open_block (take offset (ln_text ln)) w;
             entry = (if length (wk_stack w1) = 2 \<and> ln_function ln \<noteq> None
                      then unwrap_or (map_of (ip_entries (cx_interproc cx)) (line_named ln)) [] else [])
         in (set_held (top_held w1 @ entry) w1, out)))"

definition emit_close :: "scan_context \<Rightarrow> line_at \<Rightarrow> nat \<Rightarrow> walk \<times> emission \<Rightarrow> walk \<times> emission" where
  "emit_close cx ln offset we =
     (case we of (w, out) \<Rightarrow>
        (case close_block (take offset (ln_text ln)) w of (h, w1) \<Rightarrow>
           (let ended = (length (wk_stack w1) = 1 \<and> ln_function ln \<noteq> None);
                out1 = (case h of
                    Some path \<Rightarrow> if ended then note_return (line_named ln) path out else out
                  | None \<Rightarrow> out)
            in (w1, report_unreleased cx (if ended then ln_function ln else None) h (ln_site ln) out1))))"

definition emit_action ::
    "scan_context \<Rightarrow> line_at \<Rightarrow> nat \<times> action \<Rightarrow> walk \<times> emission \<Rightarrow> walk \<times> emission" where
  "emit_action cx ln act we =
     (case act of (offset, a) \<Rightarrow>
        (case a of
           OpenAct \<Rightarrow> emit_open cx ln offset we
         | CloseAct \<Rightarrow> emit_close cx ln offset we
         | ReturnAct \<Rightarrow> (case we of (w, out) \<Rightarrow> (w, note_return (line_named ln) (top_held w) out))
         | CallAct call \<Rightarrow>
             if ln_function ln \<noteq> None \<and>
                \<not> names_its_own_definition (ln_file ln) (ln_index ln) (ln_text ln) (at_name call) (at_start call)
             then apply_call cx (line_named ln) call (ln_text ln) (ln_site ln) we
             else we
         | LockAct row lock \<Rightarrow>
             emit_event cx ln (lock_kind (la_op row)) (Some lock) (Some (mode_name (la_mode row)))
               (lock_action cx (line_named ln) row lock (ln_site ln) we)
         | CreateAct entry \<Rightarrow> emit_event cx ln ''THREAD_CREATE'' (Some entry) None we
         | JoinAct \<Rightarrow> emit_event cx ln ''THREAD_JOIN'' None None we
         | AccessAct kind zone \<Rightarrow> emit_event cx ln kind (Some zone) None we))"

definition line_info :: "file_scan \<Rightarrow> scan_context \<Rightarrow> nat \<Rightarrow> line_at" where
  "line_info file cx index =
     (let f = owner_name file index
      in \<lparr>ln_file = file, ln_index = index, ln_text = fs_lines file ! index, ln_function = f,
          ln_site = \<lparr>st_file = fs_path file, st_line = index + 1,
                     st_threads = (case f of None \<Rightarrow> [] | Some nm \<Rightarrow> threads_of (cx_sets cx) nm)\<rparr>\<rparr>)"

definition emit_line :: "file_scan \<Rightarrow> scan_context \<Rightarrow> nat \<Rightarrow> walk \<times> emission \<Rightarrow> (walk \<times> emission) option" where
  "emit_line file cx index we =
     (let ln = line_info file cx index
      in map_option (\<lambda>actions.
           (case we of (w, out) \<Rightarrow>
              fold (emit_action cx ln) actions
                ((if ln_function ln \<noteq> None \<and> is_label (ln_text ln) then land w else w), out)))
         (actions_on_line (ln_text ln) (line_zones cx (line_named ln) (wk_locals (fst we)))
           (pg_defined (cx_program cx))))"

section \<open>A file\<close>

record file_walk =
  fw_walk :: walk
  fw_pending_branch :: bool
  fw_out :: emission

definition balanced :: "string \<Rightarrow> bool" where
  "balanced line \<longleftrightarrow> count_list line (CHR ''{'') = count_list line (CHR ''}'')"

definition add_locals :: "scan_context \<Rightarrow> bool \<Rightarrow> string \<Rightarrow> walk \<Rightarrow> walk" where
  "add_locals cx owned line w =
     (if owned
      then w\<lparr>wk_locals := wk_locals w \<union> (set (declarators line) - pg_globals (cx_program cx))\<rparr>
      else w)"

text \<open>After the line: what the next one is told of it, and nothing survives the end of a function.\<close>

definition finish_line :: "string \<Rightarrow> branch \<Rightarrow> file_walk \<Rightarrow> walk \<times> emission \<Rightarrow> file_walk" where
  "finish_line line br fw we =
     (case we of (w, out) \<Rightarrow>
        (let w1 = (if line = [] then w
                   else w\<lparr>wk_previous := line, wk_previous_conditional := fw_pending_branch fw\<rparr>);
             w2 = (if length (wk_stack w1) = 1 then w1\<lparr>wk_locals := {}, wk_gotos := []\<rparr> else w1)
         in \<lparr>fw_walk = w2, fw_pending_branch = (br = NextLine), fw_out = out\<rparr>))"

definition file_line :: "file_scan \<Rightarrow> scan_context \<Rightarrow> nat \<Rightarrow> file_walk \<Rightarrow> file_walk option" where
  "file_line file cx index fw =
     (let line = trim (fs_lines file ! index);
          w1 = add_locals cx (fs_owner file ! index \<noteq> None) line (fw_walk fw);
          br = branch_on line;
          wrapped = ((fw_pending_branch fw \<or> br = SameLine) \<and> balanced line);
          w2 = (if wrapped then enter PlainBody w1 else w1)
      in map_option (\<lambda>(w3, out).
             finish_line line br fw ((if wrapped then snd (leave FallThrough w3) else w3), out))
           (emit_line file cx index (w2, fw_out fw)))"

text \<open>The lines from an index on; the flag is whether the deadline was kept.\<close>

fun file_lines :: "file_scan \<Rightarrow> scan_context \<Rightarrow> nat list \<Rightarrow> file_walk \<Rightarrow> nat \<Rightarrow> (bool \<times> emission \<times> nat) option" where
  "file_lines file cx [] fw clock = Some (True, fw_out fw, clock)"
| "file_lines file cx (index # rest) fw clock =
     (if clock = 0 then Some (False, fw_out fw, 0)
      else (case file_line file cx index fw of
          None \<Rightarrow> None
        | Some fw' \<Rightarrow> file_lines file cx rest fw' (clock - 1)))"

definition emit_file :: "file_scan \<Rightarrow> scan_context \<Rightarrow> emission \<Rightarrow> nat \<Rightarrow> (bool \<times> emission \<times> nat) option" where
  "emit_file file cx out clock =
     file_lines file cx [0..<length (fs_lines file)]
       \<lparr>fw_walk = walk_start, fw_pending_branch = False, fw_out = out\<rparr> clock"

fun emit_files :: "file_scan list \<Rightarrow> scan_context \<Rightarrow> emission \<Rightarrow> nat \<Rightarrow> (bool \<times> emission \<times> nat) option" where
  "emit_files [] cx out clock = Some (True, out, clock)"
| "emit_files (file # files) cx out clock =
     (case emit_file file cx out clock of
        None \<Rightarrow> None
      | Some (kept, out', clock') \<Rightarrow>
          if kept then emit_files files cx out' clock' else Some (False, out', clock'))"

section \<open>Rounds\<close>

text \<open>Facts are asked for with no sink and a graph that may hold no edge; no facts is a passed deadline.\<close>

definition walk_for_facts :: "file_scan list \<Rightarrow> scan_context \<Rightarrow> nat \<Rightarrow> (facts option \<times> nat) option" where
  "walk_for_facts scans cx clock =
     map_option (\<lambda>(kept, out, clock'). (if kept then Some (em_facts out) else None, clock'))
       (emit_files scans cx
         \<lparr>em_sink = None, em_graph = lock_graph_empty 0, em_unreleased = [], em_facts = facts_default\<rparr> clock)"

definition with_interproc :: "scan_context \<Rightarrow> interproc \<Rightarrow> scan_context" where
  "with_interproc base ip = base\<lparr>cx_interproc := ip, cx_unshared := False\<rparr>"

text \<open>The rounds left to do; round \<open>r\<close> widens from the middle on.\<close>

fun summary_rounds ::
    "nat \<Rightarrow> nat \<Rightarrow> file_scan list \<Rightarrow> scan_context \<Rightarrow> interproc \<Rightarrow> nat \<Rightarrow> ((interproc \<times> bool) option \<times> nat) option" where
  "summary_rounds 0 r scans base ip clock = Some (Some (ip, False), clock)"
| "summary_rounds (Suc n) r scans base ip clock =
     (case walk_for_facts scans (with_interproc base ip) clock of
        None \<Rightarrow> None
      | Some (None, clock') \<Rightarrow> Some (None, clock')
      | Some (Some fc, clock') \<Rightarrow>
          (let computed = summaries_from fc (cx_program base);
               nxt = (if lock_summary_rounds div 2 \<le> r then widen (ip_summaries ip) computed else computed)
           in if nxt = ip_summaries ip then Some (Some (ip, True), clock')
              else summary_rounds n (r + 1) scans base (ip\<lparr>ip_summaries := nxt\<rparr>) clock'))"

fun entry_rounds ::
    "nat \<Rightarrow> file_scan list \<Rightarrow> scan_context \<Rightarrow> interproc \<Rightarrow> nat \<Rightarrow> (interproc option \<times> nat) option" where
  "entry_rounds 0 scans base ip clock = Some (Some ip, clock)"
| "entry_rounds (Suc n) scans base ip clock =
     (case walk_for_facts scans (with_interproc base ip) clock of
        None \<Rightarrow> None
      | Some (None, clock') \<Rightarrow> Some (None, clock')
      | Some (Some fc, clock') \<Rightarrow>
          (let nxt = entries_from fc (cx_program base)
           in if nxt = ip_entries ip then Some (Some ip, clock')
              else entry_rounds n scans base (ip\<lparr>ip_entries := nxt\<rparr>) clock'))"

definition unknown_summary :: summary where
  "unknown_summary = \<lparr>sm_acquired = [], sm_released = [UnknownLock]\<rparr>"

definition interprocedural ::
    "file_scan list \<Rightarrow> scan_context \<Rightarrow> nat \<Rightarrow> ((interproc \<times> bool) option \<times> nat) option" where
  "interprocedural scans base clock =
     (if pg_lock_calls (cx_program base) = 0 then Some (Some (interproc_default, True), clock)
      else (case summary_rounds lock_summary_rounds 0 scans base interproc_default clock of
          None \<Rightarrow> None
        | Some (None, clock') \<Rightarrow> Some (None, clock')
        | Some (Some (ip, converged), clock') \<Rightarrow>
            (let ip1 = (if converged then ip
                        else ip\<lparr>ip_summaries :=
                          map (\<lambda>f. (f, unknown_summary)) (sorted_list_of_set (pg_defined (cx_program base)))\<rparr>)
             in map_option (\<lambda>(found, clock''). (map_option (\<lambda>ip'. (ip', converged)) found, clock''))
                  (entry_rounds lock_summary_rounds scans base ip1 clock'))))"

section \<open>What the rounds settle on\<close>

lemma map_of_filter_map:
  "map_of (filter (\<lambda>(f, s). s \<noteq> d) (map (\<lambda>f. (f, g f)) fs)) f =
     (if f \<in> set fs \<and> g f \<noteq> d then Some (g f) else None)"
  by (induction fs) auto

lemma map_of_map_pair: "map_of (map (\<lambda>f. (f, g f)) fs) f = (if f \<in> set fs then Some (g f) else None)"
  by (induction fs) auto

lemma fold_push_new:
  "set (fold (\<lambda>x acc. if x \<in> set acc then acc else acc @ [x]) xs ys) = set xs \<union> set ys"
  by (induction xs arbitrary: ys) auto

lemma widen_summary_default: "widen_summary summary_default summary_default = summary_default"
  by (simp add: widen_summary_def summary_default_def)

lemma summary_of_widen:
  "summary_of (widen before computed) f = widen_summary (summary_of before f) (summary_of computed f)"
proof (cases "f \<in> set (bt_keys before) \<union> set (bt_keys computed)")
  case False
  then have "map_of before f = None" "map_of computed f = None"
    by (auto simp: bt_keys_def map_of_eq_None_iff)
  with False show ?thesis
    by (simp add: summary_of_def widen_def map_of_filter_map widen_summary_default)
next
  case True
  then have "map_of (widen before computed) f =
      (let s = widen_summary (summary_of before f) (summary_of computed f)
       in if s \<noteq> summary_default then Some s else None)"
    by (simp add: widen_def map_of_filter_map Let_def)
  then show ?thesis
    by (simp add: summary_of_def [where m = "widen before computed"] Let_def)
qed

text \<open>
  A summary may be used when it claims no lock its own recomputation does not find acquired, and owns up
  to every release the recomputation finds.
\<close>

definition claims_no_more :: "summary \<Rightarrow> summary \<Rightarrow> bool" where
  "claims_no_more s computed \<longleftrightarrow>
     set (sm_acquired s) \<subseteq> set (sm_acquired computed) \<and> set (sm_released computed) \<subseteq> set (sm_released s)"

lemma widen_fixed:
  assumes "widen m computed = m"
  shows "claims_no_more (summary_of m f) (summary_of computed f)"
proof -
  have "widen_summary (summary_of m f) (summary_of computed f) = summary_of m f"
    using summary_of_widen [of m computed f] assms by simp
  then have acq: "sm_acquired (summary_of m f) = filter (\<lambda>h. h \<in> set (sm_acquired (summary_of m f))) (sm_acquired (summary_of computed f))"
    and rel: "sm_released (summary_of m f) = fold (\<lambda>x acc. if x \<in> set acc then acc else acc @ [x])
      (sm_released (summary_of computed f)) (sm_released (summary_of m f))"
    by (auto simp: widen_summary_def dest: arg_cong [where f = sm_acquired] arg_cong [where f = sm_released])
  have "set (sm_acquired (summary_of m f)) \<subseteq> set (sm_acquired (summary_of computed f))"
    by (subst acq) auto
  moreover have "set (sm_released (summary_of computed f)) \<subseteq> set (sm_released (summary_of m f))"
    by (subst rel) (simp only: fold_push_new, blast)
  ultimately show ?thesis by (simp add: claims_no_more_def)
qed

definition recomputed :: "file_scan list \<Rightarrow> scan_context \<Rightarrow> interproc \<Rightarrow> (string, summary) kv \<Rightarrow> bool" where
  "recomputed scans base ip m \<longleftrightarrow>
     (\<exists>clock fc clock'. walk_for_facts scans (with_interproc base (ip\<lparr>ip_entries := []\<rparr>)) clock = Some (Some fc, clock') \<and>
        m = summaries_from fc (cx_program base))"

lemma summary_rounds_settle:
  "summary_rounds n r scans base ip clock = Some (Some (ip', converged), clock') \<Longrightarrow> ip_entries ip = [] \<Longrightarrow>
     ip_entries ip' = [] \<and>
     (converged \<longrightarrow> (\<exists>m. recomputed scans base ip' m \<and> (\<forall>f. claims_no_more (summary_of (ip_summaries ip') f) (summary_of m f))))"
proof (induction n arbitrary: r ip clock)
  case (Suc n)
  from Suc.prems(1) obtain fc clock1 where walked:
      "walk_for_facts scans (with_interproc base ip) clock = Some (Some fc, clock1)"
    by (auto split: option.splits prod.splits)
  define m where "m = summaries_from fc (cx_program base)"
  define nxt where "nxt = (if lock_summary_rounds div 2 \<le> r then widen (ip_summaries ip) m else m)"
  have unfolded: "summary_rounds (Suc n) r scans base ip clock =
      (if nxt = ip_summaries ip then Some (Some (ip, True), clock1)
       else summary_rounds n (r + 1) scans base (ip\<lparr>ip_summaries := nxt\<rparr>) clock1)"
    using walked by (simp add: m_def nxt_def Let_def)
  have same: "ip\<lparr>ip_entries := []\<rparr> = ip" using Suc.prems(2) by simp
  show ?case
  proof (cases "nxt = ip_summaries ip")
    case True
    with Suc.prems(1) unfolded have ip': "ip' = ip" by simp
    have "claims_no_more (summary_of (ip_summaries ip) f) (summary_of m f)" for f
      using True widen_fixed [of "ip_summaries ip" m f]
      by (auto simp: nxt_def claims_no_more_def split: if_splits)
    moreover have "recomputed scans base ip m"
      using walked same by (auto simp: recomputed_def m_def)
    ultimately show ?thesis using ip' Suc.prems(2) by auto
  next
    case False
    with Suc.prems(1) unfolded have "summary_rounds n (r + 1) scans base (ip\<lparr>ip_summaries := nxt\<rparr>) clock1
        = Some (Some (ip', converged), clock')" by simp
    from Suc.IH [OF this] Suc.prems(2) show ?thesis by simp
  qed
qed simp

lemma entry_rounds_summaries:
  "entry_rounds n scans base ip clock = Some (Some ip', clock') \<Longrightarrow> ip_summaries ip' = ip_summaries ip"
  by (induction n arbitrary: ip clock) (auto simp: Let_def split: option.splits prod.splits if_splits)

text \<open>C26: the lock summaries the walk relies on never claim too much. When the rounds converged, walking
  the files once more under them finds every lock a summary says is acquired and no release it does
  not name; when they did not, every defined function is taken to acquire nothing and release anything.
\<close>

theorem lock_summaries_settle:
  assumes "interprocedural scans base clock = Some (Some (ip, converged), clock')"
    and "0 < pg_lock_calls (cx_program base)" and "finite (pg_defined (cx_program base))"
  shows "if converged
    then \<exists>m. recomputed scans base ip m \<and>
           (\<forall>f. claims_no_more (summary_of (ip_summaries ip) f) (summary_of m f))
    else \<forall>f \<in> pg_defined (cx_program base). summary_of (ip_summaries ip) f = unknown_summary"
proof -
  from assms(1,2) obtain ip0 clock0 where rounds:
      "summary_rounds lock_summary_rounds 0 scans base interproc_default clock = Some (Some (ip0, converged), clock0)"
    and entries: "entry_rounds lock_summary_rounds scans base
        (if converged then ip0 else ip0\<lparr>ip_summaries := map (\<lambda>f. (f, unknown_summary)) (sorted_list_of_set (pg_defined (cx_program base)))\<rparr>)
        clock0 = Some (Some ip, clock')"
    by (auto simp: interprocedural_def Let_def split: option.splits prod.splits)
  note settled = summary_rounds_settle [OF rounds]
  note kept = entry_rounds_summaries [OF entries]
  show ?thesis
  proof (cases converged)
    case True
    with settled obtain m where m: "recomputed scans base ip0 m"
        "\<forall>f. claims_no_more (summary_of (ip_summaries ip0) f) (summary_of m f)"
      by (auto simp: interproc_default_def)
    have "ip\<lparr>ip_entries := []\<rparr> = ip0\<lparr>ip_entries := []\<rparr>" using kept True by simp
    with m(1) have "recomputed scans base ip m" by (simp add: recomputed_def)
    with True m(2) kept show ?thesis by auto
  next
    case False
    with kept assms(3) show ?thesis
      by (simp add: summary_of_def map_of_map_pair)
  qed
qed

text \<open>A function that takes a semaphore and returns with it: the walk finds one acquisition.\<close>

definition demo_file :: file_scan where
  "demo_file =
     \<lparr>fs_path = ''s.c'', fs_lines = [''{'', ''sem_wait(m);'', ''}''], fs_owner = [Some 0, Some 0, Some 0],
      fs_in_loop = [False, False, False], fs_functions = [\<lparr>fn_name = ''take'', fn_params = []\<rparr>],
      fs_globals = {}, fs_atomics = {}\<rparr>"

definition demo_scan :: scan_context where
  "demo_scan =
     \<lparr>cx_program = program_default\<lparr>pg_defined := {''take''}, pg_lock_calls := 1\<rparr>, cx_sets = [], cx_repeat = {},
      cx_unshared = False, cx_interproc = interproc_default\<rparr>"
lemma demo_rounds:
  "interprocedural [demo_file] demo_scan 100 =
     Some (Some (\<lparr>ip_summaries = [(''take'', \<lparr>sm_acquired = [(NamedLock ''m'', False)], sm_released = []\<rparr>)],
                  ip_entries = []\<rparr>, True), 91)"
  by code_simp

theorem lock_summaries_settle_witness:
  "\<exists>m. recomputed [demo_file] demo_scan
       \<lparr>ip_summaries = [(''take'', \<lparr>sm_acquired = [(NamedLock ''m'', False)], sm_released = []\<rparr>)], ip_entries = []\<rparr> m \<and>
     (NamedLock ''m'', False) \<in> set (sm_acquired (summary_of m ''take''))"
proof -
  have "0 < pg_lock_calls (cx_program demo_scan)" "finite (pg_defined (cx_program demo_scan))"
    by (simp_all add: demo_scan_def)
  from lock_summaries_settle [OF demo_rounds this] show ?thesis
    by (fastforce simp: claims_no_more_def summary_of_def)
qed

end
