(* ===== verification/Races.thy ===== *)
theory Races
  imports Emit
begin

text \<open>
  What the concurrency pass reports (src/src/mcp/concurrency.rs): race candidates among the events,
  under a budget and a deadline, lock orders with their cycles, and the payload with the flags that
  say what the enumeration left out.
\<close>

section \<open>Lock orders\<close>

definition sites_json :: "edge_sites \<Rightarrow> json list" where
  "sites_json e = map (\<lambda>(file, line). JObj [(''file'', JStr file), (''line'', jnat line)]) (es_sites e)"

definition threads_json :: "edge_sites \<Rightarrow> json" where
  "threads_json e = jstrs (sorted_list_of_set (es_threads e))"

definition edge_json :: "string \<Rightarrow> string \<Rightarrow> edge_sites \<Rightarrow> json" where
  "edge_json outer lock e =
     JObj [(''from'', JStr outer), (''to'', JStr lock),
           (''source'', (case sites_json e of [] \<Rightarrow> JNull | s # _ \<Rightarrow> s)),
           (''sites'', JArr (sites_json e)), (''site_count'', jnat (es_count e)),
           (''threads'', threads_json e)]"

definition double_lock_json :: "string \<Rightarrow> edge_sites \<Rightarrow> json" where
  "double_lock_json lock e =
     JObj [(''status'', JStr ''potential''), (''lock'', JStr lock), (''sites'', JArr (sites_json e)),
           (''site_count'', jnat (es_count e)), (''threads'', threads_json e),
           (''reason'', JStr ''acquired while lexically already held: a self-deadlock for a default mutex; harmless for a recursive mutex, and for a second read lock unless a writer is queued; a second wait on a semaphore blocks unless its count covers both; this pass sees neither attributes nor counts''),
           (''provenance'', JStr ''syntax'')]"

definition threads_concurrent :: "string list \<Rightarrow> string list \<Rightarrow> string set \<Rightarrow> bool" where
  "threads_concurrent left right repeat =
     (case (left, right) of
        ([], _) \<Rightarrow> False
      | (_, []) \<Rightarrow> False
      | ([one], [other]) \<Rightarrow> if one = other then one \<in> repeat \<or> one = unattributed else True
      | _ \<Rightarrow> True)"

type_synonym lock_edge = "(string \<times> string) \<times> edge_sites"

definition cycle_json :: "string list \<Rightarrow> lock_edge list \<Rightarrow> string set \<Rightarrow> json option" where
  "cycle_json members edges repeat =
     (case edges of
        [] \<Rightarrow> None
      | (_, first) # _ \<Rightarrow>
          if \<not> list_ex (\<lambda>(_, e). threads_concurrent (sorted_list_of_set (es_threads first))
                 (sorted_list_of_set (es_threads e)) repeat) edges
          then None
          else Some (JObj
            [(''status'', JStr ''potential''), (''locks'', jstrs members),
             (''edges'', JArr (map (\<lambda>((outer, lock), e). edge_json outer lock e) edges)),
             (''threads'', jstrs (sorted_list_of_set (\<Union>e \<in> snd ` set edges. es_threads e))),
             (''reason'', JStr ''these locks are acquired in a cyclic order by code that may run concurrently''),
             (''provenance'', JStr ''syntax''),
             (''next_analysis'', JStr ''alias_and_happens_before'')]))"

definition readers_only :: "string list \<Rightarrow> lock_edge list \<Rightarrow> string set \<Rightarrow> bool" where
  "readers_only members edges writers \<longleftrightarrow>
     list_all (\<lambda>(_, e). \<not> es_exclusive e) edges \<and> \<not> list_ex (\<lambda>lock. lock \<in> writers) members"

record lock_report =
  lr_order :: "json list"
  lr_double_lock :: "json list"
  lr_deadlocks :: "json list"

definition lock_adjacency :: "lock_edge list \<Rightarrow> (string, string set) kv" where
  "lock_adjacency edges =
     foldl (\<lambda>m ((outer, lock), _). if outer = lock then m else bt_entry outer {} (insert lock) m) [] edges"

definition lock_cycles :: "(call_graph \<Rightarrow> string list list) \<Rightarrow> lock_edge list \<Rightarrow> string list list" where
  "lock_cycles kosaraju_scc edges =
     filter (\<lambda>c. 1 < length c) (components kosaraju_scc (lock_adjacency edges))"

text \<open>The index of the last cycle that holds the lock, as repeated insertion into the map leaves it.\<close>

definition component_of :: "string list list \<Rightarrow> string \<Rightarrow> nat option" where
  "component_of cycles lock =
     (case filter (\<lambda>i. lock \<in> set (cycles ! i)) (rev [0..<length cycles]) of
        [] \<Rightarrow> None | i # _ \<Rightarrow> Some i)"

definition edges_inside :: "string list list \<Rightarrow> lock_edge list \<Rightarrow> nat \<Rightarrow> lock_edge list" where
  "edges_inside cycles edges at =
     filter (\<lambda>((outer, lock), _). component_of cycles outer = Some at \<and> component_of cycles lock = Some at) edges"

definition lock_report_of ::
    "(call_graph \<Rightarrow> string list list) \<Rightarrow> lock_graph \<Rightarrow> string set \<Rightarrow> bool \<Rightarrow> lock_report" where
  "lock_report_of kosaraju_scc g repeat threads_detected =
     (let edges = lg_edges g; cycles = lock_cycles kosaraju_scc edges
      in \<lparr>lr_order = map (\<lambda>((outer, lock), e). edge_json outer lock e) edges,
          lr_double_lock = List.map_filter
            (\<lambda>((outer, lock), e). if outer = lock then Some (double_lock_json outer e) else None) edges,
          lr_deadlocks =
            (if \<not> threads_detected then []
             else List.map_filter
               (\<lambda>at. if readers_only (cycles ! at) (edges_inside cycles edges at) (lg_writers g) then None
                     else cycle_json (cycles ! at) (edges_inside cycles edges at) repeat)
               [0..<length cycles])\<rparr>)"

section \<open>Race candidates\<close>

definition pairs_per_candidate :: nat where
  "pairs_per_candidate = 1024"

record candidates =
  cd_emitted :: "json list"
  cd_total :: nat
  cd_cap :: nat
  cd_budget :: nat
  cd_exhausted :: bool
  cd_timed_out :: bool

definition push_candidate :: "json \<Rightarrow> candidates \<Rightarrow> candidates" where
  "push_candidate c cd =
     cd\<lparr>cd_total := cd_total cd + 1,
        cd_emitted := (if length (cd_emitted cd) < cd_cap cd then cd_emitted cd @ [c] else cd_emitted cd)\<rparr>"

definition spend :: "candidates \<Rightarrow> bool \<times> candidates" where
  "spend cd =
     (if cd_budget cd = 0 then (False, cd\<lparr>cd_exhausted := True\<rparr>)
      else (True, cd\<lparr>cd_budget := cd_budget cd - 1\<rparr>))"

definition may_run_concurrently :: "event \<Rightarrow> event \<Rightarrow> string set \<Rightarrow> bool" where
  "may_run_concurrently left right repeat = threads_concurrent (ev_threads left) (ev_threads right) repeat"

definition common_locks :: "event \<Rightarrow> event \<Rightarrow> string list" where
  "common_locks left right =
     filter (\<lambda>lock. lock \<in> set (ev_lockset right) \<and>
       \<not> (lock \<in> set (ev_read_locks left) \<and> lock \<in> set (ev_read_locks right))) (ev_lockset left)"

definition exclusive_locks :: "event \<Rightarrow> string list" where
  "exclusive_locks access = filter (\<lambda>lock. lock \<notin> set (ev_read_locks access)) (ev_lockset access)"

definition lock_note :: "string list \<Rightarrow> json" where
  "lock_note shared =
     (if shared = [] then JNull
      else JObj [(''common_lexical_locks'', jstrs shared),
             (''note'', JStr ''Both accesses lexically hold these names. That is evidence, not protection: acquisition is not path sensitive here and two spellings are not proof of one mutex.'')])"

definition pair_candidate :: "event \<Rightarrow> event \<Rightarrow> json" where
  "pair_candidate left right =
     JObj [(''status'', JStr ''potential''), (''accesses'', jstrs [ev_id left, ev_id right]),
           (''memory_zone'', jopt JStr (ev_zone left)), (''kinds'', jstrs [ev_kind left, ev_kind right]),
           (''threads'', jstrs (sort_dedup (ev_threads left @ ev_threads right))),
           (''lock_evidence'', lock_note (common_locks left right)),
           (''reason'', JStr (if is_atomic (ev_kind left) \<or> is_atomic (ev_kind right)
              then ''an atomic access against a plain one, which its atomicity does not order''
              else ''conflicting accesses that this pass cannot order'')),
           (''provenance'', JStr ''syntax''), (''next_analysis'', JStr ''alias_and_happens_before'')]"

definition self_candidate :: "event \<Rightarrow> json" where
  "self_candidate access =
     JObj [(''status'', JStr ''potential''), (''accesses'', jstrs [ev_id access, ev_id access]),
           (''memory_zone'', jopt JStr (ev_zone access)), (''kinds'', jstrs [ev_kind access, ev_kind access]),
           (''threads'', jstrs (ev_threads access)),
           (''lock_evidence'', lock_note (exclusive_locks access)),
           (''reason'', JStr ''the same write may execute in more than one instance of its thread''),
           (''provenance'', JStr ''syntax''), (''next_analysis'', JStr ''alias_and_happens_before'')]"

text \<open>The pairs of a zone in the order of the two nested loops; an early return ends the list.\<close>

fun pairs_of :: "event list \<Rightarrow> (event \<times> event) list" where
  "pairs_of [] = []"
| "pairs_of (e # es) = map (Pair e) es @ pairs_of es"

fun zone_loop :: "(event \<times> event) list \<Rightarrow> string set \<Rightarrow> candidates \<Rightarrow> nat \<Rightarrow> candidates \<times> nat" where
  "zone_loop [] repeat cd clock = (cd, clock)"
| "zone_loop ((left, right) # ps) repeat cd clock =
     (if clock = 0 then (cd\<lparr>cd_timed_out := True\<rparr>, 0)
      else (case spend cd of
          (False, cd') \<Rightarrow> (cd', clock - 1)
        | (True, cd') \<Rightarrow>
            zone_loop ps repeat
              (if conflicting (ev_kind left) (ev_kind right) \<and> may_run_concurrently left right repeat
               then push_candidate (pair_candidate left right) cd' else cd') (clock - 1)))"

definition zone_candidates :: "event list \<Rightarrow> string set \<Rightarrow> candidates \<Rightarrow> nat \<Rightarrow> candidates \<times> nat" where
  "zone_candidates es repeat cd clock = zone_loop (pairs_of es) repeat cd clock"

text \<open>The accesses by zone; \<open>None\<close> when the deadline passes while they are collected.\<close>

fun group_zones ::
    "event list \<Rightarrow> (string, event list) kv \<Rightarrow> nat \<Rightarrow> ((string, event list) kv \<times> nat) option" where
  "group_zones [] m clock = Some (m, clock)"
| "group_zones (e # es) m clock =
     (if clock = 0 then None
      else group_zones es
        (case ev_zone e of None \<Rightarrow> m | Some zone \<Rightarrow> bt_entry zone [] (\<lambda>xs. xs @ [e]) m) (clock - 1))"

text \<open>The writes that may meet themselves; \<open>None\<close> for the clock is the early return.\<close>

fun self_loop :: "event list \<Rightarrow> candidates \<Rightarrow> nat \<Rightarrow> candidates \<times> nat option" where
  "self_loop [] cd clock = (cd, Some clock)"
| "self_loop (e # es) cd clock =
     (if clock = 0 then (cd\<lparr>cd_timed_out := True\<rparr>, None)
      else self_loop es (push_candidate (self_candidate e) cd) (clock - 1))"

fun zones_loop :: "(string \<times> event list) list \<Rightarrow> string set \<Rightarrow> candidates \<Rightarrow> nat \<Rightarrow> candidates \<times> nat" where
  "zones_loop [] repeat cd clock = (cd, clock)"
| "zones_loop ((zone, es) # zs) repeat cd clock =
     (if cd_exhausted cd \<or> cd_timed_out cd then (cd, clock)
      else (case zone_candidates es repeat cd clock of (cd', clock') \<Rightarrow> zones_loop zs repeat cd' clock'))"

definition candidates_start :: "nat \<Rightarrow> nat \<Rightarrow> bool \<Rightarrow> candidates" where
  "candidates_start cap budget late =
     \<lparr>cd_emitted = [], cd_total = 0, cd_cap = cap, cd_budget = budget, cd_exhausted = False,
      cd_timed_out = late\<rparr>"

definition candidate_budget :: "nat \<Rightarrow> nat" where
  "candidate_budget cap = max (min (cap * pairs_per_candidate) (2 ^ 64 - 1)) pairs_per_candidate"

definition self_writes :: "event list \<Rightarrow> event list" where
  "self_writes es = filter (\<lambda>e. ev_kind e = ''WRITE'' \<and> ev_may_repeat e) es"

definition candidate_list :: "event list \<Rightarrow> string set \<Rightarrow> nat \<Rightarrow> nat \<Rightarrow> candidates \<times> nat" where
  "candidate_list events repeat cap clock =
     (case group_zones (filter (\<lambda>e. is_access (ev_kind e)) events) [] clock of
        None \<Rightarrow> (candidates_start cap 0 True, 0)
      | Some (by_zone, clock1) \<Rightarrow>
          (case self_loop (self_writes events) (candidates_start cap (candidate_budget cap) False) clock1 of
             (cd, None) \<Rightarrow> (cd, 0)
           | (cd, Some clock2) \<Rightarrow>
               (case zones_loop by_zone repeat cd clock2 of
                  (cd', clock3) \<Rightarrow>
                    (cd'\<lparr>cd_timed_out := cd_timed_out cd' \<or> clock3 = 0\<rparr>, clock3 - 1))))"

section \<open>The payload\<close>

definition event_json :: "event \<Rightarrow> json" where
  "event_json e =
     JObj ([(''id'', JStr (ev_id e)), (''threads'', jstrs (ev_threads e)),
            (''thread_may_repeat'', JBool (ev_may_repeat e)), (''kind'', JStr (ev_kind e)),
            (''source_location'', JObj [(''file'', JStr (ev_file e)), (''line'', jnat (ev_line e))]),
            (''function'', JStr (ev_function e)), (''memory_zone'', jopt JStr (ev_zone e)),
            (''lockset'', jstrs (ev_lockset e)), (''provenance'', JStr ''syntax'')]
           @ (case ev_lock_mode e of None \<Rightarrow> [] | Some mode \<Rightarrow> [(''lock_mode'', JStr mode)])
           @ (if ev_read_locks e = [] then [] else [(''read_lockset'', jstrs (ev_read_locks e))]))"

definition lock_ref_json :: "lock_name \<Rightarrow> string list \<Rightarrow> (string \<times> json) list" where
  "lock_ref_json named params =
     (case named of
        NamedLock nm \<Rightarrow> [(''lock'', JStr nm)]
      | ParamLock at \<Rightarrow>
          [(''parameter'', jnat at),
           (''name'', if at < length params then JStr (params ! at) else JNull)]
      | OpaqueLock \<Rightarrow> [(''unknown'', JBool True)]
      | UnknownLock \<Rightarrow> [(''unknown'', JBool True)])"

definition summary_json :: "string \<Rightarrow> summary \<Rightarrow> string list \<Rightarrow> json" where
  "summary_json f s params =
     JObj [(''function'', JStr f),
           (''acquires'', JArr (map (\<lambda>(named, shared).
              JObj (lock_ref_json named params @
                [(''mode'', JStr (if shared then ''shared'' else ''exclusive''))])) (sm_acquired s))),
           (''releases'', JArr (map (\<lambda>named. JObj (lock_ref_json named params)) (sm_released s)))]"

definition interproc_json :: "interproc \<Rightarrow> program \<Rightarrow> json \<times> json" where
  "interproc_json ip p =
     (JArr (map (\<lambda>(f, s). summary_json f s (params_of p f)) (ip_summaries ip)),
      JArr (map (\<lambda>(f, h). JObj [(''function'', JStr f), (''locks'', jstrs (map hd_name h))]) (ip_entries ip)))"

record payload_parts =
  pp_files :: "string list"
  pp_events :: sink
  pp_threads_detected :: bool
  pp_program :: program
  pp_candidates :: candidates
  pp_locks :: lock_report
  pp_lock_edges :: nat
  pp_lock_sites_dropped :: nat
  pp_unreleased :: "json list"
  pp_unreadable :: "json list"
  pp_within_deadline :: bool
  pp_lock_summaries :: json
  pp_entry_locksets :: json
  pp_summaries_converged :: bool
  pp_arguments_unresolved :: nat

definition entry_json :: "string \<times> spawn \<Rightarrow> json" where
  "entry_json entry =
     (case entry of (nm, sp) \<Rightarrow>
        JObj [(''entry'', JStr nm), (''spawn_sites'', jnat (sp_sites sp)),
              (''spawned_in_loop'', JBool (sp_in_loop sp)),
              (''spawner_may_repeat'', JBool (sp_spawner_repeats sp)),
              (''may_repeat'', JBool (may_repeat sp))])"

definition enumeration_complete :: "payload_parts \<Rightarrow> bool" where
  "enumeration_complete pp \<longleftrightarrow>
     \<not> cd_exhausted (pp_candidates pp) \<and> \<not> cd_timed_out (pp_candidates pp) \<and>
     sk_total (pp_events pp) = length (sk_events (pp_events pp)) \<and>
     pp_unreadable pp = [] \<and> pp_within_deadline pp"

definition unsupported_notes :: "string list" where
  "unsupported_notes =
     [''aliasing'', ''path feasibility'', ''happens-before'', ''join ordering'', ''macros'',
      ''headers not named in files'', ''calls through function pointers'', ''function-static storage'',
      ''context-sensitive locksets'', ''lock arguments that are not a plain global or parameter'',
      ''mutex attributes (recursive, error-checking)'', ''semaphore counts'', ''backward goto'',
      ''memory orders weaker than sequential consistency'', ''Eva states'', ''Mthread states'']"

definition payload :: "payload_parts \<Rightarrow> json" where
  "payload pp =
     JObj
       [(''schema'', JStr ''frama-c-mcp.concurrency.v1''),
        (''analysis_level'', jnat 0),
        (''analysis'', JStr ''syntactic_screening''),
        (''files'', jstrs (pp_files pp)),
        (''threads_detected'', JBool (pp_threads_detected pp)),
        (''thread_entries'', JArr (map entry_json (pg_entries (pp_program pp)))),
        (''unresolved_spawn_sites'', jnat (unresolved_spawns (pp_program pp))),
        (''event_count'', jnat (sk_total (pp_events pp))),
        (''events_omitted'', jnat (sk_total (pp_events pp) - length (sk_events (pp_events pp)))),
        (''events'', JArr (map event_json (sk_events (pp_events pp)))),
        (''candidate_count'', jnat (cd_total (pp_candidates pp))),
        (''candidates_omitted'',
           jnat (cd_total (pp_candidates pp) - length (cd_emitted (pp_candidates pp)))),
        (''candidate_enumeration_complete'', JBool (enumeration_complete pp)),
        (''candidates'', JArr (cd_emitted (pp_candidates pp))),
        (''scan_complete'', JBool (pp_within_deadline pp \<and> \<not> cd_timed_out (pp_candidates pp))),
        (''lock_order'', JArr (lr_order (pp_locks pp))),
        (''lock_order_count'', jnat (pp_lock_edges pp)),
        (''lock_order_sites_omitted'', jnat (pp_lock_sites_dropped pp)),
        (''lock_order_complete'', JBool (pp_lock_sites_dropped pp = 0 \<and> pp_within_deadline pp)),
        (''double_lock'', JArr (lr_double_lock (pp_locks pp))),
        (''deadlock_candidates'', JArr (lr_deadlocks (pp_locks pp))),
        (''unreleased_lock'', JArr (pp_unreleased pp)),
        (''lock_summaries'', pp_lock_summaries pp),
        (''lock_summaries_converged'', JBool (pp_summaries_converged pp)),
        (''entry_locksets'', pp_entry_locksets pp),
        (''lock_arguments_unresolved'', jnat (pp_arguments_unresolved pp)),
        (''unreadable_files'', JArr (pp_unreadable pp)),
        (''evidence'', JObj
           [(''all_claims'', JStr ''syntax''),
            (''soundness'', JStr ''candidate generation only; an absent candidate is not evidence of an absent race''),
            (''unsupported'', jstrs unsupported_notes)]),
        (''refinement'', JObj
           [(''tool'', JNull),
            (''note'', JStr ''No tool on this surface confirms a race. Level 0 evidence has to be taken to Eva or Mthread outside it before a defect is reported.'')])]"

section \<open>The scan\<close>

text \<open>Reading a file is the operating system's: \<open>read_file\<close> answers its text or an error.\<close>

fun read_sources ::
    "(string \<Rightarrow> string + string) \<Rightarrow> string list \<Rightarrow> nat \<Rightarrow> file_scan list \<times> json list \<times> bool \<times> nat" where
  "read_sources read_file [] clock = ([], [], True, clock)"
| "read_sources read_file (file # files) clock =
     (if clock = 0 then ([], [], False, 0)
      else (case read_sources read_file files (clock - 1) of (scans, unreadable, kept, clock') \<Rightarrow>
        (case read_file file of
           Inr text \<Rightarrow> (structure_of file (strip_noise text) # scans, unreadable, kept, clock')
         | Inl error \<Rightarrow>
             (scans, JObj [(''file'', JStr file), (''error'', JStr error)] # unreadable, kept, clock'))))"

definition sink_of :: "emission \<Rightarrow> nat \<Rightarrow> sink" where
  "sink_of out max_events =
     unwrap_or (em_sink out) \<lparr>sk_events = [], sk_total = 0, sk_limit = max_events\<rparr>"

definition scan_rounds ::
    "file_scan list \<Rightarrow> scan_context \<Rightarrow> bool \<Rightarrow> nat \<Rightarrow> (interproc \<times> bool \<times> bool \<times> nat) option" where
  "scan_rounds scans base read_within clock =
     (if \<not> read_within then Some (interproc_default, True, False, clock)
      else map_option (\<lambda>(found, clock'). case found of
          Some (ip, converged) \<Rightarrow> (ip, converged, True, clock')
        | None \<Rightarrow> (interproc_default, True, False, clock')) (interprocedural scans base clock))"

definition scan_candidates ::
    "program \<Rightarrow> sink \<Rightarrow> string set \<Rightarrow> nat \<Rightarrow> nat \<Rightarrow> candidates \<times> nat" where
  "scan_candidates p sk repeat max_candidates clock =
     (if 0 < pg_spawn_calls p then candidate_list (sk_events sk) repeat max_candidates clock
      else (candidates_start max_candidates 0 (clock = 0), clock - 1))"

definition scan_to_deadline ::
    "(call_graph \<Rightarrow> string list list) \<Rightarrow> (string \<Rightarrow> string + string) \<Rightarrow> string list \<Rightarrow> nat \<Rightarrow> nat \<Rightarrow> bool \<Rightarrow>
     nat \<Rightarrow> json option" where
  "scan_to_deadline kosaraju_scc read_file files max_events max_candidates include_unshared clock =
     (case read_sources read_file files clock of (scans, unreadable, read_within, clock1) \<Rightarrow>
        (let p = survey kosaraju_scc scans;
             repeat = repeating p;
             base = \<lparr>cx_program = p, cx_sets = thread_sets p, cx_repeat = repeat,
                     cx_unshared = include_unshared, cx_interproc = interproc_default\<rparr>
         in case scan_rounds scans base read_within clock1 of
              None \<Rightarrow> None
            | Some (ip, converged, within0, clock2) \<Rightarrow>
                (let out0 = \<lparr>em_sink = Some \<lparr>sk_events = [], sk_total = 0, sk_limit = max_events\<rparr>,
                             em_graph = lock_graph_empty max_events, em_unreleased = [],
                             em_facts = facts_default\<rparr>
                 in case (if within0 then emit_files scans (base\<lparr>cx_interproc := ip\<rparr>) out0 clock2
                          else Some (False, out0, clock2)) of
                      None \<Rightarrow> None
                    | Some (within, out, clock3) \<Rightarrow>
                        (let sk = sink_of out max_events; g = em_graph out;
                             cands = fst (scan_candidates p sk repeat max_candidates clock3);
                             threads = (0 < pg_spawn_calls p)
                         in Some (payload
                              \<lparr>pp_files = files, pp_events = sk, pp_threads_detected = threads,
                               pp_program = p, pp_candidates = cands,
                               pp_locks = lock_report_of kosaraju_scc g repeat threads,
                               pp_lock_edges = length (lg_edges g),
                               pp_lock_sites_dropped = lg_sites_dropped g,
                               pp_unreleased = em_unreleased out, pp_unreadable = unreadable,
                               pp_within_deadline = within,
                               pp_lock_summaries = fst (interproc_json ip p),
                               pp_entry_locksets = snd (interproc_json ip p),
                               pp_summaries_converged = converged,
                               pp_arguments_unresolved = fc_unresolved (em_facts out)\<rparr>)))))"

section \<open>The tool\<close>

definition concurrency_scan_budget_secs :: nat where
  "concurrency_scan_budget_secs = 120"

definition scan_timed_out :: string where
  "scan_timed_out =
     ''concurrency scan exceeded '' @ show_nat concurrency_scan_budget_secs @
     ''s and was abandoned. This pass is superlinear in the shape of the source, not only in its size: a generated or preprocessed file that puts a whole function on one line is the usual cause. Narrow the files argument, or lower max_events.''"

datatype scan_error = NoProjectLoaded | ScanTimedOut string

record concurrency_params =
  cp_files :: "string list option"
  cp_max_events :: "nat option"
  cp_max_candidates :: "nat option"
  cp_include_unshared :: "bool option"

text \<open>
  The blocking task runs beside a timer: \<open>in_time\<close> says whether a scan that returns does so before the
  timer; one that never returns is abandoned by it.
\<close>

definition analyze_concurrency ::
    "(call_graph \<Rightarrow> string list list) \<Rightarrow> (string \<Rightarrow> string + string) \<Rightarrow> string list option \<Rightarrow>
     nat \<Rightarrow> bool \<Rightarrow> concurrency_params \<Rightarrow> scan_error + json" where
  "analyze_concurrency kosaraju_scc read_file project_files clock in_time params =
     (let files = (case cp_files params of
            Some fs \<Rightarrow> if fs \<noteq> [] then fs else unwrap_or project_files []
          | None \<Rightarrow> unwrap_or project_files [])
      in if files = [] then Inl NoProjectLoaded
         else (case scan_to_deadline kosaraju_scc read_file files
                  (min (unwrap_or (cp_max_events params) 10000) 100000)
                  (min (unwrap_or (cp_max_candidates params) 2000) 20000)
                  (unwrap_or (cp_include_unshared params) False) clock of
             None \<Rightarrow> Inl (ScanTimedOut scan_timed_out)
           | Some value \<Rightarrow> if in_time then Inr value else Inl (ScanTimedOut scan_timed_out)))"

section \<open>The enumeration is complete when it says so\<close>

text \<open>
  The reference: every write that may meet itself, and every pair of accesses to one zone, in source
  order, that conflict and may run concurrently.
\<close>

definition racy :: "string set \<Rightarrow> event \<times> event \<Rightarrow> bool" where
  "racy repeat p =
     (conflicting (ev_kind (fst p)) (ev_kind (snd p)) \<and> may_run_concurrently (fst p) (snd p) repeat)"

definition same_zone :: "event \<times> event \<Rightarrow> bool" where
  "same_zone p \<longleftrightarrow> ev_zone (fst p) \<noteq> None \<and> ev_zone (fst p) = ev_zone (snd p)"

lemma same_zone_iff: "same_zone p \<longleftrightarrow> (\<exists>z. ev_zone (fst p) = Some z \<and> ev_zone (snd p) = Some z)"
  by (cases "ev_zone (fst p)") (auto simp: same_zone_def)

lemma racy_pair:
  "racy repeat (l, r) \<longleftrightarrow> conflicting (ev_kind l) (ev_kind r) \<and> may_run_concurrently l r repeat"
  by (simp add: racy_def)

definition all_candidates :: "event list \<Rightarrow> string set \<Rightarrow> json list" where
  "all_candidates events repeat =
     map self_candidate (self_writes events) @
     map (\<lambda>p. pair_candidate (fst p) (snd p))
       (filter (\<lambda>p. same_zone p \<and> racy repeat p)
         (pairs_of (filter (\<lambda>e. is_access (ev_kind e)) events)))"

lemma pairs_of_filter: "pairs_of (filter Q es) = filter (\<lambda>p. Q (fst p) \<and> Q (snd p)) (pairs_of es)"
  by (induction es) (auto simp: filter_map comp_def intro: filter_cong)

definition in_zone :: "event list \<Rightarrow> string \<Rightarrow> event list" where
  "in_zone es zone = filter (\<lambda>e. ev_zone e = Some zone) es"

lemma mset_filter_disjoint:
  "(\<And>x. \<not> (P x \<and> Q x)) \<Longrightarrow>
     mset (filter (\<lambda>x. P x \<or> Q x) xs) = mset (filter P xs) + mset (filter Q xs)"
  by (induction xs) auto

text \<open>Grouping by zone loses and adds no pair.\<close>

lemma mset_by_zone:
  "distinct zs \<Longrightarrow>
     mset (concat (map (\<lambda>z. filter P (pairs_of (in_zone es z))) zs)) =
     mset (filter (\<lambda>p. P p \<and> same_zone p \<and> the (ev_zone (fst p)) \<in> set zs) (pairs_of es))"
proof (induction zs)
  case (Cons z zs)
  let ?ps = "pairs_of es"
  let ?here = "\<lambda>p. P p \<and> ev_zone (fst p) = Some z \<and> ev_zone (snd p) = Some z"
  let ?rest = "\<lambda>p. P p \<and> same_zone p \<and> the (ev_zone (fst p)) \<in> set zs"
  have "filter P (pairs_of (in_zone es z)) = filter ?here ?ps"
    by (auto simp: in_zone_def pairs_of_filter intro: filter_cong)
  moreover have "mset (filter (\<lambda>p. ?here p \<or> ?rest p) ?ps) = mset (filter ?here ?ps) + mset (filter ?rest ?ps)"
    using Cons.prems by (intro mset_filter_disjoint) (auto simp: same_zone_iff)
  moreover have "filter (\<lambda>p. ?here p \<or> ?rest p) ?ps
      = filter (\<lambda>p. P p \<and> same_zone p \<and> the (ev_zone (fst p)) \<in> set (z # zs)) ?ps"
    by (rule filter_cong) (auto simp: same_zone_iff)
  ultimately show ?case using Cons by simp
qed simp

lemma group_zones_spec:
  "group_zones es m clock = Some (m', clock') \<Longrightarrow> ordered m \<Longrightarrow>
     ordered m' \<and> map_of m' z = (case map_of m z of
        None \<Rightarrow> if in_zone es z = [] then None else Some (in_zone es z)
      | Some xs \<Rightarrow> Some (xs @ in_zone es z))"
proof (induction es m clock rule: group_zones.induct)
  case (2 e es m clock)
  then show ?case
    by (auto simp: in_zone_def split: if_splits option.splits)
qed (auto simp: in_zone_def split: option.splits)

lemma group_zones_keys:
  assumes "group_zones es [] clock = Some (m, clock')"
  shows "distinct (map fst m)" "(z, xs) \<in> set m \<Longrightarrow> xs = in_zone es z"
    "e \<in> set es \<Longrightarrow> ev_zone e = Some z \<Longrightarrow> z \<in> fst ` set m"
proof -
  note spec = group_zones_spec [OF assms ordered_Nil]
  then have "ordered m" by blast
  then show "distinct (map fst m)" by (rule ordered_distinct)
  show "(z, xs) \<in> set m \<Longrightarrow> xs = in_zone es z"
    using spec [of z] \<open>ordered m\<close> by (auto simp: ordered_map_of split: if_splits)
  show "z \<in> fst ` set m" if "e \<in> set es" "ev_zone e = Some z"
  proof -
    from that have "in_zone es z \<noteq> []" by (auto simp: in_zone_def filter_empty_conv)
    with spec [of z] have "map_of m z \<noteq> None" by simp
    then show ?thesis by (simp add: map_of_eq_None_iff)
  qed
qed

definition grown :: "json list \<Rightarrow> candidates \<Rightarrow> candidates \<Rightarrow> bool" where
  "grown cs cd cd' \<longleftrightarrow>
     cd_cap cd' = cd_cap cd \<and> cd_total cd' = cd_total cd + length cs \<and>
     cd_emitted cd' = take (cd_cap cd) (cd_emitted cd @ cs)"

definition within_cap :: "candidates \<Rightarrow> bool" where
  "within_cap cd \<longleftrightarrow> length (cd_emitted cd) \<le> cd_cap cd"

lemma grown_trans: "grown cs cd cd' \<Longrightarrow> grown ds cd' cd'' \<Longrightarrow> grown (cs @ ds) cd cd''"
  by (auto simp: grown_def min_def not_le)

lemma grown_Nil: "within_cap cd \<Longrightarrow> cd_cap cd' = cd_cap cd \<Longrightarrow> cd_total cd' = cd_total cd \<Longrightarrow>
    cd_emitted cd' = cd_emitted cd \<Longrightarrow> grown [] cd cd'"
  by (simp add: grown_def within_cap_def)

lemma grown_push: "within_cap cd \<Longrightarrow> grown [c] cd (push_candidate c cd)"
  by (auto simp: grown_def push_candidate_def within_cap_def)

lemma grown_within: "grown cs cd cd' \<Longrightarrow> within_cap cd'"
  by (simp add: grown_def within_cap_def)

lemma self_loop_grown:
  "self_loop es cd clock = (cd', Some clock') \<Longrightarrow> within_cap cd \<Longrightarrow>
     grown (map self_candidate es) cd cd' \<and> cd_exhausted cd' = cd_exhausted cd \<and>
     cd_timed_out cd' = cd_timed_out cd"
proof (induction es cd clock rule: self_loop.induct)
  case (2 e es cd clock)
  let ?cd = "push_candidate (self_candidate e) cd"
  from 2 have "clock \<noteq> 0" "self_loop es ?cd (clock - 1) = (cd', Some clock')" by (auto split: if_splits)
  with 2 grown_push [OF 2(3), of "self_candidate e"] have "grown (map self_candidate es) ?cd cd'"
      "cd_exhausted cd' = cd_exhausted ?cd" "cd_timed_out cd' = cd_timed_out ?cd"
    by (auto dest: grown_within)
  with grown_trans [OF grown_push [OF 2(3), of "self_candidate e"]] show ?case
    by (auto simp: push_candidate_def)
qed (simp add: grown_Nil)

lemma self_loop_late: "self_loop es cd clock = (cd', None) \<Longrightarrow> cd_timed_out cd'"
  by (induction es cd clock rule: self_loop.induct) (auto split: if_splits)

lemma zone_loop_flags:
  "zone_loop ps repeat cd clock = (cd', clock') \<Longrightarrow> \<not> cd_exhausted cd' \<Longrightarrow> \<not> cd_timed_out cd' \<Longrightarrow>
     \<not> cd_exhausted cd \<and> \<not> cd_timed_out cd"
  by (induction ps repeat cd clock rule: zone_loop.induct)
    (auto simp: spend_def push_candidate_def split: if_splits)

lemma zone_loop_grown:
  "zone_loop ps repeat cd clock = (cd', clock') \<Longrightarrow> \<not> cd_exhausted cd' \<Longrightarrow> \<not> cd_timed_out cd' \<Longrightarrow>
     within_cap cd \<Longrightarrow>
     grown (map (\<lambda>p. pair_candidate (fst p) (snd p)) (filter (racy repeat) ps)) cd cd'"
proof (induction ps repeat cd clock rule: zone_loop.induct)
  case (2 left right ps repeat cd clock)
  define spent where "spent = cd\<lparr>cd_budget := cd_budget cd - 1\<rparr>"
  define pushed where "pushed = (if racy repeat (left, right) then push_candidate (pair_candidate left right) spent else spent)"
  have "within_cap spent" using 2 by (simp add: within_cap_def spent_def)
  have step: "grown (if racy repeat (left, right) then [pair_candidate left right] else []) cd pushed"
    using 2(5) \<open>within_cap spent\<close>
    by (auto simp: pushed_def spent_def grown_def push_candidate_def within_cap_def)
  from 2(2-4) have "clock \<noteq> 0" "cd_budget cd \<noteq> 0"
    by (auto simp: spend_def split: if_splits)
  with 2(2) have rest: "zone_loop ps repeat pushed (clock - 1) = (cd', clock')"
    by (auto simp: spend_def pushed_def spent_def racy_pair)
  have "grown (map (\<lambda>p. pair_candidate (fst p) (snd p)) (filter (racy repeat) ps)) pushed cd'"
    using 2(1) [of True spent] \<open>clock \<noteq> 0\<close> \<open>cd_budget cd \<noteq> 0\<close> rest 2(3,4) grown_within [OF step]
    by (simp add: spend_def spent_def pushed_def racy_pair split: if_splits)
  from grown_trans [OF step this] show ?case by (simp split: if_splits)
qed (simp add: grown_Nil)

lemma zones_loop_flags:
  "zones_loop zs repeat cd clock = (cd', clock') \<Longrightarrow> \<not> cd_exhausted cd' \<Longrightarrow> \<not> cd_timed_out cd' \<Longrightarrow>
     \<not> cd_exhausted cd \<and> \<not> cd_timed_out cd"
proof (induction zs repeat cd clock rule: zones_loop.induct)
  case (2 zone es zs repeat cd clock)
  show ?case
  proof (cases "cd_exhausted cd \<or> cd_timed_out cd")
    case True
    with 2(2-4) show ?thesis by simp
  next
    case False
    then show ?thesis by simp
  qed
qed simp

lemma zones_loop_grown:
  "zones_loop zs repeat cd clock = (cd', clock') \<Longrightarrow> \<not> cd_exhausted cd' \<Longrightarrow> \<not> cd_timed_out cd' \<Longrightarrow>
     within_cap cd \<Longrightarrow>
     grown (map (\<lambda>p. pair_candidate (fst p) (snd p))
       (concat (map (\<lambda>(z, es). filter (racy repeat) (pairs_of es)) zs))) cd cd'"
proof (induction zs repeat cd clock rule: zones_loop.induct)
  case (2 zone es zs repeat cd clock)
  from zones_loop_flags [OF 2(2-4)] have go: "\<not> (cd_exhausted cd \<or> cd_timed_out cd)" by simp
  obtain cd1 clock1 where one: "zone_candidates es repeat cd clock = (cd1, clock1)" by fastforce
  with 2(2) go have rest: "zones_loop zs repeat cd1 clock1 = (cd', clock')" by simp
  from zones_loop_flags [OF rest 2(3,4)]
  have "grown (map (\<lambda>p. pair_candidate (fst p) (snd p)) (filter (racy repeat) (pairs_of es))) cd cd1"
    using one 2(5) by (intro zone_loop_grown) (auto simp: zone_candidates_def)
  with 2(1) [OF go one [symmetric] rest 2(3,4)] show ?case
    by (auto dest: grown_within intro: grown_trans)
qed (simp add: grown_Nil)


lemma mset_by_keys:
  assumes "group_zones es [] clock = Some (m, clock')"
  shows "mset (concat (map (\<lambda>(z, xs). filter P (pairs_of xs)) m)) = mset (filter (\<lambda>p. same_zone p \<and> P p) (pairs_of es))"
proof -
  note keys = group_zones_keys [OF assms]
  have "map (\<lambda>(z, xs). filter P (pairs_of xs)) m = map (\<lambda>z. filter P (pairs_of (in_zone es z))) (map fst m)"
    using keys(2) by (auto simp: comp_def)
  then have "mset (concat (map (\<lambda>(z, xs). filter P (pairs_of xs)) m)) =
      mset (filter (\<lambda>p. P p \<and> same_zone p \<and> the (ev_zone (fst p)) \<in> set (map fst m)) (pairs_of es))"
    using mset_by_zone [OF keys(1), of P es] by metis
  moreover have "a \<in> set es" if "(a, b) \<in> set (pairs_of es)" for a b
    using that by (induction es) auto
  then have "the (ev_zone (fst p)) \<in> set (map fst m)" if "same_zone p" "p \<in> set (pairs_of es)" for p
    using that keys(3) [of "fst p"] by (cases p) (fastforce simp: same_zone_iff)
  then have "filter (\<lambda>p. P p \<and> same_zone p \<and> the (ev_zone (fst p)) \<in> set (map fst m)) (pairs_of es)
      = filter (\<lambda>p. same_zone p \<and> P p) (pairs_of es)"
    by (intro filter_cong) auto
  ultimately show ?thesis by metis
qed

lemma candidate_list_grown:
  assumes "candidate_list events repeat cap clock = (cd, clock')" "\<not> cd_exhausted cd" "\<not> cd_timed_out cd"
  shows "\<exists>cs. cd_emitted cd = take cap cs \<and> cd_total cd = length cs \<and>
    mset cs = mset (all_candidates events repeat)"
proof -
  let ?es = "filter (\<lambda>e. is_access (ev_kind e)) events"
  from assms obtain m clock1 where group_zones: "group_zones ?es [] clock = Some (m, clock1)"
    by (auto simp: candidate_list_def candidates_start_def split: option.splits)
  let ?start = "candidates_start cap (candidate_budget cap) False"
  from assms group_zones obtain cd1 clock2 where selfs:
      "self_loop (self_writes events) ?start clock1 = (cd1, Some clock2)"
    by (auto simp: candidate_list_def split: prod.splits option.splits dest: self_loop_late)
  obtain cd2 clock3 where zones: "zones_loop m repeat cd1 clock2 = (cd2, clock3)" by fastforce
  from assms(1) have cd: "cd = cd2\<lparr>cd_timed_out := cd_timed_out cd2 \<or> clock3 = 0\<rparr>"
    by (simp add: candidate_list_def group_zones selfs zones)
  have "within_cap ?start" by (simp add: within_cap_def candidates_start_def)
  with self_loop_grown [OF selfs] have one: "grown (map self_candidate (self_writes events)) ?start cd1" by blast
  from zones_loop_grown [OF zones] assms(2,3) cd grown_within [OF one]
  have "grown (map (\<lambda>p. pair_candidate (fst p) (snd p))
      (concat (map (\<lambda>(z, es). filter (racy repeat) (pairs_of es)) m))) cd1 cd2" by simp
  from grown_trans [OF one this] show ?thesis
    using mset_by_keys [OF group_zones, of "racy repeat"]
    by (intro exI [of _ "map self_candidate (self_writes events) @ map (\<lambda>p. pair_candidate (fst p) (snd p))
        (concat (map (\<lambda>(z, es). filter (racy repeat) (pairs_of es)) m))"])
      (auto simp: grown_def cd candidates_start_def all_candidates_def mset_map)
qed

text \<open>C10: when neither the budget nor the deadline stopped it, the candidate count is the number of
  candidates there are, and when the cap has room for them they are all reported: every write that may
  meet itself and every conflicting, possibly concurrent pair of accesses to one zone, and no other.
\<close>

theorem candidates_complete:
  assumes "fst (candidate_list events repeat cap clock) = cd" "\<not> cd_exhausted cd" "\<not> cd_timed_out cd"
  shows "cd_total cd = length (all_candidates events repeat) \<and>
    length (cd_emitted cd) = min cap (cd_total cd) \<and>
    set (cd_emitted cd) \<subseteq> set (all_candidates events repeat) \<and>
    (cd_total cd \<le> cap \<longrightarrow> mset (cd_emitted cd) = mset (all_candidates events repeat))"
proof -
  obtain clock' where "candidate_list events repeat cap clock = (cd, clock')"
    using assms(1) by (cases "candidate_list events repeat cap clock") auto
  from candidate_list_grown [OF this assms(2,3)] obtain cs where
    cs: "cd_emitted cd = take cap cs" "cd_total cd = length cs" "mset cs = mset (all_candidates events repeat)"
    by blast
  from cs(3) have "length cs = length (all_candidates events repeat)" "set cs = set (all_candidates events repeat)"
    by (metis size_mset, metis mset_eq_setD)
  with cs show ?thesis by (auto simp: min_def dest: in_set_takeD)
qed

text \<open>Two threads and three accesses: one write against another, one of them atomic, and a read elsewhere.\<close>

definition demo_event :: "string \<Rightarrow> string \<Rightarrow> string \<Rightarrow> string \<Rightarrow> event" where
  "demo_event i thread kind zone =
     \<lparr>ev_id = i, ev_threads = [thread], ev_may_repeat = False, ev_kind = kind, ev_file = ''s.c'',
      ev_line = 1, ev_function = thread, ev_zone = Some zone, ev_lockset = [], ev_read_locks = [],
      ev_lock_mode = None\<rparr>"

definition demo_events :: "event list" where
  "demo_events =
     [demo_event ''E1'' ''t1'' ''WRITE'' ''x'', demo_event ''E2'' ''t1'' ''READ'' ''y'',
      demo_event ''E3'' ''t2'' ''ATOMIC_RMW'' ''x'']"

theorem candidates_complete_witness:
  "cd_total (fst (candidate_list demo_events {} 5 10)) = 1 \<and>
   length (all_candidates demo_events {}) = 1"
proof -
  let ?cd = "fst (candidate_list demo_events {} 5 10)"
  have flags: "\<not> cd_exhausted ?cd" "\<not> cd_timed_out ?cd" "cd_total ?cd = 1"
    by (simp_all add: candidate_list_def demo_events_def demo_event_def is_access_def bt_entry_def
        self_writes_def candidates_start_def candidate_budget_def pairs_per_candidate_def
        zone_candidates_def spend_def push_candidate_def conflicting_def writes_def is_atomic_def
        may_run_concurrently_def threads_concurrent_def starts_with_def)
  with candidates_complete [OF refl flags(1,2)] show ?thesis by simp
qed

section \<open>Deadlock candidates\<close>

definition lock_order :: "lock_edge list \<Rightarrow> (string \<times> string) set" where
  "lock_order edges = {(a, b). a \<noteq> b \<and> (a, b) \<in> fst ` set edges}"

text \<open>Two locks in a cyclic order: each is taken, directly or through others, while the other is held.\<close>

definition cyclic :: "lock_edge list \<Rightarrow> string \<Rightarrow> string \<Rightarrow> bool" where
  "cyclic edges a b \<longleftrightarrow> (a, b) \<in> (lock_order edges)\<^sup>* \<and> (b, a) \<in> (lock_order edges)\<^sup>*"

definition edges_around :: "lock_edge list \<Rightarrow> string \<Rightarrow> lock_edge list" where
  "edges_around edges a = filter (\<lambda>((x, y), _). cyclic edges a x \<and> cyclic edges a y) edges"

lemma cyclic_sym: "cyclic edges a b \<longleftrightarrow> cyclic edges b a" by (auto simp: cyclic_def)

lemma cyclic_trans: "cyclic edges a b \<Longrightarrow> cyclic edges b c \<Longrightarrow> cyclic edges a c"
  by (auto simp: cyclic_def)

lemma cyclic_refl [simp]: "cyclic edges a a" by (simp add: cyclic_def)

lemma lock_adjacency_fold:
  "finite_edges m \<Longrightarrow>
     finite_edges (foldl (\<lambda>m ((outer, lock), _). if outer = lock then m else bt_entry outer {} (insert lock) m) m es) \<and>
     call_rel (foldl (\<lambda>m ((outer, lock), _). if outer = lock then m else bt_entry outer {} (insert lock) m) m es)
       = call_rel m \<union> lock_order es"
proof (induction es arbitrary: m)
  case (Cons e es)
  obtain a b v where e: "e = ((a, b), v)" by (metis prod.exhaust)
  let ?m = "if a = b then m else bt_entry a {} (insert b) m"
  have fin: "finite_edges ?m" using Cons.prems by (simp add: finite_edges_insert)
  have "call_rel ?m = call_rel m \<union> (if a = b then {} else {(a, b)})"
  proof (cases "a = b")
    case False
    then have fin': "finite_edges (bt_entry a {} (insert b) m)" using fin by simp
    have "set (callees (bt_entry a {} (insert b) m) f) = (if f = a then insert b (set (callees m f)) else set (callees m f))" for f
    proof (cases "map_of m f")
      case None
      then show ?thesis by (cases "f = a") (simp_all add: callees_def)
    next
      case (Some A)
      with finite_edges_callees [OF Cons.prems Some] finite_edges_callees [OF fin', of f]
      show ?thesis by (cases "f = a") (auto simp: callees_def)
    qed
    with False show ?thesis by (auto simp: call_rel_def split: if_splits)
  qed simp
  with Cons.IH [OF fin] show ?case by (auto simp: e lock_order_def)
qed (simp add: lock_order_def)

lemma lock_adjacency_rel:
  "finite_edges (lock_adjacency es)" "call_rel (lock_adjacency es) = lock_order es"
  using lock_adjacency_fold [of "[]" es]
  by (simp_all add: lock_adjacency_def finite_edges_def call_rel_def callees_def)

text \<open>The cycles are the classes of more than one lock.\<close>

lemma lock_cycles_classes:
  assumes scc: "is_scc_partition (edge_graph (lock_adjacency es)) (k (edge_graph (lock_adjacency es)))"
  shows "c \<in> set (lock_cycles k es) \<Longrightarrow> x \<in> set c \<Longrightarrow> y \<in> set c \<longleftrightarrow> cyclic es x y"
    and "cyclic es x y \<Longrightarrow> x \<noteq> y \<Longrightarrow> \<exists>c \<in> set (lock_cycles k es). x \<in> set c \<and> y \<in> set c"
proof -
  let ?G = "edge_graph (lock_adjacency es)"
  note rel = edge_graph_rel [OF lock_adjacency_rel(1), of es, unfolded lock_adjacency_rel(2)]
  have mut: "mutually_reachable (snd ?G) u v \<longleftrightarrow> cyclic es u v" for u v
    by (simp add: mutually_reachable_def cyclic_def rel(1))
  note partition = scc [unfolded is_scc_partition_def mut]
  have part1: "distinct (concat (k ?G))" and part2: "set (concat (k ?G)) = set (fst ?G)"
    and classes: "\<forall>u \<in> set (fst ?G). \<forall>v \<in> set (fst ?G).
       (\<exists>c \<in> set (k ?G). u \<in> set c \<and> v \<in> set c) \<longleftrightarrow> cyclic es u v"
    by (rule partition [THEN conjunct1], rule partition [THEN conjunct2, THEN conjunct1],
        rule partition [THEN conjunct2, THEN conjunct2, THEN conjunct2])
  have part3: "(\<exists>c \<in> set (k ?G). u \<in> set c \<and> v \<in> set c) \<longleftrightarrow> cyclic es u v"
    if "u \<in> set (fst ?G)" "v \<in> set (fst ?G)" for u v
    by (rule classes [rule_format, OF that])
  have node: "v \<in> set (fst ?G)" if uv: "cyclic es u v" and ne: "u \<noteq> v" for u v
  proof -
    from uv have "(u, v) \<in> (lock_order es)\<^sup>*" unfolding cyclic_def by simp
    then obtain w where "(w, v) \<in> lock_order es" using ne by (cases rule: rtranclE) auto
    then have "v \<in> snd ` lock_order es" by (rule rev_image_eqI) simp
    with rel(2) show ?thesis by blast
  qed
  have one: "d = d'" if "d \<in> set (k ?G)" "d' \<in> set (k ?G)" "u \<in> set d" "u \<in> set d'" for d d' u
    using part1 that unfolding distinct_concat_iff by blast
  have cyc: "c \<in> set (lock_cycles k es) \<longleftrightarrow> (\<exists>d \<in> set (k ?G). c = sort d \<and> 1 < length d)" for c
    by (auto simp: lock_cycles_def components_def)
  show "y \<in> set c \<longleftrightarrow> cyclic es x y" if c: "c \<in> set (lock_cycles k es)" and x: "x \<in> set c"
  proof -
    from c x obtain d where d: "d \<in> set (k ?G)" "c = sort d" "x \<in> set d" by (auto simp: cyc)
    then have nodes: "x \<in> set (fst ?G)" "z \<in> set d \<Longrightarrow> z \<in> set (fst ?G)" for z
      unfolding part2 [symmetric] by auto
    show ?thesis
    proof
      assume "y \<in> set c"
      then have y: "y \<in> set d" using d by simp
      with part3 [OF nodes(1) nodes(2) [OF y]] d show "cyclic es x y" by blast
    next
      assume xy: "cyclic es x y"
      show "y \<in> set c"
      proof (cases "x = y")
        case False
        from part3 [OF nodes(1) node [OF xy False]] xy
        obtain d' where "d' \<in> set (k ?G)" "x \<in> set d'" "y \<in> set d'" by blast
        with one [of d d' x] d show ?thesis by simp
      qed (use x in simp)
    qed
  qed
  show "\<exists>c \<in> set (lock_cycles k es). x \<in> set c \<and> y \<in> set c" if xy: "cyclic es x y" "x \<noteq> y"
  proof -
    have "cyclic es y x" "y \<noteq> x" using xy cyclic_sym [of es x y] by auto
    then have "x \<in> set (fst ?G)" by (rule node)
    moreover have "y \<in> set (fst ?G)" using xy by (rule node)
    ultimately obtain d where d: "d \<in> set (k ?G)" "x \<in> set d" "y \<in> set d"
      using part3 xy(1) by blast
    moreover from d(2,3) xy(2) have "\<not> length d \<le> 1" by (cases d) auto
    then have "1 < length d" by simp
    ultimately have "sort d \<in> set (lock_cycles k es)" by (auto simp: cyc)
    with d show ?thesis by (intro bexI [of _ "sort d"]) simp_all
  qed
qed

lemma component_of_class:
  assumes scc: "is_scc_partition (edge_graph (lock_adjacency es)) (k (edge_graph (lock_adjacency es)))"
    and at: "component_of (lock_cycles k es) a = Some at"
  shows "component_of (lock_cycles k es) x = Some at \<longleftrightarrow> cyclic es a x"
    and "at < length (lock_cycles k es)" "x \<in> set (lock_cycles k es ! at) \<longleftrightarrow> cyclic es a x"
proof -
  let ?cs = "lock_cycles k es"
  have found: "i < length ?cs \<and> y \<in> set (?cs ! i)" if "component_of ?cs y = Some i" for y i
  proof -
    from that obtain is' where "filter (\<lambda>i. y \<in> set (?cs ! i)) (rev [0..<length ?cs]) = i # is'"
      by (auto simp: component_of_def split: list.splits)
    then have "i \<in> set (filter (\<lambda>i. y \<in> set (?cs ! i)) (rev [0..<length ?cs]))" by simp
    then show ?thesis by simp
  qed
  have member: "y \<in> set (?cs ! i) \<longleftrightarrow> cyclic es b y" if "i < length ?cs" "b \<in> set (?cs ! i)" for i b y
    by (rule lock_cycles_classes(1) [where k = k and es = es, OF scc]) (use that in simp_all)
  show len: "at < length ?cs" and mem: "x \<in> set (?cs ! at) \<longleftrightarrow> cyclic es a x" for x
    using found [OF at] member [of at a] by auto
  show "component_of ?cs x = Some at \<longleftrightarrow> cyclic es a x"
  proof
    assume "component_of ?cs x = Some at"
    with found mem show "cyclic es a x" by blast
  next
    assume ax: "cyclic es a x"
    have "x \<in> set (?cs ! i) \<longleftrightarrow> a \<in> set (?cs ! i)" if "i < length ?cs" for i
      using member [OF that, of a x] member [OF that, of x a] ax cyclic_sym [of es a x] by blast
    then have "filter (\<lambda>i. x \<in> set (?cs ! i)) (rev [0..<length ?cs]) = filter (\<lambda>i. a \<in> set (?cs ! i)) (rev [0..<length ?cs])"
      by (intro filter_cong) auto
    with at show "component_of ?cs x = Some at" by (simp add: component_of_def)
  qed
qed

lemma edges_inside_around:
  assumes "is_scc_partition (edge_graph (lock_adjacency es)) (k (edge_graph (lock_adjacency es)))"
    and "component_of (lock_cycles k es) a = Some at"
  shows "edges_inside (lock_cycles k es) es at = edges_around es a"
  unfolding edges_inside_def edges_around_def
  by (rule filter_cong) (auto simp: component_of_class(1) [where k = k and es = es, OF assms])

text \<open>The cycle holds a write acquisition, and its first edge may run beside one of its edges.\<close>

definition alarming :: "lock_edge list \<Rightarrow> string set \<Rightarrow> string set \<Rightarrow> string \<Rightarrow> bool" where
  "alarming es writers repeat a \<longleftrightarrow>
     ((\<exists>e \<in> set (edges_around es a). es_exclusive (snd e)) \<or> (\<exists>x \<in> writers. cyclic es a x)) \<and>
     edges_around es a \<noteq> [] \<and>
     (\<exists>e \<in> set (edges_around es a).
        threads_concurrent (sorted_list_of_set (es_threads (snd (hd (edges_around es a)))))
          (sorted_list_of_set (es_threads (snd e))) repeat)"

lemma cycle_json_locks:
  "cycle_json members es repeat = Some j \<Longrightarrow> jindex j ''locks'' = jstrs members"
  by (auto simp: cycle_json_def jindex_def jget_def split: list.splits if_splits)

lemma cycle_json_Some:
  "cycle_json members es repeat \<noteq> None \<longleftrightarrow>
     es \<noteq> [] \<and> (\<exists>e \<in> set es. threads_concurrent (sorted_list_of_set (es_threads (snd (hd es))))
        (sorted_list_of_set (es_threads (snd e))) repeat)"
  by (cases es) (auto simp: cycle_json_def list_ex_iff case_prod_beta)

lemma jstrs_inj [simp]: "jstrs xs = jstrs ys \<longleftrightarrow> xs = ys"
  by (auto simp: jstrs_def inj_map_eq_map inj_def)

text \<open>C23: two locks are reported in one deadlock candidate exactly when they are taken in a cyclic order and
  the cycle is alarming: some acquisition in it is exclusive, and its first edge may run beside one of
  its edges.
\<close>

theorem deadlocks_are_alarming_cycles:
  assumes scc: "is_scc_partition (edge_graph (lock_adjacency (lg_edges g))) (k (edge_graph (lock_adjacency (lg_edges g))))"
    and "a \<noteq> b"
  shows "(\<exists>j \<in> set (lr_deadlocks (lock_report_of k g repeat True)).
            \<exists>c. jindex j ''locks'' = jstrs c \<and> a \<in> set c \<and> b \<in> set c)
     \<longleftrightarrow> cyclic (lg_edges g) a b \<and> alarming (lg_edges g) (lg_writers g) repeat a"
proof -
  let ?es = "lg_edges g" let ?cs = "lock_cycles k ?es"
  note at_class = component_of_class [where k = k and es = ?es, OF scc]
  have report: "j \<in> set (lr_deadlocks (lock_report_of k g repeat True)) \<longleftrightarrow>
      (\<exists>at < length ?cs. \<not> readers_only (?cs ! at) (edges_inside ?cs ?es at) (lg_writers g) \<and>
         cycle_json (?cs ! at) (edges_inside ?cs ?es at) repeat = Some j)" for j
    by (auto simp: lock_report_of_def Let_def set_map_filter_eq split: if_splits)
  have alarm: "\<not> readers_only (?cs ! at) (edges_around ?es a) (lg_writers g) \<and>
      cycle_json (?cs ! at) (edges_around ?es a) repeat \<noteq> None \<longleftrightarrow> alarming ?es (lg_writers g) repeat a"
    if "component_of ?cs a = Some at" for at
    using at_class(3) [OF that] unfolding cycle_json_Some
    by (auto simp: alarming_def readers_only_def list_all_iff list_ex_iff case_prod_beta)
  show ?thesis
  proof
    assume "\<exists>j \<in> set (lr_deadlocks (lock_report_of k g repeat True)).
        \<exists>c. jindex j ''locks'' = jstrs c \<and> a \<in> set c \<and> b \<in> set c"
    then obtain j c where j: "j \<in> set (lr_deadlocks (lock_report_of k g repeat True))"
        "jindex j ''locks'' = jstrs c" "a \<in> set c" "b \<in> set c" by blast
    from j(1) obtain at where at: "at < length ?cs" "\<not> readers_only (?cs ! at) (edges_inside ?cs ?es at) (lg_writers g)"
        "cycle_json (?cs ! at) (edges_inside ?cs ?es at) repeat = Some j"
      unfolding report by blast
    from cycle_json_locks [OF at(3)] j(2) have "c = ?cs ! at" by simp
    with at j(3,4) have at: "at < length ?cs" "\<not> readers_only (?cs ! at) (edges_inside ?cs ?es at) (lg_writers g)"
        "cycle_json (?cs ! at) (edges_inside ?cs ?es at) repeat = Some j" "a \<in> set (?cs ! at)" "b \<in> set (?cs ! at)"
      by simp_all
    have "cyclic ?es a b"
      using lock_cycles_classes(1) [where k = k and es = ?es, OF scc, of "?cs ! at" a b] at by simp
    from at(3) obtain e where e: "e \<in> set (edges_inside ?cs ?es at)"
      using cycle_json_Some [of "?cs ! at" "edges_inside ?cs ?es at" repeat] by auto
    then obtain x where "component_of ?cs x = Some at" by (auto simp: edges_inside_def)
    with at_class(1,3) at(4) cyclic_sym have comp: "component_of ?cs a = Some at" by metis
    have "edges_inside ?cs ?es at = edges_around ?es a"
      by (rule edges_inside_around [where k = k and es = ?es, OF scc comp])
    with at alarm [OF comp] have "alarming ?es (lg_writers g) repeat a" by auto
    with \<open>cyclic ?es a b\<close> show "cyclic ?es a b \<and> alarming ?es (lg_writers g) repeat a" by blast
  next
    assume ab: "cyclic ?es a b \<and> alarming ?es (lg_writers g) repeat a"
    then obtain c where "c \<in> set ?cs" "a \<in> set c"
      using lock_cycles_classes(2) [where k = k and es = ?es, OF scc, of a b] assms(2) by blast
    then obtain i where "i < length ?cs" "a \<in> set (?cs ! i)" by (metis in_set_conv_nth)
    then have "i \<in> set (filter (\<lambda>i. a \<in> set (?cs ! i)) (rev [0..<length ?cs]))" by simp
    then obtain at where comp: "component_of ?cs a = Some at"
      unfolding component_of_def by (cases "filter (\<lambda>i. a \<in> set (?cs ! i)) (rev [0..<length ?cs])") auto
    have inside: "edges_inside ?cs ?es at = edges_around ?es a"
      by (rule edges_inside_around [where k = k and es = ?es, OF scc comp])
    with alarm [OF comp] ab obtain j where j: "cycle_json (?cs ! at) (edges_inside ?cs ?es at) repeat = Some j"
        "\<not> readers_only (?cs ! at) (edges_inside ?cs ?es at) (lg_writers g)" by auto
    with at_class(2) [OF comp] have "j \<in> set (lr_deadlocks (lock_report_of k g repeat True))"
      unfolding report by blast
    moreover have "a \<in> set (?cs ! at)" "b \<in> set (?cs ! at)"
      using at_class(3) [OF comp] ab by auto
    ultimately show "\<exists>j \<in> set (lr_deadlocks (lock_report_of k g repeat True)).
        \<exists>c. jindex j ''locks'' = jstrs c \<and> a \<in> set c \<and> b \<in> set c"
      using cycle_json_locks [OF j(1)] by blast
  qed
qed

text \<open>\<open>t1\<close> takes \<open>a\<close> then \<open>b\<close> and \<open>t2\<close> takes them the other way round.\<close>

definition demo_edge :: "string \<Rightarrow> edge_sites" where
  "demo_edge thread = \<lparr>es_sites = [], es_count = 1, es_threads = {thread}, es_exclusive = True\<rparr>"

definition demo_graph_locks :: lock_graph where
  "demo_graph_locks = (lock_graph_empty 10)\<lparr>lg_edges := [((''a'', ''b''), demo_edge ''t1''), ((''b'', ''a''), demo_edge ''t2'')]\<rparr>"

definition one_class :: "call_graph \<Rightarrow> string list list" where
  "one_class g = [fst g]"

theorem deadlocks_are_alarming_cycles_witness:
  "\<exists>j \<in> set (lr_deadlocks (lock_report_of one_class demo_graph_locks {} True)).
     \<exists>c. jindex j ''locks'' = jstrs c \<and> ''a'' \<in> set c \<and> ''b'' \<in> set c"
proof -
  let ?es = "lg_edges demo_graph_locks"
  have order: "(''a'', ''b'') \<in> lock_order ?es" "(''b'', ''a'') \<in> lock_order ?es"
    by (auto simp: lock_order_def demo_graph_locks_def)
  then have cyc: "cyclic ?es ''a'' ''b''" by (auto simp: cyclic_def)
  have graph: "edge_graph (lock_adjacency ?es) = ([''a'', ''b''], [(''a'', ''b''), (''b'', ''a'')])"
    by code_simp
  have "mutually_reachable [(''a'', ''b''), (''b'', ''a'')] u v" if "u \<in> {''a'', ''b''}" "v \<in> {''a'', ''b''}" for u v
    using that by (auto simp: mutually_reachable_def)
  then have scc: "is_scc_partition (edge_graph (lock_adjacency ?es)) (one_class (edge_graph (lock_adjacency ?es)))"
    by (auto simp: graph one_class_def is_scc_partition_def)
  have around: "edges_around ?es ''a'' = ?es"
    using cyc cyclic_sym by (simp add: edges_around_def demo_graph_locks_def)
  have "alarming ?es (lg_writers demo_graph_locks) {} ''a''"
    unfolding alarming_def around
    by (simp add: demo_graph_locks_def demo_edge_def threads_concurrent_def)
  with cyc deadlocks_are_alarming_cycles [where g = demo_graph_locks and k = one_class and repeat = "{}"
      and a = "''a''" and b = "''b''", OF scc]
  show ?thesis by simp
qed

end
