(* ===== verification/Mcp_Errors.thy ===== *)
theory Mcp_Errors
  imports Codec Gates
begin

text \<open>
  How a failure of the Frama-C connection becomes the error a tool call answers with
  (src/src/error.rs): the structured payload every such error carries, the classification of a server
  message, and \<open>From<FramaCError> for McpError\<close>. The texts the operating system and the decoders
  supply (\<open>std::io::Error\<close>, \<open>serde_json::Error\<close>, the UTF-8 and integer parsers) are fields of
  \<open>error_texts\<close>.
\<close>

named_theorems mcp_simps \<open>errors of tool calls\<close>

section \<open>Structured errors\<close>

text \<open>\<open>rmcp::ErrorData\<close>: a JSON-RPC code, a message and optional data.\<close>

datatype error_code = InvalidRequest | InvalidParams | InternalError

record mcp_error =
  mcp_code :: error_code
  mcp_message :: string
  mcp_data :: "json option"

definition mcp_error_of :: "error_code \<Rightarrow> string \<Rightarrow> json option \<Rightarrow> mcp_error" where
  "mcp_error_of c m d = \<lparr>mcp_code = c, mcp_message = m, mcp_data = d\<rparr>"

lemma mcp_error_of_simps [simp]:
  "mcp_code (mcp_error_of c m d) = c"
  "mcp_message (mcp_error_of c m d) = m"
  "mcp_data (mcp_error_of c m d) = d"
  by (simp_all add: mcp_error_of_def)

text \<open>\<open>value["name"] = x\<close> on an object: the field is replaced, or appended when it is new.\<close>

definition set_field :: "string \<Rightarrow> json \<Rightarrow> json \<Rightarrow> json" where
  "set_field k x v = on_object (AList.update k x) v"

lemma jget_set_field: "jget (set_field k x (JObj m)) j = (if j = k then Some x else map_of m j)"
  by (simp add: set_field_def)

definition structured_error_data :: "string \<Rightarrow> string \<Rightarrow> bool \<Rightarrow> json option \<Rightarrow> json" where
  "structured_error_data kind message retryable suggestion =
     (let payload = JObj [(''kind'', JStr kind), (''message'', JStr message), (''retryable'', JBool retryable)]
      in case suggestion of None \<Rightarrow> payload | Some s \<Rightarrow> set_field ''suggestion'' s payload)"

definition structured_error :: "error_code \<Rightarrow> string \<Rightarrow> string \<Rightarrow> bool \<Rightarrow> json option \<Rightarrow> mcp_error" where
  "structured_error c kind message retryable suggestion =
     mcp_error_of c message (Some (structured_error_data kind message retryable suggestion))"

definition structured_invalid_params :: "string \<Rightarrow> string \<Rightarrow> bool \<Rightarrow> json option \<Rightarrow> mcp_error" where
  "structured_invalid_params = structured_error InvalidParams"

definition structured_invalid_request :: "string \<Rightarrow> string \<Rightarrow> bool \<Rightarrow> json option \<Rightarrow> mcp_error" where
  "structured_invalid_request = structured_error InvalidRequest"

definition structured_internal_error :: "string \<Rightarrow> string \<Rightarrow> bool \<Rightarrow> json option \<Rightarrow> mcp_error" where
  "structured_internal_error = structured_error InternalError"

lemmas structured_defs = structured_invalid_params_def structured_invalid_request_def
  structured_internal_error_def

definition map_data :: "(json \<Rightarrow> json) \<Rightarrow> mcp_error \<Rightarrow> mcp_error" where
  "map_data f e = e\<lparr>mcp_data := map_option f (mcp_data e)\<rparr>"

lemma map_data_simps [simp]:
  "mcp_code (map_data f e) = mcp_code e"
  "mcp_message (map_data f e) = mcp_message e"
  "mcp_data (map_data f e) = map_option f (mcp_data e)"
  by (simp_all add: map_data_def)

section \<open>Failure kinds\<close>

definition failure_kind_for_error_kind :: "string \<Rightarrow> string" where
  "failure_kind_for_error_kind kind =
     (if kind = ''MissingProver'' then ''missing_prover''
      else if kind = ''MissingWhy3Config'' then ''missing_why3_config''
      else if kind = ''Why3Anomaly'' then ''frama_c_internal''
      else if kind = ''MissingPluginRequest'' then ''missing_plugin_request''
      else if kind = ''AcslParseError'' then ''acsl_parse_error''
      else if kind = ''MissingHeader'' then ''missing_header''
      else if kind = ''RequestRejected'' then ''request_rejected''
      else if kind = ''RequestKilled'' then ''request_cancelled''
      else if kind = ''WpTimeout'' then ''mcp_timeout''
      else if kind = ''FramaCServerError'' \<or> kind = ''FramaCCommandFailed'' then ''frama_c_internal''
      else ''unknown'')"

definition failure_kind_for_timeout_triage :: "string \<Rightarrow> string" where
  "failure_kind_for_timeout_triage kind =
     (if kind = ''prover_timeout'' then ''prover_timeout''
      else if kind = ''mcp_server_timeout'' then ''mcp_timeout''
      else if kind = ''rejected_task'' then ''request_rejected''
      else if kind = ''cancelled_task'' then ''request_cancelled''
      else if kind = ''status_propagation_delay'' then ''status_pending''
      else ''unknown'')"

definition with_failure_kind :: "string \<Rightarrow> mcp_error \<Rightarrow> mcp_error" where
  "with_failure_kind kind e = map_data (set_field ''failure_kind'' (JStr kind)) e"

definition error_timeout_triage :: "string \<Rightarrow> bool \<Rightarrow> string \<Rightarrow> string \<Rightarrow> json" where
  "error_timeout_triage kind retry confidence reason =
     JObj [(''kind'', JStr kind), (''retry_with_higher_prover_timeout'', JBool retry),
           (''confidence'', JStr confidence), (''reason'', JStr reason), (''evidence'', JArr [])]"

definition with_timeout_triage :: "json \<Rightarrow> mcp_error \<Rightarrow> mcp_error" where
  "with_timeout_triage triage e =
     (let kind = (case get_str triage ''kind'' of None \<Rightarrow> ''unknown''
                  | Some k \<Rightarrow> failure_kind_for_timeout_triage k)
      in map_data (\<lambda>d. set_field ''failure_kind'' (JStr kind) (set_field ''wp_timeout_triage'' triage d)) e)"

section \<open>The header a message names\<close>

definition find_at :: "string \<Rightarrow> string \<Rightarrow> nat option" where
  "find_at pat s = map_option (\<lambda>(a, b). length a) (split_once pat s)"

definition strip_suffix :: "string \<Rightarrow> string \<Rightarrow> string option" where
  "strip_suffix suf s = (if suffix suf s then Some (take (length s - length suf) s) else None)"

text \<open>The text after the last occurrence of a character, when there is one.\<close>

definition after_last :: "char \<Rightarrow> string \<Rightarrow> string option" where
  "after_last c s = (if c \<in> set s then Some (rev (takeWhile (\<lambda>x. x \<noteq> c) (rev s))) else None)"

abbreviation apostrophe :: char where
  "apostrophe \<equiv> CHR 0x27"

text \<open>
  Clang writes \<open>'name' file not found\<close>, GCC \<open>name: No such file or directory\<close>. The GCC name is the
  piece after the last blank, which for a text without trailing blanks is its last word.
\<close>

definition missing_file_name :: "string \<Rightarrow> string option" where
  "missing_file_name msg =
     (let lower = map to_ascii_lowercase msg;
          clang = Option.bind (find_at ''file not found'' lower)
                    (\<lambda>at. Option.bind (strip_suffix [apostrophe] (trim_end (take at msg)))
                            (after_last apostrophe))
      in case clang of
           Some name \<Rightarrow> Some name
         | None \<Rightarrow>
             Option.bind (find_at ''no such file or directory'' lower)
               (\<lambda>at. Option.bind (strip_suffix '':'' (trim_end (take at msg)))
                       (\<lambda>name. case split_whitespace (trim_end name) of
                                   [] \<Rightarrow> Some []
                                 | ws \<Rightarrow> Some (last ws))))"

definition missing_header_name :: "string \<Rightarrow> string option" where
  "missing_header_name msg =
     (case missing_file_name msg of
        None \<Rightarrow> None
      | Some name \<Rightarrow> if ends_with name ''.h'' then Some name else None)"

text \<open>\<open>Path::extension\<close>: of the last named component, what follows its last dot unless that is its
  first character.\<close>

definition path_extension :: "string \<Rightarrow> string option" where
  "path_extension name =
     (case rev (filter (\<lambda>c. c \<noteq> [] \<and> c \<noteq> ''.'') (split_on (CHR ''/'') name)) of
        [] \<Rightarrow> None
      | base # _ \<Rightarrow>
          if base = ''..'' then None
          else (case after_last (CHR ''.'') base of
                  None \<Rightarrow> None
                | Some ext \<Rightarrow> if length ext + 1 = length base then None else Some ext))"

definition missing_extensionless_name :: "string \<Rightarrow> string option" where
  "missing_extensionless_name msg =
     (case missing_file_name msg of
        None \<Rightarrow> None
      | Some name \<Rightarrow> if path_extension name = None then Some name else None)"

section \<open>Classifying a server message\<close>

definition self_check_hint :: json where
  "self_check_hint = JObj [(''tool'', JStr ''self_check''), (''args_example'', JObj [])]"

definition dead_include_checks :: json where
  "dead_include_checks = jstrs [''include_is_dead'', ''include_paths'', ''declaration_only_stub'']"

definition missing_header_hint :: "string \<Rightarrow> json" where
  "missing_header_hint header =
     JObj [(''tool'', JStr ''reload_project''), (''missing_header'', JStr header),
           (''args_example'',
              JObj [(''include_paths'', jstrs [''<directory containing the header>''])]),
           (''checks'', dead_include_checks),
           (''see'', JStr ''docs/agent-playbook.md#a-file-that-never-parsed-and-the-unit-of-verification''),
           (''reason'',
              JStr (''The preprocessor could not resolve '' @ header @ '', so nothing '' @
                    ''that includes it was parsed and it has no goals.''))]"

definition why3_anomaly_hint :: json where
  "why3_anomaly_hint =
     JObj [(''tool'', JStr ''self_check''), (''args_example'', JObj []),
           (''reason'',
              JStr (''Why3 aborted rather than answering, so nothing here is a verdict on '' @
                    ''the C code or the ACSL. Record the Frama-C, Why3, and prover versions '' @
                    ''before changing an annotation. Under Typed+nocast a pointer cast '' @
                    ''reaching a goal is the usual cause and the same contract proves under '' @
                    ''Typed+cast.''))]"

definition acsl_parse_hint :: json where
  "acsl_parse_hint =
     JObj [(''tool'', JStr ''inject_all_annotations''),
           (''args_example'',
              JObj [(''function'', JStr ''<func_name>''), (''dry_run'', JBool True),
                    (''proposed_requires'', JArr [JObj [(''acsl'', JStr ''<fixed predicate>'')]])])]"

definition contains_any :: "string \<Rightarrow> string list \<Rightarrow> bool" where
  "contains_any s needles \<longleftrightarrow> (\<exists>n \<in> set needles. str_contains s n)"

definition classify_server_error :: "string \<Rightarrow> string \<times> bool \<times> json option" where
  "classify_server_error msg =
     (let lower = map to_ascii_lowercase msg
      in case missing_header_name msg of
           Some header \<Rightarrow> (''MissingHeader'', False, Some (missing_header_hint header))
         | None \<Rightarrow>
             if why3_aborted lower then (''Why3Anomaly'', False, Some why3_anomaly_hint)
             else if str_contains lower ''why3'' \<and>
                     contains_any lower [''config'', ''configuration'', ''not configured'', ''no prover'', ''not found'']
             then (''MissingWhy3Config'', False, Some self_check_hint)
             else if str_contains lower ''prover'' \<and>
                     contains_any lower [''not found'', ''unknown'', ''missing'', ''not available'']
             then (''MissingProver'', False, Some self_check_hint)
             else if contains_any lower [''unknown request'', ''request not found'', ''unbound request'']
             then (''MissingPluginRequest'', False, Some self_check_hint)
             else if str_contains lower ''acsl'' \<and>
                     contains_any lower [''parse'', ''syntax'', ''logic_typing'', ''typing'']
             then (''AcslParseError'', False, Some acsl_parse_hint)
             else (''FramaCServerError'', False, None))"

section \<open>Errors with a fixed shape\<close>

definition missing_header_startup_error :: "string \<Rightarrow> mcp_error option" where
  "missing_header_startup_error message =
     map_option
       (\<lambda>header.
          with_failure_kind (failure_kind_for_error_kind ''MissingHeader'')
            (structured_internal_error ''MissingHeader'' message False
               (Some (JObj [(''tool'', JStr ''reload_project''), (''missing_header'', JStr header),
                            (''checks'', dead_include_checks)]))))
       (missing_header_name message)"

definition no_project_loaded_error :: mcp_error where
  "no_project_loaded_error =
     structured_invalid_params ''NoProjectLoaded''
       ''No project loaded. Call reload_project(files=[...]) first to spawn main frama-c.'' True
       (Some (JObj [(''tool'', JStr ''reload_project''),
                    (''args_example'', JObj [(''files'', jstrs [''/path/to/source.c''])])]))"

definition quoted :: "string \<Rightarrow> string" where
  "quoted s = apostrophe # s @ [apostrophe]"

definition sandbox_not_found_error :: "string \<Rightarrow> string list \<Rightarrow> mcp_error" where
  "sandbox_not_found_error experiment_id existing =
     mcp_error_of InvalidParams (''sandbox not found: '' @ experiment_id)
       (Some (set_field ''existing_sandboxes'' (jstrs existing)
                (structured_error_data ''SandboxNotFound''
                   (''Sandbox '' @ quoted experiment_id @
                    '' missing. Call create_sandbox(function=..., experiment_id='' @
                    quoted experiment_id @ '') first.'')
                   True
                   (Some (JObj [(''tool'', JStr ''create_sandbox''),
                                (''args_example'',
                                   JObj [(''function'', JStr ''<func_name>''),
                                         (''experiment_id'', JStr experiment_id)])])))))"

definition project_locked_error :: "string \<Rightarrow> mcp_error" where
  "project_locked_error message =
     structured_invalid_params ''ProjectLocked'' message True
       (Some (JObj [(''tool'', JStr ''verify_program_step''),
                    (''args_example'', JObj [(''lock_project'', JBool False)])]))"

text \<open>The two locations of a stale marker are values already turned into JSON.\<close>

definition stale_marker_error :: "string \<Rightarrow> json \<Rightarrow> json \<Rightarrow> string \<Rightarrow> json \<Rightarrow> mcp_error" where
  "stale_marker_error marker previous current refresh_tool refresh_args =
     (let data = structured_error_data ''StaleMarker''
                   (''marker '' @ quoted marker @ '' changed location after reload_project'') True None;
          data = set_field ''marker'' (JStr marker) data;
          data = set_field ''previous'' previous data;
          data = set_field ''current'' current data;
          data = set_field ''suggestion''
                   (JObj [(''tool'', JStr refresh_tool), (''args'', refresh_args),
                          (''reason'', JStr ''Refresh marker-bearing Frama-C output after reload_project.'')])
                   data
      in mcp_error_of InvalidParams (unwrap_or (as_str (jindex data ''message'')) []) (Some data))"

section \<open>From a connection failure to a tool error\<close>

record error_texts =
  io_text :: "io_error \<Rightarrow> string"
  json_text :: string
  header_utf8_text :: string
  header_hex_text :: "string \<Rightarrow> string"
  payload_utf8_text :: string

fun frame_fault_text :: "error_texts \<Rightarrow> frame_fault \<Rightarrow> string" where
  "frame_fault_text T (UnexpectedPrefix c) = ''unexpected frame prefix byte: 0x'' @ format_hex 2 (byte_of c)"
| "frame_fault_text T HeaderNotUtf8 = ''invalid UTF-8 in frame header: '' @ header_utf8_text T"
| "frame_fault_text T (HeaderNotHex s) =
     ''invalid hex in frame header '' @ quoted s @ '': '' @ header_hex_text T s"
| "frame_fault_text T (FrameTooLarge n) =
     ''frame declares '' @ show_nat n @ '' bytes, over the '' @ show_nat max_frame_payload_bytes @
     '' byte limit; the server is out of sync or the header is corrupt''"
| "frame_fault_text T PayloadNotUtf8 = ''invalid UTF-8 in frame payload: '' @ payload_utf8_text T"

text \<open>\<open>Duration\<close>'s \<open>Debug\<close> form, of a whole number of milliseconds.\<close>

definition show_duration_ms :: "nat \<Rightarrow> string" where
  "show_duration_ms ms =
     (if ms = 0 then ''0ns''
      else if ms < 1000 then show_nat ms @ ''ms''
      else if ms mod 1000 = 0 then show_nat (ms div 1000) @ ''s''
      else show_nat (ms div 1000) @ ''.'' @
           rev (dropWhile (\<lambda>c. c = CHR ''0'') (rev (pad_left 3 (CHR ''0'') (show_nat (ms mod 1000))))) @ ''s'')"

text \<open>\<open>Display\<close>, as \<open>thiserror\<close> derives it from the \<open>#[error(...)]\<close> attributes.\<close>

fun display_error :: "error_texts \<Rightarrow> frama_c_error \<Rightarrow> string" where
  "display_error T (Io e) = ''I/O error: '' @ io_text T e"
| "display_error T JsonError = ''JSON error: '' @ json_text T"
| "display_error T (InvalidFrame f) = ''Invalid frame: '' @ frame_fault_text T f"
| "display_error T (ServerError ident msg) = ''Frama-C server error ['' @ ident @ '']: '' @ msg"
| "display_error T (Rejected ident) = ''Request rejected ['' @ ident @ '']''"
| "display_error T (Killed ident) = ''Request killed ['' @ ident @ '']''"
| "display_error T (CommandFailed kind ident msg d) = ''Frama-C command '' @ kind @ '' ['' @ ident @ '']: '' @ msg"
| "display_error T ConnectTimeout = ''Connection timeout: waiting for CMDLINEOFF''"
| "display_error T (Timeout ms) = ''Operation timeout after '' @ show_duration_ms ms"
| "display_error T (UnexpectedResponse s) = ''Unexpected response: '' @ s"
| "display_error T (FunctionNotFound s) = ''Function not found: '' @ s"
| "display_error T (GlobalNotFound s) = ''Global variable not found: '' @ s"
| "display_error T (SymbolNotFound s) = ''Symbol not found: '' @ s"

definition u64_json :: "u64 \<Rightarrow> json" where
  "u64_json n = JNum (PosInt n)"

definition diagnostics_json :: "request_diagnostics \<Rightarrow> json" where
  "diagnostics_json d =
     JObj [(''request_id'', JStr (request_id d)), (''request'', JStr (Errors.request d)),
           (''queued_task_id'', jopt JStr (queued_task_id d)),
           (''signal_count'', u64_json (signal_count d)),
           (''elapsed_ms'', jopt u64_json (elapsed_ms d)),
           (''final_result'', jopt JStr (final_result d)),
           (''cancellation_result'', jopt JStr (cancellation_result d)),
           (''rejected_command_id'', jopt JStr (rejected_command_id d))]"

definition command_error_kind :: "string \<Rightarrow> string \<Rightarrow> string \<times> bool \<times> json option" where
  "command_error_kind kind msg =
     (if kind = ''ERROR'' then classify_server_error msg
      else if kind = ''REJECTED'' then (''RequestRejected'', True, Some self_check_hint)
      else if kind = ''KILLED'' then (''RequestKilled'', True, None)
      else if kind = ''TIMEOUT'' then (''WpTimeout'', True, None)
      else (''FramaCCommandFailed'', False, None))"

definition command_triage :: "string \<Rightarrow> json" where
  "command_triage kind =
     error_timeout_triage
       (if kind = ''REJECTED'' then ''rejected_task''
        else if kind = ''KILLED'' then ''cancelled_task'' else ''mcp_server_timeout'')
       False ''high'' ''Frama-C command polling ended before a successful DATA response.''"

fun to_mcp_error :: "error_texts \<Rightarrow> frama_c_error \<Rightarrow> mcp_error" where
  "to_mcp_error T (ServerError ident msg) =
     (case classify_server_error msg of (kind, retryable, suggestion) \<Rightarrow>
        with_failure_kind (failure_kind_for_error_kind kind)
          (structured_internal_error kind msg retryable suggestion))"
| "to_mcp_error T (Rejected ident) =
     with_timeout_triage
       (error_timeout_triage ''rejected_task'' False ''high''
          ''Frama-C rejected the request; increasing WP prover timeout is not useful.'')
       (structured_invalid_request ''RequestRejected'' (''rejected: '' @ ident) True (Some self_check_hint))"
| "to_mcp_error T (Killed ident) =
     with_timeout_triage
       (error_timeout_triage ''cancelled_task'' False ''high''
          ''Frama-C reported the request was killed or cancelled.'')
       (structured_internal_error ''RequestKilled'' (''killed: '' @ ident) True None)"
| "to_mcp_error T (CommandFailed kind ident msg diagnostics) =
     (case command_error_kind kind msg of (error_kind, retryable, suggestion) \<Rightarrow>
        (let e = (if kind = ''REJECTED'' then structured_invalid_request error_kind msg retryable suggestion
                  else structured_internal_error error_kind msg retryable suggestion);
             e = with_failure_kind (failure_kind_for_error_kind error_kind) e;
             e = map_data (set_field ''frama_c_protocol'' (diagnostics_json diagnostics)) e
         in if kind = ''TIMEOUT'' \<or> kind = ''KILLED'' \<or> kind = ''REJECTED''
            then with_timeout_triage (command_triage kind) e else e))"
| "to_mcp_error T ConnectTimeout =
     with_timeout_triage
       (error_timeout_triage ''mcp_server_timeout'' False ''high''
          ''The MCP client timed out before the Frama-C server was ready.'')
       (structured_internal_error ''ConnectionTimeout'' ''connection timeout'' True (Some self_check_hint))"
| "to_mcp_error T (Timeout ms) =
     with_timeout_triage
       (error_timeout_triage ''mcp_server_timeout'' False ''high''
          ''The MCP request timed out before a WP goal reported prover timeout.'')
       (structured_internal_error ''WpTimeout'' (''timeout after '' @ show_duration_ms ms) True None)"
| "to_mcp_error T (FunctionNotFound name) =
     structured_invalid_params ''FunctionNotFound'' (''function not found: '' @ name) False None"
| "to_mcp_error T (GlobalNotFound name) =
     structured_invalid_params ''GlobalNotFound'' (''global variable not found: '' @ name) False None"
| "to_mcp_error T (SymbolNotFound name) =
     structured_invalid_params ''SymbolNotFound'' (''symbol not found: '' @ name) False None"
| "to_mcp_error T other = structured_internal_error ''FramaCError'' (display_error T other) False None"

section \<open>What an answered error carries\<close>

text \<open>The fields a client reads off the data of an error.\<close>

definition data_field :: "mcp_error \<Rightarrow> string \<Rightarrow> json option" where
  "data_field e k = Option.bind (mcp_data e) (\<lambda>d. jget d k)"

text \<open>Errors whose data is an object.\<close>

definition has_data :: "mcp_error \<Rightarrow> bool" where
  "has_data e \<longleftrightarrow> (\<exists>m. mcp_data e = Some (JObj m))"

lemma has_data_structured [mcp_simps]: "has_data (structured_error c k m r s)"
  by (auto simp: has_data_def structured_error_def structured_error_data_def set_field_def Let_def
      split: option.splits)

lemma has_data_set [mcp_simps]: "has_data e \<Longrightarrow> has_data (map_data (set_field j x) e)"
  by (auto simp: has_data_def set_field_def)

lemma data_field_set [mcp_simps]:
  "has_data e \<Longrightarrow> data_field (map_data (set_field j x) e) k = (if k = j then Some x else data_field e k)"
  by (auto simp: has_data_def data_field_def jget_set_field)

lemma data_field_structured [mcp_simps]:
  "data_field (structured_error c k m r s) f =
     (if f = ''kind'' then Some (JStr k) else if f = ''message'' then Some (JStr m)
      else if f = ''retryable'' then Some (JBool r) else if f = ''suggestion'' then s else None)"
  by (simp add: data_field_def structured_error_def structured_error_data_def set_field_def Let_def
      split: option.splits)

lemma code_structured [mcp_simps]:
  "mcp_code (structured_error c k m r s) = c" "mcp_message (structured_error c k m r s) = m"
  by (simp_all add: structured_error_def)

lemma with_timeout_triage_map [mcp_simps]:
  "with_timeout_triage (error_timeout_triage k r c why) e =
     map_data (set_field ''failure_kind'' (JStr (failure_kind_for_timeout_triage k)))
       (map_data (set_field ''wp_timeout_triage'' (error_timeout_triage k r c why)) e)"
  by (simp add: with_timeout_triage_def error_timeout_triage_def get_str_def map_data_def
      option.map_comp comp_def)

lemma with_failure_kind_map [mcp_simps]:
  "with_failure_kind k e = map_data (set_field ''failure_kind'' (JStr k)) e"
  by (simp add: with_failure_kind_def)

lemma classified_kinds:
  "classify_server_error msg = (kind, retryable, suggestion) \<Longrightarrow>
   retryable = False \<and>
   kind \<in> {''MissingHeader'', ''Why3Anomaly'', ''MissingWhy3Config'', ''MissingProver'',
           ''MissingPluginRequest'', ''AcslParseError'', ''FramaCServerError''}"
  by (auto simp: classify_server_error_def Let_def split: option.splits if_splits)

definition retryable_kinds :: "string list" where
  "retryable_kinds = [''RequestRejected'', ''RequestKilled'', ''WpTimeout'', ''ConnectionTimeout'']"

text \<open>The failures that end a request without a verdict: rejected, cancelled or out of time.\<close>

fun ends_without_verdict :: "frama_c_error \<Rightarrow> bool" where
  "ends_without_verdict (Rejected ident) = True"
| "ends_without_verdict (Killed ident) = True"
| "ends_without_verdict ConnectTimeout = True"
| "ends_without_verdict (Timeout ms) = True"
| "ends_without_verdict (CommandFailed kind ident msg d) = (kind \<in> {''TIMEOUT'', ''KILLED'', ''REJECTED''})"
| "ends_without_verdict _ = False"


lemma jget_triage [mcp_simps]:
  "jget (error_timeout_triage k r c why) ''retry_with_higher_prover_timeout'' = Some (JBool r)"
  by (simp add: error_timeout_triage_def)

text \<open>What is promised of the error a failure becomes.\<close>

definition structured_answer :: "frama_c_error \<Rightarrow> mcp_error \<Rightarrow> bool" where
  "structured_answer e m \<longleftrightarrow>
     data_field m ''message'' = Some (JStr (mcp_message m)) \<and>
     (\<exists>k r. data_field m ''kind'' = Some (JStr k) \<and> data_field m ''retryable'' = Some (JBool r) \<and>
        (mcp_code m = InvalidRequest \<longleftrightarrow> k = ''RequestRejected'') \<and>
        (r \<longleftrightarrow> k \<in> set retryable_kinds) \<and> (r \<longleftrightarrow> ends_without_verdict e)) \<and>
     (case data_field m ''wp_timeout_triage'' of
        None \<Rightarrow> \<not> ends_without_verdict e
      | Some t \<Rightarrow> ends_without_verdict e \<and>
          jget t ''retry_with_higher_prover_timeout'' = Some (JBool False))"

lemma structured_answer_server:
  "structured_answer (ServerError ident msg) (to_mcp_error T (ServerError ident msg))"
proof -
  obtain k r s where c: "classify_server_error msg = (k, r, s)" by (cases "classify_server_error msg")
  from classified_kinds [OF c] show ?thesis
    by (auto simp: c structured_answer_def mcp_simps structured_defs retryable_kinds_def)
qed

lemma structured_answer_command:
  "structured_answer (CommandFailed kind ident msg d) (to_mcp_error T (CommandFailed kind ident msg d))"
proof (cases "kind = ''ERROR''")
  case True
  obtain k r s where c: "classify_server_error msg = (k, r, s)" by (cases "classify_server_error msg")
  from classified_kinds [OF c] show ?thesis
    by (auto simp: True c command_error_kind_def structured_answer_def mcp_simps structured_defs
        retryable_kinds_def Let_def)
next
  case False
  then show ?thesis
    by (simp add: command_error_kind_def structured_answer_def mcp_simps structured_defs
        retryable_kinds_def Let_def command_triage_def)
qed

text \<open>Every failure of the connection reaches the caller as a structured error: its data repeats
  the message and names a kind, it is marked retryable exactly when the request ended without a verdict
  (rejected, cancelled, out of time), only a rejection is an invalid request, and those endings, no
  other failure, carry a triage that never suggests a longer prover timeout.\<close>

theorem connection_failures_are_structured: "structured_answer e (to_mcp_error T e)"
proof (cases e)
  case (ServerError ident msg)
  then show ?thesis by (simp only: structured_answer_server)
next
  case (CommandFailed kind ident msg d)
  then show ?thesis by (simp only: structured_answer_command)
qed (simp_all add: structured_answer_def mcp_simps structured_defs retryable_kinds_def)

end
