(* ===== verification/Acsl.thy ===== *)
theory Acsl
  imports Mcp_Errors
begin

text \<open>
  ACSL text and the plan an injection makes of the clauses a caller proposes (src/src/mcp/acsl.rs), with
  the classification of a refused clause (src/src/mcp/types.rs). The two regular expressions over hash
  labels are matched by hand; which characters beyond ASCII count as word characters for \<open>\b\<close> is the
  parameter \<open>W\<close>, a predicate on the text before the place in question.
\<close>

named_theorems plan_simps \<open>planning one clause\<close>

section \<open>Text\<close>

definition trim_end_chars :: "char list \<Rightarrow> string \<Rightarrow> string" where
  "trim_end_chars cs s = rev (dropWhile (\<lambda>c. c \<in> set cs) (rev s))"

abbreviation semicolon :: char where
  "semicolon \<equiv> CHR '';''"

text \<open>
  \<open>str::to_lowercase\<close>, as far as a search for ASCII text can tell: besides the ASCII capitals, the
  Kelvin sign becomes \<open>k\<close> and the dotted capital I becomes \<open>i\<close> and a combining dot.
\<close>

fun to_lowercase :: "string \<Rightarrow> string" where
  "to_lowercase (a # b # c # cs) =
     (if [a, b, c] = [CHR 0xE2, CHR 0x84, CHR 0xAA] then CHR ''k'' # to_lowercase cs
      else if [a, b] = [CHR 0xC4, CHR 0xB0] then CHR ''i'' # [CHR 0xCC, CHR 0x87] @ to_lowercase (c # cs)
      else to_ascii_lowercase a # to_lowercase (b # c # cs))"
| "to_lowercase [a, b] =
     (if [a, b] = [CHR 0xC4, CHR 0xB0] then CHR ''i'' # [CHR 0xCC, CHR 0x87]
      else [to_ascii_lowercase a, to_ascii_lowercase b])"
| "to_lowercase s = map to_ascii_lowercase s"

text \<open>\<open>chars().take(n)\<close> on the UTF-8 bytes of a text.\<close>

fun take_chars :: "nat \<Rightarrow> string \<Rightarrow> string" where
  "take_chars n [] = []"
| "take_chars n (c # cs) =
     (if cont_byte c then c # take_chars n cs
      else (case n of 0 \<Rightarrow> [] | Suc m \<Rightarrow> c # take_chars m cs))"

definition normalize_acsl :: "string \<Rightarrow> string" where
  "normalize_acsl text = trim (trim_end_chars [semicolon] (trim text)) @ '';''"

definition block_keywords :: "string list" where
  "block_keywords = [''axiomatic'', ''module'', ''inductive'']"

definition is_braced_block :: "string \<Rightarrow> bool" where
  "is_braced_block body \<longleftrightarrow>
     ends_with body ''}'' \<and>
     (\<exists>keyword \<in> set block_keywords.
        prefix keyword body \<and>
        (case drop (length keyword) body of [] \<Rightarrow> False
         | c # _ \<Rightarrow> c \<in> {CHR '' '', CHR 0x09, CHR 0x0A, CHR 0x0D, CHR ''{''}))"

definition normalize_global_acsl :: "string \<Rightarrow> string" where
  "normalize_global_acsl text =
     (let body = trim_end_chars [semicolon, CHR '' '', CHR 0x09, CHR 0x0A, CHR 0x0D] (trim text)
      in if is_braced_block body then body else normalize_acsl text)"

definition strip_leading_keyword :: "string \<Rightarrow> string \<Rightarrow> string" where
  "strip_leading_keyword body keyword =
     (let t = trim body; rest = drop (length keyword) t
      in if prefix keyword t \<and> (rest = [] \<or> ws_prefix rest \<noteq> None) then trim rest else t)"

definition clause_text :: "string \<Rightarrow> string \<Rightarrow> string" where
  "clause_text keyword body =
     (let body_clean = trim (trim_end_chars [semicolon] (trim body));
          body_norm = strip_leading_keyword body_clean keyword
      in trim (trim_end_chars [semicolon] body_norm))"

section \<open>Wrapping a clause\<close>

type_synonym behaviors = "(string, string list) kv"

definition undeclared_behavior :: "string \<Rightarrow> string \<Rightarrow> string" where
  "undeclared_behavior name path =
     ''behavior '' @ quoted name @ '' referenced at '' @ path @ '' but not declared in proposed_behaviors''"

definition assumes_text :: "string \<Rightarrow> string" where
  "assumes_text a = '' assumes '' @ trim (trim_end_chars [semicolon] (trim a)) @ '';''"

definition wrap_funspec_clause ::
    "string \<Rightarrow> string \<Rightarrow> string option \<Rightarrow> behaviors \<Rightarrow> string \<Rightarrow> string + string" where
  "wrap_funspec_clause keyword body behavior behaviors path =
     (case behavior of
        None \<Rightarrow> Inr (keyword @ '' '' @ clause_text keyword body @ '';'')
      | Some name \<Rightarrow>
          (case map_of behaviors name of
             None \<Rightarrow> Inl (undeclared_behavior name path)
           | Some as \<Rightarrow>
               Inr (''behavior '' @ name @ '':'' @ concat (map assumes_text as) @
                    '' '' @ keyword @ '' '' @ clause_text keyword body @ '';'')))"

definition wrap_loop_clause ::
    "string \<Rightarrow> string \<Rightarrow> string option \<Rightarrow> behaviors \<Rightarrow> string \<Rightarrow> string + string" where
  "wrap_loop_clause keyword body behavior behaviors path =
     (case behavior of
        None \<Rightarrow> Inr (keyword @ '' '' @ clause_text keyword body @ '';'')
      | Some name \<Rightarrow>
          (case map_of behaviors name of
             None \<Rightarrow> Inl (undeclared_behavior name path)
           | Some as \<Rightarrow> Inr (''for '' @ name @ '': '' @ keyword @ '' '' @ clause_text keyword body @ '';'')))"

definition wrap_assert_clause :: "string \<Rightarrow> string" where
  "wrap_assert_clause acsl = normalize_acsl (''assert '' @ trim (strip_leading_keyword acsl ''assert''))"

section \<open>Refused clauses\<close>

datatype failure_type = SyntaxError | ProposedSelfReferential | ProposedLocalVarInFunspec | ProposedError

definition classify_failure :: "string \<Rightarrow> failure_type" where
  "classify_failure error =
     (let lower = to_lowercase error
      in if str_contains lower ''function local'' then ProposedLocalVarInFunspec
         else if contains_any lower [''unbound'', ''no such'', ''not found'', ''unknown identifier'',
                   ''undeclared type'', ''reference to unknown'', ''cannot find'']
         then ProposedSelfReferential
         else if contains_any lower [''syntax error'', ''parse error'', ''unexpected'', ''lexeme'']
         then SyntaxError
         else ProposedError)"

record injection_failure =
  if_type :: failure_type
  if_path :: string
  if_acsl :: string
  if_error :: string

definition planning_failure :: "string \<Rightarrow> string \<Rightarrow> string \<Rightarrow> injection_failure" where
  "planning_failure path acsl msg =
     \<lparr>if_type = classify_failure msg, if_path = path, if_acsl = acsl, if_error = msg\<rparr>"

section \<open>The plan\<close>

type_synonym i64 = "64 word"

record plan_entry =
  pe_acsl :: string
  pe_kind :: string
  pe_derived_from :: string
  pe_stmt_id :: "i64 option"
  pe_purpose :: string
  pe_user_label :: "string option"

type_synonym plan = "plan_entry list \<times> injection_failure list"

definition as_i64 :: "json \<Rightarrow> i64 option" where
  "as_i64 v = (case v of JNum (PosInt n) \<Rightarrow> if unat n < 2 ^ 63 then Some n else None
               | JNum (NegInt n) \<Rightarrow> Some n | _ \<Rightarrow> None)"

definition get_i64 :: "json \<Rightarrow> string \<Rightarrow> i64 option" where
  "get_i64 v k = Option.bind (jget v k) as_i64"

definition get_array :: "json \<Rightarrow> string \<Rightarrow> json list option" where
  "get_array v k = Option.bind (jget v k) as_array"

definition push_entry :: "plan_entry \<Rightarrow> plan \<Rightarrow> plan" where
  "push_entry e p = (fst p @ [e], snd p)"

definition push_failure :: "injection_failure \<Rightarrow> plan \<Rightarrow> plan" where
  "push_failure f p = (fst p, snd p @ [f])"

definition push_outcome ::
    "(string \<Rightarrow> plan_entry) \<Rightarrow> string \<Rightarrow> string \<Rightarrow> string + string \<Rightarrow> plan \<Rightarrow> plan" where
  "push_outcome entry path acsl r p =
     (case r of Inr text \<Rightarrow> push_entry (entry text) p
      | Inl msg \<Rightarrow> push_failure (planning_failure path acsl msg) p)"

text \<open>\<open>for (i, v) in values.iter().enumerate()\<close>, over a list that may be absent.\<close>

definition plan_each :: "(nat \<Rightarrow> json \<Rightarrow> plan \<Rightarrow> plan) \<Rightarrow> json list option \<Rightarrow> plan \<Rightarrow> plan" where
  "plan_each step values p =
     (case values of None \<Rightarrow> p | Some vs \<Rightarrow> fold (\<lambda>(i, v). step i v) (enumerate 0 vs) p)"

definition indexed :: "string \<Rightarrow> nat \<Rightarrow> string" where
  "indexed field i = field @ ''['' @ show_nat i @ '']''"

definition acsl_or_self :: "json \<Rightarrow> string" where
  "acsl_or_self v = unwrap_or (or_else (get_str v ''acsl'') (as_str v)) []"

definition push_single_funspec_clause ::
    "string \<Rightarrow> string \<Rightarrow> string \<Rightarrow> json option \<Rightarrow> behaviors \<Rightarrow> plan \<Rightarrow> plan" where
  "push_single_funspec_clause keyword path purpose value behaviors p =
     (case value of None \<Rightarrow> p
      | Some v \<Rightarrow>
          (let acsl_text = acsl_or_self v
           in if trim acsl_text = [] then p
              else push_outcome
                     (\<lambda>acsl_norm. \<lparr>pe_acsl = acsl_norm, pe_kind = ''spec'', pe_derived_from = path,
                        pe_stmt_id = None, pe_purpose = unwrap_or (get_str v ''purpose'') purpose,
                        pe_user_label = Some keyword\<rparr>)
                     path acsl_text (wrap_funspec_clause keyword acsl_text None behaviors path) p))"

definition group_names :: "json \<Rightarrow> string list" where
  "group_names v = (case as_array v of None \<Rightarrow> [] | Some items \<Rightarrow> List.map_filter as_str items)"

definition behavior_group_step ::
    "string \<Rightarrow> string \<Rightarrow> behaviors \<Rightarrow> nat \<Rightarrow> json \<Rightarrow> plan \<Rightarrow> plan" where
  "behavior_group_step keyword path behaviors i v p =
     (let proposed_path = indexed path i; names = group_names v
      in case find (\<lambda>name. map_of behaviors name = None) names of
           Some missing \<Rightarrow>
             push_failure \<lparr>if_type = ProposedError, if_path = proposed_path, if_acsl = [],
                           if_error = undeclared_behavior missing path\<rparr> p
         | None \<Rightarrow>
             push_entry \<lparr>pe_acsl = (if names = [] then keyword @ '' behaviors;''
                                   else keyword @ '' behaviors '' @ join '', '' names @ '';''),
                         pe_kind = ''spec'', pe_derived_from = proposed_path, pe_stmt_id = None,
                         pe_purpose = keyword @ '' behavior group'',
                         pe_user_label = Some (keyword @ ''_behaviors'')\<rparr> p)"

definition push_behavior_group_clauses ::
    "string \<Rightarrow> string \<Rightarrow> json list option \<Rightarrow> behaviors \<Rightarrow> plan \<Rightarrow> plan" where
  "push_behavior_group_clauses keyword path groups behaviors =
     plan_each (behavior_group_step keyword path behaviors) groups"

definition plan_globals :: "json list option \<Rightarrow> plan_entry list \<Rightarrow> plan_entry list" where
  "plan_globals globals entries =
     (case globals of None \<Rightarrow> entries
      | Some vs \<Rightarrow>
          fold (\<lambda>(i, v) es.
                  if trim (acsl_or_self v) = [] then es
                  else es @ [\<lparr>pe_acsl = normalize_global_acsl (acsl_or_self v), pe_kind = ''global'',
                              pe_derived_from = indexed ''proposed_globals'' i, pe_stmt_id = None,
                              pe_purpose = unwrap_or (get_str v ''purpose'') ''global_acsl'',
                              pe_user_label = None\<rparr>])
               (enumerate 0 vs) entries)"

definition label_or :: "json \<Rightarrow> string option \<Rightarrow> string \<Rightarrow> string option" where
  "label_or v from_behavior fallback =
     Some (unwrap_or (or_else (get_str v ''user_label'') from_behavior) fallback)"

definition requires_step :: "behaviors \<Rightarrow> nat \<Rightarrow> json \<Rightarrow> plan \<Rightarrow> plan" where
  "requires_step behaviors i v =
     (let acsl_text = unwrap_or (get_str v ''acsl'') []; behavior = get_str v ''behavior'';
          path = indexed ''proposed_requires'' i
      in push_outcome
           (\<lambda>normalized. \<lparr>pe_acsl = normalized, pe_kind = ''spec'', pe_derived_from = path, pe_stmt_id = None,
              pe_purpose = unwrap_or (get_str v ''necessity'') [],
              pe_user_label = label_or v (map_option (\<lambda>b. ''beh_'' @ b) behavior) (''Req'' @ show_nat i)\<rparr>)
           path acsl_text (wrap_funspec_clause ''requires'' acsl_text behavior behaviors path))"

definition plan_requires :: "json list option \<Rightarrow> behaviors \<Rightarrow> plan \<Rightarrow> plan" where
  "plan_requires reqs behaviors = plan_each (requires_step behaviors) reqs"

definition ensures_step :: "behaviors \<Rightarrow> nat \<Rightarrow> json \<Rightarrow> plan \<Rightarrow> plan" where
  "ensures_step behaviors i v =
     (let acsl_body = unwrap_or (get_str v ''acsl'') []; source = unwrap_or (get_str v ''from'') [];
          behavior = get_str v ''behavior''; path = indexed ''proposed_ensures'' i
      in push_outcome
           (\<lambda>acsl_text. \<lparr>pe_acsl = acsl_text, pe_kind = ''spec'', pe_derived_from = path, pe_stmt_id = None,
              pe_purpose = (if source \<noteq> [] then source else take_chars 80 acsl_body),
              pe_user_label = label_or v (map_option (\<lambda>b. ''beh_'' @ b) behavior) (''Ens'' @ show_nat i)\<rparr>)
           path acsl_body (wrap_funspec_clause ''ensures'' acsl_body behavior behaviors path))"

definition plan_ensures :: "json list option \<Rightarrow> behaviors \<Rightarrow> plan \<Rightarrow> plan" where
  "plan_ensures ensures_list behaviors = plan_each (ensures_step behaviors) ensures_list"

definition assigns_step :: "behaviors \<Rightarrow> nat \<Rightarrow> json \<Rightarrow> plan \<Rightarrow> plan" where
  "assigns_step behaviors i v =
     (let acsl_body = unwrap_or (get_str v ''acsl'') []; behavior = get_str v ''behavior'';
          path = indexed ''proposed_assigns'' i
      in if trim acsl_body = [] then (\<lambda>p. p)
         else push_outcome
           (\<lambda>acsl_text. \<lparr>pe_acsl = normalize_acsl acsl_text, pe_kind = ''spec'', pe_derived_from = path,
              pe_stmt_id = None, pe_purpose = ''Function-level modifies clause'',
              pe_user_label = label_or v (map_option (\<lambda>b. ''beh_'' @ b @ ''_assigns'') behavior)
                                (''assigns_'' @ show_nat i)\<rparr>)
           path acsl_body (wrap_funspec_clause ''assigns'' acsl_body behavior behaviors path))"

definition plan_assigns :: "json list option \<Rightarrow> behaviors \<Rightarrow> plan \<Rightarrow> plan" where
  "plan_assigns assigns_list behaviors = plan_each (assigns_step behaviors) assigns_list"

definition asserts_step :: "nat \<Rightarrow> json \<Rightarrow> plan \<Rightarrow> plan" where
  "asserts_step i v =
     (let path = indexed ''proposed_asserts'' i; acsl_body = unwrap_or (get_str v ''acsl'') []
      in if trim acsl_body = [] then (\<lambda>p. p)
         else (case get_i64 v ''stmt_id'' of
                 None \<Rightarrow>
                   push_failure \<lparr>if_type = ProposedError, if_path = path, if_acsl = acsl_body,
                                 if_error = ''proposed_asserts entry requires integer stmt_id''\<rparr>
               | Some stmt_id \<Rightarrow>
                   push_entry \<lparr>pe_acsl = wrap_assert_clause acsl_body, pe_kind = ''annot'',
                               pe_derived_from = path, pe_stmt_id = Some stmt_id,
                               pe_purpose = unwrap_or (get_str v ''purpose'') ''statement assertion'',
                               pe_user_label = Some (unwrap_or (get_str v ''user_label'') (''Assert'' @ show_nat i))\<rparr>))"

definition plan_asserts :: "json list option \<Rightarrow> plan \<Rightarrow> plan" where
  "plan_asserts = plan_each asserts_step"

section \<open>Loop annotations\<close>

type_synonym loop_clause = "string \<times> string \<times> string \<times> i64 option \<times> string \<times> string option"
type_synonym loop_outcome = "(string \<times> string) + loop_clause"

definition loop_outcome ::
    "string \<Rightarrow> string \<Rightarrow> i64 option \<Rightarrow> string \<Rightarrow> string \<Rightarrow> string + string \<Rightarrow> loop_outcome" where
  "loop_outcome kind path stmt_id purpose label r =
     (case r of Inl msg \<Rightarrow> Inl (path, msg)
      | Inr text \<Rightarrow> Inr (text, kind, path, stmt_id, purpose, Some label))"

definition loop_path :: "nat \<Rightarrow> string \<Rightarrow> string" where
  "loop_path i sub = indexed ''proposed_loop_annots'' i @ ''.'' @ sub"

definition invariant_outcome :: "nat \<Rightarrow> behaviors \<Rightarrow> json \<Rightarrow> nat \<times> json \<Rightarrow> loop_outcome" where
  "invariant_outcome i behaviors annot = (\<lambda>(j, inv).
     let body = unwrap_or (get_str inv ''acsl'') []; path = loop_path i (indexed ''invariants'' j)
     in loop_outcome ''annot'' path (get_i64 annot ''stmt_id'')
          (unwrap_or (get_str annot ''loop_label'') [] @ '' invariant '' @ show_nat j)
          (unwrap_or (get_str inv ''user_label'') (''Inv'' @ show_nat j))
          (wrap_loop_clause ''loop invariant'' body (get_str inv ''behavior'') behaviors path))"

definition base_label :: "json \<Rightarrow> string" where
  "base_label annot =
     ''loop_'' @ map (\<lambda>c. if c = CHR '' '' then CHR ''_'' else c) (unwrap_or (get_str annot ''loop_label'') [])"

definition loop_assigns_outcome :: "nat \<Rightarrow> behaviors \<Rightarrow> json \<Rightarrow> nat \<times> json \<Rightarrow> loop_outcome list" where
  "loop_assigns_outcome i behaviors annot = (\<lambda>(j, la).
     let body = unwrap_or (get_str la ''acsl'') []; path = loop_path i (indexed ''assigns'' j)
     in if trim body = [] then []
        else [loop_outcome ''annot'' path (get_i64 annot ''stmt_id'')
                (unwrap_or (get_str annot ''loop_label'') [] @ '' assigns '' @ show_nat j)
                (base_label annot @ ''_assigns_'' @ show_nat j)
                (wrap_loop_clause ''loop assigns'' body (get_str la ''behavior'') behaviors path)])"

definition loop_variant_outcome :: "nat \<Rightarrow> behaviors \<Rightarrow> json \<Rightarrow> loop_outcome list" where
  "loop_variant_outcome i behaviors annot =
     (case jget annot ''variant'' of None \<Rightarrow> []
      | Some var \<Rightarrow>
          (case get_str var ''acsl'' of None \<Rightarrow> []
           | Some body \<Rightarrow>
               if trim body = [] then []
               else (let path = loop_path i ''variant''
                     in [loop_outcome ''annot'' path (get_i64 annot ''stmt_id'')
                           (unwrap_or (get_str annot ''loop_label'') [] @ '' variant'')
                           (base_label annot @ ''_variant'')
                           (wrap_loop_clause ''loop variant'' body (get_str var ''behavior'') behaviors path)])))"

definition loop_annots_to_acsl :: "json \<Rightarrow> nat \<Rightarrow> behaviors \<Rightarrow> loop_outcome list" where
  "loop_annots_to_acsl annot i behaviors =
     map (invariant_outcome i behaviors annot) (enumerate 0 (unwrap_or (get_array annot ''invariants'') [])) @
     concat (map (loop_assigns_outcome i behaviors annot)
               (enumerate 0 (unwrap_or (get_array annot ''assigns'') []))) @
     loop_variant_outcome i behaviors annot"

definition acsl_kind_to_ast_kind :: "string \<Rightarrow> string" where
  "acsl_kind_to_ast_kind acsl =
     (let lower = to_lowercase (trim acsl)
      in if starts_with lower ''loop invariant'' \<or> starts_with lower ''loop assigns'' \<or>
            starts_with lower ''loop variant'' \<or> starts_with lower ''assert''
         then ''annot'' else ''spec'')"

section \<open>Comparing annotations\<close>

definition hex_lower :: "char \<Rightarrow> bool" where
  "hex_lower c \<longleftrightarrow> is_ascii_digit c \<or> (97 \<le> byte_of c \<and> byte_of c \<le> 102)"

text \<open>One of the codes, an underscore and eight hexadecimal digits; the text after them.\<close>

definition match_hash_label :: "string list \<Rightarrow> string \<Rightarrow> string option" where
  "match_hash_label codes s =
     (if take 2 s \<in> set codes \<and> take 1 (drop 2 s) = ''_'' \<and> 11 \<le> length s \<and>
         (\<forall>c \<in> set (take 8 (drop 3 s)). hex_lower c)
      then Some (drop 11 s) else None)"

lemma match_hash_label_shorter: "match_hash_label codes s = Some r \<Longrightarrow> length r < length s"
  by (auto simp: match_hash_label_def split: if_splits)

definition comparison_codes :: "string list" where
  "comparison_codes = [''re'', ''en'', ''li'', ''la'', ''lv'', ''at'', ''an'']"

text \<open>\<open>,\s*(?:re|en|li|la|lv|at|an)_[0-9a-f]{8}(?:,[^,]*)?\<close>, from a comma.\<close>

definition match_comparison_label :: "string \<Rightarrow> string option" where
  "match_comparison_label s =
     (case s of
        [] \<Rightarrow> None
      | c # cs \<Rightarrow>
          if c \<noteq> CHR '','' then None
          else (case match_hash_label comparison_codes (trim_start cs) of
                  None \<Rightarrow> None
                | Some rest \<Rightarrow>
                    (case rest of [] \<Rightarrow> Some []
                     | d # ds \<Rightarrow> Some (if d = CHR '','' then dropWhile (\<lambda>x. x \<noteq> CHR '','') ds else rest))))"

lemma match_comparison_label_shorter: "match_comparison_label s = Some r \<Longrightarrow> length r < length s"
proof (cases s)
  case (Cons c cs)
  assume m: "match_comparison_label s = Some r"
  with Cons obtain rest where rest: "match_hash_label comparison_codes (trim_start cs) = Some rest"
    and r: "r = [] \<or> (\<exists>d ds. rest = d # ds \<and> (r = rest \<or> r = dropWhile (\<lambda>x. x \<noteq> CHR '','') ds))"
    by (auto simp: match_comparison_label_def split: if_splits option.splits list.splits)
  from match_hash_label_shorter [OF rest] length_trim_start [of cs] have "length rest < length s"
    by (simp add: Cons)
  with r show ?thesis
    using length_dropWhile_le [of "\<lambda>x. x \<noteq> CHR '',''"]
    by (auto simp: Cons) (meson le_less_trans less_SucI)
qed (simp add: match_comparison_label_def)

function strip_comparison_labels :: "string \<Rightarrow> string" where
  "strip_comparison_labels s =
     (case match_comparison_label s of
        Some rest \<Rightarrow> strip_comparison_labels rest
      | None \<Rightarrow> (case s of [] \<Rightarrow> [] | c # cs \<Rightarrow> c # strip_comparison_labels cs))"
  by pat_completeness auto
termination
  by (relation "measure length") (auto dest: match_comparison_label_shorter)

declare strip_comparison_labels.simps [simp del]

definition normalize_for_comparison :: "string \<Rightarrow> string" where
  "normalize_for_comparison acsl = trim (hd (split_on semicolon (strip_comparison_labels acsl)))"

definition equivalence_codes :: "string list" where
  "equivalence_codes = [''re'', ''en'', ''as'', ''li'', ''la'', ''lv'', ''at'', ''an'']"

text \<open>\<open>\b(?:...)_[0-9a-f]{8}_?\<close>; \<open>seen\<close> is the text before, in reverse order.\<close>

definition after_word :: "(string \<Rightarrow> bool) \<Rightarrow> string \<Rightarrow> bool" where
  "after_word W seen =
     (case seen of [] \<Rightarrow> False | c # _ \<Rightarrow> if byte_of c < 128 then is_ident_char c else W (rev seen))"

definition match_equivalence_label :: "(string \<Rightarrow> bool) \<Rightarrow> string \<Rightarrow> string \<Rightarrow> string option" where
  "match_equivalence_label W seen s =
     (if after_word W seen then None
      else case match_hash_label equivalence_codes s of
             None \<Rightarrow> None
           | Some rest \<Rightarrow> (case rest of [] \<Rightarrow> Some [] | d # ds \<Rightarrow> Some (if d = CHR ''_'' then ds else rest)))"

lemma match_equivalence_label_shorter: "match_equivalence_label W seen s = Some r \<Longrightarrow> length r < length s"
  by (auto simp: match_equivalence_label_def dest!: match_hash_label_shorter
      split: if_splits option.splits list.splits)

function strip_equivalence_labels :: "(string \<Rightarrow> bool) \<Rightarrow> string \<Rightarrow> string \<Rightarrow> string" where
  "strip_equivalence_labels W seen s =
     (case match_equivalence_label W seen s of
        Some rest \<Rightarrow> strip_equivalence_labels W (rev (take (length s - length rest) s) @ seen) rest
      | None \<Rightarrow> (case s of [] \<Rightarrow> [] | c # cs \<Rightarrow> c # strip_equivalence_labels W (c # seen) cs))"
  by pat_completeness auto
termination
  by (relation "measure (\<lambda>(W, seen, s). length s)") (auto dest: match_equivalence_label_shorter)

declare strip_equivalence_labels.simps [simp del]

definition normalize_annotation_equivalence :: "(string \<Rightarrow> bool) \<Rightarrow> string \<Rightarrow> string" where
  "normalize_annotation_equivalence W acsl =
     join '' '' (split_whitespace (ascii_acsl_operators (strip_equivalence_labels W [] acsl)))"

definition extracted_global :: "(string \<Rightarrow> bool) \<Rightarrow> json \<Rightarrow> string option" where
  "extracted_global W global =
     map_option (\<lambda>acsl. ''global:'' @ normalize_annotation_equivalence W acsl) (get_str global ''acsl'')"

definition extracted_kind :: "json \<Rightarrow> string" where
  "extracted_kind item =
     (case get_i64 item ''sid'' of None \<Rightarrow> ''unknown'' | Some n \<Rightarrow> if n = -1 then ''spec'' else ''annot'')"

definition extracted_annotation :: "(string \<Rightarrow> bool) \<Rightarrow> json \<Rightarrow> string option" where
  "extracted_annotation W item =
     map_option (\<lambda>acsl. extracted_kind item @ '':'' @ normalize_annotation_equivalence W acsl)
       (get_str item ''acsl'')"

definition extracted_lines :: "(string \<Rightarrow> bool) \<Rightarrow> json \<Rightarrow> string list" where
  "extracted_lines W value =
     (let payload = unwrap_or (jget value ''result'') value
      in List.map_filter (extracted_global W) (unwrap_or (get_array payload ''globals'') []) @
         List.map_filter (extracted_annotation W) (unwrap_or (get_array payload ''annotations'') []))"

definition canonical_extracted_annotations :: "(string \<Rightarrow> bool) \<Rightarrow> json \<Rightarrow> string list" where
  "canonical_extracted_annotations W value = sort (extracted_lines W value)"

end
