(* ===== verification/Server.thy ===== *)
theory Server
  imports Acsl Conclusions
begin

text \<open>
  The ground every tool handler stands on (src/src/mcp/server.rs): which Frama-C process a function
  name selects, what is sent to it and in which order, and how a payload becomes a tool result.

  A handler is a function on \<open>server\<close>, which holds the session, the conclusions on disk, the running
  sandboxes and the requests sent so far. What Frama-C answers to a request is the parameter
  \<open>answers\<close>, which may depend on everything sent before; the other fields of \<open>server_env\<close> are the
  serializers, the random digits of a label and the failures of the file system.
\<close>

section \<open>Clients and requests\<close>

datatype client_id = MainClient | SandboxClient string

text \<open>\<open>FetchAll\<close> stands for the pages of one \<open>fetch_all\<close>, answered by the array of their rows.\<close>

datatype request_kind = Get | Exec | Put | FetchAll

record call =
  call_client :: client_id
  call_kind :: request_kind
  call_endpoint :: string
  call_data :: json

record server_env =
  answers :: "call list \<Rightarrow> call \<Rightarrow> frama_c_error + json"
  texts :: error_texts
  pretty :: "json \<Rightarrow> string"
  from_str :: "string \<Rightarrow> json option"
  mcp_error_text :: "mcp_error \<Rightarrow> string"
  serde_text :: "string \<Rightarrow> json \<Rightarrow> string"
  debug_str :: "string \<Rightarrow> string"
  random_hex8 :: "call list \<Rightarrow> string"
  unicode_word :: "string \<Rightarrow> bool"
  disk_write :: "string \<Rightarrow> write_answer"

record server =
  srv_session :: session_state
  srv_disk :: conclusion_disk
  srv_main :: bool
  srv_sandboxes :: "(string, sandbox_metadata) kv"
  srv_calls :: "call list"

definition send :: "server_env \<Rightarrow> call \<Rightarrow> server \<Rightarrow> (frama_c_error + json) \<times> server" where
  "send E c s = (answers E (srv_calls s) c, s\<lparr>srv_calls := srv_calls s @ [c]\<rparr>)"

text \<open>\<open>request(...).await.map_err(McpError::from)\<close>.\<close>

definition send_mcp :: "server_env \<Rightarrow> call \<Rightarrow> server \<Rightarrow> (mcp_error + json) \<times> server" where
  "send_mcp E c s =
     (case send E c s of
        (Inl e, s') \<Rightarrow> (Inl (to_mcp_error (texts E) e), s')
      | (Inr v, s') \<Rightarrow> (Inr v, s'))"

section \<open>Resolving a name\<close>

datatype function_scope = MainScope string | SandboxScope string string

definition scope_for_function :: "string \<Rightarrow> function_scope" where
  "scope_for_function function =
     (case split_once '':'' function of
        Some (experiment_id, name) \<Rightarrow> SandboxScope experiment_id name
      | None \<Rightarrow> MainScope function)"

record resolved_client =
  rc_client :: client_id
  rc_function :: string
  rc_experiment_id :: "string option"

definition require_client :: "server \<Rightarrow> mcp_error + client_id" where
  "require_client s = (if srv_main s then Inr MainClient else Inl no_project_loaded_error)"

definition require_sandbox :: "string \<Rightarrow> server \<Rightarrow> mcp_error + (sandbox_metadata \<times> client_id)" where
  "require_sandbox experiment_id s =
     (case map_of (srv_sandboxes s) experiment_id of
        Some m \<Rightarrow> Inr (m, SandboxClient experiment_id)
      | None \<Rightarrow> Inl (sandbox_not_found_error experiment_id (map fst (srv_sandboxes s))))"

definition resolve_client :: "string \<Rightarrow> server \<Rightarrow> mcp_error + resolved_client" where
  "resolve_client function s =
     (case scope_for_function function of
        SandboxScope experiment_id name \<Rightarrow>
          (case require_sandbox experiment_id s of
             Inl e \<Rightarrow> Inl e
           | Inr (m, client) \<Rightarrow>
               Inr \<lparr>rc_client = client, rc_function = name, rc_experiment_id = Some experiment_id\<rparr>)
      | MainScope name \<Rightarrow>
          (case require_client s of
             Inl e \<Rightarrow> Inl e
           | Inr client \<Rightarrow> Inr \<lparr>rc_client = client, rc_function = name, rc_experiment_id = None\<rparr>))"

lemma split_once_char_None: "split_once [c] s = None \<longleftrightarrow> c \<notin> set s"
  by (induction s) auto

lemma scope_main: "CHR '':'' \<notin> set f \<Longrightarrow> scope_for_function f = MainScope f"
  using split_once_char_None [of "CHR '':''" f] by (simp add: scope_for_function_def)

lemma resolve_client_main:
  "CHR '':'' \<notin> set f \<Longrightarrow> resolve_client f s = Inr r \<Longrightarrow>
   r = \<lparr>rc_client = MainClient, rc_function = f, rc_experiment_id = None\<rparr>"
  by (auto simp: resolve_client_def scope_main require_client_def split: if_splits)

section \<open>Tool results\<close>

record tool_result =
  tr_text :: string
  tr_structured :: "json option"

definition json_result :: "server_env \<Rightarrow> json \<Rightarrow> tool_result" where
  "json_result E v =
     \<lparr>tr_text = pretty E v, tr_structured = (if as_object v = None then None else Some v)\<rparr>"

definition parse_plugin_success :: "server_env \<Rightarrow> tool_result \<Rightarrow> bool" where
  "parse_plugin_success E r =
     (case from_str E (tr_text r) of None \<Rightarrow> False
      | Some v \<Rightarrow> unwrap_or (as_bool (jindex (jindex v ''result'') ''success'')) False)"

definition parse_plugin_error :: "server_env \<Rightarrow> tool_result \<Rightarrow> string option" where
  "parse_plugin_error E r =
     Option.bind (from_str E (tr_text r)) (\<lambda>v. as_str (jindex (jindex v ''result'') ''error''))"

section \<open>Labels, statuses and loops\<close>

definition generate_hash_label :: "string \<Rightarrow> string \<Rightarrow> string" where
  "generate_hash_label hex kind =
     (if kind = ''requires'' then ''re'' else if kind = ''ensures'' then ''en''
      else if kind = ''assigns'' then ''as'' else if kind = ''loop_invariant'' then ''li''
      else if kind = ''loop_assigns'' then ''la'' else if kind = ''loop_variant'' then ''lv''
      else if kind = ''assert'' then ''at'' else ''an'') @ ''_'' @ hex"

definition full_label :: "string \<Rightarrow> string option \<Rightarrow> string" where
  "full_label hash_label user_label =
     (case user_label of Some ul \<Rightarrow> hash_label @ ''_'' @ ul | None \<Rightarrow> hash_label)"

definition compute_status :: "injection_failure list \<Rightarrow> string" where
  "compute_status failures =
     (if failures = [] then ''success''
      else if list_all (\<lambda>f. if_type f = SyntaxError) failures then ''partial''
      else ''proposed_error'')"

definition fetch_extracted_annotations ::
    "server_env \<Rightarrow> resolved_client \<Rightarrow> server \<Rightarrow> (mcp_error + string list) \<times> server" where
  "fetch_extracted_annotations E r s =
     (case send_mcp E \<lparr>call_client = rc_client r, call_kind = Get,
              call_endpoint = ''plugins.ast-utils.execExtractAnnotations'',
              call_data = JStr (rc_function r)\<rparr> s of
        (Inl e, s') \<Rightarrow> (Inl e, s')
      | (Inr v, s') \<Rightarrow> (Inr (canonical_extracted_annotations (unicode_word E) v), s'))"

definition fetch_printed_source ::
    "server_env \<Rightarrow> resolved_client \<Rightarrow> server \<Rightarrow> (mcp_error + string) \<times> server" where
  "fetch_printed_source E r s =
     (case send_mcp E \<lparr>call_client = rc_client r, call_kind = Get,
              call_endpoint = ''plugins.ast-utils.printSource'', call_data = JStr []\<rparr> s of
        (Inl e, s') \<Rightarrow> (Inl e, s')
      | (Inr v, s') \<Rightarrow> (Inr (unwrap_or (as_str v) []), s'))"

definition source_excerpt :: "string \<Rightarrow> string" where
  "source_excerpt source = take_chars 4000 source"

text \<open>The values a node of the syntax tree is searched through, in order.\<close>

definition branch_keys :: "string list" where
  "branch_keys = [''cond'', ''then_body'', ''else_body'']"

definition loop_children :: "fields \<Rightarrow> json list" where
  "loop_children m =
     (if map_of m ''then_body'' \<noteq> None \<and> map_of m ''else_body'' \<noteq> None
      then List.map_filter (map_of m) branch_keys @ map snd (filter (\<lambda>p. fst p \<notin> set branch_keys) m)
      else map snd m)"

definition own_loop_sid :: "fields \<Rightarrow> i64 list" where
  "own_loop_sid m =
     (if Option.bind (map_of m ''kind'') as_str = Some ''loop''
      then (case Option.bind (map_of m ''sid'') as_i64 of None \<Rightarrow> [] | Some sid \<Rightarrow> [sid]) else [])"

lemma loop_children_subset: "v \<in> set (loop_children m) \<Longrightarrow> v \<in> snd ` set m"
  by (force simp: loop_children_def map_filter_def dest: map_of_SomeD split: if_splits)

lemma size_snd_member: "v \<in> snd ` set (m :: fields) \<Longrightarrow> size v \<le> size_list (size_prod (\<lambda>x. 0) size) m"
proof -
  assume "v \<in> snd ` set m"
  then obtain p where "p \<in> set m" "v = snd p" by auto
  moreover have "size (snd p) \<le> size_prod (\<lambda>x. 0) size p" by (cases p) simp
  ultimately show ?thesis by (metis size_list_estimation')
qed

function (sequential) collect_loop_sids :: "json \<Rightarrow> i64 list" where
  "collect_loop_sids (JObj m) = own_loop_sid m @ concat (map collect_loop_sids (loop_children m))"
| "collect_loop_sids (JArr xs) = concat (map collect_loop_sids xs)"
| "collect_loop_sids v = []"
  by pat_completeness auto
termination
proof (relation "measure size")
  fix m :: fields and v
  assume "v \<in> set (loop_children m)"
  from size_snd_member [OF loop_children_subset [OF this]]
  show "(v, JObj m) \<in> measure size" by simp
next
  fix xs :: "json list" and v
  assume "v \<in> set xs"
  then have "size v \<le> size_list size xs" by (rule size_list_estimation') simp
  then show "(v, JArr xs) \<in> measure size" by simp
qed simp

end
