(* ===== verification/Inject.thy ===== *)
theory Inject
  imports Server
begin

text \<open>
  Injecting annotations (src/src/mcp/annotations.rs): the tagged array a caller sends is spread over the
  clause lists, the clauses are planned, ghost code goes in first, and each planned clause is validated
  or sent to the plug-in. Diagnostics are relabelled so that they name the caller's own entries.
\<close>

named_theorems inject_simps \<open>steps of an injection\<close>

section \<open>What a caller proposes\<close>

text \<open>
  The \<open>proposed_*\<close> fields of \<open>InjectAllAnnotationsParams\<close>: nine lists and three single values, each
  named by a constructor.
\<close>

datatype list_field = Globals | Behaviors | Requires | Ensures | Assigns | Asserts | LoopAnnots
  | CompleteBehaviors | DisjointBehaviors

datatype single_field = Terminates | Exits | Decreases

instantiation list_field :: enum
begin

definition enum_list_field :: "list_field list" where
  "enum_list_field = [Globals, Behaviors, Requires, Ensures, Assigns, Asserts, LoopAnnots,
     CompleteBehaviors, DisjointBehaviors]"

definition enum_all_list_field :: "(list_field \<Rightarrow> bool) \<Rightarrow> bool" where
  "enum_all_list_field P \<longleftrightarrow> list_all P enum_class.enum"

definition enum_ex_list_field :: "(list_field \<Rightarrow> bool) \<Rightarrow> bool" where
  "enum_ex_list_field P \<longleftrightarrow> list_ex P enum_class.enum"

lemma every_list_field: "f \<in> set enum_class.enum" for f :: list_field
  by (cases f) (simp_all add: enum_list_field_def)

instance
proof
  show "(UNIV :: list_field set) = set enum_class.enum" using every_list_field by blast
  show "distinct (enum_class.enum :: list_field list)" by (simp add: enum_list_field_def)
  show "enum_class.enum_all P \<longleftrightarrow> Ball UNIV P" for P :: "list_field \<Rightarrow> bool"
    using every_list_field by (auto simp: enum_all_list_field_def list_all_iff)
  show "enum_class.enum_ex P \<longleftrightarrow> Bex UNIV P" for P :: "list_field \<Rightarrow> bool"
    using every_list_field by (auto simp: enum_ex_list_field_def list_ex_iff)
qed

end

instantiation single_field :: enum
begin

definition enum_single_field :: "single_field list" where
  "enum_single_field = [Terminates, Exits, Decreases]"

definition enum_all_single_field :: "(single_field \<Rightarrow> bool) \<Rightarrow> bool" where
  "enum_all_single_field P \<longleftrightarrow> list_all P enum_class.enum"

definition enum_ex_single_field :: "(single_field \<Rightarrow> bool) \<Rightarrow> bool" where
  "enum_ex_single_field P \<longleftrightarrow> list_ex P enum_class.enum"

lemma every_single_field: "f \<in> set enum_class.enum" for f :: single_field
  by (cases f) (simp_all add: enum_single_field_def)

instance
proof
  show "(UNIV :: single_field set) = set enum_class.enum" using every_single_field by blast
  show "distinct (enum_class.enum :: single_field list)" by (simp add: enum_single_field_def)
  show "enum_class.enum_all P \<longleftrightarrow> Ball UNIV P" for P :: "single_field \<Rightarrow> bool"
    using every_single_field by (auto simp: enum_all_single_field_def list_all_iff)
  show "enum_class.enum_ex P \<longleftrightarrow> Bex UNIV P" for P :: "single_field \<Rightarrow> bool"
    using every_single_field by (auto simp: enum_ex_single_field_def list_ex_iff)
qed

end

fun list_field_name :: "list_field \<Rightarrow> string" where
  "list_field_name Globals = ''proposed_globals''"
| "list_field_name Behaviors = ''proposed_behaviors''"
| "list_field_name Requires = ''proposed_requires''"
| "list_field_name Ensures = ''proposed_ensures''"
| "list_field_name Assigns = ''proposed_assigns''"
| "list_field_name Asserts = ''proposed_asserts''"
| "list_field_name LoopAnnots = ''proposed_loop_annots''"
| "list_field_name CompleteBehaviors = ''proposed_complete_behaviors''"
| "list_field_name DisjointBehaviors = ''proposed_disjoint_behaviors''"

fun single_field_name :: "single_field \<Rightarrow> string" where
  "single_field_name Terminates = ''proposed_terminates''"
| "single_field_name Exits = ''proposed_exits''"
| "single_field_name Decreases = ''proposed_decreases''"

record inject_params =
  ip_function :: "string option"
  ip_sandbox_name :: "string option"
  ip_annotations :: "json list option"
  ip_lists :: "list_field \<Rightarrow> json list option"
  ip_singles :: "single_field \<Rightarrow> json option"
  ip_dry_run :: bool

datatype ghost_kind = GhostGlobal | GhostFormal | GhostLemmaFunction | GhostLoop | GhostStmt

fun ghost_name :: "ghost_kind \<Rightarrow> string" where
  "ghost_name GhostGlobal = ''ghost_global''"
| "ghost_name GhostFormal = ''ghost_formal''"
| "ghost_name GhostLemmaFunction = ''ghost_lemma_function''"
| "ghost_name GhostLoop = ''ghost_loop''"
| "ghost_name GhostStmt = ''ghost_stmt''"

definition ghost_from_tag :: "string \<Rightarrow> ghost_kind option" where
  "ghost_from_tag tag =
     (if tag = ''ghost_global'' then Some GhostGlobal
      else if tag = ''ghost_formal'' then Some GhostFormal
      else if tag = ''ghost_lemma_function'' then Some GhostLemmaFunction
      else if tag = ''ghost_loop'' then Some GhostLoop
      else if tag = ''ghost_stmt'' then Some GhostStmt else None)"

lemma ghost_from_tag_name [simp]: "ghost_from_tag (ghost_name k) = Some k"
  by (cases k) (simp_all add: ghost_from_tag_def)

text \<open>Where a clause kind goes: into a list or into a single slot.\<close>

datatype annotation_slot = ListSlot list_field | SingleSlot single_field

definition slot_of_kind :: "string \<Rightarrow> annotation_slot option" where
  "slot_of_kind kind =
     map_of [(''global'', ListSlot Globals), (''behavior'', ListSlot Behaviors),
             (''requires'', ListSlot Requires), (''ensures'', ListSlot Ensures),
             (''assigns'', ListSlot Assigns), (''assert'', ListSlot Asserts),
             (''loop'', ListSlot LoopAnnots), (''terminates'', SingleSlot Terminates),
             (''exits'', SingleSlot Exits), (''decreases'', SingleSlot Decreases),
             (''complete_behaviors'', ListSlot CompleteBehaviors),
             (''disjoint_behaviors'', ListSlot DisjointBehaviors)] kind"

definition expected_kinds :: "string list" where
  "expected_kinds =
     [''global'', ''behavior'', ''requires'', ''ensures'', ''assigns'', ''assert'', ''loop'',
      ''complete_behaviors'', ''disjoint_behaviors'', ''terminates'', ''exits'', ''decreases'',
      ''ghost_global'', ''ghost_formal'', ''ghost_lemma_function'', ''ghost_loop'', ''ghost_stmt'']"

definition annotation_at :: "nat \<Rightarrow> string" where
  "annotation_at i = indexed ''annotations'' i"

definition invalid_params :: "string \<Rightarrow> mcp_error" where
  "invalid_params msg = mcp_error_of InvalidParams msg None"

definition names_example :: "string \<Rightarrow> string" where
  "names_example kind =
     ''{'' @ [CHR 0x22] @ ''kind'' @ [CHR 0x22] @ '': '' @ [CHR 0x22] @ kind @ [CHR 0x22] @ '', '' @
     [CHR 0x22] @ ''behaviors'' @ [CHR 0x22] @ '': ['' @ [CHR 0x22] @ ''pos'' @ [CHR 0x22] @ '', '' @
     [CHR 0x22] @ ''neg'' @ [CHR 0x22] @ '']}''"

definition behavior_group_names :: "nat \<Rightarrow> string \<Rightarrow> json option \<Rightarrow> mcp_error + json" where
  "behavior_group_names index kind names =
     (case names of
        None \<Rightarrow> Inl (invalid_params (annotation_at index @ '': '' @ kind @ '' needs a behaviors array, e.g. '' @
                                    names_example kind))
      | Some v \<Rightarrow>
          (case as_array v of
             None \<Rightarrow> Inl (invalid_params (annotation_at index @ '': '' @ kind @
                         '' behaviors must be a non-empty array of names''))
           | Some items \<Rightarrow>
               if items \<noteq> [] \<and> list_all (\<lambda>i. as_str i \<noteq> None) items then Inr v
               else Inl (invalid_params (annotation_at index @ '': '' @ kind @
                           '' behaviors must be a non-empty array of names''))))"

section \<open>Expanding the tagged array\<close>

type_synonym origin = "(string, nat) kv"
type_synonym ghost_entries = "(nat \<times> ghost_kind \<times> json) list"

record expansion =
  ex_lists :: "list_field \<Rightarrow> json list option"
  ex_singles :: "single_field \<Rightarrow> json option"
  ex_ghosts :: ghost_entries
  ex_origin :: origin

definition place_list :: "list_field \<Rightarrow> nat \<Rightarrow> json \<Rightarrow> expansion \<Rightarrow> expansion" where
  "place_list f index v x =
     (let list = unwrap_or (ex_lists x f) []
      in x\<lparr>ex_lists := (ex_lists x)(f := Some (list @ [v])),
           ex_origin := AList.update (indexed (list_field_name f) (length list)) index (ex_origin x)\<rparr>)"

definition place_single :: "single_field \<Rightarrow> string \<Rightarrow> nat \<Rightarrow> json \<Rightarrow> expansion \<Rightarrow> mcp_error + expansion" where
  "place_single f kind index v x =
     (if ex_singles x f \<noteq> None
      then Inl (invalid_params (annotation_at index @ '': '' @ kind @ '' may appear at most once''))
      else Inr (x\<lparr>ex_singles := (ex_singles x)(f := Some v),
                  ex_origin := AList.update (single_field_name f) index (ex_origin x)\<rparr>))"

definition unknown_kind_error :: "server_env \<Rightarrow> nat \<Rightarrow> string \<Rightarrow> mcp_error" where
  "unknown_kind_error E index kind =
     mcp_error_of InvalidParams (annotation_at index @ '' has unknown kind '' @ debug_str E kind)
       (Some (JObj [(''kind'', JStr ''UnknownAnnotationKind''), (''index'', jnat index),
                    (''given'', JStr kind), (''expected'', jstrs expected_kinds)]))"

text \<open>The entry without its \<open>kind\<close> and without the first present of \<open>behaviors\<close> and \<open>names\<close>.\<close>

definition entry_body :: "fields \<Rightarrow> fields" where
  "entry_body m =
     (let m = swap_remove ''kind'' m
      in if map_of m ''behaviors'' \<noteq> None then swap_remove ''behaviors'' m
         else swap_remove ''names'' m)"

definition entry_names :: "fields \<Rightarrow> json option" where
  "entry_names m = or_else (map_of (swap_remove ''kind'' m) ''behaviors'')
                           (map_of (swap_remove ''kind'' m) ''names'')"

definition slot_value :: "nat \<Rightarrow> string \<Rightarrow> annotation_slot \<Rightarrow> fields \<Rightarrow> mcp_error + json" where
  "slot_value index kind slot m =
     (if slot = ListSlot CompleteBehaviors \<or> slot = ListSlot DisjointBehaviors
      then behavior_group_names index kind (entry_names m) else Inr (JObj (entry_body m)))"

definition expand_entry :: "server_env \<Rightarrow> nat \<Rightarrow> json \<Rightarrow> expansion \<Rightarrow> mcp_error + expansion" where
  "expand_entry E index entry x =
     (case as_object entry of
        None \<Rightarrow> Inl (invalid_params (annotation_at index @ '' must be an object''))
      | Some m \<Rightarrow>
          (case Option.bind (map_of m ''kind'') as_str of
             None \<Rightarrow> Inl (invalid_params (annotation_at index @ '' is missing kind''))
           | Some kind \<Rightarrow>
               (case ghost_from_tag kind of
                  Some ghost \<Rightarrow> Inr (x\<lparr>ex_ghosts := ex_ghosts x @ [(index, ghost, JObj (entry_body m))]\<rparr>)
                | None \<Rightarrow>
                    (case slot_of_kind kind of
                       None \<Rightarrow> Inl (unknown_kind_error E index kind)
                     | Some slot \<Rightarrow>
                         (case slot_value index kind slot m of
                            Inl e \<Rightarrow> Inl e
                          | Inr v \<Rightarrow>
                              (case slot of
                                 ListSlot f \<Rightarrow> Inr (place_list f index v x)
                               | SingleSlot f \<Rightarrow> place_single f kind index v x))))))"

fun expand_loop :: "server_env \<Rightarrow> nat \<Rightarrow> json list \<Rightarrow> expansion \<Rightarrow> mcp_error + expansion" where
  "expand_loop E index [] x = Inr x"
| "expand_loop E index (entry # entries) x =
     (case expand_entry E index entry x of
        Inl e \<Rightarrow> Inl e
      | Inr y \<Rightarrow> expand_loop E (Suc index) entries y)"

definition expand_tagged_annotations :: "server_env \<Rightarrow> inject_params \<Rightarrow> mcp_error + expansion" where
  "expand_tagged_annotations E params =
     (let x = \<lparr>ex_lists = ip_lists params, ex_singles = ip_singles params, ex_ghosts = [], ex_origin = []\<rparr>
      in case ip_annotations params of
           None \<Rightarrow> Inr x
         | Some entries \<Rightarrow> expand_loop E 0 entries x)"

section \<open>Naming the caller's entries\<close>

definition relabel_path :: "origin \<Rightarrow> string \<Rightarrow> (string \<times> nat) option" where
  "relabel_path origin path =
     (case map_of origin path of
        Some index \<Rightarrow> Some (annotation_at index, index)
      | None \<Rightarrow>
          (case split_once ''.'' path of
             None \<Rightarrow> None
           | Some (head, rest) \<Rightarrow>
               (case map_of origin head of
                  None \<Rightarrow> None
                | Some index \<Rightarrow> Some (annotation_at index @ ''.'' @ rest, index))))"

lemma split_once_rest_shorter: "pat \<noteq> [] \<Longrightarrow> split_once pat s = Some (a, b) \<Longrightarrow> length b < length s"
  by (auto dest: split_once_Some)

function replace_all :: "string \<Rightarrow> string \<Rightarrow> string \<Rightarrow> string" where
  "replace_all pat new s =
     (if pat = [] then s
      else case split_once pat s of
             None \<Rightarrow> s
           | Some (a, b) \<Rightarrow> a @ new @ replace_all pat new b)"
  by pat_completeness auto
termination
  by (relation "measure (\<lambda>(pat, new, s). length s)") (auto dest: split_once_rest_shorter)

declare replace_all.simps [simp del]

definition field_kinds :: "(string \<times> string) list" where
  "field_kinds =
     [(''proposed_complete_behaviors'', ''complete_behaviors''),
      (''proposed_disjoint_behaviors'', ''disjoint_behaviors''),
      (''proposed_loop_annots'', ''loop''), (''proposed_behaviors'', ''behavior''),
      (''proposed_requires'', ''requires''), (''proposed_ensures'', ''ensures''),
      (''proposed_assigns'', ''assigns''), (''proposed_asserts'', ''assert''),
      (''proposed_globals'', ''global'')]"

definition replace_step :: "string \<Rightarrow> string \<Rightarrow> string \<times> bool \<Rightarrow> string \<times> bool" where
  "replace_step pat new acc =
     (if str_contains (fst acc) pat then (replace_all pat new (fst acc), True) else acc)"

definition relabel_message :: "string \<Rightarrow> origin \<Rightarrow> string option" where
  "relabel_message text origin =
     (let keys = sort_key (\<lambda>k. - int (length k)) (map fst origin);
          acc = fold (\<lambda>k. replace_step k (annotation_at (the (map_of origin k)))) keys (text, False);
          acc = fold (\<lambda>(field, kind). replace_step field
                        (''annotations entries with kind '' @ [CHR 0x22] @ kind @ [CHR 0x22])) field_kinds acc
      in if snd acc then Some (fst acc) else None)"

definition relabel_field :: "origin \<Rightarrow> string \<Rightarrow> json \<Rightarrow> json option" where
  "relabel_field origin key child =
     (if key = ''successful'' then Some child
      else if key = ''derived_from'' \<or> key = ''proposed_path''
      then map_option (\<lambda>(path, index). JStr path) (Option.bind (as_str child) (relabel_path origin))
      else if key = ''frama_c_error'' \<or> key = ''message''
      then map_option JStr (Option.bind (as_str child) (\<lambda>text. relabel_message text origin))
      else None)"

definition relabelled_index :: "origin \<Rightarrow> fields \<Rightarrow> nat option" where
  "relabelled_index origin m =
     fold (\<lambda>(key, child) found.
             if key = ''derived_from'' \<or> key = ''proposed_path''
             then or_else (map_option snd (Option.bind (as_str child) (relabel_path origin))) found
             else found) m None"

definition set_index :: "nat option \<Rightarrow> fields \<Rightarrow> fields" where
  "set_index found m =
     (case found of None \<Rightarrow> m
      | Some index \<Rightarrow> if map_of m ''index'' = None then m else AList.update ''index'' (jnat index) m)"

function (sequential) relabel_value :: "origin \<Rightarrow> json \<Rightarrow> json" where
  "relabel_value origin (JObj m) =
     JObj (set_index (relabelled_index origin m)
       (map (\<lambda>p. (fst p, case relabel_field origin (fst p) (snd p) of
                            Some v \<Rightarrow> v | None \<Rightarrow> relabel_value origin (snd p))) m))"
| "relabel_value origin (JArr xs) = JArr (map (relabel_value origin) xs)"
| "relabel_value origin v = v"
  by pat_completeness auto
termination
proof (relation "measure (size \<circ> snd)")
  fix origin :: origin and m :: fields and p
  assume "p \<in> set m"
  then have "snd p \<in> snd ` set m" by simp
  from size_snd_member [OF this]
  show "((origin, snd p), (origin, JObj m)) \<in> measure (size \<circ> snd)" by simp
next
  fix origin :: origin and xs :: "json list" and v
  assume "v \<in> set xs"
  then have "size v \<le> size_list size xs" by (rule size_list_estimation') simp
  then show "((origin, v), (origin, JArr xs)) \<in> measure (size \<circ> snd)" by simp
qed simp

definition relabel_origins :: "origin \<Rightarrow> json \<Rightarrow> json" where
  "relabel_origins origin v = (if origin = [] then v else relabel_value origin v)"

definition relabel_mcp_error :: "origin \<Rightarrow> mcp_error \<Rightarrow> mcp_error" where
  "relabel_mcp_error origin e =
     (case relabel_message (mcp_message e) origin of
        Some message \<Rightarrow> mcp_error_of InvalidParams message (mcp_data e)
      | None \<Rightarrow> e)"

definition json_result_relabeled :: "server_env \<Rightarrow> json \<Rightarrow> origin \<Rightarrow> tool_result" where
  "json_result_relabeled E v origin = json_result E (relabel_origins origin v)"

section \<open>The plan of one call\<close>

definition loop_plan_step :: "behaviors \<Rightarrow> nat \<Rightarrow> json \<Rightarrow> plan \<Rightarrow> plan" where
  "loop_plan_step behaviors i annot =
     fold (\<lambda>outcome p. case outcome of
             Inr (acsl, kind, derived_from, stmt_id, purpose, user_label) \<Rightarrow>
               push_entry \<lparr>pe_acsl = acsl, pe_kind = kind, pe_derived_from = derived_from,
                           pe_stmt_id = stmt_id, pe_purpose = purpose, pe_user_label = user_label\<rparr> p
           | Inl (path, msg) \<Rightarrow> push_failure (planning_failure path [] msg) p)
          (loop_annots_to_acsl annot i behaviors)"

definition plan_loops :: "json list option \<Rightarrow> behaviors \<Rightarrow> plan \<Rightarrow> plan" where
  "plan_loops loops behaviors = plan_each (loop_plan_step behaviors) loops"

definition build_injection_plan ::
    "(list_field \<Rightarrow> json list option) \<Rightarrow> (single_field \<Rightarrow> json option) \<Rightarrow> behaviors \<Rightarrow> plan" where
  "build_injection_plan ls singles behaviors =
     (let p = (plan_globals (ls Globals) [], []);
          p = plan_requires (ls Requires) behaviors p;
          p = push_single_funspec_clause ''terminates'' ''proposed_terminates'' ''termination clause''
                (singles Terminates) behaviors p;
          p = push_single_funspec_clause ''decreases'' ''proposed_decreases'' ''decreases clause''
                (singles Decreases) behaviors p;
          p = push_single_funspec_clause ''exits'' ''proposed_exits'' ''exit clause''
                (singles Exits) behaviors p;
          p = plan_ensures (ls Ensures) behaviors p;
          p = plan_assigns (ls Assigns) behaviors p;
          p = push_behavior_group_clauses ''complete'' ''proposed_complete_behaviors''
                (ls CompleteBehaviors) behaviors p;
          p = push_behavior_group_clauses ''disjoint'' ''proposed_disjoint_behaviors''
                (ls DisjointBehaviors) behaviors p;
          p = plan_asserts (ls Asserts) p
      in plan_loops (ls LoopAnnots) behaviors p)"

definition behavior_table_step :: "json \<Rightarrow> behaviors \<Rightarrow> behaviors" where
  "behavior_table_step v behaviors =
     (case get_str v ''name'' of
        None \<Rightarrow> behaviors
      | Some name \<Rightarrow>
          if name = [] then behaviors
          else AList.update name (List.map_filter as_str (unwrap_or (get_array v ''assumes'') [])) behaviors)"

definition behavior_assumes_table :: "json list option \<Rightarrow> behaviors" where
  "behavior_assumes_table proposed = fold behavior_table_step (unwrap_or proposed []) []"

section \<open>Ghost code\<close>

record ghost_request =
  gr_resolved :: "resolved_client option"
  gr_request :: string
  gr_data :: json

record ghost_result =
  gh_index :: nat
  gh_kind :: string
  gh_result :: json

definition ghost_request_failure :: "nat \<Rightarrow> ghost_kind \<Rightarrow> string \<Rightarrow> injection_failure" where
  "ghost_request_failure index kind error =
     \<lparr>if_type = ProposedError, if_path = annotation_at index, if_acsl = ghost_name kind, if_error = error\<rparr>"

definition ghost_succeeded :: "json \<Rightarrow> bool" where
  "ghost_succeeded result = unwrap_or (Option.bind (jget result ''success'') as_bool) False"

text \<open>
  The derived deserializers of the five parameter records: a required text or integer, and a text that
  may be absent or null. The other fields of an entry are ignored.
\<close>

definition need_str :: "string \<Rightarrow> json \<Rightarrow> json option" where
  "need_str k v = map_option JStr (get_str v k)"

definition need_i64 :: "string \<Rightarrow> json \<Rightarrow> json option" where
  "need_i64 k v = (case get_i64 v k of None \<Rightarrow> None | Some n \<Rightarrow> Some (i64_json n))"

definition may_str :: "string \<Rightarrow> json \<Rightarrow> json option option" where
  "may_str k v =
     (case jget v k of None \<Rightarrow> Some None | Some JNull \<Rightarrow> Some None
      | Some (JStr s) \<Rightarrow> Some (Some (JStr s)) | Some _ \<Rightarrow> None)"

fun needed :: "(string \<times> (string \<Rightarrow> json \<Rightarrow> json option)) list \<Rightarrow> json \<Rightarrow> fields option" where
  "needed [] v = Some []"
| "needed ((k, read) # ks) v =
     (case read k v of None \<Rightarrow> None | Some x \<Rightarrow> map_option ((#) (k, x)) (needed ks v))"

fun optional :: "string list \<Rightarrow> json \<Rightarrow> fields option" where
  "optional [] v = Some []"
| "optional (k # ks) v =
     (case may_str k v of
        None \<Rightarrow> None
      | Some found \<Rightarrow>
          map_option (\<lambda>rest. case found of None \<Rightarrow> rest | Some x \<Rightarrow> (k, x) # rest) (optional ks v))"

text \<open>The fields of a request, those a record requires before those it may leave out.\<close>

definition ghost_fields ::
    "(string \<times> (string \<Rightarrow> json \<Rightarrow> json option)) list \<Rightarrow> string list \<Rightarrow> json \<Rightarrow> fields option" where
  "ghost_fields required others v =
     (case needed required v of None \<Rightarrow> None
      | Some a \<Rightarrow> (case optional others v of None \<Rightarrow> None | Some b \<Rightarrow> Some (a @ b)))"

fun ghost_params :: "ghost_kind \<Rightarrow> json \<Rightarrow> fields option" where
  "ghost_params GhostGlobal v = ghost_fields [(''name'', need_str)] [''type'', ''expr''] v"
| "ghost_params GhostFormal v = ghost_fields [(''name'', need_str)] [''type'', ''where''] v"
| "ghost_params GhostLemmaFunction v =
     ghost_fields [(''name'', need_str), (''param'', need_str), (''requires'', need_str),
                   (''decreases'', need_str), (''assigns'', need_str), (''ensures'', need_str)]
                  [''param_type''] v"
| "ghost_params GhostLoop v =
     ghost_fields [(''stmt'', need_i64), (''name'', need_str), (''stop'', need_str),
                   (''invariant'', need_str), (''assigns'', need_str), (''variant'', need_str)]
                  [''type'', ''init'', ''step'', ''assert''] v"
| "ghost_params GhostStmt v =
     ghost_fields [(''stmt'', need_i64), (''op'', need_str), (''name'', need_str), (''expr'', need_str)]
                  [''type''] v"

definition resolve_optional_sandbox :: "string option \<Rightarrow> server \<Rightarrow> mcp_error + resolved_client option" where
  "resolve_optional_sandbox sandbox_name s =
     (case sandbox_name of
        None \<Rightarrow> Inr None
      | Some name \<Rightarrow>
          (case resolve_client name s of
             Inl e \<Rightarrow> Inl e
           | Inr r \<Rightarrow>
               if rc_experiment_id r = None
               then Inl (invalid_params ''sandbox_name must include experiment_id prefix'')
               else Inr (Some r)))"

definition ghost_endpoint :: "ghost_kind \<Rightarrow> string" where
  "ghost_endpoint kind = ''plugins.ast-utils.'' @
     (case kind of GhostGlobal \<Rightarrow> ''execInsertGhostGlobal'' | GhostFormal \<Rightarrow> ''execInsertGhostFormal''
      | GhostLemmaFunction \<Rightarrow> ''execInsertGhostLemmaFunction'' | GhostLoop \<Rightarrow> ''execInsertGhostLoop''
      | GhostStmt \<Rightarrow> ''execInsertGhostStmt'')"

text \<open>
  Kinds that belong to a project resolve an optional sandbox and send only their fields; the others
  resolve the target and send its function name first.
\<close>

definition project_wide :: "ghost_kind \<Rightarrow> bool" where
  "project_wide kind \<longleftrightarrow> kind = GhostGlobal \<or> kind = GhostLemmaFunction"

definition build_ghost ::
    "ghost_kind \<Rightarrow> string \<Rightarrow> string option \<Rightarrow> fields \<Rightarrow> server \<Rightarrow> mcp_error + ghost_request" where
  "build_ghost kind target sandbox fs s =
     (if project_wide kind
      then (case resolve_optional_sandbox sandbox s of
              Inl e \<Rightarrow> Inl e
            | Inr r \<Rightarrow> Inr \<lparr>gr_resolved = r, gr_request = ghost_endpoint kind, gr_data = JObj fs\<rparr>)
      else (case resolve_client target s of
              Inl e \<Rightarrow> Inl e
            | Inr r \<Rightarrow> Inr \<lparr>gr_resolved = Some r, gr_request = ghost_endpoint kind,
                            gr_data = JObj ((''function'', JStr (rc_function r)) # fs)\<rparr>))"

definition ghost_request_of ::
    "server_env \<Rightarrow> nat \<Rightarrow> ghost_kind \<Rightarrow> string \<Rightarrow> string option \<Rightarrow> json \<Rightarrow> server \<Rightarrow>
     injection_failure + ghost_request" where
  "ghost_request_of E index kind target sandbox entry s =
     (case ghost_params kind entry of
        None \<Rightarrow> Inl (ghost_request_failure index kind
                       (ghost_name kind @ '': '' @ serde_text E (ghost_name kind) entry))
      | Some fs \<Rightarrow>
          (case build_ghost kind target sandbox fs s of
             Inl e \<Rightarrow> Inl (ghost_request_failure index kind (mcp_error_text E e))
           | Inr r \<Rightarrow> Inr r))"

text \<open>The bookkeeping of a change in a sandbox; a failed write is only logged.\<close>

definition json_text_of :: "server_env \<Rightarrow> json_text" where
  "json_text_of E = \<lparr>jt_print = pretty E, jt_parse = from_str E, jt_debug = debug_str E\<rparr>"

definition mark_sandbox_annotation_changed :: "server_env \<Rightarrow> resolved_client \<Rightarrow> server \<Rightarrow> server" where
  "mark_sandbox_annotation_changed E r s =
     (case rc_experiment_id r of
        None \<Rightarrow> s
      | Some exp_id \<Rightarrow>
          (case map_of (srv_sandboxes s) exp_id of
             None \<Rightarrow> s
           | Some m \<Rightarrow>
               (let f = sb_original_function m; session = on_annotation_added f (srv_session s)
                in s\<lparr>srv_session := session,
                     srv_disk := (case get_conclusion session f of None \<Rightarrow> srv_disk s
                        | Some c \<Rightarrow> snd (persist_conclusion_at (json_text_of E) (disk_write E f) f c (srv_disk s)))\<rparr>)))"

definition record_sandbox_annotation :: "server_env \<Rightarrow> resolved_client \<Rightarrow> server \<Rightarrow> server" where
  "record_sandbox_annotation = mark_sandbox_annotation_changed"

definition exec_ghost ::
    "server_env \<Rightarrow> ghost_request \<Rightarrow> bool \<Rightarrow> server \<Rightarrow> (mcp_error + json) \<times> server" where
  "exec_ghost E g dry_run s =
     (if dry_run
      then (Inr (JObj [(''success'', JBool True), (''dry_run'', JBool True),
                       (''request'', JStr (gr_request g)), (''data'', gr_data g)]), s)
      else (case (case gr_resolved g of Some r \<Rightarrow> Inr (rc_client r) | None \<Rightarrow> require_client s) of
              Inl e \<Rightarrow> (Inl e, s)
            | Inr client \<Rightarrow>
                (case send_mcp E \<lparr>call_client = client, call_kind = Exec, call_endpoint = gr_request g,
                         call_data = gr_data g\<rparr> s of
                   (Inl e, s') \<Rightarrow> (Inl e, s')
                 | (Inr result, s') \<Rightarrow>
                     (let payload = (case jget result ''result'' of
                              None \<Rightarrow> result
                            | Some inner \<Rightarrow> if as_object inner = None then result else inner)
                      in (Inr payload,
                          case gr_resolved g of
                            None \<Rightarrow> s'
                          | Some r \<Rightarrow> if ghost_succeeded payload
                                      then mark_sandbox_annotation_changed E r s' else s')))))"

type_synonym ghost_outcome = "ghost_result list \<times> injection_failure list"

definition ghost_entry ::
    "server_env \<Rightarrow> string \<Rightarrow> string option \<Rightarrow> bool \<Rightarrow> nat \<times> ghost_kind \<times> json \<Rightarrow>
     ghost_outcome \<times> server \<Rightarrow> ghost_outcome \<times> server" where
  "ghost_entry E target sandbox dry_run g a =
     (case g of (index, kind, entry) \<Rightarrow> case a of ((results, failures), s) \<Rightarrow>
        (case ghost_request_of E index kind target sandbox entry s of
           Inl failure \<Rightarrow> ((results, failures @ [failure]), s)
         | Inr r \<Rightarrow>
             (case exec_ghost E r dry_run s of
                (Inl e, s') \<Rightarrow>
                  ((results, failures @ [ghost_request_failure index kind (mcp_error_text E e)]), s')
              | (Inr result, s') \<Rightarrow>
                  ((results @ [\<lparr>gh_index = index, gh_kind = ghost_name kind, gh_result = result\<rparr>],
                    if ghost_succeeded result then failures
                    else failures @ [ghost_request_failure index kind
                           (unwrap_or (get_str result ''error'') ''ghost insertion refused'')]), s'))))"

definition apply_ghost_entries ::
    "server_env \<Rightarrow> string \<Rightarrow> ghost_entries \<Rightarrow> bool \<Rightarrow> server \<Rightarrow> ghost_outcome \<times> server" where
  "apply_ghost_entries E target ghosts dry_run s =
     fold (ghost_entry E target (if CHR '':'' \<in> set target then Some target else None) dry_run)
       ghosts (([], []), s)"

section \<open>Serialized answers\<close>

fun failure_type_name :: "failure_type \<Rightarrow> string" where
  "failure_type_name SyntaxError = ''syntax_error''"
| "failure_type_name ProposedSelfReferential = ''proposed_self_referential''"
| "failure_type_name ProposedLocalVarInFunspec = ''proposed_local_var_in_funspec''"
| "failure_type_name ProposedError = ''proposed_error''"

definition failure_json :: "injection_failure \<Rightarrow> json" where
  "failure_json f =
     JObj [(''type'', JStr (failure_type_name (if_type f))), (''proposed_path'', JStr (if_path f)),
           (''acsl_text'', JStr (if_acsl f)), (''frama_c_error'', JStr (if_error f))]"

definition ghost_json :: "ghost_result \<Rightarrow> json" where
  "ghost_json g =
     JObj [(''index'', jnat (gh_index g)), (''kind'', JStr (gh_kind g)), (''result'', gh_result g)]"

definition summary_json :: "nat \<Rightarrow> nat \<Rightarrow> nat \<Rightarrow> json" where
  "summary_json attempted ok failed =
     JObj [(''total_attempted'', jnat attempted), (''successful_count'', jnat ok), (''failure_count'', jnat failed)]"

definition unless_empty :: "string \<Rightarrow> json list \<Rightarrow> fields" where
  "unless_empty k vs = (if vs = [] then [] else [(k, JArr vs)])"

record injected_entry =
  ie_hash_label :: string
  ie_user_label :: "string option"
  ie_kind :: string
  ie_acsl :: string
  ie_stmt_id :: "i64 option"
  ie_derived_from :: string
  ie_purpose :: string

text \<open>The four fields a proof fills in later are always null here, and the source is always generated.\<close>

definition injected_json :: "injected_entry \<Rightarrow> json" where
  "injected_json e =
     JObj [(''hash_label'', JStr (ie_hash_label e)), (''user_label'', jopt JStr (ie_user_label e)),
           (''kind'', JStr (ie_kind e)), (''acsl'', JStr (ie_acsl e)),
           (''stmt_id'', jopt i64_json (ie_stmt_id e)), (''derived_from'', JStr (ie_derived_from e)),
           (''source'', JStr ''generated''), (''purpose'', JStr (ie_purpose e)),
           (''proof_target'', JNull), (''wp_status'', JNull), (''wp_time_ms'', JNull), (''wp_prover'', JNull)]"

definition ghost_only_response ::
    "bool \<Rightarrow> nat \<Rightarrow> ghost_result list \<Rightarrow> injection_failure list \<Rightarrow> json" where
  "ghost_only_response dry_run attempted ghosts failures =
     JObj [(''status'', JStr ''proposed_error''), (''dry_run'', JBool dry_run),
           (''clauses_attempted'', JBool False), (''ghosts'', JArr (map ghost_json ghosts)),
           (''failures'', JArr (map failure_json failures)),
           (''summary'', summary_json attempted
              (length (filter (\<lambda>g. ghost_succeeded (gh_result g)) ghosts)) (length failures))]"

section \<open>Loops by source order\<close>

definition fetch_loop_sids :: "server_env \<Rightarrow> resolved_client \<Rightarrow> server \<Rightarrow> (mcp_error + i64 list) \<times> server" where
  "fetch_loop_sids E r s =
     (case send_mcp E \<lparr>call_client = rc_client r, call_kind = Get,
              call_endpoint = ''plugins.ast-utils.getFunctionAst'', call_data = JStr (rc_function r)\<rparr> s of
        (Inl e, s') \<Rightarrow> (Inl e, s')
      | (Inr ast, s') \<Rightarrow> (Inr (collect_loop_sids ast), s'))"

definition names_main_loop :: "i64 list \<Rightarrow> json \<Rightarrow> bool" where
  "names_main_loop sids annotation =
     (case get_i64 annotation ''stmt_id'' of None \<Rightarrow> False | Some sid \<Rightarrow> sid \<in> set sids)"

definition set_stmt_id :: "i64 \<Rightarrow> json \<Rightarrow> json" where
  "set_stmt_id sid l = on_object (AList.update ''stmt_id'' (i64_json sid)) l"

definition remapped_loops :: "string \<Rightarrow> i64 list \<Rightarrow> json list \<Rightarrow> mcp_error + json list" where
  "remapped_loops function sids loops =
     (if list_all (names_main_loop sids) loops then Inr loops
      else if length sids \<noteq> length loops
      then Inl (invalid_params (''main function '' @ quoted function @ '' has '' @ show_nat (length sids) @
                  '' loop(s) but proposed_loop_annots has '' @ show_nat (length loops) @
                  ''; cannot map loop sids (O3)''))
      else Inr (map2 set_stmt_id sids loops))"

definition remap_loop_sids_to_main ::
    "server_env \<Rightarrow> resolved_client \<Rightarrow> json list option \<Rightarrow> server \<Rightarrow> (mcp_error + json list option) \<times> server" where
  "remap_loop_sids_to_main E r loops s =
     (case loops of
        None \<Rightarrow> (Inr None, s)
      | Some ls \<Rightarrow>
          if ls = [] then (Inr (Some ls), s)
          else (case fetch_loop_sids E r s of
                  (Inl e, s') \<Rightarrow> (Inl e, s')
                | (Inr sids, s') \<Rightarrow>
                    (case remapped_loops (rc_function r) sids ls of
                       Inl e \<Rightarrow> (Inl e, s') | Inr ls' \<Rightarrow> (Inr (Some ls'), s'))))"

section \<open>Sending the plan\<close>

definition existing_annotation_texts :: "server_env \<Rightarrow> resolved_client \<Rightarrow> server \<Rightarrow> string list \<times> server" where
  "existing_annotation_texts E r s =
     (case send E \<lparr>call_client = rc_client r, call_kind = Get,
              call_endpoint = ''kernel.properties.fetchStatus'',
              call_data = JObj [(''function'', JStr (rc_function r))]\<rparr> s of
        (Inl e, s') \<Rightarrow> ([], s')
      | (Inr props, s') \<Rightarrow>
          (map normalize_for_comparison
             (List.map_filter (\<lambda>p. get_str p ''acsl'') (unwrap_or (as_array props) [])), s'))"

definition injected_of :: "string \<Rightarrow> plan_entry \<Rightarrow> injected_entry" where
  "injected_of hash e =
     \<lparr>ie_hash_label = hash, ie_user_label = pe_user_label e, ie_kind = pe_kind e, ie_acsl = pe_acsl e,
      ie_stmt_id = pe_stmt_id e, ie_derived_from = pe_derived_from e, ie_purpose = pe_purpose e\<rparr>"

definition entry_failure :: "failure_type \<Rightarrow> string \<Rightarrow> plan_entry \<Rightarrow> injection_failure" where
  "entry_failure t error e =
     \<lparr>if_type = t, if_path = pe_derived_from e, if_acsl = pe_acsl e, if_error = error\<rparr>"

definition add_annotation_impl ::
    "server_env \<Rightarrow> string \<Rightarrow> string \<Rightarrow> string \<Rightarrow> i64 option \<Rightarrow> string option \<Rightarrow> server \<Rightarrow>
     (mcp_error + tool_result \<times> string) \<times> server" where
  "add_annotation_impl E function kind acsl stmt user_label s =
     (case resolve_client function s of
        Inl e \<Rightarrow> (Inl e, s)
      | Inr r \<Rightarrow>
          (let hash_label = generate_hash_label (random_hex8 E (srv_calls s)) kind;
               data = JObj ([(''function'', JStr (rc_function r)), (''kind'', JStr kind),
                             (''acsl'', JStr acsl), (''label'', JStr (full_label hash_label user_label))] @
                            (case stmt of None \<Rightarrow> [] | Some n \<Rightarrow> [(''stmt'', i64_json n)]))
           in case send_mcp E \<lparr>call_client = rc_client r, call_kind = Exec,
                       call_endpoint = ''plugins.ast-utils.execAddAnnotation'', call_data = data\<rparr> s of
                (Inl e, s') \<Rightarrow> (Inl e, s')
              | (Inr result, s') \<Rightarrow>
                  (Inr (json_result E (on_object (AList.update ''hash_label'' (JStr hash_label)) result),
                        hash_label), s')))"

text \<open>One clause sent: the plug-in's answer with the label used, or the text of the failure.\<close>

definition send_entry ::
    "server_env \<Rightarrow> resolved_client \<Rightarrow> string \<Rightarrow> plan_entry \<Rightarrow> server \<Rightarrow>
     (string + tool_result \<times> string) \<times> server" where
  "send_entry E r target e s =
     (if pe_kind e = ''global''
      then (case send E \<lparr>call_client = rc_client r, call_kind = Exec,
                    call_endpoint = ''plugins.ast-utils.execAddGlobalAcsl'',
                    call_data = JObj [(''acsl'', JStr (pe_acsl e))]\<rparr> s of
              (Inl err, s') \<Rightarrow> (Inl (display_error (texts E) err), s')
            | (Inr result, s') \<Rightarrow> (Inr (json_result E result, ''global''), s'))
      else (case add_annotation_impl E target (acsl_kind_to_ast_kind (pe_acsl e)) (pe_acsl e)
                    (pe_stmt_id e) (pe_user_label e) s of
              (Inl err, s') \<Rightarrow> (Inl (mcp_message err), s')
            | (Inr answer, s') \<Rightarrow> (Inr answer, s')))"

type_synonym clause_outcome = "injected_entry list \<times> injection_failure list"

definition execute_entry ::
    "server_env \<Rightarrow> resolved_client \<Rightarrow> string \<Rightarrow> string list \<Rightarrow> plan_entry \<Rightarrow>
     clause_outcome \<times> server \<Rightarrow> clause_outcome \<times> server" where
  "execute_entry E r target existing e a =
     (case a of ((successful, failures), s) \<Rightarrow>
        if normalize_for_comparison (pe_acsl e) \<in> set existing
        then ((successful @ [injected_of ''existing'' e], failures), s)
        else (case send_entry E r target e s of
                (Inl error, s') \<Rightarrow> ((successful, failures @ [entry_failure ProposedError error e]), s')
              | (Inr (result, hash), s') \<Rightarrow>
                  if parse_plugin_success E result
                  then ((successful @ [injected_of hash e], failures), s')
                  else (let error = unwrap_or (parse_plugin_error E result) ''unknown error''
                        in ((successful, failures @ [entry_failure (classify_failure error) error e]), s'))))"

definition execute_injection_plan ::
    "server_env \<Rightarrow> resolved_client \<Rightarrow> string \<Rightarrow> plan_entry list \<Rightarrow> string list \<Rightarrow> injection_failure list \<Rightarrow>
     server \<Rightarrow> clause_outcome \<times> server" where
  "execute_injection_plan E r target plan existing early s =
     fold (execute_entry E r target existing) plan (([], early), s)"

section \<open>A dry run\<close>

definition validation_result_is_valid :: "json \<Rightarrow> bool" where
  "validation_result_is_valid v =
     unwrap_or (or_else (Option.bind (jget v ''valid'') as_bool)
       (Option.bind (jget v ''result'') (\<lambda>r. Option.bind (jget r ''valid'') as_bool))) False"

definition validation_result_error :: "json \<Rightarrow> string option" where
  "validation_result_error v =
     or_else (get_str v ''error'') (Option.bind (jget v ''result'') (\<lambda>r. get_str r ''error''))"

text \<open>\<open>str::parse::<usize>\<close> of the text between the first brackets.\<close>

definition parse_usize :: "string \<Rightarrow> nat option" where
  "parse_usize s =
     (let ds = (case s of c # cs \<Rightarrow> if c = CHR ''+'' then cs else s | [] \<Rightarrow> [])
      in if ds = [] \<or> \<not> list_all is_ascii_digit ds then None
         else (let n = foldl (\<lambda>n c. 10 * n + (byte_of c - 48)) 0 ds
               in if n < 2 ^ 64 then Some n else None))"

definition proposed_path_index :: "string \<Rightarrow> nat option" where
  "proposed_path_index path =
     (case split_once ''['' path of
        None \<Rightarrow> None
      | Some (_, rest) \<Rightarrow>
          (case split_once '']'' rest of None \<Rightarrow> None | Some (digits, _) \<Rightarrow> parse_usize digits))"

definition clause_json ::
    "bool \<Rightarrow> string \<Rightarrow> string \<Rightarrow> string \<Rightarrow> i64 option \<Rightarrow> string \<Rightarrow> string option \<Rightarrow> string \<Rightarrow>
     (failure_type \<times> string) option \<Rightarrow> json" where
  "clause_json valid path function kind stmt acsl label purpose failure =
     JObj [(''valid'', JBool valid), (''proposed_path'', JStr path),
           (''index'', jopt jnat (proposed_path_index path)),
           (''insertion_target'', JObj [(''function'', JStr function), (''kind'', JStr kind),
              (''stmt_id'', jopt i64_json stmt)]),
           (''acsl_text'', JStr acsl), (''user_label'', jopt JStr label), (''purpose'', JStr purpose),
           (''type'', jopt (\<lambda>(t, e). JStr (failure_type_name t)) failure),
           (''frama_c_error'', jopt (\<lambda>(t, e). JStr e) failure)]"

definition early_clause :: "string \<Rightarrow> injection_failure \<Rightarrow> bool \<times> json" where
  "early_clause function f =
     (False, clause_json False (if_path f) function ''unknown'' None (if_acsl f) None []
        (Some (if_type f, if_error f)))"

definition validation_kind :: "plan_entry \<Rightarrow> string" where
  "validation_kind e = (if pe_kind e = ''global'' then ''global'' else acsl_kind_to_ast_kind (pe_acsl e))"

type_synonym validation_outcome = "(bool \<times> json) list \<times> injection_failure list"

definition validated_clause :: "string \<Rightarrow> plan_entry \<Rightarrow> json \<Rightarrow> validation_outcome \<Rightarrow> validation_outcome" where
  "validated_clause function e validation a =
     (let clause = (\<lambda>valid. clause_json valid (pe_derived_from e) function (validation_kind e) (pe_stmt_id e)
                      (pe_acsl e) (pe_user_label e) (pe_purpose e))
      in if validation_result_is_valid validation then (fst a @ [(True, clause True None)], snd a)
         else (let error = unwrap_or (validation_result_error validation) ''unknown validation error'';
                   t = classify_failure error
               in (fst a @ [(False, clause False (Some (t, error)))], snd a @ [entry_failure t error e])))"

fun validate_entries ::
    "server_env \<Rightarrow> resolved_client \<Rightarrow> plan_entry list \<Rightarrow> validation_outcome \<Rightarrow> server \<Rightarrow>
     (mcp_error + validation_outcome) \<times> server" where
  "validate_entries E r [] a s = (Inr a, s)"
| "validate_entries E r (e # es) a s =
     (case send_mcp E \<lparr>call_client = rc_client r, call_kind = Get,
              call_endpoint = ''plugins.ast-utils.getAcslValidation'',
              call_data = JObj ([(''function'', JStr (rc_function r)), (''kind'', JStr (validation_kind e)),
                                 (''acsl'', JStr (pe_acsl e))] @
                                (case pe_stmt_id e of None \<Rightarrow> [] | Some n \<Rightarrow> [(''stmt'', i64_json n)]))\<rparr> s of
        (Inl err, s') \<Rightarrow> (Inl err, s')
      | (Inr validation, s') \<Rightarrow> validate_entries E r es (validated_clause (rc_function r) e validation a) s')"

definition dry_run_validation ::
    "server_env \<Rightarrow> resolved_client \<Rightarrow> plan_entry list \<Rightarrow> injection_failure list \<Rightarrow> ghost_result list \<Rightarrow>
     origin \<Rightarrow> server \<Rightarrow> (mcp_error + tool_result) \<times> server" where
  "dry_run_validation E r plan early ghosts origin s =
     (case validate_entries E r plan (map (early_clause (rc_function r)) early, early) s of
        (Inl e, s') \<Rightarrow> (Inl e, s')
      | (Inr (clauses, failures), s') \<Rightarrow>
          (Inr (json_result_relabeled E
             (JObj ([(''status'', JStr (compute_status failures)), (''dry_run'', JBool True),
                     (''clauses'', JArr (map snd clauses)), (''failures'', JArr (map failure_json failures))] @
                    unless_empty ''ghosts'' (map ghost_json ghosts) @
                    (if ghosts = [] then [] else [(''ghosts_not_applied'', JBool True)]) @
                    [(''summary'', summary_json (length clauses) (length (filter fst clauses)) (length failures))]))
             origin), s'))"

section \<open>Comparing the sandbox with the main project\<close>

record equivalence =
  eq_match :: bool
  eq_expected :: "string list"
  eq_actual :: "string list"
  eq_excerpts :: "(string \<times> string) option"

definition compare_annotation_equivalence ::
    "server_env \<Rightarrow> resolved_client \<Rightarrow> resolved_client \<Rightarrow> server \<Rightarrow> (mcp_error + equivalence) \<times> server" where
  "compare_annotation_equivalence E sandbox main s =
     (case fetch_extracted_annotations E sandbox s of
        (Inl e, s1) \<Rightarrow> (Inl e, s1)
      | (Inr expected, s1) \<Rightarrow>
          (case fetch_extracted_annotations E main s1 of
             (Inl e, s2) \<Rightarrow> (Inl e, s2)
           | (Inr actual, s2) \<Rightarrow>
               if expected = actual
               then (Inr \<lparr>eq_match = True, eq_expected = expected, eq_actual = actual, eq_excerpts = None\<rparr>, s2)
               else (case fetch_printed_source E sandbox s2 of
                       (Inl e, s3) \<Rightarrow> (Inl e, s3)
                     | (Inr sandbox_source, s3) \<Rightarrow>
                         (case fetch_printed_source E main s3 of
                            (Inl e, s4) \<Rightarrow> (Inl e, s4)
                          | (Inr main_source, s4) \<Rightarrow>
                              (Inr \<lparr>eq_match = False, eq_expected = expected, eq_actual = actual,
                                    eq_excerpts = Some (source_excerpt sandbox_source,
                                                        source_excerpt main_source)\<rparr>, s4)))))"

definition equivalence_json :: "string \<Rightarrow> string \<Rightarrow> equivalence \<Rightarrow> json" where
  "equivalence_json sandbox_name function c =
     JObj ([(''status'', JStr (if eq_match c then ''match'' else ''mismatch'')),
            (''sandbox_name'', JStr sandbox_name), (''function'', JStr function),
            (''matched_count'', jnat (if eq_match c then length (eq_actual c) else 0)),
            (''mismatches'', JArr (if eq_match c then []
               else [JObj [(''kind'', JStr ''annotations''), (''expected'', jstrs (eq_expected c)),
                           (''actual'', jstrs (eq_actual c))]]))] @
           (case eq_excerpts c of None \<Rightarrow> []
            | Some (sandbox_source, main_source) \<Rightarrow>
                [(''sandbox_source_excerpt'', JStr sandbox_source),
                 (''main_source_excerpt'', JStr main_source)]))"

definition resolve_equivalence_sandbox ::
    "string option \<Rightarrow> resolved_client \<Rightarrow> server \<Rightarrow> mcp_error + (string \<times> resolved_client) option" where
  "resolve_equivalence_sandbox equivalence_sandbox r s =
     (case equivalence_sandbox of
        None \<Rightarrow> Inr None
      | Some name \<Rightarrow>
          (case resolve_client name s of
             Inl e \<Rightarrow> Inl e
           | Inr sandbox \<Rightarrow>
               if rc_experiment_id sandbox = None
               then Inl (invalid_params (''sandbox_name must include experiment_id prefix (e.g. '' @
                           quoted ''exp42:func'' @ '')''))
               else if rc_function sandbox \<noteq> rc_function r
               then Inl (invalid_params (''sandbox_name '' @ quoted name @ '' targets function '' @
                           quoted (rc_function sandbox) @ '', expected '' @ quoted (rc_function r)))
               else Inr (Some (name, sandbox))))"

definition equivalence_check ::
    "server_env \<Rightarrow> string \<Rightarrow> (string \<times> resolved_client) option \<Rightarrow> resolved_client \<Rightarrow> server \<Rightarrow>
     (mcp_error + string \<times> (string \<times> equivalence) option) \<times> server" where
  "equivalence_check E status sandbox r s =
     (if status \<noteq> ''success'' then (Inr (status, None), s)
      else (case sandbox of
              None \<Rightarrow> (Inr (status, None), s)
            | Some (name, sb) \<Rightarrow>
                (case compare_annotation_equivalence E sb r s of
                   (Inl e, s') \<Rightarrow> (Inl e, s')
                 | (Inr check, s') \<Rightarrow>
                     (Inr (if eq_match check then status else ''equivalence_mismatch'', Some (name, check)), s'))))"

section \<open>One call\<close>

definition injection_response ::
    "string \<Rightarrow> clause_outcome \<Rightarrow> ghost_result list \<Rightarrow> string \<Rightarrow> (string \<times> equivalence) option \<Rightarrow> json" where
  "injection_response status outcome ghosts function check =
     (case outcome of (successful, failures) \<Rightarrow>
        JObj ([(''status'', JStr status), (''successful'', JArr (map injected_json successful)),
               (''failures'', JArr (map failure_json failures))] @
              unless_empty ''ghosts'' (map ghost_json ghosts) @
              [(''summary'', summary_json (length successful + length failures)
                  (length successful) (length failures))] @
              (case check of None \<Rightarrow> []
               | Some (name, c) \<Rightarrow> [(''equivalence'', equivalence_json name function c)])))"

text \<open>Everything after the plan is made, when the call is not a dry run.\<close>

definition execute_and_report ::
    "server_env \<Rightarrow> string \<Rightarrow> resolved_client \<Rightarrow> (string \<times> resolved_client) option \<Rightarrow> plan \<Rightarrow>
     ghost_result list \<Rightarrow> origin \<Rightarrow> server \<Rightarrow> (mcp_error + tool_result) \<times> server" where
  "execute_and_report E target r sandbox plan ghosts origin s =
     (case existing_annotation_texts E r s of (existing, s1) \<Rightarrow>
        (case execute_injection_plan E r target (fst plan) existing (snd plan) s1 of (outcome, s2) \<Rightarrow>
           (case equivalence_check E (compute_status (snd outcome)) sandbox r s2 of
              (Inl e, s3) \<Rightarrow> (Inl e, s3)
            | (Inr (status, check), s3) \<Rightarrow>
                (Inr (json_result_relabeled E
                        (injection_response status outcome ghosts (rc_function r) check) origin),
                 record_sandbox_annotation E r s3))))"

definition inject_all_impl ::
    "server_env \<Rightarrow> string \<Rightarrow> bool \<Rightarrow> expansion \<Rightarrow> string option \<Rightarrow> ghost_result list \<Rightarrow> server \<Rightarrow>
     (mcp_error + tool_result) \<times> server" where
  "inject_all_impl E target dry_run x equivalence_sandbox ghosts s =
     (case resolve_client target s of
        Inl e \<Rightarrow> (Inl e, s)
      | Inr r \<Rightarrow>
          (case resolve_equivalence_sandbox equivalence_sandbox r s of
             Inl e \<Rightarrow> (Inl e, s)
           | Inr sandbox \<Rightarrow>
               (case (if CHR '':'' \<in> set target then (Inr (ex_lists x LoopAnnots), s)
                      else remap_loop_sids_to_main E r (ex_lists x LoopAnnots) s) of
                  (Inl e, s1) \<Rightarrow> (Inl e, s1)
                | (Inr loops, s1) \<Rightarrow>
                    (let plan = build_injection_plan ((ex_lists x)(LoopAnnots := loops)) (ex_singles x)
                                  (behavior_assumes_table (ex_lists x Behaviors))
                     in if dry_run
                        then dry_run_validation E r (fst plan) (snd plan) ghosts (ex_origin x) s1
                        else execute_and_report E target r sandbox plan ghosts (ex_origin x) s1))))"

definition injection_target :: "string option \<Rightarrow> string option \<Rightarrow> mcp_error + string" where
  "injection_target function sandbox_name =
     (case (function, sandbox_name) of
        (Some f, Some sb) \<Rightarrow>
          if CHR '':'' \<in> set f \<and> f \<noteq> sb
          then Inl (invalid_params ''function and sandbox_name must match when function is sandbox-prefixed'')
          else Inr f
      | (Some f, None) \<Rightarrow> Inr f
      | (None, Some sb) \<Rightarrow> Inr sb
      | (None, None) \<Rightarrow> Inl (invalid_params ''function or sandbox_name is required''))"

definition carries_contract :: "(list_field \<Rightarrow> json list option) \<Rightarrow> bool" where
  "carries_contract ls \<longleftrightarrow>
     (\<exists>f \<in> {Requires, Ensures}. case ls f of None \<Rightarrow> False | Some vs \<Rightarrow> vs \<noteq> [])"

definition contract_refusal :: mcp_error where
  "contract_refusal = invalid_params
     (''requires and ensures cannot be injected into the main project: a function '' @
      ''contract is a reviewed, version-controlled asset. Try the clause in a '' @
      ''sandbox with create_sandbox, and have a human write the one that works '' @
      ''into the C source. Invariants, asserts, assigns, ghost code and lemmas '' @
      ''are unaffected.'')"

definition inject_expanded ::
    "server_env \<Rightarrow> string \<Rightarrow> bool \<Rightarrow> string option \<Rightarrow> expansion \<Rightarrow> server \<Rightarrow> (mcp_error + tool_result) \<times> server" where
  "inject_expanded E target dry_run equivalence_sandbox x s =
     (case apply_ghost_entries E target (ex_ghosts x) dry_run s of ((ghosts, failures), s') \<Rightarrow>
        if failures \<noteq> []
        then (Inr (json_result E (ghost_only_response dry_run (length (ex_ghosts x)) ghosts failures)), s')
        else (case inject_all_impl E target dry_run x equivalence_sandbox ghosts s' of
                (Inl e, s'') \<Rightarrow> (Inl (relabel_mcp_error (ex_origin x) e), s'')
              | (Inr res, s'') \<Rightarrow> (Inr res, s'')))"

definition inject_all_annotations ::
    "server_env \<Rightarrow> inject_params \<Rightarrow> server \<Rightarrow> (mcp_error + tool_result) \<times> server" where
  "inject_all_annotations E params s =
     (case injection_target (ip_function params) (ip_sandbox_name params) of
        Inl e \<Rightarrow> (Inl e, s)
      | Inr target \<Rightarrow>
          (case expand_tagged_annotations E params of
             Inl e \<Rightarrow> (Inl e, s)
           | Inr x \<Rightarrow>
               if CHR '':'' \<notin> set target \<and> carries_contract (ex_lists x) then (Inl contract_refusal, s)
               else inject_expanded E target (ip_dry_run params)
                      (if \<not> ip_dry_run params \<and> CHR '':'' \<notin> set target then ip_sandbox_name params else None)
                      x s))"

end
