(* ===== verification/Inject_Props.thy ===== *)
theory Inject_Props
  imports Inject "HOL-Library.Multiset"
begin

text \<open>
  What an injection promises: a dry run only reads, contracts stay out of the main project, a failed
  ghost insertion stops the clauses, every planned clause is reported, loops land on loops of the main
  function, and diagnostics name the entries the caller wrote.
\<close>

section \<open>What an operation sends\<close>

text \<open>
  \<open>extends P s s'\<close>: between the two states only requests satisfying \<open>P\<close> were sent, and the requests
  sent before are still there.
\<close>

definition extends :: "(call \<Rightarrow> bool) \<Rightarrow> server \<Rightarrow> server \<Rightarrow> bool" where
  "extends P s s' \<longleftrightarrow> (\<exists>cs. srv_calls s' = srv_calls s @ cs \<and> (\<forall>c \<in> set cs. P c))"

lemma extends_refl [simp, intro]: "extends P s s"
  by (simp add: extends_def)

lemma extends_trans: "extends P s t \<Longrightarrow> extends P t u \<Longrightarrow> extends P s u"
  unfolding extends_def by (metis UnE append_assoc set_append)

lemma extends_mono: "extends P s t \<Longrightarrow> (\<And>c. P c \<Longrightarrow> Q c) \<Longrightarrow> extends Q s t"
  unfolding extends_def by blast

definition same_store :: "server \<Rightarrow> server \<Rightarrow> bool" where
  "same_store s s' \<longleftrightarrow>
     srv_session s' = srv_session s \<and> srv_disk s' = srv_disk s \<and> srv_main s' = srv_main s \<and>
     srv_sandboxes s' = srv_sandboxes s"

lemma same_store_refl [simp, intro]: "same_store s s"
  by (simp add: same_store_def)

text \<open>Reading: only \<open>GET\<close> requests, and nothing the server keeps changes.\<close>

definition reads :: "server \<Rightarrow> server \<Rightarrow> bool" where
  "reads s s' \<longleftrightarrow> extends (\<lambda>c. call_kind c = Get) s s' \<and> same_store s s'"

lemma reads_refl [simp, intro]: "reads s s"
  by (simp add: reads_def)

lemma reads_trans: "reads s t \<Longrightarrow> reads t u \<Longrightarrow> reads s u"
  by (auto simp: reads_def same_store_def dest: extends_trans)

lemma send_extends: "send E c s = (r, s') \<Longrightarrow> P c \<Longrightarrow> extends P s s' \<and> same_store s s'"
  by (auto simp: send_def extends_def same_store_def)

lemma send_mcp_extends: "send_mcp E c s = (r, s') \<Longrightarrow> P c \<Longrightarrow> extends P s s' \<and> same_store s s'"
  by (auto simp: send_mcp_def dest: send_extends split: prod.splits sum.splits)

lemma send_mcp_reads: "send_mcp E c s = (r, s') \<Longrightarrow> call_kind c = Get \<Longrightarrow> reads s s'"
  by (simp add: reads_def send_mcp_extends)

lemma send_reads: "send E c s = (r, s') \<Longrightarrow> call_kind c = Get \<Longrightarrow> reads s s'"
  by (simp add: reads_def send_extends)

lemma fetch_extracted_reads: "fetch_extracted_annotations E r s = (a, s') \<Longrightarrow> reads s s'"
  by (auto simp: fetch_extracted_annotations_def dest!: send_mcp_reads split: prod.splits sum.splits)

lemma fetch_printed_reads: "fetch_printed_source E r s = (a, s') \<Longrightarrow> reads s s'"
  by (auto simp: fetch_printed_source_def dest!: send_mcp_reads split: prod.splits sum.splits)

lemma remap_reads: "remap_loop_sids_to_main E r loops s = (a, s') \<Longrightarrow> reads s s'"
  by (auto simp: remap_loop_sids_to_main_def fetch_loop_sids_def dest!: send_mcp_reads
      split: prod.splits sum.splits option.splits if_splits)

lemma validate_reads: "validate_entries E r es a s = (b, s') \<Longrightarrow> reads s s'"
proof (induction E r es a s rule: validate_entries.induct)
  case (2 E r e es a s)
  then show ?case by (auto split: prod.splits sum.splits dest!: send_mcp_reads intro: reads_trans)
qed simp

lemma dry_run_validation_reads: "dry_run_validation E r plan early gs origin s = (a, s') \<Longrightarrow> reads s s'"
  by (auto simp: dry_run_validation_def dest!: validate_reads split: prod.splits sum.splits)

lemma dry_ghost_entry: "ghost_entry E t sb True g (o1, s) = (o2, s') \<Longrightarrow> s' = s"
  by (auto simp: ghost_entry_def exec_ghost_def split: prod.splits sum.splits)

lemma dry_ghosts: "fold (ghost_entry E t sb True) gs (o1, s) = (o2, s') \<Longrightarrow> s' = s"
proof (induction gs arbitrary: o1)
  case (Cons g gs)
  obtain o3 s3 where g: "ghost_entry E t sb True g (o1, s) = (o3, s3)"
    by (cases "ghost_entry E t sb True g (o1, s)")
  with dry_ghost_entry have "s3 = s" by blast
  with g Cons show ?case by simp
qed simp

lemma dry_impl_reads: "inject_all_impl E t True x sb gs s = (a, s') \<Longrightarrow> reads s s'"
  by (auto simp: inject_all_impl_def Let_def split: prod.splits sum.splits if_splits
      dest!: remap_reads dry_run_validation_reads intro: reads_trans)

text \<open>C21: a dry run changes nothing: whatever it is asked to inject and whatever the plug-in answers,
  it sends only read requests, and the session, the conclusions on disk and the sandboxes stay as they
  are.\<close>

theorem dry_run_only_reads:
  assumes "ip_dry_run params" "inject_all_annotations E params s = (res, s')"
  shows "reads s s'"
  using assms
  by (auto simp: inject_all_annotations_def inject_expanded_def apply_ghost_entries_def
      split: prod.splits sum.splits if_splits dest!: dry_ghosts dry_impl_reads)

section \<open>Where the entries of the array go\<close>

text \<open>The clause kind an entry is tagged with.\<close>

definition entry_kind :: "json \<Rightarrow> string option" where
  "entry_kind entry = Option.bind (as_object entry) (\<lambda>m. Option.bind (map_of m ''kind'') as_str)"

definition entry_slot :: "json \<Rightarrow> annotation_slot option" where
  "entry_slot entry =
     Option.bind (entry_kind entry) (\<lambda>k. if ghost_from_tag k = None then slot_of_kind k else None)"

text \<open>One step of the expansion, by what the entry is: ghost code, or a clause for a slot.\<close>

lemma expand_entry_cases:
  assumes "expand_entry E index entry x = Inr y"
  obtains (ghost) k v where "entry_slot entry = None" "Option.bind (entry_kind entry) ghost_from_tag = Some k"
      "y = x\<lparr>ex_ghosts := ex_ghosts x @ [(index, k, v)]\<rparr>"
  | (list) f v where "entry_slot entry = Some (ListSlot f)" "y = place_list f index v x"
  | (single) f v where "entry_slot entry = Some (SingleSlot f)" "ex_singles x f = None"
      "y = x\<lparr>ex_singles := (ex_singles x)(f := Some v),
             ex_origin := AList.update (single_field_name f) index (ex_origin x)\<rparr>"
proof -
  from assms obtain m kind where m: "as_object entry = Some m" "Option.bind (map_of m ''kind'') as_str = Some kind"
    by (auto simp: expand_entry_def split: option.splits)
  then have kind: "entry_kind entry = Some kind" by (simp add: entry_kind_def)
  show thesis
  proof (cases "ghost_from_tag kind")
    case (Some k)
    with assms m kind show thesis by (intro ghost) (auto simp: expand_entry_def entry_slot_def)
  next
    case None
    with assms m kind obtain slot v where slot: "slot_of_kind kind = Some slot"
      "slot_value index kind slot m = Inr v"
      by (auto simp: expand_entry_def split: option.splits sum.splits)
    with None kind have "entry_slot entry = Some slot" by (simp add: entry_slot_def)
    moreover have "y = place_list f index v x" if "slot = ListSlot f" for f
      using assms m None slot that by (auto simp: expand_entry_def)
    moreover have "ex_singles x f = None \<and> y = x\<lparr>ex_singles := (ex_singles x)(f := Some v),
             ex_origin := AList.update (single_field_name f) index (ex_origin x)\<rparr>" if "slot = SingleSlot f" for f
      using assms m None slot that by (auto simp: expand_entry_def place_single_def split: if_splits)
    ultimately show thesis by (cases slot) (use list single in blast)+
  qed
qed

text \<open>A list never loses what it holds, and an entry for it is appended.\<close>

definition list_of :: "expansion \<Rightarrow> list_field \<Rightarrow> json list" where
  "list_of x f = unwrap_or (ex_lists x f) []"

lemma list_of_place [simp]:
  "list_of (place_list f index v x) g = (if g = f then list_of x f @ [v] else list_of x g)"
  by (simp add: place_list_def list_of_def Let_def)

lemma expand_entry_grows:
  assumes "expand_entry E index entry x = Inr y"
  shows "\<exists>vs. list_of y f = list_of x f @ vs \<and> (entry_slot entry = Some (ListSlot f) \<longrightarrow> vs \<noteq> [])"
  using assms by (rule expand_entry_cases) (simp_all add: list_of_def [of "_\<lparr>ex_ghosts := _\<rparr>"] list_of_def [of "_\<lparr>ex_singles := _, ex_origin := _\<rparr>"] list_of_def [of x])

lemma expand_loop_grows:
  "expand_loop E index entries x = Inr y \<Longrightarrow>
   \<exists>vs. list_of y f = list_of x f @ vs \<and>
        ((\<exists>e \<in> set entries. entry_slot e = Some (ListSlot f)) \<longrightarrow> vs \<noteq> [])"
proof (induction entries arbitrary: index x)
  case (Cons e entries)
  then obtain z where z: "expand_entry E index e x = Inr z" and rest: "expand_loop E (Suc index) entries z = Inr y"
    by (auto split: sum.splits)
  from expand_entry_grows [OF z, of f] Cons.IH [OF rest] show ?case by auto
qed simp

lemma carries_contract_iff: "carries_contract ls \<longleftrightarrow> (\<exists>f \<in> {Requires, Ensures}. unwrap_or (ls f) [] \<noteq> [])"
  by (auto simp: carries_contract_def split: option.splits)

text \<open>A contract clause in the call, tagged or in the lists themselves.\<close>

definition proposes_contract :: "inject_params \<Rightarrow> bool" where
  "proposes_contract params \<longleftrightarrow>
     carries_contract (ip_lists params) \<or>
     (\<exists>e \<in> set (unwrap_or (ip_annotations params) []).
        entry_kind e = Some ''requires'' \<or> entry_kind e = Some ''ensures'')"

lemma contract_slots:
  "entry_kind e = Some ''requires'' \<Longrightarrow> entry_slot e = Some (ListSlot Requires)"
  "entry_kind e = Some ''ensures'' \<Longrightarrow> entry_slot e = Some (ListSlot Ensures)"
  by (simp_all add: entry_slot_def ghost_from_tag_def slot_of_kind_def)

lemma expansion_keeps_contract:
  assumes "expand_tagged_annotations E params = Inr x" "proposes_contract params"
  shows "carries_contract (ex_lists x)"
proof -
  define x0 where "x0 = \<lparr>ex_lists = ip_lists params, ex_singles = ip_singles params,
    ex_ghosts = ([] :: ghost_entries), ex_origin = ([] :: origin)\<rparr>"
  let ?es = "unwrap_or (ip_annotations params) []"
  from assms(1) have loop: "expand_loop E 0 ?es x0 = Inr x"
    by (auto simp: expand_tagged_annotations_def x0_def Let_def split: option.splits)
  from assms(2) have "\<exists>f \<in> {Requires, Ensures}. list_of x0 f \<noteq> [] \<or> (\<exists>e \<in> set ?es. entry_slot e = Some (ListSlot f))"
    by (auto simp: proposes_contract_def carries_contract_iff list_of_def x0_def dest: contract_slots)
  then obtain f where f: "f \<in> {Requires, Ensures}"
    "list_of x0 f \<noteq> [] \<or> (\<exists>e \<in> set ?es. entry_slot e = Some (ListSlot f))" by blast
  with expand_loop_grows [OF loop, of f] have "list_of x f \<noteq> []" by auto
  with f(1) show ?thesis unfolding carries_contract_iff list_of_def by blast
qed

text \<open>C19: a call that proposes a requires or an ensures for a function of the main project, in the
  tagged array or in the older lists, fails before anything is sent or changed.\<close>

theorem contracts_stay_out_of_main:
  assumes "injection_target (ip_function params) (ip_sandbox_name params) = Inr target"
    and "CHR '':'' \<notin> set target" "proposes_contract params"
  shows "\<exists>e. inject_all_annotations E params s = (Inl e, s)"
  using assms expansion_keeps_contract [of E params]
  by (cases "expand_tagged_annotations E params") (auto simp: inject_all_annotations_def)

section \<open>Ghost code before clauses\<close>

definition is_ghost_call :: "call \<Rightarrow> bool" where
  "is_ghost_call c \<longleftrightarrow> call_kind c = Exec \<and> call_endpoint c \<in> range ghost_endpoint"

lemma mark_extends [inject_simps]: "srv_calls (mark_sandbox_annotation_changed E r s) = srv_calls s"
  by (simp add: mark_sandbox_annotation_changed_def Let_def split: option.splits)

lemma ghost_request_endpoint:
  "ghost_request_of E i k t sb v s = Inr g \<Longrightarrow> gr_request g \<in> range ghost_endpoint"
  by (auto simp: ghost_request_of_def build_ghost_def split: option.splits sum.splits if_splits)

lemma ghost_entry_calls:
  assumes "ghost_entry E t sb dry g (o1, s) = (o2, s')"
  shows "extends is_ghost_call s s'"
proof -
  obtain index kind entry results failures where g: "g = (index, kind, entry)" "o1 = (results, failures)"
    by (cases g, cases o1)
  show ?thesis
  proof (cases "ghost_request_of E index kind t sb entry s")
    case (Inl f)
    with assms g show ?thesis by (simp add: ghost_entry_def)
  next
    case (Inr q)
    obtain a s1 where x: "exec_ghost E q dry s = (a, s1)" by (cases "exec_ghost E q dry s")
    with assms g Inr have "s' = s1" by (auto simp: ghost_entry_def split: sum.splits)
    moreover from x ghost_request_endpoint [OF Inr] have "extends is_ghost_call s s1"
      by (auto simp: exec_ghost_def extends_def mark_extends is_ghost_call_def Let_def send_mcp_def send_def
          split: if_splits sum.splits option.splits prod.splits)
    ultimately show ?thesis by simp
  qed
qed

lemma ghost_entries_calls: "fold (ghost_entry E t sb dry) gs (o1, s) = (o2, s') \<Longrightarrow> extends is_ghost_call s s'"
proof (induction gs arbitrary: o1 s)
  case (Cons g gs)
  obtain o3 s3 where g: "ghost_entry E t sb dry g (o1, s) = (o3, s3)"
    by (cases "ghost_entry E t sb dry g (o1, s)")
  with Cons have "extends is_ghost_call s3 s'" by simp
  with ghost_entry_calls [OF g] show ?case by (rule extends_trans)
qed simp

text \<open>When one ghost insertion fails, no clause is validated or sent: everything the call sent is a
  ghost insertion, and the answer is the one that says no clause was attempted.\<close>

theorem failed_ghost_stops_clauses:
  assumes "injection_target (ip_function params) (ip_sandbox_name params) = Inr target"
    and "expand_tagged_annotations E params = Inr x"
    and "CHR '':'' \<in> set target \<or> \<not> carries_contract (ex_lists x)"
    and "apply_ghost_entries E target (ex_ghosts x) (ip_dry_run params) s = ((ghosts, failures), s1)"
    and "failures \<noteq> []"
  shows "inject_all_annotations E params s =
           (Inr (json_result E (ghost_only_response (ip_dry_run params) (length (ex_ghosts x)) ghosts failures)), s1)
         \<and> extends is_ghost_call s s1"
  using assms ghost_entries_calls
  by (auto simp: inject_all_annotations_def inject_expanded_def apply_ghost_entries_def)

section \<open>Every planned clause is reported once\<close>

text \<open>
  What is established for one clause of the plan, sent in state \<open>st\<close>. It is reported as existing exactly when
  its text up to the first semicolon, generated labels stripped, is one of \<open>existing\<close>: the texts of the
  function's annotations cut off in the same way. That is weaker than being present: clauses that only begin
  alike count as the same (\<open>behavior_clauses_compare_equal\<close>).
\<close>

definition begins_like_existing :: "string list \<Rightarrow> plan_entry \<Rightarrow> bool" where
  "begins_like_existing existing e \<longleftrightarrow> normalize_for_comparison (pe_acsl e) \<in> set existing"

definition entry_verdict ::
    "server_env \<Rightarrow> resolved_client \<Rightarrow> string \<Rightarrow> string list \<Rightarrow> plan_entry \<Rightarrow> server \<Rightarrow>
     injection_failure + injected_entry \<Rightarrow> bool" where
  "entry_verdict E r target existing e st v \<longleftrightarrow>
     (case v of
        Inr i \<Rightarrow>
          (if begins_like_existing existing e then i = injected_of ''existing'' e
           else \<exists>s' result hash. send_entry E r target e st = (Inr (result, hash), s') \<and>
                  parse_plugin_success E result \<and> i = injected_of hash e)
      | Inl f \<Rightarrow>
          \<not> begins_like_existing existing e \<and> if_path f = pe_derived_from e \<and> if_acsl f = pe_acsl e \<and>
          ((\<exists>s'. send_entry E r target e st = (Inl (if_error f), s')) \<or>
           (\<exists>s' result hash. send_entry E r target e st = (Inr (result, hash), s') \<and>
              \<not> parse_plugin_success E result \<and>
              if_error f = unwrap_or (parse_plugin_error E result) ''unknown error'')))"

definition state_before ::
    "server_env \<Rightarrow> resolved_client \<Rightarrow> string \<Rightarrow> plan_entry list \<Rightarrow> string list \<Rightarrow> injection_failure list \<Rightarrow>
     server \<Rightarrow> nat \<Rightarrow> server" where
  "state_before E r target plan existing early s k =
     snd (execute_injection_plan E r target (take k plan) existing early s)"

definition kept :: "(injection_failure + injected_entry) list \<Rightarrow> injected_entry list" where
  "kept vs = List.map_filter (\<lambda>v. case v of Inl f \<Rightarrow> None | Inr i \<Rightarrow> Some i) vs"

definition refused :: "(injection_failure + injected_entry) list \<Rightarrow> injection_failure list" where
  "refused vs = List.map_filter (\<lambda>v. case v of Inl f \<Rightarrow> Some f | Inr i \<Rightarrow> None) vs"

lemma kept_refused_simps [simp]:
  "kept [] = []" "refused [] = []" "kept (vs @ ws) = kept vs @ kept ws" "refused (vs @ ws) = refused vs @ refused ws"
  "kept [Inr i] = [i]" "kept [Inl f] = []" "refused [Inr i] = []" "refused [Inl f] = [f]"
  by (simp_all add: kept_def refused_def map_filter_def)

lemma execute_entry_verdict:
  "\<exists>v. entry_verdict E r t ex e (snd a) v \<and>
     fst (execute_entry E r t ex e a) = (fst (fst a) @ kept [v], snd (fst a) @ refused [v])"
proof (cases "begins_like_existing ex e")
  case True
  then have "entry_verdict E r t ex e (snd a) (Inr (injected_of ''existing'' e)) \<and>
      fst (execute_entry E r t ex e a) =
        (fst (fst a) @ kept [Inr (injected_of ''existing'' e)], snd (fst a) @ refused [Inr (injected_of ''existing'' e)])"
    by (cases a) (auto simp: entry_verdict_def begins_like_existing_def execute_entry_def split: prod.splits)
  then show ?thesis by blast
next
  case False
  obtain answer s' where a: "send_entry E r t e (snd a) = (answer, s')" by (cases "send_entry E r t e (snd a)")
  define v where "v = (case answer of
      Inl error \<Rightarrow> Inl (entry_failure ProposedError error e)
    | Inr (result, hash) \<Rightarrow>
        if parse_plugin_success E result then Inr (injected_of hash e)
        else let error = unwrap_or (parse_plugin_error E result) ''unknown error''
             in Inl (entry_failure (classify_failure error) error e))"
  have "entry_verdict E r t ex e (snd a) v"
    using False a by (cases answer) (auto simp: v_def entry_verdict_def entry_failure_def Let_def)
  moreover have "fst (execute_entry E r t ex e a) = (fst (fst a) @ kept [v], snd (fst a) @ refused [v])"
    using False a by (cases a; cases answer)
      (auto simp: v_def execute_entry_def begins_like_existing_def Let_def split: prod.splits)
  ultimately show ?thesis by blast
qed

lemma plan_snoc:
  "execute_injection_plan E r t (plan @ [e]) ex early s = execute_entry E r t ex e (execute_injection_plan E r t plan ex early s)"
  by (simp add: execute_injection_plan_def)

lemma plan_verdicts:
  "\<exists>vs. length vs = length plan \<and>
     fst (execute_injection_plan E r t plan ex early s) = (kept vs, early @ refused vs) \<and>
     (\<forall>k < length plan. entry_verdict E r t ex (plan ! k) (state_before E r t plan ex early s k) (vs ! k))"
proof (induction plan rule: rev_induct)
  case Nil
  show ?case by (simp add: execute_injection_plan_def)
next
  case (snoc e plan)
  then obtain vs where vs: "length vs = length plan"
      "fst (execute_injection_plan E r t plan ex early s) = (kept vs, early @ refused vs)"
      "\<forall>k < length plan. entry_verdict E r t ex (plan ! k) (state_before E r t plan ex early s k) (vs ! k)"
    by blast
  from execute_entry_verdict obtain v where
    v: "entry_verdict E r t ex e (snd (execute_injection_plan E r t plan ex early s)) v"
      "fst (execute_injection_plan E r t (plan @ [e]) ex early s) = (kept (vs @ [v]), early @ refused (vs @ [v]))"
    unfolding plan_snoc by (metis (no_types, lifting) append_assoc fst_conv kept_refused_simps(3,4) snd_conv vs(2))
  have "entry_verdict E r t ex ((plan @ [e]) ! k) (state_before E r t (plan @ [e]) ex early s k) ((vs @ [v]) ! k)"
    if "k < length (plan @ [e])" for k
    using that vs(1,3) v(1) by (cases "k < length plan") (auto simp: nth_append state_before_def less_Suc_eq)
  with vs(1) v(2) show ?case by (intro exI [of _ "vs @ [v]"]) simp
qed

text \<open>C20: sending a plan gives each of its clauses exactly one verdict, in the order of the plan and after the
  failures of planning: existing, with nothing sent for it, exactly when its text up to the first semicolon
  equals that of one of the function's annotations; otherwise injected when the plug-in accepted the clause as
  sent, and failed, under the clause's own path and text, with the error of the request or of the plug-in.\<close>

theorem every_clause_is_reported:
  assumes "execute_injection_plan E r target plan existing early s = ((successful, failures), s')"
  shows "\<exists>verdicts. length verdicts = length plan \<and> successful = kept verdicts \<and>
    failures = early @ refused verdicts \<and>
    (\<forall>k < length plan. entry_verdict E r target existing (plan ! k)
       (state_before E r target plan existing early s k) (verdicts ! k)) \<and>
    (list_all (begins_like_existing existing) plan \<longrightarrow> s' = s)"
proof -
  have "list_all (begins_like_existing existing) plan \<Longrightarrow>
      snd (fold (execute_entry E r target existing) plan (o1, s)) = s" for o1
    by (induction plan arbitrary: o1) (auto simp: execute_entry_def begins_like_existing_def split: prod.splits)
  with assms have "list_all (begins_like_existing existing) plan \<longrightarrow> s' = s"
    by (auto simp: execute_injection_plan_def dest: arg_cong [where f = snd])
  with assms plan_verdicts [of plan E r target existing early s] show ?thesis by fastforce
qed

section \<open>Loops keep their place\<close>

lemma low_half: "\<not> bit (n :: nat) 63 \<Longrightarrow> n < 2 ^ 64 \<Longrightarrow> n < 2 ^ 63"
proof (rule ccontr)
  assume b: "\<not> bit n 63" and n: "n < 2 ^ 64" "\<not> n < 2 ^ 63"
  then have "n div 2 ^ 63 = 1" by (intro div_nat_eqI) simp_all
  with b show False by (simp add: bit_iff_odd)
qed

lemma as_i64_i64_json [simp]: "as_i64 (i64_json n) = Some n"
proof (cases "0 \<le> sint n")
  case True
  then have "\<not> bit (unat n) 63"
    using bit_last_iff [of n] by (simp add: Word.bit_unsigned_iff)
  moreover have "unat n < 2 ^ 64" using unsigned_less [of n, where ?'a = nat] by simp
  ultimately have "unat n < 2 ^ 63" by (rule low_half)
  with True show ?thesis by (simp add: as_i64_def i64_json_def)
qed (simp add: as_i64_def i64_json_def)

lemma stmt_id_set [simp]: "get_i64 (set_stmt_id sid (JObj m)) ''stmt_id'' = Some sid"
  by (simp add: get_i64_def set_stmt_id_def)

lemma jget_set_stmt_id: "k \<noteq> ''stmt_id'' \<Longrightarrow> jget (set_stmt_id sid l) k = jget l k"
  by (cases l) (simp_all add: set_stmt_id_def jget_def update_conv')

text \<open>C22: in an injection into the main project the loop annotations keep the caller's statement ids when
  every one of them already names a loop of the main function; otherwise a count that differs from the
  function's loops is refused as invalid parameters, and an equal count gives the k-th annotation the k-th
  loop of the source and changes nothing else of it.\<close>

theorem loops_land_on_main_loops:
  assumes "list_all (\<lambda>l. as_object l \<noteq> None) loops"
  shows "case remapped_loops f sids loops of
           Inl e \<Rightarrow> \<not> list_all (names_main_loop sids) loops \<and> length sids \<noteq> length loops \<and>
             mcp_code e = InvalidParams
         | Inr ls \<Rightarrow>
             (if list_all (names_main_loop sids) loops then ls = loops
              else length sids = length loops \<and> map (\<lambda>l. get_i64 l ''stmt_id'') ls = map Some sids \<and>
                (\<forall>k. k = ''stmt_id'' \<or> map (\<lambda>l. jget l k) ls = map (\<lambda>l. jget l k) loops))"
proof (cases "list_all (names_main_loop sids) loops \<or> length sids \<noteq> length loops")
  case True
  then show ?thesis by (auto simp: remapped_loops_def invalid_params_def mcp_error_of_def)
next
  case False
  have ids: "get_i64 (set_stmt_id sid l) ''stmt_id'' = Some sid" if "l \<in> set loops" for sid l
    using assms that by (cases l) (auto simp: list_all_iff)
  from False have "map (\<lambda>l. get_i64 l ''stmt_id'') (map2 set_stmt_id sids loops) = map Some sids"
    by (intro nth_equalityI) (simp_all add: ids)
  moreover have "map (\<lambda>l. jget l k) (map2 set_stmt_id sids loops) = map (\<lambda>l. jget l k) loops" if "k \<noteq> ''stmt_id''" for k
    using False that by (intro nth_equalityI) (simp_all add: jget_set_stmt_id)
  ultimately show ?thesis using False by (auto simp: remapped_loops_def)
qed

definition loop_at :: "u64 \<Rightarrow> json" where
  "loop_at n = JObj [(''stmt_id'', JNum (PosInt n)), (''acsl'', JStr ''x'')]"

text \<open>Two annotations that already name both loops, in the other order, stay where they are.\<close>

lemma loops_land_on_main_loops_witness:
  "(case remapped_loops ''f'' [4, 9] [loop_at 9, loop_at 4] of
      Inl e \<Rightarrow> False | Inr ls \<Rightarrow> ls = [loop_at 9, loop_at 4]) \<and>
   (case remapped_loops ''f'' [4, 9] [loop_at 1, loop_at 4] of
      Inl e \<Rightarrow> False | Inr ls \<Rightarrow> map (\<lambda>l. get_i64 l ''stmt_id'') ls = [Some 4, Some 9])"
proof -
  have g: "get_i64 (loop_at 1) ''stmt_id'' = Some 1" "get_i64 (loop_at 4) ''stmt_id'' = Some 4"
    "get_i64 (loop_at 9) ''stmt_id'' = Some 9"
    by (simp_all add: get_i64_def as_i64_def loop_at_def)
  have main: "list_all (names_main_loop [4, 9]) [loop_at 9, loop_at 4]"
    "\<not> list_all (names_main_loop [4, 9]) [loop_at 1, loop_at 4]"
    using g by (simp_all add: names_main_loop_def)
  have o: "list_all (\<lambda>l. as_object l \<noteq> None) [loop_at 9, loop_at 4]"
    "list_all (\<lambda>l. as_object l \<noteq> None) [loop_at 1, loop_at 4]"
    by (simp_all add: loop_at_def)
  show ?thesis
    using loops_land_on_main_loops [OF o(1), where f = "''f''" and sids = "[4, 9]"]
      loops_land_on_main_loops [OF o(2), where f = "''f''" and sids = "[4, 9]"] main
    by (auto split: sum.splits if_splits)
qed

section \<open>Diagnostics name the caller's entries\<close>

lemma indexed_inj [simp]: "indexed (list_field_name f) i = indexed (list_field_name g) j \<longleftrightarrow> f = g \<and> i = j"
proof
  assume eq: "indexed (list_field_name f) i = indexed (list_field_name g) j"
  have bracket: "CHR ''['' \<notin> set (list_field_name h)" for h by (cases h) simp_all
  have "takeWhile (\<lambda>c. c \<noteq> CHR ''['') (indexed (list_field_name h) k) = list_field_name h" for h k
    using bracket [of h] by (auto simp: indexed_def takeWhile_append takeWhile_eq_all_conv)
  with eq have names: "list_field_name f = list_field_name g" by metis
  then have "f = g" by (cases f; cases g) simp_all
  with eq show "f = g \<and> i = j" by (simp add: indexed_def)
qed simp

lemma indexed_not_single [simp]:
  "indexed (list_field_name f) i \<noteq> single_field_name g" "single_field_name g \<noteq> indexed (list_field_name f) i"
proof -
  have "CHR ''['' \<in> set (indexed (list_field_name f) i)" by (simp add: indexed_def)
  moreover have "CHR ''['' \<notin> set (single_field_name g)" by (cases g) simp_all
  ultimately show "indexed (list_field_name f) i \<noteq> single_field_name g"
    "single_field_name g \<noteq> indexed (list_field_name f) i" by metis+
qed

lemma single_name_inj [simp]: "single_field_name f = single_field_name g \<longleftrightarrow> f = g"
  by (cases f; cases g) simp_all

text \<open>
  The bookkeeping of an expansion, for the entries read so far: the origin of every place that holds a
  value is the entry that put it there, and nothing else has an origin.
\<close>

definition attributed :: "json list \<Rightarrow> expansion \<Rightarrow> bool" where
  "attributed entries x \<longleftrightarrow>
     (\<forall>f j. j < length (list_of x f) \<longrightarrow>
        (\<exists>i < length entries. map_of (ex_origin x) (indexed (list_field_name f) j) = Some i \<and>
                              entry_slot (entries ! i) = Some (ListSlot f))) \<and>
     (\<forall>f. ex_singles x f \<noteq> None \<longrightarrow>
        (\<exists>i < length entries. map_of (ex_origin x) (single_field_name f) = Some i \<and>
                              entry_slot (entries ! i) = Some (SingleSlot f))) \<and>
     (\<forall>k. map_of (ex_origin x) k \<noteq> None \<longrightarrow>
        (\<exists>f j. k = indexed (list_field_name f) j) \<or> (\<exists>f. k = single_field_name f))"

lemma origin_place [simp]:
  "map_of (ex_origin (place_list f index v x)) =
     (map_of (ex_origin x))(indexed (list_field_name f) (length (list_of x f)) \<mapsto> index)"
  "ex_singles (place_list f index v x) = ex_singles x"
  by (simp_all add: place_list_def Let_def list_of_def)

lemma nth_snoc_less: "i < length xs \<Longrightarrow> (xs @ [e]) ! i = xs ! i"
  by (simp add: nth_append)

lemma attributed_weaken:
  assumes "attributed entries x" "ex_lists y = ex_lists x" "ex_singles y = ex_singles x"
    "ex_origin y = ex_origin x"
  shows "attributed (entries @ [e]) y"
proof -
  have up: "\<exists>i < length (entries @ [e]). A i \<and> B ((entries @ [e]) ! i)"
    if "\<exists>i < length entries. A i \<and> B (entries ! i)" for A B
    using that nth_snoc_less [of _ entries e] by (metis less_SucI length_append_singleton)
  have "list_of y = list_of x" using assms(2) by (simp add: list_of_def fun_eq_iff)
  with assms show ?thesis unfolding attributed_def by (intro conjI allI impI up) simp_all
qed

lemma attributed_list:
  assumes a: "attributed entries x" and slot: "entry_slot e = Some (ListSlot f)"
  shows "attributed (entries @ [e]) (place_list f (length entries) v x)"
proof -
  let ?y = "place_list f (length entries) v x"
  have "\<exists>i < length (entries @ [e]). map_of (ex_origin ?y) (indexed (list_field_name g) j) = Some i \<and>
      entry_slot ((entries @ [e]) ! i) = Some (ListSlot g)" if j: "j < length (list_of ?y g)" for g j
  proof (cases "g = f \<and> j = length (list_of x f)")
    case True
    with slot show ?thesis by (intro exI [of _ "length entries"]) simp
  next
    case False
    with j have "j < length (list_of x g)" by (auto split: if_splits)
    with a obtain i where "i < length entries" "map_of (ex_origin x) (indexed (list_field_name g) j) = Some i"
      "entry_slot (entries ! i) = Some (ListSlot g)" unfolding attributed_def by blast
    with False show ?thesis by (intro exI [of _ i]) (simp add: nth_snoc_less)
  qed
  moreover have "\<exists>i < length (entries @ [e]). map_of (ex_origin ?y) (single_field_name g) = Some i \<and>
      entry_slot ((entries @ [e]) ! i) = Some (SingleSlot g)" if "ex_singles ?y g \<noteq> None" for g
  proof -
    from a that obtain i where "i < length entries" "map_of (ex_origin x) (single_field_name g) = Some i"
      "entry_slot (entries ! i) = Some (SingleSlot g)" unfolding attributed_def origin_place by blast
    then show ?thesis by (intro exI [of _ i]) (simp add: nth_snoc_less)
  qed
  moreover have "(\<exists>g j. k = indexed (list_field_name g) j) \<or> (\<exists>g. k = single_field_name g)"
    if "map_of (ex_origin ?y) k \<noteq> None" for k
    using a that unfolding attributed_def origin_place by (metis fun_upd_apply)
  ultimately show ?thesis unfolding attributed_def by blast
qed

lemma attributed_single:
  assumes a: "attributed entries x" and slot: "entry_slot e = Some (SingleSlot f)"
  shows "attributed (entries @ [e]) (x\<lparr>ex_singles := (ex_singles x)(f := Some v),
           ex_origin := AList.update (single_field_name f) (length entries) (ex_origin x)\<rparr>)"
proof -
  let ?y = "x\<lparr>ex_singles := (ex_singles x)(f := Some v),
           ex_origin := AList.update (single_field_name f) (length entries) (ex_origin x)\<rparr>"
  have lists: "list_of ?y g = list_of x g" for g by (simp add: list_of_def)
  have "\<exists>i < length (entries @ [e]). map_of (ex_origin ?y) (indexed (list_field_name g) j) = Some i \<and>
      entry_slot ((entries @ [e]) ! i) = Some (ListSlot g)" if "j < length (list_of ?y g)" for g j
  proof -
    from a that lists obtain i where "i < length entries"
      "map_of (ex_origin x) (indexed (list_field_name g) j) = Some i"
      "entry_slot (entries ! i) = Some (ListSlot g)" unfolding attributed_def by metis
    then show ?thesis by (intro exI [of _ i]) (simp add: nth_snoc_less)
  qed
  moreover have "\<exists>i < length (entries @ [e]). map_of (ex_origin ?y) (single_field_name g) = Some i \<and>
      entry_slot ((entries @ [e]) ! i) = Some (SingleSlot g)" if g: "ex_singles ?y g \<noteq> None" for g
  proof (cases "g = f")
    case True
    with slot show ?thesis by (intro exI [of _ "length entries"]) simp
  next
    case False
    with g a obtain i where "i < length entries" "map_of (ex_origin x) (single_field_name g) = Some i"
      "entry_slot (entries ! i) = Some (SingleSlot g)" unfolding attributed_def by auto
    with False show ?thesis by (intro exI [of _ i]) (simp add: nth_snoc_less)
  qed
  moreover have "(\<exists>g j. k = indexed (list_field_name g) j) \<or> (\<exists>g. k = single_field_name g)"
    if "map_of (ex_origin ?y) k \<noteq> None" for k
    using a that unfolding attributed_def by (cases "k = single_field_name f") auto
  ultimately show ?thesis unfolding attributed_def by blast
qed

lemma expand_entry_attributed:
  assumes "attributed entries x" "expand_entry E (length entries) e x = Inr y"
  shows "attributed (entries @ [e]) y"
  using assms(2)
proof (rule expand_entry_cases)
  fix k v assume "y = x\<lparr>ex_ghosts := ex_ghosts x @ [(length entries, k, v)]\<rparr>"
  then show ?thesis by (auto intro: attributed_weaken [OF assms(1)])
qed (simp_all add: attributed_list [OF assms(1)] attributed_single [OF assms(1)])

lemma expand_loop_attributed:
  "attributed done x \<Longrightarrow> expand_loop E (length done) entries x = Inr y \<Longrightarrow> attributed (done @ entries) y"
proof (induction entries arbitrary: "done" x)
  case (Cons e entries)
  then obtain z where z: "expand_entry E (length done) e x = Inr z"
    and rest: "expand_loop E (length (done @ [e])) entries z = Inr y"
    by (auto split: sum.splits)
  from Cons.IH [OF expand_entry_attributed [OF Cons.prems(1) z] rest] show ?case by simp
qed simp

text \<open>The paths a plan speaks of, in its entries and in its failures.\<close>

definition plan_paths :: "plan \<Rightarrow> string set" where
  "plan_paths p = pe_derived_from ` set (fst p) \<union> if_path ` set (snd p)"

lemma plan_paths_push [simp]:
  "plan_paths (push_entry e p) = insert (pe_derived_from e) (plan_paths p)"
  "plan_paths (push_failure f p) = insert (if_path f) (plan_paths p)"
  by (simp_all add: plan_paths_def push_entry_def push_failure_def)

lemma plan_paths_outcome:
  "(\<And>text. pe_derived_from (entry text) = path) \<Longrightarrow>
   plan_paths (push_outcome entry path acsl r p) = insert path (plan_paths p)"
  by (simp add: push_outcome_def planning_failure_def split: sum.splits)

lemma plan_each_paths:
  assumes "\<And>i v p. plan_paths (step i v p) \<subseteq> plan_paths p \<union> P i"
  shows "plan_paths (plan_each step vs p) \<subseteq> plan_paths p \<union> (\<Union>i < length (unwrap_or vs []). P i)"
proof -
  have fold: "plan_paths (fold (\<lambda>(i, v). step i v) (enumerate n xs) p)
      \<subseteq> plan_paths p \<union> (\<Union>i \<in> {n..<n + length xs}. P i)" for n xs p
  proof (induction xs arbitrary: n p)
    case (Cons x xs)
    have "plan_paths (fold (\<lambda>(i, v). step i v) (enumerate n (x # xs)) p)
        \<subseteq> plan_paths (step n x p) \<union> (\<Union>i \<in> {Suc n..<Suc n + length xs}. P i)"
      using Cons.IH [of "Suc n" "step n x p"] by simp
    also have "\<dots> \<subseteq> plan_paths p \<union> (\<Union>i \<in> {n..<n + length (x # xs)}. P i)"
      using assms [of n x p] by fastforce
    finally show ?case .
  qed simp
  show ?thesis
  proof (cases vs)
    case (Some xs)
    with fold [of 0 xs p] show ?thesis by (simp add: plan_each_def lessThan_atLeast0)
  qed (simp add: plan_each_def)
qed

text \<open>A path below one of the lists, or the name of a single field that is set.\<close>

definition list_paths :: "list_field \<Rightarrow> nat \<Rightarrow> string set" where
  "list_paths f i =
     insert (indexed (list_field_name f) i)
       (if f = LoopAnnots then range (loop_path i) else {})"

definition proposed_paths :: "(list_field \<Rightarrow> json list option) \<Rightarrow> (single_field \<Rightarrow> json option) \<Rightarrow> string set" where
  "proposed_paths ls singles =
     (\<Union>f. \<Union>i < length (unwrap_or (ls f) []). list_paths f i) \<union>
     single_field_name ` {f. singles f \<noteq> None}"

lemma plan_each_list:
  assumes "\<And>i v p. plan_paths (step i v p) \<subseteq> plan_paths p \<union> list_paths f i"
  shows "plan_paths (plan_each step (ls f) p) \<subseteq> plan_paths p \<union> proposed_paths ls singles"
proof -
  have "(\<Union>i < length (unwrap_or (ls f) []). list_paths f i) \<subseteq> proposed_paths ls singles"
    unfolding proposed_paths_def by (rule le_supI1, rule UN_upper) simp
  with plan_each_paths [of step "list_paths f" "ls f" p, OF assms] show ?thesis
    by (meson Un_mono order_refl subset_trans)
qed

lemma single_paths:
  "plan_paths (push_single_funspec_clause k (single_field_name f) purpose (singles f) bs p)
     \<subseteq> plan_paths p \<union> proposed_paths ls singles"
  by (auto simp: push_single_funspec_clause_def Let_def plan_paths_outcome proposed_paths_def
      split: option.splits)

lemma globals_paths: "plan_paths (plan_globals (ls Globals) es, fs) \<subseteq> plan_paths (es, fs) \<union> proposed_paths ls singles"
proof -
  let ?e = "\<lambda>i v. \<lparr>pe_acsl = normalize_global_acsl (acsl_or_self v), pe_kind = ''global'',
      pe_derived_from = indexed ''proposed_globals'' i, pe_stmt_id = None,
      pe_purpose = unwrap_or (get_str v ''purpose'') ''global_acsl'', pe_user_label = None\<rparr>"
  let ?step = "\<lambda>i v p. if trim (acsl_or_self v) = [] then p else push_entry (?e i v) p"
  have "(fold (\<lambda>(i, v) es. if trim (acsl_or_self v) = [] then es else es @ [?e i v]) xs es, fs) =
        fold (\<lambda>(i, v). ?step i v) xs (es, fs)" for xs
    by (induction xs arbitrary: es) (auto simp: push_entry_def)
  then have "(plan_globals (ls Globals) es, fs) = plan_each ?step (ls Globals) (es, fs)"
    by (auto simp: plan_globals_def plan_each_def split: option.splits)
  moreover have "plan_paths (plan_each ?step (ls Globals) (es, fs)) \<subseteq> plan_paths (es, fs) \<union> proposed_paths ls singles"
    by (rule plan_each_list) (auto simp: list_paths_def)
  ultimately show ?thesis by simp
qed

lemma loop_outcome_path: "case loop_outcome kind path n purpose label r of
    Inl (q, msg) \<Rightarrow> q = path | Inr (a, k, q, st, pu, l) \<Rightarrow> q = path"
  by (simp add: loop_outcome_def split: sum.splits)

definition outcome_path :: "loop_outcome \<Rightarrow> string" where
  "outcome_path r = (case r of Inl (q, msg) \<Rightarrow> q | Inr (a, k, q, st, pu, l) \<Rightarrow> q)"

lemma outcome_path_simp [simp]: "outcome_path (loop_outcome kind path n purpose label r) = path"
  by (simp add: loop_outcome_def outcome_path_def split: sum.splits)

lemma loop_annots_paths: "r \<in> set (loop_annots_to_acsl annot i bs) \<Longrightarrow> outcome_path r \<in> range (loop_path i)"
  by (auto simp: loop_annots_to_acsl_def invariant_outcome_def loop_assigns_outcome_def
      loop_variant_outcome_def Let_def split: option.splits if_splits prod.splits)

lemma loop_step_paths: "plan_paths (loop_plan_step bs i annot p) \<subseteq> plan_paths p \<union> list_paths LoopAnnots i"
proof -
  let ?push = "\<lambda>outcome p. case outcome of
      Inr (acsl, kind, derived_from, stmt_id, purpose, user_label) \<Rightarrow>
        push_entry \<lparr>pe_acsl = acsl, pe_kind = kind, pe_derived_from = derived_from,
                    pe_stmt_id = stmt_id, pe_purpose = purpose, pe_user_label = user_label\<rparr> p
    | Inl (path, msg) \<Rightarrow> push_failure (planning_failure path [] msg) p"
  have "plan_paths (fold ?push rs p) \<subseteq> plan_paths p \<union> outcome_path ` set rs" for rs
  proof (induction rs arbitrary: p)
    case (Cons r rs)
    have "plan_paths (?push r p) = insert (outcome_path r) (plan_paths p)"
      by (auto simp: outcome_path_def planning_failure_def split: sum.splits prod.splits)
    with Cons.IH [of "?push r p"] show ?case by auto
  qed simp
  from this [of "loop_annots_to_acsl annot i bs"] loop_annots_paths [of _ annot i bs]
  show ?thesis unfolding loop_plan_step_def list_paths_def by fastforce
qed

lemma step_paths:
  "plan_paths (requires_step bs i v p) \<subseteq> plan_paths p \<union> list_paths Requires i"
  "plan_paths (ensures_step bs i v p) \<subseteq> plan_paths p \<union> list_paths Ensures i"
  "plan_paths (assigns_step bs i v p) \<subseteq> plan_paths p \<union> list_paths Assigns i"
  "plan_paths (asserts_step i v p) \<subseteq> plan_paths p \<union> list_paths Asserts i"
  "plan_paths (behavior_group_step k (list_field_name f) bs i v p) \<subseteq> plan_paths p \<union> list_paths f i"
  by (auto simp: requires_step_def ensures_step_def assigns_step_def asserts_step_def
      behavior_group_step_def Let_def plan_paths_outcome list_paths_def split: option.splits)

text \<open>Each part of the plan keeps to the proposed paths.\<close>

lemma build_plan_paths: "plan_paths (build_injection_plan ls singles bs) \<subseteq> proposed_paths ls singles"
proof -
  let ?ok = "\<lambda>p. plan_paths p \<subseteq> proposed_paths ls singles"
  have each: "?ok (plan_each step (ls f) p)"
    if "\<And>i v p. plan_paths (step i v p) \<subseteq> plan_paths p \<union> list_paths f i" "?ok p" for step f p
    using plan_each_list [of step f ls p singles, OF that(1)] that(2) by blast
  have lists: "?ok p \<Longrightarrow> ?ok (plan_requires (ls Requires) bs p)" "?ok p \<Longrightarrow> ?ok (plan_ensures (ls Ensures) bs p)"
    "?ok p \<Longrightarrow> ?ok (plan_assigns (ls Assigns) bs p)" "?ok p \<Longrightarrow> ?ok (plan_asserts (ls Asserts) p)"
    "?ok p \<Longrightarrow> ?ok (plan_loops (ls LoopAnnots) bs p)" for p
    unfolding plan_requires_def plan_ensures_def plan_assigns_def plan_asserts_def plan_loops_def
    by (erule each [rotated], rule step_paths loop_step_paths)+
  have groups: "?ok p \<Longrightarrow> ?ok (push_behavior_group_clauses k (list_field_name f) (ls f) bs p)" for k f p
    unfolding push_behavior_group_clauses_def by (erule each [rotated], rule step_paths(5))
  have single: "?ok p \<Longrightarrow> ?ok (push_single_funspec_clause k (single_field_name f) purpose (singles f) bs p)"
    for k f purpose p
    using single_paths [of k f purpose singles bs p ls] by blast
  have start: "?ok (plan_globals (ls Globals) [], [])"
    using globals_paths [of ls "[]" "[]" singles] by (simp add: plan_paths_def)
  show ?thesis
    unfolding build_injection_plan_def Let_def
    using groups [of _ "''complete''" CompleteBehaviors] groups [of _ "''disjoint''" DisjointBehaviors]
      single [of _ "''terminates''" Terminates "''termination clause''"]
      single [of _ "''decreases''" Decreases "''decreases clause''"] single [of _ "''exits''" Exits "''exit clause''"]
    by (simp add: lists start)
qed

fun slot_name :: "annotation_slot \<Rightarrow> string" where
  "slot_name (ListSlot f) = list_field_name f"
| "slot_name (SingleSlot f) = single_field_name f"

lemma no_dot: "CHR ''.'' \<notin> set (indexed (list_field_name f) i)" "CHR ''.'' \<notin> set (single_field_name g)"
proof -
  have "CHR ''.'' \<notin> set (list_field_name f)" by (cases f) simp_all
  moreover have "CHR ''.'' \<notin> set (show_nat i)"
  proof
    assume "CHR ''.'' \<in> set (show_nat i)"
    then obtain d where "d < 10" "CHR ''.'' = hex_digit d"
      using set_digits_of [of 10 "CHR ''.''" i] by (auto simp: show_nat_def)
    moreover have "byte_of (CHR ''.'') = 46" by simp
    ultimately show False using hex_digit_byte [of d] by simp
  qed
  ultimately show "CHR ''.'' \<notin> set (indexed (list_field_name f) i)" by (simp add: indexed_def)
  show "CHR ''.'' \<notin> set (single_field_name g)" by (cases g) simp_all
qed

lemma split_once_plain: "c \<notin> set a \<Longrightarrow> split_once [c] (a @ c # b) = Some (a, b)"
  by (induction a) auto

text \<open>What an attributed origin makes of a proposed path.\<close>

lemma relabel_attributed:
  assumes a: "attributed entries x" and path: "path \<in> proposed_paths (ex_lists x) (ex_singles x)"
  shows "\<exists>i < length entries. \<exists>slot rest. entry_slot (entries ! i) = Some slot \<and> prefix (slot_name slot) path \<and>
           relabel_path (ex_origin x) path = Some (annotation_at i @ rest, i)"
proof -
  have "(\<exists>f j. j < length (list_of x f) \<and> path \<in> list_paths f j) \<or> (\<exists>f. ex_singles x f \<noteq> None \<and> path = single_field_name f)"
    using path unfolding proposed_paths_def list_of_def by blast
  then show ?thesis
  proof (elim disjE exE conjE)
    fix f assume "ex_singles x f \<noteq> None" "path = single_field_name f"
    with a obtain i where "i < length entries" "map_of (ex_origin x) path = Some i"
      "entry_slot (entries ! i) = Some (SingleSlot f)" unfolding attributed_def by blast
    then show ?thesis
      using \<open>path = _\<close> by (intro exI [of _ i]) (auto simp: relabel_path_def intro!: exI [of _ "SingleSlot f"])
  next
    fix f j assume j: "j < length (list_of x f)" and p: "path \<in> list_paths f j"
    with a obtain i where i: "i < length entries" "map_of (ex_origin x) (indexed (list_field_name f) j) = Some i"
      "entry_slot (entries ! i) = Some (ListSlot f)" unfolding attributed_def by blast
    show ?thesis
    proof (cases "path = indexed (list_field_name f) j")
      case True
      with i show ?thesis
        by (intro exI [of _ i]) (auto simp: relabel_path_def indexed_def intro!: exI [of _ "ListSlot f"])
    next
      case False
      with p obtain sub where sub: "f = LoopAnnots" "path = indexed (list_field_name f) j @ CHR ''.'' # sub"
        by (auto simp: list_paths_def loop_path_def split: if_splits)
      have "CHR ''.'' \<in> set path" by (simp add: sub)
      with a no_dot have "map_of (ex_origin x) path = None" unfolding attributed_def by metis
      moreover have "split_once ''.'' path = Some (indexed (list_field_name f) j, sub)"
        unfolding sub(2) by (rule split_once_plain) (rule no_dot)
      moreover have "prefix (list_field_name f) path" by (simp add: sub(2) indexed_def)
      ultimately show ?thesis
        using i by (intro exI [of _ i]) (auto simp: relabel_path_def intro!: exI [of _ "ListSlot f"])
    qed
  qed
qed

text \<open>When a call gives its clauses in the tagged array, every path the plan or its failures speak
  of is relabelled to an entry of that array, and to one of the very kind the path belongs to.\<close>

theorem diagnostics_name_the_callers_entry:
  assumes "ip_lists params = (\<lambda>_. None)" "ip_singles params = (\<lambda>_. None)"
    and "ip_annotations params = Some entries" "expand_tagged_annotations E params = Inr x"
    and "path \<in> plan_paths (build_injection_plan (ex_lists x) (ex_singles x) behaviors)"
  shows "\<exists>i < length entries. \<exists>slot rest. entry_slot (entries ! i) = Some slot \<and>
           prefix (slot_name slot) path \<and>
           relabel_path (ex_origin x) path = Some (annotation_at i @ rest, i)"
proof -
  define x0 where "x0 = \<lparr>ex_lists = (\<lambda>_. None), ex_singles = (\<lambda>_. None),
    ex_ghosts = ([] :: ghost_entries), ex_origin = ([] :: origin)\<rparr>"
  have "attributed [] x0" by (simp add: attributed_def list_of_def x0_def)
  moreover have "expand_loop E (length ([] :: json list)) entries x0 = Inr x"
    using assms(1-4) by (simp add: expand_tagged_annotations_def x0_def)
  ultimately have "attributed ([] @ entries) x" by (rule expand_loop_attributed)
  with relabel_attributed [OF _ subsetD [OF build_plan_paths assms(5)]] show ?thesis by simp
qed

section \<open>A concrete call\<close>

definition demo_env :: server_env where
  "demo_env = \<lparr>answers = (\<lambda>h c. Inr (JObj [(''result'', JObj [(''success'', JBool True)])])),
     texts = \<lparr>io_text = (\<lambda>_. []), json_text = [], header_utf8_text = [], header_hex_text = (\<lambda>_. []),
              payload_utf8_text = []\<rparr>,
     pretty = (\<lambda>_. []), from_str = (\<lambda>_. Some (JObj [(''result'', JObj [(''success'', JBool True)])])),
     mcp_error_text = mcp_message, serde_text = (\<lambda>_ _. []), debug_str = (\<lambda>s. s),
     random_hex8 = (\<lambda>_. ''00000000''), unicode_word = (\<lambda>_. False), disk_write = (\<lambda>_. Written)\<rparr>"

definition demo_server :: server where
  "demo_server = \<lparr>srv_session = empty_session, srv_disk = [], srv_main = True, srv_sandboxes = [],
     srv_calls = []\<rparr>"

definition demo_call :: "json list \<Rightarrow> bool \<Rightarrow> inject_params" where
  "demo_call entries dry_run = \<lparr>ip_function = Some ''f'', ip_sandbox_name = None,
     ip_annotations = Some entries, ip_lists = (\<lambda>_. None), ip_singles = (\<lambda>_. None), ip_dry_run = dry_run\<rparr>"

definition tagged :: "string \<Rightarrow> string \<Rightarrow> json" where
  "tagged kind acsl = JObj [(''kind'', JStr kind), (''acsl'', JStr acsl)]"

lemmas demo_defs = demo_env_def demo_server_def demo_call_def tagged_def

lemma dry_run_only_reads_witness:
  "\<exists>res s'. inject_all_annotations demo_env (demo_call [tagged ''assigns'' ''x''] True) demo_server = (res, s') \<and>
     reads demo_server s'"
  using dry_run_only_reads [of "demo_call [tagged ''assigns'' ''x''] True" demo_env demo_server]
  by (cases "inject_all_annotations demo_env (demo_call [tagged ''assigns'' ''x''] True) demo_server")
     (simp add: demo_call_def)

lemma contracts_stay_out_of_main_witness:
  "\<exists>e. inject_all_annotations demo_env (demo_call [tagged ''ensures'' ''x''] False) demo_server = (Inl e, demo_server)"
  by (rule contracts_stay_out_of_main [where target = "''f''"])
     (simp_all add: demo_call_def tagged_def injection_target_def proposes_contract_def entry_kind_def)

lemma failed_ghost_stops_clauses_witness:
  "\<exists>failures s1. inject_all_annotations demo_env (demo_call [tagged ''ghost_global'' ''x''] False) demo_server =
     (Inr (json_result demo_env (ghost_only_response False 1 [] failures)), s1) \<and>
   extends is_ghost_call demo_server s1"
proof -
  let ?v = "JObj [(''acsl'', JStr ''x'')]"
  let ?f = "[ghost_request_failure 0 GhostGlobal ''ghost_global: '']"
  let ?x = "\<lparr>ex_lists = (\<lambda>_. None), ex_singles = (\<lambda>_. None), ex_ghosts = [(0, GhostGlobal, ?v)], ex_origin = []\<rparr>"
  let ?p = "demo_call [tagged ''ghost_global'' ''x''] False"
  have x: "expand_tagged_annotations demo_env ?p = Inr ?x" by code_simp
  have g: "apply_ghost_entries demo_env ''f'' (ex_ghosts ?x) (ip_dry_run ?p) demo_server = (([], ?f), demo_server)"
    by code_simp
  show ?thesis
    using failed_ghost_stops_clauses [OF _ x _ g]
    by (fastforce simp: demo_call_def injection_target_def carries_contract_def)
qed

definition demo_entry :: plan_entry where
  "demo_entry = \<lparr>pe_acsl = ''assert x;'', pe_kind = ''annot'', pe_derived_from = ''proposed_asserts[0]'',
     pe_stmt_id = Some 3, pe_purpose = [], pe_user_label = None\<rparr>"

definition demo_client :: resolved_client where
  "demo_client = \<lparr>rc_client = MainClient, rc_function = ''f'', rc_experiment_id = None\<rparr>"

lemma every_clause_is_reported_witness:
  "\<exists>successful failures s' v.
     execute_injection_plan demo_env demo_client ''f'' [demo_entry] [''assert x''] [] demo_server = ((successful, failures), s') \<and>
     successful = [injected_of ''existing'' demo_entry] \<and> failures = [] \<and> s' = demo_server \<and>
     entry_verdict demo_env demo_client ''f'' [''assert x''] demo_entry demo_server v"
proof -
  obtain successful failures s' where
    x: "execute_injection_plan demo_env demo_client ''f'' [demo_entry] [''assert x''] [] demo_server = ((successful, failures), s')"
    by (metis prod.collapse)
  have b: "begins_like_existing [''assert x''] demo_entry" by code_simp
  from every_clause_is_reported [OF x] b obtain v where
    v: "successful = kept [v]" "failures = refused [v]" "s' = demo_server"
      "entry_verdict demo_env demo_client ''f'' [''assert x''] demo_entry
         (state_before demo_env demo_client ''f'' [demo_entry] [''assert x''] [] demo_server 0) v"
    by (auto simp: length_Suc_conv)
  from v(4) b have i: "v = Inr (injected_of ''existing'' demo_entry)"
    by (auto simp: entry_verdict_def split: sum.splits)
  with b have "entry_verdict demo_env demo_client ''f'' [''assert x''] demo_entry demo_server v"
    by (simp add: entry_verdict_def)
  with x v(1-3) i show ?thesis by auto
qed

lemma diagnostics_name_the_callers_entry_witness:
  "\<exists>slot rest. entry_slot (tagged ''assigns'' ''x'') = Some slot \<and>
     relabel_path [(''proposed_assigns[0]'', 0)] ''proposed_assigns[0]'' = Some (annotation_at 0 @ rest, 0)"
proof -
  let ?p = "demo_call [tagged ''assigns'' ''x''] False"
  obtain x where x: "expand_tagged_annotations demo_env ?p = Inr x" and
    o: "ex_origin x = [(''proposed_assigns[0]'', 0)]" and
    path: "''proposed_assigns[0]'' \<in> plan_paths (build_injection_plan (ex_lists x) (ex_singles x) [])"
  proof
    let ?x = "\<lparr>ex_lists = (\<lambda>f. if f = Assigns then Some [JObj [(''acsl'', JStr ''x'')]] else None),
      ex_singles = (\<lambda>_. None), ex_ghosts = ([] :: ghost_entries), ex_origin = [(''proposed_assigns[0]'', 0 :: nat)]\<rparr>"
    show "expand_tagged_annotations demo_env ?p = Inr ?x" by code_simp
    show "ex_origin ?x = [(''proposed_assigns[0]'', 0)]" by simp
    show "''proposed_assigns[0]'' \<in> plan_paths (build_injection_plan (ex_lists ?x) (ex_singles ?x) [])" by code_simp
  qed
  from diagnostics_name_the_callers_entry [OF _ _ _ x path] show ?thesis
    by (auto simp: demo_call_def o)
qed

section \<open>What the guards let through\<close>

text \<open>
  The clauses of a contract are separated by semicolons inside the text of any other clause, so a
  postcondition reaches the main project as the tail of an assigns clause.
\<close>

definition smuggled :: json where
  "smuggled = tagged ''assigns'' ([CHR 0x5C] @ ''nothing; ensures '' @ [CHR 0x5C] @ ''false'')"

lemma contract_in_assigns_reaches_main:
  "(''acsl'', JStr (''assigns '' @ [CHR 0x5C] @ ''nothing; ensures '' @ [CHR 0x5C] @ ''false;''))
     \<in> set (concat (map (\<lambda>c. unwrap_or (as_object (call_data c)) [])
         (filter (\<lambda>c. call_kind c = Exec \<and> call_client c = MainClient)
            (srv_calls (snd (inject_all_annotations demo_env (demo_call [smuggled] False) demo_server))))))"
  by code_simp

text \<open>Clauses of one behavior with the same first assumption compare equal, whatever they claim.\<close>

lemma behavior_clauses_compare_equal:
  "normalize_for_comparison ''behavior b: assumes x; ensures y;'' =
   normalize_for_comparison ''behavior b: assumes x; requires z;''"
  by code_simp

text \<open>Only the first run of closing semicolons is removed.\<close>

lemma normalize_acsl_leaves_semicolons: "normalize_acsl ''a; ;'' = ''a;;''"
  by code_simp

end
