(* ===== verification/Loading.thy ===== *)
theory Loading
  imports Server Ordered
begin

text \<open>
  Loading a project (src/src/mcp/project.rs, src/src/mcp/server.rs): merging what a caller asks for with
  a target's profile, validating it, the preprocessor flags and the command line it becomes, and the
  files a compilation database names. The builtin-models header is written to a temporary file whose
  path is the parameter \<open>builtin_header\<close>; reading the database from disk is a parameter too.
\<close>

section \<open>Validation\<close>

definition is_cpp_arg_char :: "char \<Rightarrow> bool" where
  "is_cpp_arg_char c \<longleftrightarrow> is_ascii_alphanumeric c \<or> c \<in> set ''_=./+-''"

definition unusable_entry :: "string \<Rightarrow> bool" where
  "unusable_entry entry \<longleftrightarrow> entry = [] \<or> starts_with entry ''-'' \<or> \<not> list_all is_cpp_arg_char entry"

definition validate_cpp_entries :: "string list \<Rightarrow> string \<Rightarrow> mcp_error + unit" where
  "validate_cpp_entries entries complaint =
     (if list_ex unusable_entry entries then Inl (mcp_error_of InvalidParams complaint None) else Inr ())"

definition dquoted :: "string \<Rightarrow> string" where
  "dquoted s = CHR 0x22 # s @ [CHR 0x22]"

definition include_paths_complaint :: string where
  "include_paths_complaint =
     ''include_paths entries must be non-empty directories of [A-Za-z0-9_./+-] '' @
     ''without a leading dash (write '' @ dquoted ''include'' @ '', not '' @ dquoted ''-Iinclude'' @ '')''"

definition defines_complaint :: string where
  "defines_complaint =
     ''defines entries must be non-empty NAME or NAME=VALUE of [A-Za-z0-9_=./+-] '' @
     ''without a leading dash (write '' @ dquoted ''_Atomic='' @ '', not '' @ dquoted ''-D_Atomic='' @ '')''"

definition force_includes_complaint :: string where
  "force_includes_complaint =
     ''force_includes entries must be non-empty header names of [A-Za-z0-9_./+-] '' @
     ''without a leading dash (write '' @ dquoted ''builtins.h'' @ '', not '' @
     dquoted ''-include builtins.h'' @ '')''"

definition isystem_paths_complaint :: string where
  "isystem_paths_complaint =
     ''isystem_paths entries must be non-empty directories of [A-Za-z0-9_./+-] '' @
     ''without a leading dash (write '' @ dquoted ''include'' @ '', not '' @ dquoted ''-isystem include'' @ '')''"

definition machdep_complaint :: string where
  "machdep_complaint =
     ''machdep must be a non-empty predefined name or YAML machdep file path without a '' @
     ''leading dash (write '' @ dquoted ''gcc_x86_64'' @ '' or '' @ dquoted ''machdeps/custom'' @ '', not '' @
     dquoted ''-machdep gcc_x86_64'' @ '')''"

definition database_complaint :: string where
  "database_complaint =
     ''compilation_database must be a non-empty path without a leading dash '' @
     ''(write '' @ dquoted ''build/compile_commands.json'' @ '', not '' @
     dquoted ''-json-compilation-database build'' @ '')''"

definition validate_plain :: "string option \<Rightarrow> string \<Rightarrow> mcp_error + unit" where
  "validate_plain value complaint =
     (case value of
        None \<Rightarrow> Inr ()
      | Some v \<Rightarrow> if v = [] \<or> starts_with v ''-'' then Inl (mcp_error_of InvalidParams complaint None) else Inr ())"

text \<open>\<open>?\<close> on a check that answers nothing.\<close>

definition and_also :: "'e + unit \<Rightarrow> 'e + 'a \<Rightarrow> 'e + 'a" where
  "and_also a b = (case a of Inl e \<Rightarrow> Inl e | Inr _ \<Rightarrow> b)"

lemma and_also_Inr [simp]: "and_also a b = Inr x \<longleftrightarrow> a = Inr () \<and> b = Inr x"
  by (cases a) (simp_all add: and_also_def)

definition validate_project_options :: "project_load_options \<Rightarrow> mcp_error + unit" where
  "validate_project_options opts =
     and_also (validate_cpp_entries (po_include_paths opts) include_paths_complaint)
     (and_also (validate_cpp_entries (po_defines opts) defines_complaint)
     (and_also (validate_cpp_entries (po_force_includes opts) force_includes_complaint)
     (and_also (validate_cpp_entries (po_isystem_paths opts) isystem_paths_complaint)
     (and_also (validate_plain (po_machdep opts) machdep_complaint)
               (validate_plain (po_compilation_database opts) database_complaint)))))"

section \<open>Options and the command line\<close>

definition unsigned_rte :: "project_load_options \<Rightarrow> bool" where
  "unsigned_rte opts \<longleftrightarrow> po_rte opts \<and> \<not> po_unsigned_rte_skipped opts"

definition pointer_rte :: "project_load_options \<Rightarrow> bool" where
  "pointer_rte opts \<longleftrightarrow> po_rte opts \<and> po_pointer_rte_requested opts"

definition unsigned_rte_args :: "project_load_options \<Rightarrow> string list" where
  "unsigned_rte_args opts =
     (if unsigned_rte opts then [''-warn-unsigned-overflow'', ''-warn-unsigned-downcast''] else []) @
     (if pointer_rte opts then [''-warn-invalid-pointer''] else [])"

definition names_bytes_outside_the_file_set :: "project_load_options \<Rightarrow> bool" where
  "names_bytes_outside_the_file_set opts \<longleftrightarrow>
     po_force_includes opts \<noteq> [] \<or> po_compilation_database opts \<noteq> None"

definition cpp_flags :: "string option \<Rightarrow> project_load_options \<Rightarrow> string list" where
  "cpp_flags builtin_header opts =
     (if po_nostdinc opts then [''-nostdinc''] else []) @
     map (\<lambda>path. ''-I'' @ path) (po_include_paths opts) @
     map (\<lambda>path. ''-isystem '' @ path) (po_isystem_paths opts) @
     map (\<lambda>define. ''-D'' @ define) (po_defines opts) @
     map (\<lambda>header. ''-include '' @ header) (po_force_includes opts) @
     (case po_builtin_models opts of
        None \<Rightarrow> []
      | Some _ \<Rightarrow> [''-include '' @ unwrap_or builtin_header ''/nonexistent/frama-c-mcp-builtins.h''])"

definition cpp_extra_args :: "string option \<Rightarrow> project_load_options \<Rightarrow> string option" where
  "cpp_extra_args builtin_header opts =
     (let flags = cpp_flags builtin_header opts in if flags = [] then None else Some (join '' '' flags))"

definition project_cli_args :: "string option \<Rightarrow> project_load_options \<Rightarrow> string list" where
  "project_cli_args builtin_header opts =
     (case cpp_extra_args builtin_header opts of None \<Rightarrow> []
      | Some cpp_args \<Rightarrow> [''-cpp-extra-args='' @ cpp_args]) @
     (case po_machdep opts of None \<Rightarrow> [] | Some machdep \<Rightarrow> [''-machdep'', machdep]) @
     (case po_compilation_database opts of None \<Rightarrow> [] | Some db \<Rightarrow> [''-compilation-db'', db])"

text \<open>The default provers and the default memory model come from the environment of the server.\<close>

definition main_frama_c_args ::
    "string option \<Rightarrow> string \<Rightarrow> string \<Rightarrow> string \<Rightarrow> string list \<Rightarrow> project_load_options \<Rightarrow> string \<Rightarrow> string list" where
  "main_frama_c_args builtin_header provers model frama_c_path files opts socket_path =
     [frama_c_path] @ project_cli_args builtin_header opts @ files @
     [''-load-module'', ''ast_utils_plugin'', ''-server-socket'', socket_path,
      ''-rte-no-use-eva-results'', ''-wp-prover'', provers, ''-wp-model'', model]"

section \<open>A profile and what the caller asks for\<close>

record reload_params =
  rp_files :: "string list option"
  rp_include_paths :: "string list option"
  rp_defines :: "string list option"
  rp_force_includes :: "string list option"
  rp_isystem_paths :: "string list option"
  rp_nostdinc :: "bool option"
  rp_machdep :: "string option"
  rp_compilation_database :: "string option"
  rp_rte :: "bool option"
  rp_rte_unsigned :: "bool option"
  rp_rte_pointer :: "bool option"
  rp_builtin_models :: "bool option"
  rp_verify_profiles :: "json option"
  rp_verify_profiles_source :: "string option"
  rp_verify_profile :: "string option"
  rp_full_detail :: bool

definition pick_flag :: "bool option \<Rightarrow> ('p \<Rightarrow> bool option) \<Rightarrow> 'p option \<Rightarrow> bool" where
  "pick_flag explicit pick profile = unwrap_or (or_else explicit (Option.bind profile pick)) False"

definition pick_list :: "string list option \<Rightarrow> ('p \<Rightarrow> string list) \<Rightarrow> 'p option \<Rightarrow> string list" where
  "pick_list explicit pick profile =
     (case explicit of Some xs \<Rightarrow> xs | None \<Rightarrow> (case profile of None \<Rightarrow> [] | Some p \<Rightarrow> pick p))"

definition merged_options ::
    "string \<Rightarrow> reload_params \<Rightarrow> verification_profile option \<Rightarrow> project_load_options" where
  "merged_options builtin_digest params profile =
     \<lparr>po_include_paths = pick_list (rp_include_paths params) vp_include_paths profile,
      po_defines = pick_list (rp_defines params) vp_defines profile,
      po_force_includes = pick_list (rp_force_includes params) vp_force_includes profile,
      po_machdep = or_else (rp_machdep params) (Option.bind profile vp_machdep),
      po_compilation_database = rp_compilation_database params,
      po_rte = pick_flag (rp_rte params) vp_rte profile,
      po_isystem_paths = pick_list (rp_isystem_paths params) vp_isystem_paths profile,
      po_nostdinc = pick_flag (rp_nostdinc params) vp_nostdinc profile,
      po_unsigned_rte_skipped =
        (or_else (rp_rte_unsigned params) (Option.bind profile vp_rte_unsigned) = Some False),
      po_pointer_rte_requested =
        (or_else (rp_rte_pointer params) (Option.bind profile vp_rte_pointer) = Some True),
      po_builtin_models =
        (if or_else (rp_builtin_models params) (Option.bind profile vp_builtin_models) = Some True
         then Some builtin_digest else None)\<rparr>"

definition requested_files :: "reload_params \<Rightarrow> verification_profile option \<Rightarrow> string list option" where
  "requested_files params profile =
     or_else (rp_files params)
       (Option.bind profile (\<lambda>p. if vp_sources p = [] then None else Some (vp_sources p)))"

definition requested_load ::
    "string \<Rightarrow> reload_params \<Rightarrow> verification_profile option \<Rightarrow>
     mcp_error + string list option \<times> project_load_options" where
  "requested_load builtin_digest params profile =
     (let opts = merged_options builtin_digest params profile
      in and_also (validate_project_options opts) (Inr (requested_files params profile, opts)))"

definition unknown_verify_profile :: "string \<Rightarrow> (string, verification_profile) kv \<Rightarrow> mcp_error" where
  "unknown_verify_profile name registered =
     (let known = sort (map fst registered)
      in mcp_error_of InvalidParams
           (''no verify_profile named '' @ dquoted name @ ''. Registered: '' @
            (if known = [] then ''none'' else join '', '' known) @
            ''. Register them through reload_project, emitted by the build system that defines the targets, so they cannot drift from the command that decides.'')
           None)"

text \<open>
  Registering happens before the name is resolved, in one write of the session. The texts of the
  refused profiles are the parameter \<open>refusal_text\<close>.
\<close>

definition resolve_verify_profile ::
    "(profile_refusal \<Rightarrow> string) \<Rightarrow> (json \<Rightarrow> string + verification_profile) \<Rightarrow> reload_params \<Rightarrow> session_state \<Rightarrow>
     (mcp_error + verification_profile option) \<times> session_state" where
  "resolve_verify_profile refusal_text decode params s =
     (case (case rp_verify_profiles params of None \<Rightarrow> Inr None
            | Some v \<Rightarrow> (case parse_verification_profiles decode v of
                 Inl e \<Rightarrow> Inl e | Inr parsed \<Rightarrow> Inr (Some parsed))) of
        Inl e \<Rightarrow> (Inl (mcp_error_of InvalidParams (refusal_text e) None), s)
      | Inr registering \<Rightarrow>
          (let s' = (case registering of None \<Rightarrow> s
                     | Some parsed \<Rightarrow> register_profiles parsed (rp_verify_profiles_source params) s)
           in case rp_verify_profile params of
                None \<Rightarrow> (Inr None, s')
              | Some name \<Rightarrow>
                  (case map_of (ss_verification_profiles s') name of
                     Some p \<Rightarrow> (Inr (Some p), s')
                   | None \<Rightarrow> (Inl (unknown_verify_profile name (ss_verification_profiles s')), s'))))"

section \<open>Words of a shell command\<close>

fun double_quoted :: "string \<Rightarrow> string \<times> string" where
  "double_quoted [] = ([], [])"
| "double_quoted (c # cs) =
     (if c = CHR 0x22 then ([], cs)
      else if c = CHR 0x5C
      then (case cs of [] \<Rightarrow> ([], []) | d # ds \<Rightarrow> map_prod ((#) d) id (double_quoted ds))
      else map_prod ((#) c) id (double_quoted cs))"

declare double_quoted.simps(2) [simp del]

lemma double_quoted_shorter: "length (snd (double_quoted s)) \<le> length s"
proof (induction s rule: length_induct)
  case (1 s)
  show ?case
  proof (cases s)
    case (Cons c cs)
    with 1 have cs: "length (snd (double_quoted cs)) \<le> length cs" by simp
    have "length (snd (double_quoted ds)) \<le> length ds" if "cs = d # ds" for d ds
      using 1 Cons that by simp
    with cs show ?thesis
      by (cases cs) (force simp: Cons double_quoted.simps(2) [of c])+
  qed simp
qed

text \<open>What \<open>Option<String>\<close> hands over: the word, when there is one.\<close>

definition taken :: "string option \<Rightarrow> string list" where
  "taken w = (case w of None \<Rightarrow> [] | Some x \<Rightarrow> [x])"

function shell_loop :: "string \<Rightarrow> string option \<Rightarrow> string list" where
  "shell_loop [] word = taken word"
| "shell_loop (c # cs) word =
     (case ws_prefix (c # cs) of
        Some ws \<Rightarrow> taken word @ shell_loop (drop (length ws) (c # cs)) None
      | None \<Rightarrow>
          if c = CHR 0x27
          then shell_loop (tl (dropWhile (\<lambda>x. x \<noteq> CHR 0x27) cs))
                 (Some (unwrap_or word [] @ takeWhile (\<lambda>x. x \<noteq> CHR 0x27) cs))
          else if c = CHR 0x22
          then shell_loop (snd (double_quoted cs)) (Some (unwrap_or word [] @ fst (double_quoted cs)))
          else if c = CHR 0x5C
          then shell_loop (tl cs) (Some (unwrap_or word [] @ take 1 cs))
          else shell_loop cs (Some (unwrap_or word [] @ [c])))"
  by pat_completeness auto
termination
proof (relation "measure (\<lambda>(s, w). length s)")
  fix c cs ws and word :: "string option"
  assume "ws_prefix (c # cs) = Some ws"
  then show "((drop (length ws) (c # cs), None), c # cs, word) \<in> measure (\<lambda>(s, w). length s)"
    using ws_prefix_len by fastforce
next
  fix c cs and word :: "string option"
  show "((snd (double_quoted cs), Some (unwrap_or word [] @ fst (double_quoted cs))), c # cs, word)
      \<in> measure (\<lambda>(s, w). length s)"
    using double_quoted_shorter [of cs] by simp
qed (auto simp: less_Suc_eq_le intro: order_trans [OF diff_le_self length_dropWhile_le])

definition shell_words :: "string \<Rightarrow> string list" where
  "shell_words command = shell_loop command None"

section \<open>A compilation database\<close>

definition dropped_semantic_flags :: "(string \<times> string) list" where
  "dropped_semantic_flags =
     [(''-funsigned-char'', ''char is unsigned in the build; the machdep decides it here''),
      (''-fsigned-char'', ''char is signed in the build; the machdep decides it here''),
      (''-fwrapv'', ''signed overflow wraps in the build; RTE still reports it as undefined''),
      (''-fno-strict-overflow'', ''signed overflow wraps in the build; RTE still reports it as undefined''),
      (''-m32'', ''the build targets a 32-bit data model; the machdep decides it here''),
      (''-mx32'', ''the build targets the x32 data model; the machdep decides it here''),
      (''-m16'', ''the build targets a 16-bit data model; the machdep decides it here''),
      (''--target'', ''the build names a target; the machdep decides sizes and alignment here''),
      (''-target'', ''the build names a target; the machdep decides sizes and alignment here''),
      (''-mabi'', ''the build selects an ABI; the machdep decides sizes and alignment here''),
      (''-fshort-wchar'', ''wchar_t is 16 bits in the build; the machdep decides it here''),
      (''-fshort-enums'', ''enums are packed in the build; the machdep decides it here''),
      (''-fpack-struct'', ''structs are packed in the build; the machdep decides layout here''),
      (''-funsigned-bitfields'', ''plain bit-fields are unsigned in the build'')]"

definition dropped_semantic_flag :: "string \<Rightarrow> string option" where
  "dropped_semantic_flag token =
     find (\<lambda>flag. token = flag \<or> starts_with token (flag @ ''='')) (map fst dropped_semantic_flags)"

definition compile_entry_tokens :: "json \<Rightarrow> string list" where
  "compile_entry_tokens entry =
     (case get_array entry ''arguments'' of
        Some arguments \<Rightarrow> List.map_filter as_str arguments
      | None \<Rightarrow> (case get_str entry ''command'' of None \<Rightarrow> [] | Some c \<Rightarrow> shell_words c))"

definition entry_flags :: "json \<Rightarrow> string list" where
  "entry_flags entry = sort_dedup (List.map_filter dropped_semantic_flag (compile_entry_tokens entry))"

definition flag_counts :: "json list \<Rightarrow> (string, nat) kv" where
  "flag_counts entries =
     fold (\<lambda>entry counts. fold (\<lambda>flag. bt_entry flag 0 Suc) (entry_flags entry) counts) entries []"

definition compile_database_dropped_flags :: "json list \<Rightarrow> json" where
  "compile_database_dropped_flags entries =
     JObj (map (\<lambda>(flag, n). (flag, JObj [(''entries'', jnat n),
             (''effect'', JStr (unwrap_or (map_of dropped_semantic_flags flag) []))])) (flag_counts entries))"

record compile_database =
  db_path :: string
  db_entries :: "string + json list"

text \<open>\<open>CompileDatabase::read\<close>, on the text read or the error of reading it.\<close>

definition read_database :: "(string \<Rightarrow> string + json) \<Rightarrow> string \<Rightarrow> string + string \<Rightarrow> compile_database" where
  "read_database parse path contents =
     \<lparr>db_path = path,
      db_entries = (case contents of
          Inl e \<Rightarrow> Inl (''failed to read compilation database: '' @ e)
        | Inr text \<Rightarrow>
            (case parse text of
               Inl e \<Rightarrow> Inl (''failed to parse compilation database JSON: '' @ e)
             | Inr v \<Rightarrow> (case as_array v of Some entries \<Rightarrow> Inr entries
                        | None \<Rightarrow> Inl ''compilation database must be a JSON array'')))\<rparr>"

definition dropped_flags :: "compile_database \<Rightarrow> json" where
  "dropped_flags db =
     (case db_entries db of Inr entries \<Rightarrow> compile_database_dropped_flags entries
      | Inl reason \<Rightarrow> JObj [(''unreadable'', JStr reason)])"

text \<open>
  \<open>Path::parent\<close> and \<open>Path::join\<close> on texts: trailing separators and \<open>.\<close> components of the text that
  remains are dropped; joining adds a separator unless the directory is empty or ends in one.
\<close>

fun trim_tail_rev :: "string \<Rightarrow> string" where
  "trim_tail_rev (c # d # cs) =
     (if c = CHR ''/'' then trim_tail_rev (d # cs)
      else if c = CHR ''.'' \<and> d = CHR ''/'' then trim_tail_rev (d # cs)
      else c # d # cs)"
| "trim_tail_rev s = s"

definition path_parent :: "string \<Rightarrow> string option" where
  "path_parent s =
     (let t = trim_tail_rev (rev s)
      in if t = [] \<or> t = ''/'' then None
         else Some (rev (trim_tail_rev (dropWhile (\<lambda>c. c \<noteq> CHR ''/'') t))))"

definition path_join :: "string \<Rightarrow> string \<Rightarrow> string" where
  "path_join dir f =
     (if dir = [] then f else if last dir = CHR ''/'' then dir @ f else dir @ ''/'' @ f)"

definition is_absolute_text :: "string \<Rightarrow> bool" where
  "is_absolute_text p \<longleftrightarrow> starts_with p ''/''"

definition database_file :: "string \<Rightarrow> json \<Rightarrow> mcp_error + string" where
  "database_file path entry =
     (case get_str entry ''file'' of
        None \<Rightarrow> Inl (mcp_error_of InvalidParams ''compilation database entry is missing file'' None)
      | Some f \<Rightarrow>
          Inr (if is_absolute_text f then f
               else path_join (case get_str entry ''directory'' of Some d \<Rightarrow> d
                                | None \<Rightarrow> unwrap_or (path_parent path) ''.'') f))"

fun database_files_loop :: "string \<Rightarrow> json list \<Rightarrow> string list \<Rightarrow> mcp_error + string list" where
  "database_files_loop path [] files = Inr files"
| "database_files_loop path (entry # entries) files =
     (case database_file path entry of
        Inl e \<Rightarrow> Inl e
      | Inr f \<Rightarrow> database_files_loop path entries (if f \<in> set files then files else files @ [f]))"

definition compile_database_files :: "compile_database \<Rightarrow> mcp_error + string list" where
  "compile_database_files db =
     (case db_entries db of
        Inl e \<Rightarrow> Inl (mcp_error_of InvalidParams e None)
      | Inr entries \<Rightarrow>
          (case database_files_loop (db_path db) entries [] of
             Inl e \<Rightarrow> Inl e
           | Inr files \<Rightarrow>
               if files = [] then Inl (mcp_error_of InvalidParams ''compilation database contains no files'' None)
               else Inr files))"

section \<open>The files of a load\<close>

definition transport_poisoned_error :: mcp_error where
  "transport_poisoned_error =
     mcp_error_of InternalError
       (''the Frama-C transport is poisoned and no file list is cached; '' @
        ''pass files explicitly to reload_project to recover'')
       (Some (JObj [(''kind'', JStr ''TransportPoisoned''), (''retryable'', JBool True),
          (''suggestion'', JObj [(''tool'', JStr ''reload_project''),
             (''args_example'', JObj [(''files'', jstrs [''/path/to/source.c''])])])]))"

definition files_for_this_load ::
    "server_env \<Rightarrow> bool \<Rightarrow> string list option \<Rightarrow> string list option \<Rightarrow> compile_database option \<Rightarrow> server \<Rightarrow>
     (mcp_error + string list) \<times> server" where
  "files_for_this_load E poisoned cached requested database s =
     (case requested of
        Some f \<Rightarrow> (Inr f, s)
      | None \<Rightarrow>
          (case database of
             Some db \<Rightarrow> (compile_database_files db, s)
           | None \<Rightarrow>
               if \<not> srv_main s then (Inl no_project_loaded_error, s)
               else if poisoned
               then (if unwrap_or cached [] = [] then Inl transport_poisoned_error
                     else Inr (unwrap_or cached []), s)
               else (case send_mcp E \<lparr>call_client = MainClient, call_kind = Get,
                            call_endpoint = ''kernel.ast.getFiles'', call_data = JNull\<rparr> s of
                       (Inl e, s') \<Rightarrow> (Inl e, s')
                     | (Inr v, s') \<Rightarrow> (Inr (List.map_filter as_str (unwrap_or (as_array v) [])), s'))))"

section \<open>What the preprocessor is told\<close>

lemma ws_prefix_plain: "byte_of c < 128 \<Longrightarrow> \<not> ascii_blank c \<Longrightarrow> ws_prefix (c # cs) = None"
  by (simp add: ws_prefix_code)

definition plain_char :: "char \<Rightarrow> bool" where
  "plain_char c \<longleftrightarrow> byte_of c < 128 \<and> \<not> ascii_blank c \<and> c \<noteq> CHR 0x27 \<and> c \<noteq> CHR 0x22 \<and> c \<noteq> CHR 0x5C"

lemma ws_prefix_space [simp]: "ws_prefix (CHR '' '' # cs) = Some '' ''"
  by (simp add: ws_prefix_code ascii_blank_def)

lemma cpp_char_plain: "is_cpp_arg_char c \<Longrightarrow> plain_char c"
  by (auto simp: is_cpp_arg_char_def plain_char_def ascii_defs ascii_blank_def)

lemma shell_loop_plain:
  "list_all plain_char w \<Longrightarrow> w \<noteq> [] \<Longrightarrow>
   shell_loop (w @ s) word = shell_loop s (Some (unwrap_or word [] @ w))"
proof (induction w arbitrary: word)
  case (Cons c w)
  then have "shell_loop ((c # w) @ s) word = shell_loop (w @ s) (Some (unwrap_or word [] @ [c]))"
    by (simp add: plain_char_def ws_prefix_plain)
  with Cons show ?case by (cases "w = []") simp_all
qed simp

lemma shell_words_plain:
  "\<forall>w \<in> set ws. w \<noteq> [] \<and> list_all plain_char w \<Longrightarrow> shell_words (join '' '' ws) = ws"
  unfolding shell_words_def
proof (induction ws rule: induct_list012)
  case (2 w)
  then show ?case using shell_loop_plain [of w "[]" None] by (simp add: taken_def)
next
  case (3 w v ws)
  then show ?case
    using shell_loop_plain [of w "CHR '' '' # join '' '' (v # ws)" None] by (simp add: taken_def)
qed (simp add: taken_def)

text \<open>The arguments meant by the flags, those of one flag in one list.\<close>

definition cpp_arguments :: "string option \<Rightarrow> project_load_options \<Rightarrow> string list list" where
  "cpp_arguments builtin_header opts =
     (if po_nostdinc opts then [[''-nostdinc'']] else []) @
     map (\<lambda>path. [''-I'' @ path]) (po_include_paths opts) @
     map (\<lambda>path. [''-isystem'', path]) (po_isystem_paths opts) @
     map (\<lambda>define. [''-D'' @ define]) (po_defines opts) @
     map (\<lambda>header. [''-include'', header]) (po_force_includes opts) @
     (case po_builtin_models opts of
        None \<Rightarrow> []
      | Some _ \<Rightarrow> [[''-include'', unwrap_or builtin_header ''/nonexistent/frama-c-mcp-builtins.h'']])"

lemma cpp_flags_arguments: "cpp_flags h opts = map (join '' '') (cpp_arguments h opts)"
  by (simp add: cpp_flags_def cpp_arguments_def split: option.splits)

lemma join_append: "xs \<noteq> [] \<Longrightarrow> ys \<noteq> [] \<Longrightarrow> join sep (xs @ ys) = join sep xs @ sep @ join sep ys"
proof (induction xs)
  case (Cons x xs)
  then show ?case by (cases xs; cases ys) auto
qed simp

lemma join_concat: "\<forall>xs \<in> set xss. xs \<noteq> [] \<Longrightarrow> join sep (map (join sep) xss) = join sep (concat xss)"
proof (induction xss rule: induct_list012)
  case (3 xs ys xss)
  then show ?case using join_append [of xs "ys @ concat xss" sep] by simp
qed simp_all

lemma arguments_nonempty: "xs \<in> set (cpp_arguments h opts) \<Longrightarrow> xs \<noteq> []"
  by (auto simp: cpp_arguments_def split: if_splits option.splits)

lemma usable_plain: "\<not> unusable_entry e \<Longrightarrow> e \<noteq> [] \<and> list_all plain_char e"
  by (auto simp: unusable_entry_def list_all_iff cpp_char_plain)

lemma validated_usable:
  assumes "validate_project_options opts = Inr ()"
  shows "e \<in> set (po_include_paths opts) \<union> set (po_defines opts) \<union> set (po_force_includes opts) \<union>
           set (po_isystem_paths opts) \<Longrightarrow> \<not> unusable_entry e"
  using assms unfolding validate_project_options_def
  by (auto simp: validate_cpp_entries_def list_ex_iff split: if_splits)

lemma flag_words:
  "list_all plain_char ''-nostdinc''" "list_all plain_char ''-isystem''" "list_all plain_char ''-include''"
  "list_all plain_char ''-I''" "list_all plain_char ''-D''"
  "list_all plain_char ''/nonexistent/frama-c-mcp-builtins.h''"
  by (simp_all add: plain_char_def ascii_blank_def)

lemma validated_arguments_plain:
  assumes v: "validate_project_options opts = Inr ()"
    and h: "\<And>p. h = Some p \<Longrightarrow> p \<noteq> [] \<and> list_all is_cpp_arg_char p"
    and w: "w \<in> set (concat (cpp_arguments h opts))"
  shows "w \<noteq> [] \<and> list_all plain_char w"
proof -
  define b where "b = unwrap_or h ''/nonexistent/frama-c-mcp-builtins.h''"
  have header: "b \<noteq> []" "list_all plain_char b"
    using h flag_words(6) by (cases h; auto simp: b_def list_all_iff cpp_char_plain)+
  note entry = usable_plain [OF validated_usable [OF v]]
  have entries: "p \<in> set (po_include_paths opts) \<Longrightarrow> p \<noteq> [] \<and> list_all plain_char p"
    "p \<in> set (po_defines opts) \<Longrightarrow> p \<noteq> [] \<and> list_all plain_char p"
    "p \<in> set (po_force_includes opts) \<Longrightarrow> p \<noteq> [] \<and> list_all plain_char p"
    "p \<in> set (po_isystem_paths opts) \<Longrightarrow> p \<noteq> [] \<and> list_all plain_char p" for p
    using entry [of p] by simp_all
  from w show ?thesis
    unfolding cpp_arguments_def b_def [symmetric] concat_append set_append set_concat
    by (elim UnE; auto simp: flag_words [simplified] header split: if_splits option.splits dest: entries)
qed

text \<open>C31: for options that passed validation, splitting the flags handed to the preprocessor as a shell
  does yields exactly the arguments that were meant: each include path, system path, define and header
  is one word of its own, so no value can bring a flag with it.\<close>

theorem validated_flags_split_back:
  assumes "validate_project_options opts = Inr ()"
    and "\<And>p. h = Some p \<Longrightarrow> p \<noteq> [] \<and> list_all is_cpp_arg_char p"
    and "cpp_extra_args h opts = Some flags"
  shows "shell_words flags = concat (cpp_arguments h opts)"
proof -
  have "flags = join '' '' (concat (cpp_arguments h opts))"
    using assms(3) join_concat [of "cpp_arguments h opts" "'' ''"] arguments_nonempty
    by (auto simp: cpp_extra_args_def Let_def cpp_flags_arguments split: if_splits)
  moreover have "\<forall>w \<in> set (concat (cpp_arguments h opts)). w \<noteq> [] \<and> list_all plain_char w"
    using validated_arguments_plain [OF assms(1,2)] by blast
  ultimately show ?thesis by (simp add: shell_words_plain)
qed

definition demo_options :: project_load_options where
  "demo_options = \<lparr>po_include_paths = [''include''], po_defines = [''_Atomic=''], po_force_includes = [],
     po_machdep = None, po_compilation_database = None, po_rte = True, po_isystem_paths = [''/usr/include''],
     po_nostdinc = True, po_unsigned_rte_skipped = False, po_pointer_rte_requested = False,
     po_builtin_models = None\<rparr>"

lemma validated_flags_split_back_witness:
  "shell_words ''-nostdinc -Iinclude -isystem /usr/include -D_Atomic='' =
   [''-nostdinc'', ''-Iinclude'', ''-isystem'', ''/usr/include'', ''-D_Atomic='']"
proof -
  have "validate_project_options demo_options = Inr ()" by code_simp
  moreover have "cpp_extra_args None demo_options = Some ''-nostdinc -Iinclude -isystem /usr/include -D_Atomic=''"
    by code_simp
  ultimately have "shell_words ''-nostdinc -Iinclude -isystem /usr/include -D_Atomic='' =
      concat (cpp_arguments None demo_options)"
    by (intro validated_flags_split_back) simp_all
  then show ?thesis by (simp add: cpp_arguments_def demo_options_def)
qed

lemma validated_plain: "validate_plain (Some v) complaint = Inr () \<Longrightarrow> \<not> starts_with v ''-''"
  by (simp add: validate_plain_def split: if_splits)

lemma starts_with_append [simp]: "starts_with (p @ s) p"
  by (simp add: starts_with_def)

text \<open>The arguments for Frama-C that come from options: besides the three switches themselves, none
  begins with a dash, so a machine description or a database cannot be read as an option.\<close>

lemma project_arguments_keep_their_place:
  assumes "validate_project_options opts = Inr ()" "a \<in> set (project_cli_args h opts)" "starts_with a ''-''"
  shows "a = ''-machdep'' \<or> a = ''-compilation-db'' \<or> starts_with a ''-cpp-extra-args=''"
proof -
  from assms(1) have "validate_plain (po_machdep opts) machdep_complaint = Inr ()"
    "validate_plain (po_compilation_database opts) database_complaint = Inr ()"
    by (simp_all add: validate_project_options_def)
  with assms(2,3) show ?thesis
    unfolding project_cli_args_def
    by (cases "po_machdep opts"; cases "po_compilation_database opts"; cases "cpp_extra_args h opts")
       (auto dest: validated_plain simp del: append_Cons)
qed

lemma project_arguments_keep_their_place_witness:
  "\<exists>a. a \<in> set (project_cli_args None demo_options) \<and>
     (a = ''-machdep'' \<or> a = ''-compilation-db'' \<or> starts_with a ''-cpp-extra-args='')"
proof -
  let ?a = "hd (project_cli_args None demo_options)"
  have v: "validate_project_options demo_options = Inr ()" by code_simp
  have a: "?a \<in> set (project_cli_args None demo_options)" by code_simp
  have d: "starts_with ?a ''-''" by code_simp
  from project_arguments_keep_their_place [OF v a d] a show ?thesis by blast
qed

text \<open>The files, in contrast, are handed over as they are.\<close>

lemma file_read_as_option:
  "''-load-script=x.ml'' \<in> set (main_frama_c_args None ''alt-ergo'' ''Typed'' ''frama-c'' [''-load-script=x.ml'']
     demo_options ''socket'')"
  by (simp add: main_frama_c_args_def)

section \<open>Words of a shell command, read back\<close>

text \<open>A word in double quotes, its quotes and backslashes escaped.\<close>

definition shell_quote :: "string \<Rightarrow> string" where
  "shell_quote w = CHR 0x22 # concat (map (\<lambda>c. if c = CHR 0x22 \<or> c = CHR 0x5C then [CHR 0x5C, c] else [c]) w) @ [CHR 0x22]"

lemma double_quoted_escaped:
  "double_quoted (concat (map (\<lambda>c. if c = CHR 0x22 \<or> c = CHR 0x5C then [CHR 0x5C, c] else [c]) w) @ CHR 0x22 # s)
     = (w, s)"
  by (induction w) (simp_all add: double_quoted.simps(2))

lemma shell_loop_quote: "shell_loop (shell_quote w @ s) word = shell_loop s (Some (unwrap_or word [] @ w))"
proof -
  have "ws_prefix (CHR 0x22 # t) = None" for t by (rule ws_prefix_plain) (simp_all add: ascii_blank_def)
  then show ?thesis by (simp add: shell_quote_def double_quoted_escaped)
qed

text \<open>C32: any list of words, quoted and separated by blanks, is read back as that list.\<close>

theorem shell_words_roundtrip: "shell_words (join '' '' (map shell_quote ws)) = ws"
  unfolding shell_words_def
proof (induction ws rule: induct_list012)
  case (2 w)
  then show ?case using shell_loop_quote [of w "[]" None] by (simp add: taken_def)
next
  case (3 w v ws)
  then show ?case
    using shell_loop_quote [of w "CHR '' '' # join '' '' (map shell_quote (v # ws))" None] by (simp add: taken_def)
qed (simp add: taken_def)

end
