(* ===== verification/Parse_Log.thy ===== *)
theory Parse_Log
  imports Loading Scan
begin

text \<open>
  What a load says about parsing (src/src/mcp/project.rs): the warnings Frama-C writes to its log while
  it builds the AST, grouped by category, and the reason a file does not parse, grouped over the files
  of \<open>parse_surface\<close>. A log is a list of bytes; \<open>alphanumeric\<close> decides the characters outside ASCII.
\<close>

section \<open>Text read from a log\<close>

text \<open>\<open>String::from_utf8_lossy\<close>: each longest ill-formed beginning of a sequence becomes U+FFFD.\<close>

definition replacement_char :: string where
  "replacement_char = [CHR 0xEF, CHR 0xBF, CHR 0xBD]"

text \<open>How many bytes a sequence takes, and whether it is a character.\<close>

definition sequence_at :: "bytes \<Rightarrow> bool \<times> nat" where
  "sequence_at s =
     (case s of
        [] \<Rightarrow> (False, 0)
      | a # t \<Rightarrow>
          if byte_of a < 128 then (True, 1)
          else (case t of
              [] \<Rightarrow> (False, 1)
            | b # u \<Rightarrow>
                if in_range 194 223 a then (if cont_byte b then (True, 2) else (False, 1))
                else if utf8_3 a b
                then (case u of c # v \<Rightarrow> if cont_byte c then (True, 3) else (False, 2) | [] \<Rightarrow> (False, 2))
                else if utf8_4 a b
                then (case u of
                    [] \<Rightarrow> (False, 2)
                  | c # v \<Rightarrow>
                      if \<not> cont_byte c then (False, 2)
                      else (case v of d # w \<Rightarrow> if cont_byte d then (True, 4) else (False, 3) | [] \<Rightarrow> (False, 3)))
                else (False, 1)))"

lemma sequence_at_pos: "s \<noteq> [] \<Longrightarrow> 0 < snd (sequence_at s)"
  by (auto simp: sequence_at_def split: list.splits)

function utf8_lossy :: "bytes \<Rightarrow> string" where
  "utf8_lossy s =
     (if s = [] then []
      else (case sequence_at s of
          (ok, n) \<Rightarrow> (if ok then take n s else replacement_char) @ utf8_lossy (drop n s)))"
  by pat_completeness auto
termination
proof (relation "measure length")
  fix s :: bytes and ok n
  assume "s \<noteq> []" "(ok, n) = sequence_at s"
  with sequence_at_pos [of s] have "0 < n" by (metis snd_conv)
  with \<open>s \<noteq> []\<close> show "(drop n s, s) \<in> measure length" by simp
qed simp

declare utf8_lossy.simps [simp del]

text \<open>\<open>str::parse::<u64>\<close>: one leading \<open>+\<close> is accepted, at least one digit is needed.\<close>

definition parse_u64 :: "string \<Rightarrow> u64 option" where
  "parse_u64 s =
     (let d = (if starts_with s ''+'' then tl s else s);
          n = foldl (\<lambda>n c. 10 * n + int (byte_of c - 48)) (0 :: int) d
      in if d = [] \<or> \<not> list_all is_ascii_digit d \<or> 2 ^ 64 \<le> n then None else Some (word_of_int n))"

text \<open>\<open>rsplit_once(c)\<close> and \<open>contains(char::is_whitespace)\<close>.\<close>

definition rsplit_once :: "char \<Rightarrow> string \<Rightarrow> (string \<times> string) option" where
  "rsplit_once c s =
     (case after_last c s of None \<Rightarrow> None | Some t \<Rightarrow> Some (take (length s - length t - 1) s, t))"

fun has_whitespace :: "string \<Rightarrow> bool" where
  "has_whitespace [] = False"
| "has_whitespace (c # cs) = (ws_prefix (c # cs) \<noteq> None \<or> has_whitespace cs)"

section \<open>One line\<close>

definition trailing_number :: "string \<Rightarrow> (string \<times> u64) option" where
  "trailing_number source =
     (case rsplit_once (CHR '':'') source of
        None \<Rightarrow> None
      | Some (head, n) \<Rightarrow> map_option (Pair head) (parse_u64 n))"

definition trim_colons :: "string \<Rightarrow> string" where
  "trim_colons s = trim (Acsl.trim_end_chars '':'' (trim s))"

definition log_location :: "string \<Rightarrow> string \<Rightarrow> json" where
  "log_location source cwd =
     (let source = trim_colons source
      in if source = [] then JObj [(''unresolved'', JBool True)]
         else (let (source, line, column) =
                 (case trailing_number source of
                    None \<Rightarrow> (source, None, None)
                  | Some (head, n) \<Rightarrow>
                      (case trailing_number head of
                         Some (head, line) \<Rightarrow> (head, Some line, Some n)
                       | None \<Rightarrow> (head, Some n, None)));
                 path = (if is_absolute_text source then source else path_join cwd source)
               in JObj [(''file'', JStr path), (''line'', jopt u64_json line), (''column'', jopt u64_json column)]))"

function tag_bounds_from :: "nat \<Rightarrow> string \<Rightarrow> (nat \<times> nat) option" where
  "tag_bounds_from n head =
     (case find_char (CHR ''['') (drop n head) of
        None \<Rightarrow> None
      | Some k \<Rightarrow>
          (let lb = n + k
           in case find_char (CHR '']'') (drop lb head) of
                None \<Rightarrow> None
              | Some c \<Rightarrow>
                  (let rb = lb + c;
                       candidate = slice (lb + 1) rb head;
                       tail = drop (rb + 1) head
                   in if (lb = 0 \<or> ws_suffix (take lb head) \<noteq> None)
                         \<and> (tail = [] \<or> ws_prefix tail \<noteq> None)
                         \<and> CHR '':'' \<in> set candidate \<and> \<not> has_whitespace candidate
                      then Some (lb, rb)
                      else tag_bounds_from (lb + 1) head)))"
  by pat_completeness auto
termination
proof (relation "measure (\<lambda>(n, head). length head - n)")
  fix n head k lb
  assume k: "find_char (CHR ''['') (drop n head) = Some k" and lb: "lb = n + k"
  have "j < length s" if "find_char c s = Some j" for c j s
    using that by (induction s arbitrary: j) (auto split: if_splits)
  with k have "k < length head - n" by force
  with lb show "((lb + 1, head), (n, head)) \<in> measure (\<lambda>(n, head). length head - n)" by simp
qed simp

declare tag_bounds_from.simps [simp del]

definition tag_bounds :: "string \<Rightarrow> (nat \<times> nat) option" where
  "tag_bounds head = tag_bounds_from 0 head"

function warning_from :: "nat \<Rightarrow> string \<Rightarrow> (string \<times> nat \<times> nat) option" where
  "warning_from n line =
     (case find_str ''Warning:'' (drop n line) of
        None \<Rightarrow> None
      | Some k \<Rightarrow>
          (case tag_bounds (take (n + k) line) of
             Some (lb, rb) \<Rightarrow> Some (take (n + k) line, lb, rb)
           | None \<Rightarrow> warning_from (n + k + 1) line))"
  by pat_completeness auto
termination
proof (relation "measure (\<lambda>(n, line). length line - n)")
  fix n line k
  assume "find_str ''Warning:'' (drop n line) = Some k"
  from find_str_le [OF this] have "k < length line - n" by simp
  then show "((n + k + 1, line), (n, line)) \<in> measure (\<lambda>(n, line). length line - n)" by simp
qed simp

declare warning_from.simps [simp del]

definition warning_line_fields :: "string \<Rightarrow> (string \<times> string) option" where
  "warning_line_fields line =
     (case warning_from 0 line of
        None \<Rightarrow> None
      | Some (head, lb, rb) \<Rightarrow>
          (let stem = trim_colons (take lb head);
               after = trim_colons (drop (rb + 1) head)
           in Some (slice (lb + 1) rb head, if stem = [] then after else stem)))"

section \<open>The warnings of a parse\<close>

definition ast_diagnostic_sample :: nat where
  "ast_diagnostic_sample = 20"

definition asm_clobber :: string where
  "asm_clobber = ''kernel:asm:clobber''"

definition attrs_unknown :: string where
  "attrs_unknown = ''kernel:attrs:unknown''"

definition attribute_prefix :: string where
  "attribute_prefix = ''Ignoring unknown attribute:''"

definition ast_soundness_categories :: "string list" where
  "ast_soundness_categories = [asm_clobber, attrs_unknown]"

type_synonym category_map = "(string, nat \<times> json list) kv"

text \<open>One more site of a category, its location kept while there is room in the sample.\<close>

definition count_site :: "json \<Rightarrow> nat \<times> json list \<Rightarrow> nat \<times> json list" where
  "count_site location entry =
     (Suc (fst entry),
      if length (snd entry) < ast_diagnostic_sample then snd entry @ [location] else snd entry)"

definition record_warning :: "string \<Rightarrow> string \<Rightarrow> string \<Rightarrow> category_map \<Rightarrow> category_map" where
  "record_warning cwd category source m = bt_entry category (0, []) (count_site (log_location source cwd)) m"

record log_state =
  ls_categories :: category_map
  ls_attributes :: "(string, string) kv"
  ls_pending :: "string option"

definition note_attribute :: "string \<Rightarrow> string \<Rightarrow> log_state \<Rightarrow> log_state" where
  "note_attribute name source st =
     st\<lparr>ls_attributes := bt_entry (trim name) source (\<lambda>x. x) (ls_attributes st), ls_pending := None\<rparr>"

definition log_line :: "string \<Rightarrow> log_state \<Rightarrow> string \<Rightarrow> log_state" where
  "log_line cwd st line =
     (case warning_line_fields line of
        Some (category, source) \<Rightarrow>
          if category = attrs_unknown
          then (case split_once attribute_prefix line of
                  Some (_, name) \<Rightarrow> note_attribute name source st
                | None \<Rightarrow> st\<lparr>ls_pending := Some source\<rparr>)
          else st\<lparr>ls_categories := record_warning cwd category source (ls_categories st), ls_pending := None\<rparr>
      | None \<Rightarrow>
          (case split_once attribute_prefix line of
             Some (_, name) \<Rightarrow> note_attribute name (unwrap_or (ls_pending st) []) st
           | None \<Rightarrow> st))"

definition scan_log :: "string \<Rightarrow> string list \<Rightarrow> log_state" where
  "scan_log cwd lines = foldl (log_line cwd) \<lparr>ls_categories = [], ls_attributes = [], ls_pending = None\<rparr> lines"

definition attribute_site :: "string \<Rightarrow> string \<times> string \<Rightarrow> json" where
  "attribute_site cwd = (\<lambda>(name, source).
     JObj [(''attribute'', JStr name), (''location'', log_location source cwd)])"

definition add_attributes :: "string \<Rightarrow> (string, string) kv \<Rightarrow> category_map \<Rightarrow> category_map" where
  "add_attributes cwd attributes m =
     fold (\<lambda>a. bt_entry attrs_unknown (0, []) (count_site (attribute_site cwd a))) attributes m"

definition diagnostic_categories :: "string \<Rightarrow> string list \<Rightarrow> category_map" where
  "diagnostic_categories cwd lines =
     (let st = scan_log cwd lines
      in fold (\<lambda>c. bt_entry c (0, []) (\<lambda>x. x)) ast_soundness_categories
           (add_attributes cwd (ls_attributes st) (ls_categories st)))"

definition category_json :: "string \<times> nat \<times> json list \<Rightarrow> string \<times> json" where
  "category_json = (\<lambda>(category, count, locations).
     (category, JObj [(''count'', jnat count),
        (''count_unit'', JStr (if category = attrs_unknown then ''distinct_attribute_names'' else ''sites'')),
        (''locations_omitted'', jnat (count - length locations)),
        (''locations'', JArr locations)]))"

definition ast_parse_diagnostics :: "bytes \<Rightarrow> u64 \<Rightarrow> string \<Rightarrow> json" where
  "ast_parse_diagnostics log n cwd =
     JObj [(''categories'',
        JObj (map category_json (diagnostic_categories cwd (str_lines (utf8_lossy (take (unat n) log))))))]"

definition parse_log_unavailable :: "string \<Rightarrow> json" where
  "parse_log_unavailable reason = JObj [(''unavailable'', JStr reason), (''categories'', JObj [])]"

definition unreadable_parse_log :: "string \<Rightarrow> string \<Rightarrow> json" where
  "unreadable_parse_log path error =
     parse_log_unavailable (''cannot read the Frama-C stdout log at '' @ path @ '': '' @ error)"

section \<open>Why a file does not parse\<close>

record parse_block =
  pb_cause :: string
  pb_subject :: "string option"
  pb_message :: string

datatype parse_probe = Parsed | Blocked parse_block

definition includes_header :: "string \<Rightarrow> string \<Rightarrow> bool" where
  "includes_header line header =
     (case find_char (CHR ''#'') line of
        None \<Rightarrow> False
      | Some hash \<Rightarrow> starts_with (trim_start (drop (hash + 1) line)) ''include'' \<and> str_contains line header)"

definition is_alphanumeric :: "(string \<Rightarrow> bool) \<Rightarrow> string \<Rightarrow> bool" where
  "is_alphanumeric alphanumeric c =
     (case c of [a] \<Rightarrow> is_ascii_alphanumeric a | _ \<Rightarrow> alphanumeric c)"

definition undeclared_name :: "(string \<Rightarrow> bool) \<Rightarrow> string \<Rightarrow> string option" where
  "undeclared_name alphanumeric line =
     (case split_once ''Cannot resolve variable '' line of
        None \<Rightarrow> None
      | Some (_, rest) \<Rightarrow>
          (let name = concat (takeWhile (\<lambda>c. is_alphanumeric alphanumeric c \<or> c = ''_'') (chars_of rest))
           in if name = [] then None else Some name))"

definition names_an_error :: "string \<Rightarrow> bool" where
  "names_an_error line =
     (let lower = map to_ascii_lowercase line
      in str_contains lower ''user error'' \<or> str_contains lower ''error:'')"

definition continues_message :: "string \<Rightarrow> bool" where
  "continues_message line \<longleftrightarrow> ws_prefix line \<noteq> None \<and> trim line \<noteq> []"

definition unclassified_message :: "string \<Rightarrow> string" where
  "unclassified_message output =
     (case dropWhile (\<lambda>line. \<not> names_an_error line) (str_lines output) of
        [] \<Rightarrow> []
      | head # rest \<Rightarrow> join '' '' (map trim (head # take 4 (takeWhile continues_message rest))))"

definition missing_header_in :: "string \<Rightarrow> string list \<Rightarrow> string option" where
  "missing_header_in line after =
     or_else (missing_header_name line)
       (case missing_extensionless_name line of
          None \<Rightarrow> None
        | Some header \<Rightarrow> if list_ex (\<lambda>l. includes_header l header) (take 2 after) then Some header else None)"

fun classify_lines :: "(string \<Rightarrow> bool) \<Rightarrow> string list \<Rightarrow> parse_block option" where
  "classify_lines alphanumeric [] = None"
| "classify_lines alphanumeric (line # after) =
     (case missing_header_in line after of
        Some header \<Rightarrow>
          Some \<lparr>pb_cause = ''header_not_found'', pb_subject = Some header, pb_message = trim line\<rparr>
      | None \<Rightarrow>
          (case undeclared_name alphanumeric line of
             Some name \<Rightarrow> Some \<lparr>pb_cause = ''undeclared_name'', pb_subject = Some name, pb_message = trim line\<rparr>
           | None \<Rightarrow> classify_lines alphanumeric after))"

definition classify_parse_failure :: "(string \<Rightarrow> bool) \<Rightarrow> string \<Rightarrow> parse_block" where
  "classify_parse_failure alphanumeric output =
     unwrap_or (classify_lines alphanumeric (str_lines output))
       \<lparr>pb_cause = ''other'', pb_subject = None, pb_message = unclassified_message output\<rparr>"

section \<open>The parse surface\<close>

text \<open>What running Frama-C on a file comes to: an exit status with both outputs, or neither.\<close>

datatype probe_run = Exited bool bytes bytes | Not_Started string | Timed_Out

definition parse_probe_budget_secs :: nat where
  "parse_probe_budget_secs = 120"

definition probe_parse ::
    "(string \<Rightarrow> bool) \<Rightarrow> (string \<Rightarrow> bool) \<Rightarrow> (string list \<Rightarrow> probe_run) \<Rightarrow> string \<Rightarrow> string list \<Rightarrow> string \<Rightarrow> parse_probe" where
  "probe_parse alphanumeric is_file run program args f =
     (if \<not> is_file f
      then Blocked \<lparr>pb_cause = ''missing_file'', pb_subject = None, pb_message = f @ '' is not a file''\<rparr>
      else (case run (program # args @ [''-no-autoload-plugins'', f]) of
          Exited success out err \<Rightarrow>
            if success then Parsed
            else Blocked (classify_parse_failure alphanumeric (utf8_lossy out @ [CHR 0x0A] @ utf8_lossy err))
        | Not_Started e \<Rightarrow>
            Blocked \<lparr>pb_cause = ''probe_failed'', pb_subject = None,
              pb_message = ''could not run '' @ program @ '': '' @ e\<rparr>
        | Timed_Out \<Rightarrow>
            Blocked \<lparr>pb_cause = ''timeout'', pb_subject = None,
              pb_message = ''the parse did not finish in '' @ show_nat parse_probe_budget_secs @ ''s''\<rparr>))"

type_synonym cause_map = "(string \<times> string, string list) kv"

definition cause_key :: "parse_block \<Rightarrow> string \<times> string" where
  "cause_key b = (pb_cause b, unwrap_or (pb_subject b) [])"

definition add_cause :: "string \<times> parse_probe \<Rightarrow> cause_map \<Rightarrow> cause_map" where
  "add_cause = (\<lambda>(f, probe) causes.
     case probe of Parsed \<Rightarrow> causes
     | Blocked b \<Rightarrow> bt_entry (cause_key b) [] (\<lambda>fs. fs @ [f]) causes)"

definition causes_of :: "(string \<times> parse_probe) list \<Rightarrow> cause_map" where
  "causes_of probed = fold add_cause probed []"

definition probe_json :: "string \<times> parse_probe \<Rightarrow> json" where
  "probe_json = (\<lambda>(f, probe).
     case probe of
       Parsed \<Rightarrow> JObj [(''file'', JStr f), (''parses'', JBool True)]
     | Blocked b \<Rightarrow> JObj [(''file'', JStr f), (''parses'', JBool False), (''cause'', JStr (pb_cause b)),
         (''subject'', jopt JStr (pb_subject b)), (''message'', JStr (pb_message b))])"

definition subject_of :: "string \<Rightarrow> string option" where
  "subject_of subject = (if subject = [] then None else Some subject)"

definition group_json :: "(string \<times> string) \<times> string list \<Rightarrow> json" where
  "group_json = (\<lambda>((cause, subject), fs).
     JObj [(''cause'', JStr cause), (''subject'', jopt JStr (subject_of subject)),
       (''files'', jnat (length fs)), (''example'', jopt JStr (case fs of [] \<Rightarrow> None | f # _ \<Rightarrow> Some f))])"

text \<open>The largest group first; groups of one size by subject, one without a subject before the others.\<close>

definition group_rank :: "(string \<times> string) \<times> string list \<Rightarrow> int \<times> string list" where
  "group_rank = (\<lambda>((cause, subject), fs). (- int (length fs), taken (subject_of subject)))"

definition blocked_groups :: "(string \<times> parse_probe) list \<Rightarrow> cause_map" where
  "blocked_groups probed = sort_key group_rank (causes_of probed)"

definition surface_reason :: "string \<Rightarrow> string \<Rightarrow> string \<Rightarrow> string" where
  "surface_reason cause subject n =
     (if cause = ''header_not_found''
      then subject @ '' was not found on the include path and blocks '' @ n @
        '' of these files. Two different things look like this. If it belongs to this project, the include path is short an entry and no stub is called for. If it is a system header Frama-C'' @ [apostrophe] @
        ''s libc does not model, writing one that declares only what this tree calls does not model it either: the analysis would reason about bodies that do not exist, and a proof resting on that is worth less than no proof. Check which it is before writing anything.''
      else if cause = ''undeclared_name''
      then subject @ '' is declared nowhere the analyzer can see and blocks '' @ n @
        '' of these files. This is the case a stub answers honestly: declare it as the platform declares it, with the same type.''
      else if cause = ''timeout''
      then n @ '' of these files did not finish parsing. That is a front end problem rather than a missing declaration; read one of them directly.''
      else if cause = ''missing_file''
      then n @ '' of these paths are not files. Nothing was measured for them, so they are not evidence either way about what parses; check how the list was built.''
      else ''The largest group is '' @ cause @ '', blocking '' @ n @
        '' of these files. Its message is in the per-file list, which detail: '' @ dquoted ''full'' @
        '' returns; read it before deciding what it is.'')"

definition parse_surface_next_action :: "json list \<Rightarrow> json" where
  "parse_surface_next_action groups =
     (case groups of
        [] \<Rightarrow> JObj [(''tool'', JNull), (''args'', JObj []),
          (''reason'', JStr ''Every file parsed under these flags.''), (''blockers'', JArr []),
          (''confidence'', JStr ''high'')]
      | g # _ \<Rightarrow>
          (let cause = unwrap_or (get_str g ''cause'') ''other'';
               subject = unwrap_or (get_str g ''subject'') [];
               n = unwrap_or (as_u64 (jindex g ''files'')) 0
           in JObj [(''tool'', JNull), (''args'', JObj []),
                (''reason'', JStr (surface_reason cause subject (show_nat (unat n)))),
                (''blockers'', jstrs [cause]), (''confidence'', JStr ''medium'')]))"

definition parses :: "string \<times> parse_probe \<Rightarrow> bool" where
  "parses p \<longleftrightarrow> snd p = Parsed"

definition parse_surface_payload :: "(string \<times> parse_probe) list \<Rightarrow> bool \<Rightarrow> json" where
  "parse_surface_payload probed full =
     (let parsed = length (filter parses probed);
          groups = map group_json (blocked_groups probed)
      in JObj ([(''files_total'', jnat (length probed)), (''files_parsed'', jnat parsed),
           (''files_blocked'', jnat (length probed - parsed)), (''blocked_by'', JArr groups),
           (''next_action'', parse_surface_next_action groups)] @
           (if full then [(''files'', JArr (map probe_json probed))] else [])))"

record surface_params =
  pp_files :: "string list option"
  pp_include_paths :: "string list option"
  pp_defines :: "string list option"
  pp_force_includes :: "string list option"
  pp_machdep :: "string option"
  pp_isystem_paths :: "string list option"
  pp_nostdinc :: "bool option"
  pp_full :: bool

definition surface_options :: "surface_params \<Rightarrow> project_load_options" where
  "surface_options p =
     \<lparr>po_include_paths = unwrap_or (pp_include_paths p) [], po_defines = unwrap_or (pp_defines p) [],
      po_force_includes = unwrap_or (pp_force_includes p) [], po_machdep = pp_machdep p,
      po_compilation_database = None, po_rte = False, po_isystem_paths = unwrap_or (pp_isystem_paths p) [],
      po_nostdinc = unwrap_or (pp_nostdinc p) False, po_unsigned_rte_skipped = False,
      po_pointer_rte_requested = False, po_builtin_models = None\<rparr>"

text \<open>
  The probes run at once and join in any order, given by \<open>joined\<close>; one that did not finish ends the
  call. The builtin header plays no part, as the options ask for none.
\<close>

type_synonym probe_result = "nat \<times> string \<times> parse_probe"

fun joined_results :: "(string + probe_result) list \<Rightarrow> mcp_error + probe_result list" where
  "joined_results [] = Inr []"
| "joined_results (Inl e # js) =
     Inl (mcp_error_of InternalError (''parse probe did not finish: '' @ e) None)"
| "joined_results (Inr r # js) =
     (case joined_results js of Inl e \<Rightarrow> Inl e | Inr rs \<Rightarrow> Inr (r # rs))"

definition surface_probes ::
    "(string list \<Rightarrow> string \<Rightarrow> parse_probe) \<Rightarrow> string list \<Rightarrow> string list \<Rightarrow> probe_result list" where
  "surface_probes probe args files = map (\<lambda>(i, f). (i, f, probe args f)) (List.enumerate 0 files)"

definition parse_surface ::
    "(string list \<Rightarrow> string \<Rightarrow> parse_probe) \<Rightarrow> (probe_result list \<Rightarrow> (string + probe_result) list) \<Rightarrow>
     surface_params \<Rightarrow> mcp_error + json" where
  "parse_surface probe joined params =
     (let files = unwrap_or (pp_files params) []; opts = surface_options params
      in if files = []
         then Inl (mcp_error_of InvalidParams
           (''files must name at least one C source. Expand the set in the shell, as in '' @
            ''git ls-files '' @ dquoted ''src/*.c'' @ '', so which files were measured stays visible.'') None)
         else and_also (validate_project_options opts)
           (case joined_results (joined (surface_probes probe (project_cli_args None opts) files)) of
              Inl e \<Rightarrow> Inl e
            | Inr results \<Rightarrow>
                Inr (parse_surface_payload (map snd (sort_key fst results)) (pp_full params))))"

section \<open>What the report of a parse says\<close>

text \<open>The sources of the warnings of a category, in the order of the log, and the attributes it names.\<close>

definition warnings_of :: "string \<Rightarrow> string list \<Rightarrow> string list" where
  "warnings_of c lines =
     List.map_filter (\<lambda>l. case warning_line_fields l of
        Some (c', source) \<Rightarrow> if c' = c then Some source else None | None \<Rightarrow> None) lines"

definition names_attribute :: "string \<Rightarrow> string option" where
  "names_attribute l =
     (if map_option fst (warning_line_fields l) \<in> {None, Some attrs_unknown}
      then map_option (\<lambda>(_, name). trim name) (split_once attribute_prefix l) else None)"

definition attribute_names :: "string list \<Rightarrow> string list" where
  "attribute_names lines = List.map_filter names_attribute lines"

definition sample :: "json list \<Rightarrow> nat \<times> json list" where
  "sample xs = (length xs, take ast_diagnostic_sample xs)"

lemma sample_Nil: "sample [] = (0, [])"
  by (simp add: sample_def)

lemma count_site_sample: "count_site x (sample xs) = sample (xs @ [x])"
  by (simp add: count_site_def sample_def)

lemma count_site_first: "count_site x (0, []) = sample [x]"
  using count_site_sample [of x "[]"] by (simp add: sample_Nil)

lemma scan_log_snoc: "scan_log cwd (lines @ [l]) = log_line cwd (scan_log cwd lines) l"
  by (simp add: scan_log_def)

lemma warnings_of_snoc:
  "warnings_of c (lines @ [l]) =
     warnings_of c lines @ (case warning_line_fields l of
        Some (c', source) \<Rightarrow> if c' = c then [source] else [] | None \<Rightarrow> [])"
  by (auto simp: warnings_of_def List.map_filter_def split: option.splits)

lemma attribute_names_snoc:
  "attribute_names (lines @ [l]) = attribute_names lines @ taken (names_attribute l)"
  by (auto simp: attribute_names_def List.map_filter_def taken_def split: option.splits)

lemma categories_of_log:
  "map_of (ls_categories (scan_log cwd lines)) c =
     (if c = attrs_unknown \<or> warnings_of c lines = [] then None
      else Some (sample (map (\<lambda>s. log_location s cwd) (warnings_of c lines))))"
proof (induction lines rule: rev_induct)
  case Nil
  show ?case by (simp add: scan_log_def warnings_of_def)
next
  case (snoc l lines)
  show ?case
  proof (cases "warning_line_fields l")
    case None
    then show ?thesis
      using snoc by (auto simp: scan_log_snoc warnings_of_snoc log_line_def note_attribute_def split: option.splits)
  next
    case (Some cs)
    obtain c' source where cs: "cs = (c', source)" by (cases cs)
    show ?thesis
    proof (cases "c' = attrs_unknown")
      case True
      with Some cs snoc show ?thesis
        by (auto simp: scan_log_snoc warnings_of_snoc log_line_def note_attribute_def split: option.splits)
    next
      case False
      with Some cs snoc show ?thesis
        by (auto simp: scan_log_snoc warnings_of_snoc log_line_def record_warning_def count_site_first
            count_site_sample)
    qed
  qed
qed

lemma keys_bt_entry: "fst ` set (bt_entry k d f m) = insert k (fst ` set m)"
  by (simp add: bt_entry_def keys_bt_insert)

lemma attributes_of_log:
  "ordered (ls_attributes (scan_log cwd lines)) \<and>
   fst ` set (ls_attributes (scan_log cwd lines)) = set (attribute_names lines)"
proof (induction lines rule: rev_induct)
  case Nil
  show ?case by (simp add: scan_log_def attribute_names_def)
next
  case (snoc l lines)
  then show ?case
    by (auto simp: scan_log_snoc attribute_names_snoc names_attribute_def log_line_def note_attribute_def
        keys_bt_entry taken_def split: option.splits)
qed

lemma ordered_log_categories: "ordered (ls_categories (scan_log cwd lines))"
  by (induction lines rule: rev_induct)
    (auto simp: scan_log_def log_line_def note_attribute_def record_warning_def split: option.splits)

lemma ordered_length: "ordered m \<Longrightarrow> length m = card (fst ` set m)"
  using ordered_distinct [of m] distinct_card [of "map fst m"] by simp

lemma add_attributes_other:
  "c \<noteq> attrs_unknown \<Longrightarrow> map_of (add_attributes cwd as m) c = map_of m c"
  unfolding add_attributes_def by (induction as arbitrary: m) simp_all

lemma add_attributes_sample:
  "map_of m attrs_unknown = (if xs = [] then None else Some (sample xs)) \<Longrightarrow>
   map_of (add_attributes cwd as m) attrs_unknown =
     (if xs = [] \<and> as = [] then None else Some (sample (xs @ map (attribute_site cwd) as)))"
  unfolding add_attributes_def
proof (induction as arbitrary: m xs)
  case (Cons a as)
  have "map_of (bt_entry attrs_unknown (0, []) (count_site (attribute_site cwd a)) m) attrs_unknown
      = Some (sample (xs @ [attribute_site cwd a]))"
    using Cons.prems count_site_first by (auto simp: count_site_sample)
  then show ?case using Cons.IH [where xs = "xs @ [attribute_site cwd a]"] by simp
qed simp

lemma ordered_add_attributes: "ordered m \<Longrightarrow> ordered (add_attributes cwd as m)"
  unfolding add_attributes_def by (induction as arbitrary: m) simp_all

definition attribute_sites :: "string \<Rightarrow> string list \<Rightarrow> json list" where
  "attribute_sites cwd lines = map (attribute_site cwd) (ls_attributes (scan_log cwd lines))"

text \<open>C30: the report of a parse counts every warning line of the log under its category, and each attribute
  once; it shows the first twenty places of each category and the number left out, and names the two
  categories that bear on soundness even when nothing was reported in them.\<close>

theorem parse_report_exact:
  "ast_parse_diagnostics log n cwd =
     JObj [(''categories'', JObj (map category_json
        (diagnostic_categories cwd (str_lines (utf8_lossy (take (unat n) log))))))] \<and>
   ordered (diagnostic_categories cwd lines) \<and>
   length (attribute_sites cwd lines) = card (set (attribute_names lines)) \<and>
   map_of (diagnostic_categories cwd lines) c =
     (let sites = (if c = attrs_unknown then attribute_sites cwd lines
                   else map (\<lambda>s. log_location s cwd) (warnings_of c lines))
      in if sites = [] \<and> c \<noteq> asm_clobber \<and> c \<noteq> attrs_unknown then None
         else Some (length sites, take 20 sites))"
proof -
  let ?m = "add_attributes cwd (ls_attributes (scan_log cwd lines)) (ls_categories (scan_log cwd lines))"
  have names: "asm_clobber \<noteq> attrs_unknown" by (simp add: asm_clobber_def attrs_unknown_def)
  have attrs: "map_of ?m attrs_unknown =
      (if attribute_sites cwd lines = [] then None else Some (sample (attribute_sites cwd lines)))"
    using add_attributes_sample [of "ls_categories (scan_log cwd lines)" "[]"]
    by (simp add: categories_of_log attribute_sites_def)
  have "ordered (diagnostic_categories cwd lines)"
    by (simp add: diagnostic_categories_def Let_def ast_soundness_categories_def ordered_add_attributes
        ordered_log_categories)
  moreover have "length (attribute_sites cwd lines) = card (set (attribute_names lines))"
    using attributes_of_log [of cwd lines] by (simp add: attribute_sites_def ordered_length)
  moreover have "map_of (diagnostic_categories cwd lines) c =
      (let sites = (if c = attrs_unknown then attribute_sites cwd lines
                    else map (\<lambda>s. log_location s cwd) (warnings_of c lines))
       in if sites = [] \<and> c \<noteq> asm_clobber \<and> c \<noteq> attrs_unknown then None
          else Some (length sites, take 20 sites))"
    using names attrs
    by (auto simp: diagnostic_categories_def Let_def ast_soundness_categories_def add_attributes_other
        categories_of_log sample_def ast_diagnostic_sample_def)
  ultimately show ?thesis by (simp add: ast_parse_diagnostics_def)
qed

section \<open>What the parse surface says\<close>

definition blocked_as :: "string \<times> string \<Rightarrow> (string \<times> parse_probe) list \<Rightarrow> string list" where
  "blocked_as k probed =
     List.map_filter (\<lambda>(f, probe). case probe of Parsed \<Rightarrow> None
        | Blocked b \<Rightarrow> if cause_key b = k then Some f else None) probed"

lemma causes_of_snoc: "causes_of (ps @ [p]) = add_cause p (causes_of ps)"
  by (simp add: causes_of_def)

lemma map_of_causes:
  "map_of (causes_of probed) k = (if blocked_as k probed = [] then None else Some (blocked_as k probed))"
proof (induction probed rule: rev_induct)
  case Nil
  show ?case by (simp add: causes_of_def blocked_as_def)
next
  case (snoc p ps)
  then show ?case
    by (cases p) (auto simp: causes_of_snoc add_cause_def blocked_as_def List.map_filter_def split: parse_probe.splits)
qed

lemma ordered_causes: "ordered (causes_of probed)"
  by (induction probed rule: rev_induct)
    (auto simp: causes_of_def add_cause_def split: parse_probe.splits)

lemma sum_bt_insert:
  "ordered m \<Longrightarrow> sum_list (map (g \<circ> snd) (bt_insert k v m)) + (case map_of m k of None \<Rightarrow> 0 | Some w \<Rightarrow> g w)
     = sum_list (map (g \<circ> snd) m) + (g v :: nat)"
proof (induction k v m rule: bt_insert.induct)
  case (2 k v k' v' m)
  have "map_of m k = None" if "k < k'"
    using 2(2) that by (auto simp: ordered_def map_of_eq_None_iff dest: less_trans)
  then show ?case using 2 by (auto simp: ordered_def split: option.splits)
qed simp

lemma causes_count:
  "sum_list (map (length \<circ> snd) (causes_of probed)) + length (filter parses probed) = length probed"
proof (induction probed rule: rev_induct)
  case Nil
  show ?case by (simp add: causes_of_def)
next
  case (snoc p ps)
  obtain f probe where p: "p = (f, probe)" by (cases p)
  show ?case
  proof (cases probe)
    case Parsed
    with p snoc show ?thesis by (simp add: causes_of_snoc add_cause_def parses_def)
  next
    case (Blocked b)
    define old where "old = (case map_of (causes_of ps) (cause_key b) of None \<Rightarrow> [] | Some fs \<Rightarrow> fs)"
    have "sum_list (map (length \<circ> snd) (bt_insert (cause_key b) (old @ [f]) (causes_of ps))) + length old
        = sum_list (map (length \<circ> snd) (causes_of ps)) + length (old @ [f])"
      using sum_bt_insert [OF ordered_causes, of length "cause_key b" "old @ [f]" ps]
      by (simp add: old_def split: option.splits)
    with p Blocked snoc show ?thesis
      by (simp add: causes_of_snoc add_cause_def parses_def bt_entry_def old_def comp_def)
  qed
qed


lemma parse_surface_groups_sound:
  "k \<in> fst ` set (blocked_groups probed) \<longleftrightarrow> blocked_as k probed \<noteq> []"
proof -
  have "k \<in> fst ` set (causes_of probed) \<longleftrightarrow> map_of (causes_of probed) k \<noteq> None"
    by (simp add: map_of_eq_None_iff)
  then show ?thesis by (simp add: blocked_groups_def map_of_causes)
qed

lemma distinct_groups: "distinct (map fst (blocked_groups probed))"
proof -
  have "distinct (causes_of probed)" "inj_on fst (set (causes_of probed))"
    using ordered_distinct [OF ordered_causes, of probed] by (simp_all add: distinct_map)
  then show ?thesis by (simp add: blocked_groups_def distinct_map)
qed

lemma map_of_groups:
  "map_of (blocked_groups probed) k = (if blocked_as k probed = [] then None else Some (blocked_as k probed))"
proof -
  have "set (blocked_groups probed) = set (causes_of probed)" by (simp add: blocked_groups_def)
  then have "map_of (blocked_groups probed) = map_of (causes_of probed)"
    using map_of_inject_set [OF distinct_groups ordered_distinct [OF ordered_causes]] by blast
  then show ?thesis by (simp add: map_of_causes)
qed

lemma sum_sort_key: "sum_list (map (f :: 'a \<Rightarrow> nat) (sort_key g xs)) = sum_list (map f xs)"
proof -
  have "mset (map f (sort_key g xs)) = mset (map f xs)" by simp
  then show ?thesis by (metis sum_mset_sum_list)
qed

lemma groups_by_size: "sorted_wrt (\<lambda>g h. length (snd h) \<le> length (snd g)) (blocked_groups probed)"
proof -
  have "sorted_wrt (\<lambda>g h. group_rank g \<le> group_rank h) (blocked_groups probed)"
    using sorted_sort_key [of group_rank "causes_of probed"]
    by (simp add: blocked_groups_def sorted_map)
  then show ?thesis
    by (rule sorted_wrt_mono_rel [rotated]) (auto simp: group_rank_def split: prod.splits)
qed

text \<open>The groups of the parse surface account for every file: each file that does not parse is in the
  group of its cause and subject and in no other, the sizes of the groups and the files that parse add up
  to all of them, and no group is listed before a larger one.\<close>

theorem surface_accounts_for_every_file:
  "map_of (blocked_groups probed) k = (if blocked_as k probed = [] then None else Some (blocked_as k probed)) \<and>
   distinct (map fst (blocked_groups probed)) \<and>
   length (filter parses probed) + sum_list (map (length \<circ> snd) (blocked_groups probed)) = length probed \<and>
   sorted_wrt (\<lambda>g h. length (snd h) \<le> length (snd g)) (blocked_groups probed)"
  using map_of_groups distinct_groups causes_count [of probed] groups_by_size
  by (simp add: blocked_groups_def sum_sort_key)

lemma joined_Inr: "joined_results (map Inr rs) = Inr rs"
  by (induction rs) simp_all

lemma all_joined: "mset js = mset (map Inr rs) \<Longrightarrow> \<exists>rs'. js = map Inr rs' \<and> mset rs' = mset rs"
proof -
  assume m: "mset js = mset (map Inr rs)"
  then have "set js \<subseteq> range Inr" by (metis image_subset_iff mset_eq_setD rangeI set_map)
  then have "map (\<lambda>x. Inr (projr x)) js = js" by (intro map_idI) auto
  then have js: "js = map Inr (map projr js)" by (simp add: comp_def)
  have "mset (map projr js) = image_mset projr (mset js)" by simp
  also have "\<dots> = mset rs" using m by (simp add: multiset.map_comp comp_def)
  finally have "mset (map projr js) = mset rs" .
  with js show ?thesis by blast
qed

text \<open>The report of the parse surface does not depend on the order in which the probes finish: as long
  as each of them finishes, it is that of the files in the order they were asked for.\<close>

theorem surface_in_callers_order:
  assumes "mset (joined (surface_probes probe (project_cli_args None (surface_options params)) files))
      = mset (map Inr (surface_probes probe (project_cli_args None (surface_options params)) files))"
    and "pp_files params = Some files" "files \<noteq> []"
    and "validate_project_options (surface_options params) = Inr ()"
  shows "parse_surface probe joined params =
    Inr (parse_surface_payload (map (\<lambda>f. (f, probe (project_cli_args None (surface_options params)) f)) files)
      (pp_full params))"
proof -
  let ?ps = "surface_probes probe (project_cli_args None (surface_options params)) files"
  from all_joined [OF assms(1)] obtain rs where rs: "joined ?ps = map Inr rs" "mset rs = mset ?ps" by blast
  have keys: "map fst ?ps = [0..<length files]"
    by (simp add: surface_probes_def enumerate_eq_zip comp_def case_prod_unfold)
  then have "distinct (map fst ?ps)" "sorted (map fst ?ps)" by (simp_all only: distinct_upt sorted_upt)
  then have "sort_key fst rs = ?ps"
    by (intro sort_key_inj_key_eq [OF rs(2)]) (simp_all only: distinct_map mset_eq_setD [OF rs(2)])
  moreover have "map snd ?ps = map (\<lambda>f. (f, probe (project_cli_args None (surface_options params)) f)) files"
    by (rule nth_equalityI) (simp_all add: surface_probes_def enumerate_eq_zip case_prod_unfold)
  ultimately show ?thesis
    using assms(2-4) by (simp add: parse_surface_def Let_def rs(1) joined_Inr and_also_def)
qed


definition demo_surface :: surface_params where
  "demo_surface = \<lparr>pp_files = Some [''a.c'', ''b.c''], pp_include_paths = None, pp_defines = None,
     pp_force_includes = None, pp_machdep = None, pp_isystem_paths = None, pp_nostdinc = None, pp_full = True\<rparr>"

definition demo_probe :: "string list \<Rightarrow> string \<Rightarrow> parse_probe" where
  "demo_probe args f =
     (if f = ''a.c'' then Parsed
      else Blocked (classify_parse_failure (\<lambda>_. False) ''b.c:1:10: fatal error: x.h: No such file or directory''))"

lemma surface_in_callers_order_witness:
  "parse_surface demo_probe (\<lambda>xs. rev (map Inr xs)) demo_surface =
   Inr (parse_surface_payload [(''a.c'', Parsed),
     (''b.c'', Blocked \<lparr>pb_cause = ''header_not_found'', pb_subject = Some ''x.h'',
        pb_message = ''b.c:1:10: fatal error: x.h: No such file or directory''\<rparr>)] True)"
proof -
  have probes: "map (\<lambda>f. (f, demo_probe (project_cli_args None (surface_options demo_surface)) f)) [''a.c'', ''b.c''] =
     [(''a.c'', Parsed),
      (''b.c'', Blocked \<lparr>pb_cause = ''header_not_found'', pb_subject = Some ''x.h'',
        pb_message = ''b.c:1:10: fatal error: x.h: No such file or directory''\<rparr>)]"
    by code_simp
  have valid: "validate_project_options (surface_options demo_surface) = Inr ()" by code_simp
  show ?thesis
    unfolding probes [symmetric]
    using surface_in_callers_order [where joined = "\<lambda>xs. rev (map Inr xs)" and probe = demo_probe
        and params = demo_surface and files = "[''a.c'', ''b.c'']", OF _ _ _ valid]
    by (simp add: demo_surface_def)
qed

end
