(* ===== verification/Reload.thy ===== *)
theory Reload
  imports Parse_Log
begin

text \<open>
  \<open>reload_project\<close> and the process behind it (src/src/mcp/project.rs, \<open>ensure_main_spawned\<close> of
  src/src/mcp/server.rs): the digest of the loaded sources, when the running process can be kept, what a
  new one needs, the health check and the markers that moved. Files change while the server works, so
  what a file holds is a function of the number of times the sources were read; spawning, the log and
  the failures of the transport are parameters of \<open>load_env\<close>.
\<close>

section \<open>The digest of the sources\<close>

type_synonym lookbehind = "char \<times> char"

definition directive_byte :: "char \<Rightarrow> lookbehind \<Rightarrow> bool" where
  "directive_byte c previous \<longleftrightarrow>
     c = CHR ''#'' \<or> (c = CHR '':'' \<and> snd previous = CHR ''%'') \<or>
     (c = CHR ''='' \<and> snd previous = CHR ''?'' \<and> fst previous = CHR ''?'')"

fun starts_a_directive :: "bytes \<Rightarrow> lookbehind \<Rightarrow> bool \<times> lookbehind" where
  "starts_a_directive [] previous = (False, previous)"
| "starts_a_directive (c # chunk) previous =
     (if directive_byte c previous then (True, previous)
      else starts_a_directive chunk (snd previous, c))"

fun directive_in_chunks :: "bytes list \<Rightarrow> lookbehind \<Rightarrow> bool" where
  "directive_in_chunks [] previous = False"
| "directive_in_chunks (chunk # chunks) previous =
     (case starts_a_directive chunk previous of
        (True, _) \<Rightarrow> True
      | (False, p) \<Rightarrow> directive_in_chunks chunks p)"

text \<open>A file as its reader delivers it: an error, or the time it was written and the chunks read.\<close>

type_synonym file_read = "string + nat option \<times> bytes list"
type_synonym sources = "string \<Rightarrow> file_read"

definition sha256_hex_of_reader :: "(bytes \<Rightarrow> string) \<Rightarrow> bytes list \<Rightarrow> string \<times> bool" where
  "sha256_hex_of_reader sha chunks = (sha (concat chunks), directive_in_chunks chunks (CHR 0x00, CHR 0x00))"

definition show_time :: "nat option \<Rightarrow> string" where
  "show_time t = (case t of None \<Rightarrow> ''None'' | Some n \<Rightarrow> ''Some('' @ show_nat n @ '')'')"

definition hash_named_file :: "(bytes \<Rightarrow> string) \<Rightarrow> sources \<Rightarrow> string \<Rightarrow> bytes \<times> bool" where
  "hash_named_file sha disk name =
     (case disk name of
        Inr (written, chunks) \<Rightarrow>
          (case sha256_hex_of_reader sha chunks of
             (digest, has_hash) \<Rightarrow> (name @ show_time written @ digest @ [CHR 0x00], has_hash))
      | Inl error \<Rightarrow> (name @ error @ [CHR 0x00], True))"

definition loaded_source_state ::
    "(bytes \<Rightarrow> string) \<Rightarrow> sources \<Rightarrow> string list \<Rightarrow> string option \<Rightarrow> string \<times> bool" where
  "loaded_source_state sha disk files machdep =
     (let hashed = map (hash_named_file sha disk) files
      in (sha (concat (map fst hashed) @
            (case machdep of None \<Rightarrow> [] | Some m \<Rightarrow> fst (hash_named_file sha disk m))),
          list_ex snd hashed))"

definition machdep_digest :: "(bytes \<Rightarrow> string) \<Rightarrow> sources \<Rightarrow> string option \<Rightarrow> string option" where
  "machdep_digest sha disk machdep =
     Option.bind machdep (\<lambda>m. case disk m of Inl _ \<Rightarrow> None | Inr (_, chunks) \<Rightarrow>
       Some (fst (sha256_hex_of_reader sha chunks)))"

section \<open>The process and the environment\<close>

record main_state =
  ms_process :: nat
  ms_files :: "string list"
  ms_options :: project_load_options
  ms_log_end :: u64
  ms_digest :: string
  ms_diagnostics :: "json option"
  ms_working_dir :: string
  ms_poisoned :: bool

record project_server =
  pr_server :: server
  pr_main :: "main_state option"
  pr_locked :: bool
  pr_reads :: nat
  pr_spawns :: nat

text \<open>How starting a process ends; of a process that listens, the size of its log is known or not.\<close>

datatype spawn_outcome =
    Log_Dir_Error string
  | Tmp_Dir_Error string
  | Spawn_Error mcp_error
  | Connect_Error string string
  | Listening "string + u64"

record load_env =
  le_server :: server_env
  le_disk :: "nat \<Rightarrow> sources"
  le_finishes :: "nat \<Rightarrow> bool"
  le_sha256_hex :: "bytes \<Rightarrow> string"
  le_spawn :: "nat \<Rightarrow> string list \<Rightarrow> spawn_outcome"
  le_log :: "nat \<Rightarrow> call list \<Rightarrow> string + bytes"
  le_log_path :: "nat \<Rightarrow> string"
  le_pid :: nat
  le_cwd :: string
  le_client_poisoned :: "nat \<Rightarrow> call list \<Rightarrow> bool"
  le_builtin_header :: "string option"
  le_builtin_digest :: string
  le_frama_c_path :: string
  le_wp_provers :: string
  le_wp_model :: string
  le_database :: "nat \<Rightarrow> string \<Rightarrow> string + string"
  le_parse :: "string \<Rightarrow> string + json"
  le_refusal_text :: "profile_refusal \<Rightarrow> string"
  le_decode :: "json \<Rightarrow> string + verification_profile"

type_synonym 'a action = "project_server \<Rightarrow> (mcp_error + 'a) \<times> project_server"

text \<open>A step on a state of any type: its failure ends the handler, keeping what was done so far.\<close>

type_synonym ('s, 'a) step = "'s \<Rightarrow> (mcp_error + 'a) \<times> 's"

definition andThen :: "('s, 'a) step \<Rightarrow> ('a \<Rightarrow> ('s, 'b) step) \<Rightarrow> ('s, 'b) step" where
  "andThen m f s = (case m s of (Inl e, s') \<Rightarrow> (Inl e, s') | (Inr a, s') \<Rightarrow> f a s')"

definition answer :: "mcp_error + 'a \<Rightarrow> ('s, 'a) step" where
  "answer a s = (a, s)"

lemma andThen_Inr: "andThen m f s = (Inr b, t) \<longleftrightarrow> (\<exists>a s'. m s = (Inr a, s') \<and> f a s' = (Inr b, t))"
  by (auto simp: andThen_def split: prod.splits sum.splits)

lemma answer_Inr: "answer a s = (Inr b, t) \<longleftrightarrow> a = Inr b \<and> t = s"
  by (auto simp: answer_def)

definition on_session :: "(session_state \<Rightarrow> session_state) \<Rightarrow> project_server \<Rightarrow> project_server" where
  "on_session f s = s\<lparr>pr_server := pr_server s\<lparr>srv_session := f (srv_session (pr_server s))\<rparr>\<rparr>"

definition on_main :: "(main_state \<Rightarrow> main_state) \<Rightarrow> project_server \<Rightarrow> project_server" where
  "on_main f s = s\<lparr>pr_main := map_option f (pr_main s)\<rparr>"

definition main_call :: "request_kind \<Rightarrow> string \<Rightarrow> json \<Rightarrow> call" where
  "main_call kind endpoint data =
     \<lparr>call_client = MainClient, call_kind = kind, call_endpoint = endpoint, call_data = data\<rparr>"

text \<open>A request to the main process, its failure as it is or turned into a tool error.\<close>

definition ask :: "load_env \<Rightarrow> request_kind \<Rightarrow> string \<Rightarrow> json \<Rightarrow> project_server \<Rightarrow> (frama_c_error + json) \<times> project_server" where
  "ask E kind endpoint data s =
     (case send (le_server E) (main_call kind endpoint data) (pr_server s) of
        (r, sv) \<Rightarrow> (r, s\<lparr>pr_server := sv\<rparr>))"

definition ask_or :: "(frama_c_error \<Rightarrow> mcp_error) \<Rightarrow> load_env \<Rightarrow> request_kind \<Rightarrow> string \<Rightarrow> json \<Rightarrow> json action" where
  "ask_or error E kind endpoint data s =
     (case ask E kind endpoint data s of (Inl e, s') \<Rightarrow> (Inl (error e), s') | (Inr v, s') \<Rightarrow> (Inr v, s'))"

definition ask_mcp :: "load_env \<Rightarrow> request_kind \<Rightarrow> string \<Rightarrow> json \<Rightarrow> json action" where
  "ask_mcp E = ask_or (to_mcp_error (texts (le_server E))) E"

definition rows :: "json \<Rightarrow> json list" where
  "rows v = unwrap_or (as_array v) []"

definition reload_fetch :: "load_env \<Rightarrow> string \<Rightarrow> string \<Rightarrow> json list action" where
  "reload_fetch E reload_request fetch_request =
     andThen (ask_mcp E Get reload_request JNull)
       (\<lambda>_. andThen (ask_mcp E FetchAll fetch_request JNull) (\<lambda>v. answer (Inr (rows v))))"

definition source_identity :: "load_env \<Rightarrow> nat \<Rightarrow> string list \<Rightarrow> string option \<Rightarrow> string \<times> bool" where
  "source_identity E n files machdep =
     (if le_finishes E n then loaded_source_state (le_sha256_hex E) (le_disk E n) files machdep else ([], True))"

definition read_identity ::
    "load_env \<Rightarrow> string list \<Rightarrow> string option \<Rightarrow> project_server \<Rightarrow> (string \<times> bool) \<times> project_server" where
  "read_identity E files machdep s =
     (source_identity E (pr_reads s) files machdep, s\<lparr>pr_reads := pr_reads s + 1\<rparr>)"

section \<open>Where markers are\<close>

definition marker_file_line :: "json option \<Rightarrow> string option \<times> u64 option" where
  "marker_file_line location =
     (Option.bind location (\<lambda>l. get_str l ''file''),
      Option.bind location (\<lambda>l. Option.bind (jget l ''line'') as_u64))"

definition function_locations_of :: "json \<Rightarrow> (string \<times> marker_location) list" where
  "function_locations_of entry =
     (let declaration = get_str entry ''decl'';
          place = marker_file_line (jget entry ''sloc'')
      in map (\<lambda>marker. (marker,
             \<lparr>ml_marker_kind = ''function'', ml_marker = marker, ml_function_marker = declaration,
              ml_function_name = get_str entry ''name'', ml_kinstr_marker = None,
              ml_source_file = fst place, ml_source_line = snd place\<rparr>))
           (taken declaration @ taken (get_str entry ''key'')))"

definition insert_all :: "('k \<times> 'v) list \<Rightarrow> ('k, 'v) kv \<Rightarrow> ('k, 'v) kv" where
  "insert_all ps m = fold (\<lambda>(k, v). AList.update k v) ps m"

definition function_marker_locations :: "json list \<Rightarrow> (string, marker_location) kv" where
  "function_marker_locations entries = insert_all (concat (map function_locations_of entries)) []"

definition property_location :: "(string, string) kv \<Rightarrow> json \<Rightarrow> (string \<times> marker_location) option" where
  "property_location function_names property =
     (case value_marker property of
        None \<Rightarrow> None
      | Some marker \<Rightarrow>
          (let function_marker = get_str property ''scope'';
               place = marker_file_line
                 (or_else (jget property ''source_location'')
                    (or_else (jget property ''source'') (jget property ''loc'')))
           in Some (marker,
                \<lparr>ml_marker_kind = ''property'', ml_marker = marker, ml_function_marker = function_marker,
                 ml_function_name = Option.bind function_marker (map_of function_names),
                 ml_kinstr_marker =
                   Option.bind (or_else (jget property ''kinstr_marker'') (jget property ''kinstr'')) as_str,
                 ml_source_file = fst place, ml_source_line = snd place\<rparr>)))"

definition property_marker_locations ::
    "json list \<Rightarrow> (string, string) kv \<Rightarrow> (string, marker_location) kv" where
  "property_marker_locations properties function_names =
     insert_all (List.map_filter (property_location function_names) properties) []"

definition function_names_of :: "json list \<Rightarrow> (string, string) kv" where
  "function_names_of functions =
     insert_all (List.map_filter (\<lambda>f. case (get_str f ''decl'', get_str f ''name'') of
        (Some d, Some n) \<Rightarrow> Some (d, n) | _ \<Rightarrow> None) functions) []"

definition marker_location_snapshot :: "load_env \<Rightarrow> (string, marker_location) kv action" where
  "marker_location_snapshot E =
     andThen (reload_fetch E ''kernel.ast.reloadFunctions'' ''kernel.ast.fetchFunctions'')
       (\<lambda>functions. andThen (reload_fetch E ''kernel.properties.reloadStatus'' ''kernel.properties.fetchStatus'')
         (\<lambda>properties. answer (Inr
            (insert_all (property_marker_locations (map add_identity_fields properties) (function_names_of functions))
               (function_marker_locations functions)))))"

definition missing_marker :: "string \<Rightarrow> marker_location" where
  "missing_marker marker =
     \<lparr>ml_marker_kind = ''missing'', ml_marker = marker, ml_function_marker = None, ml_function_name = None,
      ml_kinstr_marker = None, ml_source_file = None, ml_source_line = None\<rparr>"

definition stale_marker_locations ::
    "(string, marker_location) kv \<Rightarrow> (string, marker_location) kv \<Rightarrow> (string, stale_marker) kv" where
  "stale_marker_locations previous current =
     bt_collect (List.map_filter (\<lambda>(marker, old).
       let new = unwrap_or (map_of current marker) (missing_marker marker)
       in if old \<noteq> new then Some (marker, \<lparr>sm_previous = old, sm_current = new\<rparr>) else None) previous)"

text \<open>\<open>.await.ok()\<close>.\<close>

definition snapshot_ok :: "load_env \<Rightarrow> project_server \<Rightarrow> (string, marker_location) kv option \<times> project_server" where
  "snapshot_ok E s =
     (case marker_location_snapshot E s of (Inl _, s') \<Rightarrow> (None, s') | (Inr m, s') \<Rightarrow> (Some m, s'))"

section \<open>The process that holds the project\<close>

definition parse_record_survives :: "main_state \<Rightarrow> string \<times> bool \<Rightarrow> bool" where
  "parse_record_survives m identity \<longleftrightarrow>
     \<not> names_bytes_outside_the_file_set (ms_options m) \<and> \<not> snd identity \<and> fst identity = ms_digest m"

definition client_is_poisoned :: "load_env \<Rightarrow> project_server \<Rightarrow> bool" where
  "client_is_poisoned E s \<longleftrightarrow>
     (case pr_main s of None \<Rightarrow> False
      | Some m \<Rightarrow> srv_main (pr_server s) \<and> le_client_poisoned E (ms_process m) (srv_calls (pr_server s)))"

definition needs_respawn ::
    "load_env \<Rightarrow> project_load_options \<Rightarrow> string \<times> bool \<Rightarrow> project_server \<Rightarrow> bool" where
  "needs_respawn E opts identity s =
     (case pr_main s of
        None \<Rightarrow> True
      | Some m \<Rightarrow> ms_poisoned m \<or> ms_options m \<noteq> opts \<or> client_is_poisoned E s \<or>
          \<not> parse_record_survives m identity)"

definition reload_files_in_place :: "load_env \<Rightarrow> string list \<Rightarrow> unit action" where
  "reload_files_in_place E files =
     andThen (ask_mcp E Put ''kernel.ast.setFiles'' (JArr []))
       (\<lambda>_. andThen (ask_mcp E Put ''kernel.ast.setFiles'' (jstrs files))
         (\<lambda>_. andThen (ask_mcp E Exec ''kernel.ast.compute'' JNull) (\<lambda>_. answer (Inr ()))))"

definition changed_while_rebuilding :: json where
  "changed_while_rebuilding =
     parse_log_unavailable
       (''the sources changed while Frama-C was rebuilding the AST, so no '' @ ''parse record describes it'')"

definition project_loaded_is :: "bool \<Rightarrow> session_state \<Rightarrow> session_state" where
  "project_loaded_is b st = st\<lparr>ss_project_loaded := b\<rparr>"

definition reload_in_place :: "load_env \<Rightarrow> string list \<Rightarrow> project_load_options \<Rightarrow> unit action" where
  "reload_in_place E files opts s =
     (case reload_files_in_place E files s of
        (Inl e, s') \<Rightarrow>
          (Inl e, on_session (project_loaded_is False) (on_main (\<lambda>m. m\<lparr>ms_poisoned := True\<rparr>) s'))
      | (Inr _, s') \<Rightarrow>
          (case read_identity E files (po_machdep opts) s' of
             (reparsed, s'') \<Rightarrow>
               (Inr (), on_session (project_loaded_is True)
                 (on_main (\<lambda>m. (if fst reparsed \<noteq> ms_digest m
                      then m\<lparr>ms_diagnostics := Some changed_while_rebuilding, ms_poisoned := True\<rparr>
                      else m)\<lparr>ms_files := files\<rparr>) s''))))"

definition boot_parse_window :: "string \<Rightarrow> string + u64 \<Rightarrow> string \<Rightarrow> string \<Rightarrow> u64 \<times> json option" where
  "boot_parse_window log_path log_size parsed booted_on =
     (let missing = (case log_size of
          Inl error \<Rightarrow>
            Some (''cannot measure the boot parse in the Frama-C stdout log at '' @ log_path @ '': '' @ error)
        | Inr n \<Rightarrow>
            if n = 0
            then Some (''Frama-C had written nothing to its log when the socket appeared, so this server '' @
                       ''never saw the boot parse'')
            else if parsed \<noteq> booted_on
            then Some ''the sources changed while Frama-C was starting, so no boot parse describes them''
            else None)
      in ((case log_size of Inl _ \<Rightarrow> 0 | Inr n \<Rightarrow> n), map_option parse_log_unavailable missing))"

definition socket_path_of :: "load_env \<Rightarrow> nat \<Rightarrow> string" where
  "socket_path_of E spawn_id = ''/tmp/frama-c-mcp-'' @ show_nat (le_pid E) @ ''-'' @ show_nat spawn_id @ ''.sock''"

definition main_frama_c_command_line ::
    "load_env \<Rightarrow> string list \<Rightarrow> project_load_options \<Rightarrow> string \<Rightarrow> string list" where
  "main_frama_c_command_line E files opts socket_path =
     main_frama_c_args (le_builtin_header E) (le_wp_provers E) (le_wp_model E) (le_frama_c_path E) files opts
       socket_path"

definition connect_failure :: "string \<Rightarrow> string \<Rightarrow> mcp_error" where
  "connect_failure reason tail =
     (let message = ''connect to new frama-c: '' @ reason @ [CHR 0x0A] @ ''output:'' @ [CHR 0x0A] @ tail
      in unwrap_or (missing_header_startup_error message) (mcp_error_of InternalError message None))"

text \<open>The state a process that listens gets; \<open>booted_on\<close> is what was read before it was started.\<close>

definition adopt_process ::
    "load_env \<Rightarrow> nat \<Rightarrow> string list \<Rightarrow> project_load_options \<Rightarrow> string + u64 \<Rightarrow> string \<Rightarrow> unit action" where
  "adopt_process E spawn_id files opts log_size booted_on s =
     (let s1 = snd (ask E Put ''kernel.services.setLogs'' (JBool True) s)
      in case read_identity E files (po_machdep opts) s1 of
           (parsed, s2) \<Rightarrow>
             (case boot_parse_window (le_log_path E spawn_id) log_size (fst parsed) booted_on of
                (log_end, diagnostics) \<Rightarrow>
                  (let m = \<lparr>ms_process = spawn_id, ms_files = files, ms_options = opts, ms_log_end = log_end,
                            ms_digest = booted_on, ms_diagnostics = diagnostics, ms_working_dir = le_cwd E,
                            ms_poisoned = (diagnostics \<noteq> None)\<rparr>
                   in (Inr (), on_session (project_loaded_is True)
                         (s2\<lparr>pr_main := Some m, pr_server := (pr_server s2)\<lparr>srv_main := True\<rparr>\<rparr>)))))"

definition spawn_main ::
    "load_env \<Rightarrow> string list \<Rightarrow> project_load_options \<Rightarrow> string \<Rightarrow> unit action" where
  "spawn_main E files opts booted_on s =
     (let spawn_id = pr_spawns s; s' = s\<lparr>pr_spawns := spawn_id + 1\<rparr>
      in case le_spawn E spawn_id (main_frama_c_command_line E files opts (socket_path_of E spawn_id)) of
           Log_Dir_Error e \<Rightarrow> (Inl (mcp_error_of InternalError (''create log directory: '' @ e) None), s')
         | Tmp_Dir_Error e \<Rightarrow> (Inl (mcp_error_of InternalError (''create a TMPDIR for frama-c: '' @ e) None), s')
         | Spawn_Error e \<Rightarrow> (Inl e, s')
         | Connect_Error reason tail \<Rightarrow> (Inl (connect_failure reason tail), s')
         | Listening log_size \<Rightarrow> adopt_process E spawn_id files opts log_size booted_on s')"

definition ensure_main_spawned :: "load_env \<Rightarrow> string list \<Rightarrow> project_load_options \<Rightarrow> unit action" where
  "ensure_main_spawned E files opts s =
     (case read_identity E files (po_machdep opts) s of
        (identity, s') \<Rightarrow>
          if needs_respawn E opts identity s' then spawn_main E files opts (fst identity) s'
          else reload_in_place E files opts s')"

section \<open>The health of a reload\<close>

definition reload_health_error :: "load_env \<Rightarrow> string \<Rightarrow> frama_c_error \<Rightarrow> mcp_error" where
  "reload_health_error E endpoint error =
     (let shown = display_error (texts (le_server E)) error
      in mcp_error_of InternalError (''reload health check failed at '' @ endpoint @ '': '' @ shown)
           (Some (JObj [(''kind'', JStr ''ReloadHealthCheckFailed''), (''request'', JStr endpoint),
              (''message'', JStr shown), (''retryable'', JBool True)])))"

definition reload_health_get :: "load_env \<Rightarrow> string \<Rightarrow> json \<Rightarrow> json action" where
  "reload_health_get E endpoint = ask_or (reload_health_error E endpoint) E Get endpoint"

definition reload_health_fetch_all :: "load_env \<Rightarrow> string \<Rightarrow> string \<Rightarrow> json list action" where
  "reload_health_fetch_all E reload_request fetch_request =
     andThen (ask_or (reload_health_error E reload_request) E Get reload_request JNull)
       (\<lambda>_. andThen (ask_or (reload_health_error E fetch_request) E FetchAll fetch_request JNull)
         (\<lambda>v. answer (Inr (rows v))))"

definition ast_reload_health :: "load_env \<Rightarrow> json \<Rightarrow> (json list \<times> json) action" where
  "ast_reload_health E parse_diagnostics =
     andThen (reload_health_get E ''kernel.ast.getFiles'' JNull) (\<lambda>files.
     andThen (reload_health_fetch_all E ''kernel.ast.reloadFunctions'' ''kernel.ast.fetchFunctions'') (\<lambda>functions.
     andThen (reload_health_fetch_all E ''kernel.ast.reloadGlobals'' ''kernel.ast.fetchGlobals'') (\<lambda>globals.
     andThen (reload_health_fetch_all E ''kernel.properties.reloadStatus'' ''kernel.properties.fetchStatus'')
       (\<lambda>properties. answer (Inr (functions,
          JObj [(''checked'', JBool True),
            (''requests'', JObj [(''get_files'', JStr ''kernel.ast.getFiles''),
               (''reload_functions'', JStr ''kernel.ast.reloadFunctions''),
               (''fetch_functions'', JStr ''kernel.ast.fetchFunctions''),
               (''reload_globals'', JStr ''kernel.ast.reloadGlobals''),
               (''fetch_globals'', JStr ''kernel.ast.fetchGlobals''),
               (''reload_properties'', JStr ''kernel.properties.reloadStatus''),
               (''fetch_properties'', JStr ''kernel.properties.fetchStatus'')]),
            (''files_count'', jnat (length (rows files))),
            (''functions_count'', jnat (length functions)),
            (''globals_count'', jnat (length globals)),
            (''properties_count'', jnat (length properties)),
            (''parse_diagnostics'', parse_diagnostics)]))))))"

definition parse_diagnostics_of :: "load_env \<Rightarrow> project_server \<Rightarrow> json \<times> project_server" where
  "parse_diagnostics_of E s =
     (case pr_main s of
        None \<Rightarrow> (parse_log_unavailable ''the Frama-C process is gone'', s)
      | Some m \<Rightarrow>
          (case ms_diagnostics m of
             Some cached \<Rightarrow> (cached, s)
           | None \<Rightarrow>
               (case le_log E (ms_process m) (srv_calls (pr_server s)) of
                  Inl error \<Rightarrow> (unreadable_parse_log (le_log_path E (ms_process m)) error, s)
                | Inr log \<Rightarrow>
                    (let fresh = ast_parse_diagnostics (take (unat (ms_log_end m)) log) (ms_log_end m) (ms_working_dir m)
                     in (fresh, on_main (\<lambda>m. m\<lparr>ms_diagnostics := Some fresh\<rparr>) s)))))"

definition log_flush_limit :: nat where
  "log_flush_limit = 100"

definition log_flush_rounds :: nat where
  "log_flush_rounds = 20"

definition is_diagnostic_message :: "json \<Rightarrow> bool" where
  "is_diagnostic_message message \<longleftrightarrow>
     get_str message ''kind'' \<in> {Some ''ERROR'', Some ''WARNING'', Some ''FAILURE''}"

fun drain_rounds :: "nat \<Rightarrow> load_env \<Rightarrow> json list \<Rightarrow> project_server \<Rightarrow> (json list \<times> bool) \<times> project_server" where
  "drain_rounds 0 E messages s = ((messages, True), s)"
| "drain_rounds (Suc n) E messages s =
     (case ask E Get ''kernel.services.getLogs'' JNull s of
        (Inl _, s') \<Rightarrow> ((messages, True), s')
      | (Inr v, s') \<Rightarrow>
          (case as_array v of
             None \<Rightarrow> ((messages, True), s')
           | Some batch \<Rightarrow>
               (let messages' = messages @ filter is_diagnostic_message batch
                in if length batch < log_flush_limit then ((messages', False), s')
                   else drain_rounds n E messages' s')))"

definition drain_messages :: "load_env \<Rightarrow> project_server \<Rightarrow> (json list \<times> bool) \<times> project_server" where
  "drain_messages E s = drain_rounds log_flush_rounds E [] s"


section \<open>The tool\<close>

definition reload_locked_error :: mcp_error where
  "reload_locked_error = project_locked_error
     (''Project is locked. reload_project is blocked during Phase 2 to prevent annotation loss. '' @
      ''If you are verifying in a sandbox, do NOT call reload_project; use create_sandbox or delete_sandbox instead. '' @
      ''Call verify_program_step with lock_project=false first if this is the final main-project gate.'')"

definition when_unlocked :: "'a action \<Rightarrow> 'a action" where
  "when_unlocked m s = (if pr_locked s then (Inl reload_locked_error, s) else m s)"

definition resolve_profile :: "load_env \<Rightarrow> reload_params \<Rightarrow> verification_profile option action" where
  "resolve_profile E params s =
     (case resolve_verify_profile (le_refusal_text E) (le_decode E) params (srv_session (pr_server s)) of
        (r, st) \<Rightarrow> (r, on_session (\<lambda>_. st) s))"

definition profile_used :: "reload_params \<Rightarrow> verification_profile \<Rightarrow> json" where
  "profile_used params p =
     JObj [(''name'', jopt JStr (rp_verify_profile params)), (''sources'', jstrs (vp_sources p)),
       (''model'', jopt JStr (vp_model p)), (''machdep'', jopt JStr (vp_machdep p)), (''rte'', jopt JBool (vp_rte p)),
       (''isystem_paths'', jstrs (vp_isystem_paths p)), (''nostdinc'', jopt JBool (vp_nostdinc p)),
       (''reproduce'', jopt JStr (vp_reproduce p))]"

definition load_database :: "load_env \<Rightarrow> project_load_options \<Rightarrow> project_server \<Rightarrow> compile_database option" where
  "load_database E opts s =
     map_option (\<lambda>path. read_database (le_parse E) path (le_database E (pr_reads s) path))
       (po_compilation_database opts)"

definition files_of_load ::
    "load_env \<Rightarrow> string list option \<Rightarrow> compile_database option \<Rightarrow> string list action" where
  "files_of_load E requested database s =
     (case files_for_this_load (le_server E) (client_is_poisoned E s) (map_option ms_files (pr_main s)) requested
             database (pr_server s) of
        (r, sv) \<Rightarrow> (r, s\<lparr>pr_server := sv\<rparr>))"

text \<open>The three switches of the kernel, set in every process, started for this load or kept.\<close>

definition set_warnings :: "load_env \<Rightarrow> project_load_options \<Rightarrow> unit action" where
  "set_warnings E opts =
     andThen (ask_mcp E Put ''kernel.parameters.setWarnUnsignedOverflow'' (JBool (unsigned_rte opts))) (\<lambda>_.
     andThen (ask_mcp E Put ''kernel.parameters.setWarnUnsignedDowncast'' (JBool (unsigned_rte opts))) (\<lambda>_.
     andThen (ask_mcp E Put ''kernel.parameters.setWarnInvalidPointer'' (JBool (pointer_rte opts))) (\<lambda>_.
     answer (Inr ()))))"

definition adopt_project :: "json list \<Rightarrow> session_state \<Rightarrow> session_state" where
  "adopt_project entries st = project_loaded_is True (update_functions entries (invalidate_all st))"

definition stale_marker_sample :: nat where
  "stale_marker_sample = 20"

definition location_json :: "marker_location \<Rightarrow> json" where
  "location_json l =
     JObj [(''marker_kind'', JStr (ml_marker_kind l)), (''marker'', JStr (ml_marker l)),
       (''function_marker'', jopt JStr (ml_function_marker l)), (''function_name'', jopt JStr (ml_function_name l)),
       (''kinstr_marker'', jopt JStr (ml_kinstr_marker l)), (''source_file'', jopt JStr (ml_source_file l)),
       (''source_line'', jopt u64_json (ml_source_line l))]"

definition stale_json :: "stale_marker \<Rightarrow> json" where
  "stale_json m =
     JObj [(''previous'', location_json (sm_previous m)), (''current'', location_json (sm_current m))]"

definition stability_json :: "bool \<Rightarrow> (string, stale_marker) kv \<Rightarrow> json" where
  "stability_json checked stale =
     (let sampled = map stale_json (take stale_marker_sample (map snd stale))
      in JObj [(''checked'', JBool checked), (''stale_marker_count'', jnat (length stale)),
           (''stale_markers'', JArr sampled), (''stale_markers_omitted'', jnat (length stale - length sampled))])"

definition reported_entries :: "bool \<Rightarrow> json list \<Rightarrow> json list" where
  "reported_entries full entries =
     (if full then entries
      else map (\<lambda>e. JObj [(''name'', unwrap_or (jget e ''name'') JNull),
                          (''defined'', unwrap_or (jget e ''defined'') JNull)]) entries)"

record load_facts =
  lf_options :: project_load_options
  lf_files :: "string list"
  lf_database :: "compile_database option"
  lf_machdep_digest :: "string option"
  lf_profile :: "verification_profile option"
  lf_previous :: "(string, marker_location) kv option"

definition reload_json ::
    "reload_params \<Rightarrow> load_facts \<Rightarrow> json list \<Rightarrow> json \<Rightarrow> bool \<Rightarrow> (string, stale_marker) kv \<Rightarrow> json list \<times> bool \<Rightarrow>
     session_state \<Rightarrow> json" where
  "reload_json params facts entries health checked stale messages st =
     (let opts = lf_options facts
      in JObj ([(''functions'', JArr (reported_entries (rp_full_detail params) entries)),
        (''detail'', JStr (if rp_full_detail params then ''full'' else ''summary'')),
        (''files'', jstrs (lf_files facts)), (''rte'', JBool (po_rte opts)),
        (''include_paths'', jstrs (po_include_paths opts)), (''defines'', jstrs (po_defines opts)),
        (''force_includes'', jstrs (po_force_includes opts)), (''isystem_paths'', jstrs (po_isystem_paths opts)),
        (''nostdinc'', JBool (po_nostdinc opts)), (''machdep'', jopt JStr (po_machdep opts)),
        (''machdep_digest'', jopt JStr (lf_machdep_digest facts)),
        (''compilation_database'', jopt JStr (po_compilation_database opts)),
        (''compilation_database_dropped_flags'', jopt dropped_flags (lf_database facts)),
        (''source_location_stability'', stability_json checked stale),
        (''ast_reload_health'', health), (''messages'', JArr (fst messages)),
        (''messages_truncated'', JBool (snd messages))] @
       (case lf_profile facts of None \<Rightarrow> [] | Some p \<Rightarrow> [(''verify_profile'', profile_used params p)]) @
       (if ss_verification_profiles st = [] then []
        else [(''verify_profiles_registered'', JObj [
          (''names'', jstrs (sort (map fst (ss_verification_profiles st)))),
          (''source'', jopt JStr (ss_verification_profiles_source st))])])))"

text \<open>What follows once the process has built the AST: switches, health, session and markers.\<close>

definition need_client :: "unit action" where
  "need_client s = (case require_client (pr_server s) of Inl e \<Rightarrow> (Inl e, s) | Inr _ \<Rightarrow> (Inr (), s))"

definition diagnose :: "load_env \<Rightarrow> json action" where
  "diagnose E s = (case parse_diagnostics_of E s of (d, s') \<Rightarrow> (Inr d, s'))"

definition moved_markers ::
    "(string, marker_location) kv option \<Rightarrow> (string, marker_location) kv option \<Rightarrow> (string, stale_marker) kv" where
  "moved_markers previous current =
     (case (previous, current) of (Some p, Some c) \<Rightarrow> stale_marker_locations p c | _ \<Rightarrow> [])"

definition refresh_session ::
    "load_env \<Rightarrow> reload_params \<Rightarrow> load_facts \<Rightarrow> json list \<times> json \<Rightarrow> json action" where
  "refresh_session E params facts health s =
     (let s1 = on_session (adopt_project (fst health)) s
      in case snapshot_ok E s1 of
           (current, s2) \<Rightarrow>
             (let stale = moved_markers (lf_previous facts) current;
                  checked = (lf_previous facts \<noteq> None \<and> current \<noteq> None);
                  s3 = on_session (set_stale_markers stale) s2
              in case drain_messages E s3 of
                   (messages, s4) \<Rightarrow>
                     (Inr (reload_json params facts (fst health) (snd health) checked stale messages
                        (srv_session (pr_server s4))), s4)))"

definition finish_reload :: "load_env \<Rightarrow> reload_params \<Rightarrow> load_facts \<Rightarrow> json action" where
  "finish_reload E params facts =
     andThen need_client (\<lambda>_.
     andThen (set_warnings E (lf_options facts)) (\<lambda>_.
     andThen (diagnose E) (\<lambda>parse_diagnostics.
     andThen (ast_reload_health E parse_diagnostics) (refresh_session E params facts))))"

definition previous_markers :: "load_env \<Rightarrow> project_server \<Rightarrow> (string, marker_location) kv option \<times> project_server" where
  "previous_markers E s = (if srv_main (pr_server s) then snapshot_ok E s else (None, s))"

definition load_and_finish ::
    "load_env \<Rightarrow> reload_params \<Rightarrow> verification_profile option \<Rightarrow> string list option \<Rightarrow> project_load_options \<Rightarrow>
     json action" where
  "load_and_finish E params profile requested opts s =
     (case previous_markers E s of
        (previous, s1) \<Rightarrow>
          (let database = load_database E opts s1
           in andThen (files_of_load E requested database) (\<lambda>files s2.
                let digest = machdep_digest (le_sha256_hex E) (le_disk E (pr_reads s2)) (po_machdep opts)
                in andThen (ensure_main_spawned E files opts)
                     (\<lambda>_. finish_reload E params
                        \<lparr>lf_options = opts, lf_files = files, lf_database = database,
                         lf_machdep_digest = digest, lf_profile = profile, lf_previous = previous\<rparr>) s2) s1))"

definition reload_project :: "load_env \<Rightarrow> reload_params \<Rightarrow> json action" where
  "reload_project E params =
     when_unlocked
       (andThen (resolve_profile E params) (\<lambda>profile.
        andThen (answer (requested_load (le_builtin_digest E) params profile)) (\<lambda>(requested, opts).
        when_unlocked (load_and_finish E params profile requested opts))))"

end
