(* ===== verification/Reload_Props.thy ===== *)
theory Reload_Props
  imports Reload
begin

text \<open>
  What \<open>reload_project\<close> promises: a lock keeps everything as it is, a load that succeeds holds what was
  asked for, the report on parsing describes the sources the process holds, a marker is stale exactly
  when it moved, and what a load that fails leaves behind.
\<close>

section \<open>Requests change nothing but the record of requests\<close>

named_theorems quiet_intros \<open>actions that only send requests\<close>

definition strip_calls :: "project_server \<Rightarrow> project_server" where
  "strip_calls s = s\<lparr>pr_server := pr_server s\<lparr>srv_calls := []\<rparr>\<rparr>"

definition quiet :: "'a action \<Rightarrow> bool" where
  "quiet m \<longleftrightarrow> (\<forall>s. strip_calls (snd (m s)) = strip_calls s)"

lemma quiet_answer [quiet_intros]: "quiet (answer a)"
  by (simp add: quiet_def answer_def)

lemma quiet_andThen [quiet_intros]: "quiet m \<Longrightarrow> (\<And>a. quiet (f a)) \<Longrightarrow> quiet (andThen m f)"
  unfolding quiet_def andThen_def by (auto split: prod.splits sum.splits) (metis snd_conv)+

lemma strip_ask: "strip_calls (snd (ask E k p d s)) = strip_calls s"
  by (simp add: ask_def send_def strip_calls_def)

lemma quiet_ask_or [quiet_intros]: "quiet (ask_or f E k p d)"
  unfolding quiet_def
proof
  fix s
  show "strip_calls (snd (ask_or f E k p d s)) = strip_calls s"
    using strip_ask [of E k p d s] by (auto simp: ask_or_def split: prod.splits sum.splits)
qed

lemma quiet_ask_mcp [quiet_intros]: "quiet (ask_mcp E k p d)"
  unfolding ask_mcp_def by (rule quiet_ask_or)

lemma quiet_reload_fetch [quiet_intros]: "quiet (reload_fetch E r f)"
  unfolding reload_fetch_def by (intro quiet_intros)

lemma quiet_snapshot [quiet_intros]: "quiet (marker_location_snapshot E)"
  unfolding marker_location_snapshot_def by (intro quiet_intros)

lemma quiet_in_place [quiet_intros]: "quiet (reload_files_in_place E files)"
  unfolding reload_files_in_place_def by (intro quiet_intros)

lemma quiet_warnings [quiet_intros]: "quiet (set_warnings E opts)"
  unfolding set_warnings_def by (intro quiet_intros)

lemma quiet_health_fetch [quiet_intros]: "quiet (reload_health_fetch_all E r f)"
  unfolding reload_health_fetch_all_def by (intro quiet_intros)

lemma quiet_health [quiet_intros]: "quiet (ast_reload_health E d)"
  unfolding ast_reload_health_def reload_health_get_def by (intro quiet_intros)

lemma quietD: "quiet m \<Longrightarrow> m s = (r, s') \<Longrightarrow> strip_calls s' = strip_calls s"
  unfolding quiet_def by (metis snd_conv)

lemma quiet_snapshot_ok: "strip_calls (snd (snapshot_ok E s)) = strip_calls s"
  using quiet_snapshot [of E] unfolding snapshot_ok_def quiet_def
  by (auto split: prod.splits sum.splits) (metis snd_conv)+

lemma quiet_previous: "strip_calls (snd (previous_markers E s)) = strip_calls s"
  using quiet_snapshot_ok [of E s] by (simp add: previous_markers_def)

lemma quiet_drain_rounds: "strip_calls (snd (drain_rounds n E ms s)) = strip_calls s"
proof (induction n E ms s rule: drain_rounds.induct)
  case (2 n E ms s)
  obtain r s' where a: "ask E Get ''kernel.services.getLogs'' JNull s = (r, s')" by fastforce
  then have "strip_calls s' = strip_calls s" using strip_ask by (metis snd_conv)
  with a 2 show ?case by (auto simp: Let_def split: sum.splits option.splits)
qed simp

text \<open>What \<open>strip_calls\<close> keeps.\<close>

lemma strip_callsD:
  assumes "strip_calls s' = strip_calls s"
  shows "pr_main s' = pr_main s" "pr_locked s' = pr_locked s" "pr_reads s' = pr_reads s"
    "pr_spawns s' = pr_spawns s" "srv_session (pr_server s') = srv_session (pr_server s)"
    "srv_main (pr_server s') = srv_main (pr_server s)"
  using assms
  by (cases s; cases s'; cases "pr_server s"; cases "pr_server s'"; simp add: strip_calls_def)+

lemma files_of_load_quiet: "strip_calls (snd (files_of_load E requested database s)) = strip_calls s"
  by (auto simp: files_of_load_def files_for_this_load_def send_mcp_def send_def strip_calls_def Let_def
      split: option.splits prod.splits sum.splits)

section \<open>The process after a load\<close>

definition is_unavailable :: "json \<Rightarrow> bool" where
  "is_unavailable d \<longleftrightarrow> (\<exists>reason. d = parse_log_unavailable reason)"

text \<open>Read from the part of the process's log that its parse wrote.\<close>

definition from_boot_log :: "load_env \<Rightarrow> main_state \<Rightarrow> json \<Rightarrow> bool" where
  "from_boot_log E m d \<longleftrightarrow>
     (\<exists>calls log. le_log E (ms_process m) calls = Inr log \<and>
        d = ast_parse_diagnostics (take (unat (ms_log_end m)) log) (ms_log_end m) (ms_working_dir m))"

definition kept_record :: "load_env \<Rightarrow> main_state option \<Rightarrow> bool" where
  "kept_record E main \<longleftrightarrow>
     (\<forall>m d. main = Some m \<longrightarrow> ms_diagnostics m = Some d \<longrightarrow> is_unavailable d \<or> from_boot_log E m d)"

text \<open>The sources as last read are those the process built its AST from, or no record is kept.\<close>

definition describes_sources :: "load_env \<Rightarrow> project_server \<Rightarrow> main_state \<Rightarrow> bool" where
  "describes_sources E s m \<longleftrightarrow>
     (\<exists>d. ms_diagnostics m = Some d \<and> is_unavailable d) \<or>
     fst (source_identity E (pr_reads s - 1) (ms_files m) (po_machdep (ms_options m))) = ms_digest m"

lemma adopt_process_state:
  assumes "adopt_process E n files opts log_size booted s = (r, t)"
  shows "r = Inr () \<and> (\<exists>m. pr_main t = Some m \<and> ms_options m = opts \<and> ms_files m = files \<and>
      ms_process m = n \<and> kept_record E (Some m) \<and> describes_sources E t m) \<and>
    srv_session (pr_server t) = project_loaded_is True (srv_session (pr_server s))"
proof -
  define s1 where "s1 = snd (ask E Put ''kernel.services.setLogs'' (JBool True) s)"
  have s1: "strip_calls s1 = strip_calls s" unfolding s1_def by (rule strip_ask)
  show ?thesis
    using assms strip_callsD(5) [OF s1]
    by (auto simp: adopt_process_def Let_def read_identity_def on_session_def boot_parse_window_def kept_record_def
        describes_sources_def is_unavailable_def simp flip: s1_def split: prod.splits sum.splits if_splits)
qed

lemma reload_in_place_state:
  assumes "reload_in_place E files opts s = (Inr u, t)" "pr_main s = Some m0" "ms_options m0 = opts"
    and "kept_record E (Some m0)"
  shows "(\<exists>m. pr_main t = Some m \<and> ms_options m = opts \<and> ms_files m = files \<and>
      ms_process m = ms_process m0 \<and> kept_record E (Some m) \<and> describes_sources E t m) \<and>
    srv_session (pr_server t) = project_loaded_is True (srv_session (pr_server s))"
proof -
  obtain r s1 where r: "reload_files_in_place E files s = (r, s1)" by fastforce
  have s1: "strip_calls s1 = strip_calls s" using quietD [OF quiet_in_place r] .
  note kept = strip_callsD [OF s1]
  show ?thesis
    using assms r kept
    by (auto simp: reload_in_place_def read_identity_def on_session_def on_main_def kept_record_def
        describes_sources_def is_unavailable_def changed_while_rebuilding_def from_boot_log_def
        split: sum.splits if_splits)
qed

lemma ensure_main_spawned_state:
  assumes "ensure_main_spawned E files opts s = (Inr u, t)" "kept_record E (pr_main s)"
  shows "(\<exists>m. pr_main t = Some m \<and> ms_options m = opts \<and> ms_files m = files \<and>
      kept_record E (Some m) \<and> describes_sources E t m) \<and>
    srv_session (pr_server t) = project_loaded_is True (srv_session (pr_server s))"
proof -
  let ?id = "source_identity E (pr_reads s) files (po_machdep opts)"
  let ?s = "s\<lparr>pr_reads := pr_reads s + 1\<rparr>"
  show ?thesis
  proof (cases "needs_respawn E opts ?id ?s")
    case True
    then have "spawn_main E files opts (fst ?id) ?s = (Inr u, t)"
      using assms(1) by (simp add: ensure_main_spawned_def read_identity_def)
    then obtain log_size n s1 where "adopt_process E n files opts log_size (fst ?id) s1 = (Inr u, t)"
        "srv_session (pr_server s1) = srv_session (pr_server s)"
      by (force simp: spawn_main_def Let_def split: spawn_outcome.splits)
    from adopt_process_state [OF this(1)] this(2) show ?thesis by auto
  next
    case False
    then obtain m0 where m0: "pr_main s = Some m0" "ms_options m0 = opts"
      by (auto simp: needs_respawn_def split: option.splits)
    from False assms(1) have "reload_in_place E files opts ?s = (Inr u, t)"
      by (simp add: ensure_main_spawned_def read_identity_def)
    from reload_in_place_state [OF this] m0 assms(2) show ?thesis by auto
  qed
qed

lemma parse_diagnostics_state:
  assumes "parse_diagnostics_of E s = (d, t)" "pr_main s = Some m" "kept_record E (Some m)"
  shows "\<exists>m'. pr_main t = Some m' \<and> ms_options m' = ms_options m \<and> ms_files m' = ms_files m \<and>
      ms_digest m' = ms_digest m \<and> ms_process m' = ms_process m \<and> kept_record E (Some m') \<and>
      (is_unavailable d \<or> from_boot_log E m' d) \<and> (ms_diagnostics m \<noteq> None \<longrightarrow> Some d = ms_diagnostics m) \<and>
      pr_reads t = pr_reads s \<and> srv_session (pr_server t) = srv_session (pr_server s)"
proof (cases "ms_diagnostics m")
  case None
  show ?thesis
  proof (cases "le_log E (ms_process m) (srv_calls (pr_server s))")
    case (Inl e)
    with None assms show ?thesis
      by (auto simp: parse_diagnostics_of_def is_unavailable_def unreadable_parse_log_def)
  next
    case (Inr log)
    have "from_boot_log E (m\<lparr>ms_diagnostics := x\<rparr>)
        (ast_parse_diagnostics (take (unat (ms_log_end m)) log) (ms_log_end m) (ms_working_dir m))" for x
      using Inr unfolding from_boot_log_def by auto
    with Inr None assms show ?thesis
      by (auto simp: parse_diagnostics_of_def Let_def on_main_def kept_record_def)
  qed
next
  case (Some c)
  with assms have "d = c" "t = s" by (simp_all add: parse_diagnostics_of_def)
  with Some assms show ?thesis by (auto simp: kept_record_def)
qed


lemma health_Inr:
  assumes "ast_reload_health E d s = (Inr (entries, health), t)"
  shows "pointer health [''parse_diagnostics''] = Some d"
  using assms by (auto simp: ast_reload_health_def andThen_Inr answer_Inr)

definition session_of :: "project_server \<Rightarrow> session_state" where
  "session_of s = srv_session (pr_server s)"

text \<open>A load that succeeded, taken apart.\<close>

lemma finish_reload_Inr:
  assumes "finish_reload E params facts s = (Inr v, t)" "pr_main s = Some m" "kept_record E (Some m)"
  shows "\<exists>m' d entries stale. pr_main t = Some m' \<and> ms_options m' = ms_options m \<and> ms_files m' = ms_files m \<and>
      ms_digest m' = ms_digest m \<and> kept_record E (Some m') \<and> pr_reads t = pr_reads s \<and>
      (is_unavailable d \<or> from_boot_log E m' d) \<and> (ms_diagnostics m \<noteq> None \<longrightarrow> Some d = ms_diagnostics m) \<and>
      pointer v [''ast_reload_health'', ''parse_diagnostics''] = Some d \<and>
      session_of t = set_stale_markers stale (adopt_project entries (session_of s))"
proof -
  from assms(1) obtain s0 s1 s2 d s3 entries health where
    steps: "need_client s = (Inr (), s0)" "set_warnings E (lf_options facts) s0 = (Inr (), s1)"
      "diagnose E s1 = (Inr d, s2)" "ast_reload_health E d s2 = (Inr (entries, health), s3)"
    and rest: "refresh_session E params facts (entries, health) s3 = (Inr v, t)"
    unfolding finish_reload_def andThen_Inr by auto
  have [simp]: "s0 = s" using steps(1) by (auto simp: need_client_def split: sum.splits)
  note k1 = strip_callsD [OF quietD [OF quiet_warnings steps(2)]]
  have "parse_diagnostics_of E s1 = (d, s2)" using steps(3) by (auto simp: diagnose_def split: prod.splits)
  from parse_diagnostics_state [OF this, of m] assms(2,3) k1 obtain m' where m':
    "pr_main s2 = Some m'" "ms_options m' = ms_options m" "ms_files m' = ms_files m" "ms_digest m' = ms_digest m"
    "kept_record E (Some m')" "is_unavailable d \<or> from_boot_log E m' d"
    "ms_diagnostics m \<noteq> None \<longrightarrow> Some d = ms_diagnostics m" "pr_reads s2 = pr_reads s"
    "srv_session (pr_server s2) = srv_session (pr_server s)"
    by auto
  note k3 = strip_callsD [OF quietD [OF quiet_health steps(4)]]
  define s4 where "s4 = on_session (adopt_project entries) s3"
  obtain current s5 where s5: "snapshot_ok E s4 = (current, s5)" by fastforce
  note k5 = strip_callsD [OF quiet_snapshot_ok [of E s4, unfolded s5 snd_conv]]
  define stale where "stale = moved_markers (lf_previous facts) current"
  define s6 where "s6 = on_session (set_stale_markers stale) s5"
  obtain messages s7 where s7: "drain_messages E s6 = (messages, s7)" by fastforce
  note k7 = strip_callsD [OF quiet_drain_rounds [of log_flush_rounds E "[]" s6,
      unfolded drain_messages_def [symmetric] s7 snd_conv]]
  from rest have v: "v = reload_json params facts entries health (lf_previous facts \<noteq> None \<and> current \<noteq> None)
      stale messages (srv_session (pr_server s7))" "t = s7"
    unfolding refresh_session_def fst_conv s4_def [symmetric] s5 Let_def prod.case stale_def [symmetric]
      s6_def [symmetric] s7
    by auto
  have "pr_main t = Some m'" "pr_reads t = pr_reads s"
    using k7 k5 k3 m' v(2) by (simp_all add: s6_def s4_def on_session_def)
  moreover have "session_of t = set_stale_markers stale (adopt_project entries (session_of s))"
    using k7 k5 k3 m' v(2) by (simp add: s6_def s4_def on_session_def session_of_def)
  moreover have "pointer v [''ast_reload_health'', ''parse_diagnostics''] = Some d"
    using health_Inr [OF steps(4)] by (simp add: v(1) reload_json_def Let_def)
  ultimately show ?thesis using m' by blast
qed


lemma load_and_finish_Inr:
  assumes "load_and_finish E params profile requested opts s = (Inr v, t)" "kept_record E (pr_main s)"
  shows "\<exists>m d entries stale. pr_main t = Some m \<and> ms_options m = opts \<and>
      (\<forall>files. requested = Some files \<longrightarrow> ms_files m = files) \<and>
      kept_record E (Some m) \<and> (is_unavailable d \<or> from_boot_log E m d \<and>
        fst (source_identity E (pr_reads t - 1) (ms_files m) (po_machdep (ms_options m))) = ms_digest m) \<and>
      pointer v [''ast_reload_health'', ''parse_diagnostics''] = Some d \<and>
      session_of t = set_stale_markers stale (adopt_project entries (project_loaded_is True (session_of s)))"
proof -
  obtain previous s1 where p: "previous_markers E s = (previous, s1)" by fastforce
  note k1 = strip_callsD [OF quiet_previous [of E s, unfolded p snd_conv]]
  from assms(1) obtain files s2 facts s3 where
    f: "files_of_load E requested (load_database E opts s1) s1 = (Inr files, s2)"
    and e: "ensure_main_spawned E files opts s2 = (Inr (), s3)"
    and fin: "finish_reload E params facts s3 = (Inr v, t)"
    unfolding load_and_finish_def p by (auto simp: Let_def andThen_Inr)
  note k2 = strip_callsD [OF files_of_load_quiet [of E requested "load_database E opts s1" s1, unfolded f snd_conv]]
  have "kept_record E (pr_main s2)" using assms(2) k1 k2 by simp
  from ensure_main_spawned_state [OF e this] obtain m0 where m0:
    "pr_main s3 = Some m0" "ms_options m0 = opts" "ms_files m0 = files" "kept_record E (Some m0)"
    "describes_sources E s3 m0" "session_of s3 = project_loaded_is True (session_of s)"
    using k1 k2 by (auto simp: session_of_def)
  from finish_reload_Inr [OF fin m0(1,4)] obtain m d entries stale where m:
    "pr_main t = Some m" "ms_options m = ms_options m0" "ms_files m = ms_files m0" "ms_digest m = ms_digest m0"
    "kept_record E (Some m)" "pr_reads t = pr_reads s3" "is_unavailable d \<or> from_boot_log E m d"
    "ms_diagnostics m0 \<noteq> None \<longrightarrow> Some d = ms_diagnostics m0"
    "pointer v [''ast_reload_health'', ''parse_diagnostics''] = Some d"
    "session_of t = set_stale_markers stale (adopt_project entries (session_of s3))"
    by blast
  have "is_unavailable d \<or> from_boot_log E m d \<and>
      fst (source_identity E (pr_reads t - 1) (ms_files m) (po_machdep (ms_options m))) = ms_digest m"
    using m m0 by (auto simp: describes_sources_def)
  moreover have "requested = Some fs \<Longrightarrow> ms_files m = fs" for fs
    using f m m0 by (auto simp: files_of_load_def files_for_this_load_def)
  ultimately show ?thesis using m m0 by auto
qed

lemma reload_project_Inr:
  assumes "reload_project E params s = (Inr v, t)"
  obtains profile s1 requested opts where
    "\<not> pr_locked s" "resolve_profile E params s = (Inr profile, s1)"
    "requested_load (le_builtin_digest E) params profile = Inr (requested, opts)"
    "load_and_finish E params profile requested opts s1 = (Inr v, t)"
proof -
  have "\<not> pr_locked s"
    using assms by (auto simp: reload_project_def when_unlocked_def)
  moreover from this assms obtain profile s1 requested opts where
    "resolve_profile E params s = (Inr profile, s1)"
    "requested_load (le_builtin_digest E) params profile = Inr (requested, opts)"
    "when_unlocked (load_and_finish E params profile requested opts) s1 = (Inr v, t)"
    unfolding reload_project_def when_unlocked_def andThen_Inr answer_Inr by (auto simp: andThen_Inr answer_Inr)
  moreover from this(3) have "load_and_finish E params profile requested opts s1 = (Inr v, t)"
    by (auto simp: when_unlocked_def split: if_splits)
  ultimately show thesis using that by blast
qed

lemma resolve_profile_keeps:
  assumes "resolve_profile E params s = (r, s1)"
  shows "pr_main s1 = pr_main s" "pr_reads s1 = pr_reads s" "pr_server s1 = (pr_server s)\<lparr>srv_session := session_of s1\<rparr>"
  using assms by (auto simp: resolve_profile_def on_session_def session_of_def split: prod.splits)

text \<open>A reload that succeeds leaves a process that holds exactly what was asked for: the options merged
  from the call and the profile it names, and the files the call or the profile names, if any.\<close>

theorem reload_holds_what_was_asked:
  assumes "reload_project E params s = (Inr v, t)" "kept_record E (pr_main s)"
  shows "\<exists>m profile s1. pr_main t = Some m \<and> resolve_profile E params s = (Inr profile, s1) \<and>
    ms_options m = merged_options (le_builtin_digest E) params profile \<and>
    validate_project_options (ms_options m) = Inr () \<and>
    requested_files params profile \<in> {None, Some (ms_files m)}"
proof (rule reload_project_Inr [OF assms(1)])
  fix profile s1 requested opts
  assume r: "resolve_profile E params s = (Inr profile, s1)"
    and l: "requested_load (le_builtin_digest E) params profile = Inr (requested, opts)"
    and f: "load_and_finish E params profile requested opts s1 = (Inr v, t)"
  have "kept_record E (pr_main s1)" using assms(2) resolve_profile_keeps(1) [OF r] by simp
  from load_and_finish_Inr [OF f this] obtain m where
    "pr_main t = Some m" "ms_options m = opts" "\<forall>files. requested = Some files \<longrightarrow> ms_files m = files" by auto
  moreover have "opts = merged_options (le_builtin_digest E) params profile" "validate_project_options opts = Inr ()"
    "requested = requested_files params profile"
    using l by (auto simp: requested_load_def Let_def)
  ultimately show ?thesis using r by (cases "requested_files params profile") auto
qed


section \<open>A load that names a profile\<close>

definition names_only :: "string \<Rightarrow> reload_params \<Rightarrow> bool" where
  "names_only name params \<longleftrightarrow>
     rp_verify_profile params = Some name \<and> rp_files params = None \<and> rp_include_paths params = None \<and>
     rp_defines params = None \<and> rp_force_includes params = None \<and> rp_isystem_paths params = None \<and>
     rp_nostdinc params = None \<and> rp_machdep params = None \<and> rp_compilation_database params = None \<and>
     rp_rte params = None \<and> rp_rte_unsigned params = None \<and> rp_rte_pointer params = None \<and>
     rp_builtin_models params = None"

lemma merged_matches:
  assumes "names_only name params" "requested_files params (Some p) \<in> {None, Some files}"
  shows "profile_matches_loaded_project p files (merged_options digest params (Some p))"
proof -
  have "unset_or (vp_rte_unsigned p) (\<lambda>want. want \<noteq> (vp_rte_unsigned p = Some False))"
    "unwrap_or (vp_rte_pointer p) False = (vp_rte_pointer p = Some True)"
    "unwrap_or (vp_builtin_models p) False = (vp_builtin_models p = Some True)"
    "unset_or (vp_rte p) (\<lambda>want. want = unwrap_or (vp_rte p) False)"
    "unset_or (vp_nostdinc p) (\<lambda>want. want = unwrap_or (vp_nostdinc p) False)"
    by (cases "vp_rte_unsigned p"; cases "vp_rte_pointer p"; cases "vp_builtin_models p"; cases "vp_rte p";
        cases "vp_nostdinc p"; simp add: unset_or_def)+
  then show ?thesis
    using assms
    by (simp add: names_only_def profile_matches_loaded_project_def merged_options_def pick_list_def pick_flag_def
        requested_files_def split: if_splits)
qed

lemma session_update_profiles:
  "ss_verification_profiles (set_stale_markers stale (adopt_project entries (project_loaded_is b st)))
     = ss_verification_profiles st"
  by (simp add: set_stale_markers_def adopt_project_def project_loaded_is_def update_functions_def invalidate_all_def)

text \<open>C27: a reload that only names a profile, registered before or in the same call, and succeeds loads what
  the profile describes: a run that names the profile is then compared with the loaded project and accepted.\<close>

theorem profile_load_matches:
  assumes "reload_project E params s = (Inr v, t)" "kept_record E (pr_main s)" "names_only name params"
  shows "\<exists>m p. pr_main t = Some m \<and> map_of (ss_verification_profiles (session_of t)) name = Some p \<and>
    profile_matches_loaded_project p (ms_files m) (ms_options m)"
proof (rule reload_project_Inr [OF assms(1)])
  fix profile s1 requested opts
  assume r: "resolve_profile E params s = (Inr profile, s1)"
    and l: "requested_load (le_builtin_digest E) params profile = Inr (requested, opts)"
    and f: "load_and_finish E params profile requested opts s1 = (Inr v, t)"
  have "kept_record E (pr_main s1)" using assms(2) resolve_profile_keeps(1) [OF r] by simp
  from load_and_finish_Inr [OF f this] obtain m entries stale where m:
    "pr_main t = Some m" "ms_options m = opts" "\<forall>files. requested = Some files \<longrightarrow> ms_files m = files"
    "session_of t = set_stale_markers stale (adopt_project entries (project_loaded_is True (session_of s1)))"
    by blast
  have o: "opts = merged_options (le_builtin_digest E) params profile" "requested = requested_files params profile"
    using l by (auto simp: requested_load_def Let_def)
  have "map_of (ss_verification_profiles (session_of s1)) name = profile \<and> profile \<noteq> None"
    using r assms(3)
    by (auto simp: resolve_profile_def resolve_verify_profile_def names_only_def Let_def on_session_def session_of_def
        split: prod.splits sum.splits option.splits) (metis option.distinct(1) option.exhaust)+
  then obtain p where p: "profile = Some p" "map_of (ss_verification_profiles (session_of s1)) name = Some p"
    by auto
  have "requested_files params (Some p) \<in> {None, Some (ms_files m)}"
    using m(3) o(2) p(1) by (cases "requested_files params (Some p)") auto
  from merged_matches [OF assms(3) this] m o p show ?thesis by (auto simp: session_update_profiles)
qed

section \<open>What the report on parsing describes\<close>

text \<open>C28: the report on parsing that a reload answers with either says that it is not available, or was read
  from what this process wrote while it parsed, and the sources, read again after the parse, are those the
  process started from.\<close>

theorem parse_report_is_of_these_sources:
  assumes "reload_project E params s = (Inr v, t)" "kept_record E (pr_main s)"
  shows "kept_record E (pr_main t) \<and>
    (\<exists>m d. pr_main t = Some m \<and> pointer v [''ast_reload_health'', ''parse_diagnostics''] = Some d \<and>
       (is_unavailable d \<or> from_boot_log E m d \<and>
          fst (source_identity E (pr_reads t - 1) (ms_files m) (po_machdep (ms_options m))) = ms_digest m))"
proof (rule reload_project_Inr [OF assms(1)])
  fix profile s1 requested opts
  assume r: "resolve_profile E params s = (Inr profile, s1)"
    and f: "load_and_finish E params profile requested opts s1 = (Inr v, t)"
  have "kept_record E (pr_main s1)" using assms(2) resolve_profile_keeps(1) [OF r] by simp
  from load_and_finish_Inr [OF f this] show ?thesis by auto
qed

section \<open>A load that fails\<close>

lemma spawn_main_Inl:
  "spawn_main E files opts booted s = (Inl e, t) \<Longrightarrow>
   pr_main t = pr_main s \<and> session_of t = session_of s"
  by (auto simp: spawn_main_def Let_def session_of_def dest: adopt_process_state split: spawn_outcome.splits)

text \<open>C29: when the process cannot be made to hold the requested load, either nothing of it was touched, or it
  is marked and the session has no project: the next load starts a new process, whatever it asks for.\<close>

theorem failed_load_is_abandoned:
  assumes "ensure_main_spawned E files opts s = (Inl e, t)"
  shows "(pr_main t = pr_main s \<and> session_of t = session_of s) \<or>
    (\<not> ss_project_loaded (session_of t) \<and> needs_respawn E opts' identity t)"
proof -
  let ?id = "source_identity E (pr_reads s) files (po_machdep opts)"
  let ?s = "s\<lparr>pr_reads := pr_reads s + 1\<rparr>"
  show ?thesis
  proof (cases "needs_respawn E opts ?id ?s")
    case True
    then have "spawn_main E files opts (fst ?id) ?s = (Inl e, t)"
      using assms by (simp add: ensure_main_spawned_def read_identity_def)
    from spawn_main_Inl [OF this] show ?thesis by (simp add: session_of_def)
  next
    case False
    then have f: "reload_in_place E files opts ?s = (Inl e, t)"
      using assms by (simp add: ensure_main_spawned_def read_identity_def)
    obtain r s1 where r: "reload_files_in_place E files ?s = (r, s1)" by fastforce
    from False obtain m0 where "pr_main s = Some m0" by (auto simp: needs_respawn_def split: option.splits)
    then have "pr_main s1 = Some m0" using strip_callsD(1) [OF quietD [OF quiet_in_place r]] by simp
    with f r show ?thesis
      by (auto simp: reload_in_place_def read_identity_def on_session_def on_main_def session_of_def
          project_loaded_is_def needs_respawn_def split: sum.splits)
  qed
qed

text \<open>The locks of the project: nothing is sent and nothing changes.\<close>

lemma reload_when_locked: "pr_locked s \<Longrightarrow> reload_project E params s = (Inl reload_locked_error, s)"
  by (simp add: reload_project_def when_unlocked_def)

section \<open>Markers that moved\<close>

lemma map_filter_keys:
  "distinct (map fst m) \<Longrightarrow>
   map_of (List.map_filter (\<lambda>(k, v). map_option (Pair k) (g k v)) m) k = Option.bind (map_of m k) (g k)"
proof (induction m)
  case (Cons a m)
  obtain j w where a: "a = (j, w)" by (cases a)
  have "map_of m j = None" using Cons.prems a by (simp add: map_of_eq_None_iff)
  with Cons a show ?case by (cases "g j w") auto
qed simp

lemma map_filter_distinct:
  "distinct (map fst m) \<Longrightarrow> distinct (map fst (List.map_filter (\<lambda>(k, v). map_option (Pair k) (g k v)) m))"
proof (induction m)
  case (Cons a m)
  have "fst ` set (List.map_filter (\<lambda>(k, v). map_option (Pair k) (g k v)) m) \<subseteq> fst ` set m"
    by (induction m) (auto split: option.splits)
  with Cons show ?case by (cases a) (auto split: option.splits)
qed simp

lemma map_of_foldl_bt: "map_of (foldl (\<lambda>m (k, v). bt_insert k v m) m ps) = map_of m ++ map_of (rev ps)"
  by (induction ps arbitrary: m) (auto simp: map_add_def fun_eq_iff split: option.splits)

lemma map_of_rev_distinct: "distinct (map fst m) \<Longrightarrow> map_of (rev m) = map_of m"
  by (rule map_of_inject_set [THEN iffD2]) (simp_all add: rev_map [symmetric])

text \<open>After a reload a marker is listed as stale exactly when it was known before and is now at another
  place or gone, with both places.\<close>

theorem stale_markers_exact:
  assumes "distinct (map fst previous)"
  shows "map_of (stale_marker_locations previous current) marker =
    (case map_of previous marker of
       None \<Rightarrow> None
     | Some old \<Rightarrow>
         (let new = unwrap_or (map_of current marker) (missing_marker marker)
          in if old = new then None else Some \<lparr>sm_previous = old, sm_current = new\<rparr>))"
proof -
  define g where "g = (\<lambda>marker old. let new = unwrap_or (map_of current marker) (missing_marker marker)
      in if old = new then None else Some \<lparr>sm_previous = old, sm_current = new\<rparr>)"
  let ?ps = "List.map_filter (\<lambda>(k, v). map_option (Pair k) (g k v)) previous"
  have "(\<lambda>(marker, old). let new = unwrap_or (map_of current marker) (missing_marker marker)
      in if old \<noteq> new then Some (marker, \<lparr>sm_previous = old, sm_current = new\<rparr>) else None)
    = (\<lambda>(k, v). map_option (Pair k) (g k v))"
    by (auto simp: fun_eq_iff g_def Let_def)
  then have "stale_marker_locations previous current = bt_collect ?ps"
    by (simp add: stale_marker_locations_def)
  moreover have "distinct (map fst ?ps)"
    by (rule map_filter_distinct [OF assms])
  ultimately have "map_of (stale_marker_locations previous current) marker = Option.bind (map_of previous marker) (g marker)"
    using map_filter_keys [OF assms, of g marker]
    by (simp add: bt_collect_def map_of_foldl_bt map_of_rev_distinct)
  then show ?thesis by (simp add: g_def split: option.splits)
qed

section \<open>Reading a source in chunks\<close>

text \<open>A directive can begin with the character, its digraph or its trigraph.\<close>

definition spells_directive :: "bytes \<Rightarrow> bool" where
  "spells_directive s \<longleftrightarrow> CHR ''#'' \<in> set s \<or> sublist ''%:'' s \<or> sublist ''??='' s"

lemma starts_a_directive_append:
  "fst (starts_a_directive (a @ b) p) \<longleftrightarrow>
     fst (starts_a_directive a p) \<or> fst (starts_a_directive b (snd (starts_a_directive a p)))"
  by (induction a p rule: starts_a_directive.induct) auto

lemma chunks_joined: "directive_in_chunks chunks p \<longleftrightarrow> fst (starts_a_directive (concat chunks) p)"
  by (induction chunks p rule: directive_in_chunks.induct)
    (auto simp: starts_a_directive_append split: prod.splits bool.splits)

lemma digraph_Cons: "sublist ''%:'' (a # c # s) \<longleftrightarrow> a = CHR ''%'' \<and> c = CHR '':'' \<or> sublist ''%:'' (c # s)"
  by (subst sublist_Cons_right) auto

lemma trigraph_Cons:
  "sublist ''??='' (a # b # c # s) \<longleftrightarrow>
     a = CHR ''?'' \<and> b = CHR ''?'' \<and> c = CHR ''='' \<or> sublist ''??='' (b # c # s)"
  by (subst sublist_Cons_right) auto

lemma starts_a_directive_spells:
  "fst (starts_a_directive s p) \<longleftrightarrow>
     CHR ''#'' \<in> set s \<or> sublist ''%:'' (snd p # s) \<or> sublist ''??='' (fst p # snd p # s)"
proof (induction s p rule: starts_a_directive.induct)
  case (1 p)
  have "\<not> sublist ''%:'' [snd p]" "\<not> sublist ''??='' [fst p, snd p]"
    using sublist_length_le [of "''%:''" "[snd p]"] sublist_length_le [of "''??=''" "[fst p, snd p]"] by auto
  then show ?case by simp
next
  case (2 c s p)
  then show ?case unfolding digraph_Cons trigraph_Cons by (auto simp: directive_byte_def)
qed

lemma spells_after_zeros:
  "sublist ''%:'' (CHR 0x00 # s) \<longleftrightarrow> sublist ''%:'' s"
  "sublist ''??='' (CHR 0x00 # CHR 0x00 # s) \<longleftrightarrow> sublist ''??='' s"
  by (subst sublist_Cons_right, simp)+

text \<open>Whether a source can reach past its own bytes is found the same however the reader cuts it: exactly
  when a directive is spelled somewhere in it.\<close>

theorem directive_scan_ignores_chunks:
  "snd (sha256_hex_of_reader sha chunks) = spells_directive (concat chunks)"
  by (simp add: sha256_hex_of_reader_def chunks_joined starts_a_directive_spells spells_directive_def
      spells_after_zeros)

section \<open>A server to try it on\<close>

text \<open>Every request is answered by an empty array but one, which is refused.\<close>

definition trial_answers :: "string option \<Rightarrow> call list \<Rightarrow> call \<Rightarrow> frama_c_error + json" where
  "trial_answers refused h c = (if refused = Some (call_endpoint c) then Inl ConnectTimeout else Inr (JArr []))"

definition trial_texts :: error_texts where
  "trial_texts = \<lparr>io_text = (\<lambda>_. []), json_text = [], header_utf8_text = [], header_hex_text = (\<lambda>_. []),
     payload_utf8_text = []\<rparr>"

definition trial_requests :: "string option \<Rightarrow> server_env" where
  "trial_requests refused = \<lparr>answers = trial_answers refused, texts = trial_texts,
     pretty = (\<lambda>_. []), from_str = (\<lambda>_. None), mcp_error_text = mcp_message, serde_text = (\<lambda>_ _. []),
     debug_str = (\<lambda>s. s), random_hex8 = (\<lambda>_. ''00000000''), unicode_word = (\<lambda>_. False),
     disk_write = (\<lambda>_. Written)\<rparr>"

definition trial_env :: "string option \<Rightarrow> load_env" where
  "trial_env refused = \<lparr>le_server = trial_requests refused, le_disk = (\<lambda>n f. Inr (Some 1, [''int x;''])),
     le_finishes = (\<lambda>_. True), le_sha256_hex = (\<lambda>s. s), le_spawn = (\<lambda>n line. Listening (Inr 3)),
     le_log = (\<lambda>n calls. Inr ''a b''), le_log_path = (\<lambda>_. ''log''), le_pid = 7, le_cwd = ''/w'',
     le_client_poisoned = (\<lambda>n calls. False), le_builtin_header = None, le_builtin_digest = ''d'',
     le_frama_c_path = ''frama-c'', le_wp_provers = ''alt-ergo'', le_wp_model = ''Typed'',
     le_database = (\<lambda>n path. Inl ''''), le_parse = (\<lambda>s. Inl ''''), le_refusal_text = (\<lambda>_. []),
     le_decode = (\<lambda>v. Inl '''')\<rparr>"

definition trial_params :: "string option \<Rightarrow> string list option \<Rightarrow> bool option \<Rightarrow> reload_params" where
  "trial_params profile files rte = \<lparr>rp_files = files, rp_include_paths = None, rp_defines = None,
     rp_force_includes = None, rp_isystem_paths = None, rp_nostdinc = None, rp_machdep = None,
     rp_compilation_database = None, rp_rte = rte, rp_rte_unsigned = None, rp_rte_pointer = None,
     rp_builtin_models = None, rp_verify_profiles = None, rp_verify_profiles_source = None,
     rp_verify_profile = profile, rp_full_detail = False\<rparr>"

definition trial_start :: project_server where
  "trial_start = \<lparr>pr_server = \<lparr>srv_session = empty_session\<lparr>ss_verification_profiles := [(''t'', demo_profile)]\<rparr>,
       srv_disk = [], srv_main = False, srv_sandboxes = [], srv_calls = []\<rparr>,
     pr_main = None, pr_locked = False, pr_reads = 0, pr_spawns = 0\<rparr>"

fun succeeds :: "('e + 'a) \<times> 's \<Rightarrow> bool" where
  "succeeds (Inr _, _) = True"
| "succeeds (Inl _, _) = False"

lemma succeedsE: "succeeds r \<Longrightarrow> (\<And>v t. r = (Inr v, t) \<Longrightarrow> P) \<Longrightarrow> P"
  by (cases r rule: succeeds.cases) auto

text \<open>When every request is answered and every start ends with a process that listens, a load succeeds.\<close>

definition willing :: "load_env \<Rightarrow> bool" where
  "willing E \<longleftrightarrow> (\<forall>h c. \<exists>v. answers (le_server E) h c = Inr v) \<and> (\<forall>n line. \<exists>k. le_spawn E n line = Listening k)"

definition total_action :: "'a action \<Rightarrow> bool" where
  "total_action m \<longleftrightarrow> (\<forall>s. succeeds (m s))"

lemma total_answer: "total_action (answer (Inr a))"
  by (simp add: total_action_def answer_def)

lemma total_andThen: "total_action m \<Longrightarrow> (\<And>a. total_action (f a)) \<Longrightarrow> total_action (andThen m f)"
  unfolding total_action_def andThen_def by (metis (no_types, lifting) succeeds.simps(1) succeedsE sum.simps(6) old.prod.case)

lemma total_ask: "willing E \<Longrightarrow> total_action (ask_or f E k p d)"
  unfolding total_action_def
proof
  fix s :: project_server
  assume "willing E"
  then obtain v where "answers (le_server E) (srv_calls (pr_server s)) (main_call k p d) = Inr v"
    unfolding willing_def by blast
  then show "succeeds (ask_or f E k p d s)" by (simp add: ask_or_def ask_def send_def)
qed

lemma adopt_process_ok:
  "\<exists>t. adopt_process E n files opts k booted s = (Inr (), t) \<and> srv_main (pr_server t)"
  by (simp add: adopt_process_def read_identity_def on_session_def Let_def split: prod.splits)

lemma total_finish:
  assumes "willing E" "srv_main (pr_server s)"
  shows "succeeds (finish_reload E params facts s)"
proof -
  note total = total_andThen total_answer total_ask [OF assms(1)]
  have "total_action (andThen (set_warnings E (lf_options facts)) (\<lambda>_. andThen (diagnose E)
      (\<lambda>d. andThen (ast_reload_health E d) (refresh_session E params facts))))"
    unfolding set_warnings_def ask_mcp_def ast_reload_health_def reload_health_get_def reload_health_fetch_all_def
    by (intro total) (simp_all add: total_action_def diagnose_def refresh_session_def Let_def split: prod.splits)
  then show ?thesis
    using assms(2) by (simp add: finish_reload_def andThen_def [of need_client] need_client_def require_client_def
        total_action_def)
qed

lemma trial_load:
  assumes "willing E" "\<not> pr_locked s" "pr_main s = None" "\<not> srv_main (pr_server s)"
    and "resolve_profile E params s = (Inr profile, s1)"
    and "requested_load (le_builtin_digest E) params profile = Inr (Some files, opts)"
  shows "succeeds (reload_project E params s)"
proof -
  note same = resolve_profile_keeps [OF assms(5)]
  have s1: "\<not> pr_locked s1" using assms(2,5) by (auto simp: resolve_profile_def on_session_def split: prod.splits)
  have f: "files_of_load E (Some files) db s1 = (Inr files, s1)" for db
    by (simp add: files_of_load_def files_for_this_load_def)
  let ?s2 = "s1\<lparr>pr_reads := pr_reads s1 + 1\<rparr>"
  let ?id = "source_identity E (pr_reads s1) files (po_machdep opts)"
  obtain n where n: "le_spawn E (pr_spawns s1) (main_frama_c_command_line E files opts (socket_path_of E (pr_spawns s1)))
      = Listening n"
    using assms(1) unfolding willing_def by blast
  have "needs_respawn E opts ?id ?s2" using assms(3) same(1) by (simp add: needs_respawn_def)
  then obtain s3 where s3: "ensure_main_spawned E files opts s1 = (Inr (), s3)" "srv_main (pr_server s3)"
    using n adopt_process_ok [of E "pr_spawns s1" files opts n "fst ?id"]
    by (force simp: ensure_main_spawned_def read_identity_def spawn_main_def Let_def)
  have "succeeds (load_and_finish E params profile (Some files) opts s1)"
    using assms(4) same(3) f s3 total_finish [OF assms(1)]
    by (simp add: load_and_finish_def previous_markers_def andThen_def Let_def)
  then show ?thesis
    using assms(2,5,6) s1
    by (simp add: reload_project_def when_unlocked_def andThen_def answer_def)
qed

lemma willing_trial: "willing (trial_env None)"
  by (simp add: willing_def trial_env_def trial_requests_def trial_answers_def)

lemma trial_by_files: "succeeds (reload_project (trial_env None) (trial_params None (Some [''a.c'']) None) trial_start)"
  by (rule trial_load [OF willing_trial]) (code_simp | simp add: trial_start_def)+

lemma trial_by_profile: "succeeds (reload_project (trial_env None) (trial_params (Some ''t'') None None) trial_start)"
  by (rule trial_load [OF willing_trial]) (code_simp | simp add: trial_start_def)+

lemma kept_record_None [simp]: "kept_record E None"
  by (simp add: kept_record_def)

lemma trial_start_empty [simp]: "pr_main trial_start = None"
  by (simp add: trial_start_def)

lemma reload_holds_what_was_asked_witness:
  "\<exists>m. pr_main (snd (reload_project (trial_env None) (trial_params None (Some [''a.c'']) None) trial_start)) = Some m \<and>
     ms_files m = [''a.c''] \<and> ms_options m = merged_options ''d'' (trial_params None (Some [''a.c'']) None) None"
proof (rule succeedsE [OF trial_by_files])
  fix v t
  let ?p = "trial_params None (Some [''a.c'']) None"
  assume r: "reload_project (trial_env None) ?p trial_start = (Inr v, t)"
  have "fst (resolve_profile (trial_env None) ?p trial_start) = Inr None" by code_simp
  moreover have "requested_files ?p None = Some [''a.c'']" "le_builtin_digest (trial_env None) = ''d''" by code_simp+
  ultimately show ?thesis
    using reload_holds_what_was_asked [OF r] by (auto simp: r)
qed

lemma profile_load_matches_witness:
  "\<exists>m p. pr_main (snd (reload_project (trial_env None) (trial_params (Some ''t'') None None) trial_start)) = Some m \<and>
     profile_matches_loaded_project p (ms_files m) (ms_options m)"
proof (rule succeedsE [OF trial_by_profile])
  fix v t
  assume r: "reload_project (trial_env None) (trial_params (Some ''t'') None None) trial_start = (Inr v, t)"
  have "names_only ''t'' (trial_params (Some ''t'') None None)" by (simp add: names_only_def trial_params_def)
  from profile_load_matches [OF r _ this] show ?thesis by (auto simp: r)
qed

lemma parse_report_is_of_these_sources_witness:
  "\<exists>v t d. reload_project (trial_env None) (trial_params (Some ''t'') None None) trial_start = (Inr v, t) \<and>
     pointer v [''ast_reload_health'', ''parse_diagnostics''] = Some d"
proof (rule succeedsE [OF trial_by_profile])
  fix v t
  assume r: "reload_project (trial_env None) (trial_params (Some ''t'') None None) trial_start = (Inr v, t)"
  from parse_report_is_of_these_sources [OF r] show ?thesis by (auto simp: r)
qed

definition place :: "string \<Rightarrow> u64 \<Rightarrow> marker_location" where
  "place marker line = (missing_marker marker)\<lparr>ml_marker_kind := ''function'', ml_source_line := Some line\<rparr>"

lemma stale_markers_exact_witness:
  "map_of (stale_marker_locations [(''#F1'', place ''#F1'' 3), (''#F2'', place ''#F2'' 9)] [(''#F1'', place ''#F1'' 3)]) ''#F2''
     = Some \<lparr>sm_previous = place ''#F2'' 9, sm_current = missing_marker ''#F2''\<rparr>"
  by (subst stale_markers_exact) (simp_all add: place_def missing_marker_def)

section \<open>What a load that fails late leaves behind\<close>

text \<open>
  The session is brought up to date only after the health check, so a load that fails between the new
  process and that point keeps the results of the program that is gone.
\<close>

definition ran_before :: project_server where
  "ran_before = \<lparr>pr_server = \<lparr>srv_session = empty_session\<lparr>ss_project_loaded := True, ss_eva_completed := True,
         ss_wp_completed := True\<rparr>, srv_disk = [], srv_main = True, srv_sandboxes = [], srv_calls = []\<rparr>,
     pr_main = Some \<lparr>ms_process = 0, ms_files = [''a.c''],
         ms_options = merged_options ''d'' (trial_params None None None) None, ms_log_end = 3,
         ms_digest = fst (source_identity (trial_env None) 0 [''a.c''] None), ms_diagnostics = None,
         ms_working_dir = ''/w'', ms_poisoned = False\<rparr>,
     pr_locked = False, pr_reads = 2, pr_spawns = 1\<rparr>"

lemma late_failure:
  assumes "\<not> pr_locked s" "rp_verify_profile params = None" "rp_verify_profiles params = None"
    and "requested_load (le_builtin_digest E) params None = Inr (Some files, opts)"
    and "previous_markers E s = (previous, s1)"
    and "ensure_main_spawned E files opts s1 = (Inr (), s2)" "srv_main (pr_server s2)"
    and "set_warnings E opts s2 = (Inl e, t)"
  shows "reload_project E params s = (Inl e, t)"
proof -
  have "resolve_profile E params s = (Inr None, s)"
    using assms(2,3) by (simp add: resolve_profile_def resolve_verify_profile_def on_session_def)
  moreover have "files_of_load E (Some files) db s1 = (Inr files, s1)" for db
    by (simp add: files_of_load_def files_for_this_load_def)
  ultimately show ?thesis
    using assms by (simp add: reload_project_def when_unlocked_def andThen_def answer_def load_and_finish_def
        Let_def finish_reload_def need_client_def require_client_def)
qed

lemma late_failure_keeps_results:
  "\<exists>e t. reload_project (trial_env (Some ''kernel.parameters.setWarnInvalidPointer''))
             (trial_params None (Some [''b.c'']) (Some True)) ran_before = (Inl e, t) \<and>
      map_option ms_files (pr_main t) = Some [''b.c''] \<and> ss_project_loaded (session_of t) \<and>
      ss_eva_completed (session_of t) \<and> ss_wp_completed (session_of t)"
proof -
  let ?E = "trial_env (Some ''kernel.parameters.setWarnInvalidPointer'')"
  let ?p = "trial_params None (Some [''b.c'']) (Some True)"
  let ?opts = "merged_options ''d'' ?p None"
  let ?s1 = "snd (previous_markers ?E ran_before)"
  let ?r2 = "ensure_main_spawned ?E [''b.c''] ?opts ?s1"
  let ?r3 = "set_warnings ?E ?opts (snd ?r2)"
  have "\<not> pr_locked ran_before" by (simp add: ran_before_def)
  moreover have "requested_load (le_builtin_digest ?E) ?p None = Inr (Some [''b.c''], ?opts)" by code_simp
  moreover have "succeeds ?r2" "srv_main (pr_server (snd ?r2))" "\<not> succeeds ?r3"
      "map_option ms_files (pr_main (snd ?r3)) = Some [''b.c'']" "ss_project_loaded (session_of (snd ?r3))"
      "ss_eva_completed (session_of (snd ?r3))" "ss_wp_completed (session_of (snd ?r3))"
    by code_simp+
  moreover obtain s2 where "?r2 = (Inr (), s2)" using \<open>succeeds ?r2\<close> by (auto elim: succeedsE)
  moreover obtain e t where "?r3 = (Inl e, t)" using \<open>\<not> succeeds ?r3\<close> by (cases ?r3 rule: succeeds.cases) auto
  moreover have "rp_verify_profile ?p = None" "rp_verify_profiles ?p = None" by (simp_all add: trial_params_def)
  ultimately show ?thesis using late_failure [of ran_before ?p ?E "[''b.c'']" ?opts "fst (previous_markers ?E ran_before)" ?s1 s2 e t]
    by simp
qed

lemma failed_load_is_abandoned_witness:
  "\<exists>e t. ensure_main_spawned (trial_env (Some ''kernel.ast.compute'')) [''a.c'']
       (merged_options ''d'' (trial_params None None None) None) ran_before = (Inl e, t) \<and>
     \<not> ss_project_loaded (session_of t)"
proof -
  let ?r = "ensure_main_spawned (trial_env (Some ''kernel.ast.compute'')) [''a.c'']
      (merged_options ''d'' (trial_params None None None) None) ran_before"
  have n: "\<not> succeeds ?r" "session_of (snd ?r) \<noteq> session_of ran_before" by code_simp+
  then obtain e t where r: "?r = (Inl e, t)" by (cases ?r rule: succeeds.cases) auto
  with n failed_load_is_abandoned [OF r] show ?thesis by auto
qed

end
