(* ===== verification/Goal_Diff.thy ===== *)
theory Goal_Diff
  imports Loading
begin

text \<open>
  What changed between two runs (\<open>proof_goal_diff\<close> of src/src/mcp/analysis.rs): the goals of an earlier
  receipt and of this run are paired by their stable id, and every goal is reported once. Division of
  floating-point numbers is the parameter \<open>ratio\<close>, which answers the bits of the quotient.
\<close>

section \<open>Pairing the goals of two runs\<close>

definition goal_id :: "json \<Rightarrow> string option" where
  "goal_id goal = get_str goal ''stable_goal_id''"

definition status_of :: "json \<Rightarrow> string" where
  "status_of goal = unwrap_or (get_str goal ''status'') ''unknown''"

text \<open>\<open>min_by_key\<close>: the first of the candidates with the least key.\<close>

fun first_min :: "('a \<Rightarrow> nat) \<Rightarrow> 'a list \<Rightarrow> nat option" where
  "first_min k [] = None"
| "first_min k (x # xs) =
     (case first_min k xs of
        None \<Rightarrow> Some 0
      | Some j \<Rightarrow> if k x \<le> k (xs ! j) then Some 0 else Some (Suc j))"

text \<open>The key of a candidate: whether its verdict differs, then whether its status does.\<close>

definition distance :: "json \<Rightarrow> json \<Rightarrow> nat" where
  "distance goal candidate =
     2 * of_bool (receipt_goal_is_progress candidate \<noteq> receipt_goal_is_progress goal) +
     of_bool (status_of candidate \<noteq> status_of goal)"

definition remove_at :: "nat \<Rightarrow> 'a list \<Rightarrow> 'a list" where
  "remove_at n xs = take n xs @ drop (Suc n) xs"

type_synonym waiting = "(string, json list) kv"

definition by_stable_id :: "json list \<Rightarrow> waiting" where
  "by_stable_id previous =
     fold (\<lambda>goal m. case goal_id goal of None \<Rightarrow> m | Some i \<Rightarrow> bt_entry i [] (\<lambda>gs. gs @ [goal]) m) previous []"

definition take_match :: "json \<Rightarrow> string \<Rightarrow> waiting \<Rightarrow> json option \<times> waiting" where
  "take_match goal i waiting =
     (case map_of waiting i of
        None \<Rightarrow> (None, waiting)
      | Some candidates \<Rightarrow>
          (case first_min (distance goal) candidates of
             None \<Rightarrow> (None, waiting)
           | Some n \<Rightarrow> (Some (candidates ! n), bt_insert i (remove_at n candidates) waiting)))"

definition diff_row :: "string \<Rightarrow> json \<Rightarrow> json option \<Rightarrow> json" where
  "diff_row i goal earlier =
     JObj [(''stable_goal_id'', JStr i), (''status'', JStr (status_of goal)),
       (''was'', jopt (\<lambda>e. JStr (status_of e)) earlier),
       (''discharged'', JBool (receipt_goal_is_progress goal)),
       (''was_discharged'', jopt (\<lambda>e. JBool (receipt_goal_is_progress e)) earlier)]"

record goal_diff =
  gd_waiting :: waiting
  gd_newly_proved :: "json list"
  gd_newly_unproved :: "json list"
  gd_status_changed :: "json list"
  gd_appeared :: "json list"
  gd_unchanged :: nat
  gd_shared :: nat
  gd_proved_now :: nat
  gd_proved_before :: nat

definition empty_diff :: "waiting \<Rightarrow> goal_diff" where
  "empty_diff waiting =
     \<lparr>gd_waiting = waiting, gd_newly_proved = [], gd_newly_unproved = [], gd_status_changed = [],
      gd_appeared = [], gd_unchanged = 0, gd_shared = 0, gd_proved_now = 0, gd_proved_before = 0\<rparr>"

definition count_shared :: "json \<Rightarrow> json \<Rightarrow> goal_diff \<Rightarrow> goal_diff" where
  "count_shared goal earlier d =
     d\<lparr>gd_shared := gd_shared d + 1,
       gd_proved_now := gd_proved_now d + of_bool (receipt_goal_is_progress goal),
       gd_proved_before := gd_proved_before d + of_bool (receipt_goal_is_progress earlier)\<rparr>"

definition classify_pair :: "json \<Rightarrow> json \<Rightarrow> json \<Rightarrow> goal_diff \<Rightarrow> goal_diff" where
  "classify_pair row goal earlier d =
     (if receipt_goal_is_progress goal \<noteq> receipt_goal_is_progress earlier
      then if receipt_goal_is_progress goal
           then d\<lparr>gd_newly_proved := gd_newly_proved d @ [row]\<rparr>
           else d\<lparr>gd_newly_unproved := gd_newly_unproved d @ [row]\<rparr>
      else if status_of earlier = status_of goal then d\<lparr>gd_unchanged := gd_unchanged d + 1\<rparr>
      else d\<lparr>gd_status_changed := gd_status_changed d @ [row]\<rparr>)"

definition diff_goal :: "json \<Rightarrow> goal_diff \<Rightarrow> goal_diff" where
  "diff_goal goal d =
     (case goal_id goal of
        None \<Rightarrow> d
      | Some i \<Rightarrow>
          (case take_match goal i (gd_waiting d) of
             (earlier, waiting) \<Rightarrow>
               (let row = diff_row i goal earlier
                in case earlier of
                     None \<Rightarrow> d\<lparr>gd_appeared := gd_appeared d @ [row]\<rparr>
                   | Some e \<Rightarrow> classify_pair row goal e (count_shared goal e (d\<lparr>gd_waiting := waiting\<rparr>)))))"

definition diff_goals :: "json list \<Rightarrow> json list \<Rightarrow> goal_diff" where
  "diff_goals previous current = fold diff_goal current (empty_diff (by_stable_id previous))"

section \<open>The answer\<close>

definition disappeared :: "waiting \<Rightarrow> json list" where
  "disappeared waiting =
     concat (map (\<lambda>(i, goals). map (\<lambda>goal.
       JObj [(''stable_goal_id'', JStr i), (''was'', JStr (status_of goal)),
         (''was_discharged'', JBool (receipt_goal_is_progress goal))]) goals) waiting)"

definition progress_json :: "(int \<Rightarrow> nat \<Rightarrow> u64) \<Rightarrow> json list \<Rightarrow> json" where
  "progress_json ratio goals =
     (let proved = length (filter receipt_goal_is_progress goals)
      in JObj [(''proved'', jnat proved), (''total'', jnat (length goals)),
           (''fraction'', JNum (Float (if goals = [] then 0 else ratio (int proved) (length goals))))])"

definition comparable :: "json list \<Rightarrow> json list \<Rightarrow> goal_diff \<Rightarrow> bool" where
  "comparable previous current d \<longleftrightarrow> gd_shared d = length previous \<and> gd_shared d = length current"

definition proof_goal_diff :: "(int \<Rightarrow> nat \<Rightarrow> u64) \<Rightarrow> string \<Rightarrow> json list \<Rightarrow> json list \<Rightarrow> json" where
  "proof_goal_diff ratio since previous current =
     (let d = diff_goals previous current
      in JObj [(''since'', JStr since),
           (''progress'', JObj [(''comparable'', JBool (comparable previous current d)),
              (''fraction_delta'', JNum (Float (if gd_shared d = 0 then 0
                 else ratio (int (gd_proved_now d) - int (gd_proved_before d)) (gd_shared d)))),
              (''shared_total'', jnat (gd_shared d)),
              (''before'', progress_json ratio previous), (''current'', progress_json ratio current)]),
           (''newly_proved'', JArr (gd_newly_proved d)), (''newly_unproved'', JArr (gd_newly_unproved d)),
           (''status_changed'', JArr (gd_status_changed d)), (''appeared'', JArr (gd_appeared d)),
           (''disappeared'', JArr (disappeared (gd_waiting d))), (''unchanged_count'', jnat (gd_unchanged d))])"

definition unknown_since_error :: "(string \<Rightarrow> string) \<Rightarrow> string \<Rightarrow> mcp_error" where
  "unknown_since_error debug since =
     mcp_error_of InvalidParams
       (''no run with proof_receipt.sha256 '' @ debug since @ '' in this session; '' @
        ''`since` names a receipt this server handed out, and they are not kept across restarts'') None"

section \<open>Every goal is accounted for\<close>

definition with_id :: "string \<Rightarrow> json list \<Rightarrow> json list" where
  "with_id i goals = filter (\<lambda>g. goal_id g = Some i) goals"

definition identified :: "json list \<Rightarrow> json list" where
  "identified goals = filter (\<lambda>g. goal_id g \<noteq> None) goals"

definition waits :: "waiting \<Rightarrow> string \<Rightarrow> json list" where
  "waits w i = (case map_of w i of None \<Rightarrow> [] | Some gs \<Rightarrow> gs)"

definition total_waiting :: "waiting \<Rightarrow> nat" where
  "total_waiting w = sum_list (map (length \<circ> snd) w)"

lemma first_min_range: "first_min k xs = Some n \<Longrightarrow> n < length xs"
  by (induction xs arbitrary: n) (auto split: option.splits if_splits)

lemma first_min_None [simp]: "first_min k xs = None \<longleftrightarrow> xs = []"
  by (cases xs) (auto split: option.splits)

lemma first_min_least: "first_min k xs = Some n \<Longrightarrow> x \<in> set xs \<Longrightarrow> k (xs ! n) \<le> k x"
  by (induction xs arbitrary: n) (fastforce split: option.splits if_splits)+

lemma mset_remove_at: "n < length xs \<Longrightarrow> add_mset (xs ! n) (mset (remove_at n xs)) = mset xs"
  unfolding remove_at_def by (subst (4) id_take_nth_drop [of n xs]) simp_all

lemma length_remove_at: "n < length xs \<Longrightarrow> length (remove_at n xs) = length xs - 1"
  by (simp add: remove_at_def)

lemma waits_insert: "waits (bt_insert i gs w) j = (if j = i then gs else waits w j)"
  by (simp add: waits_def)

lemma total_bt_insert:
  "ordered w \<Longrightarrow> total_waiting (bt_insert i gs w) + length (waits w i) = total_waiting w + length gs"
proof (induction i gs w rule: bt_insert.induct)
  case (2 i gs j hs w)
  have "map_of w i = None" if "i < j"
    using 2(2) that by (auto simp: ordered_def map_of_eq_None_iff dest: less_trans)
  then show ?case using 2 by (auto simp: ordered_def total_waiting_def waits_def split: option.splits)
qed (simp add: total_waiting_def waits_def)

lemma by_stable_id_snoc:
  "by_stable_id (gs @ [g]) =
     (case goal_id g of None \<Rightarrow> by_stable_id gs | Some i \<Rightarrow> bt_entry i [] (\<lambda>gs. gs @ [g]) (by_stable_id gs))"
  by (simp add: by_stable_id_def split: option.split)

lemma by_stable_id_props:
  "ordered (by_stable_id gs) \<and> waits (by_stable_id gs) i = with_id i gs \<and>
   total_waiting (by_stable_id gs) = length (identified gs)"
proof (induction gs rule: rev_induct)
  case Nil
  show ?case by (simp add: by_stable_id_def waits_def with_id_def identified_def total_waiting_def)
next
  case (snoc g gs)
  show ?case
  proof (cases "goal_id g")
    case None
    with snoc show ?thesis by (simp add: by_stable_id_snoc with_id_def identified_def)
  next
    case (Some j)
    have e: "bt_entry j [] (\<lambda>gs. gs @ [g]) w = bt_insert j (waits w j @ [g]) w" for w
      by (simp add: bt_entry_def waits_def)
    show ?thesis
      using Some snoc total_bt_insert [of "by_stable_id gs" j "waits (by_stable_id gs) j @ [g]"]
      by (auto simp: by_stable_id_snoc e waits_insert with_id_def identified_def)
  qed
qed

definition appeared_with :: "string \<Rightarrow> goal_diff \<Rightarrow> nat" where
  "appeared_with i d = length (filter (\<lambda>r. get_str r ''stable_goal_id'' = Some i) (gd_appeared d))"

lemma take_match_cases:
  assumes "take_match goal i w = (earlier, w')" "ordered w"
  shows "ordered w' \<and>
    (earlier = None \<longrightarrow> w' = w \<and> waits w i = []) \<and>
    (\<forall>e. earlier = Some e \<longrightarrow> (\<forall>j. j \<noteq> i \<longrightarrow> waits w' j = waits w j) \<and>
       add_mset e (mset (waits w' i)) = mset (waits w i) \<and>
       Suc (total_waiting w') = total_waiting w \<and>
       (\<forall>c \<in> set (waits w i). distance goal e \<le> distance goal c))"
proof (cases "waits w i = []")
  case True
  then have "earlier = None \<and> w' = w"
    using assms(1) by (auto simp: take_match_def waits_def split: option.splits)
  with True assms(2) show ?thesis by simp
next
  case False
  then obtain cs where cs: "map_of w i = Some cs" "cs \<noteq> []" "waits w i = cs"
    by (auto simp: waits_def split: option.splits)
  then obtain n where n: "first_min (distance goal) cs = Some n" by fastforce
  have len: "n < length cs" using n by (rule first_min_range)
  have w': "earlier = Some (cs ! n)" "w' = bt_insert i (remove_at n cs) w"
    using assms(1) cs n by (simp_all add: take_match_def)
  have "Suc (total_waiting w') = total_waiting w"
    using total_bt_insert [OF assms(2), of i "remove_at n cs"] cs len by (simp add: w' length_remove_at)
  moreover have "\<forall>c \<in> set cs. distance goal (cs ! n) \<le> distance goal c"
    using first_min_least [OF n] by blast
  ultimately show ?thesis
    using cs mset_remove_at [OF len] assms(2) by (simp add: w' waits_insert)
qed

definition accounts :: "json list \<Rightarrow> json list \<Rightarrow> goal_diff \<Rightarrow> bool" where
  "accounts previous seen d \<longleftrightarrow>
     ordered (gd_waiting d) \<and>
     (\<forall>i. length (waits (gd_waiting d) i) = length (with_id i previous) - length (with_id i seen)) \<and>
     (\<forall>i. appeared_with i d = length (with_id i seen) - length (with_id i previous)) \<and>
     gd_shared d + total_waiting (gd_waiting d) = length (identified previous) \<and>
     gd_shared d + length (gd_appeared d) = length (identified seen) \<and>
     length (gd_newly_proved d) + length (gd_newly_unproved d) + length (gd_status_changed d) + gd_unchanged d
       = gd_shared d \<and>
     gd_proved_now d + length (gd_newly_unproved d) = gd_proved_before d + length (gd_newly_proved d)"

lemma accounts_step:
  assumes "accounts previous seen d"
  shows "accounts previous (seen @ [goal]) (diff_goal goal d)"
proof (cases "goal_id goal")
  case None
  with assms show ?thesis by (simp add: accounts_def diff_goal_def with_id_def identified_def)
next
  case (Some i)
  obtain earlier w where t: "take_match goal i (gd_waiting d) = (earlier, w)" by fastforce
  have ord: "ordered (gd_waiting d)"
    and left: "\<And>j. length (waits (gd_waiting d) j) = length (with_id j previous) - length (with_id j seen)"
    and app: "\<And>j. appeared_with j d = length (with_id j seen) - length (with_id j previous)"
    using assms by (simp_all add: accounts_def)
  note m = take_match_cases [OF t ord]
  have row: "get_str (diff_row i goal earlier) ''stable_goal_id'' = Some i"
    by (simp add: diff_row_def get_str_def)
  have seen: "length (with_id j (seen @ [goal])) = length (with_id j seen) + of_bool (j = i)"
    "length (identified (seen @ [goal])) = length (identified seen) + 1" for j
    using Some by (auto simp: with_id_def identified_def)
  show ?thesis
  proof (cases earlier)
    case None
    with m have "waits (gd_waiting d) i = []" by simp
    with left [of i] have more: "length (with_id i previous) \<le> length (with_id i seen)" by simp
    have "appeared_with j (d\<lparr>gd_appeared := gd_appeared d @ [diff_row i goal None]\<rparr>)
        = appeared_with j d + of_bool (j = i)" for j
      using row None by (auto simp: appeared_with_def)
    then show ?thesis
      using assms Some t None more m left app
      by (auto simp: accounts_def diff_goal_def seen Suc_diff_le)
  next
    case e: (Some e)
    with m have w: "ordered w" "\<And>j. j \<noteq> i \<Longrightarrow> waits w j = waits (gd_waiting d) j"
      "add_mset e (mset (waits w i)) = mset (waits (gd_waiting d) i)"
      "Suc (total_waiting w) = total_waiting (gd_waiting d)"
      by auto
    from w(3) have len: "Suc (length (waits w i)) = length (waits (gd_waiting d) i)"
      by (metis size_add_mset size_mset)
    with left [of i] have fewer: "length (with_id i seen) < length (with_id i previous)" by simp
    have waits': "length (waits w j) = length (with_id j previous) - (length (with_id j seen) + of_bool (j = i))" for j
      using left [of j] len w(2) by (cases "j = i") auto
    have app': "appeared_with j d = length (with_id j seen) + of_bool (j = i) - length (with_id j previous)" for j
      using app [of j] fewer by (cases "j = i") auto
    show ?thesis
      using assms Some t e w(1,4) waits' app'
      by (auto simp: accounts_def diff_goal_def Let_def classify_pair_def count_shared_def seen appeared_with_def)
  qed
qed

lemma diff_goals_snoc: "diff_goals previous (seen @ [g]) = diff_goal g (diff_goals previous seen)"
  by (simp add: diff_goals_def)

lemma accounts_diff: "accounts previous current (diff_goals previous current)"
proof (induction current rule: rev_induct)
  case Nil
  show ?case
    using by_stable_id_props
    by (auto simp: diff_goals_def empty_diff_def accounts_def with_id_def [of _ "[]"] identified_def [of "[]"]
        appeared_with_def)
qed (simp add: diff_goals_snoc accounts_step)

lemma length_disappeared: "length (disappeared w) = total_waiting w"
  by (simp add: disappeared_def total_waiting_def length_concat comp_def case_prod_unfold)

text \<open>C38: the comparison of two runs reports every goal that has an identity exactly once: goals are paired as
  far as their identities allow, the paired ones are newly proved, newly unproved, of another status or
  unchanged, the rest has appeared or disappeared, and the gain in proved goals is the difference of the
  first two.\<close>

theorem goal_diff_accounts:
  "let d = diff_goals previous current
   in gd_shared d + length (gd_appeared d) = length (identified current) \<and>
      gd_shared d + length (disappeared (gd_waiting d)) = length (identified previous) \<and>
      length (gd_newly_proved d) + length (gd_newly_unproved d) + length (gd_status_changed d) + gd_unchanged d
        = gd_shared d \<and>
      int (gd_proved_now d) - int (gd_proved_before d)
        = int (length (gd_newly_proved d)) - int (length (gd_newly_unproved d)) \<and>
      appeared_with i d = length (with_id i current) - length (with_id i previous) \<and>
      length (waits (gd_waiting d) i) = length (with_id i previous) - length (with_id i current)"
  using accounts_diff [of previous current]
  by (simp add: accounts_def length_disappeared Let_def)

section \<open>A run that changed nothing\<close>

definition verdict_of :: "json \<Rightarrow> bool \<times> string" where
  "verdict_of goal = (receipt_goal_is_progress goal, status_of goal)"

definition verdicts :: "json list \<Rightarrow> (bool \<times> string) multiset" where
  "verdicts goals = mset (map verdict_of goals)"

lemma distance_0: "distance goal e = 0 \<longleftrightarrow> verdict_of e = verdict_of goal"
  by (auto simp: distance_def verdict_of_def)

lemma same_verdicts_step:
  assumes "goal_id goal = Some i" "ordered (gd_waiting d)"
    and "verdicts (waits (gd_waiting d) i) = add_mset (verdict_of goal) rest"
  shows "\<exists>w. diff_goal goal d = (count_shared goal goal (d\<lparr>gd_waiting := w\<rparr>))\<lparr>gd_unchanged := gd_unchanged d + 1\<rparr> \<and>
    ordered w \<and> (\<forall>j. verdicts (waits w j) = (if j = i then rest else verdicts (waits (gd_waiting d) j)))"
proof -
  obtain earlier w where t: "take_match goal i (gd_waiting d) = (earlier, w)" by fastforce
  note m = take_match_cases [OF t assms(2)]
  have "verdict_of goal \<in># verdicts (waits (gd_waiting d) i)" by (simp add: assms(3))
  then obtain c where c: "c \<in> set (waits (gd_waiting d) i)" "verdict_of c = verdict_of goal"
    by (auto simp: verdicts_def)
  with m obtain e where e: "earlier = Some e" "distance goal e \<le> distance goal c"
      "add_mset e (mset (waits w i)) = mset (waits (gd_waiting d) i)"
      "\<forall>j. j \<noteq> i \<longrightarrow> waits w j = waits (gd_waiting d) j"
    by (cases earlier) auto
  then have same: "verdict_of e = verdict_of goal" using c(2) by (metis distance_0 le_zero_eq)
  have "verdicts (waits (gd_waiting d) i) = add_mset (verdict_of e) (verdicts (waits w i))"
    unfolding verdicts_def mset_map e(3) [symmetric] by simp
  with assms(3) same have "verdicts (waits w i) = rest" by simp
  then have "\<forall>j. verdicts (waits w j) = (if j = i then rest else verdicts (waits (gd_waiting d) j))"
    using e(4) by simp
  moreover have "diff_goal goal d = (count_shared goal goal (d\<lparr>gd_waiting := w\<rparr>))\<lparr>gd_unchanged := gd_unchanged d + 1\<rparr>"
    using assms(1) t e(1) same
    by (simp add: diff_goal_def Let_def classify_pair_def count_shared_def verdict_of_def)
  ultimately show ?thesis using m by blast
qed

definition reported_changes :: "goal_diff \<Rightarrow> json list" where
  "reported_changes d = gd_newly_proved d @ gd_newly_unproved d @ gd_status_changed d @ gd_appeared d"

lemma same_verdicts_fold:
  "ordered (gd_waiting d) \<Longrightarrow> (\<forall>i. verdicts (waits (gd_waiting d) i) = verdicts (with_id i current)) \<Longrightarrow>
   reported_changes (fold diff_goal current d) = reported_changes d \<and>
   (\<forall>i. waits (gd_waiting (fold diff_goal current d)) i = []) \<and> ordered (gd_waiting (fold diff_goal current d))"
proof (induction current arbitrary: d)
  case Nil
  then show ?case by (simp add: verdicts_def with_id_def)
next
  case (Cons goal current)
  show ?case
  proof (cases "goal_id goal")
    case None
    with Cons show ?thesis by (simp add: diff_goal_def with_id_def)
  next
    case (Some i)
    have "verdicts (waits (gd_waiting d) i) = add_mset (verdict_of goal) (verdicts (with_id i current))"
      using Cons.prems(2) Some by (simp add: with_id_def verdicts_def)
    from same_verdicts_step [OF Some Cons.prems(1) this] obtain w where w:
      "diff_goal goal d = (count_shared goal goal (d\<lparr>gd_waiting := w\<rparr>))\<lparr>gd_unchanged := gd_unchanged d + 1\<rparr>"
      "ordered w" "\<And>j. verdicts (waits w j) = (if j = i then verdicts (with_id i current) else verdicts (waits (gd_waiting d) j))"
      by blast
    have "verdicts (with_id j (goal # current)) = verdicts (with_id j current)" if "j \<noteq> i" for j
      using that Some by (simp add: with_id_def)
    with w(3) Cons.prems(2) have "\<forall>j. verdicts (waits w j) = verdicts (with_id j current)" by simp
    with w Cons.IH [of "diff_goal goal d"] show ?thesis
      by (simp add: reported_changes_def count_shared_def)
  qed
qed

lemma disappeared_Nil: "ordered w \<Longrightarrow> (\<And>i. waits w i = []) \<Longrightarrow> disappeared w = []"
proof -
  assume w: "ordered w" "\<And>i. waits w i = []"
  have "gs = []" if "(i, gs) \<in> set w" for i gs
    using that w(2) [of i] ordered_map_of [OF w(1), of i gs] by (simp add: waits_def)
  then show ?thesis by (auto simp: disappeared_def)
qed

text \<open>A run whose goals have the verdicts and statuses the goals of the earlier run have, identity by
  identity and in any order, is reported as unchanged: nothing proved, unproved, changed, appeared or gone.\<close>

theorem same_goals_no_change:
  assumes "\<And>i. verdicts (with_id i previous) = verdicts (with_id i current)"
  shows "reported_changes (diff_goals previous current) = [] \<and>
    disappeared (gd_waiting (diff_goals previous current)) = []"
proof -
  let ?d = "empty_diff (by_stable_id previous)"
  have "ordered (gd_waiting ?d)" "\<forall>i. verdicts (waits (gd_waiting ?d) i) = verdicts (with_id i current)"
    using by_stable_id_props assms by (auto simp: empty_diff_def)
  from same_verdicts_fold [OF this] show ?thesis
    by (auto simp: diff_goals_def empty_diff_def reported_changes_def intro: disappeared_Nil)
qed

definition trial_goal :: "string \<Rightarrow> string \<Rightarrow> json" where
  "trial_goal i status = JObj [(''stable_goal_id'', JStr i), (''status'', JStr status)]"

lemma same_goals_no_change_witness:
  "reported_changes (diff_goals [trial_goal ''a'' ''valid'', trial_goal ''a'' ''unknown'']
      [trial_goal ''a'' ''unknown'', trial_goal ''a'' ''valid'']) = []"
proof -
  have "verdicts (with_id i [trial_goal ''a'' ''valid'', trial_goal ''a'' ''unknown'']) =
      verdicts (with_id i [trial_goal ''a'' ''unknown'', trial_goal ''a'' ''valid''])" for i
    by (simp add: verdicts_def with_id_def trial_goal_def goal_id_def get_str_def add_mset_commute)
  from same_goals_no_change [OF this] show ?thesis by simp
qed

end
