(* ===== verification/Wp_Goals.thy ===== *)
theory Wp_Goals
  imports Loading Scan
begin

text \<open>
  What is read off the rows of properties and goals of a run (src/src/mcp/server.rs and
  src/src/mcp/analysis.rs): the instances proved under a path an earlier instance refuted, the assertions
  and postconditions other goals assume, the goals and rows a \<open>prop\<close> selects, the floor of a profile
  and what the context of a function leaves open.
\<close>

section \<open>Instances after one that failed\<close>

definition property_source_line :: "json \<Rightarrow> u64 option" where
  "property_source_line property =
     Option.bind (Option.bind (jget property ''source'') (\<lambda>s. jget s ''line'')) as_u64"

definition instance_vacuity_key :: "json \<Rightarrow> (string \<times> string) option" where
  "instance_vacuity_key property =
     (if get_str property ''kind'' \<noteq> Some ''instance'' then None
      else map_option (\<lambda>scope. (scope, unwrap_or (get_str property ''predicate'') [])) (get_str property ''scope''))"

record instance_entry =
  in_index :: nat
  in_line :: u64
  in_key :: "string \<times> string"
  in_status :: string

definition instance_entry_of :: "nat \<times> json \<Rightarrow> instance_entry option" where
  "instance_entry_of = (\<lambda>(index, property).
     case (property_source_line property, instance_vacuity_key property) of
       (Some line, Some key) \<Rightarrow>
         Some \<lparr>in_index = index, in_line = line, in_key = key,
               in_status = unwrap_or (get_str property ''normalized_status'') ''unknown''\<rparr>
     | _ \<Rightarrow> None)"

definition instance_entries :: "json list \<Rightarrow> instance_entry list" where
  "instance_entries properties =
     sort_key in_line (List.map_filter instance_entry_of (List.enumerate 0 properties))"

definition vacuity_reason :: string where
  "vacuity_reason = ''An earlier instance of the same property in this function did not prove; this later valid status may be under a contradictory path hypothesis''"

definition mark_vacuous :: "u64 \<times> string \<times> string \<Rightarrow> json \<Rightarrow> json" where
  "mark_vacuous = (\<lambda>(line, marker, status).
     on_object (AList.update ''vacuity_dependency''
        (JObj [(''property'', JStr marker), (''status'', JStr status), (''line'', u64_json line)]) \<circ>
       AList.update ''vacuity_reason'' (JStr vacuity_reason) \<circ>
       AList.update ''normalized_status'' (JStr ''valid_under_false_hypothesis'') \<circ>
       AList.update ''requires_hypotheses'' (JBool True) \<circ>
       AList.update ''counts_as_progress'' (JBool False) \<circ>
       AList.update ''vacuous'' (JBool True)))"

type_synonym first_failed = "(string \<times> string, u64 \<times> string \<times> string) kv"

fun vacuity_loop :: "first_failed \<Rightarrow> instance_entry list \<Rightarrow> json list \<Rightarrow> json list" where
  "vacuity_loop failed [] properties = properties"
| "vacuity_loop failed (e # es) properties =
     (if \<not> status_counts_as_progress (in_status e)
      then vacuity_loop
             (or_insert (in_key e)
               (in_line e, unwrap_or (value_marker (properties ! in_index e)) [], in_status e) failed)
             es properties
      else (case map_of failed (in_key e) of
              None \<Rightarrow> vacuity_loop failed es properties
            | Some f \<Rightarrow>
                if in_line e \<le> fst f then vacuity_loop failed es properties
                else vacuity_loop failed es
                       (properties[in_index e := mark_vacuous f (properties ! in_index e)])))"

definition add_ordered_instance_vacuity_warnings :: "json list \<Rightarrow> json list" where
  "add_ordered_instance_vacuity_warnings properties =
     vacuity_loop [] (instance_entries properties) properties"

section \<open>What other goals assume\<close>

definition postcondition_goal_names :: "string list" where
  "postcondition_goal_names =
     [''post-condition'', ''exit-condition'', ''return-condition'', ''breaking-condition'', ''continue-condition'']"

record assumption =
  as_assert :: bool
  as_owner :: string
  as_key :: string
  as_kind :: string
  as_name :: string
  as_goal_status :: string

definition assumption_of :: "externals \<Rightarrow> json \<Rightarrow> assumption option" where
  "assumption_of E goal =
     (let kind = unwrap_or (get_str goal ''goal_kind'') (fst (classify_wp_goal E goal));
          name = unwrap_or (or_else (get_str goal ''frama_c_goal_name'') (get_str goal ''name'')) ''<unnamed>'';
          name_lc = map to_ascii_lowercase name;
          is_rte_guard = starts_with kind ''rte_'';
          is_assert = (\<not> is_rte_guard \<and> (kind = ''user_assert'' \<or> str_contains name_lc ''assertion''));
          is_postcondition = (\<not> is_rte_guard \<and> \<not> is_assert \<and>
            list_ex (str_contains name_lc) postcondition_goal_names);
          owner = goal_scope_key goal
      in if check_goal_counts_as_progress goal \<or> \<not> (is_assert \<or> is_postcondition) then None
         else Some \<lparr>as_assert = is_assert, as_owner = owner,
           as_key = unwrap_or (get_str goal ''stable_goal_id'')
             (owner @ '':'' @ stable_goal_source_key goal @ '':'' @ name),
           as_kind = kind, as_name = name,
           as_goal_status = normalize_frama_c_status (unwrap_or (own_status goal) ''unknown'')\<rparr>)"

definition assumption_words :: "bool \<Rightarrow> string \<times> string \<times> string" where
  "assumption_words is_assert =
     (if is_assert
      then (''assertion'', ''every goal sequenced after it in the same function'',
            ''Prove it, or delete it and record the gap. Do not add further '' @
            ''assertions to make a dependent goal go green: an unproved hint '' @ ''is assumed too.'')
      else (''postcondition'', ''every call site of this function'',
            ''Prove it, or weaken the contract to what the body supports. '' @
            ''An unproved postcondition is assumed by callers, so leaving it '' @
            ''in place is strictly worse than not claiming it.''))"

definition assumption_finding :: "string option \<Rightarrow> json \<Rightarrow> assumption \<Rightarrow> json" where
  "assumption_finding function goal a =
     (let location = or_else (jget goal ''source_location'') (or_else (jget goal ''source'') (jget goal ''loc''));
          words = assumption_words (as_assert a); what = fst words; who = fst (snd words)
      in JObj [(''id'', JStr (''unproved-assumption:'' @ unwrap_or function ''<run>'' @ '':'' @ as_key a)),
           (''severity'', JStr ''high''), (''category'', JStr ''unproved_assumption''),
           (''file'', JStr (unwrap_or (Option.bind (Option.bind location
              (\<lambda>loc. or_else (jget loc ''file'') (jget loc ''base''))) as_str) ''unknown'')),
           (''line'', jopt u64_json (Option.bind (Option.bind location (\<lambda>loc. jget loc ''line'')) as_u64)),
           (''column'', jopt u64_json (Option.bind (Option.bind location
              (\<lambda>loc. or_else (jget loc ''column'') (jget loc ''col''))) as_u64)),
           (''function'', JStr (if as_owner a = [] then unwrap_or function [] else as_owner a)),
           (''stable_goal_id'', unwrap_or (jget goal ''stable_goal_id'') JNull),
           (''wpo'', unwrap_or (or_else (jget goal ''wpo_id'') (jget goal ''wpo'')) JNull),
           (''clause_or_goal_kind'', JStr (as_kind a)), (''trigger'', JStr (as_name a)),
           (''current_behavior'', JStr (''WP left this '' @ what @ '' at status '' @ as_goal_status a @ ''.'')),
           (''why_problem'', JStr (''WP assumes an unproved '' @ what @ '' for '' @ who @
              '', so a conclusion this run reports as proved may rest on it rather than on the code.'')),
           (''suggested_fix'', JStr (snd (snd words))),
           (''evidence'', JArr [JObj [(''field'', JStr ''normalized_status''), (''value'', JStr (as_goal_status a))]])])"

fun assumption_loop :: "externals \<Rightarrow> string option \<Rightarrow> string set \<Rightarrow> json list \<Rightarrow> json list" where
  "assumption_loop E function seen [] = []"
| "assumption_loop E function seen (goal # goals) =
     (case assumption_of E goal of
        None \<Rightarrow> assumption_loop E function seen goals
      | Some a \<Rightarrow>
          if as_key a \<in> seen then assumption_loop E function seen goals
          else assumption_finding function goal a # assumption_loop E function (insert (as_key a) seen) goals)"

definition unproved_assumption_findings :: "externals \<Rightarrow> json list \<Rightarrow> string option \<Rightarrow> json list" where
  "unproved_assumption_findings E goals function = assumption_loop E function {} goals"

section \<open>Selecting goals and rows\<close>

definition retain_selected_goals :: "json list \<Rightarrow> string list \<Rightarrow> json list" where
  "retain_selected_goals goals selection =
     filter (\<lambda>goal. case get_str goal ''property'' of None \<Rightarrow> False | Some p \<Rightarrow> p \<in> set selection) goals"

definition prop_entry :: "string \<Rightarrow> bool \<times> string" where
  "prop_entry entry =
     (case strip_prefix ''-'' entry of
        Some rest \<Rightarrow> (False, trim rest)
      | None \<Rightarrow> (True, trim (unwrap_or (strip_prefix ''+'' entry) entry)))"

definition prop_entries :: "string \<Rightarrow> (bool \<times> string) list" where
  "prop_entries prop = map prop_entry (filter (\<lambda>e. e \<noteq> []) (map trim (split_on (CHR '','') prop)))"

definition row_matches :: "json \<Rightarrow> string \<Rightarrow> bool" where
  "row_matches row pattern =
     (case strip_prefix ''@'' pattern of
        Some category \<Rightarrow>
          (case as_str (jindex row ''kind'') of None \<Rightarrow> False
           | Some kind \<Rightarrow> kind = category \<or> ends_with kind (''_'' @ category))
      | None \<Rightarrow>
          (case as_array (jindex row ''names'') of None \<Rightarrow> False
           | Some names \<Rightarrow> list_ex (\<lambda>n. as_str n = Some pattern) names))"

definition row_selected :: "(bool \<times> string) list \<Rightarrow> json \<Rightarrow> bool" where
  "row_selected entries row =
     (let any_positive = list_ex fst entries;
          included = (\<not> any_positive \<or> list_ex (\<lambda>e. fst e \<and> row_matches row (snd e)) entries);
          excluded = list_ex (\<lambda>e. \<not> fst e \<and> row_matches row (snd e)) entries
      in included \<and> \<not> excluded)"

definition select_prop_rows :: "json list \<Rightarrow> string \<Rightarrow> string list" where
  "select_prop_rows rows prop =
     List.map_filter (\<lambda>row. as_str (jindex row ''key'')) (filter (row_selected (prop_entries prop)) rows)"

section \<open>The floor of a profile\<close>

definition goal_floor_shortfall ::
    "(string list \<Rightarrow> string) \<Rightarrow> string \<Rightarrow> u32 option \<Rightarrow> json list \<Rightarrow> string list \<Rightarrow> string option" where
  "goal_floor_shortfall debug_list name min_goals goals functions =
     (case min_goals of
        None \<Rightarrow> None
      | Some bound \<Rightarrow>
          (let generated = goals_owned_by goals functions
           in if unat bound \<le> generated then None
              else Some (''verify_profile '' @ dquoted name @ '' requires at least '' @ show_nat (unat bound) @
                '' obligations and this run generated '' @ show_nat generated @ '' for '' @ debug_list functions @
                '', so it is not that target'' @ [apostrophe] @ ''s evidence however many discharged. A dropped contract or an emptied body proves 0 of 0. WP did run: the goals are in Frama-C'' @ [apostrophe] @
                ''s table and reading them back through get_wp_goals or check reports the verdict this refusal is about, and any RTE guards this call generated are still in the AST.'')))"

section \<open>What a context leaves open\<close>

definition assigns_any :: "json \<Rightarrow> bool" where
  "assigns_any v \<longleftrightarrow> pointer_str v [''assigns'', ''kind''] = Some ''any''"

definition callee_finding :: "string \<Rightarrow> json \<Rightarrow> json option" where
  "callee_finding caller callee =
     (case jget callee ''contract'' of
        None \<Rightarrow> None
      | Some contract \<Rightarrow>
          if \<not> (assigns_any contract \<or>
                (case Option.bind (jget contract ''behaviors'') as_array of
                   None \<Rightarrow> False | Some bs \<Rightarrow> list_ex assigns_any bs))
          then None
          else (let name = unwrap_or (get_str callee ''function'') ''<unknown>''
                in Some (JObj [(''id'', JStr (''assumed-callee-contract:'' @ caller @ '':'' @ name)),
                     (''severity'', JStr ''high''), (''category'', JStr ''assumed_callee_contract''),
                     (''function'', JStr caller), (''callee'', JStr name),
                     (''source_location'', unwrap_or (jget callee ''loc'') JNull),
                     (''message'', JStr (''callee '' @ name @ '' has no finite assigns clause; WP may treat the call frame unsafely.'')),
                     (''suggested_fix'', JStr (''Add an explicit assigns clause to '' @ name @ '' before trusting caller proof results.'')),
                     (''evidence'', JArr [JObj [(''field'', JStr ''contract.assigns.kind''), (''value'', JStr ''any'')]])])))"

definition assumed_callee_contract_findings :: "string \<Rightarrow> json \<Rightarrow> json list" where
  "assumed_callee_contract_findings caller context =
     List.map_filter (callee_finding caller) (unwrap_or (get_array context ''callees'') [])"

definition pointer_expression :: "string \<Rightarrow> string" where
  "pointer_expression callee =
     (let inner = trim callee; inner = trim (unwrap_or (strip_prefix ''*'' inner) inner)
      in case Option.bind (strip_prefix ''('' inner) (strip_suffix '')'') of
           Some unwrapped \<Rightarrow>
             if CHR ''('' \<notin> set unwrapped \<and> CHR '')'' \<notin> set unwrapped then trim unwrapped else inner
         | None \<Rightarrow> inner)"

definition unresolved_call_finding :: "(json \<Rightarrow> string) \<Rightarrow> string \<Rightarrow> json \<Rightarrow> json" where
  "unresolved_call_finding print caller call0 =
     (let sid = unwrap_or (jget call0 ''sid'') JNull;
          expression = unwrap_or (get_str call0 ''callee'') ''<unknown>'';
          target = pointer_expression expression
      in JObj [(''id'', JStr (''unresolved-call:'' @ caller @ '':'' @ print sid)),
           (''severity'', JStr ''high''), (''category'', JStr ''unresolved_call''), (''function'', JStr caller),
           (''callee_expression'', JStr expression), (''stmt_id'', sid),
           (''source_location'', unwrap_or (jget call0 ''loc'') JNull),
           (''message'', JStr (caller @ '' calls through '' @ expression @
              '', which names no callee. Without a calls clause WP assumes the pointer may reach any function, including '' @
              caller @ '' itself, and the goals that follow are unprovable rather than slow.'')),
           (''why_problem'', JStr ''Unless a calls clause at this statement names the callee set, WP has no contract to use here and assumes the worst one. The goals it then leaves open are reported as prover timeouts, which names the prover for a defect that is a missing annotation.''),
           (''suggested_fix'', JStr (''Write the callee set at the call site, as in /*@ calls impl_a, impl_b; */ before the statement, naming every function the pointer may hold. Then constrain the pointer in '' @
              caller @ [apostrophe] @ ''s own contract, as in requires '' @ target @
              '' == &impl_a;, naming the one it actually holds. The calls clause alone leaves the call-point goal open, because nothing yet says which function the pointer holds.'')),
           (''evidence'', JArr [JObj [(''field'', JStr ''unresolved_callees[].callee''), (''value'', JStr expression)]])])"

definition unresolved_call_findings :: "(json \<Rightarrow> string) \<Rightarrow> string \<Rightarrow> json \<Rightarrow> json list" where
  "unresolved_call_findings print caller context =
     map (unresolved_call_finding print caller) (unwrap_or (get_array context ''unresolved_callees'') [])"

section \<open>Which instances are marked\<close>

definition proves_instance :: "instance_entry \<Rightarrow> bool" where
  "proves_instance e \<longleftrightarrow> status_counts_as_progress (in_status e)"

definition failure_of :: "json list \<Rightarrow> instance_entry \<Rightarrow> u64 \<times> string \<times> string" where
  "failure_of ps e = (in_line e, unwrap_or (value_marker (ps ! in_index e)) [], in_status e)"

definition record_failures :: "first_failed \<Rightarrow> instance_entry list \<Rightarrow> json list \<Rightarrow> first_failed" where
  "record_failures failed es ps =
     fold (\<lambda>e m. if proves_instance e then m else or_insert (in_key e) (failure_of ps e) m) es failed"

lemma length_vacuity_loop [simp]: "length (vacuity_loop failed es ps) = length ps"
  by (induction failed es ps rule: vacuity_loop.induct) (auto split: option.splits)

lemma vacuity_loop_other: "i \<notin> in_index ` set es \<Longrightarrow> vacuity_loop failed es ps ! i = ps ! i"
  by (induction failed es ps rule: vacuity_loop.induct) (auto split: option.splits)

lemma record_failures_update:
  assumes "j \<notin> in_index ` set es"
  shows "record_failures failed es (ps[j := p]) = record_failures failed es ps"
proof -
  have "failure_of (ps[j := p]) e = failure_of ps e" if "e \<in> set es" for e
  proof -
    have "j \<noteq> in_index e" using that assms by auto
    then show ?thesis by (simp add: failure_of_def)
  qed
  then show ?thesis unfolding record_failures_def by (intro fold_cong) auto
qed

lemma record_failures_Cons:
  "record_failures failed (x # es) ps =
     record_failures (if proves_instance x then failed else or_insert (in_key x) (failure_of ps x) failed) es ps"
  by (simp add: record_failures_def)

lemma vacuity_loop_at:
  assumes "distinct (map in_index (pre @ e # post))" "in_index e < length ps"
  shows "vacuity_loop failed (pre @ e # post) ps ! in_index e =
    (if proves_instance e
     then (case map_of (record_failures failed pre ps) (in_key e) of
             None \<Rightarrow> ps ! in_index e
           | Some f \<Rightarrow> if in_line e \<le> fst f then ps ! in_index e else mark_vacuous f (ps ! in_index e))
     else ps ! in_index e)"
  using assms
proof (induction pre arbitrary: failed ps)
  case Nil
  then have "in_index e \<notin> in_index ` set post" by auto
  with Nil show ?case
    by (auto simp: record_failures_def proves_instance_def vacuity_loop_other split: option.splits)
next
  case (Cons x pre)
  have x: "in_index x \<noteq> in_index e" "in_index x \<notin> in_index ` set pre" using Cons.prems by auto
  note ih = Cons.IH [OF _ , of "ps[in_index x := p]" for p]
  have d: "distinct (map in_index (pre @ e # post))" using Cons.prems by simp
  show ?case
  proof (cases "proves_instance x")
    case True
    show ?thesis
    proof (cases "\<exists>f. map_of failed (in_key x) = Some f \<and> \<not> in_line x \<le> fst f")
      case True
      then obtain f where f: "map_of failed (in_key x) = Some f" "\<not> in_line x \<le> fst f" by blast
      with \<open>proves_instance x\<close> have "vacuity_loop failed ((x # pre) @ e # post) ps
          = vacuity_loop failed (pre @ e # post) (ps[in_index x := mark_vacuous f (ps ! in_index x)])"
        by (simp add: proves_instance_def)
      moreover define qs where "qs = ps[in_index x := mark_vacuous f (ps ! in_index x)]"
      moreover from x have "qs ! in_index e = ps ! in_index e" by (simp add: qs_def)
      moreover from x have "record_failures failed pre qs = record_failures failed (x # pre) ps"
        using \<open>proves_instance x\<close> by (simp add: qs_def record_failures_update record_failures_Cons)
      moreover have "in_index e < length qs" using Cons.prems(2) by (simp add: qs_def)
      ultimately show ?thesis using Cons.IH [OF d, of qs failed] by (simp only:)
    next
      case False
      with \<open>proves_instance x\<close> have "vacuity_loop failed ((x # pre) @ e # post) ps
          = vacuity_loop failed (pre @ e # post) ps"
        by (auto simp: proves_instance_def split: option.splits)
      with Cons.IH [OF d Cons.prems(2), of failed] \<open>proves_instance x\<close>
      show ?thesis by (simp add: record_failures_Cons)
    qed
  next
    case False
    then have "vacuity_loop failed ((x # pre) @ e # post) ps
        = vacuity_loop (or_insert (in_key x) (failure_of ps x) failed) (pre @ e # post) ps"
      by (simp add: proves_instance_def failure_of_def)
    with Cons.IH [OF d Cons.prems(2)] False show ?thesis by (simp add: record_failures_Cons)
  qed
qed

lemma map_of_failures:
  "map_of (record_failures [] es ps) k =
     map_option (failure_of ps) (find (\<lambda>e. in_key e = k \<and> \<not> proves_instance e) es)"
proof (induction es rule: rev_induct)
  case Nil
  show ?case by (simp add: record_failures_def)
next
  case (snoc e es)
  have f: "find P (xs @ [x]) = (case find P xs of Some y \<Rightarrow> Some y | None \<Rightarrow> if P x then Some x else None)"
    for P and xs :: "instance_entry list" and x
    by (induction xs) auto
  show ?case
    using snoc
    by (auto simp: record_failures_def f map_of_or_insert split: option.splits)
qed

lemma find_sorted_least:
  "sorted (map in_line es) \<Longrightarrow> find P es = Some e \<Longrightarrow> x \<in> set es \<Longrightarrow> P x \<Longrightarrow> in_line e \<le> in_line x"
  by (induction es) (auto split: if_splits)


lemma index_of_entry:
  "instance_entry_of (i, p) = Some e \<Longrightarrow> in_index e = i"
  by (auto simp: instance_entry_of_def split: option.splits)

lemma instance_entries_set:
  "set (instance_entries ps) = {e. \<exists>i < length ps. instance_entry_of (i, ps ! i) = Some e}"
proof -
  have "e \<in> set (List.map_filter instance_entry_of (List.enumerate 0 ps))
      \<longleftrightarrow> (\<exists>i < length ps. instance_entry_of (i, ps ! i) = Some e)" for e
    by (fastforce simp: List.map_filter_def in_set_enumerate_eq image_iff)
  then show ?thesis by (auto simp: instance_entries_def)
qed

lemma instance_entries_distinct: "distinct (map in_index (instance_entries ps))"
proof -
  have "distinct (map in_index (List.map_filter instance_entry_of (List.enumerate n ps)))
     \<and> (\<forall>e \<in> set (List.map_filter instance_entry_of (List.enumerate n ps)). n \<le> in_index e)" for n
  proof (induction ps arbitrary: n)
    case (Cons p ps)
    note ih = Cons [of "Suc n"]
    show ?case
    proof (cases "instance_entry_of (n, p)")
      case None
      with ih show ?thesis by (auto simp: List.map_filter_simps)
    next
      case (Some e)
      with ih show ?thesis by (force simp: List.map_filter_simps dest: index_of_entry)
    qed
  qed (simp add: List.map_filter_simps)
  then have "distinct (map in_index (List.map_filter instance_entry_of (List.enumerate 0 ps)))" by blast
  then show ?thesis by (simp add: instance_entries_def distinct_map)
qed

lemma instance_entries_sorted: "sorted (map in_line (instance_entries ps))"
  by (simp add: instance_entries_def)

definition refutes :: "json list \<Rightarrow> nat \<Rightarrow> instance_entry \<Rightarrow> bool" where
  "refutes ps i f \<longleftrightarrow>
     (case instance_entry_of (i, ps ! i) of
        None \<Rightarrow> False
      | Some e \<Rightarrow> proves_instance e \<and> \<not> proves_instance f \<and> in_key f = in_key e \<and> in_line f < in_line e)"

lemma vacuity_at_entry:
  assumes i: "i < length ps" and e: "instance_entry_of (i, ps ! i) = Some e"
  shows "\<exists>pre post. instance_entries ps = pre @ e # post
    \<and> add_ordered_instance_vacuity_warnings ps ! i =
      (if proves_instance e
       then (case find (\<lambda>f. in_key f = in_key e \<and> \<not> proves_instance f) pre of
               None \<Rightarrow> ps ! i
             | Some f \<Rightarrow> if in_line e \<le> in_line f then ps ! i else mark_vacuous (failure_of ps f) (ps ! i))
       else ps ! i)"
proof -
  have "e \<in> set (instance_entries ps)" using i e by (auto simp: instance_entries_set)
  then obtain pre post where s: "instance_entries ps = pre @ e # post" by (metis split_list)
  have ie: "in_index e = i" using e by (rule index_of_entry)
  have "distinct (map in_index (pre @ e # post))" using instance_entries_distinct [of ps] s by simp
  from vacuity_loop_at [OF this, of ps "[]"] i s ie show ?thesis
    by (intro exI [of _ pre] exI [of _ post])
       (simp add: add_ordered_instance_vacuity_warnings_def map_of_failures failure_of_def split: option.splits)
qed

text \<open>C39: a proved instance is marked as possibly vacuous exactly when an instance of the same predicate in
  the same function stands on an earlier line and did not prove; the mark then names such an instance on
  the first line of all, and every other row is left as it is.\<close>
theorem vacuity_marks_exact:
  assumes "i < length ps"
  shows "if \<exists>f \<in> set (instance_entries ps). refutes ps i f
    then \<exists>f \<in> set (instance_entries ps). refutes ps i f
      \<and> (\<forall>g \<in> set (instance_entries ps). refutes ps i g \<longrightarrow> in_line f \<le> in_line g)
      \<and> add_ordered_instance_vacuity_warnings ps ! i = mark_vacuous (failure_of ps f) (ps ! i)
    else add_ordered_instance_vacuity_warnings ps ! i = ps ! i"
proof (cases "instance_entry_of (i, ps ! i)")
  case None
  then have "i \<notin> in_index ` set (instance_entries ps)"
    by (auto simp: instance_entries_set dest: index_of_entry) (metis index_of_entry option.distinct(1))
  with None show ?thesis
    by (simp add: refutes_def add_ordered_instance_vacuity_warnings_def vacuity_loop_other)
next
  case (Some e)
  obtain pre post where s: "instance_entries ps = pre @ e # post"
    and r: "add_ordered_instance_vacuity_warnings ps ! i =
      (if proves_instance e
       then (case find (\<lambda>f. in_key f = in_key e \<and> \<not> proves_instance f) pre of
               None \<Rightarrow> ps ! i
             | Some f \<Rightarrow> if in_line e \<le> in_line f then ps ! i else mark_vacuous (failure_of ps f) (ps ! i))
       else ps ! i)"
    using vacuity_at_entry [OF assms Some] by blast
  have sorted: "sorted (map in_line (pre @ e # post))" using instance_entries_sorted [of ps] s by simp
  have ref: "refutes ps i f \<longleftrightarrow>
      proves_instance e \<and> in_key f = in_key e \<and> \<not> proves_instance f \<and> in_line f < in_line e" for f
    using Some by (auto simp: refutes_def)
  have in_pre: "f \<in> set pre" if "f \<in> set (instance_entries ps)" "refutes ps i f" for f
    using that sorted s by (auto simp: ref sorted_append)
  show ?thesis
  proof (cases "find (\<lambda>f. in_key f = in_key e \<and> \<not> proves_instance f) pre")
    case None
    then have "\<not> (\<exists>f \<in> set (instance_entries ps). refutes ps i f)"
      using in_pre by (auto simp: find_None_iff ref)
    with None r show ?thesis by simp
  next
    case f: (Some f)
    have fp: "f \<in> set pre" "in_key f = in_key e" "\<not> proves_instance f"
      using f by (auto simp: find_Some_iff)
    have least: "in_line f \<le> in_line g" if "g \<in> set (instance_entries ps)" "refutes ps i g" for g
      using find_sorted_least [OF _ f in_pre [OF that]] sorted that(2) by (simp add: ref sorted_append)
    show ?thesis
    proof (cases "refutes ps i f")
      case True
      with f fp r s least show ?thesis by (auto simp: ref)
    next
      case False
      have "\<not> refutes ps i g" if g: "g \<in> set (instance_entries ps)" for g
      proof
        assume "refutes ps i g"
        with least [OF g this] False fp show False by (auto simp: ref)
      qed
      with False f fp r show ?thesis by (auto simp: ref)
    qed
  qed
qed

text \<open>Four instances of one predicate in one function: the second line fails, so the two after it are
  marked and the first is not.\<close>

definition instance_row :: "string \<Rightarrow> nat \<Rightarrow> json" where
  "instance_row status n = JObj [(''kind'', JStr ''instance''), (''scope'', JStr ''f''),
     (''predicate'', JStr ''pre''), (''normalized_status'', JStr status),
     (''source'', JObj [(''line'', u64_json (of_nat n))])]"

definition four_instances :: "json list" where
  "four_instances = [instance_row ''valid'' 10, instance_row ''unknown'' 20, instance_row ''valid'' 30, instance_row ''timeout'' 40]"

lemma vacuity_marks_exact_witness:
  "(\<exists>f \<in> set (instance_entries four_instances). in_line f = 20
      \<and> add_ordered_instance_vacuity_warnings four_instances ! 2 = mark_vacuous (failure_of four_instances f) (four_instances ! 2))
   \<and> add_ordered_instance_vacuity_warnings four_instances ! 0 = four_instances ! 0"
proof -
  have e: "instance_entries four_instances =
      [\<lparr>in_index = 0, in_line = 10, in_key = (''f'', ''pre''), in_status = ''valid''\<rparr>,
       \<lparr>in_index = 1, in_line = 20, in_key = (''f'', ''pre''), in_status = ''unknown''\<rparr>,
       \<lparr>in_index = 2, in_line = 30, in_key = (''f'', ''pre''), in_status = ''valid''\<rparr>,
       \<lparr>in_index = 3, in_line = 40, in_key = (''f'', ''pre''), in_status = ''timeout''\<rparr>]"
    by code_simp
  have r: "map (refutes four_instances 2) (instance_entries four_instances) = [False, True, False, False]"
    "map (refutes four_instances 0) (instance_entries four_instances) = [False, False, False, False]"
    by code_simp+
  have l: "2 < length four_instances" "0 < length four_instances" by (simp_all add: four_instances_def)
  from vacuity_marks_exact [OF l(1)] vacuity_marks_exact [OF l(2)] r show ?thesis
    by (auto simp: e)
qed

end
