(* ===== verification/Wp_Config.thy ===== *)
theory Wp_Config
  imports Reload Wp_Goals
begin

text \<open>
  What a run of WP is asked for and how it is handed to Frama-C (src/src/mcp/server.rs): the provers,
  the time limit, the parallelism and the cache mode, taken from the parameters or from the environment
  variables, the memory models \<open>frama-c -wp-h\<close> names, and the requests that set them.
\<close>

section \<open>Parameters\<close>

record run_wp_params =
  wp_functions :: "string list option"
  wp_prover :: "string option"
  wp_provers :: "string list option"
  wp_timeout :: "u32 option"
  wp_par :: "u32 option"
  wp_steps :: "u32 option"
  wp_model :: "string option"
  wp_prop :: "string option"
  wp_smoke :: "bool option"
  wp_smoke_probe :: bool
  wp_cache :: "string option"
  wp_cancel :: "bool option"
  wp_drain_timeout_seconds :: "u64 option"
  wp_retry_unproved :: "bool option"
  wp_verify_profile :: "string option"

definition refuse :: "string \<Rightarrow> mcp_error" where
  "refuse message = mcp_error_of InvalidParams message None"

definition comma_list :: "string \<Rightarrow> string list" where
  "comma_list value = filter (\<lambda>p. p \<noteq> []) (map trim (split_on (CHR '','') value))"

definition parse_wp_provers :: "string option \<Rightarrow> mcp_error + string list option" where
  "parse_wp_provers value =
     (case value of
        None \<Rightarrow> Inr None
      | Some v \<Rightarrow>
          if comma_list v = [] then Inl (refuse ''FRAMAC_PROVERS must name at least one prover'')
          else Inr (Some (comma_list v)))"

text \<open>\<open>str::parse::<u32>\<close>.\<close>

definition parse_u32 :: "string \<Rightarrow> u32 option" where
  "parse_u32 s =
     (let d = (if starts_with s ''+'' then tl s else s);
          n = foldl (\<lambda>n c. 10 * n + int (byte_of c - 48)) (0 :: int) d
      in if d = [] \<or> \<not> list_all is_ascii_digit d \<or> 2 ^ 32 \<le> n then None else Some (word_of_int n))"

definition parse_wp_u32 :: "string \<Rightarrow> string option \<Rightarrow> mcp_error + u32 option" where
  "parse_wp_u32 name value =
     (case value of
        None \<Rightarrow> Inr None
      | Some v \<Rightarrow>
          (case parse_u32 (trim v) of
             None \<Rightarrow> Inl (refuse (name @ '' must be a non-negative integer''))
           | Some n \<Rightarrow> Inr (Some n)))"

definition validate_wp_par :: "u32 \<Rightarrow> mcp_error + u32" where
  "validate_wp_par par =
     (if par = 0 then Inl (refuse ''WP parallelism must be at least 1'') else Inr par)"

definition default_wp_model :: string where
  "default_wp_model = ''Typed+nocast''"

definition requested_names :: "run_wp_params \<Rightarrow> string list option" where
  "requested_names params = or_else (wp_provers params) (map_option comma_list (wp_prover params))"

definition requested_wp_provers :: "run_wp_params \<Rightarrow> mcp_error + string list option" where
  "requested_wp_provers params =
     (if wp_prover params \<noteq> None \<and> wp_provers params \<noteq> None
      then Inl (refuse ''use either prover or provers, not both'')
      else (case requested_names params of
              None \<Rightarrow> Inr None
            | Some names \<Rightarrow>
                (let provers = map trim names
                 in if provers = [] \<or> [] \<in> set provers
                    then Inl (refuse ''provers must be a non-empty list of non-empty prover names'')
                    else Inr (Some provers))))"

definition effective_wp_provers_from :: "run_wp_params \<Rightarrow> string option \<Rightarrow> mcp_error + string list option" where
  "effective_wp_provers_from params env_value =
     (case requested_wp_provers params of
        Inl e \<Rightarrow> Inl e
      | Inr (Some provers) \<Rightarrow> Inr (Some provers)
      | Inr None \<Rightarrow> parse_wp_provers env_value)"

definition effective_wp_timeout_from :: "run_wp_params \<Rightarrow> string option \<Rightarrow> mcp_error + u32 option" where
  "effective_wp_timeout_from params env_value =
     (case wp_timeout params of
        Some timeout \<Rightarrow> Inr (Some timeout)
      | None \<Rightarrow> parse_wp_u32 ''FRAMAC_TIMEOUT'' env_value)"

definition effective_wp_par_from :: "run_wp_params \<Rightarrow> string option \<Rightarrow> mcp_error + u32 option" where
  "effective_wp_par_from params env_value =
     (case wp_par params of
        Some par \<Rightarrow> (case validate_wp_par par of Inl e \<Rightarrow> Inl e | Inr p \<Rightarrow> Inr (Some p))
      | None \<Rightarrow>
          (case parse_wp_u32 ''FRAMAC_PAR'' env_value of
             Inl e \<Rightarrow> Inl e
           | Inr None \<Rightarrow> Inr None
           | Inr (Some par) \<Rightarrow> (case validate_wp_par par of Inl e \<Rightarrow> Inl e | Inr p \<Rightarrow> Inr (Some p))))"

definition pvdecl_marker :: "(string \<Rightarrow> string) \<Rightarrow> string \<Rightarrow> mcp_error + string" where
  "pvdecl_marker debug declaration =
     (case strip_prefix ''#F'' declaration of
        Some vid \<Rightarrow> Inr (''#v'' @ vid)
      | None \<Rightarrow> Inl (mcp_error_of InternalError
          (''expected an AST.Decl marker like #F26, got '' @ debug declaration) None))"

definition wp_cache_modes :: "string list" where
  "wp_cache_modes = [''None'', ''Update'', ''Replay'', ''Rebuild'', ''Offline'', ''Cleanup'']"

definition validate_wp_cache_mode :: "(string \<Rightarrow> string) \<Rightarrow> string \<Rightarrow> mcp_error + string" where
  "validate_wp_cache_mode debug requested =
     (case find (\<lambda>mode. eq_ignore_ascii_case mode (trim requested)) wp_cache_modes of
        Some mode \<Rightarrow> Inr mode
      | None \<Rightarrow> Inl (refuse (''unknown WP cache mode '' @ debug requested @ ''; expected one of '' @
          join '', '' wp_cache_modes)))"

definition effective_wp_cache :: "(string \<Rightarrow> string) \<Rightarrow> run_wp_params \<Rightarrow> mcp_error + string" where
  "effective_wp_cache debug params = validate_wp_cache_mode debug (unwrap_or (wp_cache params) ''Update'')"

section \<open>Memory models\<close>

record wp_model_support =
  su_bases :: "string list"
  su_modifiers :: "string list"
  su_source :: string

definition accepted_but_undocumented_bases :: "string list" where
  "accepted_but_undocumented_bases = [''Caveat'']"

definition fallback_support :: wp_model_support where
  "fallback_support =
     \<lparr>su_bases = [''Hoare'', ''Typed'', ''Bytes'', ''Region'', ''Eva''] @ accepted_but_undocumented_bases,
      su_modifiers = [''nocast'', ''cast'', ''raw'', ''ref'', ''nat'', ''int'', ''real'', ''float''],
      su_source = ''fallback''\<rparr>"

definition knows :: "string list \<Rightarrow> string \<Rightarrow> bool" where
  "knows known name \<longleftrightarrow> list_ex (\<lambda>k. eq_ignore_ascii_case k name) known"

definition common_models :: "wp_model_support \<Rightarrow> string list" where
  "common_models su =
     fold (\<lambda>model models.
       case split_once ''+'' model of
         None \<Rightarrow> models
       | Some (base, modifier) \<Rightarrow>
           if base \<in> set (su_bases su) \<and> modifier \<in> set (su_modifiers su) \<and> model \<notin> set models
           then models @ [model] else models)
       [''Typed+nocast'', ''Typed+cast''] (su_bases su)"

definition invalid_model :: "wp_model_support \<Rightarrow> string \<Rightarrow> string" where
  "invalid_model su model =
     ''invalid WP model '' @ quoted model @ ''; bases: '' @ join '', '' (su_bases su) @
     ''; modifiers: '' @ join '', '' (su_modifiers su) @ ''; examples: '' @ join '', '' (common_models su)"

definition known_part :: "string list \<Rightarrow> string \<Rightarrow> bool" where
  "known_part known part \<longleftrightarrow> part \<noteq> [] \<and> knows known part"

definition validate_one :: "wp_model_support \<Rightarrow> string \<Rightarrow> string + unit" where
  "validate_one su model =
     (let parts = split_on (CHR ''+'') model
      in if known_part (su_bases su) (hd parts) \<and> list_all (known_part (su_modifiers su)) (tl parts)
         then Inr () else Inl (invalid_model su model))"

fun validate_models :: "wp_model_support \<Rightarrow> string list \<Rightarrow> string + unit" where
  "validate_models su [] = Inr ()"
| "validate_models su (model # models) =
     (case validate_one su (trim model) of Inl e \<Rightarrow> Inl e | Inr _ \<Rightarrow> validate_models su models)"

definition validate_model :: "wp_model_support \<Rightarrow> string \<Rightarrow> string + unit" where
  "validate_model su model = validate_models su (split_on (CHR '','') model)"

text \<open>The texts between pairs of apostrophes; \<open>find\<close> is what precedes and follows the first one.\<close>

function quoted_selectors :: "string \<Rightarrow> string list" where
  "quoted_selectors rest =
     (case split_once [apostrophe] rest of
        None \<Rightarrow> []
      | Some (_, rest1) \<Rightarrow>
          (case split_once [apostrophe] rest1 of
             None \<Rightarrow> []
           | Some (selector, rest2) \<Rightarrow> selector # quoted_selectors rest2))"
  by pat_completeness auto

lemma split_once_shorter: "split_once [c] s = Some (a, b) \<Longrightarrow> length b < length s"
  by (induction s arbitrary: a) (auto split: if_splits option.splits)

termination quoted_selectors
  by (relation "measure length") (auto dest!: split_once_shorter)

declare quoted_selectors.simps [simp del]

definition push_new :: "string \<Rightarrow> string list \<Rightarrow> string list" where
  "push_new name known = (if name = [] \<or> name \<in> set known then known else known @ [name])"

definition record_selector :: "string \<Rightarrow> string list \<times> string list \<Rightarrow> string list \<times> string list" where
  "record_selector selector = (\<lambda>(bases, modifiers).
     case strip_prefix ''+'' selector of
       Some names \<Rightarrow>
         (bases, fold (\<lambda>name. push_new (dropWhile (\<lambda>c. c = CHR ''+'') name)) (split_on (CHR ''/'') names) modifiers)
     | None \<Rightarrow> (push_new selector bases, modifiers))"

fun scan_help :: "bool \<Rightarrow> string list \<Rightarrow> string list \<times> string list \<Rightarrow> string list \<times> string list" where
  "scan_help in_section [] found = found"
| "scan_help in_section (line # lines) found =
     (let trimmed = trim_start line
      in if starts_with trimmed ''-wp-model ''
         then scan_help True lines (fold record_selector (quoted_selectors line) found)
         else if in_section \<and> starts_with trimmed ''-wp-'' then found
         else if \<not> in_section then scan_help False lines found
         else scan_help True lines (fold record_selector (quoted_selectors line) found))"

definition with_undocumented :: "string list \<Rightarrow> string list" where
  "with_undocumented bases =
     fold (\<lambda>extra bs. if knows bs extra then bs else bs @ [extra]) accepted_but_undocumented_bases bases"

definition parse_wp_model_support :: "string \<Rightarrow> wp_model_support" where
  "parse_wp_model_support help =
     (case scan_help False (str_lines help) ([], []) of
        (bases, modifiers) \<Rightarrow>
          if bases = [] \<or> modifiers = [] then fallback_support
          else \<lparr>su_bases = with_undocumented bases, su_modifiers = modifiers, su_source = ''frama-c -wp-h''\<rparr>)"

section \<open>Provers\<close>

definition prover_parts :: "string \<Rightarrow> string \<times> string option" where
  "prover_parts prover0 =
     (let prover = unwrap_or (strip_prefix ''why3:'' prover0) prover0
      in case split_once '':'' prover of
           Some (name, version) \<Rightarrow> (name, Some version)
         | None \<Rightarrow> (prover, None))"

definition prover_id_matches :: "string \<Rightarrow> string \<Rightarrow> bool" where
  "prover_id_matches requested i \<longleftrightarrow>
     (case (prover_parts requested, prover_parts i) of
        ((name, version), (id_name, id_version)) \<Rightarrow>
          eq_ignore_ascii_case name id_name \<and>
          (case (version, id_version) of
             (None, _) \<Rightarrow> True
           | (Some v, Some installed) \<Rightarrow> eq_ignore_ascii_case v installed
           | (Some _, None) \<Rightarrow> False))"

definition unmatched_provers :: "string list \<Rightarrow> string list \<Rightarrow> string list" where
  "unmatched_provers requested ids =
     filter (\<lambda>name. \<not> list_ex (prover_id_matches name) ids) requested"

definition wanted_prover :: "string list \<Rightarrow> string \<Rightarrow> bool" where
  "wanted_prover requested i = list_ex (\<lambda>name. prover_id_matches name i) requested"

end
