(* ===== verification/Wp_Run.thy ===== *)
theory Wp_Run
  imports Wp_Config
begin

text \<open>
  \<open>run_wp\<close> on the main process (src/src/mcp/analysis.rs, src/src/mcp/server.rs): the profile a run is
  labelled with, what is set before a proof starts, the functions and properties that are proved, the
  wait for the queue, the retry of goals that timed out, and the ways out of a run.

  The state is that of Project loading with the memory model the process ran, the counter of cancelled
  queues and a clock in milliseconds: reading the clock adds any time that has passed, sleeping adds at
  least the time slept. What other calls do while this one waits for the lock is a parameter.
\<close>

section \<open>State and environment\<close>

record wp_server =
  ws_project :: project_server
  ws_model_used :: "string option"
  ws_cancel_epoch :: nat
  ws_clock :: nat

record wp_env =
  we_load :: load_env
  we_provers_var :: "string option"
  we_timeout_var :: "string option"
  we_par_var :: "string option"
  we_help :: "call list \<Rightarrow> string"
  we_diagnostics :: "call list \<Rightarrow> json"
  we_lag :: "call list \<Rightarrow> nat"
  we_cancels :: "call list \<Rightarrow> nat"
  we_wait :: "wp_server \<Rightarrow> wp_server"
  we_debug_list :: "string list \<Rightarrow> string"

type_synonym 'a wp_step = "(wp_server, 'a) step"

definition on_project :: "'a action \<Rightarrow> 'a wp_step" where
  "on_project m s = (case m (ws_project s) of (r, p) \<Rightarrow> (r, s\<lparr>ws_project := p\<rparr>))"

definition calls_of :: "wp_server \<Rightarrow> call list" where
  "calls_of s = srv_calls (pr_server (ws_project s))"

definition wp_ask :: "wp_env \<Rightarrow> request_kind \<Rightarrow> string \<Rightarrow> json \<Rightarrow> json wp_step" where
  "wp_ask W kind endpoint data = on_project (ask_mcp (we_load W) kind endpoint data)"

definition wp_reload_fetch :: "wp_env \<Rightarrow> string \<Rightarrow> string \<Rightarrow> json list wp_step" where
  "wp_reload_fetch W reload_request fetch_request =
     on_project (reload_fetch (we_load W) reload_request fetch_request)"

definition debug_of :: "wp_env \<Rightarrow> string \<Rightarrow> string" where
  "debug_of W = debug_str (le_server (we_load W))"

text \<open>The steps of a list, one after the other, collecting the answers.\<close>

fun each :: "('a \<Rightarrow> ('s, 'b) step) \<Rightarrow> 'a list \<Rightarrow> ('s, 'b list) step" where
  "each f [] = answer (Inr [])"
| "each f (x # xs) = andThen (f x) (\<lambda>y. andThen (each f xs) (\<lambda>ys. answer (Inr (y # ys))))"

section \<open>Settings of a run\<close>

definition no_provers_offered :: "wp_env \<Rightarrow> string list \<Rightarrow> string list \<Rightarrow> mcp_error" where
  "no_provers_offered W unmatched ids =
     refuse (''no prover matches '' @ we_debug_list W unmatched @ ''; this Frama-C offers '' @ we_debug_list W ids)"

definition set_prover_state :: "wp_env \<Rightarrow> string list \<Rightarrow> string \<Rightarrow> json wp_step" where
  "set_prover_state W requested i =
     wp_ask W Put ''plugins.wp.setProverState'' (JArr [JStr i, JBool (wanted_prover requested i)])"

definition select_offered :: "wp_env \<Rightarrow> string list \<Rightarrow> json \<Rightarrow> unit wp_step" where
  "select_offered W requested response =
     (case as_array response of
        None \<Rightarrow> answer (Inr ())
      | Some available \<Rightarrow>
          (let ids = List.map_filter as_str available; unmatched = unmatched_provers requested ids
           in if unmatched \<noteq> [] then answer (Inl (no_provers_offered W unmatched ids))
              else andThen (each (set_prover_state W requested) ids) (\<lambda>_. answer (Inr ()))))"

definition apply_prover_selection :: "wp_env \<Rightarrow> string list \<Rightarrow> unit wp_step" where
  "apply_prover_selection W requested s =
     (case ask (we_load W) Get ''plugins.wp.getProvers'' JNull (ws_project s) of
        (Inr response, p) \<Rightarrow> select_offered W requested response (s\<lparr>ws_project := p\<rparr>)
      | (Inl (Rejected i), p) \<Rightarrow>
          andThen (wp_ask W Put ''plugins.wp.setProvers'' (jstrs requested)) (\<lambda>_. answer (Inr ()))
            (s\<lparr>ws_project := p\<rparr>)
      | (Inl e, p) \<Rightarrow>
          (Inl (to_mcp_error (texts (le_server (we_load W))) e), s\<lparr>ws_project := p\<rparr>))"

text \<open>\<open>supported_wp_models\<close>: what the help prints now.\<close>

definition validate_wp_model :: "wp_env \<Rightarrow> string \<Rightarrow> unit wp_step" where
  "validate_wp_model W model s =
     (case validate_model (parse_wp_model_support (we_help W (calls_of s))) model of
        Inl message \<Rightarrow> (Inl (refuse message), s)
      | Inr _ \<Rightarrow> (Inr (), s))"

definition model_of :: "run_wp_params \<Rightarrow> string" where
  "model_of params = unwrap_or (wp_model params) default_wp_model"

definition wp_config :: "run_wp_params \<Rightarrow> u32 option \<Rightarrow> json" where
  "wp_config params par =
     JObj ([(''model'', JStr (model_of params))] @
       (case wp_prop params of None \<Rightarrow> [] | Some prop \<Rightarrow> [(''prop'', JStr prop)]) @
       (case par of None \<Rightarrow> [] | Some p \<Rightarrow> [(''par'', u32_json p)]) @
       [(''steps'', u32_json (unwrap_or (wp_steps params) 0))])"

definition select_provers :: "wp_env \<Rightarrow> string list option \<Rightarrow> unit wp_step" where
  "select_provers W provers =
     (case provers of None \<Rightarrow> answer (Inr ()) | Some ps \<Rightarrow> apply_prover_selection W ps)"

definition set_timeout :: "wp_env \<Rightarrow> u32 \<Rightarrow> json wp_step" where
  "set_timeout W timeout = wp_ask W Put ''plugins.wp.setTimeout'' (u32_json timeout)"

definition set_effective_timeout :: "wp_env \<Rightarrow> run_wp_params \<Rightarrow> unit wp_step" where
  "set_effective_timeout W params =
     andThen (answer (effective_wp_timeout_from params (we_timeout_var W))) (\<lambda>timeout.
       case timeout of
         None \<Rightarrow> answer (Inr ())
       | Some t \<Rightarrow> andThen (set_timeout W t) (\<lambda>_. answer (Inr ())))"

definition apply_wp_config :: "wp_env \<Rightarrow> run_wp_params \<Rightarrow> string list option \<Rightarrow> unit wp_step" where
  "apply_wp_config W params provers =
     andThen (select_provers W provers) (\<lambda>_.
     andThen (set_effective_timeout W params) (\<lambda>_.
     andThen (answer (effective_wp_cache (debug_of W) params)) (\<lambda>cache.
     andThen (wp_ask W Put ''plugins.wp.setCacheMode'' (JStr cache)) (\<lambda>_.
     andThen (validate_wp_model W (model_of params)) (\<lambda>_.
     andThen (answer (effective_wp_par_from params (we_par_var W))) (\<lambda>par.
     andThen (wp_ask W Exec ''plugins.ast-utils.execSetWpConfig'' (wp_config params par)) (\<lambda>_.
       answer (Inr ()))))))))"

section \<open>What is proved\<close>

definition refresh_functions :: "wp_env \<Rightarrow> unit wp_step" where
  "refresh_functions W =
     andThen (wp_reload_fetch W ''kernel.ast.reloadFunctions'' ''kernel.ast.fetchFunctions'') (\<lambda>entries.
     on_project (\<lambda>p. (Inr (), on_session (update_functions entries) p)))"

definition known_function :: "wp_server \<Rightarrow> string \<Rightarrow> function_info option" where
  "known_function s name = resolve_function (srv_session (pr_server (ws_project s))) name"

definition resolve_function_or_refresh :: "wp_env \<Rightarrow> string \<Rightarrow> function_info wp_step" where
  "resolve_function_or_refresh W name s =
     (case known_function s name of
        Some info \<Rightarrow> (Inr info, s)
      | None \<Rightarrow>
          andThen (on_project need_client) (\<lambda>_.
          andThen (refresh_functions W) (\<lambda>_ s'.
            (case known_function s' name of
               Some info \<Rightarrow> (Inr info, s')
             | None \<Rightarrow> (Inl (to_mcp_error (texts (le_server (we_load W))) (FunctionNotFound name)), s')))) s)"

definition all_targets :: "wp_server \<Rightarrow> function_info list" where
  "all_targets s = sort_key fi_name (map snd (session_state.ss_functions (srv_session (pr_server (ws_project s)))))"

definition resolve_wp_targets :: "wp_env \<Rightarrow> string list option \<Rightarrow> function_info list wp_step" where
  "resolve_wp_targets W names =
     (case names of
        None \<Rightarrow> andThen (refresh_functions W) (\<lambda>_ s. (Inr (all_targets s), s))
      | Some ns \<Rightarrow> each (resolve_function_or_refresh W) ns)"

definition print_declaration :: "wp_env \<Rightarrow> function_info \<Rightarrow> json wp_step" where
  "print_declaration W target = wp_ask W Get ''kernel.ast.printDeclaration'' (JStr (fi_declaration target))"

definition guard_function :: "wp_env \<Rightarrow> function_info \<Rightarrow> string wp_step" where
  "guard_function W target =
     andThen (print_declaration W target) (\<lambda>_.
     andThen (answer (pvdecl_marker (debug_of W) (fi_declaration target))) (\<lambda>marker.
     andThen (wp_ask W Exec ''plugins.wp.generateRTEGuards'' (JStr marker)) (\<lambda>_.
       answer (Inr (fi_name target)))))"

definition generate_rte_guards :: "wp_env \<Rightarrow> function_info list \<Rightarrow> string list wp_step" where
  "generate_rte_guards W targets = each (guard_function W) (filter fi_defined targets)"

definition fetch_properties :: "wp_env \<Rightarrow> json list wp_step" where
  "fetch_properties W =
     andThen (wp_reload_fetch W ''kernel.properties.reloadStatus'' ''kernel.properties.fetchStatus'')
       (\<lambda>properties. answer (Inr (add_ordered_instance_vacuity_warnings (map add_identity_fields properties))))"

definition row_in_scope :: "function_info list \<Rightarrow> json \<Rightarrow> bool" where
  "row_in_scope targets row \<longleftrightarrow>
     (case as_str (jindex row ''scope'') of None \<Rightarrow> True | Some scope \<Rightarrow> scope \<in> fi_declaration ` set targets)"

definition row_labels :: "json \<Rightarrow> string list" where
  "row_labels row =
     (case as_str (jindex row ''kind'') of None \<Rightarrow> [] | Some kind \<Rightarrow> [CHR ''@'' # kind]) @
     List.map_filter as_str (unwrap_or (as_array (jindex row ''names'')) [])"

definition selects_nothing :: "wp_env \<Rightarrow> string \<Rightarrow> json list \<Rightarrow> mcp_error" where
  "selects_nothing W prop in_scope =
     refuse (''prop '' @ debug_of W prop @ '' selects no property of the target functions; available: '' @
       we_debug_list W (sort_dedup (concat (map row_labels in_scope))))"

definition select_prop_markers :: "wp_env \<Rightarrow> function_info list \<Rightarrow> string \<Rightarrow> string list wp_step" where
  "select_prop_markers W targets prop =
     andThen (each (print_declaration W) (filter fi_defined targets)) (\<lambda>_.
     andThen (fetch_properties W) (\<lambda>properties.
       let in_scope = filter (row_in_scope targets) properties; selected = select_prop_rows in_scope prop
       in if selected = [] then answer (Inl (selects_nothing W prop in_scope)) else answer (Inr selected)))"

record proof_targets =
  pt_targets :: "function_info list"
  pt_rte_guarded :: "string list"
  pt_decl_markers :: "string list option"
  pt_prop_selection :: "string list option"

definition selection_of :: "wp_env \<Rightarrow> function_info list \<Rightarrow> string option \<Rightarrow> string list option wp_step" where
  "selection_of W targets prop =
     (case prop of
        None \<Rightarrow> answer (Inr None)
      | Some p \<Rightarrow> andThen (select_prop_markers W targets p) (\<lambda>selected. answer (Inr (Some selected))))"

definition resolve_what_to_prove :: "wp_env \<Rightarrow> run_wp_params \<Rightarrow> proof_targets wp_step" where
  "resolve_what_to_prove W params =
     andThen (resolve_wp_targets W (wp_functions params)) (\<lambda>targets.
     andThen (generate_rte_guards W targets) (\<lambda>guarded.
     andThen (selection_of W targets (wp_prop params)) (\<lambda>selection.
       answer (Inr \<lparr>pt_targets = targets, pt_rte_guarded = guarded,
         pt_decl_markers = or_else selection (map_option (\<lambda>_. map fi_declaration targets) (wp_functions params)),
         pt_prop_selection = selection\<rparr>))))"

section \<open>Proving and waiting\<close>

definition with_diagnostics :: "wp_env \<Rightarrow> json \<Rightarrow> json wp_step" where
  "with_diagnostics W data =
     andThen (wp_ask W Exec ''plugins.wp.startProofs'' data) (\<lambda>_ s. (Inr (we_diagnostics W (calls_of s)), s))"

definition proof_marker :: "wp_env \<Rightarrow> string \<Rightarrow> string wp_step" where
  "proof_marker W decl_marker =
     (if starts_with decl_marker ''#p'' then answer (Inr decl_marker)
      else andThen (wp_ask W Get ''kernel.ast.printDeclaration'' (JStr decl_marker))
             (\<lambda>_. answer (pvdecl_marker (debug_of W) decl_marker)))"

definition prove_marker :: "wp_env \<Rightarrow> string \<Rightarrow> json wp_step" where
  "prove_marker W decl_marker =
     andThen (proof_marker W decl_marker) (\<lambda>marker. with_diagnostics W (JStr marker))"

definition start_wp_proofs :: "wp_env \<Rightarrow> string list option \<Rightarrow> json list wp_step" where
  "start_wp_proofs W decl_markers =
     (case decl_markers of
        None \<Rightarrow> andThen (with_diagnostics W JNull) (\<lambda>d. answer (Inr [d]))
      | Some markers \<Rightarrow> each (prove_marker W) markers)"

text \<open>The sum of two counters wraps as a release build adds them.\<close>

definition wp_pending_task_count :: "json \<Rightarrow> u64 option" where
  "wp_pending_task_count tasks =
     (case (Option.bind (jget tasks ''todo'') as_u64, Option.bind (jget tasks ''active'') as_u64) of
        (Some todo, Some active) \<Rightarrow> Some (todo + active)
      | _ \<Rightarrow> None)"

text \<open>The pause before the next look at the queue, doubled each time up to half a second.\<close>

definition backoff :: "nat \<Rightarrow> nat" where
  "backoff n = min 500 (50 * 2 ^ n)"

definition now :: "wp_env \<Rightarrow> wp_server \<Rightarrow> nat \<times> wp_server" where
  "now W s = (let t = ws_clock s + we_lag W (calls_of s) in (t, s\<lparr>ws_clock := t\<rparr>))"

definition sleep :: "nat \<Rightarrow> wp_server \<Rightarrow> wp_server" where
  "sleep ms s = s\<lparr>ws_clock := ws_clock s + ms\<rparr>"

definition left_running :: "u64 \<Rightarrow> nat \<Rightarrow> json" where
  "left_running pending budget =
     JObj [(''pending'', u64_json pending), (''waited_seconds'', jnat (budget div 1000)),
       (''note'', JStr ''WP is still proving. The goals below are what existed when the wait ran out.'')]"

definition drained_tasks :: "nat \<Rightarrow> u64 \<Rightarrow> json \<Rightarrow> json" where
  "drained_tasks budget pending tasks =
     (let tasks' = set_field ''drained'' (JBool (pending = 0)) tasks
      in if 0 < pending then set_field ''left_running'' (left_running pending budget) tasks' else tasks')"

definition scheduled_tasks :: "wp_env \<Rightarrow> json wp_step" where
  "scheduled_tasks W = wp_ask W Get ''plugins.wp.getScheduledTasks'' JNull"

text \<open>The clock is read only when something is pending.\<close>

definition look_at_queue :: "wp_env \<Rightarrow> nat \<Rightarrow> nat \<Rightarrow> wp_server \<Rightarrow> (mcp_error + (bool \<times> json)) \<times> wp_server" where
  "look_at_queue W budget deadline =
     andThen (scheduled_tasks W) (\<lambda>tasks s.
       case wp_pending_task_count tasks of
         None \<Rightarrow> (Inr (False, tasks), s)
       | Some pending \<Rightarrow>
           if 0 < pending
           then (case now W s of (t, s') \<Rightarrow>
             if t < deadline then (Inr (True, tasks), s') else (Inr (False, drained_tasks budget pending tasks), s'))
           else (Inr (False, drained_tasks budget pending tasks), s))"

lemma clock_on_project [simp]: "on_project m s = (r, t) \<Longrightarrow> ws_clock t = ws_clock s"
  by (auto simp: on_project_def split: prod.splits)

lemma look_at_queue_clock:
  assumes "look_at_queue W budget deadline s = (Inr (True, tasks), t)"
  shows "ws_clock s \<le> ws_clock t" "ws_clock t < deadline"
proof -
  obtain q u where q: "scheduled_tasks W s = (Inr q, u)"
    using assms by (auto simp: look_at_queue_def andThen_def split: prod.splits sum.splits)
  have "ws_clock u = ws_clock s" using q by (simp add: scheduled_tasks_def wp_ask_def)
  with assms q show "ws_clock s \<le> ws_clock t" "ws_clock t < deadline"
    by (auto simp: look_at_queue_def andThen_def now_def Let_def split: option.splits if_splits)
qed

function drain_loop :: "wp_env \<Rightarrow> nat \<Rightarrow> nat \<Rightarrow> nat \<Rightarrow> json wp_step" where
  "drain_loop W budget deadline n s =
     (case look_at_queue W budget deadline s of
        (Inl e, s') \<Rightarrow> (Inl e, s')
      | (Inr (again, tasks), s') \<Rightarrow>
          if again then drain_loop W budget deadline (Suc n) (sleep (backoff n) s') else (Inr tasks, s'))"
  by pat_completeness auto

lemma backoff_pos: "0 < backoff n"
  by (simp add: backoff_def)

termination drain_loop
proof (relation "measure (\<lambda>(W, budget, deadline, n, s). deadline - ws_clock s)")
  fix W budget deadline n s x s' b again tasks
  assume "(x, s') = look_at_queue W budget deadline s" "x = Inr b" "(again, tasks) = b" again
  then have "look_at_queue W budget deadline s = (Inr (True, tasks), s')" by auto
  from look_at_queue_clock [OF this] backoff_pos [of n]
  show "((W, budget, deadline, Suc n, sleep (backoff n) s'), W, budget, deadline, n, s)
      \<in> measure (\<lambda>(W, budget, deadline, n, s). deadline - ws_clock s)"
    by (simp add: sleep_def)
qed simp

declare drain_loop.simps [simp del]

definition drain_wp_tasks :: "wp_env \<Rightarrow> nat \<Rightarrow> json wp_step" where
  "drain_wp_tasks W budget s =
     (case now W s of (start, s') \<Rightarrow> drain_loop W budget (start + budget) 0 s')"

definition fetch_wp_goals :: "wp_env \<Rightarrow> json list wp_step" where
  "fetch_wp_goals W =
     andThen (wp_reload_fetch W ''plugins.wp.reloadGoals'' ''plugins.wp.fetchGoals'') (\<lambda>goals s.
       let ids = List.map_filter (\<lambda>goal. get_str goal ''wpo'') goals
       in if ids = [] then (Inr (apply_cache_provenance goals JNull), s)
          else (case ask (we_load W) Get ''plugins.ast-utils.getGoalCacheStats'' (JObj [(''goals'', jstrs ids)])
                  (ws_project s) of
                  (r, p) \<Rightarrow> (Inr (apply_cache_provenance goals (case r of Inl _ \<Rightarrow> JNull | Inr stats \<Rightarrow> stats)),
                             s\<lparr>ws_project := p\<rparr>)))"

section \<open>Goals that timed out\<close>

definition wp_goal_status_is :: "json \<Rightarrow> string \<Rightarrow> bool" where
  "wp_goal_status_is goal normalized \<longleftrightarrow>
     normalize_frama_c_status (unwrap_or (consolidated_status goal) ''unknown'') = normalized"

definition timed_out_goals :: "json list \<Rightarrow> string list" where
  "timed_out_goals goals =
     sort_dedup (List.map_filter wp_goal_identity (filter (\<lambda>goal. wp_goal_status_is goal ''timeout'') goals))"

definition flipped_goals :: "string list \<Rightarrow> json list \<Rightarrow> json list" where
  "flipped_goals timed_out retried =
     filter (\<lambda>goal. wp_goal_status_is goal ''valid'' \<and>
       (case wp_goal_identity goal of None \<Rightarrow> False | Some i \<Rightarrow> i \<in> set timed_out)) retried"

definition timeout_retry_report :: "string list \<Rightarrow> json list \<Rightarrow> u32 \<Rightarrow> u32 \<Rightarrow> json" where
  "timeout_retry_report timed_out retried first_pass_timeout retry_timeout =
     (let flipped = flipped_goals timed_out retried
      in JObj [(''attempted'', JBool True),
           (''timeout_seconds'', JObj [(''first_pass'', u32_json first_pass_timeout), (''retry'', u32_json retry_timeout)]),
           (''timed_out_first_pass'', jnat (length timed_out)),
           (''still_unproved'', jnat (length timed_out - length flipped)),
           (''flipped'', JArr (map (\<lambda>goal. JObj [(''wpo_id'', jopt JStr (wp_goal_identity goal)),
              (''name'', unwrap_or (jget goal ''name'') JNull),
              (''property'', unwrap_or (jget goal ''property'') JNull)]) flipped))])"

definition wp_proof_budget :: nat where
  "wp_proof_budget = 600 * 1000"

definition wp_drain_budget :: nat where
  "wp_drain_budget = wp_proof_budget"

definition prove_and_fetch :: "wp_env \<Rightarrow> string list option \<Rightarrow> json list wp_step" where
  "prove_and_fetch W decl_markers =
     andThen (start_wp_proofs W decl_markers) (\<lambda>_.
     andThen (drain_wp_tasks W wp_drain_budget) (\<lambda>_. fetch_wp_goals W))"

definition narrow :: "string list option \<Rightarrow> json list \<Rightarrow> json list" where
  "narrow selection goals =
     (case selection of None \<Rightarrow> goals | Some keys \<Rightarrow> retain_selected_goals goals keys)"

definition not_attempted :: "string \<Rightarrow> json" where
  "not_attempted reason = JObj [(''attempted'', JBool False), (''reason'', JStr reason)]"

definition doubled_timeout :: "u32 \<Rightarrow> u32" where
  "doubled_timeout t = (if 2 ^ 32 \<le> 2 * uint t then -1 else 2 * t)"

definition retry_params_of :: "run_wp_params \<Rightarrow> u32 \<Rightarrow> run_wp_params" where
  "retry_params_of params doubled = params\<lparr>wp_timeout := Some doubled, wp_cache := Some ''None''\<rparr>"

text \<open>The session gets its time limit back before any failure of the retry is reported.\<close>

definition retry_at :: "wp_env \<Rightarrow> run_wp_params \<Rightarrow> string list option \<Rightarrow> string list option \<Rightarrow> u32 \<Rightarrow> json list wp_step" where
  "retry_at W params provers decl_markers first_pass s =
     (case andThen (apply_wp_config W (retry_params_of params (doubled_timeout first_pass)) provers)
             (\<lambda>_. prove_and_fetch W decl_markers) s of
        (retried, s1) \<Rightarrow>
          (case set_timeout W first_pass s1 of
             (restored, s2) \<Rightarrow>
               (case retried of
                  Inl e \<Rightarrow> (Inl e, s2)
                | Inr goals \<Rightarrow> (case restored of Inl e \<Rightarrow> (Inl e, s2) | Inr _ \<Rightarrow> (Inr goals, s2)))))"

definition session_timeout :: "wp_env \<Rightarrow> u32 wp_step" where
  "session_timeout W =
     andThen (wp_ask W Get ''plugins.wp.getTimeout'' JNull)
       (\<lambda>v. answer (Inr (ucast (unwrap_or (as_u64 v) 0))))"

definition retry_timed_out_goals ::
    "wp_env \<Rightarrow> run_wp_params \<Rightarrow> string list option \<Rightarrow> string list option \<Rightarrow> string list option \<Rightarrow> json list \<Rightarrow>
     (json list \<times> json) wp_step" where
  "retry_timed_out_goals W params provers decl_markers selection goals0 =
     (let goals = narrow selection goals0; timed_out = timed_out_goals goals
      in if wp_retry_unproved params \<noteq> Some True then answer (Inr (goals, JNull))
         else if timed_out = [] then answer (Inr (goals, not_attempted ''no goal timed out''))
         else andThen (session_timeout W) (\<lambda>first_pass.
           if first_pass = 0
           then answer (Inr (goals, not_attempted
             ''the session prover timeout is unset or unbounded, so there is nothing to double''))
           else andThen (retry_at W params provers decl_markers first_pass) (\<lambda>retried0.
             let retried = narrow selection retried0
             in answer (Inr (retried, timeout_retry_report timed_out retried first_pass (doubled_timeout first_pass))))))"

section \<open>The profile of a run\<close>

record applied_profile =
  ap_name :: string
  ap_echo :: json
  ap_min_goals :: "u32 option"

definition profile_prefix :: "string \<Rightarrow> string" where
  "profile_prefix name = ''verify_profile '' @ dquoted name"

definition incomplete_profile :: "verification_profile \<Rightarrow> bool" where
  "incomplete_profile p \<longleftrightarrow>
     vp_model p = None \<or> vp_provers p = [] \<or> vp_timeout_seconds p = None \<or> vp_functions p = [] \<or>
     vp_rte p = None \<or> vp_nostdinc p = None"

definition overrides_profile :: "run_wp_params \<Rightarrow> bool" where
  "overrides_profile params \<longleftrightarrow>
     wp_model params \<noteq> None \<or> wp_timeout params \<noteq> None \<or> wp_prover params \<noteq> None \<or>
     wp_provers params \<noteq> None \<or> wp_prop params \<noteq> None \<or> wp_retry_unproved params = Some True"

definition verify_profile_named :: "string \<Rightarrow> session_state \<Rightarrow> mcp_error + verification_profile" where
  "verify_profile_named name s =
     (case map_of (ss_verification_profiles s) name of
        Some p \<Rightarrow> Inr p
      | None \<Rightarrow> Inl (unknown_verify_profile name (ss_verification_profiles s)))"

definition profile_echo :: "string \<Rightarrow> verification_profile \<Rightarrow> json" where
  "profile_echo name p =
     JObj [(''name'', JStr name), (''model'', jopt JStr (vp_model p)), (''provers'', jstrs (vp_provers p)),
       (''timeout_seconds'', jopt u32_json (vp_timeout_seconds p)), (''rte'', jopt JBool (vp_rte p)),
       (''nostdinc'', jopt JBool (vp_nostdinc p)), (''isystem_paths'', jstrs (vp_isystem_paths p)),
       (''min_goals'', jopt u32_json (vp_min_goals p)),
       (''declared_build_gates_not_run_here'', jstrs (vp_build_gates p)),
       (''reproduce'', jopt JStr (vp_reproduce p))]"

definition with_profile :: "verification_profile \<Rightarrow> run_wp_params \<Rightarrow> run_wp_params" where
  "with_profile p params =
     params\<lparr>wp_functions := Some (unwrap_or (wp_functions params) (vp_functions p)), wp_model := vp_model p,
       wp_timeout := vp_timeout_seconds p,
       wp_prover := (if vp_provers p = [] then wp_prover params else Some (join '','' (vp_provers p)))\<rparr>"

definition covers_profile :: "run_wp_params \<Rightarrow> verification_profile \<Rightarrow> bool" where
  "covers_profile params p \<longleftrightarrow>
     (case wp_functions params of None \<Rightarrow> True | Some fs \<Rightarrow> profile_covers_exactly fs (vp_functions p))"

definition not_the_target :: "wp_env \<Rightarrow> string \<Rightarrow> verification_profile \<Rightarrow> string list \<Rightarrow> mcp_error" where
  "not_the_target W name p functions =
     refuse (profile_prefix name @ '' is the target that proves '' @ we_debug_list W (vp_functions p) @
       ''. This call names '' @ we_debug_list W functions @
       '', so its result would not be evidence about that target. Drop verify_profile and pass the model directly to prove a subset.'')"

definition check_profile ::
    "wp_env \<Rightarrow> string \<Rightarrow> verification_profile \<Rightarrow> run_wp_params \<Rightarrow> main_state option \<Rightarrow> mcp_error + unit" where
  "check_profile W name p params main =
     (if incomplete_profile p
      then Inl (refuse (profile_prefix name @
        '' is missing functions, model, provers, timeout_seconds, rte, or nostdinc, so it cannot be proof evidence''))
      else if overrides_profile params
      then Inl (refuse (profile_prefix name @ '' is proof evidence and cannot be combined with model, prover, provers, timeout, prop, or retry_unproved overrides. Drop verify_profile to deviate from its proof settings.''))
      else (case main of
              None \<Rightarrow> Inl no_project_loaded_error
            | Some m \<Rightarrow>
                if \<not> profile_matches_loaded_project p (ms_files m) (ms_options m)
                then Inl (refuse (profile_prefix name @
                  '' does not match the loaded project. Reload its sources and load settings before using it as proof evidence.''))
                else if \<not> covers_profile params p
                then Inl (not_the_target W name p (unwrap_or (wp_functions params) []))
                else Inr ()))"

definition apply_verify_profile ::
    "wp_env \<Rightarrow> run_wp_params \<Rightarrow> (run_wp_params \<times> applied_profile option) wp_step" where
  "apply_verify_profile W params =
     (case wp_verify_profile params of
        None \<Rightarrow> answer (Inr (params, None))
      | Some name \<Rightarrow> (\<lambda>s.
          andThen (answer (verify_profile_named name (srv_session (pr_server (ws_project s))))) (\<lambda>p.
          andThen (answer (check_profile W name p params (pr_main (ws_project s)))) (\<lambda>_.
            answer (Inr (with_profile p params,
              Some \<lparr>ap_name = name, ap_echo = profile_echo name p, ap_min_goals = vp_min_goals p\<rparr>)))) s))"

section \<open>Ways out of a run\<close>

definition wp_timed_out :: "mcp_error \<Rightarrow> bool" where
  "wp_timed_out error \<longleftrightarrow> Option.bind (mcp_data error) (\<lambda>d. get_str d ''kind'') = Some ''WpTimeout''"

definition with_data :: "(string \<times> json) list \<Rightarrow> mcp_error \<Rightarrow> mcp_error" where
  "with_data new error =
     error\<lparr>mcp_data := map_option (on_object (\<lambda>m. fold (\<lambda>(k, v). AList.update k v) new m)) (mcp_data error)\<rparr>"

definition append_to_error_message :: "string \<Rightarrow> mcp_error \<Rightarrow> mcp_error" where
  "append_to_error_message sentence error =
     (let combined = mcp_message error @ ''; '' @ sentence
      in error\<lparr>mcp_message := combined,
           mcp_data := map_option (on_object (\<lambda>m. if map_of m ''message'' = None then m
             else AList.update ''message'' (JStr combined) m)) (mcp_data error)\<rparr>)"

definition explain_model_change :: "wp_env \<Rightarrow> string \<Rightarrow> string option \<Rightarrow> mcp_error \<Rightarrow> mcp_error" where
  "explain_model_change W requested_model changed_from error =
     (case changed_from of
        None \<Rightarrow> error
      | Some previous \<Rightarrow>
          with_data [(''previous_wp_model'', JStr previous), (''requested_wp_model'', JStr requested_model)]
            (append_to_error_message (''this Frama-C process had already run WP under memory model '' @
               debug_of W previous @ '' and Frama-C does not always accept a change to '' @
               debug_of W requested_model @
               ''; call reload_project for a fresh process, then run_wp with the model you want'') error))"

definition count_cancel :: "wp_server \<Rightarrow> wp_server" where
  "count_cancel s = s\<lparr>ws_cancel_epoch := ws_cancel_epoch s + 1\<rparr>"

definition queue_emptied :: "bool \<Rightarrow> mcp_error \<Rightarrow> mcp_error" where
  "queue_emptied cancelled error =
     with_data [(''wp_queue_cancelled'', JBool cancelled)]
       (append_to_error_message (''WP'' @ [apostrophe] @ ''s queue was '' @
          (if cancelled then ''emptied'' else ''left running, the cancel did not land'') @
          '', so goals already proved keep their verdicts and the next call does not queue behind this one'') error)"

definition after_failed_start :: "wp_env \<Rightarrow> string \<Rightarrow> string option \<Rightarrow> mcp_error \<Rightarrow> 'a wp_step" where
  "after_failed_start W requested_model changed_from error0 s =
     (let error = explain_model_change W requested_model changed_from error0
      in if \<not> wp_timed_out error then (Inl error, s)
         else (case wp_ask W Put ''plugins.wp.cancelProofTasks'' JNull (count_cancel s) of
                 (r, s') \<Rightarrow> (Inl (queue_emptied (\<not> isl r) error), s')))"

definition record_model :: "string \<Rightarrow> wp_server \<Rightarrow> wp_server" where
  "record_model model s =
     (if pr_main (ws_project s) = None then s else s\<lparr>ws_model_used := Some model\<rparr>)"

definition record_model_or_explain_abort ::
    "wp_env \<Rightarrow> mcp_error + json list \<Rightarrow> string \<Rightarrow> string option \<Rightarrow> json list wp_step" where
  "record_model_or_explain_abort W diagnostics requested_model changed_from s =
     (case diagnostics of
        Inr ds \<Rightarrow> (Inr ds, record_model requested_model s)
      | Inl error \<Rightarrow> after_failed_start W requested_model changed_from error s)"

definition cancel_wp_queue :: "wp_env \<Rightarrow> json wp_step" where
  "cancel_wp_queue W =
     andThen (on_project need_client) (\<lambda>_ s.
       andThen (wp_ask W Put ''plugins.wp.cancelProofTasks'' JNull) (\<lambda>_.
       andThen (scheduled_tasks W) (\<lambda>tasks.
         answer (Inr (JObj [(''cancelled'', JBool True), (''scheduled_tasks'', tasks),
           (''note'', JStr (''WP'' @ [apostrophe] @ ''s queue was emptied. Goals already proved keep their verdicts; the rest are simply not scheduled any more.''))]))))
         (count_cancel s))"

section \<open>The run\<close>

datatype run_wp_scope = MainRun | SandboxRun

definition run_wp_target_scope :: "run_wp_params \<Rightarrow> mcp_error + run_wp_scope" where
  "run_wp_target_scope params =
     (case wp_functions params of
        None \<Rightarrow> Inr MainRun
      | Some names \<Rightarrow>
          (let has_sandbox = list_ex (\<lambda>n. CHR '':'' \<in> set n) names;
               has_main = list_ex (\<lambda>n. CHR '':'' \<notin> set n) names
           in if has_sandbox \<and> has_main then Inl (refuse ''functions must all target main or the same sandbox'')
              else if has_sandbox then Inr SandboxRun else Inr MainRun))"

definition run_wp_locked_error :: mcp_error where
  "run_wp_locked_error = project_locked_error
     (''Project is locked. run_wp is blocked during Phase 2 to prevent state pollution. '' @
      ''If you are in verify-function, pass sandbox-prefixed functions. '' @
      ''Do NOT touch the main Frama-C instance. Call verify_program_step with lock_project=false first if this is the final main-project gate.'')"

definition refuse_while_locked :: "unit wp_step" where
  "refuse_while_locked s = (if pr_locked (ws_project s) then (Inl run_wp_locked_error, s) else (Inr (), s))"

definition wait_for_lock :: "wp_env \<Rightarrow> unit wp_step" where
  "wait_for_lock W s = (Inr (), we_wait W s)"

record run_subject =
  rs_model :: string
  rs_files :: "string list"
  rs_options :: project_load_options
  rs_changed_from :: "string option"

definition wp_run_subject :: "run_wp_params \<Rightarrow> run_subject wp_step" where
  "wp_run_subject params s =
     (case pr_main (ws_project s) of
        None \<Rightarrow> (Inl no_project_loaded_error, s)
      | Some m \<Rightarrow>
          (Inr \<lparr>rs_model = model_of params, rs_files = ms_files m, rs_options = ms_options m,
             rs_changed_from = keep_if (\<lambda>previous. previous \<noteq> model_of params) (ws_model_used s)\<rparr>, s))"

definition get_eva_computation_state ::
    "load_env \<Rightarrow> project_server \<Rightarrow> (frama_c_error + json) \<times> project_server" where
  "get_eva_computation_state E s =
     (case ask E Get ''plugins.eva.analysis.getComputationState'' JNull s of
        (Inr v, s') \<Rightarrow> (Inr v, s')
      | (Inl (Rejected i), s') \<Rightarrow> ask E Get ''plugins.eva.general.getComputationState'' JNull s'
      | (Inl e, s') \<Rightarrow> (Inl e, s'))"

definition reset_wp_entry_state :: "load_env \<Rightarrow> bool action" where
  "reset_wp_entry_state E =
     andThen (ask_mcp E Put ''kernel.parameters.setMain'' (JStr ''main'')) (\<lambda>_.
     andThen (ask_mcp E Put ''kernel.parameters.setLibEntry'' (JBool False)) (\<lambda>_ s.
       case get_eva_computation_state E s of
         (Inl e, s') \<Rightarrow> (Inr False, s')
       | (Inr v, s') \<Rightarrow> (Inr (as_str v = Some ''computed''), s')))"

definition eva_is :: "bool \<Rightarrow> session_state \<Rightarrow> session_state" where
  "eva_is b st = st\<lparr>ss_eva_completed := b\<rparr>"

definition enter_wp :: "wp_env \<Rightarrow> unit wp_step" where
  "enter_wp W = on_project
     (andThen (reset_wp_entry_state (we_load W)) (\<lambda>computed s.
        (Inr (), if computed then s else on_session (eva_is False) s)))"

definition drain_budget :: "run_wp_params \<Rightarrow> nat" where
  "drain_budget params =
     (case wp_drain_timeout_seconds params of
        None \<Rightarrow> wp_drain_budget
      | Some seconds \<Rightarrow> 1000 * min (unat seconds) (wp_drain_budget div 1000))"

definition mark_cancelled_mid_run :: "json \<Rightarrow> json" where
  "mark_cancelled_mid_run tasks =
     (if as_object tasks \<noteq> None
      then set_field ''cancelled_mid_run'' (JBool True) (set_field ''drained'' (JBool False) tasks)
      else JObj [(''tasks'', tasks), (''drained'', JBool False), (''cancelled_mid_run'', JBool True)])"

definition epoch :: "wp_env \<Rightarrow> wp_server \<Rightarrow> nat" where
  "epoch W s = ws_cancel_epoch s + we_cancels W (calls_of s)"

definition tasks_of_run :: "wp_env \<Rightarrow> run_wp_params \<Rightarrow> nat \<Rightarrow> json wp_step" where
  "tasks_of_run W params cancel_epoch =
     andThen (drain_wp_tasks W (drain_budget params)) (\<lambda>tasks s.
       (Inr (if epoch W s \<noteq> cancel_epoch then mark_cancelled_mid_run tasks else tasks), s))"

record wp_outcome =
  wo_subject :: run_subject
  wo_targets :: proof_targets
  wo_diagnostics :: "json list"
  wo_tasks :: json
  wo_goals :: "json list"
  wo_timeout_retry :: json
  wo_profile :: "applied_profile option"

definition floor_of_profile :: "wp_env \<Rightarrow> applied_profile option \<Rightarrow> json list \<Rightarrow> string list \<Rightarrow> mcp_error + unit" where
  "floor_of_profile W profile goals functions =
     (case profile of
        None \<Rightarrow> Inr ()
      | Some p \<Rightarrow>
          (case goal_floor_shortfall (we_debug_list W) (ap_name p) (ap_min_goals p) goals functions of
             None \<Rightarrow> Inr ()
           | Some message \<Rightarrow> Inl (refuse message)))"

definition start_recorded :: "wp_env \<Rightarrow> run_subject \<Rightarrow> string list option \<Rightarrow> json list wp_step" where
  "start_recorded W subject markers s =
     (case start_wp_proofs W markers s of
        (r, s') \<Rightarrow> record_model_or_explain_abort W r (rs_model subject) (rs_changed_from subject) s')"

definition prove_targets ::
    "wp_env \<Rightarrow> run_wp_params \<Rightarrow> string list option \<Rightarrow> applied_profile option \<Rightarrow> run_subject \<Rightarrow> proof_targets \<Rightarrow>
     wp_outcome wp_step" where
  "prove_targets W params provers profile subject targets s =
     (let functions = map fi_name (pt_targets targets)
      in andThen (start_recorded W subject (pt_decl_markers targets)) (\<lambda>diagnostics.
         andThen (tasks_of_run W params (epoch W s)) (\<lambda>tasks.
         andThen (fetch_wp_goals W) (\<lambda>goals.
         andThen (retry_timed_out_goals W params provers (pt_decl_markers targets) (pt_prop_selection targets) goals)
           (\<lambda>(goals', retry).
         andThen (answer (floor_of_profile W profile goals' functions)) (\<lambda>_.
           answer (Inr \<lparr>wo_subject = subject, wo_targets = targets, wo_diagnostics = diagnostics, wo_tasks = tasks,
             wo_goals = goals', wo_timeout_retry = retry, wo_profile = profile\<rparr>)))))) s)"

definition run_transaction ::
    "wp_env \<Rightarrow> run_wp_params \<Rightarrow> string list option \<Rightarrow> applied_profile option \<Rightarrow> wp_outcome wp_step" where
  "run_transaction W params provers profile =
     andThen refuse_while_locked (\<lambda>_.
     andThen (wp_run_subject params) (\<lambda>subject.
     andThen (on_project need_client) (\<lambda>_.
     andThen (enter_wp W) (\<lambda>_.
     andThen (apply_wp_config W params provers) (\<lambda>_.
     andThen (resolve_what_to_prove W params) (\<lambda>targets.
       prove_targets W params provers profile subject targets))))))"

text \<open>
  What a call comes to: a run of the main process, a queue emptied, or one of the two other handlers,
  whose work is not part of this model.
\<close>

datatype run_wp_answer =
    Ran wp_outcome
  | Queue_Cancelled json
  | On_Sandbox
  | Isolated_Retries run_wp_params "string list"

definition isolated_provers :: "run_wp_params \<Rightarrow> string list option \<Rightarrow> string list option" where
  "isolated_provers params provers = (if wp_provers params \<noteq> None then provers else None)"

definition run_wp_on_main :: "wp_env \<Rightarrow> run_wp_params \<Rightarrow> run_wp_answer wp_step" where
  "run_wp_on_main W params0 =
     andThen (if wp_verify_profile params0 \<noteq> None then wait_for_lock W else answer (Inr ())) (\<lambda>_.
     andThen (apply_verify_profile W params0) (\<lambda>(params, profile).
     andThen refuse_while_locked (\<lambda>_.
     andThen (answer (effective_wp_provers_from params (we_provers_var W))) (\<lambda>provers.
       case isolated_provers params provers of
         Some ps \<Rightarrow> answer (Inr (Isolated_Retries params ps))
       | None \<Rightarrow>
           andThen (if wp_verify_profile params0 \<noteq> None then answer (Inr ()) else wait_for_lock W) (\<lambda>_.
           andThen (run_transaction W params provers profile) (\<lambda>outcome. answer (Inr (Ran outcome))))))))"

definition run_wp :: "wp_env \<Rightarrow> run_wp_params \<Rightarrow> run_wp_answer wp_step" where
  "run_wp W params =
     andThen (answer (run_wp_target_scope params)) (\<lambda>scope.
       case scope of
         SandboxRun \<Rightarrow>
           if wp_verify_profile params \<noteq> None
           then answer (Inl (refuse ''verify_profile only labels proofs of the loaded main project; sandbox proofs are not target evidence''))
           else answer (Inr On_Sandbox)
       | MainRun \<Rightarrow>
           if wp_cancel params = Some True
           then andThen (cancel_wp_queue W) (\<lambda>v. answer (Inr (Queue_Cancelled v)))
           else run_wp_on_main W params)"

end
