(* ===== verification/Wp_Run_Props.thy ===== *)
theory Wp_Run_Props
  imports Wp_Run Reload_Props
begin

text \<open>
  What is shown of \<open>run_wp\<close>: a run under a profile proves the target of the profile with the settings of
  the profile, the provers asked for are the ones switched on, the retry gives the session its time limit
  back however it ends, the wait for the queue ends after a bounded number of looks, and a locked project
  is left alone. Two collections of rules follow the requests a step sends: \<open>only\<close> speaks of every ending
  of a step, \<open>adds\<close> of the requests that are not reads when it succeeds.
\<close>

section \<open>The requests of a step\<close>

named_theorems sent_rules

definition only :: "(call \<Rightarrow> bool) \<Rightarrow> 'a wp_step \<Rightarrow> bool" where
  "only P m \<longleftrightarrow> (\<forall>s r t. m s = (r, t) \<longrightarrow> (\<exists>new. calls_of t = calls_of s @ new \<and> list_all P new))"

lemma onlyI: "(\<And>s r t. m s = (r, t) \<Longrightarrow> \<exists>new. calls_of t = calls_of s @ new \<and> list_all P new) \<Longrightarrow> only P m"
  by (simp add: only_def)

lemma onlyD: "only P m \<Longrightarrow> m s = (r, t) \<Longrightarrow> \<exists>new. calls_of t = calls_of s @ new \<and> list_all P new"
  by (simp add: only_def)

lemma only_still [sent_rules]: "only P (\<lambda>s. (f s, s))" "only P (\<lambda>s. (f s, s\<lparr>ws_model_used := x\<rparr>))"
  by (auto simp: only_def calls_of_def)

lemma only_answer [sent_rules]: "only P (answer r)"
  by (auto simp: only_def answer_def)

lemma only_andThen [sent_rules]:
  assumes m: "only P m" and f: "\<And>a. only P (f a)"
  shows "only P (andThen m f)"
proof (rule onlyI)
  fix s r t
  assume run: "andThen m f s = (r, t)"
  obtain x u where x: "m s = (x, u)" by fastforce
  from onlyD [OF m x] obtain new where new: "calls_of u = calls_of s @ new" "list_all P new" by blast
  show "\<exists>new. calls_of t = calls_of s @ new \<and> list_all P new"
  proof (cases x)
    case (Inl e)
    with run x new show ?thesis by (auto simp: andThen_def)
  next
    case (Inr a)
    with run x have "f a u = (r, t)" by (simp add: andThen_def)
    from onlyD [OF f this] obtain new' where "calls_of t = calls_of u @ new'" "list_all P new'" by blast
    with new show ?thesis by auto
  qed
qed

lemma ask_calls:
  "ask E kind endpoint data p = (r, q) \<Longrightarrow>
     srv_calls (pr_server q) = srv_calls (pr_server p) @ [main_call kind endpoint data]"
  by (auto simp: ask_def send_def)

lemma only_wp_ask [sent_rules]: "P (main_call kind endpoint data) \<Longrightarrow> only P (wp_ask W kind endpoint data)"
  by (rule onlyI)
     (auto simp: wp_ask_def on_project_def ask_mcp_def ask_or_def calls_of_def split: prod.splits sum.splits
        dest!: ask_calls)

lemma on_project_andThen:
  "on_project (andThen m f) = andThen (on_project m) (\<lambda>a. on_project (f a))"
  by (rule ext) (auto simp: on_project_def andThen_def split: prod.splits sum.splits)

lemma on_project_answer: "on_project (answer r) = answer r"
  by (rule ext) (simp add: on_project_def answer_def)

lemma only_reload_fetch [sent_rules]:
  "P (main_call Get a JNull) \<Longrightarrow> P (main_call FetchAll b JNull) \<Longrightarrow> only P (wp_reload_fetch W a b)"
  unfolding wp_reload_fetch_def reload_fetch_def on_project_andThen on_project_answer wp_ask_def [symmetric]
  by (intro sent_rules)

lemma only_need_client [sent_rules]: "only P (on_project need_client)"
  by (auto simp: only_def on_project_def need_client_def calls_of_def split: sum.splits)

lemma only_if [sent_rules]: "only P m \<Longrightarrow> only P n \<Longrightarrow> only P (if b then m else n)"
  by simp

lemma only_option [sent_rules]:
  "only P m \<Longrightarrow> (\<And>x. only P (f x)) \<Longrightarrow> only P (case x of None \<Rightarrow> m | Some y \<Rightarrow> f y)"
  by (cases x) auto

lemma only_prod [sent_rules]: "(\<And>a b. only P (f a b)) \<Longrightarrow> only P (case x of (a, b) \<Rightarrow> f a b)"
  by (cases x) auto

lemma only_each [sent_rules]: "(\<And>x. only P (f x)) \<Longrightarrow> only P (each f xs)"
  by (induction xs) (auto intro!: sent_rules)

text \<open>The requests that are not reads: those that set something, change the program or start a proof.\<close>

definition steers :: "call \<Rightarrow> bool" where
  "steers c \<longleftrightarrow> call_kind c = Put \<or> call_kind c = Exec"

lemma steers_main_call [simp]: "steers (main_call kind endpoint data) \<longleftrightarrow> kind = Put \<or> kind = Exec"
  by (simp add: steers_def main_call_def)

section \<open>Which steps only read\<close>

lemma only_mono: "only P m \<Longrightarrow> (\<And>c. P c \<Longrightarrow> Q c) \<Longrightarrow> only Q m"
  by (auto simp: only_def list_all_iff) metis

abbreviation calm :: "'a wp_step \<Rightarrow> bool" where
  "calm \<equiv> only (\<lambda>c. \<not> steers c)"

lemma calm_refresh_functions: "calm (refresh_functions W)"
proof -
  have "calm (on_project (\<lambda>p. (Inr (), on_session f p)))" for f
    by (auto simp: only_def on_project_def calls_of_def on_session_def)
  then show ?thesis by (auto simp: refresh_functions_def intro!: sent_rules)
qed

lemma calm_resolve: "calm (resolve_function_or_refresh W name)"
proof (rule onlyI)
  fix s r t
  assume run: "resolve_function_or_refresh W name s = (r, t)"
  have q: "calm (andThen (on_project need_client) (\<lambda>_. andThen (refresh_functions W) (\<lambda>_ s'.
            (case known_function s' name of
               Some info \<Rightarrow> (Inr info, s')
             | None \<Rightarrow> (Inl e, s')))))" for e
    by (intro sent_rules calm_refresh_functions) (auto simp: only_def split: option.splits)
  from run onlyD [OF q] show "\<exists>new. calls_of t = calls_of s @ new \<and> list_all (\<lambda>c. \<not> steers c) new"
    by (auto simp: resolve_function_or_refresh_def split: option.splits)
qed

lemma calm_targets: "calm (resolve_wp_targets W names)"
  by (auto simp: resolve_wp_targets_def intro!: sent_rules calm_refresh_functions calm_resolve)

lemma calls_of_simps [simp]:
  "calls_of (count_cancel s) = calls_of s" "calls_of (sleep ms s) = calls_of s"
  "calls_of (record_model model s) = calls_of s" "calls_of (s\<lparr>ws_clock := c\<rparr>) = calls_of s"
  by (auto simp: calls_of_def count_cancel_def sleep_def record_model_def)

lemma now_calls: "now W s = (c, t) \<Longrightarrow> calls_of t = calls_of s"
  by (auto simp: now_def Let_def)

lemma calm_look: "calm (look_at_queue W budget deadline)"
proof -
  have "calm (\<lambda>s. case x of None \<Rightarrow> (Inr (False, tasks), s)
      | Some pending \<Rightarrow> if 0 < pending
          then (case now W s of (t, s') \<Rightarrow>
             if t < deadline then (Inr (True, tasks), s') else (Inr (False, drained_tasks budget pending tasks), s'))
          else (Inr (False, drained_tasks budget pending tasks), s))" for x tasks
    by (rule onlyI) (auto split: option.splits if_splits prod.splits dest: now_calls)
  moreover have "calm (scheduled_tasks W)" unfolding scheduled_tasks_def by (rule sent_rules) simp
  ultimately show ?thesis unfolding look_at_queue_def by (intro only_andThen)
qed

lemma calm_drain_loop: "calm (drain_loop W budget deadline n)"
proof (rule onlyI)
  fix s r t
  show "drain_loop W budget deadline n s = (r, t) \<Longrightarrow>
      \<exists>new. calls_of t = calls_of s @ new \<and> list_all (\<lambda>c. \<not> steers c) new"
  proof (induction W budget deadline n s rule: drain_loop.induct)
    case (1 W budget deadline n s)
    obtain x u where x: "look_at_queue W budget deadline s = (x, u)" by fastforce
    from onlyD [OF calm_look x] obtain new where
      new: "calls_of u = calls_of s @ new" "list_all (\<lambda>c. \<not> steers c) new" by blast
    show ?case
    proof (cases x)
      case (Inl e)
      with 1(2) x new show ?thesis by (auto simp: drain_loop.simps [of W budget deadline n s])
    next
      case (Inr b)
      obtain again tasks where b: "b = (again, tasks)" by fastforce
      show ?thesis
      proof (cases again)
        case True
        with 1(2) x Inr b have "drain_loop W budget deadline (Suc n) (sleep (backoff n) u) = (r, t)"
          by (simp add: drain_loop.simps [of W budget deadline n s])
        from 1(1) [OF x [symmetric] Inr b [symmetric] True this] new show ?thesis by auto
      next
        case False
        with 1(2) x Inr b new show ?thesis by (auto simp: drain_loop.simps [of W budget deadline n s])
      qed
    qed
  qed
qed

lemma calm_drain: "calm (drain_wp_tasks W budget)"
proof (rule onlyI)
  fix s r t
  assume run: "drain_wp_tasks W budget s = (r, t)"
  obtain c u where c: "now W s = (c, u)" by fastforce
  with run have d: "drain_loop W budget (c + budget) 0 u = (r, t)" by (simp add: drain_wp_tasks_def)
  from onlyD [OF calm_drain_loop d] now_calls [OF c]
  show "\<exists>new. calls_of t = calls_of s @ new \<and> list_all (\<lambda>c. \<not> steers c) new" by simp
qed

lemma calm_tasks: "calm (tasks_of_run W params e)"
  unfolding tasks_of_run_def by (intro only_andThen calm_drain) (auto simp: only_def)

lemma calm_fetch_goals: "calm (fetch_wp_goals W)"
proof -
  have "calm (\<lambda>s. let ids = List.map_filter (\<lambda>goal. get_str goal ''wpo'') goals
       in if ids = [] then (Inr (apply_cache_provenance goals JNull), s)
          else (case ask (we_load W) Get ''plugins.ast-utils.getGoalCacheStats'' (JObj [(''goals'', jstrs ids)])
                  (ws_project s) of
                  (r, p) \<Rightarrow> (Inr (apply_cache_provenance goals (case r of Inl _ \<Rightarrow> JNull | Inr stats \<Rightarrow> stats)),
                             s\<lparr>ws_project := p\<rparr>)))" for goals
    by (rule onlyI) (auto simp: Let_def calls_of_def split: if_splits prod.splits dest!: ask_calls)
  then show ?thesis unfolding fetch_wp_goals_def by (intro only_andThen sent_rules) auto
qed

section \<open>The requests of a successful run\<close>

definition adds :: "call list \<Rightarrow> 'a wp_step \<Rightarrow> bool" where
  "adds cs m \<longleftrightarrow> (\<forall>s a t. m s = (Inr a, t) \<longrightarrow> (\<exists>new. calls_of t = calls_of s @ new \<and> filter steers new = cs))"

lemma addsD: "adds cs m \<Longrightarrow> m s = (Inr a, t) \<Longrightarrow> \<exists>new. calls_of t = calls_of s @ new \<and> filter steers new = cs"
  by (simp add: adds_def)

lemma adds_calm: "calm m \<Longrightarrow> adds [] m"
  by (auto simp: adds_def filter_empty_conv list_all_iff dest!: onlyD)

lemma adds_andThen:
  assumes "adds cs m" "\<And>a. adds ds (f a)"
  shows "adds (cs @ ds) (andThen m f)"
  unfolding adds_def
proof (intro allI impI)
  fix s a t
  assume "andThen m f s = (Inr a, t)"
  then obtain b u where "m s = (Inr b, u)" "f b u = (Inr a, t)" by (auto simp: andThen_Inr)
  with assms obtain new new' where "calls_of u = calls_of s @ new" "filter steers new = cs"
      "calls_of t = calls_of u @ new'" "filter steers new' = ds"
    unfolding adds_def by metis
  then show "\<exists>new. calls_of t = calls_of s @ new \<and> filter steers new = cs @ ds"
    by (intro exI [of _ "new @ new'"]) simp
qed

lemma adds_calm_then: "calm m \<Longrightarrow> (\<And>a. adds ds (f a)) \<Longrightarrow> adds ds (andThen m f)"
  using adds_andThen [OF adds_calm, of m ds f] by simp

lemma adds_then_calm: "adds cs m \<Longrightarrow> (\<And>a. calm (f a)) \<Longrightarrow> adds cs (andThen m f)"
  using adds_andThen [of cs m "[]" f] adds_calm by fastforce

lemma adds_wp_ask:
  assumes "steers (main_call kind endpoint data)"
  shows "adds [main_call kind endpoint data] (wp_ask W kind endpoint data)"
  unfolding adds_def
proof (intro allI impI)
  fix s a t
  assume "wp_ask W kind endpoint data s = (Inr a, t)"
  then have "calls_of t = calls_of s @ [main_call kind endpoint data]"
    by (auto simp: wp_ask_def on_project_def ask_mcp_def ask_or_def calls_of_def split: prod.splits sum.splits
        dest!: ask_calls)
  with assms show "\<exists>new. calls_of t = calls_of s @ new \<and> filter steers new = [main_call kind endpoint data]"
    by simp
qed

definition timeout_call :: "u32 \<Rightarrow> call" where
  "timeout_call t = main_call Put ''plugins.wp.setTimeout'' (u32_json t)"

definition config_call :: "run_wp_params \<Rightarrow> u32 option \<Rightarrow> call" where
  "config_call params par = main_call Exec ''plugins.ast-utils.execSetWpConfig'' (wp_config params par)"

lemma calm_validate: "calm (validate_wp_model W model)"
  by (auto simp: only_def validate_wp_model_def split: sum.splits)

lemma calm_answer: "calm (answer r)"
  by (rule sent_rules)

lemma answer_andThen: "andThen (answer (Inr a)) f = f a" "andThen (answer (Inl e)) f = answer (Inl e)"
  by (auto simp: andThen_def answer_def)

lemma adds_failed: "adds cs (answer (Inl e))"
  by (simp add: adds_def answer_def)

definition cache_call :: "string \<Rightarrow> call" where
  "cache_call mode = main_call Put ''plugins.wp.setCacheMode'' (JStr mode)"

lemma adds_effective_timeout:
  "wp_timeout params = Some t \<Longrightarrow> adds [timeout_call t] (set_effective_timeout W params)"
  unfolding set_effective_timeout_def effective_wp_timeout_from_def set_timeout_def timeout_call_def
  by (simp add: answer_andThen) (intro adds_then_calm adds_wp_ask calm_answer, simp)

definition set_after_provers :: "wp_env \<Rightarrow> run_wp_params \<Rightarrow> unit wp_step" where
  "set_after_provers W params =
     andThen (set_effective_timeout W params) (\<lambda>_.
     andThen (answer (effective_wp_cache (debug_of W) params)) (\<lambda>cache.
     andThen (wp_ask W Put ''plugins.wp.setCacheMode'' (JStr cache)) (\<lambda>_.
     andThen (validate_wp_model W (model_of params)) (\<lambda>_.
     andThen (answer (effective_wp_par_from params (we_par_var W))) (\<lambda>par.
     andThen (wp_ask W Exec ''plugins.ast-utils.execSetWpConfig'' (wp_config params par)) (\<lambda>_.
       answer (Inr ())))))))"

lemma config_in_parts: "apply_wp_config W params provers = andThen (select_provers W provers) (\<lambda>_. set_after_provers W params)"
  by (simp add: apply_wp_config_def set_after_provers_def)

lemma after_provers_sent:
  assumes "set_after_provers W params s = (Inr (), t)" "wp_timeout params = Some limit"
  obtains cache par new where
    "effective_wp_cache (debug_of W) params = Inr cache" "effective_wp_par_from params (we_par_var W) = Inr par"
    "calls_of t = calls_of s @ new" "filter steers new = [timeout_call limit, cache_call cache, config_call params par]"
proof -
  from assms(1) obtain cache par where
    c: "effective_wp_cache (debug_of W) params = Inr cache" and p: "effective_wp_par_from params (we_par_var W) = Inr par"
    by (auto simp: set_after_provers_def andThen_Inr answer_Inr)
  have last: "adds [config_call params par]
      (andThen (wp_ask W Exec ''plugins.ast-utils.execSetWpConfig'' (wp_config params par)) (\<lambda>_. answer (Inr ())))"
    unfolding config_call_def by (rule adds_then_calm [OF adds_wp_ask calm_answer]) simp
  have cache: "adds [cache_call cache] (wp_ask W Put ''plugins.wp.setCacheMode'' (JStr cache))"
    unfolding cache_call_def by (rule adds_wp_ask) simp
  have "adds ([timeout_call limit] @ [cache_call cache] @ [config_call params par]) (set_after_provers W params)"
    unfolding set_after_provers_def c p answer_andThen
    by (rule adds_andThen [OF adds_effective_timeout [OF assms(2)]], rule adds_andThen [OF cache],
        rule adds_calm_then [OF calm_validate], rule last)
  from addsD [OF this assms(1)] that [OF c p] show thesis by auto
qed

lemma calm_retry_off:
  "wp_retry_unproved params \<noteq> Some True \<Longrightarrow> calm (retry_timed_out_goals W params provers markers selection goals)"
  by (simp add: retry_timed_out_goals_def Let_def calm_answer)

text \<open>The marker \<open>startProofs\<close> and \<open>generateRTEGuards\<close> take for a declaration.\<close>

definition marker_of :: "string \<Rightarrow> string" where
  "marker_of declaration = (case strip_prefix ''#F'' declaration of Some vid \<Rightarrow> ''#v'' @ vid | None \<Rightarrow> declaration)"

definition guard_call :: "function_info \<Rightarrow> call" where
  "guard_call target = main_call Exec ''plugins.wp.generateRTEGuards'' (JStr (marker_of (fi_declaration target)))"

definition start_call :: "function_info \<Rightarrow> call" where
  "start_call target = main_call Exec ''plugins.wp.startProofs'' (JStr (marker_of (fi_declaration target)))"

lemma pvdecl_marker_of: "pvdecl_marker debug declaration = Inr m \<Longrightarrow> m = marker_of declaration"
  by (simp add: pvdecl_marker_def marker_of_def split: option.splits)

lemma adds_each: "(\<And>x. adds [c x] (f x)) \<Longrightarrow> adds (map c xs) (each f xs)"
proof (induction xs)
  case Nil
  then show ?case by (simp add: adds_def answer_def)
next
  case (Cons x xs)
  from adds_andThen [OF Cons.prems, OF adds_then_calm [OF Cons.IH [OF Cons.prems] calm_answer], of x]
  show ?case by simp
qed

lemma adds_marker_then:
  "(\<And>m. m = marker_of d \<Longrightarrow> adds cs (f m)) \<Longrightarrow> adds cs (andThen (answer (pvdecl_marker debug d)) f)"
  by (cases "pvdecl_marker debug d") (auto simp: answer_andThen adds_failed dest: pvdecl_marker_of)

lemma adds_guard: "adds [guard_call target] (guard_function W target)"
  unfolding guard_function_def print_declaration_def
  by (rule adds_calm_then, rule sent_rules, simp, rule adds_marker_then,
      rule adds_then_calm [OF _ calm_answer], unfold guard_call_def, simp only:, rule adds_wp_ask, simp)

lemma adds_diagnosed: "adds [main_call Exec ''plugins.wp.startProofs'' data] (with_diagnostics W data)"
  unfolding with_diagnostics_def by (rule adds_then_calm, rule adds_wp_ask, simp, rule sent_rules)

lemma adds_start: "adds [start_call target] (prove_marker W (fi_declaration target))"
proof (cases "starts_with (fi_declaration target) ''#p''")
  case True
  then have "\<not> prefix ''#F'' (fi_declaration target)"
    by (cases "fi_declaration target" rule: remdups_adj.cases) (auto simp: starts_with_def)
  then have "marker_of (fi_declaration target) = fi_declaration target"
    by (auto simp: marker_of_def strip_prefix_def split: option.splits if_splits)
  with True adds_diagnosed show ?thesis
    by (simp add: prove_marker_def proof_marker_def answer_andThen start_call_def)
next
  case False
  have a: "andThen (andThen m (\<lambda>_. answer x)) f = andThen m (\<lambda>_. andThen (answer x) f)" for m :: "json wp_step" and x f
    by (rule ext) (auto simp: andThen_def answer_def split: prod.splits sum.splits)
  show ?thesis
    unfolding prove_marker_def proof_marker_def if_not_P [OF False] a
    by (rule adds_calm_then, rule sent_rules, simp, rule adds_marker_then, unfold start_call_def, simp only:,
        rule adds_diagnosed)
qed

lemma started_requests:
  assumes "start_recorded W subject (Some (map fi_declaration targets)) s = (Inr ds, t)"
  shows "\<exists>new. calls_of t = calls_of s @ new \<and> filter steers new = map start_call targets"
proof -
  obtain x u where x: "start_wp_proofs W (Some (map fi_declaration targets)) s = (x, u)" by fastforce
  with assms have y: "record_model_or_explain_abort W x (rs_model subject) (rs_changed_from subject) u = (Inr ds, t)"
    by (simp add: start_recorded_def)
  then obtain ds' where "x = Inr ds'" and t: "calls_of t = calls_of u"
    by (cases x) (auto simp: record_model_or_explain_abort_def after_failed_start_def Let_def split: if_splits prod.splits)
  have m: "each (prove_marker W) (map fi_declaration targets) = each (\<lambda>target. prove_marker W (fi_declaration target)) targets"
    by (induction targets) simp_all
  have "adds (map start_call targets) (start_wp_proofs W (Some (map fi_declaration targets)))"
    by (simp add: start_wp_proofs_def m adds_each [OF adds_start])
  from addsD [OF this] x \<open>x = Inr ds'\<close> t show ?thesis by simp
qed

lemma resolved_requests:
  assumes "resolve_what_to_prove W params s = (Inr targets, t)" "wp_prop params = None" "wp_functions params \<noteq> None"
  shows "\<exists>new. calls_of t = calls_of s @ new \<and> filter steers new = map guard_call (filter fi_defined (pt_targets targets))
    \<and> pt_decl_markers targets = Some (map fi_declaration (pt_targets targets))"
proof -
  from assms obtain infos u guarded where
    u: "resolve_wp_targets W (wp_functions params) s = (Inr infos, u)"
    and g: "generate_rte_guards W infos u = (Inr guarded, t)"
    and targets: "pt_targets targets = infos" "pt_decl_markers targets = Some (map fi_declaration infos)"
    by (auto simp: resolve_what_to_prove_def andThen_Inr answer_Inr selection_of_def or_else_def)
  from onlyD [OF calm_targets u] obtain new where new: "calls_of u = calls_of s @ new" "filter steers new = []"
    by (auto simp: filter_empty_conv list_all_iff)
  from addsD [OF adds_each [OF adds_guard] g [unfolded generate_rte_guards_def]] obtain new' where
    "calls_of t = calls_of u @ new'" "filter steers new' = map guard_call (filter fi_defined infos)" by blast
  with new targets show ?thesis by (intro exI [of _ "new @ new'"]) simp
qed

lemma proved_requests:
  assumes run: "prove_targets W params provers profile subject targets s = (Inr outcome, t)"
    and "wp_retry_unproved params \<noteq> Some True"
    and "pt_decl_markers targets = Some (map fi_declaration (pt_targets targets))"
  shows "\<exists>new. calls_of t = calls_of s @ new \<and> filter steers new = map start_call (pt_targets targets)"
proof -
  have q: "calm (\<lambda>s. andThen (tasks_of_run W params n) (\<lambda>tasks.
         andThen (fetch_wp_goals W) (\<lambda>goals.
         andThen (retry_timed_out_goals W params provers (pt_decl_markers targets) (pt_prop_selection targets) goals)
           (\<lambda>(goals', retry).
         andThen (answer (floor_of_profile W profile goals' (map fi_name (pt_targets targets)))) (\<lambda>_.
           answer (Inr \<lparr>wo_subject = subject, wo_targets = targets, wo_diagnostics = diagnostics, wo_tasks = tasks,
             wo_goals = goals', wo_timeout_retry = retry, wo_profile = profile\<rparr>))))) s)" for n diagnostics
    by (intro only_andThen only_prod calm_tasks calm_fetch_goals calm_retry_off calm_answer assms)
  from run obtain ds u where
    u: "start_recorded W subject (pt_decl_markers targets) s = (Inr ds, u)" and
    t: "andThen (tasks_of_run W params (epoch W s)) (\<lambda>tasks.
         andThen (fetch_wp_goals W) (\<lambda>goals.
         andThen (retry_timed_out_goals W params provers (pt_decl_markers targets) (pt_prop_selection targets) goals)
           (\<lambda>(goals', retry).
         andThen (answer (floor_of_profile W profile goals' (map fi_name (pt_targets targets)))) (\<lambda>_.
           answer (Inr \<lparr>wo_subject = subject, wo_targets = targets, wo_diagnostics = ds, wo_tasks = tasks,
             wo_goals = goals', wo_timeout_retry = retry, wo_profile = profile\<rparr>))))) u = (Inr outcome, t)"
    by (auto simp: prove_targets_def Let_def andThen_Inr)
  from started_requests [OF u [unfolded assms(3)]] obtain new where
    new: "calls_of u = calls_of s @ new" "filter steers new = map start_call (pt_targets targets)" by blast
  from onlyD [OF q t] obtain new' where "calls_of t = calls_of u @ new'" "filter steers new' = []"
    by (auto simp: filter_empty_conv list_all_iff)
  with new show ?thesis by (intro exI [of _ "new @ new'"]) simp
qed

definition entry_calls :: "call list" where
  "entry_calls = [main_call Put ''kernel.parameters.setMain'' (JStr ''main''),
     main_call Put ''kernel.parameters.setLibEntry'' (JBool False)]"

lemma adds_enter: "adds entry_calls (enter_wp W)"
proof -
  have "srv_calls (pr_server q) = srv_calls (pr_server p) @ [main_call Get ''plugins.eva.analysis.getComputationState'' JNull]
      \<or> srv_calls (pr_server q) = srv_calls (pr_server p) @ [main_call Get ''plugins.eva.analysis.getComputationState'' JNull,
          main_call Get ''plugins.eva.general.getComputationState'' JNull]"
    if "get_eva_computation_state (we_load W) p = (x, q)" for p x q
    using that by (auto simp: get_eva_computation_state_def split: prod.splits sum.splits frama_c_error.splits
      dest!: ask_calls)
  then have g: "calm (on_project (\<lambda>s. case get_eva_computation_state (we_load W) s of
         (Inl e, s') \<Rightarrow> (Inr False, s')
       | (Inr v, s') \<Rightarrow> (Inr (as_str v = Some ''computed''), s')))"
    by (intro onlyI) (fastforce simp: on_project_def calls_of_def split: prod.splits sum.splits)
  have l: "calm (on_project (\<lambda>s. (Inr (), if computed then s else on_session (eva_is False) s)))" for computed
    by (auto simp: only_def on_project_def calls_of_def on_session_def)
  have a: "andThen (andThen m f) h = andThen m (\<lambda>x. andThen (f x) h)" for m :: "'x wp_step" and f :: "'x \<Rightarrow> 'y wp_step"
      and h :: "'y \<Rightarrow> 'z wp_step"
    by (rule ext) (auto simp: andThen_def split: prod.splits sum.splits)
  have "adds ([main_call Put ''kernel.parameters.setMain'' (JStr ''main'')] @
      [main_call Put ''kernel.parameters.setLibEntry'' (JBool False)]) (enter_wp W)"
    unfolding enter_wp_def reset_wp_entry_state_def on_project_andThen wp_ask_def [symmetric] a
    by (rule adds_andThen [OF adds_wp_ask], simp, rule adds_then_calm [OF adds_wp_ask], simp)
       (intro only_andThen g l)
  then show ?thesis by (simp add: entry_calls_def)
qed

text \<open>What selecting provers sends after Frama-C was asked for its list.\<close>

definition selected_by :: "string list \<Rightarrow> frama_c_error + json \<Rightarrow> call list \<Rightarrow> bool" where
  "selected_by requested offered sent \<longleftrightarrow>
     (case offered of
        Inl e \<Rightarrow> (\<exists>i. e = Rejected i) \<and> sent = [main_call Put ''plugins.wp.setProvers'' (jstrs requested)]
      | Inr (JArr listed) \<Rightarrow>
          sent = map (\<lambda>i. main_call Put ''plugins.wp.setProverState''
                  (JArr [JStr i, JBool (\<exists>name \<in> set requested. prover_id_matches name i)]))
                (List.map_filter as_str listed) \<and>
          (\<forall>name \<in> set requested. \<exists>i \<in> set (List.map_filter as_str listed). prover_id_matches name i)
      | Inr _ \<Rightarrow> sent = [])"

definition provers_call :: call where
  "provers_call = main_call Get ''plugins.wp.getProvers'' JNull"

lemma each_asks:
  "each (set_prover_state W requested) ids s = (Inr rs, t) \<Longrightarrow>
   calls_of t = calls_of s @ map (\<lambda>i. main_call Put ''plugins.wp.setProverState''
     (JArr [JStr i, JBool (wanted_prover requested i)])) ids"
proof (induction ids arbitrary: s rs)
  case Nil
  then show ?case by (simp add: answer_def)
next
  case (Cons i ids)
  from Cons.prems obtain v u rs' where
    u: "set_prover_state W requested i s = (Inr v, u)"
    and t: "each (set_prover_state W requested) ids u = (Inr rs', t)"
    by (auto simp: andThen_Inr answer_def)
  have "calls_of u = calls_of s @ [main_call Put ''plugins.wp.setProverState''
      (JArr [JStr i, JBool (wanted_prover requested i)])]"
    using u by (auto simp: set_prover_state_def wp_ask_def on_project_def ask_mcp_def ask_or_def calls_of_def
        split: prod.splits sum.splits dest!: ask_calls)
  with Cons.IH [OF t] show ?case by simp
qed

lemma selection_sent:
  assumes "apply_prover_selection W requested s = (Inr (), t)"
  shows "\<exists>new. calls_of t = calls_of s @ provers_call # new \<and>
    selected_by requested (answers (le_server (we_load W)) (calls_of s) provers_call) new"
proof -
  obtain x p where x: "ask (we_load W) Get ''plugins.wp.getProvers'' JNull (ws_project s) = (x, p)" by fastforce
  define u where "u = s\<lparr>ws_project := p\<rparr>"
  have u: "calls_of u = calls_of s @ [main_call Get ''plugins.wp.getProvers'' JNull]"
    using ask_calls [OF x] by (simp add: u_def calls_of_def)
  have "answers (le_server (we_load W)) (calls_of s) provers_call = x"
    using x by (simp add: ask_def send_def provers_call_def calls_of_def split: prod.splits)
  note answered = this [unfolded provers_call_def]
  show ?thesis
  proof (cases x)
    case (Inl e)
    with assms x obtain i where i: "e = Rejected i"
      "andThen (wp_ask W Put ''plugins.wp.setProvers'' (jstrs requested)) (\<lambda>_. answer (Inr ())) u = (Inr (), t)"
      by (cases e) (auto simp: apply_prover_selection_def u_def)
    then have "calls_of t = calls_of u @ [main_call Put ''plugins.wp.setProvers'' (jstrs requested)]"
      by (auto simp: andThen_Inr answer_def wp_ask_def on_project_def ask_mcp_def ask_or_def calls_of_def
          split: prod.splits sum.splits dest!: ask_calls)
    with u Inl i show ?thesis by (simp add: provers_call_def answered selected_by_def)
  next
    case (Inr v)
    with assms x have so: "select_offered W requested v u = (Inr (), t)"
      by (simp add: apply_prover_selection_def u_def)
    have other: "calls_of t = calls_of u" if "as_array v = None"
      using so that by (simp add: select_offered_def answer_def)
    show ?thesis
    proof (cases v)
      case (JArr listed)
      let ?ids = "List.map_filter as_str listed"
      from so JArr have none: "unmatched_provers requested ?ids = []"
        by (auto simp: select_offered_def Let_def answer_def split: if_splits)
      with so JArr obtain rs where "each (set_prover_state W requested) ?ids u = (Inr rs, t)"
        by (auto simp: select_offered_def Let_def andThen_Inr answer_def)
      from each_asks [OF this] u have "calls_of t = calls_of s @ main_call Get ''plugins.wp.getProvers'' JNull #
          map (\<lambda>i. main_call Put ''plugins.wp.setProverState''
            (JArr [JStr i, JBool (wanted_prover requested i)])) ?ids"
        by simp
      moreover have "\<forall>name \<in> set requested. \<exists>i \<in> set ?ids. prover_id_matches name i"
        using none by (auto simp: unmatched_provers_def filter_empty_conv list_ex_iff)
      ultimately show ?thesis using Inr JArr by (simp add: wanted_prover_def list_ex_iff provers_call_def answered selected_by_def)
    qed (use other u Inr in \<open>simp_all add: provers_call_def answered selected_by_def\<close>)
  qed
qed

lemma selected_steer: "selected_by requested offered sent \<Longrightarrow> filter steers sent = sent"
  by (auto simp: selected_by_def filter_id_conv split: sum.splits json.splits)

lemma calm_subject: "calm (wp_run_subject params)"
  by (auto simp: only_def wp_run_subject_def split: option.splits)

lemma calm_locked: "calm refuse_while_locked"
  by (auto simp: only_def refuse_while_locked_def)

text \<open>Everything a successful transaction sends that is not a read, with the time limit in the parameters.\<close>

lemma transaction_requests:
  assumes run: "run_transaction W params (Some provers) profile s = (Inr outcome, t)"
    and limit: "wp_timeout params = Some limit"
    and whole: "wp_retry_unproved params \<noteq> Some True" "wp_prop params = None" "wp_functions params \<noteq> None"
  shows "\<exists>first rest chosen cache par.
    effective_wp_cache (debug_of W) params = Inr cache \<and> effective_wp_par_from params (we_par_var W) = Inr par \<and>
    calls_of t = calls_of s @ first @ provers_call # rest \<and> filter steers first = entry_calls \<and>
    selected_by provers (answers (le_server (we_load W)) (calls_of s @ first) provers_call) chosen \<and>
    filter steers rest = chosen @ [timeout_call limit, cache_call cache, config_call params par] @
      map guard_call (filter fi_defined (pt_targets (wo_targets outcome))) @
      map start_call (pt_targets (wo_targets outcome))"
proof -
  from run obtain s1 subject s2 s3 u v w x targets where
    "refuse_while_locked s = (Inr (), s1)" "wp_run_subject params s1 = (Inr subject, s2)"
    "on_project need_client s2 = (Inr (), s3)"
    and e: "enter_wp W s3 = (Inr (), u)" and c: "apply_prover_selection W provers u = (Inr (), v)"
    and a: "set_after_provers W params v = (Inr (), w)"
    and r: "resolve_what_to_prove W params w = (Inr targets, x)"
    and p: "prove_targets W params (Some provers) profile subject targets x = (Inr outcome, t)"
    by (auto simp: run_transaction_def andThen_Inr config_in_parts select_provers_def)
  then have "calls_of s3 = calls_of s"
    by (auto simp: refuse_while_locked_def wp_run_subject_def on_project_def need_client_def calls_of_def
        split: if_splits option.splits sum.splits)
  with addsD [OF adds_enter e] obtain first where
    first: "calls_of u = calls_of s @ first" "filter steers first = entry_calls" by auto
  from selection_sent [OF c] obtain chosen where
    chosen: "calls_of v = calls_of u @ provers_call # chosen"
      "selected_by provers (answers (le_server (we_load W)) (calls_of u) provers_call) chosen" by blast
  from after_provers_sent [OF a limit] obtain cache par set_new where
    cache: "effective_wp_cache (debug_of W) params = Inr cache" "effective_wp_par_from params (we_par_var W) = Inr par"
      "calls_of w = calls_of v @ set_new"
      "filter steers set_new = [timeout_call limit, cache_call cache, config_call params par]" .
  from resolved_requests [OF r whole(2,3)] obtain guard_new where
    guard: "calls_of x = calls_of w @ guard_new"
      "filter steers guard_new = map guard_call (filter fi_defined (pt_targets targets))"
      "pt_decl_markers targets = Some (map fi_declaration (pt_targets targets))" by blast
  from proved_requests [OF p whole(1) guard(3)] obtain start_new where
    start: "calls_of t = calls_of x @ start_new" "filter steers start_new = map start_call (pt_targets targets)" by blast
  have o: "wo_targets outcome = targets"
    using p by (auto simp: prove_targets_def Let_def andThen_Inr answer_Inr split: prod.splits)
  show ?thesis
    using first chosen cache guard start o selected_steer [OF chosen(2)]
    by (intro exI [of _ first] exI [of _ "chosen @ set_new @ guard_new @ start_new"] exI [of _ chosen]
        exI [of _ cache] exI [of _ par]) simp
qed

section \<open>The functions of the session\<close>

definition functions_of :: "wp_server \<Rightarrow> (string, function_info) kv" where
  "functions_of s = session_state.ss_functions (srv_session (pr_server (ws_project s)))"

definition names_match :: "(string, function_info) kv \<Rightarrow> bool" where
  "names_match m \<longleftrightarrow> (\<forall>n info. (n, info) \<in> set m \<longrightarrow> fi_name info = n)"

definition named :: "wp_server \<Rightarrow> bool" where
  "named s \<longleftrightarrow> names_match (functions_of s)"

definition keeps :: "'a wp_step \<Rightarrow> bool" where
  "keeps m \<longleftrightarrow> (\<forall>s r t. m s = (r, t) \<longrightarrow> named s \<longrightarrow> named t)"

lemma keepsD: "keeps m \<Longrightarrow> m s = (r, t) \<Longrightarrow> named s \<Longrightarrow> named t"
  by (auto simp: keeps_def)

lemma keeps_andThen: "keeps m \<Longrightarrow> (\<And>a. keeps (f a)) \<Longrightarrow> keeps (andThen m f)"
  unfolding keeps_def andThen_def by (auto split: prod.splits sum.splits)

lemma keeps_answer: "keeps (answer r)"
  by (auto simp: keeps_def answer_def)

lemma keeps_still: "keeps (\<lambda>s. (f s, s))"
  by (auto simp: keeps_def)

lemma ask_session: "ask E kind endpoint data p = (r, q) \<Longrightarrow> srv_session (pr_server q) = srv_session (pr_server p)"
  by (auto simp: ask_def send_def)

lemma keeps_wp_ask: "keeps (wp_ask W kind endpoint data)"
  by (auto simp: keeps_def named_def functions_of_def wp_ask_def on_project_def ask_mcp_def ask_or_def
      split: prod.splits sum.splits dest!: ask_session)

lemma keeps_each: "(\<And>x. keeps (f x)) \<Longrightarrow> keeps (each f xs)"
  by (induction xs) (auto intro!: keeps_andThen keeps_answer)

lemma keeps_reload_fetch: "keeps (wp_reload_fetch W a b)"
  unfolding wp_reload_fetch_def reload_fetch_def on_project_andThen on_project_answer wp_ask_def [symmetric]
  by (intro keeps_andThen keeps_wp_ask keeps_answer)

lemma names_match_update:
  assumes "names_match m" "fi_name v = k"
  shows "names_match (AList.update k v m)"
proof -
  have "set (AList.update k v m) \<subseteq> insert (k, v) (set m)" by (induction m) auto
  with assms show ?thesis by (auto simp: names_match_def)
qed

lemma update_functions_named: "names_match (session_state.ss_functions (update_functions entries st))"
proof -
  have "names_match (fold (\<lambda>e m. let info = function_entry e
        in if fi_name info = [] then m else AList.update (fi_name info) info m) es m)"
    if "names_match m" for es m
    using that by (induction es arbitrary: m) (simp_all add: Let_def names_match_update)
  from this [of "[]"] show ?thesis by (simp add: update_functions_def names_match_def [of "[]"])
qed

lemma named_refresh: "refresh_functions W s = (Inr u, t) \<Longrightarrow> named t"
  by (auto simp: refresh_functions_def andThen_Inr on_project_def on_session_def named_def functions_of_def
      update_functions_named)

lemma keeps_refresh: "keeps (refresh_functions W)"
  unfolding keeps_def
proof (intro allI impI)
  fix s r t
  assume run: "refresh_functions W s = (r, t)" and n: "named s"
  show "named t"
  proof (cases r)
    case (Inr u)
    with run show ?thesis by (auto dest: named_refresh)
  next
    case (Inl e)
    obtain x u where x: "wp_reload_fetch W ''kernel.ast.reloadFunctions'' ''kernel.ast.fetchFunctions'' s = (x, u)"
      by fastforce
    with run Inl have "t = u"
      by (cases x) (auto simp: refresh_functions_def andThen_def on_project_def)
    with keepsD [OF keeps_reload_fetch x n] show ?thesis by simp
  qed
qed

lemma resolved_name:
  assumes "resolve_function_or_refresh W name s = (Inr info, t)" "named s"
  shows "fi_name info = name \<and> named t"
proof -
  have known: "fi_name i = name" if "known_function u name = Some i" "named u" for u i
    using that by (auto simp: known_function_def resolve_function_def named_def names_match_def functions_of_def dest!: map_of_SomeD)
  show ?thesis
  proof (cases "known_function s name")
    case (Some i)
    with assms known [OF Some assms(2)] show ?thesis by (auto simp: resolve_function_or_refresh_def)
  next
    case None
    with assms(1) obtain u v where "refresh_functions W u = (Inr (), v)"
        "known_function v name = Some info" "t = v"
      by (auto simp: resolve_function_or_refresh_def andThen_Inr split: option.splits)
    with known named_refresh show ?thesis by blast
  qed
qed

lemma resolved_names:
  "each (resolve_function_or_refresh W) names s = (Inr infos, t) \<Longrightarrow> named s \<Longrightarrow> map fi_name infos = names"
proof (induction names arbitrary: s infos)
  case Nil
  then show ?case by (simp add: answer_def)
next
  case (Cons name names)
  from Cons.prems(1) obtain info u infos' where
    u: "resolve_function_or_refresh W name s = (Inr info, u)"
    and v: "each (resolve_function_or_refresh W) names u = (Inr infos', t)" "infos = info # infos'"
    by (auto simp: andThen_Inr answer_def)
  from resolved_name [OF u Cons.prems(2)] Cons.IH [OF v(1)] v(2) show ?case by simp
qed


section \<open>A run under a profile\<close>

lemma keeps_on_session: "(\<And>st. session_state.ss_functions (f st) = session_state.ss_functions st) \<Longrightarrow>
    keeps (on_project (\<lambda>p. (r, on_session f p)))"
  by (auto simp: keeps_def named_def functions_of_def on_project_def on_session_def)

lemma keeps_enter: "keeps (enter_wp W)"
proof -
  have "srv_session (pr_server q) = srv_session (pr_server p)"
    if "get_eva_computation_state (we_load W) p = (x, q)" for p x q
    using that by (auto simp: get_eva_computation_state_def split: prod.splits sum.splits frama_c_error.splits
      dest!: ask_session)
  then have g: "keeps (on_project (\<lambda>s. case get_eva_computation_state (we_load W) s of
         (Inl e, s') \<Rightarrow> (Inr False, s')
       | (Inr v, s') \<Rightarrow> (Inr (as_str v = Some ''computed''), s')))"
    by (auto simp: keeps_def named_def functions_of_def on_project_def split: prod.splits sum.splits)
  have l: "keeps (on_project (\<lambda>s. (Inr (), if computed then s else on_session (eva_is False) s)))" for computed
    by (auto simp: keeps_def on_project_def named_def functions_of_def on_session_def eva_is_def)
  show ?thesis
    unfolding enter_wp_def reset_wp_entry_state_def on_project_andThen wp_ask_def [symmetric]
    by (intro keeps_andThen keeps_wp_ask g l)
qed

lemma keeps_selection: "keeps (apply_prover_selection W ps)"
  unfolding keeps_def
proof (intro allI impI)
  fix s r t
  assume run: "apply_prover_selection W ps s = (r, t)" and n: "named s"
  obtain x p where x: "ask (we_load W) Get ''plugins.wp.getProvers'' JNull (ws_project s) = (x, p)" by fastforce
  define u where "u = s\<lparr>ws_project := p\<rparr>"
  have u: "named u" using ask_session [OF x] n by (simp add: u_def named_def functions_of_def)
  have o: "keeps (select_offered W ps v)"
      "keeps (andThen (wp_ask W Put ''plugins.wp.setProvers'' (jstrs ps)) (\<lambda>_. answer (Inr ())))" for v
    by (auto simp: select_offered_def set_prover_state_def Let_def
        intro!: keeps_andThen keeps_answer keeps_wp_ask keeps_each split: option.splits)
  show "named t"
    using run x u by (auto simp: apply_prover_selection_def u_def [symmetric] split: sum.splits frama_c_error.splits
        dest: keepsD [OF o(1)] keepsD [OF o(2)])
qed

lemma keeps_config: "keeps (apply_wp_config W params provers)"
proof -
  have a: "keeps (select_provers W provers)"
    by (auto simp: select_provers_def intro!: keeps_selection keeps_answer split: option.splits)
  have b: "keeps (set_effective_timeout W params)"
    unfolding set_effective_timeout_def set_timeout_def
    by (intro keeps_andThen keeps_answer) (auto intro!: keeps_andThen keeps_answer keeps_wp_ask split: option.splits)
  have c: "keeps (validate_wp_model W m)" for m
    by (auto simp: keeps_def validate_wp_model_def split: sum.splits)
  show ?thesis unfolding apply_wp_config_def
    by (intro keeps_andThen a b c keeps_answer keeps_wp_ask)
qed

lemma resolve_targets_names:
  assumes "resolve_what_to_prove W params s = (Inr targets, t)" "named s" "wp_functions params = Some names"
  shows "map fi_name (pt_targets targets) = names"
  using assms
  by (auto simp: resolve_what_to_prove_def andThen_Inr answer_Inr resolve_wp_targets_def dest!: resolved_names)

lemma run_on_main_profiled:
  assumes "run_wp W params0 s = (Inr (Ran outcome), t)" "wp_verify_profile params0 = Some name"
  obtains p m provers profile where
    "map_of (ss_verification_profiles (srv_session (pr_server (ws_project (we_wait W s))))) name = Some p"
    "pr_main (ws_project (we_wait W s)) = Some m"
    "check_profile W name p params0 (Some m) = Inr ()"
    "profile = \<lparr>ap_name = name, ap_echo = profile_echo name p, ap_min_goals = vp_min_goals p\<rparr>"
    "effective_wp_provers_from (with_profile p params0) (we_provers_var W) = Inr provers"
    "run_transaction W (with_profile p params0) provers (Some profile) (we_wait W s) = (Inr outcome, t)"
proof -
  have m: "run_wp_on_main W params0 s = (Inr (Ran outcome), t)"
    using assms
    by (auto simp: run_wp_def andThen_Inr answer_Inr split: run_wp_scope.splits if_splits)
       (metis run_wp_scope.exhaust)+
  from m assms(2) obtain params profile u v provers where
    p: "apply_verify_profile W params0 (we_wait W s) = (Inr (params, profile), u)" and
    l: "refuse_while_locked u = (Inr (), v)" and
    e: "effective_wp_provers_from params (we_provers_var W) = Inr provers" and
    r: "run_transaction W params provers profile v = (Inr outcome, t)"
    by (auto simp: run_wp_on_main_def andThen_Inr answer_Inr wait_for_lock_def split: option.splits prod.splits)
  have "v = u" using l by (auto simp: refuse_while_locked_def split: if_splits)
  moreover from p assms(2) obtain q where
    "map_of (ss_verification_profiles (srv_session (pr_server (ws_project (we_wait W s))))) name = Some q"
    "check_profile W name q params0 (pr_main (ws_project (we_wait W s))) = Inr ()"
    "params = with_profile q params0" "u = we_wait W s"
    "profile = Some \<lparr>ap_name = name, ap_echo = profile_echo name q, ap_min_goals = vp_min_goals q\<rparr>"
    by (auto simp: apply_verify_profile_def andThen_Inr answer_Inr verify_profile_named_def split: option.splits)
  moreover then obtain m where "pr_main (ws_project (we_wait W s)) = Some m"
    by (auto simp: check_profile_def split: if_splits option.splits)
  ultimately show thesis using that e r by simp
qed

lemma transaction_parts:
  assumes "run_transaction W params provers profile s = (Inr outcome, t)"
  obtains m u v w where
    "\<not> pr_locked (ws_project s)" "pr_main (ws_project s) = Some m"
    "rs_files (wo_subject outcome) = ms_files m" "rs_options (wo_subject outcome) = ms_options m"
    "enter_wp W s = (Inr (), u)" "apply_wp_config W params provers u = (Inr (), v)"
    "resolve_what_to_prove W params v = (Inr (wo_targets outcome), w)"
    "wo_timeout_retry outcome = JNull \<or> wp_retry_unproved params = Some True"
    "floor_of_profile W profile (wo_goals outcome) (map fi_name (pt_targets (wo_targets outcome))) = Inr ()"
proof -
  from assms obtain s1 subject s2 s3 u v w targets where
    "refuse_while_locked s = (Inr (), s1)" "wp_run_subject params s1 = (Inr subject, s2)"
    "on_project need_client s2 = (Inr (), s3)"
    and e: "enter_wp W s3 = (Inr (), u)" and c: "apply_wp_config W params provers u = (Inr (), v)"
    and r: "resolve_what_to_prove W params v = (Inr targets, w)"
    and p: "prove_targets W params provers profile subject targets w = (Inr outcome, t)"
    by (auto simp: run_transaction_def andThen_Inr)
  then obtain m where m: "\<not> pr_locked (ws_project s)" "pr_main (ws_project s) = Some m" "s3 = s"
      "rs_files subject = ms_files m" "rs_options subject = ms_options m"
    by (auto simp: refuse_while_locked_def wp_run_subject_def on_project_def need_client_def
        split: if_splits option.splits sum.splits)
  from p have "wo_subject outcome = subject" "wo_targets outcome = targets"
      "floor_of_profile W profile (wo_goals outcome) (map fi_name (pt_targets (wo_targets outcome))) = Inr ()"
      "wo_timeout_retry outcome = JNull \<or> wp_retry_unproved params = Some True"
    by (auto simp: prove_targets_def Let_def andThen_Inr answer_Inr retry_timed_out_goals_def split: prod.splits)
  with m e c r that show thesis by blast
qed

lemma floor_reached:
  assumes "floor_of_profile W (Some profile) goals functions = Inr ()"
  shows "unset_or (ap_min_goals profile) (\<lambda>n. unat n \<le> goals_owned_by goals functions)"
proof (cases "ap_min_goals profile")
  case (Some n)
  have "goal_floor_shortfall (we_debug_list W) (ap_name profile) (Some n) goals functions = None"
    using assms by (simp add: floor_of_profile_def Some split: option.splits)
  then have "unat n \<le> goals_owned_by goals functions"
    by (simp add: goal_floor_shortfall_def Let_def split: if_splits)
  with Some show ?thesis by (simp add: unset_or_def)
qed (simp add: unset_or_def)

lemma with_profile_settings:
  assumes "\<not> incomplete_profile p" "\<not> overrides_profile params"
  shows "wp_timeout (with_profile p params) = Some (the (vp_timeout_seconds p))"
    and "wp_retry_unproved (with_profile p params) \<noteq> Some True"
    and "config_call (with_profile p params) par = main_call Exec ''plugins.ast-utils.execSetWpConfig''
          (JObj ([(''model'', JStr (the (vp_model p)))] @
             (case par of None \<Rightarrow> [] | Some n \<Rightarrow> [(''par'', u32_json n)]) @
             [(''steps'', u32_json (unwrap_or (wp_steps params) 0))]))"
    and "wp_functions (with_profile p params) = Some (unwrap_or (wp_functions params) (vp_functions p))"
    and "wp_prop (with_profile p params) = None"
    and "effective_wp_cache debug (with_profile p params) = effective_wp_cache debug params"
    and "effective_wp_par_from (with_profile p params) var = effective_wp_par_from params var"
  using assms
  by (auto simp: incomplete_profile_def overrides_profile_def with_profile_def config_call_def wp_config_def
      model_of_def unwrap_or_def effective_wp_cache_def effective_wp_par_from_def)

lemma covered_targets:
  assumes "covers_profile params p" "map fi_name ts = unwrap_or (wp_functions params) (vp_functions p)"
  shows "set (map fi_name ts) = set (vp_functions p)"
  using assms by (auto simp: covers_profile_def profile_covers_exactly_def unwrap_or_def split: option.splits)

text \<open>
  The provers of a profile as a run asks for them: joined with commas into one parameter, which is split at
  commas again. Names that are trimmed, not empty and without a comma come through unchanged.
\<close>

definition provers_of :: "verification_profile \<Rightarrow> string list" where
  "provers_of p = map trim (comma_list (join '','' (vp_provers p)))"

lemma plain_provers_kept:
  assumes "vp_provers p \<noteq> []" "\<And>q. q \<in> set (vp_provers p) \<Longrightarrow> q \<noteq> [] \<and> trim q = q \<and> CHR '','' \<notin> set q"
  shows "provers_of p = vp_provers p"
  using assms by (simp add: provers_of_def comma_list_def split_on_join map_idI)

lemma profile_provers:
  assumes "effective_wp_provers_from (with_profile p params) var = Inr provers"
    and "\<not> incomplete_profile p" "\<not> overrides_profile params"
  shows "provers = Some (provers_of p)"
  using assms
  by (auto simp: effective_wp_provers_from_def requested_wp_provers_def requested_names_def with_profile_def
      incomplete_profile_def overrides_profile_def provers_of_def or_else_def Let_def split: if_splits)

text \<open>C33: when a run under a profile comes to its end, the profile is the one registered once the lock was
  taken and matches the project loaded then, the functions proved are those the call names, as a set those of
  the profile, and everything it sent that is not a read is, in this order: the entry point reset, the provers
  switched as the profile names them (by the answer to \<open>getProvers\<close>), the time limit of the profile, the
  cache mode the caller asks for, the memory model of the profile with the parallelism and the steps of the
  caller and no property filter, the RTE guards of each defined function, and one start of proofs for each
  function. No retry was made, and the goals of the functions are at least as many as the profile demands.\<close>

theorem profiled_run_proves_its_target:
  assumes run: "run_wp W params s = (Inr (Ran outcome), t)"
    and profiled: "wp_verify_profile params = Some name"
    and names: "names_match (functions_of (we_wait W s))"
  shows "\<exists>p m cache par first rest chosen.
      map_of (ss_verification_profiles (srv_session (pr_server (ws_project (we_wait W s))))) name = Some p \<and>
      pr_main (ws_project (we_wait W s)) = Some m \<and> \<not> pr_locked (ws_project (we_wait W s)) \<and>
      profile_matches_loaded_project p (ms_files m) (ms_options m) \<and>
      rs_files (wo_subject outcome) = ms_files m \<and> rs_options (wo_subject outcome) = ms_options m \<and>
      map fi_name (pt_targets (wo_targets outcome)) = unwrap_or (wp_functions params) (vp_functions p) \<and>
      set (map fi_name (pt_targets (wo_targets outcome))) = set (vp_functions p) \<and>
      effective_wp_cache (debug_of W) params = Inr cache \<and>
      effective_wp_par_from params (we_par_var W) = Inr par \<and>
      calls_of t = calls_of (we_wait W s) @ first @ provers_call # rest \<and>
      filter steers first = entry_calls \<and>
      selected_by (provers_of p)
        (answers (le_server (we_load W)) (calls_of (we_wait W s) @ first) provers_call) chosen \<and>
      filter steers rest = chosen @ [timeout_call (the (vp_timeout_seconds p)), cache_call cache,
        main_call Exec ''plugins.ast-utils.execSetWpConfig''
          (JObj ([(''model'', JStr (the (vp_model p)))] @
             (case par of None \<Rightarrow> [] | Some n \<Rightarrow> [(''par'', u32_json n)]) @
             [(''steps'', u32_json (unwrap_or (wp_steps params) 0))]))] @
        map guard_call (filter fi_defined (pt_targets (wo_targets outcome))) @
        map start_call (pt_targets (wo_targets outcome)) \<and>
      wo_timeout_retry outcome = JNull \<and>
      unset_or (vp_min_goals p)
        (\<lambda>n. unat n \<le> goals_owned_by (wo_goals outcome) (map fi_name (pt_targets (wo_targets outcome))))"
proof -
  obtain p m provers profile where
    p: "map_of (ss_verification_profiles (srv_session (pr_server (ws_project (we_wait W s))))) name = Some p"
    and m: "pr_main (ws_project (we_wait W s)) = Some m"
    and c: "check_profile W name p params (Some m) = Inr ()"
    and profile: "profile = \<lparr>ap_name = name, ap_echo = profile_echo name p, ap_min_goals = vp_min_goals p\<rparr>"
    and e: "effective_wp_provers_from (with_profile p params) (we_provers_var W) = Inr provers"
    and tr: "run_transaction W (with_profile p params) provers (Some profile) (we_wait W s) = (Inr outcome, t)"
    by (rule run_on_main_profiled [OF run profiled])
  from c have cp: "profile_matches_loaded_project p (ms_files m) (ms_options m)" "covers_profile params p"
      "\<not> incomplete_profile p" "\<not> overrides_profile params"
    by (auto simp: check_profile_def split: if_splits)
  let ?params = "with_profile p params"
  note settings = with_profile_settings [OF cp(3,4)]
  have provers: "provers = Some (provers_of p)" by (rule profile_provers [OF e cp(3,4)])
  obtain m' u v w where
    parts: "\<not> pr_locked (ws_project (we_wait W s))" "pr_main (ws_project (we_wait W s)) = Some m'"
      "rs_files (wo_subject outcome) = ms_files m'" "rs_options (wo_subject outcome) = ms_options m'"
      "enter_wp W (we_wait W s) = (Inr (), u)" "apply_wp_config W ?params provers u = (Inr (), v)"
      "resolve_what_to_prove W ?params v = (Inr (wo_targets outcome), w)"
      "wo_timeout_retry outcome = JNull \<or> wp_retry_unproved ?params = Some True"
      "floor_of_profile W (Some profile) (wo_goals outcome) (map fi_name (pt_targets (wo_targets outcome))) = Inr ()"
    by (rule transaction_parts [OF tr])
  have "wp_functions ?params \<noteq> None" using settings(4) by simp
  from transaction_requests [OF tr [unfolded provers] settings(1,2,5) this] obtain first rest chosen cache par where
    sent: "effective_wp_cache (debug_of W) ?params = Inr cache" "effective_wp_par_from ?params (we_par_var W) = Inr par"
      "calls_of t = calls_of (we_wait W s) @ first @ provers_call # rest" "filter steers first = entry_calls"
      "selected_by (provers_of p) (answers (le_server (we_load W)) (calls_of (we_wait W s) @ first) provers_call) chosen"
      "filter steers rest = chosen @ [timeout_call (the (vp_timeout_seconds p)), cache_call cache, config_call ?params par] @
        map guard_call (filter fi_defined (pt_targets (wo_targets outcome))) @
        map start_call (pt_targets (wo_targets outcome))"
    by blast
  have "named (we_wait W s)" using names by (simp add: named_def)
  from keepsD [OF keeps_config parts(6) keepsD [OF keeps_enter parts(5) this]]
  have asked: "map fi_name (pt_targets (wo_targets outcome)) = unwrap_or (wp_functions params) (vp_functions p)"
    by (rule resolve_targets_names [OF parts(7) _ settings(4)])
  note targets = covered_targets [OF cp(2) asked]
  have least: "unset_or (vp_min_goals p)
        (\<lambda>n. unat n \<le> goals_owned_by (wo_goals outcome) (map fi_name (pt_targets (wo_targets outcome))))"
    using floor_reached [OF parts(9)] by (simp add: profile)
  have retry: "wo_timeout_retry outcome = JNull" using parts(8) settings(2) by simp
  have "m' = m" using parts(2) m by simp
  note files = parts(3,4) [unfolded this]
  show ?thesis
    by (rule exI [of _ p], rule exI [of _ m], rule exI [of _ cache], rule exI [of _ par], rule exI [of _ first],
        rule exI [of _ rest], rule exI [of _ chosen])
       (intro conjI p m parts(1) cp(1) files asked targets sent(1) [unfolded settings(6)]
         sent(2) [unfolded settings(7)] sent(3-5) sent(6) [unfolded settings(3)] retry least)
qed

definition wp_answers :: "call list \<Rightarrow> call \<Rightarrow> frama_c_error + json" where
  "wp_answers h c =
     Inr (JArr (if call_endpoint c = ''plugins.wp.getProvers'' then [JStr ''Z3:4'', JStr ''CVC5:1''] else []))"

definition trial_wp_env :: wp_env where
  "trial_wp_env = \<lparr>we_load = (trial_env None)\<lparr>le_server := (trial_requests None)\<lparr>answers := wp_answers\<rparr>\<rparr>, we_provers_var = None,
     we_timeout_var = None, we_par_var = None, we_help = (\<lambda>_. []), we_diagnostics = (\<lambda>_. JNull),
     we_lag = (\<lambda>_. 1), we_cancels = (\<lambda>_. 0), we_wait = (\<lambda>s. s), we_debug_list = concat\<rparr>"

definition trial_run :: "string option \<Rightarrow> run_wp_params" where
  "trial_run profile = \<lparr>wp_functions = None, wp_prover = None, wp_provers = None, wp_timeout = None, wp_par = None,
     wp_steps = None, wp_model = None, wp_prop = None, wp_smoke = None, wp_smoke_probe = False, wp_cache = None,
     wp_cancel = None, wp_drain_timeout_seconds = None, wp_retry_unproved = None, wp_verify_profile = profile\<rparr>"

definition trial_target :: verification_profile where
  "trial_target = \<lparr>vp_sources = [''a.c''], vp_functions = [''f''], vp_model = Some ''Typed'', vp_machdep = None,
     vp_include_paths = [], vp_defines = [], vp_force_includes = [], vp_provers = [''z3''],
     vp_timeout_seconds = Some 9, vp_isystem_paths = [], vp_nostdinc = Some False, vp_min_goals = None,
     vp_build_gates = [], vp_rte = Some False, vp_rte_unsigned = None, vp_rte_pointer = None,
     vp_builtin_models = None, vp_reproduce = None\<rparr>"

definition trial_function :: function_info where
  "trial_function = \<lparr>fi_name = ''f'', fi_marker = ''#F1'', fi_declaration = ''#F1'', fi_signature = [], fi_file = ''a.c'',
     fi_line = 1, fi_defined = True\<rparr>"

definition trial_project :: wp_server where
  "trial_project = \<lparr>ws_project =
     \<lparr>pr_server = \<lparr>srv_session = session_state.ss_functions_update (\<lambda>_. [(''f'', trial_function)])
          (empty_session\<lparr>ss_verification_profiles := [(''t'', trial_target)]\<rparr>),
        srv_disk = [], srv_main = True, srv_sandboxes = [], srv_calls = []\<rparr>,
      pr_main = Some \<lparr>ms_process = 0, ms_files = [''a.c''],
         ms_options = merged_options ''d'' (trial_params None None None) None, ms_log_end = 3, ms_digest = [],
         ms_diagnostics = None, ms_working_dir = ''/w'', ms_poisoned = False\<rparr>,
      pr_locked = False, pr_reads = 0, pr_spawns = 0\<rparr>,
     ws_model_used = None, ws_cancel_epoch = 0, ws_clock = 0\<rparr>"

text \<open>A step is fine when it succeeds and leaves the functions of the session and the client alone.\<close>

definition good :: "wp_server \<Rightarrow> bool" where
  "good s \<longleftrightarrow> functions_of s = [(''f'', trial_function)] \<and> srv_main (pr_server (ws_project s))"

definition fine :: "'a wp_step \<Rightarrow> bool" where
  "fine m \<longleftrightarrow> (\<forall>s. good s \<longrightarrow> (\<exists>a t. m s = (Inr a, t) \<and> good t))"

named_theorems fine_rules

lemma fine_andThen [fine_rules]: "fine m \<Longrightarrow> (\<And>a. fine (f a)) \<Longrightarrow> fine (andThen m f)"
  unfolding fine_def andThen_Inr by blast

lemma fine_answer [fine_rules]: "fine (answer (Inr a))"
  by (simp add: fine_def answer_def)

lemma fine_still [fine_rules]: "fine (\<lambda>s. (Inr (f s), s))"
  by (simp add: fine_def)

lemma fine_ask: "good s \<Longrightarrow> \<exists>v p. ask (we_load trial_wp_env) kind endpoint data (ws_project s) = (Inr v, p) \<and>
    good (s\<lparr>ws_project := p\<rparr>)"
  by (simp add: good_def functions_of_def ask_def send_def trial_wp_env_def trial_env_def trial_requests_def
      wp_answers_def)

lemma fine_wp_ask [fine_rules]: "fine (wp_ask trial_wp_env kind endpoint data)"
  unfolding fine_def
proof (intro allI impI)
  fix s
  assume "good s"
  from fine_ask [OF this] obtain v p where
    "ask (we_load trial_wp_env) kind endpoint data (ws_project s) = (Inr v, p)" "good (s\<lparr>ws_project := p\<rparr>)"
    by blast
  then show "\<exists>a t. wp_ask trial_wp_env kind endpoint data s = (Inr a, t) \<and> good t"
    by (simp add: wp_ask_def on_project_def ask_mcp_def ask_or_def)
qed

lemma fine_each [fine_rules]: "(\<And>x. x \<in> set xs \<Longrightarrow> fine (f x)) \<Longrightarrow> fine (each f xs)"
  by (induction xs) (auto intro!: fine_rules)

lemma fine_reload_fetch [fine_rules]: "fine (wp_reload_fetch trial_wp_env a b)"
  unfolding wp_reload_fetch_def reload_fetch_def on_project_andThen on_project_answer wp_ask_def [symmetric]
  by (intro fine_rules)

lemma fine_need_client [fine_rules]: "fine (on_project need_client)"
  by (auto simp: fine_def good_def functions_of_def on_project_def need_client_def require_client_def)

lemma fine_provers: "fine (select_provers trial_wp_env (Some [''z3'']))"
  unfolding fine_def
proof (intro allI impI)
  fix s
  assume "good s"
  define p where "p = snd (ask (we_load trial_wp_env) Get ''plugins.wp.getProvers'' JNull (ws_project s))"
  have a: "ask (we_load trial_wp_env) Get ''plugins.wp.getProvers'' JNull (ws_project s)
      = (Inr (JArr [JStr ''Z3:4'', JStr ''CVC5:1'']), p)"
    by (simp add: p_def ask_def send_def trial_wp_env_def trial_env_def trial_requests_def wp_answers_def main_call_def)
  have g: "good (s\<lparr>ws_project := p\<rparr>)" using fine_ask [OF \<open>good s\<close>] a by (metis prod.inject)
  have u: "unmatched_provers [''z3''] [''Z3:4'', ''CVC5:1''] = []" by code_simp
  have "fine (select_offered trial_wp_env [''z3''] (JArr [JStr ''Z3:4'', JStr ''CVC5:1'']))"
    by (simp add: select_offered_def List.map_filter_simps u set_prover_state_def)
       (intro fine_rules)
  with g a show "\<exists>a t. select_provers trial_wp_env (Some [''z3'']) s = (Inr a, t) \<and> good t"
    by (simp add: select_provers_def apply_prover_selection_def fine_def)
qed

abbreviation trial_params_used :: run_wp_params where
  "trial_params_used \<equiv> with_profile trial_target (trial_run (Some ''t''))"

lemma fine_config: "fine (apply_wp_config trial_wp_env trial_params_used (Some [''z3'']))"
proof -
  have t: "effective_wp_timeout_from trial_params_used (we_timeout_var trial_wp_env) = Inr (Some 9)"
    "effective_wp_par_from trial_params_used (we_par_var trial_wp_env) = Inr None"
    by (simp_all add: effective_wp_timeout_from_def effective_wp_par_from_def with_profile_def trial_run_def
        trial_target_def trial_wp_env_def parse_wp_u32_def)
  have "find (\<lambda>mode. eq_ignore_ascii_case mode (trim ''Update'')) wp_cache_modes = Some ''Update''" by code_simp
  then have c: "effective_wp_cache (debug_of trial_wp_env) trial_params_used = Inr ''Update''"
    by (simp add: effective_wp_cache_def with_profile_def trial_run_def unwrap_or_def validate_wp_cache_mode_def)
  have v: "validate_model (parse_wp_model_support []) (model_of trial_params_used) = Inr ()" by code_simp
  have "fine (validate_wp_model trial_wp_env (model_of trial_params_used))"
    by (simp add: fine_def validate_wp_model_def trial_wp_env_def v)
  then show ?thesis
    unfolding apply_wp_config_def set_effective_timeout_def set_timeout_def t c answer_andThen option.case
    by (intro fine_rules fine_provers)
qed

lemma trial_targets:
  assumes g: "good s"
  shows "\<exists>targets t. resolve_what_to_prove trial_wp_env trial_params_used s = (Inr targets, t) \<and> good t \<and>
    pt_decl_markers targets = Some [''#F1''] \<and> pt_prop_selection targets = None"
proof -
  have names: "wp_functions trial_params_used = Some [''f'']" "wp_prop trial_params_used = None"
    by (simp_all add: with_profile_def trial_run_def trial_target_def unwrap_or_def)
  have r: "resolve_wp_targets trial_wp_env (Some [''f'']) s = (Inr [trial_function], s)"
    using g by (simp add: resolve_wp_targets_def resolve_function_or_refresh_def known_function_def
        resolve_function_def good_def functions_of_def andThen_def answer_def)
  have m: "pvdecl_marker (debug_of trial_wp_env) (fi_declaration trial_function) = Inr ''#v1''"
    by (simp add: pvdecl_marker_def trial_function_def strip_prefix_def)
  have d: "filter fi_defined [trial_function] = [trial_function]" by (simp add: trial_function_def)
  have "fine (generate_rte_guards trial_wp_env [trial_function])"
    unfolding generate_rte_guards_def d
    by (rule fine_each) (auto simp: guard_function_def print_declaration_def m answer_andThen intro!: fine_rules)
  with g obtain guarded u where "generate_rte_guards trial_wp_env [trial_function] s = (Inr guarded, u)" "good u"
    unfolding fine_def by blast
  with r show ?thesis
    by (simp add: resolve_what_to_prove_def names andThen_def selection_of_def answer_def or_else_def
        trial_function_def [THEN arg_cong [where f = fi_declaration]])
qed

lemma fine_start: "fine (start_recorded trial_wp_env subject (Some [''#F1'']))"
  unfolding fine_def
proof (intro allI impI)
  fix s
  assume g: "good s"
  have m: "proof_marker trial_wp_env ''#F1'' = andThen (wp_ask trial_wp_env Get ''kernel.ast.printDeclaration'' (JStr ''#F1''))
      (\<lambda>_. answer (Inr ''#v1''))"
    by (simp add: proof_marker_def starts_with_def pvdecl_marker_def strip_prefix_def)
  have "fine (start_wp_proofs trial_wp_env (Some [''#F1'']))"
    by (auto simp: start_wp_proofs_def prove_marker_def with_diagnostics_def m answer_andThen intro!: fine_rules)
  with g obtain ds u where "start_wp_proofs trial_wp_env (Some [''#F1'']) s = (Inr ds, u)" "good u"
    unfolding fine_def by blast
  then show "\<exists>a t. start_recorded trial_wp_env subject (Some [''#F1'']) s = (Inr a, t) \<and> good t"
    by (simp add: start_recorded_def record_model_or_explain_abort_def record_model_def good_def functions_of_def)
qed

lemma fine_drain: "fine (drain_wp_tasks trial_wp_env budget)"
  unfolding fine_def
proof (intro allI impI)
  fix s
  assume g: "good s"
  obtain c u where n: "now trial_wp_env s = (c, u)" by fastforce
  have gu: "good u" using n g by (auto simp: now_def Let_def good_def functions_of_def)
  obtain v p where v: "ask (we_load trial_wp_env) Get ''plugins.wp.getScheduledTasks'' JNull (ws_project u) = (Inr v, p)"
      "good (u\<lparr>ws_project := p\<rparr>)"
    using fine_ask [OF gu] by blast
  have "v = JArr []"
    using v(1) by (simp add: ask_def send_def trial_wp_env_def trial_env_def trial_requests_def wp_answers_def
      main_call_def)
  with v have "scheduled_tasks trial_wp_env u = (Inr (JArr []), u\<lparr>ws_project := p\<rparr>)"
    by (simp add: scheduled_tasks_def wp_ask_def on_project_def ask_mcp_def ask_or_def)
  with v(2) show "\<exists>a t. drain_wp_tasks trial_wp_env budget s = (Inr a, t) \<and> good t"
    by (simp add: drain_wp_tasks_def n drain_loop.simps [of trial_wp_env budget _ 0 u] look_at_queue_def andThen_def
        wp_pending_task_count_def jget_def)
qed

lemma fine_goals: "fine (fetch_wp_goals trial_wp_env)"
proof -
  have "\<exists>a t. (let ids = List.map_filter (\<lambda>goal. get_str goal ''wpo'') goals
       in if ids = [] then (Inr (apply_cache_provenance goals JNull), s)
          else (case ask (we_load trial_wp_env) Get ''plugins.ast-utils.getGoalCacheStats'' (JObj [(''goals'', jstrs ids)])
                  (ws_project s) of
                  (r, p) \<Rightarrow> (Inr (apply_cache_provenance goals (case r of Inl _ \<Rightarrow> JNull | Inr stats \<Rightarrow> stats)),
                             s\<lparr>ws_project := p\<rparr>))) = (Inr a, t) \<and> good t" if g: "good s" for goals and s :: wp_server
  proof (cases "List.map_filter (\<lambda>goal. get_str goal ''wpo'') goals")
    case Nil
    with g show ?thesis by simp
  next
    case (Cons i ids)
    obtain v p where "ask (we_load trial_wp_env) Get ''plugins.ast-utils.getGoalCacheStats''
        (JObj [(''goals'', jstrs (i # ids))]) (ws_project s) = (Inr v, p)" "good (s\<lparr>ws_project := p\<rparr>)"
      using fine_ask [OF g] by blast
    with Cons show ?thesis by simp
  qed
  then show ?thesis unfolding fetch_wp_goals_def
    by (intro fine_rules) (unfold fine_def, intro allI impI, assumption)
qed

lemma fine_prove:
  assumes "pt_decl_markers targets = Some [''#F1'']" "pt_prop_selection targets = None" "ap_min_goals profile = None"
  shows "fine (prove_targets trial_wp_env trial_params_used provers (Some profile) subject targets)"
  unfolding fine_def
proof (intro allI impI)
  fix s
  assume g: "good s"
  have r: "retry_timed_out_goals trial_wp_env trial_params_used provers markers None goals = answer (Inr (goals, JNull))"
    for markers goals
    by (simp add: retry_timed_out_goals_def with_profile_def trial_run_def narrow_def)
  have f: "floor_of_profile trial_wp_env (Some profile) goals fs = Inr ()" for goals fs
    using assms by (simp add: floor_of_profile_def goal_floor_shortfall_def)
  have t: "fine (tasks_of_run trial_wp_env trial_params_used n)" for n
    unfolding tasks_of_run_def by (intro fine_rules fine_drain)
  have "fine (andThen (start_recorded trial_wp_env subject (Some [''#F1''])) (\<lambda>diagnostics.
         andThen (tasks_of_run trial_wp_env trial_params_used n) (\<lambda>tasks.
         andThen (fetch_wp_goals trial_wp_env) (\<lambda>goals.
           answer (Inr \<lparr>wo_subject = subject, wo_targets = targets, wo_diagnostics = diagnostics, wo_tasks = tasks,
             wo_goals = goals, wo_timeout_retry = JNull, wo_profile = Some profile\<rparr>)))))" for n
    by (intro fine_rules fine_start t fine_goals)
  with g show "\<exists>a t. prove_targets trial_wp_env trial_params_used provers (Some profile) subject targets s = (Inr a, t) \<and> good t"
    by (simp add: prove_targets_def Let_def assms r f answer_andThen fine_def)
qed

lemma fine_enter: "fine (enter_wp trial_wp_env)"
proof -
  have e: "\<exists>v q. get_eva_computation_state (we_load trial_wp_env) (ws_project s) = (Inr v, q) \<and> good (s\<lparr>ws_project := q\<rparr>)"
    if g: "good s" for s
    using fine_ask [OF g, of Get "''plugins.eva.analysis.getComputationState''" JNull]
    by (auto simp: get_eva_computation_state_def)
  have "fine (on_project (\<lambda>s. case get_eva_computation_state (we_load trial_wp_env) s of
         (Inl e, s') \<Rightarrow> (Inr False, s')
       | (Inr v, s') \<Rightarrow> (Inr (as_str v = Some ''computed''), s')))"
    using e by (fastforce simp: fine_def on_project_def)
  moreover have "fine (on_project (\<lambda>s. (Inr (), if computed then s else on_session (eva_is False) s)))" for computed
    by (auto simp: fine_def good_def on_project_def functions_of_def on_session_def eva_is_def)
  ultimately show ?thesis
    unfolding enter_wp_def reset_wp_entry_state_def on_project_andThen wp_ask_def [symmetric]
    by (intro fine_rules)
qed

lemma trial_project_fields:
  "map_of (ss_verification_profiles (srv_session (pr_server (ws_project trial_project)))) ''t'' = Some trial_target"
  "\<not> pr_locked (ws_project trial_project)" "good trial_project"
  "\<exists>m. pr_main (ws_project trial_project) = Some m"
  by (simp_all add: trial_project_def good_def functions_of_def)

lemma trial_transaction:
  assumes "ap_min_goals profile = None"
  shows "\<exists>outcome t. run_transaction trial_wp_env trial_params_used (Some [''z3'']) (Some profile) trial_project
    = (Inr outcome, t)"
proof -
  let ?W = trial_wp_env and ?s = trial_project
  obtain m where m: "pr_main (ws_project ?s) = Some m" using trial_project_fields(4) by blast
  obtain subject where su: "wp_run_subject trial_params_used ?s = (Inr subject, ?s)"
    by (simp add: wp_run_subject_def m)
  have "fine (andThen (on_project need_client) (\<lambda>_.
      andThen (enter_wp ?W) (\<lambda>_. apply_wp_config ?W trial_params_used (Some [''z3'']))))"
    by (intro fine_rules fine_enter fine_config)
  with trial_project_fields(3) obtain u where
    u: "andThen (on_project need_client) (\<lambda>_.
      andThen (enter_wp ?W) (\<lambda>_. apply_wp_config ?W trial_params_used (Some [''z3'']))) ?s = (Inr (), u)" "good u"
    unfolding fine_def by (metis unit.exhaust)
  from trial_targets [OF u(2)] obtain targets v where
    v: "resolve_what_to_prove ?W trial_params_used u = (Inr targets, v)" "good v"
      "pt_decl_markers targets = Some [''#F1'']" "pt_prop_selection targets = None"
    by blast
  from fine_prove [OF v(3,4) assms, of "Some [''z3'']" subject] v(2) obtain outcome t where
    "prove_targets ?W trial_params_used (Some [''z3'']) (Some profile) subject targets v = (Inr outcome, t)"
    unfolding fine_def by blast
  with u(1) v(1) su trial_project_fields(2) show ?thesis
    by (auto simp: run_transaction_def andThen_Inr refuse_while_locked_def)
qed

lemma trial_ran:
  "\<exists>outcome t. run_wp trial_wp_env (trial_run (Some ''t'')) trial_project = (Inr (Ran outcome), t)"
proof -
  let ?W = trial_wp_env and ?s = trial_project
  have c: "check_profile ?W ''t'' trial_target (trial_run (Some ''t'')) (pr_main (ws_project ?s)) = Inr ()"
    by code_simp
  have e: "effective_wp_provers_from trial_params_used (we_provers_var ?W) = Inr (Some [''z3''])" by code_simp
  define profile where "profile = \<lparr>ap_name = ''t'', ap_echo = profile_echo ''t'' trial_target, ap_min_goals = vp_min_goals trial_target\<rparr>"
  have q: "wp_verify_profile (trial_run (Some ''t'')) = Some ''t''" "wp_functions (trial_run (Some ''t'')) = None"
    "wp_cancel (trial_run (Some ''t'')) = None" "wp_provers trial_params_used = None"
    by (simp_all add: trial_run_def with_profile_def)
  have p: "apply_verify_profile ?W (trial_run (Some ''t'')) ?s = (Inr (trial_params_used, Some profile), ?s)"
    by (simp add: apply_verify_profile_def q verify_profile_named_def c profile_def trial_project_fields(1)
        answer_andThen) (simp add: answer_def)
  have "ap_min_goals profile = None" by (simp add: profile_def trial_target_def)
  from trial_transaction [OF this] obtain outcome t where
    t: "run_transaction ?W trial_params_used (Some [''z3'']) (Some profile) ?s = (Inr outcome, t)" by blast
  have w: "wait_for_lock ?W ?s = (Inr (), ?s)" by (simp add: wait_for_lock_def trial_wp_env_def)
  have l: "refuse_while_locked ?s = (Inr (), ?s)" using trial_project_fields(2) by (simp add: refuse_while_locked_def)
  have "run_wp_on_main ?W (trial_run (Some ''t'')) ?s = (Inr (Ran outcome), t)"
    by (simp add: run_wp_on_main_def andThen_Inr w p l q e t isolated_provers_def answer_def)
  then have "run_wp ?W (trial_run (Some ''t'')) ?s = (Inr (Ran outcome), t)"
    by (simp add: run_wp_def run_wp_target_scope_def q answer_andThen)
  then show ?thesis by blast
qed

text \<open>The trial: z3 is switched on and CVC5 off, and one proof is started, of the only function.\<close>

lemma profiled_run_proves_its_target_witness:
  "\<exists>outcome t first rest.
     run_wp trial_wp_env (trial_run (Some ''t'')) trial_project = (Inr (Ran outcome), t) \<and>
     map fi_name (pt_targets (wo_targets outcome)) = [''f''] \<and>
     calls_of t = first @ provers_call # rest \<and> filter steers first = entry_calls \<and>
     filter steers rest =
       [main_call Put ''plugins.wp.setProverState'' (JArr [JStr ''Z3:4'', JBool True]),
        main_call Put ''plugins.wp.setProverState'' (JArr [JStr ''CVC5:1'', JBool False]),
        timeout_call 9, cache_call ''Update'',
        main_call Exec ''plugins.ast-utils.execSetWpConfig'' (JObj [(''model'', JStr ''Typed''), (''steps'', u32_json 0)])] @
       map guard_call (filter fi_defined (pt_targets (wo_targets outcome))) @
       map start_call (pt_targets (wo_targets outcome))"
proof -
  obtain outcome t where r: "run_wp trial_wp_env (trial_run (Some ''t'')) trial_project = (Inr (Ran outcome), t)"
    using trial_ran by blast
  have w: "we_wait trial_wp_env trial_project = trial_project" by (simp add: trial_wp_env_def)
  have "wp_verify_profile (trial_run (Some ''t'')) = Some ''t''" "names_match (functions_of (we_wait trial_wp_env trial_project))"
    using trial_project_fields(3) by (simp_all add: trial_run_def w good_def names_match_def trial_function_def)
  from profiled_run_proves_its_target [OF r this] obtain p m cache par first rest chosen where
    p: "map_of (ss_verification_profiles (srv_session (pr_server (ws_project trial_project)))) ''t'' = Some p"
    and x: "map fi_name (pt_targets (wo_targets outcome)) = unwrap_or (wp_functions (trial_run (Some ''t''))) (vp_functions p)"
      "effective_wp_cache (debug_of trial_wp_env) (trial_run (Some ''t'')) = Inr cache"
      "effective_wp_par_from (trial_run (Some ''t'')) (we_par_var trial_wp_env) = Inr par"
      "calls_of t = calls_of trial_project @ first @ provers_call # rest" "filter steers first = entry_calls"
    and c: "selected_by (provers_of p)
        (answers (le_server (we_load trial_wp_env)) (calls_of trial_project @ first) provers_call) chosen"
    and y: "filter steers rest = chosen @ [timeout_call (the (vp_timeout_seconds p)), cache_call cache,
        main_call Exec ''plugins.ast-utils.execSetWpConfig''
          (JObj ([(''model'', JStr (the (vp_model p)))] @
             (case par of None \<Rightarrow> [] | Some n \<Rightarrow> [(''par'', u32_json n)]) @
             [(''steps'', u32_json (unwrap_or (wp_steps (trial_run (Some ''t''))) 0))]))] @
        map guard_call (filter fi_defined (pt_targets (wo_targets outcome))) @
        map start_call (pt_targets (wo_targets outcome))"
    unfolding w by blast
  have p: "p = trial_target" using p by (simp add: trial_project_fields(1))
  have "find (\<lambda>mode. eq_ignore_ascii_case mode (trim ''Update'')) wp_cache_modes = Some ''Update''" by code_simp
  with x(2) have cache: "cache = ''Update''"
    by (simp add: effective_wp_cache_def trial_run_def unwrap_or_def validate_wp_cache_mode_def)
  have par: "par = None"
    using x(3) by (simp add: effective_wp_par_from_def trial_run_def trial_wp_env_def parse_wp_u32_def)
  have a: "answers (le_server (we_load trial_wp_env)) h provers_call = Inr (JArr [JStr ''Z3:4'', JStr ''CVC5:1''])" for h
    by (simp add: trial_wp_env_def trial_env_def trial_requests_def wp_answers_def provers_call_def main_call_def)
  have z3: "provers_of trial_target = [''z3'']" by code_simp
  have m: "prover_id_matches ''z3'' ''Z3:4''" "\<not> prover_id_matches ''z3'' ''CVC5:1''" by code_simp+
  have chosen: "chosen = [main_call Put ''plugins.wp.setProverState'' (JArr [JStr ''Z3:4'', JBool True]),
      main_call Put ''plugins.wp.setProverState'' (JArr [JStr ''CVC5:1'', JBool False])]"
    using c m by (simp add: p z3 a selected_by_def List.map_filter_simps)
  have "calls_of trial_project = []" by (simp add: calls_of_def trial_project_def)
  with r x(1,4,5) y show ?thesis
    by (intro exI [of _ outcome] exI [of _ t] exI [of _ first] exI [of _ rest])
       (simp add: p cache par chosen trial_target_def trial_run_def unwrap_or_def)
qed

section \<open>The provers of a run\<close>

text \<open>C34: when the provers of a run are set and Frama-C lists its provers, every prover it lists is switched,
  on if one of the names asked for matches it and off otherwise, and every name asked for matches one of
  them; a list Frama-C refuses to give is replaced by one request that names the provers.\<close>

theorem prover_selection_is_exact:
  assumes "apply_prover_selection W requested s = (Inr (), t)"
  shows "\<exists>new. calls_of t = calls_of s @ main_call Get ''plugins.wp.getProvers'' JNull # new \<and>
    (case fst (ask (we_load W) Get ''plugins.wp.getProvers'' JNull (ws_project s)) of
       Inl e \<Rightarrow> (\<exists>i. e = Rejected i) \<and> new = [main_call Put ''plugins.wp.setProvers'' (jstrs requested)]
     | Inr (JArr listed) \<Rightarrow>
         new = map (\<lambda>i. main_call Put ''plugins.wp.setProverState''
                 (JArr [JStr i, JBool (\<exists>name \<in> set requested. prover_id_matches name i)]))
               (List.map_filter as_str listed) \<and>
         (\<forall>name \<in> set requested. \<exists>i \<in> set (List.map_filter as_str listed). prover_id_matches name i)
     | Inr _ \<Rightarrow> new = [])"
  using selection_sent [OF assms]
  by (auto simp: selected_by_def provers_call_def ask_def send_def calls_of_def split: sum.splits json.splits)

lemma prover_selection_is_exact_witness:
  "\<exists>t. apply_prover_selection trial_wp_env [''z3''] trial_project = (Inr (), t) \<and>
     calls_of t = [main_call Get ''plugins.wp.getProvers'' JNull,
       main_call Put ''plugins.wp.setProverState'' (JArr [JStr ''Z3:4'', JBool True]),
       main_call Put ''plugins.wp.setProverState'' (JArr [JStr ''CVC5:1'', JBool False])]"
proof -
  obtain t where t: "apply_prover_selection trial_wp_env [''z3''] trial_project = (Inr (), t)"
    using fine_provers trial_project_fields(3) by (fastforce simp: fine_def select_provers_def)
  have a: "fst (ask (we_load trial_wp_env) Get ''plugins.wp.getProvers'' JNull (ws_project trial_project))
      = Inr (JArr [JStr ''Z3:4'', JStr ''CVC5:1''])"
    by (simp add: ask_def send_def trial_wp_env_def trial_env_def trial_requests_def wp_answers_def main_call_def)
  have m: "prover_id_matches ''z3'' ''Z3:4''" "\<not> prover_id_matches ''z3'' ''CVC5:1''" by code_simp+
  have "calls_of trial_project = []" by (simp add: calls_of_def trial_project_def)
  with prover_selection_is_exact [OF t] a m show ?thesis
    using t by (simp add: List.map_filter_simps)
qed

section \<open>The retry\<close>

definition timeouts :: "call list \<Rightarrow> call list" where
  "timeouts cs = filter (\<lambda>c. call_endpoint c = ''plugins.wp.setTimeout'') cs"

lemma sends_wp_ask: "wp_ask W kind endpoint data s = (r, t) \<Longrightarrow> calls_of t = calls_of s @ [main_call kind endpoint data]"
  by (auto simp: wp_ask_def on_project_def ask_mcp_def ask_or_def calls_of_def split: prod.splits sum.splits
      dest!: ask_calls)

abbreviation appends :: "'a wp_step \<Rightarrow> bool" where
  "appends \<equiv> only (\<lambda>_. True)"

lemma appends_calm: "calm m \<Longrightarrow> appends m"
  by (rule only_mono) auto

lemma appends_provers: "appends (select_provers W provers)"
proof -
  have "appends (apply_prover_selection W ps)" for ps
  proof (rule onlyI)
    fix s r t
    assume run: "apply_prover_selection W ps s = (r, t)"
    obtain x p where x: "ask (we_load W) Get ''plugins.wp.getProvers'' JNull (ws_project s) = (x, p)" by fastforce
    define u where "u = s\<lparr>ws_project := p\<rparr>"
    have u: "calls_of u = calls_of s @ [provers_call]"
      using ask_calls [OF x] by (simp add: u_def calls_of_def provers_call_def)
    have o: "appends (select_offered W ps v)"
        "appends (andThen (wp_ask W Put ''plugins.wp.setProvers'' (jstrs ps)) (\<lambda>_. answer (Inr ())))" for v
      by (auto simp: select_offered_def set_prover_state_def Let_def intro!: sent_rules)
    have "\<exists>new. calls_of t = calls_of u @ new \<and> list_all (\<lambda>_. True) new"
      using run x by (auto simp: apply_prover_selection_def u_def [symmetric] split: sum.splits frama_c_error.splits
          dest: onlyD [OF o(1)] onlyD [OF o(2)])
    with u show "\<exists>new. calls_of t = calls_of s @ new \<and> list_all (\<lambda>_. True) new" by auto
  qed
  then show ?thesis by (auto simp: select_provers_def intro!: sent_rules)
qed

lemma appends_start: "appends (start_wp_proofs W markers)"
proof -
  have "appends (\<lambda>s. (Inr (we_diagnostics W (calls_of s)), s))" by (rule sent_rules)
  then show ?thesis
    by (auto simp: start_wp_proofs_def prove_marker_def proof_marker_def with_diagnostics_def intro!: sent_rules)
qed

lemma appends_config: "appends (apply_wp_config W params provers)"
proof -
  have "appends (set_effective_timeout W params)"
    by (auto simp: set_effective_timeout_def set_timeout_def intro!: sent_rules)
  then show ?thesis unfolding apply_wp_config_def
    by (intro only_andThen appends_provers appends_calm [OF calm_validate] sent_rules) simp_all
qed

lemma appends_prove_and_fetch: "appends (prove_and_fetch W markers)"
  unfolding prove_and_fetch_def
  by (intro only_andThen appends_start appends_calm [OF calm_drain] appends_calm [OF calm_fetch_goals])

lemma retry_at_ends:
  assumes "retry_at W params provers markers first_pass s = (r, t)"
  shows "\<exists>new. calls_of t = calls_of s @ new @ [timeout_call first_pass]"
proof -
  obtain x u where x: "andThen (apply_wp_config W (retry_params_of params (doubled_timeout first_pass)) provers)
      (\<lambda>_. prove_and_fetch W markers) s = (x, u)" by fastforce
  obtain y v where y: "set_timeout W first_pass u = (y, v)" by fastforce
  have "t = v" using assms x y by (auto simp: retry_at_def split: sum.splits)
  moreover have "calls_of v = calls_of u @ [timeout_call first_pass]"
    using sends_wp_ask [OF y [unfolded set_timeout_def]] by (simp add: timeout_call_def)
  moreover have "\<exists>new. calls_of u = calls_of s @ new"
    using onlyD [OF only_andThen [OF appends_config appends_prove_and_fetch] x] by blast
  ultimately show ?thesis by auto
qed

text \<open>C35: however a retry ends, with goals or with a failure of any of its steps, the last request it sends sets
  the time limit the session had before it; a retry that sets nothing else sends no time limit at all.\<close>

theorem retry_restores_timeout:
  assumes "retry_timed_out_goals W params provers markers selection goals s = (r, t)"
  shows "\<exists>new. calls_of t = calls_of s @ new \<and>
    (timeouts new = [] \<or>
     (\<exists>v p. ask (we_load W) Get ''plugins.wp.getTimeout'' JNull (ws_project s) = (Inr v, p) \<and>
        last new = timeout_call (ucast (unwrap_or (as_u64 v) 0))))"
proof (cases "wp_retry_unproved params \<noteq> Some True \<or> timed_out_goals (narrow selection goals) = []")
  case True
  with assms have "calls_of t = calls_of s"
    by (auto simp: retry_timed_out_goals_def Let_def answer_def split: if_splits)
  then show ?thesis by (simp add: timeouts_def)
next
  case False
  define rest where "rest first_pass = (if first_pass = 0
           then answer (Inr (narrow selection goals, not_attempted
             ''the session prover timeout is unset or unbounded, so there is nothing to double''))
           else andThen (retry_at W params provers markers first_pass) (\<lambda>retried0.
             let retried = narrow selection retried0
             in answer (Inr (retried, timeout_retry_report (timed_out_goals (narrow selection goals)) retried
                  first_pass (doubled_timeout first_pass)))))" for first_pass
  have run: "andThen (session_timeout W) rest s = (r, t)"
    using assms False by (simp add: retry_timed_out_goals_def Let_def rest_def [abs_def])
  obtain x u where x: "session_timeout W s = (x, u)" by fastforce
  have u: "calls_of u = calls_of s @ [main_call Get ''plugins.wp.getTimeout'' JNull]"
    using x by (auto simp: session_timeout_def andThen_def answer_def split: prod.splits sum.splits dest!: sends_wp_ask)
  show ?thesis
  proof (cases x)
    case (Inl e)
    with run x u show ?thesis by (auto simp: andThen_def timeouts_def main_call_def)
  next
    case (Inr first_pass)
    with x obtain v p where v: "ask (we_load W) Get ''plugins.wp.getTimeout'' JNull (ws_project s) = (Inr v, p)"
        "first_pass = ucast (unwrap_or (as_u64 v) 0)"
      by (auto simp: session_timeout_def andThen_Inr answer_def wp_ask_def on_project_def ask_mcp_def ask_or_def
          split: prod.splits sum.splits)
    have rr: "rest first_pass u = (r, t)" using run x Inr by (simp add: andThen_def)
    show ?thesis
    proof (cases "first_pass = 0")
      case True
      with rr u show ?thesis by (auto simp: rest_def answer_def timeouts_def main_call_def)
    next
      case False
      obtain y w where y: "retry_at W params provers markers first_pass u = (y, w)" by fastforce
      from rr False y have "t = w" by (auto simp: rest_def andThen_def answer_def Let_def split: sum.splits)
      with retry_at_ends [OF y] u obtain new where
        "calls_of t = calls_of s @ (main_call Get ''plugins.wp.getTimeout'' JNull # new) @ [timeout_call first_pass]"
        by auto
      with v show ?thesis
        by (intro exI [of _ "main_call Get ''plugins.wp.getTimeout'' JNull # new @ [timeout_call first_pass]"]) auto
    qed
  qed
qed

text \<open>A Frama-C that answers nothing but its time limit: the retry fails at once, and the limit is sent back.\<close>

definition mute_answers :: "call list \<Rightarrow> call \<Rightarrow> frama_c_error + json" where
  "mute_answers h c =
     (if call_endpoint c = ''plugins.wp.getTimeout'' then Inr (u64_json 9) else Inl ConnectTimeout)"

definition mute_env :: wp_env where
  "mute_env = trial_wp_env\<lparr>we_load := (trial_env None)\<lparr>le_server := (trial_requests None)\<lparr>answers := mute_answers\<rparr>\<rparr>\<rparr>"

definition late_goal :: json where
  "late_goal = JObj [(''wpo'', JStr ''g''), (''status'', JStr ''TIMEOUT'')]"

lemma retry_restores_timeout_witness:
  "\<exists>e t. retry_timed_out_goals mute_env ((trial_run None)\<lparr>wp_retry_unproved := Some True\<rparr>) None None None [late_goal]
       trial_project = (Inl e, t) \<and> timeouts (calls_of t) = [timeout_call 18, timeout_call 9] \<and>
     last (calls_of t) = timeout_call 9"
proof -
  let ?p = "(trial_run None)\<lparr>wp_retry_unproved := Some True\<rparr>"
  have ask: "ask (we_load mute_env) k e d p = (mute_answers (srv_calls (pr_server p)) (main_call k e d),
      p\<lparr>pr_server := (pr_server p)\<lparr>srv_calls := srv_calls (pr_server p) @ [main_call k e d]\<rparr>\<rparr>)" for k e d p
    by (simp add: ask_def send_def mute_env_def trial_wp_env_def trial_env_def trial_requests_def)
  have late: "timed_out_goals (narrow None [late_goal]) = [''g'']" by code_simp
  obtain e t where r: "retry_timed_out_goals mute_env ?p None None None [late_goal] trial_project = (Inl e, t)"
    and c: "calls_of t = [main_call Get ''plugins.wp.getTimeout'' JNull, timeout_call 18, timeout_call 9]"
    by (simp add: retry_timed_out_goals_def late Let_def session_timeout_def andThen_def wp_ask_def on_project_def
        ask_mcp_def ask_or_def ask mute_answers_def main_call_def u64_json_def unwrap_or_def answer_def
        retry_at_def apply_wp_config_def select_provers_def set_effective_timeout_def effective_wp_timeout_from_def
        retry_params_of_def set_timeout_def calls_of_def trial_project_def timeout_call_def doubled_timeout_def)
  have "timeouts (calls_of t) = [timeout_call 18, timeout_call 9]"
    by (simp add: c timeouts_def timeout_call_def main_call_def)
  moreover have "calls_of trial_project = []" by (simp add: calls_of_def trial_project_def)
  ultimately show ?thesis
    using retry_restores_timeout [OF r] r ask [of Get "''plugins.wp.getTimeout''" JNull "ws_project trial_project"]
    by (auto simp: mute_answers_def main_call_def u64_json_def unwrap_or_def)
qed

section \<open>The wait for the queue\<close>

abbreviation poll :: call where
  "poll \<equiv> main_call Get ''plugins.wp.getScheduledTasks'' JNull"

definition settled :: "nat \<Rightarrow> nat \<Rightarrow> nat \<Rightarrow> json \<Rightarrow> bool" where
  "settled budget deadline clock tasks \<longleftrightarrow>
     wp_pending_task_count tasks = None \<or>
     (\<exists>queue pending. wp_pending_task_count queue = Some pending \<and> tasks = drained_tasks budget pending queue \<and>
        (pending = 0 \<or> deadline \<le> clock))"

lemma settledI:
  "wp_pending_task_count tasks = None \<Longrightarrow> settled budget deadline clock tasks"
  "wp_pending_task_count queue = Some pending \<Longrightarrow> deadline \<le> clock \<Longrightarrow>
   settled budget deadline clock (drained_tasks budget pending queue)"
  "wp_pending_task_count queue = Some pending \<Longrightarrow> \<not> 0 < pending \<Longrightarrow>
   settled budget deadline clock (drained_tasks budget pending queue)"
  by (auto simp: settled_def word_neq_0_conv)

lemma settled_mono: "settled budget deadline clock tasks \<Longrightarrow> d \<le> deadline \<Longrightarrow> settled budget d clock tasks"
  unfolding settled_def using le_trans by blast

lemma look_at_queue_ends:
  assumes "look_at_queue W budget deadline s = (r, t)"
  shows "calls_of t = calls_of s @ [poll] \<and> ws_clock s \<le> ws_clock t \<and>
    (case r of Inl e \<Rightarrow> True
     | Inr (again, tasks) \<Rightarrow>
         if again then ws_clock t < deadline else settled budget deadline (ws_clock t) tasks)"
proof -
  obtain x u where x: "scheduled_tasks W s = (x, u)" by fastforce
  have u: "calls_of u = calls_of s @ [poll]" "ws_clock u = ws_clock s"
    using x by (auto simp: scheduled_tasks_def dest: sends_wp_ask) (simp add: wp_ask_def)
  show ?thesis
  proof (cases x)
    case (Inl e)
    with assms x u show ?thesis by (auto simp: look_at_queue_def andThen_def)
  next
    case (Inr tasks)
    show ?thesis
    proof (cases "wp_pending_task_count tasks")
      case None
      with assms x u Inr show ?thesis by (auto simp: look_at_queue_def andThen_def settledI(1))
    next
      case (Some pending)
      show ?thesis
      proof (cases "0 < pending")
        case True
        with assms x u Inr Some settledI(2) [OF Some] show ?thesis
          by (auto simp: look_at_queue_def andThen_def now_def Let_def split: if_splits)
      next
        case False
        with assms x u Inr Some settledI(3) [OF Some] show ?thesis
          by (auto simp: look_at_queue_def andThen_def split: if_splits)
      qed
    qed
  qed
qed

lemma drain_loop_ends:
  "drain_loop W budget deadline n s = (r, t) \<Longrightarrow>
     \<exists>k. calls_of t = calls_of s @ replicate (Suc k) poll \<and> (k = 0 \<or> ws_clock s + 50 * (k - 1) < deadline) \<and>
       (case r of Inl e \<Rightarrow> True | Inr tasks \<Rightarrow> settled budget deadline (ws_clock t) tasks)"
proof (induction W budget deadline n s rule: drain_loop.induct)
  case (1 W budget deadline n s)
  obtain x u where x: "look_at_queue W budget deadline s = (x, u)" by fastforce
  note ends = look_at_queue_ends [OF x]
  show ?case
  proof (cases x)
    case (Inl e)
    with 1(2) x ends show ?thesis
      by (intro exI [of _ 0]) (auto simp: drain_loop.simps [of W budget deadline n s])
  next
    case (Inr b)
    obtain again tasks where b: "b = (again, tasks)" by fastforce
    show ?thesis
    proof (cases again)
      case True
      with 1(2) x Inr b have d: "drain_loop W budget deadline (Suc n) (sleep (backoff n) u) = (r, t)"
        by (simp add: drain_loop.simps [of W budget deadline n s])
      from 1(1) [OF x [symmetric] Inr b [symmetric] True this] obtain k where
        k: "calls_of t = calls_of u @ replicate (Suc k) poll"
          "k = 0 \<or> ws_clock u + backoff n + 50 * (k - 1) < deadline"
          "case r of Inl e \<Rightarrow> True | Inr tasks \<Rightarrow> settled budget deadline (ws_clock t) tasks"
        by (auto simp: sleep_def [of "backoff n" u])
      have "50 \<le> backoff n" by (simp add: backoff_def)
      moreover have c: "calls_of u = calls_of s @ [poll]" "ws_clock s \<le> ws_clock u" "ws_clock u < deadline"
        using ends Inr b True by auto
      ultimately have "ws_clock s + 50 * (Suc k - 1) < deadline" using k(2) by (cases k) auto
      with k c show ?thesis by (intro exI [of _ "Suc k"]) simp
    next
      case False
      with 1(2) x Inr b ends show ?thesis
        by (intro exI [of _ 0]) (auto simp: drain_loop.simps [of W budget deadline n s])
    qed
  qed
qed

text \<open>C36: the wait for WP's queue ends for every Frama-C and every clock: it asks for the queue at most once per
  fifty milliseconds of its budget and twice more, sends nothing else, and answers a queue that is still
  working only when the whole budget has passed; the answer says so.\<close>

theorem wait_is_bounded:
  "let (r, t) = drain_wp_tasks W budget s
   in \<exists>k. calls_of t = calls_of s @ replicate k poll \<and> k \<le> budget div 50 + 2 \<and>
        (case r of Inl e \<Rightarrow> True | Inr tasks \<Rightarrow> settled budget (ws_clock s + budget) (ws_clock t) tasks)"
proof -
  obtain c u where c: "now W s = (c, u)" by fastforce
  obtain r t where d: "drain_loop W budget (c + budget) 0 u = (r, t)" by fastforce
  have u: "calls_of u = calls_of s" "ws_clock u = c" "ws_clock s \<le> c" using c by (auto simp: now_def Let_def)
  from drain_loop_ends [OF d] obtain k where
    k: "calls_of t = calls_of u @ replicate (Suc k) poll" "k = 0 \<or> ws_clock u + 50 * (k - 1) < c + budget"
      "case r of Inl e \<Rightarrow> True | Inr tasks \<Rightarrow> settled budget (c + budget) (ws_clock t) tasks"
    by blast
  have "Suc k \<le> budget div 50 + 2"
    using k(2) u(2) by auto
  moreover have "settled budget (ws_clock s + budget) (ws_clock t) tasks"
    if "settled budget (c + budget) (ws_clock t) tasks" for tasks
    using settled_mono [OF that] u(3) by simp
  ultimately show ?thesis
    using k u(1) c d by (auto simp: drain_wp_tasks_def intro!: exI [of _ "Suc k"] split: sum.splits)
qed

section \<open>A locked project\<close>

text \<open>C37: a \<open>run_wp\<close> on the main project that is not a cancel does nothing while the project is locked. A run
  without a profile looks at the lock first: locked, it answers the lock error at once, without waiting; when
  the lock appears only while it waits behind another run, it answers the lock error too, unless its provers
  were refused, or handed it to the isolated retries, before it waited. A run under a profile waits first and
  then answers what is wrong with the profile, or the lock error. Nothing is sent and nothing changes.\<close>

theorem locked_project_is_left_alone:
  assumes main: "run_wp_target_scope params = Inr MainRun" and cancel: "wp_cancel params \<noteq> Some True"
    and locked: "pr_locked (ws_project (if wp_verify_profile params = None \<and> pr_locked (ws_project s) then s else we_wait W s))"
  shows "run_wp W params s =
    (case wp_verify_profile params of
       None \<Rightarrow>
         if pr_locked (ws_project s) then (Inl run_wp_locked_error, s)
         else (case effective_wp_provers_from params (we_provers_var W) of
                 Inl e \<Rightarrow> (Inl e, s)
               | Inr provers \<Rightarrow>
                   (case wp_provers params of
                      None \<Rightarrow> (Inl run_wp_locked_error, we_wait W s)
                    | Some _ \<Rightarrow> (case provers of
                         None \<Rightarrow> (Inl run_wp_locked_error, we_wait W s)
                       | Some ps \<Rightarrow> (Inr (Isolated_Retries params ps), s))))
     | Some name \<Rightarrow>
         (case verify_profile_named name (srv_session (pr_server (ws_project (we_wait W s)))) of
            Inl e \<Rightarrow> (Inl e, we_wait W s)
          | Inr p \<Rightarrow>
              (case check_profile W name p params (pr_main (ws_project (we_wait W s))) of
                 Inl e \<Rightarrow> (Inl e, we_wait W s)
               | Inr _ \<Rightarrow> (Inl run_wp_locked_error, we_wait W s))))"
proof -
  have m: "run_wp W params s = run_wp_on_main W params s"
    using main cancel by (simp add: run_wp_def answer_andThen)
  have l: "refuse_while_locked u = (Inl run_wp_locked_error, u)" if "pr_locked (ws_project u)" for u
    using that by (simp add: refuse_while_locked_def)
  have o: "refuse_while_locked u = (Inr (), u)" if "\<not> pr_locked (ws_project u)" for u
    using that by (simp add: refuse_while_locked_def)
  show ?thesis
  proof (cases "wp_verify_profile params")
    case None
    then show ?thesis
      using locked
      by (auto simp: m run_wp_on_main_def andThen_def answer_def apply_verify_profile_def wait_for_lock_def l o
          isolated_provers_def run_transaction_def split: option.split sum.split)
  next
    case (Some name)
    then show ?thesis
      using locked
      by (auto simp: m run_wp_on_main_def andThen_def answer_def apply_verify_profile_def wait_for_lock_def l
          split: option.split sum.split)
  qed
qed

definition locked_project :: wp_server where
  "locked_project = trial_project\<lparr>ws_project := (ws_project trial_project)\<lparr>pr_locked := True\<rparr>\<rparr>"

lemma locked_project_is_left_alone_witness:
  "run_wp trial_wp_env ((trial_run None)\<lparr>wp_provers := Some [''z3'']\<rparr>) locked_project =
     (Inl run_wp_locked_error, locked_project) \<and>
   run_wp trial_wp_env (trial_run (Some ''t'')) locked_project = (Inl run_wp_locked_error, locked_project) \<and>
   calls_of locked_project = []"
proof -
  let ?isolated = "(trial_run None)\<lparr>wp_provers := Some [''z3'']\<rparr>"
  have w: "we_wait trial_wp_env locked_project = locked_project" by (simp add: trial_wp_env_def)
  have lock: "pr_locked (ws_project (if b then locked_project else we_wait trial_wp_env locked_project))" for b
    unfolding w by (simp add: locked_project_def)
  have q: "run_wp_target_scope ?isolated = Inr MainRun" "wp_cancel ?isolated \<noteq> Some True"
    "run_wp_target_scope (trial_run (Some ''t'')) = Inr MainRun" "wp_cancel (trial_run (Some ''t'')) \<noteq> Some True"
    by (simp_all add: run_wp_target_scope_def trial_run_def)
  have c: "check_profile trial_wp_env ''t'' trial_target (trial_run (Some ''t'')) (pr_main (ws_project trial_project)) = Inr ()"
    by code_simp
  have "verify_profile_named ''t'' (srv_session (pr_server (ws_project locked_project))) = Inr trial_target"
    "pr_main (ws_project locked_project) = pr_main (ws_project trial_project)" "pr_locked (ws_project locked_project)"
    using trial_project_fields(1) by (simp_all add: locked_project_def verify_profile_named_def)
  note facts = this c
  have v: "wp_verify_profile ?isolated = None" "wp_verify_profile (trial_run (Some ''t'')) = Some ''t''"
    by (simp_all add: trial_run_def)
  have a: "run_wp trial_wp_env ?isolated locked_project = (Inl run_wp_locked_error, locked_project)"
    using locked_project_is_left_alone [OF q(1,2) lock] facts v(1) by simp
  have b: "run_wp trial_wp_env (trial_run (Some ''t'')) locked_project = (Inl run_wp_locked_error, locked_project)"
    using locked_project_is_left_alone [OF q(3,4) lock] facts v(2) w by simp
  show ?thesis using a b by (simp add: calls_of_def locked_project_def trial_project_def)
qed

section \<open>Settings that stay\<close>

definition prover_call :: "call \<Rightarrow> bool" where
  "prover_call c \<longleftrightarrow> call_endpoint c \<in> {''plugins.wp.setProverState'', ''plugins.wp.setProvers''}"

text \<open>Without provers in the call and in the environment the selection of an earlier call stays.\<close>

lemma unnamed_provers_stay: "only (\<lambda>c. \<not> prover_call c) (apply_wp_config W params None)"
proof -
  have "only (\<lambda>c. \<not> prover_call c) (validate_wp_model W m)" for m
    by (auto simp: only_def validate_wp_model_def split: sum.splits)
  then show ?thesis
    by (auto simp: apply_wp_config_def select_provers_def set_effective_timeout_def set_timeout_def prover_call_def
        main_call_def intro!: sent_rules)
qed

text \<open>A memory model is refused after the time limit of the call was set.\<close>

lemma refused_model_leaves_timeout:
  "\<exists>e t. apply_wp_config trial_wp_env ((trial_run None)\<lparr>wp_model := Some ''Bogus'', wp_timeout := Some 3\<rparr>) None
       trial_project = (Inl e, t) \<and> timeout_call 3 \<in> set (calls_of t)"
proof -
  let ?p = "(trial_run None)\<lparr>wp_model := Some ''Bogus'', wp_timeout := Some 3\<rparr>"
  have ask: "ask (we_load trial_wp_env) k e d p = (Inr (JArr (if e = ''plugins.wp.getProvers''
      then [JStr ''Z3:4'', JStr ''CVC5:1''] else [])),
      p\<lparr>pr_server := (pr_server p)\<lparr>srv_calls := srv_calls (pr_server p) @ [main_call k e d]\<rparr>\<rparr>)" for k e d p
    by (simp add: ask_def send_def trial_wp_env_def trial_env_def trial_requests_def wp_answers_def main_call_def)
  have "isl (validate_model (parse_wp_model_support []) ''Bogus'')" by code_simp
  then obtain m where m: "validate_model (parse_wp_model_support []) ''Bogus'' = Inl m" by (auto simp: isl_def)
  have "find (\<lambda>mode. eq_ignore_ascii_case mode (trim ''Update'')) wp_cache_modes = Some ''Update''" by code_simp
  then have c: "effective_wp_cache (debug_of trial_wp_env) ?p = Inr ''Update''"
    by (simp add: effective_wp_cache_def trial_run_def unwrap_or_def validate_wp_cache_mode_def)
  show ?thesis
    by (simp add: andThen_def wp_ask_def on_project_def ask_mcp_def ask_or_def ask answer_def apply_wp_config_def
        select_provers_def set_effective_timeout_def effective_wp_timeout_from_def set_timeout_def c
        validate_wp_model_def model_of_def unwrap_or_def calls_of_def timeout_call_def)
       (simp add: trial_wp_env_def m)
qed

end
