(* ===== verification/Coverage.thy ===== *)
theory Coverage
  imports Reload
begin

text \<open>
  The coverage report (src/src/mcp/coverage.rs): which target functions have current evidence, why the
  others have not, and how many goals the evidence holds. The digest of each file as it is now is the
  parameter \<open>digest_now\<close> (the code reads every file at most once per report), \<open>percent\<close> answers the bits of
  the quotient of two numbers, and \<open>header_digest\<close> is the digest of the builtin models header.
\<close>

section \<open>Sources that changed\<close>

record source_drift =
  sd_changed :: "string list"
  sd_unchecked :: "string list"
  sd_unnamed :: nat

definition no_drift :: source_drift where
  "no_drift = \<lparr>sd_changed = [], sd_unchecked = [], sd_unnamed = 0\<rparr>"

definition is_stale :: "source_drift \<Rightarrow> bool" where
  "is_stale d \<longleftrightarrow> sd_changed d \<noteq> []"

definition not_checked :: "string \<Rightarrow> source_drift \<Rightarrow> source_drift" where
  "not_checked path d = d\<lparr>sd_unchecked := sd_unchecked d @ [path]\<rparr>"

text \<open>A relative path of one component names no file: it may be a scratch copy.\<close>

definition bare_name :: "string \<Rightarrow> bool" where
  "bare_name path \<longleftrightarrow> \<not> is_absolute_text path \<and> path_parent path = Some []"

definition drift_entry :: "(string \<Rightarrow> string option) \<Rightarrow> json \<Rightarrow> source_drift \<Rightarrow> source_drift" where
  "drift_entry digest_now entry d =
     (case get_str entry ''path'' of
        None \<Rightarrow> d\<lparr>sd_unnamed := sd_unnamed d + 1\<rparr>
      | Some path \<Rightarrow>
          (case get_str entry ''sha256'' of
             None \<Rightarrow> not_checked path d
           | Some recorded \<Rightarrow>
               if bare_name path then not_checked path d
               else (case digest_now path of
                       None \<Rightarrow> not_checked path d
                     | Some current \<Rightarrow>
                         if current = recorded then d else d\<lparr>sd_changed := sd_changed d @ [path]\<rparr>)))"

definition receipt_files :: "json \<Rightarrow> json list" where
  "receipt_files receipt = unwrap_or (pointer_array receipt [''subject'', ''files'']) []"

definition receipt_source_drift :: "(string \<Rightarrow> string option) \<Rightarrow> json \<Rightarrow> source_drift" where
  "receipt_source_drift digest_now receipt = fold (drift_entry digest_now) (receipt_files receipt) no_drift"

section \<open>Why a function is not covered\<close>

record loaded_project =
  lp_files :: "string list"
  lp_load :: json

definition same_load :: "json \<Rightarrow> json \<Rightarrow> bool" where
  "same_load receipt load =
     (case pointer receipt [''subject'', ''project_load''] of None \<Rightarrow> False | Some l \<Rightarrow> json_eq l load)"

definition receipt_matches_project :: "json \<Rightarrow> loaded_project option \<Rightarrow> bool" where
  "receipt_matches_project receipt loaded =
     (case loaded of
        None \<Rightarrow> True
      | Some p \<Rightarrow>
          same_load receipt (lp_load p) \<and>
          (let proved_over = set (List.map_filter (\<lambda>f. get_str f ''path'') (receipt_files receipt));
               current = set (map receipt_source_path (lp_files p))
           in proved_over \<noteq> {} \<and> proved_over = current))"

definition receipt_names_function :: "json \<Rightarrow> string \<Rightarrow> bool" where
  "receipt_names_function receipt f =
     (case pointer_array receipt [''wp'', ''functions''] of
        None \<Rightarrow> False | Some names \<Rightarrow> list_ex (\<lambda>n. as_str n = Some f) names)"

definition proved_under_filter :: "json \<Rightarrow> bool" where
  "proved_under_filter receipt =
     (case pointer receipt [''wp'', ''prop'', ''effective''] of None \<Rightarrow> False | Some prop \<Rightarrow> prop \<noteq> JNull)"

type_synonym profile_asked = "(string \<times> verification_profile) option"

definition profile_reason :: "string \<Rightarrow> function_verification_state \<Rightarrow> profile_asked \<Rightarrow> string option" where
  "profile_reason header_digest entry profile =
     (case profile of
        None \<Rightarrow> None
      | Some (name, p) \<Rightarrow>
          if fv_verify_profile entry \<noteq> Some name then Some ''different_verify_profile''
          else if profile_evidence_error header_digest name p (fv_function entry) (fv_proof_receipt entry) \<noteq> None
          then Some ''profile_evidence_mismatch'' else None)"

definition foreign_receipt :: "function_verification_state \<Rightarrow> loaded_project option \<Rightarrow> bool" where
  "foreign_receipt entry loaded =
     (case fv_proof_receipt entry of None \<Rightarrow> False | Some r \<Rightarrow> \<not> receipt_matches_project r loaded)"

definition row_reason ::
    "string \<Rightarrow> function_verification_state \<Rightarrow> profile_asked \<Rightarrow> source_drift \<Rightarrow> loaded_project option \<Rightarrow> string option" where
  "row_reason header_digest entry profile drift loaded =
     (case profile_reason header_digest entry profile of
        Some reason \<Rightarrow> Some reason
      | None \<Rightarrow>
          if foreign_receipt entry loaded then Some ''different_project''
          else if fv_stale_dependencies entry \<noteq> [] then Some ''stale_dependencies''
          else if fv_stale_proof_environment entry \<noteq> None then Some ''stale_proof_environment''
          else if fv_status entry \<noteq> Verified then Some (verification_status_name (fv_status entry))
          else (case fv_proof_receipt entry of
                  None \<Rightarrow> Some ''missing_proof_receipt''
                | Some receipt \<Rightarrow>
                    if is_stale drift then Some ''stale_source''
                    else if proved_under_filter receipt then Some ''proved_under_a_goal_filter''
                    else if receipt_names_function receipt (fv_function entry) then None
                    else Some ''receipt_does_not_prove_function''))"

section \<open>Rows\<close>

record coverage_row =
  cr_function :: string
  cr_status :: string
  cr_reason :: "string option"
  cr_receipt_sha256 :: "string option"
  cr_drift :: source_drift
  cr_blocking :: "string list"
  cr_callees :: "string list"
  cr_receipt :: "json option"

definition not_started :: "string \<Rightarrow> string \<Rightarrow> coverage_row" where
  "not_started f reason =
     \<lparr>cr_function = f, cr_status = ''not_started'', cr_reason = Some reason, cr_receipt_sha256 = None,
      cr_drift = no_drift, cr_blocking = [], cr_callees = [], cr_receipt = None\<rparr>"

definition stored_sha256 :: "function_verification_state \<Rightarrow> string option" where
  "stored_sha256 entry = Option.bind (fv_proof_receipt entry) (\<lambda>r. get_str r ''sha256'')"

definition undefined_row :: "string \<Rightarrow> function_verification_state option \<Rightarrow> coverage_row" where
  "undefined_row f stored =
     (not_started f ''not_defined_in_project'')
       \<lparr>cr_status := (case stored of None \<Rightarrow> ''not_started'' | Some e \<Rightarrow> verification_status_name (fv_status e)),
        cr_receipt_sha256 := Option.bind stored stored_sha256\<rparr>"

definition in_scope_receipt ::
    "function_verification_state \<Rightarrow> string option \<Rightarrow> loaded_project option \<Rightarrow> json option" where
  "in_scope_receipt entry reason loaded =
     keep_if (\<lambda>r. reason \<notin> {Some ''different_verify_profile'', Some ''profile_evidence_mismatch''} \<and>
       receipt_names_function r (fv_function entry) \<and> receipt_matches_project r loaded) (fv_proof_receipt entry)"

record coverage_inputs =
  ci_targets :: "string list"
  ci_declared_only :: "string list"
  ci_defined :: "string set"
  ci_loaded :: "loaded_project option"
  ci_conclusions :: "(string, function_verification_state) kv"
  ci_profile :: profile_asked
  ci_full :: bool

definition coverage_row_of :: "string \<Rightarrow> (string \<Rightarrow> string option) \<Rightarrow> coverage_inputs \<Rightarrow> string \<Rightarrow> coverage_row" where
  "coverage_row_of header_digest digest_now ci f =
     (if f \<notin> ci_defined ci then undefined_row f (map_of (ci_conclusions ci) f)
      else (case map_of (ci_conclusions ci) f of
              None \<Rightarrow> not_started f ''missing_conclusion''
            | Some entry \<Rightarrow>
                (let drift = (case fv_proof_receipt entry of None \<Rightarrow> no_drift
                              | Some r \<Rightarrow> receipt_source_drift digest_now r);
                     reason = row_reason header_digest entry (ci_profile ci) drift (ci_loaded ci)
                 in \<lparr>cr_function = f, cr_status = verification_status_name (fv_status entry), cr_reason = reason,
                     cr_receipt_sha256 = stored_sha256 entry, cr_drift = drift, cr_blocking = [],
                     cr_callees = fv_callees entry,
                     cr_receipt = in_scope_receipt entry reason (ci_loaded ci)\<rparr>)))"

section \<open>Resting on a function that is not covered\<close>

definition uncovered_names :: "coverage_row list \<Rightarrow> string set" where
  "uncovered_names table = cr_function ` set (filter (\<lambda>row. cr_reason row \<noteq> None) table)"

definition blocking_callees :: "string set \<Rightarrow> coverage_row \<Rightarrow> string list" where
  "blocking_callees uncovered row = filter (\<lambda>callee. callee \<in> uncovered) (cr_callees row)"

definition newly_blocked :: "string set \<Rightarrow> coverage_row \<Rightarrow> bool" where
  "newly_blocked uncovered row \<longleftrightarrow> cr_reason row = None \<and> blocking_callees uncovered row \<noteq> []"

definition block_row :: "string set \<Rightarrow> coverage_row \<Rightarrow> coverage_row" where
  "block_row uncovered row =
     (if newly_blocked uncovered row
      then row\<lparr>cr_blocking := blocking_callees uncovered row, cr_reason := Some ''unverified_callee''\<rparr>
      else row)"

function propagate :: "string set \<Rightarrow> coverage_row list \<Rightarrow> coverage_row list" where
  "propagate uncovered table =
     (let newly = filter (newly_blocked uncovered) table
      in if newly = [] then table
         else propagate (uncovered \<union> cr_function ` set newly) (map (block_row uncovered) table))"
  by pat_completeness auto

lemma fewer_covered:
  assumes "filter (newly_blocked u) table \<noteq> []"
  shows "length (filter (\<lambda>row. cr_reason row = None) (map (block_row u) table))
    < length (filter (\<lambda>row. cr_reason row = None) table)"
proof -
  have le: "length (filter (\<lambda>row. cr_reason row = None) (map (block_row u) rs))
      \<le> length (filter (\<lambda>row. cr_reason row = None) rs)" for rs
    by (induction rs) (auto simp: block_row_def newly_blocked_def)
  from assms show ?thesis
  proof (induction table)
    case (Cons r rs)
    show ?case
    proof (cases "newly_blocked u r")
      case True
      then have "cr_reason r = None" "cr_reason (block_row u r) \<noteq> None"
        by (auto simp: newly_blocked_def block_row_def)
      then show ?thesis using le [of rs] by auto
    next
      case False
      with Cons show ?thesis by (auto simp: block_row_def)
    qed
  qed simp
qed

termination propagate
  by (relation "measure (\<lambda>(u, table). length (filter (\<lambda>row. cr_reason row = None) table))")
     (use fewer_covered in auto)

declare propagate.simps [simp del]

definition propagate_unverified_callees :: "coverage_row list \<Rightarrow> coverage_row list" where
  "propagate_unverified_callees table = propagate (uncovered_names table) table"

section \<open>The report\<close>

definition coverage_rows :: "string \<Rightarrow> (string \<Rightarrow> string option) \<Rightarrow> coverage_inputs \<Rightarrow> coverage_row list" where
  "coverage_rows header_digest digest_now ci =
     propagate_unverified_callees (map (coverage_row_of header_digest digest_now ci) (sort_dedup (ci_targets ci)))"

text \<open>One receipt per digest: the first in the order of the rows.\<close>

definition receipt_key :: "coverage_row \<Rightarrow> string" where
  "receipt_key row =
     (case cr_receipt_sha256 row of Some d \<Rightarrow> ''sha256:'' @ d | None \<Rightarrow> ''function:'' @ cr_function row)"

definition keep_receipt :: "coverage_row \<Rightarrow> (string, json) kv \<Rightarrow> (string, json) kv" where
  "keep_receipt row m =
     (case cr_receipt row of
        None \<Rightarrow> m
      | Some r \<Rightarrow> (case map_of m (receipt_key row) of None \<Rightarrow> bt_insert (receipt_key row) r m | Some _ \<Rightarrow> m))"

definition unique_receipts :: "coverage_row list \<Rightarrow> (string, json) kv" where
  "unique_receipts table = fold keep_receipt table []"

definition goals_of_receipt :: "json \<Rightarrow> json list" where
  "goals_of_receipt r = unwrap_or (get_array r ''goals'') []"

definition counted_goals :: "coverage_row list \<Rightarrow> json list" where
  "counted_goals table = concat (map (goals_of_receipt \<circ> snd) (unique_receipts table))"

definition goal_status :: "json \<Rightarrow> string" where
  "goal_status goal = normalize_frama_c_status (unwrap_or (get_str goal ''status'') ''unknown'')"

definition by_status :: "json list \<Rightarrow> (string, nat) kv" where
  "by_status goals = fold (\<lambda>goal. bt_entry (goal_status goal) 0 (\<lambda>n. n + 1)) goals []"

definition replayed_goals :: "bool \<Rightarrow> json list \<Rightarrow> json list" where
  "replayed_goals cached goals =
     filter (\<lambda>goal. receipt_goal_is_progress goal \<and> goal_is_from_cache goal = Some cached) goals"

definition covered :: "coverage_row list \<Rightarrow> coverage_row list" where
  "covered table = filter (\<lambda>row. cr_reason row = None) table"

definition coverage_complete :: "string list \<Rightarrow> coverage_row list \<Rightarrow> bool" where
  "coverage_complete targets table \<longleftrightarrow>
     targets \<noteq> [] \<and> length (covered table) = length targets \<and>
     length (filter receipt_goal_is_progress (counted_goals table)) = length (counted_goals table) \<and>
     0 < length (counted_goals table)"

definition coverage_row_json :: "coverage_row \<Rightarrow> json" where
  "coverage_row_json row =
     JObj [(''function'', JStr (cr_function row)), (''covered'', JBool (cr_reason row = None)),
       (''status'', JStr (cr_status row)), (''reason'', jopt JStr (cr_reason row)),
       (''blocking_callees'', jstrs (cr_blocking row)),
       (''changed_source_count'', jnat (length (sd_changed (cr_drift row)))),
       (''unchecked_source_count'', jnat (length (sd_unchecked (cr_drift row)) + sd_unnamed (cr_drift row))),
       (''proof_receipt_sha256'', jopt JStr (cr_receipt_sha256 row))]"

definition percent_json :: "(nat \<Rightarrow> nat \<Rightarrow> u64) \<Rightarrow> nat \<Rightarrow> nat \<Rightarrow> json" where
  "percent_json percent n d = JNum (Float (if d = 0 then 0 else percent n d))"

definition limitations :: "string list" where
  "limitations =
     [''WP coverage is over obligations generated by the loaded ACSL, RTE, and WP configuration; omitted requirements are outside this denominator.'',
      ''Goal counts are deduplicated by proof receipt because one WP run can be stored as evidence for several functions.'',
      ''A source file a receipt named but that cannot be read now is counted under unchecked_sources rather than judged, so evidence from a deleted sandbox is reported as unverifiable rather than as unchanged.'',
      ''Functions this project declares without defining are listed under scope.declared_not_defined and are outside both denominators.'',
      ''WP only. EVA alarms are not read here, so a complete verdict is a statement about proof obligations rather than about every analysis this server can run.'',
      ''A target'' @ [apostrophe] @ ''s own command may run checks this server does not, such as a floor on obligations generated or a separate script over the same sources. A profile declares them under build_gates and coverage does not run them, so complete here is not the build'' @ [apostrophe] @ ''s verdict. The list is the profile author'' @ [apostrophe] @ ''s declaration rather than anything this server can verify, so an empty one means none were declared, not that none exist.'',
      ''Whether a covered function declares an assigns clause is not checked, because the conclusion'' @ [apostrophe] @ ''s specs are supplied by the caller and may be absent for a function that has one.'']"

definition declared_elsewhere :: "coverage_inputs \<Rightarrow> string list" where
  "declared_elsewhere ci =
     filter (\<lambda>name. \<not> (name \<in> set (ci_targets ci) \<and> name \<notin> ci_defined ci)) (sort_dedup (ci_declared_only ci))"

definition proof_coverage_report ::
    "(nat \<Rightarrow> nat \<Rightarrow> u64) \<Rightarrow> string \<Rightarrow> (string \<Rightarrow> string option) \<Rightarrow> coverage_inputs \<Rightarrow> json" where
  "proof_coverage_report percent header_digest digest_now ci =
     (let targets = sort_dedup (ci_targets ci);
          table = coverage_rows header_digest digest_now ci;
          goals = counted_goals table;
          valid_functions = length (covered table);
          valid_goals = length (filter receipt_goal_is_progress goals);
          shown = filter (\<lambda>row. ci_full ci \<or> cr_reason row \<noteq> None) table
      in JObj [(''schema'', JStr ''frama-c-mcp.proof-coverage.v1''),
           (''verdict'', JStr (if coverage_complete targets table then ''complete'' else ''incomplete'')),
           (''scope'', JObj [(''verify_profile'', jopt (\<lambda>p. JStr (fst p)) (ci_profile ci)),
              (''source'', JStr (if ci_profile ci \<noteq> None then ''verify_profile'' else ''loaded_defined_functions'')),
              (''declared_not_defined'', jstrs (declared_elsewhere ci))]),
           (''function_coverage'', JObj [(''valid'', jnat valid_functions), (''total'', jnat (length targets)),
              (''percent'', percent_json percent valid_functions (length targets))]),
           (''goal_coverage'', JObj [(''valid'', jnat valid_goals), (''total'', jnat (length goals)),
              (''percent'', percent_json percent valid_goals (length goals)),
              (''by_status'', JObj (map (\<lambda>(s, n). (s, jnat n)) (by_status goals))),
              (''fresh_valid'', jnat (length (replayed_goals False goals))),
              (''cached_valid'', jnat (length (replayed_goals True goals))),
              (''unique_receipts'', jnat (length (unique_receipts table)))]),
           (''functions'', JArr (map coverage_row_json shown)),
           (''functions_omitted'', jnat (length table - length shown)),
           (''changed_sources'', jstrs (sort_dedup (concat (map (\<lambda>r. sd_changed (cr_drift r)) table)))),
           (''unchecked_sources'', jstrs (sort_dedup (concat (map (\<lambda>r. sd_unchecked (cr_drift r)) table)))),
           (''unnamed_sources'', jnat (sum_list (map (\<lambda>r. sd_unnamed (cr_drift r)) table))),
           (''limitations'', jstrs limitations)])"

section \<open>The tool\<close>

definition measured_profile :: "(string \<Rightarrow> string) \<Rightarrow> string option \<Rightarrow> session_state \<Rightarrow> mcp_error + profile_asked" where
  "measured_profile debug requested st =
     (case requested of
        None \<Rightarrow> Inr None
      | Some name \<Rightarrow>
          (case map_of (ss_verification_profiles st) name of
             None \<Rightarrow> Inl (unknown_verify_profile name (ss_verification_profiles st))
           | Some p \<Rightarrow>
               if vp_functions p = []
               then Inl (mcp_error_of InvalidParams
                      (''verify_profile '' @ debug name @ '' declares no functions to measure'') None)
               else Inr (Some (name, p))))"

definition inputs_of :: "session_state \<Rightarrow> main_state option \<Rightarrow> profile_asked \<Rightarrow> bool \<Rightarrow> coverage_inputs" where
  "inputs_of st main profile full =
     (let infos = map snd (session_state.ss_functions st);
          defined_names = map fi_name (filter fi_defined infos)
      in \<lparr>ci_targets = (case profile of None \<Rightarrow> defined_names | Some (_, p) \<Rightarrow> vp_functions p),
          ci_declared_only = map fi_name (filter (\<lambda>i. \<not> fi_defined i \<and>
             (case profile of None \<Rightarrow> True | Some (_, p) \<Rightarrow> fi_name i \<in> set (vp_functions p))) infos),
          ci_defined = set defined_names,
          ci_loaded = map_option (\<lambda>m. \<lparr>lp_files = ms_files m, lp_load = project_load_identity (ms_options m)\<rparr>) main,
          ci_conclusions = ss_conclusions st, ci_profile = profile, ci_full = full\<rparr>)"

definition proof_coverage ::
    "(nat \<Rightarrow> nat \<Rightarrow> u64) \<Rightarrow> (string \<Rightarrow> string) \<Rightarrow> string \<Rightarrow> (string \<Rightarrow> string option) \<Rightarrow> string option \<Rightarrow> bool \<Rightarrow>
     session_state \<Rightarrow> main_state option \<Rightarrow> mcp_error + json" where
  "proof_coverage percent debug header_digest digest_now requested full st main =
     (case measured_profile debug requested st of
        Inl e \<Rightarrow> Inl e
      | Inr profile \<Rightarrow>
          Inr (proof_coverage_report percent header_digest digest_now (inputs_of st main profile full)))"

section \<open>Propagation is exact\<close>

definition rests_on :: "coverage_row list \<Rightarrow> (string \<times> string) set" where
  "rests_on table = (\<Union>row \<in> set table. {cr_function row} \<times> set (cr_callees row))"

definition reaches_gap :: "coverage_row list \<Rightarrow> string \<Rightarrow> bool" where
  "reaches_gap table f \<longleftrightarrow> (\<exists>g \<in> uncovered_names table. (f, g) \<in> (rests_on table)\<^sup>*)"

definition unchanged_but_reason :: "coverage_row \<Rightarrow> coverage_row \<Rightarrow> bool" where
  "unchanged_but_reason a b \<longleftrightarrow>
     b\<lparr>cr_reason := cr_reason a, cr_blocking := cr_blocking a\<rparr> = a \<and> (cr_reason a \<noteq> None \<longrightarrow> b = a)"

lemma unchanged_fields:
  assumes "unchanged_but_reason a b"
  shows "cr_function b = cr_function a" "cr_callees b = cr_callees a" "cr_receipt b = cr_receipt a"
    "cr_receipt_sha256 b = cr_receipt_sha256 a" "cr_drift b = cr_drift a"
proof -
  have a: "a = b\<lparr>cr_reason := cr_reason a, cr_blocking := cr_blocking a\<rparr>"
    using assms by (simp add: unchanged_but_reason_def)
  show "cr_function b = cr_function a" "cr_callees b = cr_callees a" "cr_receipt b = cr_receipt a"
    "cr_receipt_sha256 b = cr_receipt_sha256 a" "cr_drift b = cr_drift a"
    by (subst a, simp)+
qed

lemma block_row_unchanged: "unchanged_but_reason row (block_row u row)"
  by (cases row) (auto simp: unchanged_but_reason_def block_row_def newly_blocked_def)

lemma unchanged_trans: "unchanged_but_reason a b \<Longrightarrow> unchanged_but_reason b c \<Longrightarrow> unchanged_but_reason a c"
  by (cases a; cases b; cases c) (auto simp: unchanged_but_reason_def)

lemma propagate_unchanged: "list_all2 unchanged_but_reason table (propagate u table)"
proof (induction u table rule: propagate.induct)
  case (1 u table)
  have r: "list_all2 unchanged_but_reason table (map (block_row u) table)"
    by (simp add: list_all2_conv_all_nth block_row_unchanged)
  show ?case
  proof (cases "filter (newly_blocked u) table = []")
    case True
    then show ?thesis
      by (simp add: propagate.simps [of u table] list_all2_conv_all_nth unchanged_but_reason_def)
  next
    case False
    from list_all2_trans [OF unchanged_trans r 1 [OF refl False]] False
    show ?thesis by (simp add: propagate.simps [of u table])
  qed
qed

lemma rests_on_block: "rests_on (map (block_row u) table) = rests_on table"
  by (simp add: rests_on_def unchanged_fields [OF block_row_unchanged])

lemma in_uncovered:
  "f \<in> uncovered_names table \<longleftrightarrow> (\<exists>row \<in> set table. cr_function row = f \<and> cr_reason row \<noteq> None)"
  by (auto simp: uncovered_names_def)

lemma uncovered_block:
  "uncovered_names (map (block_row u) table) = uncovered_names table \<union> cr_function ` set (filter (newly_blocked u) table)"
proof -
  have r: "cr_reason (block_row u row) \<noteq> None \<longleftrightarrow> cr_reason row \<noteq> None \<or> newly_blocked u row" for row
    by (auto simp: block_row_def)
  have "f \<in> uncovered_names (map (block_row u) table) \<longleftrightarrow>
      (\<exists>row \<in> set table. cr_function row = f \<and> (cr_reason row \<noteq> None \<or> newly_blocked u row))" for f
    unfolding r [symmetric] by (simp add: in_uncovered unchanged_fields [OF block_row_unchanged])
  then show ?thesis
    by (intro set_eqI) (simp only: Un_iff in_uncovered image_iff set_filter mem_Collect_eq, blast)
qed

lemma closed_when_settled:
  assumes "filter (newly_blocked (uncovered_names table)) table = []"
    and f: "f \<notin> uncovered_names table" and "(f, g) \<in> (rests_on table)\<^sup>*"
  shows "g \<notin> uncovered_names table"
  using assms(3)
proof (induction rule: rtrancl_induct)
  case base
  show ?case by (rule f)
next
  case (step h c)
  from step(2) obtain row where row: "row \<in> set table" "cr_function row = h" "c \<in> set (cr_callees row)"
    by (auto simp: rests_on_def)
  with step(3) have "cr_reason row = None" by (auto simp: uncovered_names_def)
  with row(1) assms(1) have "blocking_callees (uncovered_names table) row = []"
    by (auto simp: newly_blocked_def filter_empty_conv)
  with row(3) show ?case by (auto simp: blocking_callees_def filter_empty_conv)
qed

lemma propagate_reason:
  assumes "distinct (map cr_function table)" "u = uncovered_names table" "i < length table"
  shows "cr_reason (propagate u table ! i) = None \<longleftrightarrow> \<not> reaches_gap table (cr_function (table ! i))"
  using assms
proof (induction u table rule: propagate.induct)
  case (1 u table)
  let ?f = "cr_function (table ! i)"
  show ?case
  proof (cases "filter (newly_blocked u) table = []")
    case True
    have "cr_reason (table ! i) = None \<longleftrightarrow> ?f \<notin> uncovered_names table"
      using 1(2,4) unfolding in_uncovered distinct_map by (metis inj_onD nth_mem)
    moreover have "propagate u table = table" using True by (simp add: propagate.simps [of u table])
    moreover have "?f \<notin> uncovered_names table \<longleftrightarrow> \<not> reaches_gap table ?f"
      using closed_when_settled [OF True [unfolded 1(3)]] by (auto simp: reaches_gap_def)
    ultimately show ?thesis by simp
  next
    case False
    have names: "map cr_function (map (block_row u) table) = map cr_function table"
      by (simp add: unchanged_fields [OF block_row_unchanged])
    have u1: "u \<union> cr_function ` set (filter (newly_blocked u) table) = uncovered_names (map (block_row u) table)"
      using 1(3) by (simp add: uncovered_block)
    have "reaches_gap (map (block_row u) table) ?f \<longleftrightarrow> reaches_gap table ?f"
    proof
      assume "reaches_gap (map (block_row u) table) ?f"
      then obtain g where g: "g \<in> u \<union> cr_function ` set (filter (newly_blocked u) table)" "(?f, g) \<in> (rests_on table)\<^sup>*"
        by (auto simp: reaches_gap_def rests_on_block uncovered_block 1(3))
      show "reaches_gap table ?f"
      proof (cases "g \<in> u")
        case True
        with g(2) 1(3) show ?thesis by (auto simp: reaches_gap_def)
      next
        case False
        with g(1) obtain row where row: "row \<in> set table" "newly_blocked u row" "g = cr_function row" by auto
        then obtain c where "c \<in> set (cr_callees row)" "c \<in> u"
          by (auto simp: newly_blocked_def blocking_callees_def filter_empty_conv)
        moreover with row have "(g, c) \<in> rests_on table" by (auto simp: rests_on_def)
        ultimately show ?thesis
          using g(2) 1(3) by (auto simp: reaches_gap_def intro: rtrancl_into_rtrancl)
      qed
    next
      assume "reaches_gap table ?f"
      then show "reaches_gap (map (block_row u) table) ?f"
        by (auto simp: reaches_gap_def rests_on_block uncovered_block)
    qed
    moreover have "cr_reason (propagate (u \<union> cr_function ` set (filter (newly_blocked u) table)) (map (block_row u) table) ! i) = None
        \<longleftrightarrow> \<not> reaches_gap (map (block_row u) table) (cr_function (map (block_row u) table ! i))"
      by (rule 1(1) [OF refl False _ u1]) (simp_all only: names 1(2) length_map 1(4))
    ultimately show ?thesis
      using False 1(4) by (simp add: propagate.simps [of u table] unchanged_fields [OF block_row_unchanged])
  qed
qed

text \<open>C13: a row of the report is covered exactly when it has no gap of its own and no chain of callees, each
  called by a row of the report, leads to one that has; nothing else of a row changes.\<close>

theorem covered_iff_no_gap_below:
  assumes "distinct (map cr_function table)" "i < length table"
  shows "(cr_reason (propagate_unverified_callees table ! i) = None
      \<longleftrightarrow> (\<nexists>g. g \<in> uncovered_names table \<and> (cr_function (table ! i), g) \<in> (rests_on table)\<^sup>*)) \<and>
    length (propagate_unverified_callees table) = length table \<and>
    unchanged_but_reason (table ! i) (propagate_unverified_callees table ! i)"
  using propagate_reason [OF assms(1) refl assms(2)] propagate_unchanged [of table "uncovered_names table"] assms(2)
  by (auto simp: propagate_unverified_callees_def reaches_gap_def list_all2_conv_all_nth)

definition chain_row :: "string \<Rightarrow> string option \<Rightarrow> string list \<Rightarrow> coverage_row" where
  "chain_row f reason callees = (not_started f [])\<lparr>cr_reason := reason, cr_callees := callees\<rparr>"

definition chain_of_three :: "coverage_row list" where
  "chain_of_three = [chain_row ''a'' None [''b''], chain_row ''b'' None [''c'', ''libc''], chain_row ''c'' (Some ''failed'') [],
     chain_row ''d'' None [''libc'']]"

lemma covered_iff_no_gap_below_witness:
  "map (\<lambda>row. cr_reason row = None) (propagate_unverified_callees chain_of_three) = [False, False, False, True]
   \<and> (\<nexists>g. g \<in> uncovered_names chain_of_three \<and> (''d'', g) \<in> (rests_on chain_of_three)\<^sup>*)"
proof -
  have d: "distinct (map cr_function chain_of_three)" "3 < length chain_of_three" by code_simp+
  have r: "map (\<lambda>row. cr_reason row = None) (propagate_unverified_callees chain_of_three) = [False, False, False, True]"
    by code_simp
  have "propagate_unverified_callees chain_of_three ! 3 \<in> set (propagate_unverified_callees chain_of_three)"
    "cr_reason (propagate_unverified_callees chain_of_three ! 3) = None"
    "cr_function (chain_of_three ! 3) = ''d''"
    by code_simp+
  with covered_iff_no_gap_below [OF d] r show ?thesis by simp
qed

section \<open>A complete report\<close>

definition file_changed :: "(string \<Rightarrow> string option) \<Rightarrow> json \<Rightarrow> bool" where
  "file_changed digest_now file_entry \<longleftrightarrow>
     (case (get_str file_entry ''path'', get_str file_entry ''sha256'') of
        (Some path, Some recorded) \<Rightarrow>
          \<not> bare_name path \<and> (case digest_now path of None \<Rightarrow> False | Some current \<Rightarrow> current \<noteq> recorded)
      | _ \<Rightarrow> False)"

lemma drift_fold:
  "is_stale (fold (drift_entry digest_now) entries d) \<longleftrightarrow> is_stale d \<or> (\<exists>e \<in> set entries. file_changed digest_now e)"
proof (induction entries arbitrary: d)
  case (Cons e es)
  have "is_stale (drift_entry digest_now e d) \<longleftrightarrow> is_stale d \<or> file_changed digest_now e"
    by (auto simp: drift_entry_def file_changed_def is_stale_def not_checked_def split: option.splits)
  with Cons show ?case by auto
qed simp

lemma stale_iff_changed:
  "is_stale (receipt_source_drift digest_now r) \<longleftrightarrow> (\<exists>e \<in> set (receipt_files r). file_changed digest_now e)"
  by (simp add: receipt_source_drift_def drift_fold) (simp add: is_stale_def no_drift_def)

text \<open>A file of a receipt whose digest now is the recorded one, and what the report says of the others.\<close>

definition file_unchanged :: "(string \<Rightarrow> string option) \<Rightarrow> json \<Rightarrow> bool" where
  "file_unchanged digest_now file_entry \<longleftrightarrow>
     (\<exists>path recorded. get_str file_entry ''path'' = Some path \<and> get_str file_entry ''sha256'' = Some recorded \<and>
        \<not> bare_name path \<and> digest_now path = Some recorded)"

definition named_unchecked :: "json \<Rightarrow> json \<Rightarrow> bool" where
  "named_unchecked report file_entry \<longleftrightarrow>
     (case get_str file_entry ''path'' of
        None \<Rightarrow> (\<exists>n. jget report ''unnamed_sources'' = Some (jnat n) \<and> 0 < n)
      | Some path \<Rightarrow> (\<exists>paths. jget report ''unchecked_sources'' = Some (jstrs paths) \<and> path \<in> set paths))"

definition drift_lists :: "source_drift \<Rightarrow> json \<Rightarrow> bool" where
  "drift_lists d file_entry \<longleftrightarrow>
     (case get_str file_entry ''path'' of None \<Rightarrow> 0 < sd_unnamed d | Some path \<Rightarrow> path \<in> set (sd_unchecked d))"

lemma drift_entry_lists:
  "file_unchanged digest_now e \<or> file_changed digest_now e \<or> drift_lists (drift_entry digest_now e d) e"
  by (auto simp: drift_entry_def file_changed_def file_unchanged_def not_checked_def drift_lists_def
      split: option.split)

lemma drift_entry_keeps: "drift_lists d e \<Longrightarrow> drift_lists (drift_entry digest_now e' d) e"
  by (auto simp: drift_entry_def not_checked_def drift_lists_def split: option.splits)

lemma drift_accounts:
  "e \<in> set entries \<Longrightarrow> file_unchanged digest_now e \<or> file_changed digest_now e \<or>
     drift_lists (fold (drift_entry digest_now) entries d) e"
proof (induction entries rule: rev_induct)
  case (snoc entry_after entries)
  then show ?case using drift_entry_lists drift_entry_keeps by (cases "e = entry_after") auto
qed simp

lemma receipt_drift_accounts:
  assumes "e \<in> set (receipt_files receipt)" "\<not> file_changed digest_now e"
    and drift: "cr_drift row = receipt_source_drift digest_now receipt"
    and row: "row \<in> set (coverage_rows header_digest digest_now ci)"
  shows "file_unchanged digest_now e \<or>
    named_unchecked (proof_coverage_report percent header_digest digest_now ci) e"
proof -
  let ?table = "coverage_rows header_digest digest_now ci"
    and ?report = "proof_coverage_report percent header_digest digest_now ci"
  have "row \<in> set table \<Longrightarrow> sd_unnamed (cr_drift row) \<le> sum_list (map (\<lambda>r. sd_unnamed (cr_drift r)) table)" for table
    by (induction table) auto
  from this [OF row]
  have "0 < sd_unnamed (cr_drift row) \<Longrightarrow> 0 < sum_list (map (\<lambda>r. sd_unnamed (cr_drift r)) ?table)" by simp
  moreover have "jget ?report ''unnamed_sources'' = Some (jnat (sum_list (map (\<lambda>r. sd_unnamed (cr_drift r)) ?table)))"
    "jget ?report ''unchecked_sources'' = Some (jstrs (sort_dedup (concat (map (\<lambda>r. sd_unchecked (cr_drift r)) ?table))))"
    by (simp_all add: proof_coverage_report_def Let_def)
  moreover have "p \<in> set (sd_unchecked (cr_drift row)) \<Longrightarrow>
      p \<in> set (sort_dedup (concat (map (\<lambda>r. sd_unchecked (cr_drift r)) ?table)))" for p
    using row by auto
  moreover have "drift_lists (cr_drift row) e \<or> file_unchanged digest_now e"
    using drift_accounts [OF assms(1), of digest_now no_drift] assms(2) drift
    by (auto simp: receipt_source_drift_def)
  ultimately show ?thesis
    by (cases "get_str e ''path''") (auto simp: named_unchecked_def drift_lists_def simp del: set_sort_dedup)
qed

definition current_evidence ::
    "string \<Rightarrow> (string \<Rightarrow> string option) \<Rightarrow> coverage_inputs \<Rightarrow> function_verification_state \<Rightarrow> json \<Rightarrow> bool" where
  "current_evidence header_digest digest_now ci entry receipt \<longleftrightarrow>
     fv_proof_receipt entry = Some receipt \<and> fv_status entry = Verified \<and> fv_stale_dependencies entry = [] \<and>
     fv_stale_proof_environment entry = None \<and> profile_reason header_digest entry (ci_profile ci) = None \<and>
     receipt_matches_project receipt (ci_loaded ci) \<and> receipt_names_function receipt (fv_function entry) \<and>
     \<not> proved_under_filter receipt \<and> (\<forall>e \<in> set (receipt_files receipt). \<not> file_changed digest_now e)"

lemma covered_row_evidence:
  assumes "cr_reason (coverage_row_of header_digest digest_now ci f) = None"
  shows "\<exists>entry receipt. f \<in> ci_defined ci \<and> map_of (ci_conclusions ci) f = Some entry \<and>
    current_evidence header_digest digest_now ci entry receipt \<and>
    cr_receipt (coverage_row_of header_digest digest_now ci f) = Some receipt \<and>
    cr_receipt_sha256 (coverage_row_of header_digest digest_now ci f) = get_str receipt ''sha256'' \<and>
    cr_drift (coverage_row_of header_digest digest_now ci f) = receipt_source_drift digest_now receipt"
proof -
  from assms have d: "f \<in> ci_defined ci"
    by (auto simp: coverage_row_of_def undefined_row_def not_started_def split: if_splits)
  with assms obtain entry where e: "map_of (ci_conclusions ci) f = Some entry"
    by (auto simp: coverage_row_of_def not_started_def split: option.splits)
  define drift where "drift = (case fv_proof_receipt entry of None \<Rightarrow> no_drift | Some r \<Rightarrow> receipt_source_drift digest_now r)"
  have r: "row_reason header_digest entry (ci_profile ci) drift (ci_loaded ci) = None"
    using assms d e by (simp add: coverage_row_of_def Let_def drift_def)
  then obtain receipt where receipt: "fv_proof_receipt entry = Some receipt"
    by (auto simp: row_reason_def split: option.splits if_splits)
  with r have ev: "current_evidence header_digest digest_now ci entry receipt"
    by (auto simp: row_reason_def current_evidence_def foreign_receipt_def drift_def stale_iff_changed
        split: option.splits if_splits)
  then have "in_scope_receipt entry None (ci_loaded ci) = Some receipt"
    by (simp add: in_scope_receipt_def keep_if_def current_evidence_def)
  with d e r receipt ev show ?thesis
    by (auto simp: coverage_row_of_def Let_def drift_def stored_sha256_def)
qed

lemma keep_receipt_grows:
  "ordered m \<Longrightarrow> ordered (keep_receipt row m) \<and> (map_of m k = Some r \<longrightarrow> map_of (keep_receipt row m) k = Some r) \<and>
   (map_of (keep_receipt row m) k = Some r \<longrightarrow> map_of m k = Some r \<or> (cr_receipt row = Some r \<and> receipt_key row = k))"
  by (auto simp: keep_receipt_def split: option.splits)

lemma keep_receipt_has:
  "cr_receipt row \<noteq> None \<Longrightarrow> map_of (keep_receipt row m) (receipt_key row) \<noteq> None"
  by (auto simp: keep_receipt_def split: option.splits)

lemma unique_receipts_ordered: "ordered (unique_receipts table)"
proof -
  have "ordered m \<Longrightarrow> ordered (fold keep_receipt table m)" for m
    by (induction table arbitrary: m) (simp_all add: keep_receipt_grows)
  then show ?thesis by (simp add: unique_receipts_def)
qed

lemma unique_receipts_from:
  "map_of (unique_receipts table) k = Some r \<Longrightarrow> \<exists>row \<in> set table. cr_receipt row = Some r \<and> receipt_key row = k"
proof (induction table rule: rev_induct)
  case Nil
  then show ?case by (simp add: unique_receipts_def)
next
  case (snoc row table)
  have s: "unique_receipts (table @ [row]) = keep_receipt row (unique_receipts table)"
    by (simp add: unique_receipts_def)
  with snoc.prems keep_receipt_grows [OF unique_receipts_ordered [of table], of row k r]
  have "map_of (unique_receipts table) k = Some r \<or> (cr_receipt row = Some r \<and> receipt_key row = k)" by simp
  with snoc.IH show ?case by auto
qed

lemma unique_receipts_has:
  "row \<in> set table \<Longrightarrow> cr_receipt row \<noteq> None \<Longrightarrow> map_of (unique_receipts table) (receipt_key row) \<noteq> None"
proof (induction table rule: rev_induct)
  case (snoc last_row table)
  have s: "unique_receipts (table @ [last_row]) = keep_receipt last_row (unique_receipts table)"
    by (simp add: unique_receipts_def)
  show ?case
  proof (cases "row \<in> set table")
    case True
    with snoc obtain r where "map_of (unique_receipts table) (receipt_key row) = Some r" by blast
    with keep_receipt_grows [OF unique_receipts_ordered [of table], of last_row "receipt_key row" r] s
    show ?thesis by simp
  next
    case False
    with snoc.prems have "row = last_row" by simp
    with snoc.prems(2) s keep_receipt_has show ?thesis by simp
  qed
qed simp

lemma all_pass: "length (filter P xs) = length xs \<Longrightarrow> \<forall>x \<in> set xs. P x"
  by (metis filter_id_conv length_filter_less less_irrefl)

lemma counted_goals_of:
  assumes "length (filter receipt_goal_is_progress (counted_goals table)) = length (counted_goals table)"
    "map_of (unique_receipts table) k = Some r"
  shows "\<forall>goal \<in> set (goals_of_receipt r). receipt_goal_is_progress goal"
proof -
  have "(k, r) \<in> set (unique_receipts table)"
    using assms(2) ordered_map_of [OF unique_receipts_ordered] by blast
  then have "set (goals_of_receipt r) \<subseteq> set (counted_goals table)"
    by (force simp: counted_goals_def)
  with all_pass [OF assms(1)] show ?thesis by blast
qed

lemma complete_rows:
  assumes "get_str (proof_coverage_report percent header_digest digest_now ci) ''verdict'' = Some ''complete''"
  shows "coverage_complete (sort_dedup (ci_targets ci)) (coverage_rows header_digest digest_now ci)"
proof (rule ccontr)
  assume "\<not> coverage_complete (sort_dedup (ci_targets ci)) (coverage_rows header_digest digest_now ci)"
  with assms show False by (simp add: proof_coverage_report_def Let_def get_str_def)
qed

lemma rows_of_targets:
  "list_all2 unchanged_but_reason (map (coverage_row_of header_digest digest_now ci) (sort_dedup (ci_targets ci)))
     (coverage_rows header_digest digest_now ci)"
  by (simp add: coverage_rows_def propagate_unverified_callees_def propagate_unchanged)

lemma row_function: "cr_function (coverage_row_of header_digest digest_now ci f) = f"
  by (simp add: coverage_row_of_def undefined_row_def not_started_def Let_def split: option.split)

lemma complete_all_covered:
  assumes "coverage_complete (sort_dedup (ci_targets ci)) (coverage_rows header_digest digest_now ci)"
    and "row \<in> set (coverage_rows header_digest digest_now ci)"
  shows "cr_reason row = None"
proof -
  have "length (coverage_rows header_digest digest_now ci) = length (sort_dedup (ci_targets ci))"
    using list_all2_lengthD [OF rows_of_targets, of header_digest digest_now ci] by simp
  with assms(1) have "length (filter (\<lambda>row. cr_reason row = None) (coverage_rows header_digest digest_now ci))
      = length (coverage_rows header_digest digest_now ci)"
    by (simp add: coverage_complete_def covered_def)
  from all_pass [OF this] assms(2) show ?thesis by blast
qed

definition evidence_row ::
    "string \<Rightarrow> (string \<Rightarrow> string option) \<Rightarrow> coverage_inputs \<Rightarrow> string \<Rightarrow> coverage_row \<Rightarrow> function_verification_state \<Rightarrow> json \<Rightarrow> bool" where
  "evidence_row header_digest digest_now ci f row entry receipt \<longleftrightarrow>
     f \<in> ci_defined ci \<and> map_of (ci_conclusions ci) f = Some entry \<and>
     current_evidence header_digest digest_now ci entry receipt \<and> cr_function row = f \<and>
     cr_receipt row = Some receipt \<and> cr_receipt_sha256 row = get_str receipt ''sha256'' \<and>
     cr_drift row = receipt_source_drift digest_now receipt"

lemma row_evidence:
  assumes c: "coverage_complete (sort_dedup (ci_targets ci)) (coverage_rows header_digest digest_now ci)"
    and i: "i < length (sort_dedup (ci_targets ci))"
  shows "\<exists>entry receipt. evidence_row header_digest digest_now ci (sort_dedup (ci_targets ci) ! i)
    (coverage_rows header_digest digest_now ci ! i) entry receipt"
proof -
  let ?f = "sort_dedup (ci_targets ci) ! i" and ?row = "coverage_rows header_digest digest_now ci ! i"
  have u: "unchanged_but_reason (coverage_row_of header_digest digest_now ci ?f) ?row"
    using list_all2_nthD [OF rows_of_targets, of i header_digest digest_now ci] i by simp
  have "?row \<in> set (coverage_rows header_digest digest_now ci)"
    using list_all2_lengthD [OF rows_of_targets, of header_digest digest_now ci] i by (simp del: set_sort_dedup)
  from complete_all_covered [OF c this] u
  have "cr_reason (coverage_row_of header_digest digest_now ci ?f) = None"
    by (auto simp: unchanged_but_reason_def)
  from covered_row_evidence [OF this] unchanged_fields [OF u] show ?thesis
    by (simp add: evidence_row_def row_function)
qed

lemma row_of_target:
  assumes "coverage_complete (sort_dedup (ci_targets ci)) (coverage_rows header_digest digest_now ci)"
    and "f \<in> set (ci_targets ci)"
  shows "\<exists>row entry receipt. row \<in> set (coverage_rows header_digest digest_now ci) \<and>
    evidence_row header_digest digest_now ci f row entry receipt"
proof -
  have "f \<in> set (sort_dedup (ci_targets ci))" using assms(2) by simp
  then obtain i where i: "i < length (sort_dedup (ci_targets ci))" "sort_dedup (ci_targets ci) ! i = f"
    unfolding in_set_conv_nth by blast
  moreover have "coverage_rows header_digest digest_now ci ! i \<in> set (coverage_rows header_digest digest_now ci)"
    using list_all2_lengthD [OF rows_of_targets, of header_digest digest_now ci] i(1) by simp
  ultimately show ?thesis using row_evidence [OF assms(1) i(1)] by auto
qed

lemma target_of_row:
  assumes "coverage_complete (sort_dedup (ci_targets ci)) (coverage_rows header_digest digest_now ci)"
    and "row \<in> set (coverage_rows header_digest digest_now ci)"
  shows "\<exists>g entry receipt. g \<in> set (ci_targets ci) \<and> evidence_row header_digest digest_now ci g row entry receipt"
proof -
  from assms(2) obtain i where i: "i < length (coverage_rows header_digest digest_now ci)"
      "coverage_rows header_digest digest_now ci ! i = row"
    unfolding in_set_conv_nth by blast
  then have l: "i < length (sort_dedup (ci_targets ci))"
    using list_all2_lengthD [OF rows_of_targets, of header_digest digest_now ci] by simp
  then have "sort_dedup (ci_targets ci) ! i \<in> set (ci_targets ci)"
    using nth_mem [OF l] by simp
  with row_evidence [OF assms(1) l] i(2) show ?thesis by auto
qed

lemma same_receipt_key:
  assumes "receipt_key row = receipt_key row'"
  shows "cr_receipt_sha256 row = cr_receipt_sha256 row' \<and>
    (cr_function row = cr_function row' \<or> cr_receipt_sha256 row \<noteq> None)"
  using assms by (auto simp: receipt_key_def split: option.splits)

text \<open>C12: a report says \<open>complete\<close> only when every target is defined in the loaded project and has a verified
  conclusion that nothing made stale, with a receipt that names the function, is of the loaded project and
  of the profile asked for and was not proved under a goal filter; each file entry of that receipt either has
  now the digest it recorded, or the same report names its path under \<open>unchecked_sources\<close> (for an entry with no
  path it counts it under \<open>unnamed_sources\<close>), so that only a report that lists nothing there says that every
  file is unchanged; and the receipt counted under its digest, one of the targets', has only goals that are proved.\<close>

theorem complete_coverage_is_evidence:
  assumes complete: "get_str (proof_coverage_report percent header_digest digest_now ci) ''verdict'' = Some ''complete''"
    and f: "f \<in> set (ci_targets ci)"
  shows "\<exists>entry receipt. f \<in> ci_defined ci \<and> map_of (ci_conclusions ci) f = Some entry \<and>
    current_evidence header_digest digest_now ci entry receipt \<and>
    (\<forall>e \<in> set (receipt_files receipt). file_unchanged digest_now e \<or>
       named_unchecked (proof_coverage_report percent header_digest digest_now ci) e) \<and>
    (\<exists>g other counted. g \<in> set (ci_targets ci) \<and> map_of (ci_conclusions ci) g = Some other \<and>
       fv_proof_receipt other = Some counted \<and>
       (get_str receipt ''sha256'' = get_str counted ''sha256'' \<and> (g = f \<or> get_str receipt ''sha256'' \<noteq> None)) \<and>
       list_all receipt_goal_is_progress (goals_of_receipt counted))"
proof -
  let ?table = "coverage_rows header_digest digest_now ci"
  have c: "coverage_complete (sort_dedup (ci_targets ci)) ?table" using complete by (rule complete_rows)
  from row_of_target [OF c f] obtain row entry receipt where row: "row \<in> set ?table"
      "evidence_row header_digest digest_now ci f row entry receipt" by blast
  then have "cr_receipt row \<noteq> None" by (simp add: evidence_row_def)
  with unique_receipts_has [OF row(1)] obtain counted where
    counted: "map_of (unique_receipts ?table) (receipt_key row) = Some counted" by blast
  from unique_receipts_from [OF counted] obtain row' where row': "row' \<in> set ?table"
      "cr_receipt row' = Some counted" "receipt_key row' = receipt_key row" by blast
  from target_of_row [OF c row'(1)] obtain g other receipt' where g: "g \<in> set (ci_targets ci)"
      "evidence_row header_digest digest_now ci g row' other receipt'" by blast
  have "list_all receipt_goal_is_progress (goals_of_receipt counted)"
    using counted_goals_of [OF _ counted] c by (simp add: coverage_complete_def list_all_iff)
  moreover have r': "receipt' = counted" using g(2) row'(2) by (simp add: evidence_row_def)
  with same_receipt_key [OF row'(3)] row(2) g(2)
  have "get_str receipt ''sha256'' = get_str counted ''sha256'' \<and> (g = f \<or> get_str receipt ''sha256'' \<noteq> None)"
    by (auto simp: evidence_row_def)
  moreover have "map_of (ci_conclusions ci) g = Some other" "fv_proof_receipt other = Some counted"
    using g(2) r' by (simp_all add: evidence_row_def current_evidence_def)
  moreover have "f \<in> ci_defined ci" "map_of (ci_conclusions ci) f = Some entry"
      "current_evidence header_digest digest_now ci entry receipt"
    using row(2) by (simp_all add: evidence_row_def)
  moreover have "file_unchanged digest_now e \<or>
      named_unchecked (proof_coverage_report percent header_digest digest_now ci) e"
    if "e \<in> set (receipt_files receipt)" for e
    using row that by (intro receipt_drift_accounts) (auto simp: evidence_row_def current_evidence_def)
  ultimately show ?thesis using g(1) by blast
qed

definition shared_receipt :: json where
  "shared_receipt = JObj
     [(''sha256'', JStr ''d1''),
      (''subject'', JObj [(''files'', JArr [JObj [(''path'', JStr ''/p/a.c''), (''sha256'', JStr ''s1'')],
         JObj [(''path'', JStr ''/p/gone.c''), (''sha256'', JNull)]]),
         (''project_load'', JObj [])]),
      (''wp'', JObj [(''functions'', JArr [JStr ''f'', JStr ''g''])]),
      (''goals'', JArr [JObj [(''status'', JStr ''valid'')]])]"

definition two_covered :: coverage_inputs where
  "two_covered =
     \<lparr>ci_targets = [''g'', ''f''], ci_declared_only = [], ci_defined = set [''f'', ''g''],
      ci_loaded = Some \<lparr>lp_files = [''/p/a.c'', ''/p/gone.c''], lp_load = JObj []\<rparr>,
      ci_conclusions = map (\<lambda>f. (f, (empty_conclusion_static f)
        \<lparr>fv_status := Verified, fv_proof_receipt := Some shared_receipt\<rparr>)) [''f'', ''g''],
      ci_profile = None, ci_full = False\<rparr>"

text \<open>The receipt could not record a digest of the second file: the report is complete and names that file.\<close>

lemma complete_coverage_is_evidence_witness:
  "get_str (proof_coverage_report (\<lambda>n d. 0) [] (\<lambda>path. Some ''s1'') two_covered) ''verdict'' = Some ''complete'' \<and>
   get_str (proof_coverage_report (\<lambda>n d. 0) [] (\<lambda>path. Some ''s2'') two_covered) ''verdict'' = Some ''incomplete'' \<and>
   (\<exists>entry receipt. map_of (ci_conclusions two_covered) ''f'' = Some entry \<and>
      current_evidence [] (\<lambda>path. Some ''s1'') two_covered entry receipt) \<and>
   named_unchecked (proof_coverage_report (\<lambda>n d. 0) [] (\<lambda>path. Some ''s1'') two_covered)
     (JObj [(''path'', JStr ''/p/gone.c''), (''sha256'', JNull)])"
proof -
  let ?r = "\<lambda>digest. proof_coverage_report (\<lambda>n d. 0) [] (\<lambda>path. Some digest) two_covered"
  let ?gone = "JObj [(''path'', JStr ''/p/gone.c''), (''sha256'', JNull)]"
  have c: "coverage_complete (sort_dedup (ci_targets two_covered)) (coverage_rows [] (\<lambda>path. Some ''s1'') two_covered)"
    by code_simp
  have n: "\<not> coverage_complete (sort_dedup (ci_targets two_covered)) (coverage_rows [] (\<lambda>path. Some ''s2'') two_covered)"
    by code_simp
  have v: "get_str (?r ''s1'') ''verdict'' = Some ''complete''" "get_str (?r ''s2'') ''verdict'' = Some ''incomplete''"
    using c n by (simp_all add: proof_coverage_report_def Let_def get_str_def)
  have f: "''f'' \<in> set (ci_targets two_covered)" by code_simp
  from complete_coverage_is_evidence [OF v(1) f] obtain entry receipt where
    e: "map_of (ci_conclusions two_covered) ''f'' = Some entry"
      "current_evidence [] (\<lambda>path. Some ''s1'') two_covered entry receipt"
      "\<forall>e \<in> set (receipt_files receipt). file_unchanged (\<lambda>path. Some ''s1'') e \<or> named_unchecked (?r ''s1'') e"
    by blast
  have "receipt = shared_receipt" using e(1,2) by (auto simp: two_covered_def current_evidence_def)
  then have "?gone \<in> set (receipt_files receipt)" by (simp add: shared_receipt_def receipt_files_def pointer_array_def)
  moreover have "\<not> file_unchanged (\<lambda>path. Some ''s1'') ?gone" by (simp add: file_unchanged_def get_str_def)
  ultimately show ?thesis using v e by blast
qed

end
