(* ===== verification/Spec2Isabelle.thy ===== *)
theory Spec2Isabelle
  imports Client Conclusions Topo Must_Lockset Races Inject_Props Reload_Props Goal_Diff Wp_Run_Props Coverage
begin

text \<open>
  A model of frama-c-mcp, a server of the Model Context Protocol that drives Frama-C. An agent calls its
  tools; the server keeps one Frama-C process for the loaded project (and one per sandbox), talks to it
  over a socket, classifies what comes back and answers JSON. What makes the server trustworthy is that it
  never claims more than Frama-C established, and that is what most of the theorems are about: when a
  check may say \<open>proved\<close>, what a receipt is evidence for, when a stored conclusion is still valid, what an
  injected annotation may change, which program a verdict speaks of.

  The parts and how they interact:

  From the socket upwards. \<open>Codec\<close> (src/src/frama-c/codec.rs) frames commands and reads responses,
  \<open>Transport\<close> (transport.rs) reassembles frames from a stream and poisons itself after a failure,
  \<open>Client\<close> (client.rs) polls for the answer of one request, pages through tables, cancels and shuts down,
  \<open>Errors\<close> and \<open>Mcp_Errors\<close> (src/src/error.rs) are its failures and the tool errors made of them.

  From a row to a verdict. \<open>Status\<close> (mcp/status.rs) and \<open>Verdicts\<close> (mcp/verdicts.rs) normalise the statuses of
  goals and properties and join them; \<open>Wp_Goals\<close> (mcp/server.rs, mcp/analysis.rs) marks instances proved after
  a refuted one, reads the filter of a run and reports what goals assume; \<open>Checkgaps\<close> and \<open>Gates\<close>
  (mcp/checkgaps.rs) list every reason a check is incomplete, and the verdict is \<open>proved\<close> only without
  one; \<open>Report\<close> says which targets are established, what to do next, and compares configurations;
  \<open>Receipt\<close> and \<open>Evidence\<close> (mcp/receipt.rs, mcp/wpclass.rs) stamp the outcome and judge later whether it is
  evidence for a function; \<open>Goal_Diff\<close> (mcp/analysis.rs) compares a run with an earlier receipt, and
  \<open>Coverage\<close> (mcp/coverage.rs) reports which functions have current evidence and how many goals it holds.

  The session. \<open>Session\<close> (state.rs) holds functions, call graph, conclusions with what they depend on and
  the receipts seen; \<open>Conclusion_Json\<close> (state.rs, mcp/store.rs) is a conclusion as \<open>meta.json\<close> and back,
  \<open>Store\<close> (mcp/store.rs) keeps conclusions and sandbox records on disk, with writes that may fail, and
  \<open>Output_Path\<close> (mcp/store.rs, mcp/annotations.rs) confines the paths the server writes to, over a tree of
  directories, files and symbolic links; \<open>Conclusions\<close> (mcp/conclusions.rs) is the tool that stores a conclusion, with its profiles; \<open>Topo\<close>
  (topo.rs) orders the functions callees first and says which are ready.

  Changing the program. \<open>Acsl\<close>, \<open>Server\<close>, \<open>Inject\<close> and \<open>Inject_Props\<close> (mcp/acsl.rs, mcp/annotations.rs) are
  \<open>inject_all_annotations\<close> from its parameters to its answer. \<open>Loading\<close>, \<open>Parse_Log\<close>, \<open>Reload\<close> and
  \<open>Reload_Props\<close> (mcp/project.rs, mcp/server.rs) are \<open>reload_project\<close> with the process behind it, the
  preprocessor flags and the parse report, and \<open>parse_surface\<close>.

  Running WP. \<open>Wp_Config\<close>, \<open>Wp_Run\<close> and \<open>Wp_Run_Props\<close> (mcp/server.rs, mcp/analysis.rs) are \<open>run_wp\<close> on the
  main process: profile, settings, provers, targets, guards, proofs, the wait for the queue,
  cancellation, the retry of timeouts and the floor of a profile.

  The concurrency analysis (mcp/concurrency.rs): \<open>Scan\<close> strips a file and reads its declarations,
  \<open>Survey\<close> finds thread entries and what they reach, \<open>Actions\<close> reads the accesses and locks of a line,
  \<open>Walk\<close> follows the locks held through blocks and early exits, \<open>Must_Lockset\<close> shows the locks are held,
  \<open>Emit\<close> summarises locking across functions, \<open>Races\<close> enumerates race and deadlock candidates.

  \<open>Prelude\<close>, \<open>Json\<close> and \<open>Ordered\<close> are what all share: UTF-8 strings as lists of bytes and the string
  functions of the Rust library, \<open>serde_json\<close> values with their accessors, and the operations of a
  \<open>BTreeMap\<close> on sorted association lists.

  How the code is rendered. A struct is a record, an enum a datatype, \<open>u32\<close> and \<open>u64\<close> are words, a string is
  the list of its bytes, a \<open>HashMap\<close> or \<open>BTreeMap\<close> an association list with distinct keys (sorted where the
  order shows), \<open>Result\<close> a sum with the error on the left. A handler is a function from a state to its
  answer and a new state; the requests it sends are appended to a list in the state, so that a theorem can
  speak of what was sent and in which order, and the early return of the question mark operator is the
  operation \<open>andThen\<close> of \<open>Reload\<close>. Mutexes are not modelled: a handler runs alone, except that waiting for
  the lock of \<open>run_wp\<close> may change the server in any way (\<open>we_wait\<close>).

  Parameters, each a field of a record or an argument, with what is assumed of it stated where it is used:
  what Frama-C answers to each request, which may depend on all requests before it (\<open>server_env\<close>, \<open>load_env\<close>,
  \<open>wp_env\<close>); the printer and parser of \<open>serde_json\<close>; SHA-256 (assumed free of collisions only in the one lemma
  on stamps); the regular expressions that normalise goal texts; Tarjan's and Kosaraju's
  algorithms of petgraph, with their documented contract; the outcome of each write and the content of the
  file system, the log and the starting of processes; the clock, as a number of checks left, or as milliseconds to which reading adds any amount
  and sleeping at least the time slept; alphanumeric characters beyond ASCII; the quotient of two numbers
  as a float; random digits; the texts of foreign errors.

  Termination. Every function is total. The loops of the code that are bounded by a constant (pages, log
  rounds, rounds of the lock summaries) carry that constant as fuel and the value at the end of
  the fuel is the one the code has there; the wait for the queue of WP, the scans of texts and
  the closures of the call graph are recursions with a measure. The client runs along the events of the
  socket and the readings of the clock it is given and answers that it is still waiting when they end;
  that it answers the response of its request is shown for every such run. One loop of the code does not
  end for every input, the scan of a subscript that does not close on its line: it is a \<open>partial_function\<close>,
  and \<open>line_scan_returns_iff\<close> says when it returns.

  What the lemmas show, by theory: soundness of the verdict and of each gate (\<open>Checkgaps\<close>, \<open>Gates\<close>); exact
  acceptance of receipts (\<open>Evidence\<close>), of loads as evidence and of stored conclusions (\<open>Conclusions\<close>);
  validity of verified conclusions in every reachable session (\<open>Session\<close>); that a restart reads back what was
  last written, field by field and also after writes that failed (\<open>Conclusion_Json\<close>, \<open>Store\<close>); where an accepted
  output path lands, and the one link that leads it outside (\<open>Output_Path\<close>); reassembly of the stream and the answer of a command (\<open>Transport\<close>, \<open>Client\<close>); the order of
  verification and progress (\<open>Topo\<close>); what injection may touch and what it reports (\<open>Inject_Props\<close>); which
  program is loaded, the flags it is parsed with and what the parse report speaks of (\<open>Loading\<close>,
  \<open>Parse_Log\<close>, \<open>Reload_Props\<close>); everything a run of WP under a profile sends besides reads, what it proves and
  leaves set, and what it answers while the project is locked (\<open>Wp_Run_Props\<close>); exactness of the goal
  comparison and of the vacuity marks (\<open>Goal_Diff\<close>, \<open>Wp_Goals\<close>); what a complete coverage report rests on
  (\<open>Coverage\<close>); soundness of locksets over paths that iterate loops, completeness and
  exactness of race and deadlock candidates (\<open>Must_Lockset\<close>, \<open>Survey\<close>, \<open>Emit\<close>, \<open>Races\<close>).

  The interfaces are locales, each interpreted on the definitions of the code in the theory that provides
  them: \<open>keyed_store\<close> (\<open>Prelude\<close>), what a lookup finds after an insertion and that insertion keeps the
  invariant, for association lists and for sorted ones (\<open>Ordered\<close>); \<open>frame_format\<close> (\<open>Codec\<close>), decoding a
  framed payload, on which the transport rests; \<open>invariant_machine\<close> (\<open>Prelude\<close>), an invariant that every
  step keeps, for the wire (\<open>Transport\<close>), the session (\<open>Session\<close>), the sandbox file and the conclusions on
  disk (\<open>Store\<close>).

  Not modelled, and why: the classification of failed goals and the proofreading report (mcp/wpclass.rs),
  guidance texts and payload previews, which are prose chosen by keywords; the separate Frama-C runs for
  probes, isolated retries, sandboxes, E-ACSL and the self check (mcp/wpcli.rs, mcp/wpout.rs, mcp/sandbox.rs,
  mcp/eacsl.rs, mcp/selfcheck.rs, mcp/proc.rs), which are processes and the reading of their output; the
  context tool, contract documents and proposed annotations (mcp/annotations.rs, mcp/contracts.rs,
  mcp/propose.rs); the listing tools; parameter schemas, prompts and
  start-up (mcp/types.rs, main.rs); trace output, temporary files and the long texts beside a conclusion,
  which only their readers interpret. The file system is one tree that does not change between the check of
  an output path and the write.
\<close>

end
